(* ===== verification/Prelude.thy ===== *)
theory Prelude
  imports Main "HOL-Library.Word"
begin

unbundle bit_operations_syntax

text \<open>
  Shared vocabulary of the development: the machine types of the C code as
  words, C strings as character lists, the formatted-output and \<open>strtol\<close>
  behaviour of the C library the sources use, and generic facts on lists.

  Conventions used by every theory:
  \<^item> a C \<open>uint8_t/uint16_t/uint32_t/uint64_t\<close> is a word of that width; a
    \<open>size_t\<close> or a loop index is a \<open>nat\<close>; an \<open>int\<close> that only carries small
    values is an \<open>int\<close>;
  \<^item> a \<open>char *\<close> is a \<open>string\<close> (without its terminating NUL), an option of it
    where the code tests it against \<open>NULL\<close>; a byte buffer with its length is
    a byte list;
  \<^item> a buffer that a function fills is part of its result.
\<close>

section \<open>Machine types\<close>

type_synonym byte = "8 word"
type_synonym u16 = "16 word"
type_synonym u32 = "32 word"
type_synonym u64 = "64 word"

named_theorems world_simps \<open>what an operation leaves unchanged in the world\<close>
named_theorems codec_simps \<open>lengths and inverses of encoders and decoders\<close>

text \<open>The value a C cast \<open>(int)x\<close> of an unsigned 32-bit value has.\<close>

definition int_of_u32 :: "u32 \<Rightarrow> int" where
  "int_of_u32 x = sint x"

text \<open>A cast \<open>(int)n\<close> of a \<open>size_t\<close> keeps the low 32 bits, read as signed.\<close>

definition int_of_size :: "nat \<Rightarrow> int" where
  "int_of_size n = sint (word_of_nat n :: u32)"

definition bytes_of_string :: "string \<Rightarrow> byte list" where
  "bytes_of_string s = map of_char s"

lemma length_bytes_of_string [simp]: "length (bytes_of_string s) = length s"
  by (simp add: bytes_of_string_def)

lemma bytes_of_string_Nil [simp]: "bytes_of_string [] = []"
  by (simp add: bytes_of_string_def)

lemma unat_of_char_byte: "unat (of_char c :: byte) = of_char c"
proof -
  have "(of_char c :: byte) = word_of_nat (of_char c)"
    by (metis of_nat_of_char)
  moreover have "(of_char c :: nat) < 256"
    by simp
  ultimately show ?thesis
    by (simp add: unat_of_nat take_bit_nat_eq_self)
qed

lemma of_char_byte_inj: "(of_char c :: byte) = of_char d \<longleftrightarrow> c = d"
  by (metis char_of_char unat_of_char_byte)

lemma bytes_of_string_inj [simp]: "bytes_of_string s = bytes_of_string t \<longleftrightarrow> s = t"
  unfolding bytes_of_string_def
  by (rule inj_map_eq_map) (simp add: inj_def of_char_byte_inj)

section \<open>Lists\<close>

text \<open>The blocks that reading a file \<open>n\<close> bytes at a time produces.\<close>

function chunks :: "nat \<Rightarrow> 'a list \<Rightarrow> 'a list list" where
  "chunks n xs = (if n = 0 \<or> xs = [] then [] else take n xs # chunks n (drop n xs))"
  by pat_completeness auto
termination
  by (relation "measure (\<lambda>(n, xs). length xs)") auto

declare chunks.simps [simp del]

lemma chunks_Nil [simp]: "chunks n [] = []"
  by (simp add: chunks.simps)

lemma chunks_step: "n > 0 \<Longrightarrow> xs \<noteq> [] \<Longrightarrow> chunks n xs = take n xs # chunks n (drop n xs)"
  by (subst chunks.simps) simp

lemma concat_chunks [simp]: "n > 0 \<Longrightarrow> concat (chunks n xs) = xs"
proof (induction n xs rule: chunks.induct)
  case (1 n xs)
  then show ?case
    by (cases "xs = []") (simp_all add: chunks_step)
qed

lemma chunks_bounds: "c \<in> set (chunks n xs) \<Longrightarrow> c \<noteq> [] \<and> length c \<le> n"
proof (induction n xs rule: chunks.induct)
  case (1 n xs)
  then show ?case
    by (cases "n = 0 \<or> xs = []") (auto simp: chunks.simps [of n xs])
qed

lemma chunks_exact: "n > 0 \<Longrightarrow> length xs = n \<Longrightarrow> chunks n xs = [xs]"
  by (subst chunks.simps) (auto simp: chunks.simps)

lemma chunks_short: "xs \<noteq> [] \<Longrightarrow> length xs \<le> n \<Longrightarrow> chunks n xs = [xs]"
  by (subgoal_tac "n > 0") (simp_all add: chunks_step [of n xs], cases n, simp_all)

lemma chunks_append:
  "n > 0 \<Longrightarrow> n dvd length xs \<Longrightarrow> chunks n (xs @ ys) = chunks n xs @ chunks n ys"
proof (induction n xs rule: chunks.induct)
  case (1 n xs)
  show ?case
  proof (cases "xs = []")
    case False
    with "1.prems" have le: "n \<le> length xs"
      by (auto dest: dvd_imp_le)
    have "n dvd length (drop n xs)"
      using "1.prems" by (simp add: dvd_diff_nat)
    with "1.IH" "1.prems" False have
      IH: "chunks n (drop n xs @ ys) = chunks n (drop n xs) @ chunks n ys"
      by simp
    from False "1.prems" le IH show ?thesis
      by (simp add: chunks_step)
  qed simp
qed

lemma length_chunks_0 [simp]: "length (chunks n xs) = 0 \<longleftrightarrow> n = 0 \<or> xs = []"
  by (simp add: chunks.simps [of n xs])

lemma length_chunks_le: "length (chunks n xs) \<le> length xs"
proof (induction n xs rule: chunks.induct)
  case (1 n xs)
  show ?case
  proof (cases "n = 0 \<or> xs = []")
    case True
    then show ?thesis by (simp add: chunks.simps)
  next
    case False
    with "1.IH" have "length (chunks n (drop n xs)) \<le> length (drop n xs)"
      by simp
    with False show ?thesis
      by (subst chunks.simps) (cases xs, auto)
  qed
qed

section \<open>Decimal and hexadecimal text (the printf conversions used)\<close>

definition digit_char :: "nat \<Rightarrow> char" where
  "digit_char n = char_of (48 + n)"

definition digit_val :: "char \<Rightarrow> nat" where
  "digit_val c = of_char c - 48"

definition is_digit :: "char \<Rightarrow> bool" where
  "is_digit c \<longleftrightarrow> 48 \<le> (of_char c :: nat) \<and> (of_char c :: nat) \<le> 57"

lemma of_char_digit_char [simp]: "n < 10 \<Longrightarrow> of_char (digit_char n) = 48 + n"
  by (simp add: digit_char_def take_bit_nat_eq_self)

lemma is_digit_digit_char [simp]: "n < 10 \<Longrightarrow> is_digit (digit_char n)"
  by (simp add: is_digit_def)

lemma digit_val_digit_char [simp]: "n < 10 \<Longrightarrow> digit_val (digit_char n) = n"
  by (simp add: digit_val_def)

text \<open>\<open>%u\<close>\<close>

fun show_nat :: "nat \<Rightarrow> string" where
  "show_nat n = (if n < 10 then [digit_char n]
                 else show_nat (n div 10) @ [digit_char (n mod 10)])"

declare show_nat.simps [simp del]

text \<open>\<open>%d\<close>\<close>

definition show_int :: "int \<Rightarrow> string" where
  "show_int i = (if i < 0 then CHR ''-'' # show_nat (nat (- i)) else show_nat (nat i))"

lemma show_nat_digits: "c \<in> set (show_nat n) \<Longrightarrow> is_digit c"
proof (induction n rule: show_nat.induct)
  case (1 n)
  then show ?case
    by (subst (asm) (2) show_nat.simps) (auto split: if_splits)
qed

lemma show_nat_nonempty [simp]: "show_nat n \<noteq> []"
  by (subst show_nat.simps) simp

text \<open>The decimal value of a digit string, most significant digit first.\<close>

definition dec_value :: "string \<Rightarrow> nat" where
  "dec_value ds = foldl (\<lambda>a d. 10 * a + digit_val d) 0 ds"

lemma dec_value_show_nat [simp]: "dec_value (show_nat n) = n"
proof (induction n rule: show_nat.induct)
  case (1 n)
  show ?case
  proof (cases "n < 10")
    case True
    then show ?thesis by (simp add: show_nat.simps dec_value_def)
  next
    case False
    with "1.IH" have "dec_value (show_nat (n div 10)) = n div 10" by simp
    with False show ?thesis
      by (subst show_nat.simps) (simp add: dec_value_def)
  qed
qed

section \<open>The C library functions the sources call on text\<close>

text \<open>\<open>snprintf(buf, size, "%s", s)\<close> keeps at most \<open>size - 1\<close> characters.\<close>

definition snprintf_s :: "nat \<Rightarrow> string \<Rightarrow> string" where
  "snprintf_s n s = take (n - 1) s"

lemma length_snprintf_s: "n > 0 \<Longrightarrow> length (snprintf_s n s) < n"
  by (simp add: snprintf_s_def)

lemma snprintf_s_id [simp]: "length s < n \<Longrightarrow> snprintf_s n s = s"
  by (simp add: snprintf_s_def)

definition is_space :: "char \<Rightarrow> bool" where
  "is_space c \<longleftrightarrow> (of_char c :: nat) = 32 \<or> (9 \<le> (of_char c :: nat) \<and> (of_char c :: nat) \<le> 13)"

text \<open>
  \<open>strtol(text, &end, 10)\<close> with a 64-bit \<open>long\<close>: the value, the text \<open>end\<close> points
  at, and whether \<open>errno\<close> was set to \<open>ERANGE\<close>. With no digits \<open>end\<close> is the start.
\<close>

definition long_max :: int where "long_max = 9223372036854775807"
definition long_min :: int where "long_min = - 9223372036854775808"

definition strtol10 :: "string \<Rightarrow> int \<times> string \<times> bool" where
  "strtol10 text =
     (let s = dropWhile is_space text;
          neg = (case s of c # _ \<Rightarrow> c = CHR ''-'' | [] \<Rightarrow> False);
          body = (case s of c # cs \<Rightarrow> if c = CHR ''-'' \<or> c = CHR ''+'' then cs else s | [] \<Rightarrow> s);
          ds = takeWhile is_digit body;
          v = (if neg then - int (dec_value ds) else int (dec_value ds))
      in if ds = [] then (0, text, False)
         else if v > long_max then (long_max, dropWhile is_digit body, True)
         else if v < long_min then (long_min, dropWhile is_digit body, True)
         else (v, dropWhile is_digit body, False))"

lemma digit_not_space: "is_digit c \<Longrightarrow> \<not> is_space c"
  by (simp add: is_digit_def is_space_def)

lemma digit_not_sign: "is_digit c \<Longrightarrow> c \<noteq> CHR ''-'' \<and> c \<noteq> CHR ''+''"
  by (auto simp: is_digit_def)

lemma strtol10_digits:
  assumes "\<forall>c \<in> set ds. is_digit c" "ds \<noteq> []" "int (dec_value ds) \<le> long_max"
    and "rest = [] \<or> \<not> is_digit (hd rest)"
  shows "strtol10 (ds @ rest) = (int (dec_value ds), rest, False)"
proof -
  obtain d ds' where ds: "ds = d # ds'" using assms(2) by (cases ds) auto
  with assms(1) have d: "is_digit d" by simp
  have "dropWhile is_space (ds @ rest) = ds @ rest"
    using d ds by (simp add: digit_not_space)
  moreover have tw: "takeWhile is_digit (ds @ rest) = ds"
    using assms(1,4) by (cases rest) (auto simp: takeWhile_append2)
  moreover have dw: "dropWhile is_digit (ds @ rest) = rest"
    using assms(1,4) by (cases rest) (auto simp: dropWhile_append2)
  ultimately show ?thesis
    using assms(3) digit_not_sign [OF d] tw dw ds
    by (auto simp: strtol10_def Let_def long_min_def)
qed

lemma strtol10_show_nat:
  assumes "int n \<le> long_max" "rest = [] \<or> \<not> is_digit (hd rest)"
  shows "strtol10 (show_nat n @ rest) = (int n, rest, False)"
  using strtol10_digits [of "show_nat n" rest] assms by (auto simp: show_nat_digits)

text \<open>Where \<open>strtol\<close> converted something it consumed at least one character.\<close>

lemma dropWhile_le: "length (dropWhile P xs) \<le> length xs"
  by (induction xs) auto

lemma strtol10_progress:
  assumes "strtol10 text = (v, rest, err)" "rest \<noteq> text"
  shows "length rest < length text"
proof -
  define s where "s = dropWhile is_space text"
  define body where
    "body = (case s of c # cs \<Rightarrow> if c = CHR ''-'' \<or> c = CHR ''+'' then cs else s | [] \<Rightarrow> s)"
  have "length s \<le> length text" by (simp add: s_def dropWhile_le)
  moreover have "length body \<le> length s" by (auto simp: body_def split: list.splits)
  moreover have "takeWhile is_digit body \<noteq> [] \<and> rest = dropWhile is_digit body"
    using assms by (auto simp: strtol10_def Let_def s_def [symmetric] body_def [symmetric] split: if_splits)
  moreover have "length (takeWhile is_digit body) + length (dropWhile is_digit body) = length body"
    by (metis length_append takeWhile_dropWhile_id)
  ultimately show ?thesis
    by (cases "takeWhile is_digit body") auto
qed

section \<open>Bits of a byte\<close>

lemma byte_below: 
  assumes "unat (x :: byte) < 2 ^ k" "k \<le> j" shows "\<not> bit x j"
proof
  assume "bit x j"
  then have "bit (unat x) j" by (simp add: bit_unsigned_iff bit_imp_le_length)
  moreover have "unat x < 2 ^ j" using assms by (meson less_le_trans one_le_numeral power_increasing)
  ultimately show False by (simp add: bit_iff_odd)
qed

lemma low_nibble: "unat (x :: byte) < 16 \<Longrightarrow> (0x80 OR x) AND 0x0f = x"
proof (rule bit_word_eqI)
  fix n assume "unat x < 16" "n < LENGTH(8)"
  then show "bit ((0x80 OR x) AND 0x0f) n = bit x n"
    using byte_below [of x 4 n]
    by (cases "n < 4") (auto simp: bit_simps  less_Suc_eq numeral_eq_Suc)
qed

lemma bit_0x80: "bit (0x80 :: byte) n \<longleftrightarrow> n = 7"
proof -
  have "(0x80 :: byte) = 2 ^ 7" by simp
  then show ?thesis by (simp only: bit_exp_iff) auto
qed

lemma low_bits_7: assumes "unat (x :: byte) < 128" shows "(0x80 OR x) AND 0x7f = x" "x AND 0x7f = x"
proof -
  have m: "(0x7f :: byte) = mask 7" by (simp add: mask_eq_exp_minus_1)
  have "bit x n \<Longrightarrow> n < 7" for n using byte_below [of x 7 n] assms by (simp add: linorder_not_le [symmetric]) blast
  then have "bit ((0x80 OR x) AND 0x7f) n \<longleftrightarrow> bit x n" "bit (x AND 0x7f) n \<longleftrightarrow> bit x n" for n
    unfolding m bit_or_iff bit_and_iff bit_mask_iff bit_0x80 by (auto dest: bit_imp_le_length)
  then show "(0x80 OR x) AND 0x7f = x" "x AND 0x7f = x" by (auto intro: bit_word_eqI)
qed

lemma high_bit: "bit (0x80 OR x :: byte) 7"  "unat x < 128 \<Longrightarrow> \<not> bit (x :: byte) 7"
  using byte_below [of x 7 7] by (simp_all add: bit_or_iff bit_0x80)

end
