(* ===== verification/ByteOrder.thy ===== *)
theory ByteOrder
  imports Prelude
begin

text \<open>
  The four byte-order helpers that \<open>src/protocol.c\<close> and \<open>src/demo_util.c\<close> share:
  an object's bytes in memory on either kind of host, \<open>htons\<close>/\<open>htonl\<close>, and
  \<open>put_u16\<close>, \<open>put_u32\<close>, \<open>get_u16\<close>, \<open>get_u32\<close>. The lemmas show that the bytes
  written are big-endian on every host and that reading undoes writing.
\<close>

section \<open>Byte order\<close>

datatype endian = LittleEndian | BigEndian

definition mem_u16 :: "endian \<Rightarrow> u16 \<Rightarrow> byte list" where
  "mem_u16 host v = (case host of
     LittleEndian \<Rightarrow> [ucast v, ucast (drop_bit 8 v)]
   | BigEndian \<Rightarrow> [ucast (drop_bit 8 v), ucast v])"

definition load_u16 :: "endian \<Rightarrow> byte list \<Rightarrow> u16" where
  "load_u16 host b = (case host of
     LittleEndian \<Rightarrow> ucast (b ! 0) OR push_bit 8 (ucast (b ! 1))
   | BigEndian \<Rightarrow> ucast (b ! 1) OR push_bit 8 (ucast (b ! 0)))"

definition mem_u32 :: "endian \<Rightarrow> u32 \<Rightarrow> byte list" where
  "mem_u32 host v =
     (let le = [ucast v, ucast (drop_bit 8 v), ucast (drop_bit 16 v), ucast (drop_bit 24 v)]
      in case host of LittleEndian \<Rightarrow> le | BigEndian \<Rightarrow> rev le)"

definition load_u32 :: "endian \<Rightarrow> byte list \<Rightarrow> u32" where
  "load_u32 host b = (case host of
     LittleEndian \<Rightarrow> ucast (b ! 0) OR push_bit 8 (ucast (b ! 1)) OR
                     push_bit 16 (ucast (b ! 2)) OR push_bit 24 (ucast (b ! 3))
   | BigEndian \<Rightarrow> ucast (b ! 3) OR push_bit 8 (ucast (b ! 2)) OR
                  push_bit 16 (ucast (b ! 1)) OR push_bit 24 (ucast (b ! 0)))"

text \<open>\<open>htons\<close>, \<open>htonl\<close> and their inverses reverse the object's bytes on a little-endian host.\<close>

definition htons :: "endian \<Rightarrow> u16 \<Rightarrow> u16" where
  "htons host v = (case host of BigEndian \<Rightarrow> v | LittleEndian \<Rightarrow> load_u16 host (rev (mem_u16 host v)))"

definition htonl :: "endian \<Rightarrow> u32 \<Rightarrow> u32" where
  "htonl host v = (case host of BigEndian \<Rightarrow> v | LittleEndian \<Rightarrow> load_u32 host (rev (mem_u32 host v)))"

definition put_u16_on :: "endian \<Rightarrow> u16 \<Rightarrow> byte list" where
  "put_u16_on host value = mem_u16 host (htons host value)"

definition put_u32_on :: "endian \<Rightarrow> u32 \<Rightarrow> byte list" where
  "put_u32_on host value = mem_u32 host (htonl host value)"

definition get_u16_on :: "endian \<Rightarrow> byte list \<Rightarrow> u16" where
  "get_u16_on host buf = htons host (load_u16 host buf)"

definition get_u32_on :: "endian \<Rightarrow> byte list \<Rightarrow> u32" where
  "get_u32_on host buf = htonl host (load_u32 host buf)"

text \<open>The programs run on a little-endian host; \<open>put_u16_host\<close> below shows it is immaterial.\<close>

abbreviation put_u16 :: "u16 \<Rightarrow> byte list" where "put_u16 \<equiv> put_u16_on LittleEndian"
abbreviation put_u32 :: "u32 \<Rightarrow> byte list" where "put_u32 \<equiv> put_u32_on LittleEndian"
abbreviation get_u16 :: "byte list \<Rightarrow> u16" where "get_u16 \<equiv> get_u16_on LittleEndian"
abbreviation get_u32 :: "byte list \<Rightarrow> u32" where "get_u32 \<equiv> get_u32_on LittleEndian"

text \<open>Equality of words, bit position by bit position.\<close>

lemma byte_bit_high [simp]: "8 \<le> n \<Longrightarrow> \<not> bit (x :: byte) n"
  using bit_imp_le_length [of x n] by auto

lemma byte_eqI: "(\<And>n. n \<in> set [0..<8] \<Longrightarrow> bit x n = bit y n) \<Longrightarrow> x = (y :: byte)"
  by (rule bit_word_eqI) simp

lemma u16_eqI: "(\<And>n. n \<in> set [0..<16] \<Longrightarrow> bit x n = bit y n) \<Longrightarrow> x = (y :: u16)"
  by (rule bit_word_eqI) simp

lemma u32_eqI: "(\<And>n. n \<in> set [0..<32] \<Longrightarrow> bit x n = bit y n) \<Longrightarrow> x = (y :: u32)"
  by (rule bit_word_eqI) simp

lemma upt_8: "[0..<8] = [0,1,2,3,4,5,6,7]"
  by (simp add: upt_conv_Cons)

lemma upt_16: "[0..<16] = [0,1,2,3,4,5,6,7,8,9,10,11,12,13,14,15]"
  by (simp add: upt_conv_Cons)

lemma upt_32: "[0..<32] = [0,1,2,3,4,5,6,7,8,9,10,11,12,13,14,15,
    16,17,18,19,20,21,22,23,24,25,26,27,28,29,30,31]"
  by (simp add: upt_conv_Cons)

lemma length_2E: "length xs = 2 \<Longrightarrow> \<exists>a b. xs = [a, b]"
  by (auto simp: numeral_2_eq_2 length_Suc_conv)

lemma length_4E: "length xs = 4 \<Longrightarrow> \<exists>a b c d. xs = [a, b, c, d]"
  by (auto simp: eval_nat_numeral length_Suc_conv)

lemma be16_bytes:
  fixes a b :: byte
  defines "v \<equiv> (ucast b OR push_bit 8 (ucast a) :: u16)"
  shows "ucast v = b" "ucast (drop_bit 8 v) = a"
  by (rule byte_eqI; auto simp: v_def upt_8 bit_simps)+

lemma be32_bytes:
  fixes a b c d :: byte
  defines "v \<equiv> (ucast d OR push_bit 8 (ucast c) OR push_bit 16 (ucast b) OR push_bit 24 (ucast a) :: u32)"
  shows "ucast v = d" "ucast (drop_bit 8 v) = c" "ucast (drop_bit 16 v) = b" "ucast (drop_bit 24 v) = a"
  by (rule byte_eqI; auto simp: v_def upt_8 bit_simps)+

lemma be16_word:
  "(ucast (ucast v :: byte) OR push_bit 8 (ucast (ucast (drop_bit 8 v) :: byte)) :: u16) = v"
  by (rule u16_eqI, unfold upt_16 list.set, elim insertE emptyE; simp add: bit_simps)

lemma be32_word:
  "(ucast (ucast v :: byte) OR push_bit 8 (ucast (ucast (drop_bit 8 v) :: byte)) OR
    push_bit 16 (ucast (ucast (drop_bit 16 v) :: byte)) OR
    push_bit 24 (ucast (ucast (drop_bit 24 v) :: byte)) :: u32) = v"
  by (rule u32_eqI, unfold upt_32 list.set, elim insertE emptyE; simp add: bit_simps)

lemma mem_load_u16: "length b = 2 \<Longrightarrow> mem_u16 host (load_u16 host b) = b"
  by (cases host; drule length_2E) (auto simp: mem_u16_def load_u16_def be16_bytes simp del: drop_bit_or)

lemma load_mem_u16: "load_u16 host (mem_u16 host v) = v"
  by (cases host) (simp_all add: mem_u16_def load_u16_def be16_word)

lemma mem_load_u32: "length b = 4 \<Longrightarrow> mem_u32 host (load_u32 host b) = b"
  by (cases host; drule length_4E) (auto simp: mem_u32_def load_u32_def Let_def be32_bytes simp del: drop_bit_or)

lemma load_mem_u32: "load_u32 host (mem_u32 host v) = v"
  by (cases host) (simp_all add: mem_u32_def load_u32_def Let_def be32_word)

lemma length_mem [simp]: "length (mem_u16 host v) = 2" "length (mem_u32 host x) = 4"
  by (cases host; simp add: mem_u16_def mem_u32_def Let_def)+

lemma put_u16_host: "put_u16_on host v = [ucast (drop_bit 8 v), ucast v]"
  by (cases host) (simp_all add: put_u16_on_def htons_def mem_load_u16, simp_all add: mem_u16_def)

lemma put_u32_host:
  "put_u32_on host v = [ucast (drop_bit 24 v), ucast (drop_bit 16 v), ucast (drop_bit 8 v), ucast v]"
  by (cases host) (simp_all add: put_u32_on_def htonl_def mem_load_u32, simp_all add: mem_u32_def)

lemma length_put [simp]: "length (put_u16_on host v) = 2" "length (put_u32_on host x) = 4"
  by (simp_all add: put_u16_on_def put_u32_on_def)

text \<open>Reading undoes writing, whatever follows the field and whatever the hosts are.\<close>

lemma get_u16_host: "get_u16_on host (a # b # rest) = ucast b OR push_bit 8 (ucast a)"
  by (cases host) (simp_all add: get_u16_on_def htons_def load_u16_def mem_u16_def be16_bytes del: drop_bit_or)

lemma get_u32_host:
  "get_u32_on host (a # b # c # d # rest) =
     ucast d OR push_bit 8 (ucast c) OR push_bit 16 (ucast b) OR push_bit 24 (ucast a)"
  by (cases host) (simp_all add: get_u32_on_def htonl_def load_u32_def mem_u32_def Let_def be32_bytes del: drop_bit_or)

lemma get_put_u16 [simp]: "get_u16_on host (put_u16_on host' v @ rest) = v"
  by (simp add: put_u16_host get_u16_host be16_word)

lemma get_put_u32 [simp]: "get_u32_on host (put_u32_on host' v @ rest) = v"
  by (simp add: put_u32_host get_u32_host be32_word)

lemma put_get_u16: "2 \<le> length b \<Longrightarrow> put_u16_on host (get_u16_on host b) = take 2 b"
  by (cases b; cases "tl b") (auto simp: put_u16_host get_u16_host be16_bytes simp del: drop_bit_or)

lemma put_get_u32: "4 \<le> length b \<Longrightarrow> put_u32_on host (get_u32_on host b) = take 4 b"
proof -
  assume "4 \<le> length b"
  then obtain b0 b1 b2 b3 r where "b = b0 # b1 # b2 # b3 # r"
    by (auto simp: eval_nat_numeral Suc_le_length_iff)
  then show ?thesis by (simp add: put_u32_host get_u32_host be32_bytes del: drop_bit_or)
qed

end
