(* ===== verification/World.thy ===== *)
theory World
  imports Prelude
begin

text \<open>
  The environment the programs run in, as one explicit state, and the log
  records of \<open>include/logger.h\<close>.

  The operating system is not under \<open>src/\<close>: what it answers is part of the
  state (a script of results it will give, consumed from the front, or a fixed
  function), and what the program does to it (datagrams sent, bytes written to
  files, log lines, standard output) is recorded there. A script that has run
  out gives the normal answer: no fault, and no datagram (a timeout).
\<close>

section \<open>Log events and the logger (include/logger.h)\<close>

definition LOG_INT_UNSET :: int where "LOG_INT_UNSET = - 2147483647"

record Logger =
  lg_open :: bool  \<comment> \<open>whether \<open>fp\<close> is not \<open>NULL\<close>\<close>
  lg_role :: string
  lg_path :: string
  lg_schema_version :: string
  lg_protocol :: string
  lg_transport :: string
  lg_flow_id :: string
  lg_session_id :: string
  lg_scenario :: string

record LogEvent =
  le_level :: "string option"
  le_event :: "string option"
  le_peer :: "string option"
  le_state :: "string option"
  le_message :: "string option"
  le_packet_type :: "string option"
  le_result :: "string option"
  le_sha1 :: "string option"
  le_error_code :: "string option"
  le_wire_hex :: "string option"
  le_direction :: "string option"
  le_schema_version :: "string option"
  le_protocol :: "string option"
  le_transport :: "string option"
  le_flow_id :: "string option"
  le_session_id :: "string option"
  le_scenario :: "string option"
  le_connection_id :: "string option"
  le_method :: "string option"
  le_path :: "string option"
  le_header_summary :: "string option"
  le_frame_type :: "string option"
  le_handshake_phase :: "string option"
  le_packet_uid :: "string option"
  le_packet_code :: int
  le_seq :: int
  le_ack :: int
  le_window_size :: int
  le_retransmit_count :: int
  le_stream_id :: int
  le_stream_offset :: int
  le_status_code :: int
  le_security_encrypted :: int
  le_security_mac_valid :: int
  le_security_replay :: int
  le_packet_id :: int
  le_payload_length :: int
  le_bytes :: int
  le_attempt :: int
  le_port :: int
  le_pid :: int

text \<open>\<open>memset(&e, 0, sizeof(e))\<close>\<close>

definition zero_event :: LogEvent where
  "zero_event = \<lparr>le_level = None, le_event = None, le_peer = None, le_state = None,
     le_message = None, le_packet_type = None, le_result = None, le_sha1 = None,
     le_error_code = None, le_wire_hex = None, le_direction = None,
     le_schema_version = None, le_protocol = None, le_transport = None,
     le_flow_id = None, le_session_id = None, le_scenario = None,
     le_connection_id = None, le_method = None, le_path = None,
     le_header_summary = None, le_frame_type = None, le_handshake_phase = None,
     le_packet_uid = None, le_packet_code = 0, le_seq = 0, le_ack = 0,
     le_window_size = 0, le_retransmit_count = 0, le_stream_id = 0,
     le_stream_offset = 0, le_status_code = 0, le_security_encrypted = 0,
     le_security_mac_valid = 0, le_security_replay = 0, le_packet_id = 0,
     le_payload_length = 0, le_bytes = 0, le_attempt = 0, le_port = 0, le_pid = 0\<rparr>"

section \<open>Files, addresses, time\<close>

text \<open>
  A file: its readable bytes, whether reading past them is an I/O error rather
  than the end of the file, and whether it is a regular file.
\<close>

record file_obj =
  f_data :: "byte list"
  f_bad :: bool
  f_regular :: bool

definition new_file :: "byte list \<Rightarrow> file_obj" where
  "new_file d = \<lparr>f_data = d, f_bad = False, f_regular = True\<rparr>"

record sockaddr_in =
  sin_family :: u16
  sin_port :: u16  \<comment> \<open>in network order, as the field is\<close>
  sin_addr :: u32  \<comment> \<open>in network order\<close>

text \<open>A reading of \<open>CLOCK_MONOTONIC\<close>, ordered by seconds, then nanoseconds.\<close>

datatype timespec = Timespec (tv_sec: int) (tv_nsec: int)

instantiation timespec :: linorder
begin

definition less_eq_timespec :: "timespec \<Rightarrow> timespec \<Rightarrow> bool" where
  "less_eq_timespec a b \<longleftrightarrow> tv_sec a < tv_sec b \<or> (tv_sec a = tv_sec b \<and> tv_nsec a \<le> tv_nsec b)"

definition less_timespec :: "timespec \<Rightarrow> timespec \<Rightarrow> bool" where
  "less_timespec a b \<longleftrightarrow> tv_sec a < tv_sec b \<or> (tv_sec a = tv_sec b \<and> tv_nsec a < tv_nsec b)"

instance
  by standard
    (auto simp: less_eq_timespec_def less_timespec_def intro: timespec.expand)

end

section \<open>What the operating system answers\<close>

text \<open>
  One call of \<open>recv_packet_timeout\<close> sees a sequence of \<open>select\<close> results (repeated
  while it is interrupted) and, when the socket is ready, a sequence of
  \<open>recvfrom\<close> results.
\<close>

datatype recv_result =
    RecvIntr recv_result
  | RecvErr string
  | RecvData sockaddr_in "byte list"

datatype select_result =
    SelIntr
  | SelTimeout
  | SelErr string
  | SelReady recv_result

record world =
  w_env :: "string \<Rightarrow> string option"       \<comment> \<open>\<open>getenv\<close>\<close>
  w_fs :: "string \<Rightarrow> file_obj option"          \<comment> \<open>the file system\<close>
  w_unwritable :: "string \<Rightarrow> bool"         \<comment> \<open>paths \<open>fopen\<close> cannot open for writing\<close>
  w_errno :: string                         \<comment> \<open>\<open>strerror(errno)\<close> after a failure\<close>
  w_resolve :: "string \<Rightarrow> sockaddr_in list option" \<comment> \<open>\<open>getaddrinfo\<close>, up to the port\<close>
  w_sockfault :: "bool list"                \<comment> \<open>whether each socket set-up call fails\<close>
  w_stop :: "nat option"                    \<comment> \<open>reads of \<open>stop_requested\<close> before it is seen set\<close>
  w_net :: "select_result list"             \<comment> \<open>what the UDP socket will receive\<close>
  w_waits :: "(int \<times> int) list"             \<comment> \<open>the timeouts given to \<open>select\<close>, in order\<close>
  w_sendfault :: "bool list"                \<comment> \<open>whether each \<open>sendto\<close>/\<open>send\<close> fails\<close>
  w_writefault :: "bool list"               \<comment> \<open>whether each \<open>fwrite\<close> is short\<close>
  w_renamefault :: "bool list"              \<comment> \<open>whether each \<open>rename\<close> fails\<close>
  w_allocfault :: "bool list"               \<comment> \<open>whether each \<open>malloc\<close>/\<open>realloc\<close> fails\<close>
  w_clock :: "nat \<Rightarrow> timespec"              \<comment> \<open>the readings of the monotonic clock\<close>
  w_tick :: nat                             \<comment> \<open>how many readings were taken\<close>
  w_stamp :: "nat \<Rightarrow> string"                \<comment> \<open>the rendered wall-clock time of log line \<open>k\<close>\<close>
  w_stdin :: "string list"                  \<comment> \<open>what \<open>fgets(stdin)\<close> will return\<close>
  w_nonces :: "byte list list"              \<comment> \<open>what the random generator will produce\<close>
  w_tcp_in :: "byte list list"              \<comment> \<open>segments the TCP peer will deliver\<close>
  w_tcp_cap :: "nat list"                   \<comment> \<open>how much each \<open>send\<close> accepts beyond one byte\<close>
  w_tcp_out :: "byte list"                  \<comment> \<open>bytes written to the TCP connection\<close>
  w_sent :: "(sockaddr_in \<times> byte list) list"  \<comment> \<open>datagrams sent, in order\<close>
  w_events :: "LogEvent list"               \<comment> \<open>events handed to \<open>logger_write\<close> (ghost)\<close>
  w_lines :: "string list"                  \<comment> \<open>the lines of the log file\<close>
  w_stdout :: "string list"                 \<comment> \<open>lines printed\<close>

section \<open>Elementary calls\<close>

definition getenv :: "world \<Rightarrow> string \<Rightarrow> string option" where
  "getenv w name = w_env w name"

text \<open>
  A read of the \<open>volatile sig_atomic_t stop_requested\<close>. The signal handler sets
  it at an arbitrary moment and nothing clears it.
\<close>

definition read_stop :: "world \<Rightarrow> bool \<times> world" where
  "read_stop w = (case w_stop w of
     None \<Rightarrow> (False, w)
   | Some 0 \<Rightarrow> (True, w)
   | Some (Suc n) \<Rightarrow> (False, w\<lparr>w_stop := Some n\<rparr>))"

definition clock_gettime :: "world \<Rightarrow> timespec \<times> world" where
  "clock_gettime w = (w_clock w (w_tick w), w\<lparr>w_tick := Suc (w_tick w)\<rparr>)"

fun pop_fault :: "bool list \<Rightarrow> bool \<times> bool list" where
  "pop_fault [] = (False, [])"
| "pop_fault (b # bs) = (b, bs)"

text \<open>\<open>socket\<close>, \<open>bind\<close>, \<open>listen\<close>, \<open>accept\<close>, \<open>connect\<close>: whether the call succeeds.\<close>

definition socket_call :: "world \<Rightarrow> bool \<times> world" where
  "socket_call w = (let (b, bs) = pop_fault (w_sockfault w) in (\<not> b, w\<lparr>w_sockfault := bs\<rparr>))"

definition print_line :: "string \<Rightarrow> world \<Rightarrow> world" where
  "print_line s w = w\<lparr>w_stdout := w_stdout w @ [s @ [CHR 0x0A]]\<rparr>"

text \<open>\<open>fgets(buf, size, stdin)\<close>: at most \<open>size - 1\<close> characters of the next line.\<close>

definition fgets_stdin :: "nat \<Rightarrow> world \<Rightarrow> string option \<times> world" where
  "fgets_stdin n w = (case w_stdin w of
     [] \<Rightarrow> (None, w)
   | l # ls \<Rightarrow> if length l < n then (Some l, w\<lparr>w_stdin := ls\<rparr>)
              else (Some (take (n - 1) l), w\<lparr>w_stdin := drop (n - 1) l # ls\<rparr>))"

definition malloc_ok :: "world \<Rightarrow> bool \<times> world" where
  "malloc_ok w = (let (b, bs) = pop_fault (w_allocfault w) in (\<not> b, w\<lparr>w_allocfault := bs\<rparr>))"

text \<open>\<open>fopen(path, "wb")\<close> truncates; \<open>fwrite\<close> appends what it is given or is short.\<close>

definition fopen_wb :: "string \<Rightarrow> world \<Rightarrow> bool \<times> world" where
  "fopen_wb path w =
     (if w_unwritable w path then (False, w)
      else (True, w\<lparr>w_fs := (w_fs w)(path \<mapsto> new_file [])\<rparr>))"

definition file_data :: "world \<Rightarrow> string \<Rightarrow> byte list" where
  "file_data w path = (case w_fs w path of None \<Rightarrow> [] | Some f \<Rightarrow> f_data f)"

definition fwrite_all :: "string \<Rightarrow> byte list \<Rightarrow> world \<Rightarrow> bool \<times> world" where
  "fwrite_all path d w =
     (let (b, bs) = pop_fault (w_writefault w); w1 = w\<lparr>w_writefault := bs\<rparr>
      in if b then (False, w1)
         else (True, w1\<lparr>w_fs := (w_fs w1)(path \<mapsto> new_file (file_data w path @ d))\<rparr>))"

definition remove_file :: "string \<Rightarrow> world \<Rightarrow> world" where
  "remove_file path w = w\<lparr>w_fs := (w_fs w)(path := None)\<rparr>"

definition rename_file :: "string \<Rightarrow> string \<Rightarrow> world \<Rightarrow> bool \<times> world" where
  "rename_file old new w =
     (let (b, bs) = pop_fault (w_renamefault w); w1 = w\<lparr>w_renamefault := bs\<rparr>
      in if b \<or> w_fs w old = None then (False, w1)
         else if old = new then (True, w1)
         else (True, w1\<lparr>w_fs := (w_fs w1)(new := w_fs w old, old := None)\<rparr>))"

text \<open>
  Reading a file opened \<open>"rb"\<close> in blocks of \<open>n\<close>: the blocks \<open>fread\<close> returns and
  whether \<open>ferror\<close> holds after the last.
\<close>

definition fread_blocks :: "nat \<Rightarrow> file_obj \<Rightarrow> byte list list \<times> bool" where
  "fread_blocks n f = (chunks n (f_data f), f_bad f)"

lemma file_data_fopen_wb [simp]:
  "fopen_wb p w = (True, w1) \<Longrightarrow> file_data w1 p = []"
  by (auto simp: fopen_wb_def file_data_def new_file_def split: if_splits)

lemma file_data_fwrite:
  "fwrite_all p d w = (True, w1) \<Longrightarrow> file_data w1 p = file_data w p @ d"
  by (auto simp: fwrite_all_def file_data_def new_file_def Let_def split: prod.splits if_splits)

section \<open>A quiet environment\<close>

text \<open>
  For concrete runs: every call succeeds, nothing is in the environment, and the
  logger is closed. The runs below fill in the scripts they need.
\<close>

definition quiet_world :: world where
  "quiet_world = \<lparr>w_env = (\<lambda>_. None), w_fs = (\<lambda>_. None), w_unwritable = (\<lambda>_. False), w_errno = [],
     w_resolve = (\<lambda>_. None), w_sockfault = [], w_stop = None, w_net = [], w_waits = [],
     w_sendfault = [], w_writefault = [], w_renamefault = [], w_allocfault = [],
     w_clock = (\<lambda>n. Timespec (int n) 0), w_tick = 0, w_stamp = (\<lambda>_. []), w_stdin = [],
     w_nonces = [], w_tcp_in = [], w_tcp_cap = [], w_tcp_out = [], w_sent = [], w_events = [],
     w_lines = [], w_stdout = []\<rparr>"

definition closed_logger :: Logger where
  "closed_logger = \<lparr>lg_open = False, lg_role = [], lg_path = [], lg_schema_version = [],
     lg_protocol = [], lg_transport = [], lg_flow_id = [], lg_session_id = [], lg_scenario = []\<rparr>"

text \<open>A stream that arrives one byte at a time.\<close>

definition byte_by_byte :: "byte list \<Rightarrow> byte list list" where
  "byte_by_byte bs = map (\<lambda>b. [b]) bs"

lemma byte_by_byte_stream [simp]: "concat (byte_by_byte bs) = bs" "[] \<notin> set (byte_by_byte bs)"
  by (auto simp: byte_by_byte_def)

lemma quiet_parts:
  "w_env quiet_world = (\<lambda>_. None)" "w_sendfault quiet_world = []" "w_stop quiet_world = None"
  "w_clock quiet_world = (\<lambda>n. Timespec (int n) 0)" "w_tick quiet_world = 0"
  "w_allocfault quiet_world = []" "w_sent quiet_world = []" "w_waits quiet_world = []"
  "w_writefault quiet_world = []" "w_renamefault quiet_world = []" "w_stdout quiet_world = []"
  "w_sockfault quiet_world = []" "w_unwritable quiet_world = (\<lambda>_. False)"
  "w_net quiet_world = []" "w_tcp_in quiet_world = []" "w_tcp_out quiet_world = []"
  "w_nonces quiet_world = []" "w_fs quiet_world = (\<lambda>_. None)"
  by (simp_all add: quiet_world_def)

end
