(* ===== verification/Protocol.thy ===== *)
theory Protocol
  imports ByteOrder World
begin

text \<open>
  The UDP packet layer (\<open>src/protocol.c\<close>, \<open>include/protocol.h\<close>): packet
  builders, the packet parser, peer addresses, hex rendering, the socket calls,
  and the settings read from the command line and the environment. The wire
  format is specified as one \<open>encode\<close> function on abstract messages; the
  builders produce it and the parser accepts exactly its image.
\<close>

section \<open>Constants and types (include/protocol.h)\<close>

definition PROTOCOL_HEADER_SIZE :: nat where "PROTOCOL_HEADER_SIZE = 6"
definition PROTOCOL_DATA_HEADER_SIZE :: nat where "PROTOCOL_DATA_HEADER_SIZE = 10"
definition PROTOCOL_FEEDBACK_PAYLOAD_SIZE :: nat where "PROTOCOL_FEEDBACK_PAYLOAD_SIZE = 8"
definition PROTOCOL_FEEDBACK_HEADER_SIZE :: nat where "PROTOCOL_FEEDBACK_HEADER_SIZE = 14"
definition PROTOCOL_DATA_CHUNK_SIZE :: nat where "PROTOCOL_DATA_CHUNK_SIZE = 1000"
definition PROTOCOL_DIGEST_SIZE :: nat where "PROTOCOL_DIGEST_SIZE = 20"
definition PROTOCOL_MAX_PASSWORD :: nat where "PROTOCOL_MAX_PASSWORD = 255"
definition PROTOCOL_MAX_DATAGRAM :: nat where
  "PROTOCOL_MAX_DATAGRAM = PROTOCOL_DATA_HEADER_SIZE + PROTOCOL_DATA_CHUNK_SIZE"
definition PROTOCOL_RECV_BUFFER :: nat where "PROTOCOL_RECV_BUFFER = 2048"

lemmas protocol_sizes =
  PROTOCOL_HEADER_SIZE_def PROTOCOL_DATA_HEADER_SIZE_def PROTOCOL_FEEDBACK_PAYLOAD_SIZE_def
  PROTOCOL_FEEDBACK_HEADER_SIZE_def PROTOCOL_DATA_CHUNK_SIZE_def PROTOCOL_DIGEST_SIZE_def
  PROTOCOL_MAX_PASSWORD_def PROTOCOL_MAX_DATAGRAM_def PROTOCOL_RECV_BUFFER_def

datatype PacketType =
    PKT_JOIN_REQ | PKT_PASS_REQ | PKT_PASS_RESP | PKT_PASS_ACCEPT | PKT_DATA
  | PKT_TERMINATE | PKT_REJECT | PKT_ACK | PKT_NACK

text \<open>The value of an enumerator in a \<open>uint16_t\<close>.\<close>

primrec pkt :: "PacketType \<Rightarrow> u16" where
  "pkt PKT_JOIN_REQ = 1"
| "pkt PKT_PASS_REQ = 2"
| "pkt PKT_PASS_RESP = 3"
| "pkt PKT_PASS_ACCEPT = 4"
| "pkt PKT_DATA = 5"
| "pkt PKT_TERMINATE = 6"
| "pkt PKT_REJECT = 7"
| "pkt PKT_ACK = 8"
| "pkt PKT_NACK = 9"

lemma pkt_inj [simp]: "pkt a = pkt b \<longleftrightarrow> a = b"
  by (cases a; cases b) simp_all

text \<open>The enumerators are ordered by value, as the range check below relies on.\<close>

instantiation PacketType :: linorder
begin

definition less_eq_PacketType :: "PacketType \<Rightarrow> PacketType \<Rightarrow> bool" where
  "less_eq_PacketType a b \<longleftrightarrow> pkt a \<le> pkt b"

definition less_PacketType :: "PacketType \<Rightarrow> PacketType \<Rightarrow> bool" where
  "less_PacketType a b \<longleftrightarrow> pkt a < pkt b"

instance
  by standard (auto simp: less_eq_PacketType_def less_PacketType_def dest: order_antisym)

end

text \<open>
  \<open>p_wire\<close> is the first \<open>wire_length\<close> bytes of \<open>wire\<close>; \<open>p_payload\<close> is what the
  pointer \<open>payload\<close> into \<open>wire\<close> points at, up to the end of the packet.
\<close>

record Packet =
  p_type :: u16
  p_payload_length :: u32
  p_packet_id :: u32
  p_ack_id :: u32
  p_window_size :: u32
  p_payload :: "byte list option"
  p_wire :: "byte list"

definition packet_type_name :: "u16 \<Rightarrow> string" where
  "packet_type_name type =
     (if type = pkt PKT_JOIN_REQ then ''JOIN_REQ''
      else if type = pkt PKT_PASS_REQ then ''PASS_REQ''
      else if type = pkt PKT_PASS_RESP then ''PASS_RESP''
      else if type = pkt PKT_PASS_ACCEPT then ''PASS_ACCEPT''
      else if type = pkt PKT_DATA then ''DATA''
      else if type = pkt PKT_TERMINATE then ''TERMINATE''
      else if type = pkt PKT_REJECT then ''REJECT''
      else if type = pkt PKT_ACK then ''ACK''
      else if type = pkt PKT_NACK then ''NACK''
      else ''UNKNOWN'')"

definition packet_type_valid :: "u16 \<Rightarrow> bool" where
  "packet_type_valid type \<longleftrightarrow> pkt PKT_JOIN_REQ \<le> type \<and> type \<le> pkt PKT_NACK"

section \<open>Peers and hex\<close>

definition is_same_peer :: "sockaddr_in \<Rightarrow> sockaddr_in \<Rightarrow> bool" where
  "is_same_peer a b \<longleftrightarrow>
     sin_family a = sin_family b \<and> sin_port a = sin_port b \<and> sin_addr a = sin_addr b"

lemma is_same_peer_eq [simp]: "is_same_peer a b \<longleftrightarrow> a = b"
  by (auto simp: is_same_peer_def)

text \<open>\<open>inet_ntop\<close>: the four octets of the address in memory order.\<close>

definition inet_ntop4 :: "u32 \<Rightarrow> string" where
  "inet_ntop4 a = (let o4 = map (\<lambda>b. show_nat (unat b)) (mem_u32 LittleEndian a) in
     o4 ! 0 @ ''.'' @ o4 ! 1 @ ''.'' @ o4 ! 2 @ ''.'' @ o4 ! 3)"

definition peer_to_string :: "sockaddr_in \<Rightarrow> nat \<Rightarrow> string" where
  "peer_to_string addr n =
     snprintf_s n (inet_ntop4 (sin_addr addr) @ '':'' @
                   show_nat (unat (htons LittleEndian (sin_port addr))))"

definition hex_char :: "byte \<Rightarrow> char" where
  "hex_char x = ''0123456789abcdef'' ! unat (x AND 0x0f)"

text \<open>The loop \<open>for (i = 0; i < len && (i * 2 + 2) <= out_size; i++)\<close> from index \<open>i\<close>.\<close>

fun hex_loop :: "nat \<Rightarrow> byte list \<Rightarrow> nat \<Rightarrow> string" where
  "hex_loop i [] out_size = []"
| "hex_loop i (b # bs) out_size =
     (if i * 2 + 2 \<le> out_size
      then hex_char (drop_bit 4 b) # hex_char b # hex_loop (Suc i) bs out_size else [])"

text \<open>
  The C string left in \<open>out\<close>; \<open>None\<close> when \<open>out_size\<close> is 0 and nothing is written.
  When the digits fill the buffer the last one is overwritten by the NUL.
\<close>

definition bytes_to_hex :: "byte list option \<Rightarrow> nat \<Rightarrow> string option" where
  "bytes_to_hex bytes out_size =
     (if out_size = 0 then None
      else case bytes of None \<Rightarrow> Some []
         | Some bs \<Rightarrow> (let ds = hex_loop 0 bs out_size in
             Some (if length ds < out_size then ds else take (out_size - 1) ds)))"

section \<open>Packet builders\<close>

text \<open>
  \<open>out\<close> is the capacity of the caller's buffer, \<open>None\<close> for a \<open>NULL\<close> \<open>out\<close> or
  \<open>out_len\<close>. The result is the bytes written, \<open>None\<close> for the error return -1.
\<close>

definition build_control_packet :: "u16 \<Rightarrow> nat option \<Rightarrow> byte list option" where
  "build_control_packet type out = (case out of None \<Rightarrow> None | Some cap \<Rightarrow>
     if cap < PROTOCOL_HEADER_SIZE \<or> \<not> packet_type_valid type \<or>
        type = pkt PKT_PASS_RESP \<or> type = pkt PKT_DATA \<or> type = pkt PKT_TERMINATE
     then None
     else Some (put_u16 type @ put_u32 0))"

definition build_pass_resp_packet :: "string option \<Rightarrow> nat option \<Rightarrow> byte list option" where
  "build_pass_resp_packet password out = (case (password, out) of
     (Some pw, Some cap) \<Rightarrow>
       (let len = length pw in
        if len > PROTOCOL_MAX_PASSWORD \<or> cap < PROTOCOL_HEADER_SIZE + len then None
        else Some (put_u16 (pkt PKT_PASS_RESP) @ put_u32 (word_of_nat len) @ bytes_of_string pw))
   | _ \<Rightarrow> None)"

text \<open>\<open>data\<close> with its length; a \<open>NULL\<close> pointer is only allowed with length 0.\<close>

definition build_data_packet ::
  "u32 \<Rightarrow> byte list option \<Rightarrow> u32 \<Rightarrow> nat option \<Rightarrow> byte list option" where
  "build_data_packet packet_id data data_len out = (case out of None \<Rightarrow> None | Some cap \<Rightarrow>
     if (data = None \<and> data_len > 0) \<or> unat data_len > PROTOCOL_DATA_CHUNK_SIZE \<or>
        cap < PROTOCOL_DATA_HEADER_SIZE + unat data_len
     then None
     else Some (put_u16 (pkt PKT_DATA) @ put_u32 data_len @ put_u32 packet_id @
                (case data of None \<Rightarrow> [] | Some d \<Rightarrow> take (unat data_len) d)))"

definition build_feedback_packet :: "u16 \<Rightarrow> u32 \<Rightarrow> u32 \<Rightarrow> nat option \<Rightarrow> byte list option" where
  "build_feedback_packet type ack_id window_size out = (case out of None \<Rightarrow> None | Some cap \<Rightarrow>
     if (type \<noteq> pkt PKT_ACK \<and> type \<noteq> pkt PKT_NACK) \<or> cap < PROTOCOL_FEEDBACK_HEADER_SIZE
     then None
     else Some (put_u16 type @ put_u32 (word_of_nat PROTOCOL_FEEDBACK_PAYLOAD_SIZE) @
                put_u32 ack_id @ put_u32 window_size))"

definition build_terminate_packet :: "byte list option \<Rightarrow> nat option \<Rightarrow> byte list option" where
  "build_terminate_packet digest out = (case (digest, out) of
     (Some d, Some cap) \<Rightarrow>
       if cap < PROTOCOL_HEADER_SIZE + PROTOCOL_DIGEST_SIZE then None
       else Some (put_u16 (pkt PKT_TERMINATE) @ put_u32 (word_of_nat PROTOCOL_DIGEST_SIZE) @
                  take PROTOCOL_DIGEST_SIZE d)
   | _ \<Rightarrow> None)"

section \<open>The parser\<close>

text \<open>Every caller's error buffer has 160 bytes.\<close>

definition parse_fail :: "string \<Rightarrow> string + 'a" where
  "parse_fail message = Inl (snprintf_s 160 message)"

text \<open>
  \<open>Inl\<close> is the return value -1 with the text left in \<open>error\<close>; no caller reads the
  packet after a failure.
\<close>

definition parse_packet :: "byte list option \<Rightarrow> string + Packet" where
  "parse_packet buf = (case buf of
     None \<Rightarrow> parse_fail ''null packet buffer''
   | Some bs \<Rightarrow>
      (let len = length bs in
       if len < PROTOCOL_HEADER_SIZE then parse_fail ''packet shorter than 6-byte header''
       else if len > PROTOCOL_RECV_BUFFER then parse_fail ''packet exceeds receive buffer''
       else
        (let type = get_u16 bs;
             payload_len = get_u32 (drop 2 bs);
             packet = \<lparr>p_type = type, p_payload_length = payload_len, p_packet_id = 0,
                       p_ack_id = 0, p_window_size = 0, p_payload = None, p_wire = bs\<rparr>
         in if \<not> packet_type_valid type then parse_fail ''unknown packet type''
         else if type = pkt PKT_JOIN_REQ \<or> type = pkt PKT_PASS_REQ \<or>
                 type = pkt PKT_PASS_ACCEPT \<or> type = pkt PKT_REJECT then
           (if payload_len \<noteq> 0 \<or> len \<noteq> PROTOCOL_HEADER_SIZE
            then parse_fail ''control packet must have zero payload''
            else Inr packet)
         else if type = pkt PKT_PASS_RESP then
           (if unat payload_len > PROTOCOL_MAX_PASSWORD
            then parse_fail ''password payload is too long''
            else if len \<noteq> PROTOCOL_HEADER_SIZE + unat payload_len
            then parse_fail ''PASS_RESP length mismatch''
            else Inr (packet\<lparr>p_payload := Some (drop PROTOCOL_HEADER_SIZE bs)\<rparr>))
         else if type = pkt PKT_DATA then
           (if unat payload_len > PROTOCOL_DATA_CHUNK_SIZE
            then parse_fail ''DATA payload is too long''
            else if len \<noteq> PROTOCOL_DATA_HEADER_SIZE + unat payload_len
            then parse_fail ''DATA length mismatch''
            else Inr (packet\<lparr>p_packet_id := get_u32 (drop PROTOCOL_HEADER_SIZE bs),
                             p_payload := Some (drop PROTOCOL_DATA_HEADER_SIZE bs)\<rparr>))
         else if type = pkt PKT_TERMINATE then
           (if unat payload_len \<noteq> PROTOCOL_DIGEST_SIZE \<or>
               len \<noteq> PROTOCOL_HEADER_SIZE + PROTOCOL_DIGEST_SIZE
            then parse_fail ''TERMINATE digest length mismatch''
            else Inr (packet\<lparr>p_payload := Some (drop PROTOCOL_HEADER_SIZE bs)\<rparr>))
         else if type = pkt PKT_ACK \<or> type = pkt PKT_NACK then
           (if unat payload_len \<noteq> PROTOCOL_FEEDBACK_PAYLOAD_SIZE \<or>
               len \<noteq> PROTOCOL_FEEDBACK_HEADER_SIZE
            then parse_fail ''feedback packet length mismatch''
            else Inr (packet\<lparr>p_ack_id := get_u32 (drop PROTOCOL_HEADER_SIZE bs),
                             p_window_size := get_u32 (drop (PROTOCOL_HEADER_SIZE + 4) bs)\<rparr>))
         else parse_fail ''invalid packet'')))"

text \<open>\<open>packet->payload\<close> read for \<open>n\<close> bytes.\<close>

definition payload_bytes :: "Packet \<Rightarrow> nat \<Rightarrow> byte list" where
  "payload_bytes p n = (case p_payload p of None \<Rightarrow> [] | Some d \<Rightarrow> take n d)"

section \<open>Socket calls\<close>

definition send_all_packet :: "byte list \<Rightarrow> sockaddr_in \<Rightarrow> world \<Rightarrow> int \<times> world" where
  "send_all_packet buf peer w =
     (let (bad, rest) = pop_fault (w_sendfault w); w1 = w\<lparr>w_sendfault := rest\<rparr>
      in if bad then (-1, w1) else (0, w1\<lparr>w_sent := w_sent w @ [(peer, buf)]\<rparr>))"

text \<open>
  The \<open>select\<close> loop: retried while it is interrupted; an empty script is a
  timeout. The result, the rest of the script and the number of \<open>select\<close> calls.
\<close>

fun select_loop :: "select_result list \<Rightarrow> (string + recv_result) \<times> select_result list \<times> nat" where
  "select_loop [] = (Inl ''timeout'', [], 1)"
| "select_loop (SelIntr # rs) = (case select_loop rs of (r, rest, n) \<Rightarrow> (r, rest, Suc n))"
| "select_loop (SelTimeout # rs) = (Inl ''timeout'', rs, 1)"
| "select_loop (SelErr m # rs) = (Inl m, rs, 1)"
| "select_loop (SelReady r # rs) = (Inr r, rs, 1)"

text \<open>\<open>tv_sec\<close> and \<open>tv_usec\<close>, set anew from \<open>timeout_ms\<close> before each \<open>select\<close>.\<close>

definition select_timeval :: "int \<Rightarrow> int \<times> int" where
  "select_timeval timeout_ms = (timeout_ms div 1000, (timeout_ms mod 1000) * 1000)"

text \<open>The \<open>recvfrom\<close> loop; a datagram longer than the buffer is cut to it.\<close>

fun recvfrom_loop :: "recv_result \<Rightarrow> string + (sockaddr_in \<times> byte list)" where
  "recvfrom_loop (RecvIntr r) = recvfrom_loop r"
| "recvfrom_loop (RecvErr m) = Inl m"
| "recvfrom_loop (RecvData peer d) = Inr (peer, take PROTOCOL_RECV_BUFFER d)"

definition recv_packet_timeout :: "int \<Rightarrow> world \<Rightarrow> (string + Packet \<times> sockaddr_in) \<times> world" where
  "recv_packet_timeout timeout_ms w =
     (case select_loop (w_net w) of (sel, rest, n) \<Rightarrow>
        let w1 = w\<lparr>w_net := rest, w_waits := w_waits w @ replicate n (select_timeval timeout_ms)\<rparr> in
        (case sel of
           Inl m \<Rightarrow> (parse_fail m, w1)
         | Inr r \<Rightarrow> (case recvfrom_loop r of
             Inl m \<Rightarrow> (parse_fail m, w1)
           | Inr (peer, d) \<Rightarrow>
              ((case parse_packet (Some d) of
                  Inl m \<Rightarrow> Inl m | Inr p \<Rightarrow> Inr (p, peer)), w1))))"

section \<open>Settings\<close>

definition parse_port :: "string option \<Rightarrow> u16 option" where
  "parse_port text = (case text of
     None \<Rightarrow> None
   | Some t \<Rightarrow>
      if t = [] then None
      else (let (value, rest, erange) = strtol10 t in
        if erange \<or> rest \<noteq> [] \<or> value \<le> 0 \<or> value > 65535 then None
        else Some (word_of_int value)))"

definition env_timeout_ms :: "world \<Rightarrow> int" where
  "env_timeout_ms w = (case getenv w ''UDP_SECURE_TIMEOUT_MS'' of
     None \<Rightarrow> 10000
   | Some t \<Rightarrow>
      if t = [] then 10000
      else (let (value, rest, erange) = strtol10 t in
        if erange \<or> rest \<noteq> [] \<or> value < 200 \<or> value > 120000 then 10000 else value))"

definition protocol_is_reliable :: "world \<Rightarrow> bool" where
  "protocol_is_reliable w = (case getenv w ''UDP_SECURE_PROTOCOL'' of
     None \<Rightarrow> False | Some name \<Rightarrow> name = ''udp-reliable'')"

definition env_reliable_window_size :: "world \<Rightarrow> int" where
  "env_reliable_window_size w = (case getenv w ''UDP_SECURE_WINDOW_SIZE'' of
     None \<Rightarrow> 4
   | Some t \<Rightarrow>
      if t = [] then 4
      else (let (value, rest, erange) = strtol10 t in
        if erange \<or> rest \<noteq> [] \<or> value < 2 \<or> value > 64 then 4 else value))"

definition env_reliable_timeout_ms :: "world \<Rightarrow> int" where
  "env_reliable_timeout_ms w = (case getenv w ''UDP_SECURE_RELIABLE_TIMEOUT_MS'' of
     None \<Rightarrow> 400
   | Some t \<Rightarrow>
      if t = [] then 400
      else (let (value, rest, erange) = strtol10 t in
        if erange \<or> rest \<noteq> [] \<or> value < 50 \<or> value > 10000 then 400 else value))"


section \<open>Codecs as an interface\<close>

text \<open>
  What a peer relies on: decoding recovers every well-formed message that was
  encoded, and whatever decodes is the encoding of a well-formed message.
\<close>

locale wire_codec =
  fixes enc :: "'m \<Rightarrow> byte list" and dec :: "byte list \<Rightarrow> 'm option" and ok :: "'m \<Rightarrow> bool"
  assumes dec_enc: "ok m \<Longrightarrow> dec (enc m) = Some m"
    and dec_sound: "dec b = Some m \<Longrightarrow> ok m \<and> b = enc m"
begin

lemma dec_iff: "dec b = Some m \<longleftrightarrow> ok m \<and> b = enc m"
  using dec_enc dec_sound by blast

lemma dec_None_iff: "dec b = None \<longleftrightarrow> (\<forall>m. ok m \<longrightarrow> b \<noteq> enc m)"
  by (metis dec_enc dec_sound not_None_eq)

lemma enc_inj: "ok m \<Longrightarrow> ok m' \<Longrightarrow> enc m = enc m' \<longleftrightarrow> m = m'"
  by (metis dec_enc option.inject)

lemma dec_canonical: "dec b = Some m \<Longrightarrow> dec b' = Some m \<Longrightarrow> b = b'"
  using dec_sound by blast

lemma dec_all: "list_all ok ms \<Longrightarrow> map dec (map enc ms) = map Some ms"
  by (induction ms) (simp_all add: dec_enc)

end

section \<open>The wire format\<close>

datatype message =
    Join | PassReq | PassAccept | Reject
  | PassResp "byte list"
  | Data u32 "byte list"
  | Terminate "byte list"
  | Ack u32 u32
  | Nack u32 u32

primrec msg_ok :: "message \<Rightarrow> bool" where
  "msg_ok Join = True"
| "msg_ok PassReq = True"
| "msg_ok PassAccept = True"
| "msg_ok Reject = True"
| "msg_ok (PassResp pw) = (length pw \<le> 255)"
| "msg_ok (Data i d) = (length d \<le> 1000)"
| "msg_ok (Terminate d) = (length d = 20)"
| "msg_ok (Ack a w) = True"
| "msg_ok (Nack a w) = True"

definition be16 :: "u16 \<Rightarrow> byte list" where
  "be16 v = [ucast (drop_bit 8 v), ucast v]"

definition be32 :: "u32 \<Rightarrow> byte list" where
  "be32 v = [ucast (drop_bit 24 v), ucast (drop_bit 16 v), ucast (drop_bit 8 v), ucast v]"

primrec encode :: "message \<Rightarrow> byte list" where
  "encode Join = be16 1 @ be32 0"
| "encode PassReq = be16 2 @ be32 0"
| "encode PassAccept = be16 4 @ be32 0"
| "encode Reject = be16 7 @ be32 0"
| "encode (PassResp pw) = be16 3 @ be32 (word_of_nat (length pw)) @ pw"
| "encode (Data i d) = be16 5 @ be32 (word_of_nat (length d)) @ be32 i @ d"
| "encode (Terminate d) = be16 6 @ be32 20 @ d"
| "encode (Ack a w) = be16 8 @ be32 8 @ be32 a @ be32 w"
| "encode (Nack a w) = be16 9 @ be32 8 @ be32 a @ be32 w"

text \<open>The message a parsed packet carries.\<close>

definition message_of :: "Packet \<Rightarrow> message" where
  "message_of p =
     (let pl = payload_bytes p (unat (p_payload_length p)) in
      if p_type p = 1 then Join else if p_type p = 2 then PassReq
      else if p_type p = 4 then PassAccept else if p_type p = 7 then Reject
      else if p_type p = 3 then PassResp pl
      else if p_type p = 5 then Data (p_packet_id p) pl
      else if p_type p = 6 then Terminate pl
      else if p_type p = 8 then Ack (p_ack_id p) (p_window_size p)
      else Nack (p_ack_id p) (p_window_size p))"

definition decode :: "byte list \<Rightarrow> message option" where
  "decode b = (case parse_packet (Some b) of Inl _ \<Rightarrow> None | Inr p \<Rightarrow> Some (message_of p))"

lemma be_put: "be16 v = put_u16_on host v" "be32 x = put_u32_on host x"
  by (simp_all add: be16_def be32_def put_u16_host put_u32_host)

lemma length_be [simp]: "length (be16 v) = 2" "length (be32 x) = 4"
  by (simp_all add: be16_def be32_def)

lemma get_be16 [simp]: "get_u16 (be16 v @ r) = v"
  by (simp add: be_put [of _ LittleEndian])

lemma get_be32 [simp]: "get_u32 (be32 x @ r) = x" "get_u32 (be32 x) = x"
  using get_put_u32 [of LittleEndian LittleEndian x r] get_put_u32 [of LittleEndian LittleEndian x "[]"]
  by (simp_all add: be_put [of _ LittleEndian])

lemma drop_be [simp]:
  "drop 2 (be16 v @ r) = r" "drop 6 (be16 v @ be32 x @ r) = r"
  "drop 10 (be16 v @ be32 x @ be32 y @ r) = r"
  by (simp_all add: be16_def be32_def)

lemma unat_small: "n < 4294967296 \<Longrightarrow> unat (word_of_nat n :: u32) = n"
  by (simp add: unat_of_nat take_bit_nat_eq_self)

lemma packet_type_valid_iff: "packet_type_valid t \<longleftrightarrow> (\<exists>k. t = pkt k)"
proof
  assume "packet_type_valid t"
  then have "1 \<le> unat t \<and> unat t \<le> 9"
    by (simp add: packet_type_valid_def word_le_nat_alt)
  then have "unat t \<in> {1, 2, 3, 4, 5, 6, 7, 8, 9}"
    by auto
  then have "word_of_nat (unat t) \<in> (word_of_nat ` {1, 2, 3, 4, 5, 6, 7, 8, 9} :: u16 set)"
    by (rule imageI)
  then have "t \<in> {1, 2, 3, 4, 5, 6, 7, 8, 9}" by simp
  then show "\<exists>k. t = pkt k"
    by (metis (full_types) insertE emptyE pkt.simps)
next
  assume "\<exists>k. t = pkt k"
  then obtain k where "t = pkt k" ..
  then show "packet_type_valid t"
    by (cases k) (simp_all add: packet_type_valid_def)
qed

lemma packet_type_valid_numerals [simp]:
  "packet_type_valid 1" "packet_type_valid 2" "packet_type_valid 3" "packet_type_valid 4"
  "packet_type_valid 5" "packet_type_valid 6" "packet_type_valid 7" "packet_type_valid 8"
  "packet_type_valid 9"
  by (simp_all add: packet_type_valid_def)

text \<open>The packet that parsing the encoding of a message gives.\<close>

primrec packet_of :: "message \<Rightarrow> Packet" where
  "packet_of Join = \<lparr>p_type = 1, p_payload_length = 0, p_packet_id = 0, p_ack_id = 0,
     p_window_size = 0, p_payload = None, p_wire = encode Join\<rparr>"
| "packet_of PassReq = \<lparr>p_type = 2, p_payload_length = 0, p_packet_id = 0, p_ack_id = 0,
     p_window_size = 0, p_payload = None, p_wire = encode PassReq\<rparr>"
| "packet_of PassAccept = \<lparr>p_type = 4, p_payload_length = 0, p_packet_id = 0, p_ack_id = 0,
     p_window_size = 0, p_payload = None, p_wire = encode PassAccept\<rparr>"
| "packet_of Reject = \<lparr>p_type = 7, p_payload_length = 0, p_packet_id = 0, p_ack_id = 0,
     p_window_size = 0, p_payload = None, p_wire = encode Reject\<rparr>"
| "packet_of (PassResp pw) = \<lparr>p_type = 3, p_payload_length = word_of_nat (length pw),
     p_packet_id = 0, p_ack_id = 0, p_window_size = 0, p_payload = Some pw,
     p_wire = encode (PassResp pw)\<rparr>"
| "packet_of (Data i d) = \<lparr>p_type = 5, p_payload_length = word_of_nat (length d),
     p_packet_id = i, p_ack_id = 0, p_window_size = 0, p_payload = Some d,
     p_wire = encode (Data i d)\<rparr>"
| "packet_of (Terminate d) = \<lparr>p_type = 6, p_payload_length = 20, p_packet_id = 0,
     p_ack_id = 0, p_window_size = 0, p_payload = Some d, p_wire = encode (Terminate d)\<rparr>"
| "packet_of (Ack a w) = \<lparr>p_type = 8, p_payload_length = 8, p_packet_id = 0, p_ack_id = a,
     p_window_size = w, p_payload = None, p_wire = encode (Ack a w)\<rparr>"
| "packet_of (Nack a w) = \<lparr>p_type = 9, p_payload_length = 8, p_packet_id = 0, p_ack_id = a,
     p_window_size = w, p_payload = None, p_wire = encode (Nack a w)\<rparr>"

lemma parse_encode: "msg_ok m \<Longrightarrow> parse_packet (Some (encode m)) = Inr (packet_of m)"
  by (cases m) (simp_all add: parse_packet_def Let_def protocol_sizes unat_small)

lemma message_of_packet_of: "msg_ok m \<Longrightarrow> message_of (packet_of m) = m"
  by (cases m) (simp_all add: message_of_def Let_def payload_bytes_def unat_small)

lemma split_header:
  assumes "6 \<le> length b"
  shows "b = be16 (get_u16 b) @ be32 (get_u32 (drop 2 b)) @ drop 6 b"
proof -
  have "take 2 b @ take 4 (drop 2 b) @ drop 4 (drop 2 b) = b"
    by (simp only: append_take_drop_id)
  with assms show ?thesis
    by (simp add: be_put [of _ LittleEndian] put_get_u16 put_get_u32)
qed

lemma split_u32:
  assumes "4 \<le> length b"
  shows "b = be32 (get_u32 b) @ drop 4 b"
proof -
  have "b = take 4 b @ drop 4 b" by simp
  with assms show ?thesis
    by (simp add: be_put [of _ LittleEndian] put_get_u32 del: append_take_drop_id)
qed

lemma parse_fail_not_Inr [simp]: "parse_fail m \<noteq> Inr p"
  by (simp add: parse_fail_def)

text \<open>What the parser accepts is the encoding of the message it found.\<close>

lemma parse_sound:
  assumes "parse_packet (Some b) = Inr p"
  shows "msg_ok (message_of p) \<and> b = encode (message_of p)"
proof -
  let ?t = "get_u16 b"
  obtain n where n: "get_u32 (drop 2 b) = n" by simp
  have len: "6 \<le> length b"
    using assms by (auto simp: parse_packet_def Let_def protocol_sizes split: if_splits)
  have b: "be16 ?t @ be32 n @ drop 6 b = b" using split_header [OF len] n by simp
  have valid: "packet_type_valid ?t"
    using assms by (auto simp: parse_packet_def Let_def protocol_sizes split: if_splits)
  then obtain k where k: "?t = pkt k" by (auto simp: packet_type_valid_iff)
  have un: "word_of_nat (unat n) = n" by simp
  note acc = assms [unfolded parse_packet_def]
  show ?thesis
  proof (cases k)
    case PKT_DATA
    with acc len k n have p: "p = \<lparr>p_type = 5, p_payload_length = n,
        p_packet_id = get_u32 (drop 6 b), p_ack_id = 0, p_window_size = 0,
        p_payload = Some (drop 10 b), p_wire = b\<rparr>"
      and l: "unat n \<le> 1000" "length b = 10 + unat n"
      by (auto simp: Let_def protocol_sizes split: if_splits)
    have r: "be32 (get_u32 (drop 6 b)) @ drop 10 b = drop 6 b"
      using split_u32 [of "drop 6 b"] l by simp
    show ?thesis
      using b k PKT_DATA l by (simp add: p message_of_def Let_def payload_bytes_def r)
  next
    case PKT_ACK
    with acc len k n have p: "p = \<lparr>p_type = 8, p_payload_length = n, p_packet_id = 0,
        p_ack_id = get_u32 (drop 6 b), p_window_size = get_u32 (drop 10 b),
        p_payload = None, p_wire = b\<rparr>"
      and l: "unat n = 8" "length b = 14"
      by (auto simp: Let_def protocol_sizes valid split: if_splits)
    have r: "be32 (get_u32 (drop 6 b)) @ be32 (get_u32 (drop 10 b)) = drop 6 b"
      using split_u32 [of "drop 6 b"] split_u32 [of "drop 10 b"] l by simp
    have "n = 8" using l un by (metis of_nat_numeral)
    then show ?thesis
      using b k PKT_ACK by (simp add: p message_of_def Let_def r)
  next
    case PKT_NACK
    with acc len k n have p: "p = \<lparr>p_type = 9, p_payload_length = n, p_packet_id = 0,
        p_ack_id = get_u32 (drop 6 b), p_window_size = get_u32 (drop 10 b),
        p_payload = None, p_wire = b\<rparr>"
      and l: "unat n = 8" "length b = 14"
      by (auto simp: Let_def protocol_sizes valid split: if_splits)
    have r: "be32 (get_u32 (drop 6 b)) @ be32 (get_u32 (drop 10 b)) = drop 6 b"
      using split_u32 [of "drop 6 b"] split_u32 [of "drop 10 b"] l by simp
    have "n = 8" using l un by (metis of_nat_numeral)
    then show ?thesis
      using b k PKT_NACK by (simp add: p message_of_def Let_def r)
  next
    case PKT_TERMINATE
    from PKT_TERMINATE acc len k n have p: "p = \<lparr>p_type = 6, p_payload_length = n, p_packet_id = 0,
        p_ack_id = 0, p_window_size = 0, p_payload = Some (drop 6 b), p_wire = b\<rparr>"
      and l: "unat n = 20" "length b = 26"
      by (auto simp: Let_def protocol_sizes valid split: if_splits)
    have "n = 20" using l un by (metis of_nat_numeral)
    then show ?thesis
      using b k l PKT_TERMINATE by (simp add: p message_of_def Let_def payload_bytes_def)
  next
    case PKT_PASS_RESP
    with acc len k n have p: "p = \<lparr>p_type = 3, p_payload_length = n, p_packet_id = 0,
        p_ack_id = 0, p_window_size = 0, p_payload = Some (drop 6 b), p_wire = b\<rparr>"
      and l: "unat n \<le> 255" "length b = 6 + unat n"
      by (auto simp: Let_def protocol_sizes valid split: if_splits)
    show ?thesis
      using b k l PKT_PASS_RESP by (simp add: p message_of_def Let_def payload_bytes_def)
  qed (use acc len k n b in
        \<open>auto simp: Let_def protocol_sizes valid message_of_def split: if_splits\<close>)
qed

lemma decode_encode [simp]: "msg_ok m \<Longrightarrow> decode (encode m) = Some m"
  by (simp add: decode_def parse_encode message_of_packet_of)

lemma decode_sound: "decode b = Some m \<Longrightarrow> msg_ok m \<and> b = encode m"
  by (auto simp: decode_def dest: parse_sound split: sum.splits)

interpretation udp: wire_codec encode decode msg_ok
  by unfold_locales (auto dest: decode_sound)

lemma parse_packet_of:
  "parse_packet (Some b) = Inr p \<Longrightarrow> p = packet_of (message_of p)"
  using parse_sound parse_encode by (metis sum.inject(2))

lemma parse_accepts_iff: "(\<exists>p. parse_packet (Some b) = Inr p) \<longleftrightarrow> (\<exists>m. msg_ok m \<and> b = encode m)"
  using parse_sound parse_encode by blast

lemma p_wire_packet_of [simp]: "p_wire (packet_of m) = encode m"
  by (cases m) simp_all


section \<open>The builders produce the wire format\<close>

lemma build_data_packet_eq:
  "build_data_packet i (Some d) (word_of_nat (length d)) (Some cap) =
     (if length d \<le> 1000 \<and> 10 + length d \<le> cap then Some (encode (Data i d)) else None)"
  if "length d < 4294967296"
  using that
  by (auto simp: build_data_packet_def protocol_sizes unat_small be_put [of _ LittleEndian])

lemma build_pass_resp_packet_eq:
  "build_pass_resp_packet (Some pw) (Some cap) =
     (if length pw \<le> 255 \<and> 6 + length pw \<le> cap
      then Some (encode (PassResp (bytes_of_string pw))) else None)"
  by (auto simp: build_pass_resp_packet_def Let_def protocol_sizes be_put [of _ LittleEndian])

lemma build_terminate_packet_eq:
  "length d = 20 \<Longrightarrow> build_terminate_packet (Some d) (Some cap) =
     (if 26 \<le> cap then Some (encode (Terminate d)) else None)"
  by (auto simp: build_terminate_packet_def protocol_sizes be_put [of _ LittleEndian])

lemma build_feedback_packet_eq:
  "build_feedback_packet (pkt PKT_ACK) a w (Some cap) =
     (if 14 \<le> cap then Some (encode (Ack a w)) else None)"
  "build_feedback_packet (pkt PKT_NACK) a w (Some cap) =
     (if 14 \<le> cap then Some (encode (Nack a w)) else None)"
  by (auto simp: build_feedback_packet_def protocol_sizes be_put [of _ LittleEndian])

lemma build_control_packet_eq:
  "6 \<le> cap \<Longrightarrow> build_control_packet (pkt PKT_JOIN_REQ) (Some cap) = Some (encode Join)"
  "6 \<le> cap \<Longrightarrow> build_control_packet (pkt PKT_PASS_REQ) (Some cap) = Some (encode PassReq)"
  "6 \<le> cap \<Longrightarrow> build_control_packet (pkt PKT_PASS_ACCEPT) (Some cap) = Some (encode PassAccept)"
  "6 \<le> cap \<Longrightarrow> build_control_packet (pkt PKT_REJECT) (Some cap) = Some (encode Reject)"
  by (auto simp: build_control_packet_def protocol_sizes be_put [of _ LittleEndian])

lemma length_encode:
  "msg_ok m \<Longrightarrow> 6 \<le> length (encode m) \<and> length (encode m) \<le> PROTOCOL_MAX_DATAGRAM"
  by (cases m) (auto simp: protocol_sizes)

section \<open>Hex rendering\<close>

lemma length_hex_loop:
  "length (hex_loop i bs n) = 2 * min (length bs) (n div 2 - i)"
proof (induction bs arbitrary: i)
  case (Cons b bs)
  show ?case
  proof (cases "i * 2 + 2 \<le> n")
    case True
    then have "n div 2 - i = Suc (n div 2 - Suc i)" by simp
    with True Cons.IH [of "Suc i"] show ?thesis by simp
  qed simp
qed simp

lemma bytes_to_hex_fits:
  "n > 0 \<Longrightarrow> \<exists>h. bytes_to_hex bs n = Some h \<and> length h < n"
  by (cases bs) (auto simp: bytes_to_hex_def Let_def)

lemma hex_loop_full:
  "i * 2 + 2 * length bs \<le> n \<Longrightarrow>
   hex_loop i bs n = concat (map (\<lambda>b. [hex_char (drop_bit 4 b), hex_char b]) bs)"
  by (induction bs arbitrary: i) auto

lemma bytes_to_hex_full:
  assumes "2 * length bs < n"
  shows "bytes_to_hex (Some bs) n =
    Some (concat (map (\<lambda>b. [hex_char (drop_bit 4 b), hex_char b]) bs))"
proof -
  have "length (hex_loop 0 bs n) < n" using assms by (simp add: length_hex_loop)
  with assms show ?thesis
    by (simp add: bytes_to_hex_def Let_def hex_loop_full)
qed

section \<open>What the socket calls leave unchanged\<close>

lemma send_all_packet_eq:
  "send_all_packet buf peer w =
     (if fst (pop_fault (w_sendfault w))
      then (-1, w\<lparr>w_sendfault := snd (pop_fault (w_sendfault w))\<rparr>)
      else (0, w\<lparr>w_sendfault := snd (pop_fault (w_sendfault w)),
                 w_sent := w_sent w @ [(peer, buf)]\<rparr>))"
  by (simp add: send_all_packet_def Let_def split: prod.split)

text \<open>The world after a receive: the script advanced and the waits recorded.\<close>

definition after_recv :: "int \<Rightarrow> world \<Rightarrow> world" where
  "after_recv ms w =
     w\<lparr>w_net := fst (snd (select_loop (w_net w))),
       w_waits := w_waits w @ replicate (snd (snd (select_loop (w_net w)))) (select_timeval ms)\<rparr>"

lemma recv_packet_timeout_world:
  "snd (recv_packet_timeout ms w) = after_recv ms w"
  by (simp add: recv_packet_timeout_def after_recv_def Let_def split: prod.splits sum.splits)

lemma recv_packet_timeout_after:
  "recv_packet_timeout ms w = (r, w1) \<Longrightarrow> w1 = after_recv ms w"
  using recv_packet_timeout_world [of ms w] by simp

lemma after_recv_frame [world_simps]:
  "w_env (after_recv ms w) = w_env w"
  "w_fs (after_recv ms w) = w_fs w"
  "w_errno (after_recv ms w) = w_errno w"
  "w_stop (after_recv ms w) = w_stop w"
  "w_sendfault (after_recv ms w) = w_sendfault w"
  "w_writefault (after_recv ms w) = w_writefault w"
  "w_renamefault (after_recv ms w) = w_renamefault w"
  "w_allocfault (after_recv ms w) = w_allocfault w"
  "w_clock (after_recv ms w) = w_clock w"
  "w_tick (after_recv ms w) = w_tick w"
  "w_stdin (after_recv ms w) = w_stdin w"
  "w_sent (after_recv ms w) = w_sent w"
  "w_stdout (after_recv ms w) = w_stdout w"
  "file_data (after_recv ms w) p = file_data w p"
  by (simp_all add: after_recv_def file_data_def)

lemma select_loop_shrinks:
  "select_loop rs = (Inr r, rest, n) \<Longrightarrow> length rest < length rs"
  by (induction rs arbitrary: rest n rule: select_loop.induct) (fastforce split: prod.splits)+

text \<open>A successful receive consumes part of the script.\<close>

lemma recv_packet_timeout_shrinks:
  "recv_packet_timeout ms w = (Inr x, w1) \<Longrightarrow> length (w_net w1) < length (w_net w)"
  by (auto simp: recv_packet_timeout_def Let_def parse_fail_def dest: select_loop_shrinks
      split: prod.splits sum.splits)

text \<open>A datagram that arrives first is the one received, cut to the buffer.\<close>

lemma recv_packet_timeout_data:
  "w_net w = SelReady (RecvData peer d) # rest \<Longrightarrow> length d \<le> 2048 \<Longrightarrow>
   recv_packet_timeout ms w =
     ((case parse_packet (Some d) of Inl m \<Rightarrow> Inl m | Inr p \<Rightarrow> Inr (p, peer)),
      w\<lparr>w_net := rest, w_waits := w_waits w @ [select_timeval ms]\<rparr>)"
  by (simp add: recv_packet_timeout_def protocol_sizes)

lemma recv_packet_timeout_message:
  assumes "w_net w = SelReady (RecvData peer (encode m)) # rest" "msg_ok m"
  shows "recv_packet_timeout ms w = (Inr (packet_of m, peer),
           w\<lparr>w_net := rest, w_waits := w_waits w @ [select_timeval ms]\<rparr>)"
proof -
  have "length (encode m) \<le> 2048"
    using length_encode [OF assms(2)] by (simp add: protocol_sizes)
  from recv_packet_timeout_data [OF assms(1) this] show ?thesis
    by (simp add: parse_encode [OF assms(2)])
qed

text \<open>A packet received is a well-formed message of the sender the datagram names.\<close>

lemma recv_packet_timeout_ok:
  assumes "recv_packet_timeout ms w = (Inr (p, peer), w1)"
  shows "msg_ok (message_of p) \<and> p = packet_of (message_of p)"
proof -
  from assms obtain d where "parse_packet (Some d) = Inr p"
    by (auto simp: recv_packet_timeout_def Let_def parse_fail_def split: prod.splits sum.splits)
  then show ?thesis
    by (auto dest: parse_sound parse_packet_of)
qed

text \<open>Each interrupted \<open>select\<close> is started again with the whole timeout.\<close>

lemma select_loop_interrupts:
  "select_loop (replicate k SelIntr @ SelTimeout # rest) = (Inl ''timeout'', rest, Suc k)"
  by (induction k) simp_all

section \<open>Settings are in range\<close>

lemma env_timeout_ms_range: "200 \<le> env_timeout_ms w \<and> env_timeout_ms w \<le> 120000"
  by (auto simp: env_timeout_ms_def Let_def split: option.splits prod.splits)

lemma env_reliable_window_size_range:
  "2 \<le> env_reliable_window_size w \<and> env_reliable_window_size w \<le> 64"
  by (auto simp: env_reliable_window_size_def Let_def split: option.splits prod.splits)

lemma env_reliable_timeout_ms_range:
  "50 \<le> env_reliable_timeout_ms w \<and> env_reliable_timeout_ms w \<le> 10000"
  by (auto simp: env_reliable_timeout_ms_def Let_def split: option.splits prod.splits)

lemma parse_port_show_nat:
  "0 < n \<Longrightarrow> n \<le> 65535 \<Longrightarrow> parse_port (Some (show_nat n)) = Some (word_of_nat n)"
  using strtol10_show_nat [of n "[]"] by (simp add: parse_port_def long_max_def)

lemma parse_port_nonzero: "parse_port t = Some p \<Longrightarrow> 0 < unat p"
proof -
  assume "parse_port t = Some p"
  then obtain v :: int where v: "0 < v" "v \<le> 65535" and p: "p = word_of_int v"
    by (auto simp: parse_port_def Let_def not_le not_less split: option.splits prod.splits if_splits)
  from v have "uint p = v" by (simp add: p uint_word_of_int_eq take_bit_int_eq_self)
  with v show ?thesis by (metis unat_gt_0 uint_0_iff less_irrefl)
qed

section \<open>Properties of the wire format\<close>

text \<open>
  C8. The parser accepts a datagram exactly when it is the encoding of a well-formed
  message, and then delivers that message's fields: no other byte string is a
  packet, and no two byte strings are the same packet.
\<close>

theorem parse_packet_exact:
  "parse_packet (Some b) = Inr p \<longleftrightarrow> (\<exists>m. msg_ok m \<and> b = encode m \<and> p = packet_of m)"
  using parse_sound parse_packet_of parse_encode by metis

text \<open>
  What the server builds for a chunk of the file is what the client's parser reads
  back: packet number, length and every data byte.
\<close>

lemma data_packet_round_trip:
  assumes "length d < 4294967296"
    and "build_data_packet i (Some d) (word_of_nat (length d)) (Some cap) = Some b"
  shows "\<exists>p. parse_packet (Some b) = Inr p \<and> p_type p = pkt PKT_DATA \<and> p_packet_id p = i \<and>
    unat (p_payload_length p) = length d \<and> payload_bytes p (length d) = d"
proof -
  have b: "length d \<le> 1000" "b = encode (Data i d)"
    using assms(2) by (simp_all add: build_data_packet_eq [OF assms(1)] split: if_splits)
  then have "parse_packet (Some b) = Inr (packet_of (Data i d))" by (simp add: parse_encode del: encode.simps)
  with b assms(1) show ?thesis by (simp add: payload_bytes_def unat_small)
qed

text \<open>
  Multi-byte fields are the same bytes on little-endian and big-endian hosts, and
  what one kind of host writes the other kind reads.
\<close>

lemma wire_format_host_independent:
  "put_u16_on h v = put_u16_on h' v \<and> put_u32_on h x = put_u32_on h' x \<and>
   get_u16_on h (put_u16_on h' v @ rest) = v \<and> get_u32_on h (put_u32_on h' x @ rest) = x"
  by (simp add: put_u16_host put_u32_host get_u16_host get_u32_host be16_word be32_word)

text \<open>Each interrupted \<open>select\<close> is started again with the full timeout: after \<open>k\<close>
  interruptions a receive has waited for the timeout \<open>k + 1\<close> times before it reports
  it, so a receive has no deadline.
\<close>

lemma interrupted_receive_waits_again:
  assumes "w_net w = replicate k SelIntr @ SelTimeout # rest"
  shows "\<exists>w1. recv_packet_timeout ms w = (Inl ''timeout'', w1) \<and>
    w_waits w1 = w_waits w @ replicate (Suc k) (select_timeval ms)"
  using assms by (simp add: recv_packet_timeout_def select_loop_interrupts parse_fail_def)

text \<open>
  Whatever the environment holds, the receive timeout, the window and the
  retransmission timeout stay in the ranges the programs work with.
\<close>

lemma settings_in_range:
  "200 \<le> env_timeout_ms w \<and> env_timeout_ms w \<le> 120000 \<and>
   2 \<le> env_reliable_window_size w \<and> env_reliable_window_size w \<le> 64 \<and>
   50 \<le> env_reliable_timeout_ms w \<and> env_reliable_timeout_ms w \<le> 10000"
  using env_timeout_ms_range env_reliable_window_size_range env_reliable_timeout_ms_range by simp

text \<open>
  The port parser reads back every port number it can return from its decimal text,
  and never returns port 0.
\<close>

lemma port_round_trip:
  "(\<exists>t. parse_port (Some t) = Some p) \<longleftrightarrow> parse_port (Some (show_nat (unat p))) = Some p"
proof
  assume "\<exists>t. parse_port (Some t) = Some p"
  then have "0 < unat p" using parse_port_nonzero by blast
  moreover have "unat p < 2 ^ LENGTH(16)" by (rule unsigned_less)
  ultimately show "parse_port (Some (show_nat (unat p))) = Some p"
    by (simp add: parse_port_show_nat)
qed blast

end
