(* ===== verification/Sha1.thy ===== *)
theory Sha1
  imports World
begin

text \<open>
  The project's own SHA-1 (\<open>src/sha1_util.c\<close>): the streaming context, its
  update and final operations, and hex rendering. The one-shot specification is
  FIPS 180-4's (pad, split into 64-byte blocks, fold the compression function),
  and the main results are that the context machine computes it for every way
  of cutting the message into updates.
\<close>

section \<open>The compression function\<close>

definition rotl32 :: "u32 \<Rightarrow> nat \<Rightarrow> u32" where
  "rotl32 value bits = (push_bit bits value) OR (drop_bit (32 - bits) value)"

record Sha1Context =
  sc_state :: "u32 list"     \<comment> \<open>five words\<close>
  sc_bit_count :: u64
  sc_buffer :: "byte list"   \<comment> \<open>the first \<open>buffer_len\<close> bytes of \<open>buffer\<close>\<close>

abbreviation sc_buffer_len :: "Sha1Context \<Rightarrow> nat" where
  "sc_buffer_len ctx \<equiv> length (sc_buffer ctx)"

definition load_be32 :: "byte list \<Rightarrow> nat \<Rightarrow> u32" where
  "load_be32 block i =
     (push_bit 24 (ucast (block ! (i * 4)))) OR (push_bit 16 (ucast (block ! (i * 4 + 1)))) OR
     (push_bit 8 (ucast (block ! (i * 4 + 2)))) OR (ucast (block ! (i * 4 + 3)))"

text \<open>The message schedule \<open>w[0..79]\<close>: sixteen words of the block, then the recurrence.\<close>

fun schedule_from :: "nat \<Rightarrow> u32 list \<Rightarrow> u32 list" where
  "schedule_from 0 w = w"
| "schedule_from (Suc k) w =
     (let i = length w in
      schedule_from k (w @ [rotl32 (w ! (i - 3) XOR w ! (i - 8) XOR w ! (i - 14) XOR w ! (i - 16)) 1]))"

definition sha1_schedule :: "byte list \<Rightarrow> u32 list" where
  "sha1_schedule block = schedule_from 64 (map (load_be32 block) [0..<16])"

definition sha1_f :: "nat \<Rightarrow> u32 \<Rightarrow> u32 \<Rightarrow> u32 \<Rightarrow> u32" where
  "sha1_f i b c d =
     (if i < 20 then (b AND c) OR ((NOT b) AND d)
      else if i < 40 then b XOR c XOR d
      else if i < 60 then (b AND c) OR (b AND d) OR (c AND d)
      else b XOR c XOR d)"

definition sha1_k :: "nat \<Rightarrow> u32" where
  "sha1_k i = (if i < 20 then 0x5a827999 else if i < 40 then 0x6ed9eba1
               else if i < 60 then 0x8f1bbcdc else 0xca62c1d6)"

text \<open>One round; the five working variables as a tuple.\<close>

fun sha1_rounds ::
  "nat \<Rightarrow> u32 list \<Rightarrow> u32 \<times> u32 \<times> u32 \<times> u32 \<times> u32 \<Rightarrow> u32 \<times> u32 \<times> u32 \<times> u32 \<times> u32" where
  "sha1_rounds i [] v = v"
| "sha1_rounds i (wi # ws) (a, b, c, d, e) =
     (let temp = rotl32 a 5 + sha1_f i b c d + e + sha1_k i + wi
      in sha1_rounds (Suc i) ws (temp, a, rotl32 b 30, c, d))"

definition sha1_compress :: "u32 list \<Rightarrow> byte list \<Rightarrow> u32 list" where
  "sha1_compress st block =
     (case sha1_rounds 0 (sha1_schedule block) (st ! 0, st ! 1, st ! 2, st ! 3, st ! 4)
      of (a, b, c, d, e) \<Rightarrow> [st ! 0 + a, st ! 1 + b, st ! 2 + c, st ! 3 + d, st ! 4 + e])"

definition sha1_transform :: "Sha1Context \<Rightarrow> byte list \<Rightarrow> Sha1Context" where
  "sha1_transform ctx block = ctx\<lparr>sc_state := sha1_compress (sc_state ctx) block\<rparr>"

section \<open>The streaming operations\<close>

definition sha1_iv :: "u32 list" where
  "sha1_iv = [0x67452301, 0xefcdab89, 0x98badcfe, 0x10325476, 0xc3d2e1f0]"

definition sha1_init :: Sha1Context where
  "sha1_init = \<lparr>sc_state = sha1_iv, sc_bit_count = 0, sc_buffer = []\<rparr>"

text \<open>
  The \<open>while (len > 0)\<close> loop. It makes no progress only on a context whose buffer
  is already full, which no operation returns (\<open>ctx_ok\<close> below); the guard gives
  that unreachable case a value.
\<close>

function sha1_absorb :: "Sha1Context \<Rightarrow> byte list \<Rightarrow> Sha1Context" where
  "sha1_absorb ctx data =
     (let copy_len = min (64 - sc_buffer_len ctx) (length data) in
      if data = [] \<or> copy_len = 0 then ctx
      else let ctx1 = ctx\<lparr>sc_buffer := sc_buffer ctx @ take copy_len data\<rparr>;
               ctx2 = (if sc_buffer_len ctx1 = 64
                       then (sha1_transform ctx1 (sc_buffer ctx1))\<lparr>sc_buffer := []\<rparr>
                       else ctx1)
           in sha1_absorb ctx2 (drop copy_len data))"
  by pat_completeness auto
termination
  by (relation "measure (\<lambda>(ctx, data). length data)") auto

declare sha1_absorb.simps [simp del]

definition sha1_update :: "Sha1Context \<Rightarrow> byte list \<Rightarrow> Sha1Context" where
  "sha1_update ctx data =
     sha1_absorb (ctx\<lparr>sc_bit_count := sc_bit_count ctx + word_of_nat (length data) * 8\<rparr>) data"

text \<open>\<open>while (ctx->buffer_len != 56U) sha1_update(ctx, &zero, 1);\<close> needs at most 63 rounds.\<close>

fun sha1_pad_zeros :: "nat \<Rightarrow> Sha1Context \<Rightarrow> Sha1Context option" where
  "sha1_pad_zeros 0 ctx = (if sc_buffer_len ctx = 56 then Some ctx else None)"
| "sha1_pad_zeros (Suc fuel) ctx =
     (if sc_buffer_len ctx = 56 then Some ctx
      else sha1_pad_zeros fuel (sha1_update ctx [0x00]))"

definition length_bytes :: "u64 \<Rightarrow> byte list" where
  "length_bytes bit_count = map (\<lambda>j. ucast (drop_bit ((7 - j) * 8) bit_count AND 0xff)) [0..<8]"

definition store_be32 :: "u32 \<Rightarrow> byte list" where
  "store_be32 x = [ucast (drop_bit 24 x AND 0xff), ucast (drop_bit 16 x AND 0xff),
                   ucast (drop_bit 8 x AND 0xff), ucast (x AND 0xff)]"

definition sha1_final_opt :: "Sha1Context \<Rightarrow> byte list option" where
  "sha1_final_opt ctx =
     (let bit_count = sc_bit_count ctx;
          ctx1 = sha1_update ctx [0x80]
      in map_option
           (\<lambda>ctx2. concat (map store_be32 (sc_state (sha1_update ctx2 (length_bytes bit_count)))))
           (sha1_pad_zeros 64 ctx1))"

text \<open>The digest; \<open>sha1_final_some\<close> below shows that the padding loop always ends.\<close>

definition sha1_final :: "Sha1Context \<Rightarrow> byte list" where
  "sha1_final ctx = (case sha1_final_opt ctx of Some d \<Rightarrow> d | None \<Rightarrow> [])"

definition sha1_file :: "world \<Rightarrow> string \<Rightarrow> byte list option" where
  "sha1_file w path =
     (case w_fs w path of
        None \<Rightarrow> None
      | Some f \<Rightarrow>
          (let (blocks, err) = fread_blocks 4096 f;
               ctx = foldl sha1_update sha1_init blocks
           in if err then None else Some (sha1_final ctx)))"

definition hex_digit :: "byte \<Rightarrow> char" where
  "hex_digit x = ''0123456789abcdef'' ! unat (x AND 0x0f)"

definition sha1_to_hex :: "byte list \<Rightarrow> string" where
  "sha1_to_hex digest = concat (map (\<lambda>b. [hex_digit (drop_bit 4 b), hex_digit b]) (take 20 digest))"


section \<open>Incremental hashing as an interface\<close>

text \<open>
  What every caller of the hash relies on (\<open>sha1_file\<close>, \<open>compute_packet_uid\<close>,
  \<open>demo_hmac_sha1\<close>, \<open>demo_derive_session_key\<close>): feeding a message in pieces is
  feeding it at once.
\<close>

locale incremental_hash =
  fixes init :: "'c" and update :: "'c \<Rightarrow> 'd list \<Rightarrow> 'c" and final :: "'c \<Rightarrow> 'h" and ok :: "'c \<Rightarrow> bool"
  assumes ok_init: "ok init"
    and ok_update: "ok c \<Longrightarrow> ok (update c a)"
    and update_update: "ok c \<Longrightarrow> update (update c a) b = update c (a @ b)"
    and update_Nil: "ok c \<Longrightarrow> update c [] = c"
begin

lemma foldl_update: "ok c \<Longrightarrow> foldl update c parts = update c (concat parts)"
  by (induction parts arbitrary: c) (simp_all add: update_Nil ok_update update_update)

lemma ok_foldl: "ok c \<Longrightarrow> ok (foldl update c parts)"
  by (simp add: foldl_update ok_update)

lemma same_concat_same_hash:
  "concat parts = concat parts' \<Longrightarrow> final (foldl update init parts) = final (foldl update init parts')"
  by (simp add: foldl_update ok_init)

lemma three_updates:
  "final (update (update (update init a) b) c) = final (update init (a @ b @ c))"
  by (simp add: update_update ok_update ok_init)

lemma two_updates: "final (update (update init a) b) = final (update init (a @ b))"
  by (simp add: update_update ok_init)

end

section \<open>The context machine absorbs full blocks\<close>

definition full_blocks :: "byte list \<Rightarrow> byte list list" where
  "full_blocks m = chunks 64 (take (64 * (length m div 64)) m)"

definition tail_block :: "byte list \<Rightarrow> byte list" where
  "tail_block m = drop (64 * (length m div 64)) m"

definition ctx_ok :: "Sha1Context \<Rightarrow> bool" where
  "ctx_ok ctx \<longleftrightarrow> length (sc_state ctx) = 5 \<and> sc_buffer_len ctx < 64"

lemma length_tail_block: "length (tail_block m) = length m mod 64"
  by (simp add: tail_block_def minus_mult_div_eq_mod)

lemma tail_block_less [simp]: "length (tail_block m) < 64"
  by (simp add: length_tail_block)

lemma full_tail: "concat (full_blocks m) @ tail_block m = m"
  by (simp add: full_blocks_def tail_block_def)

lemma full_blocks_short [simp]: "length m < 64 \<Longrightarrow> full_blocks m = [] \<and> tail_block m = m"
  by (simp add: full_blocks_def tail_block_def)

lemma full_blocks_64:
  assumes "length b = 64"
  shows "full_blocks (b @ d) = b # full_blocks d \<and> tail_block (b @ d) = tail_block d"
proof -
  have "length (b @ d) div 64 = Suc (length d div 64)"
    using assms by simp
  then have e: "64 * (length (b @ d) div 64) = length b + 64 * (length d div 64)"
    using assms by simp
  have "full_blocks (b @ d) = chunks 64 (b @ take (64 * (length d div 64)) d)"
    by (simp add: full_blocks_def e del: length_append)
  also have "\<dots> = b # full_blocks d"
    using assms by (simp add: chunks_append chunks_exact full_blocks_def)
  finally show ?thesis
    by (simp add: tail_block_def e del: length_append)
qed

lemma full_blocks_append:
  "full_blocks (a @ d) = full_blocks a @ full_blocks (tail_block a @ d) \<and>
   tail_block (a @ d) = tail_block (tail_block a @ d)"
proof (induction "length a" arbitrary: a rule: less_induct)
  case less
  show ?case
  proof (cases "length a < 64")
    case False
    define b r where "b = take 64 a" and "r = drop 64 a"
    have a: "a = b @ r" and b: "length b = 64" using False by (simp_all add: b_def r_def)
    have "length r < length a" using False by (simp add: r_def)
    from less [OF this] show ?thesis
      using full_blocks_64 [OF b, of r] full_blocks_64 [OF b, of "r @ d"] by (simp add: a)
  qed simp
qed

lemma length_sha1_compress [simp]: "length (sha1_compress st b) = 5"
  by (simp add: sha1_compress_def split: prod.splits)

lemma length_foldl_compress [simp]: "length st = 5 \<Longrightarrow> length (foldl sha1_compress st bs) = 5"
  by (induction bs arbitrary: st) simp_all

lemma sha1_absorb_Nil [simp]: "sha1_absorb ctx [] = ctx"
  by (simp add: sha1_absorb.simps Let_def)

text \<open>One round of the loop either buffers all of the data or completes a block.\<close>

lemma sha1_absorb_buffers:
  assumes "sc_buffer_len ctx + length d < 64"
  shows "sha1_absorb ctx d = ctx\<lparr>sc_buffer := sc_buffer ctx @ d\<rparr>"
  using assms by (simp add: sha1_absorb.simps [of ctx d] Let_def min_absorb2)

lemma sha1_absorb_completes:
  assumes "sc_buffer_len ctx < 64" "sc_buffer_len ctx + length d \<ge> 64"
  defines "k \<equiv> 64 - sc_buffer_len ctx"
  shows "sha1_absorb ctx d =
    sha1_absorb (ctx\<lparr>sc_state := sha1_compress (sc_state ctx) (sc_buffer ctx @ take k d),
                     sc_buffer := []\<rparr>) (drop k d)"
proof -
  have k: "min (64 - sc_buffer_len ctx) (length d) = k" "k \<noteq> 0" "d \<noteq> []"
    and b: "sc_buffer_len ctx + min (length d) k = 64"
    using assms by (auto simp: k_def)
  show ?thesis
    by (subst sha1_absorb.simps) (simp add: Let_def k b sha1_transform_def)
qed

lemma sha1_absorb_eq:
  "sc_buffer_len ctx < 64 \<Longrightarrow> sha1_absorb ctx d =
     ctx\<lparr>sc_state := foldl sha1_compress (sc_state ctx) (full_blocks (sc_buffer ctx @ d)),
         sc_buffer := tail_block (sc_buffer ctx @ d)\<rparr>"
proof (induction "length d" arbitrary: ctx d rule: less_induct)
  case less
  show ?case
  proof (cases "sc_buffer_len ctx + length d < 64")
    case True
    then show ?thesis by (simp add: sha1_absorb_buffers)
  next
    case False
    define k where "k = 64 - sc_buffer_len ctx"
    define b where "b = sc_buffer ctx @ take k d"
    have b: "length b = 64" using False less.prems by (simp add: b_def k_def)
    have d: "sc_buffer ctx @ d = b @ drop k d" by (simp add: b_def)
    have lt: "length (drop k d) < length d" using False less.prems by (simp add: k_def)
    have ab: "sha1_absorb ctx d = sha1_absorb
        (ctx\<lparr>sc_state := sha1_compress (sc_state ctx) b, sc_buffer := []\<rparr>) (drop k d)"
      using sha1_absorb_completes [of ctx d] False less.prems by (simp add: b_def k_def)
    show ?thesis
      unfolding ab d using less.hyps [OF lt] full_blocks_64 [OF b, of "drop k d"] by simp
  qed
qed

lemma sha1_update_eq:
  "ctx_ok ctx \<Longrightarrow> sha1_update ctx d =
     \<lparr>sc_state = foldl sha1_compress (sc_state ctx) (full_blocks (sc_buffer ctx @ d)),
      sc_bit_count = sc_bit_count ctx + word_of_nat (length d) * 8,
      sc_buffer = tail_block (sc_buffer ctx @ d)\<rparr>"
  by (simp add: sha1_update_def sha1_absorb_eq ctx_ok_def)

interpretation sha1: incremental_hash sha1_init sha1_update sha1_final ctx_ok
proof unfold_locales
  show "ctx_ok sha1_init" by (simp add: ctx_ok_def sha1_init_def sha1_iv_def)
next
  fix c a assume "ctx_ok c"
  then show "ctx_ok (sha1_update c a)"
    by (simp add: sha1_update_eq) (simp add: ctx_ok_def)
next
  fix c a b assume c: "ctx_ok c"
  then have "ctx_ok (sha1_update c a)" by (simp add: sha1_update_eq) (simp add: ctx_ok_def)
  with c show "sha1_update (sha1_update c a) b = sha1_update c (a @ b)"
    using full_blocks_append [of "sc_buffer c @ a" b]
    by (simp add: sha1_update_eq algebra_simps)
next
  fix c assume "ctx_ok c"
  then show "sha1_update c [] = c" by (simp add: sha1_update_eq ctx_ok_def)
qed

section \<open>The digest of a message\<close>

definition sha1_digest :: "byte list \<Rightarrow> byte list" where
  "sha1_digest m = sha1_final (sha1_update sha1_init m)"

text \<open>FIPS 180-4, section 5.1.1 and 6.1, on whole messages.\<close>

definition sha1_pad :: "byte list \<Rightarrow> byte list" where
  "sha1_pad m = m @ [0x80] @ replicate ((119 - length m mod 64) mod 64) 0 @
                length_bytes (word_of_nat (length m) * 8)"

definition sha1_spec :: "byte list \<Rightarrow> byte list" where
  "sha1_spec m = concat (map store_be32 (foldl sha1_compress sha1_iv (chunks 64 (sha1_pad m))))"

lemma buffer_len_update_zero:
  "ctx_ok c \<Longrightarrow> sc_buffer_len (sha1_update c [x]) = Suc (sc_buffer_len c) mod 64"
  by (simp add: sha1_update_eq length_tail_block)

lemma zeros_mod: "b < 64 \<Longrightarrow> (120 - b) mod 64 = (if b \<le> 56 then 56 - b else 120 - (b::nat))"
proof -
  assume b: "b < 64"
  show ?thesis
  proof (cases "b \<le> 56")
    case True
    then have "120 - b = (56 - b) + 64 * 1" by simp
    then have "(120 - b) mod 64 = (56 - b) mod 64" by (metis mod_mult_self2)
    with True show ?thesis by simp
  qed (use b in simp)
qed

lemma Suc_mod_64: "b < 64 \<Longrightarrow> Suc b mod 64 = (if b = 63 then 0 else Suc b)"
  by (auto simp: less_Suc_eq_le)

lemma sha1_pad_zeros_eq:
  "ctx_ok c \<Longrightarrow> (120 - sc_buffer_len c) mod 64 \<le> fuel \<Longrightarrow>
   sha1_pad_zeros fuel c = Some (sha1_update c (replicate ((120 - sc_buffer_len c) mod 64) 0))"
proof (induction fuel arbitrary: c)
  case 0
  then have "sc_buffer_len c = 56" by (auto simp: ctx_ok_def) presburger
  then show ?case using 0 by (simp add: sha1.update_Nil)
next
  case (Suc fuel)
  show ?case
  proof (cases "sc_buffer_len c = 56")
    case True
    then show ?thesis using Suc.prems by (simp add: sha1.update_Nil)
  next
    case False
    let ?c = "sha1_update c [0x00]"
    have lt: "sc_buffer_len c < 64" using Suc.prems by (simp add: ctx_ok_def)
    have z: "(120 - sc_buffer_len c) mod 64 = Suc ((120 - sc_buffer_len ?c) mod 64)"
      using False lt
      by (auto simp: buffer_len_update_zero [OF Suc.prems(1)] zeros_mod Suc_mod_64)
    have "sha1_pad_zeros fuel ?c = Some (sha1_update ?c (replicate ((120 - sc_buffer_len ?c) mod 64) 0))"
      using Suc.prems z by (intro Suc.IH) (auto intro: sha1.ok_update)
    then show ?thesis
      using False Suc.prems by (simp add: z sha1.update_update)
  qed
qed

lemma length_length_bytes [simp]: "length (length_bytes n) = 8"
  by (simp add: length_bytes_def)

lemma length_store_be32 [simp]: "length (store_be32 x) = 4"
  by (simp add: store_be32_def)

lemma length_sha1_pad: "64 dvd length (sha1_pad m)"
proof -
  define r q where "r = length m mod 64" and "q = length m div 64"
  have len: "length m = 64 * q + r" and r: "r < 64" by (simp_all add: r_def q_def)
  have "(119 - r) mod 64 = (if r \<le> 55 then 55 - r else 119 - r)"
    using zeros_mod [of "Suc r"] r by (cases "r = 63") auto
  then have "length (sha1_pad m) = 64 * q + (if r \<le> 55 then 64 else 128)"
    using r len by (auto simp: sha1_pad_def r_def [symmetric])
  then show ?thesis by simp
qed

lemma sha1_final_opt_eq:
  "sha1_final_opt (sha1_update sha1_init m) = Some (sha1_spec m)"
proof -
  let ?c = "sha1_update sha1_init m"
  let ?c1 = "sha1_update ?c [0x80]"
  let ?z = "(120 - sc_buffer_len ?c1) mod 64"
  have ok: "ctx_ok ?c" "ctx_ok ?c1" by (simp_all add: sha1.ok_init sha1.ok_update)
  have len: "sc_buffer_len ?c = length m mod 64"
    by (simp add: sha1_update_eq sha1.ok_init length_tail_block) (simp add: sha1_init_def)
  have z: "?z = (119 - length m mod 64) mod 64"
    by (simp add: buffer_len_update_zero [OF ok(1)] len Suc_mod_64)
  have bits: "sc_bit_count ?c = word_of_nat (length m) * 8"
    by (simp add: sha1_update_eq sha1.ok_init) (simp add: sha1_init_def)
  have "sha1_pad_zeros 64 ?c1 = Some (sha1_update ?c1 (replicate ?z 0))"
    by (rule sha1_pad_zeros_eq [OF ok(2)]) (simp add: less_imp_le)
  moreover have "sha1_update (sha1_update ?c1 (replicate ?z 0)) (length_bytes (sc_bit_count ?c))
      = sha1_update sha1_init (sha1_pad m)"
    unfolding z bits by (simp add: sha1.update_update sha1.ok_update sha1.ok_init sha1_pad_def)
  moreover have "sc_state (sha1_update sha1_init (sha1_pad m))
      = foldl sha1_compress sha1_iv (chunks 64 (sha1_pad m))"
    using length_sha1_pad [of m]
    by (simp add: sha1_update_eq sha1.ok_init full_blocks_def) (simp add: sha1_init_def)
  ultimately show ?thesis
    by (simp add: sha1_final_opt_def Let_def sha1_spec_def)
qed

lemma sha1_digest_spec: "sha1_digest m = sha1_spec m"
  by (simp add: sha1_digest_def sha1_final_def sha1_final_opt_eq)

lemma length_concat_store: "length (concat (map store_be32 ws)) = 4 * length ws"
  by (induction ws) simp_all

lemma length_sha1_digest [simp]: "length (sha1_digest m) = 20"
  by (simp add: sha1_digest_spec sha1_spec_def length_concat_store sha1_iv_def)

lemma sha1_file_digest:
  "sha1_file w path = (case w_fs w path of None \<Rightarrow> None
     | Some f \<Rightarrow> if f_bad f then None else Some (sha1_digest (f_data f)))"
  by (auto simp: sha1_file_def fread_blocks_def sha1.foldl_update sha1.ok_init sha1_digest_def
      split: option.splits)

lemma length_sha1_to_hex: "length d = 20 \<Longrightarrow> length (sha1_to_hex d) = 40"
  by (simp add: sha1_to_hex_def length_concat comp_def sum_list_triv)

end
