(* ===== verification/LogFile.thy ===== *)
theory LogFile
  imports Protocol Sha1
begin

text \<open>
  The structured logger (\<open>src/logger.c\<close>): opening a log, JSON escaping, the field
  writers, the packet identifier \<open>packet_uid\<close>, and one JSON line per event. The
  lemmas show that a line is exactly one line whatever the event contains, that
  escaping can be undone, and what a packet identifier depends on.
\<close>

section \<open>Opening and closing\<close>

definition logger_copy_default :: "world \<Rightarrow> nat \<Rightarrow> string \<Rightarrow> string option \<Rightarrow> string" where
  "logger_copy_default w dst_size env_name fallback =
     (let dflt = (case fallback of None \<Rightarrow> [] | Some f \<Rightarrow> f)
      in snprintf_s dst_size
           (case getenv w env_name of None \<Rightarrow> dflt | Some v \<Rightarrow> if v = [] then dflt else v))"

text \<open>
  Creating the runtime directories has no effect a later call observes: the
  files the programs use are addressed by path.
\<close>

definition logger_open ::
  "string option \<Rightarrow> string option \<Rightarrow> world \<Rightarrow> int \<times> Logger option" where
  "logger_open role path w = (case (role, path) of
     (Some r, Some p) \<Rightarrow>
       (let copy = logger_copy_default w;
            lg = \<lparr>lg_open = \<not> w_unwritable w p,
                  lg_role = snprintf_s 32 r,
                  lg_path = snprintf_s 256 p,
                  lg_schema_version = copy 16 ''UDP_SECURE_SCHEMA_VERSION'' (Some ''2''),
                  lg_protocol =
                    (if r = ''control''
                     then copy 64 ''UDP_SECURE_PROTOCOL'' (Some ''control-plane'')
                     else copy 64 ''UDP_SECURE_PROTOCOL'' (Some ''udp-basic'')),
                  lg_transport =
                    (if r = ''control''
                     then copy 32 ''UDP_SECURE_TRANSPORT'' (Some ''http-ws'')
                     else copy 32 ''UDP_SECURE_TRANSPORT'' (Some ''udp'')),
                  lg_flow_id = copy 64 ''UDP_SECURE_FLOW_ID'' (Some []),
                  lg_session_id = copy 64 ''UDP_SECURE_SESSION_ID'' (Some []),
                  lg_scenario = copy 64 ''UDP_SECURE_SCENARIO'' (Some [])\<rparr>
        in if w_unwritable w p then (-1, Some lg) else (0, Some lg))
   | _ \<Rightarrow> (-1, None))"

definition logger_close :: "Logger \<Rightarrow> Logger" where
  "logger_close lg = (if lg_open lg then lg\<lparr>lg_open := False\<rparr> else lg)"

section \<open>JSON text\<close>

definition hex_lower :: "nat \<Rightarrow> char" where
  "hex_lower n = ''0123456789abcdef'' ! (n mod 16)"

definition json_escape_char :: "char \<Rightarrow> string" where
  "json_escape_char c =
     (if c = CHR 0x5C then [CHR 0x5C, CHR 0x5C]
      else if c = CHR 0x22 then [CHR 0x5C, CHR 0x22]
      else if c = CHR 0x08 then [CHR 0x5C, CHR ''b'']
      else if c = CHR 0x0C then [CHR 0x5C, CHR ''f'']
      else if c = CHR 0x0A then [CHR 0x5C, CHR ''n'']
      else if c = CHR 0x0D then [CHR 0x5C, CHR ''r'']
      else if c = CHR 0x09 then [CHR 0x5C, CHR ''t'']
      else if (of_char c :: nat) < 0x20
        then [CHR 0x5C, CHR ''u'', CHR ''0'', CHR ''0'',
              hex_lower (of_char c div 16), hex_lower (of_char c)]
      else [c])"

definition json_escape :: "string option \<Rightarrow> string" where
  "json_escape text = [CHR 0x22] @
     (case text of None \<Rightarrow> [] | Some t \<Rightarrow> concat (map json_escape_char t)) @ [CHR 0x22]"

text \<open>
  The field writers take the \<open>first\<close> flag and the text written so far and return
  both.
\<close>

type_synonym jbuf = "bool \<times> string"

definition write_string_field :: "string \<Rightarrow> string option \<Rightarrow> jbuf \<Rightarrow> jbuf" where
  "write_string_field key val fp = (case val of
     None \<Rightarrow> fp
   | Some v \<Rightarrow> (False, snd fp @ (if fst fp then [] else '','') @
                 json_escape (Some key) @ '':'' @ json_escape (Some v)))"

definition write_int_field :: "string \<Rightarrow> int \<Rightarrow> jbuf \<Rightarrow> jbuf" where
  "write_int_field key val fp =
     (if val = LOG_INT_UNSET then fp
      else (False, snd fp @ (if fst fp then [] else '','') @
              json_escape (Some key) @ '':'' @ show_int val))"

definition write_pid_field :: "string \<Rightarrow> int \<Rightarrow> jbuf \<Rightarrow> jbuf" where
  "write_pid_field key val fp =
     (if val \<le> 0 then fp
      else (False, snd fp @ (if fst fp then [] else '','') @
              json_escape (Some key) @ '':'' @ show_int val))"

definition write_bool_field :: "string \<Rightarrow> int \<Rightarrow> jbuf \<Rightarrow> jbuf" where
  "write_bool_field key val fp =
     (if val = LOG_INT_UNSET then fp
      else (False, snd fp @ (if fst fp then [] else '','') @
              json_escape (Some key) @ '':'' @ (if val \<noteq> 0 then ''true'' else ''false'')))"

definition write_raw :: "string \<Rightarrow> jbuf \<Rightarrow> jbuf" where
  "write_raw s fp = (fst fp, snd fp @ s)"

text \<open>\<open>event ? event->f : fallback\<close>, and the event used for a \<open>NULL\<close> event.\<close>

definition or_else :: "string option \<Rightarrow> string \<Rightarrow> string option" where
  "or_else v d = (case v of None \<Rightarrow> Some d | Some s \<Rightarrow> Some s)"

definition null_event :: LogEvent where
  "null_event = zero_event\<lparr>
     le_packet_id := LOG_INT_UNSET, le_seq := LOG_INT_UNSET, le_ack := LOG_INT_UNSET,
     le_window_size := LOG_INT_UNSET, le_retransmit_count := LOG_INT_UNSET,
     le_stream_id := LOG_INT_UNSET, le_stream_offset := LOG_INT_UNSET,
     le_status_code := LOG_INT_UNSET, le_security_encrypted := LOG_INT_UNSET,
     le_security_mac_valid := LOG_INT_UNSET, le_security_replay := LOG_INT_UNSET,
     le_payload_length := LOG_INT_UNSET, le_bytes := LOG_INT_UNSET,
     le_attempt := LOG_INT_UNSET, le_port := LOG_INT_UNSET\<rparr>"

text \<open>The nested \<open>security\<close> object, written when any of its fields is set.\<close>

definition write_security :: "LogEvent \<Rightarrow> jbuf \<Rightarrow> jbuf" where
  "write_security e fp =
     (if le_security_encrypted e \<noteq> LOG_INT_UNSET \<or> le_security_mac_valid e \<noteq> LOG_INT_UNSET \<or>
         le_security_replay e \<noteq> LOG_INT_UNSET \<or> le_handshake_phase e \<noteq> None
      then let inner = write_string_field ''handshake_phase'' (le_handshake_phase e)
                 (write_bool_field ''replay'' (le_security_replay e)
                 (write_bool_field ''mac_valid'' (le_security_mac_valid e)
                 (write_bool_field ''encrypted'' (le_security_encrypted e) (True, []))))
           in (False, snd fp @ (if fst fp then [] else '','') @ json_escape (Some ''security'') @
                 '':{'' @ snd inner @ ''}'')
      else fp)"

text \<open>The writers in the order \<open>logger_write\<close> calls them.\<close>

definition event_writers :: "Logger \<Rightarrow> string \<Rightarrow> LogEvent \<Rightarrow> (jbuf \<Rightarrow> jbuf) list" where
  "event_writers lg now e =
    [write_string_field ''time'' (Some now),
     write_string_field ''schema_version'' (or_else (le_schema_version e) (lg_schema_version lg)),
     write_string_field ''protocol'' (or_else (le_protocol e) (lg_protocol lg)),
     write_string_field ''transport'' (or_else (le_transport e) (lg_transport lg)),
     write_string_field ''role'' (Some (lg_role lg)),
     write_string_field ''flow_id'' (or_else (le_flow_id e) (lg_flow_id lg)),
     write_string_field ''session_id'' (or_else (le_session_id e) (lg_session_id lg)),
     write_string_field ''scenario'' (or_else (le_scenario e) (lg_scenario lg)),
     write_string_field ''connection_id'' (le_connection_id e),
     write_string_field ''level'' (or_else (le_level e) ''INFO''),
     write_string_field ''event'' (or_else (le_event e) ''EVENT''),
     write_string_field ''peer'' (or_else (le_peer e) []),
     write_string_field ''state'' (le_state e),
     write_string_field ''packet_type'' (le_packet_type e),
     write_string_field ''result'' (le_result e),
     write_string_field ''sha1'' (le_sha1 e),
     write_string_field ''error_code'' (le_error_code e),
     write_string_field ''wire_hex'' (le_wire_hex e),
     write_string_field ''message'' (le_message e),
     write_string_field ''direction'' (le_direction e),
     write_string_field ''packet_uid'' (le_packet_uid e),
     write_string_field ''method'' (le_method e),
     write_string_field ''path'' (le_path e),
     write_string_field ''header_summary'' (le_header_summary e),
     write_string_field ''frame_type'' (le_frame_type e),
     write_string_field ''handshake_phase'' (le_handshake_phase e),
     write_int_field ''packet_code'' (le_packet_code e),
     write_int_field ''seq'' (le_seq e),
     write_int_field ''ack'' (le_ack e),
     write_int_field ''window_size'' (le_window_size e),
     write_int_field ''retransmit_count'' (le_retransmit_count e),
     write_int_field ''stream_id'' (le_stream_id e),
     write_int_field ''stream_offset'' (le_stream_offset e),
     write_int_field ''status_code'' (le_status_code e),
     write_int_field ''packet_id'' (le_packet_id e),
     write_int_field ''payload_length'' (le_payload_length e),
     write_int_field ''bytes'' (le_bytes e),
     write_int_field ''attempt'' (le_attempt e),
     write_int_field ''port'' (le_port e),
     write_security e,
     write_pid_field ''pid'' (le_pid e)]"

definition logger_line :: "Logger \<Rightarrow> string \<Rightarrow> LogEvent \<Rightarrow> string" where
  "logger_line lg now e =
     snd (write_raw [CHR ''}'', CHR 0x0A] (fold (\<lambda>f. f) (event_writers lg now e) (True, ''{'')))"

definition logger_write :: "Logger \<Rightarrow> LogEvent option \<Rightarrow> world \<Rightarrow> world" where
  "logger_write lg event w =
     (if \<not> lg_open lg then w
      else let e = (case event of None \<Rightarrow> null_event | Some e \<Rightarrow> e);
               now = w_stamp w (length (w_lines w))
           in w\<lparr>w_events := w_events w @ [e], w_lines := w_lines w @ [logger_line lg now e]\<rparr>)"

section \<open>Packet identifiers\<close>

definition uid_hash_input :: "u16 \<Rightarrow> int \<Rightarrow> int \<Rightarrow> byte list option \<Rightarrow> nat \<Rightarrow> byte list list" where
  "uid_hash_input packet_type packet_id attempt wire wire_len =
     [bytes_of_string (''pkt:'' @ show_nat (unat packet_type) @ '':'' @ show_int packet_id @ '':'')] @
     (if packet_type = pkt PKT_PASS_RESP \<and> wire \<noteq> None \<and> wire_len > 0
      then [take wire_len (the wire)]
      else let tk = (if wire_len < 32 then wire_len else 32) in
        if tk > 0 \<and> wire \<noteq> None then [take tk (the wire)]
        else if attempt > 0 then [bytes_of_string ('':a'' @ show_int attempt)]
        else [])"

definition compute_packet_uid ::
  "nat \<Rightarrow> u16 \<Rightarrow> int \<Rightarrow> int \<Rightarrow> byte list option \<Rightarrow> nat \<Rightarrow> string option" where
  "compute_packet_uid out_size packet_type packet_id attempt wire wire_len =
     (if out_size < 17 then (if out_size > 0 then Some [] else None)
      else let digest = sha1_final (foldl sha1_update sha1_init
                          (uid_hash_input packet_type packet_id attempt wire wire_len))
           in Some (concat (map (\<lambda>b. [hex_char (drop_bit 4 b), hex_char b]) (take 8 digest))))"

section \<open>A line is one line\<close>

lemma hex_lower_printable: "hex_lower n \<noteq> CHR 0x0A"
proof -
  have "hex_lower n \<in> set ''0123456789abcdef''"
    unfolding hex_lower_def by (rule nth_mem) simp
  then show ?thesis by auto
qed

lemma json_escape_char_no_newline: "CHR 0x0A \<notin> set (json_escape_char c)"
  by (auto simp: json_escape_char_def hex_lower_printable hex_lower_printable [symmetric])

lemma json_escape_no_newline [simp]: "CHR 0x0A \<notin> set (json_escape t)"
  by (auto simp: json_escape_def json_escape_char_no_newline split: option.splits)

lemma show_nat_no_newline [simp]: "CHR 0x0A \<notin> set (show_nat n)"
  using show_nat_digits [of "CHR 0x0A" n] by (auto simp: is_digit_def)

lemma show_int_no_newline [simp]: "CHR 0x0A \<notin> set (show_int n)"
  by (simp add: show_int_def)

definition one_line :: "jbuf \<Rightarrow> bool" where
  "one_line fp \<longleftrightarrow> CHR 0x0A \<notin> set (snd fp)"

lemma write_string_field_one_line: "one_line fp \<Longrightarrow> one_line (write_string_field k v fp)"
  by (auto simp: one_line_def write_string_field_def split: option.splits)

lemma write_int_field_one_line: "one_line fp \<Longrightarrow> one_line (write_int_field k v fp)"
  by (auto simp: one_line_def write_int_field_def)

lemma write_pid_field_one_line: "one_line fp \<Longrightarrow> one_line (write_pid_field k v fp)"
  by (auto simp: one_line_def write_pid_field_def)

lemma write_bool_field_one_line: "one_line fp \<Longrightarrow> one_line (write_bool_field k v fp)"
  by (auto simp: one_line_def write_bool_field_def)

lemma one_line_start [simp]: "one_line (b, [])" "one_line (b, ''{'')"
  by (simp_all add: one_line_def)

lemma write_security_one_line: "one_line fp \<Longrightarrow> one_line (write_security e fp)"
proof -
  assume fp: "one_line fp"
  let ?inner = "write_string_field ''handshake_phase'' (le_handshake_phase e)
                 (write_bool_field ''replay'' (le_security_replay e)
                 (write_bool_field ''mac_valid'' (le_security_mac_valid e)
                 (write_bool_field ''encrypted'' (le_security_encrypted e) (True, []))))"
  have "one_line ?inner"
    by (intro write_string_field_one_line write_bool_field_one_line one_line_start)
  with fp show ?thesis
    unfolding write_security_def Let_def by (auto simp: one_line_def)
qed

lemmas field_writers_one_line =
  write_string_field_one_line write_int_field_one_line write_pid_field_one_line
  write_security_one_line

lemma event_writers_one_line:
  "f \<in> set (event_writers lg now e) \<Longrightarrow> one_line fp \<Longrightarrow> one_line (f fp)"
  unfolding event_writers_def list.set
  by (elim insertE emptyE) (simp_all only: field_writers_one_line)

lemma fold_writers:
  "(\<And>f fp. f \<in> set fs \<Longrightarrow> I fp \<Longrightarrow> I (f fp)) \<Longrightarrow> I fp \<Longrightarrow> I (fold (\<lambda>f. f) fs fp)"
  by (induction fs arbitrary: fp) auto

lemma logger_line_shape:
  "\<exists>body. logger_line lg now e = body @ [CHR 0x0A] \<and> CHR 0x0A \<notin> set body"
proof -
  define fp where "fp = fold (\<lambda>f. f) (event_writers lg now e) (True, ''{'')"
  have "one_line fp"
    unfolding fp_def by (rule fold_writers) (auto intro: event_writers_one_line)
  then have "logger_line lg now e = (snd fp @ ''}'') @ [CHR 0x0A] \<and> CHR 0x0A \<notin> set (snd fp @ ''}'')"
    by (simp add: logger_line_def fp_def [symmetric] write_raw_def one_line_def)
  then show ?thesis by blast
qed

section \<open>Escaping can be undone\<close>

text \<open>
  A reader for JSON string literals as RFC 8259 defines them, restricted to the
  escapes that can occur here and to code points below 256: the text and the rest
  of the input.
\<close>

definition hex_val :: "char \<Rightarrow> nat option" where
  "hex_val c = (if is_digit c then Some (digit_val c)
     else if 97 \<le> (of_char c :: nat) \<and> (of_char c :: nat) \<le> 102 then Some (of_char c - 87) else None)"

fun read_chars :: "string \<Rightarrow> (string \<times> string) option" where
  "read_chars [] = None"
| "read_chars (c # cs) =
     (if c = CHR 0x22 then Some ([], cs)
      else if c = CHR 0x5C then
        (case cs of
           d # ds \<Rightarrow>
             if d = CHR ''u'' then
               (case ds of a # b # x # y # r \<Rightarrow>
                  (case (hex_val x, hex_val y) of
                     (Some i, Some j) \<Rightarrow>
                       if a = CHR ''0'' \<and> b = CHR ''0''
                       then map_option (\<lambda>(t, r'). (char_of (16 * i + j) # t, r')) (read_chars r)
                       else None
                   | _ \<Rightarrow> None)
                | _ \<Rightarrow> None)
             else
               (case map_of [(CHR 0x5C, CHR 0x5C), (CHR 0x22, CHR 0x22), (CHR ''b'', CHR 0x08),
                             (CHR ''f'', CHR 0x0C), (CHR ''n'', CHR 0x0A), (CHR ''r'', CHR 0x0D),
                             (CHR ''t'', CHR 0x09)] d of
                  None \<Rightarrow> None
                | Some x \<Rightarrow> map_option (\<lambda>(t, r'). (x # t, r')) (read_chars ds))
         | [] \<Rightarrow> None)
      else map_option (\<lambda>(t, r'). (c # t, r')) (read_chars cs))"

definition read_json_string :: "string \<Rightarrow> (string \<times> string) option" where
  "read_json_string s = (case s of c # cs \<Rightarrow> if c = CHR 0x22 then read_chars cs else None | [] \<Rightarrow> None)"

lemma hex_val_hex_lower: "n < 16 \<Longrightarrow> hex_val (hex_lower n) = Some n"
proof -
  assume "n < 16"
  then have "n \<in> set [0..<16]" by simp
  then show ?thesis
    unfolding upt_16 list.set
    by (elim insertE emptyE) (simp_all add: hex_lower_def hex_val_def is_digit_def digit_val_def)
qed

lemma read_chars_escape:
  "read_chars (json_escape_char c @ r) = map_option (\<lambda>(t, r'). (c # t, r')) (read_chars r)"
proof (cases "(of_char c :: nat) < 0x20 \<and> c \<notin> {CHR 0x08, CHR 0x0C, CHR 0x0A, CHR 0x0D, CHR 0x09}")
  case True
  then have lt: "(of_char c :: nat) < 0x20" ..
  have "c \<noteq> CHR 0x5C" using lt by (rule contrapos_pn) simp
  moreover have "c \<noteq> CHR 0x22" using lt by (rule contrapos_pn) simp
  ultimately have c: "json_escape_char c = [CHR 0x5C, CHR ''u'', CHR ''0'', CHR ''0'',
      hex_lower (of_char c div 16), hex_lower (of_char c mod 16)]"
    using True by (simp add: json_escape_char_def hex_lower_def)
  have "(of_char c :: nat) div 16 < 16" using True by auto
  then have "hex_val (hex_lower (of_char c div 16)) = Some (of_char c div 16)"
    and "hex_val (hex_lower (of_char c mod 16)) = Some (of_char c mod 16)"
    by (simp_all add: hex_val_hex_lower)
  moreover have "char_of (16 * (of_char c div 16 :: nat) + of_char c mod 16) = c"
    by simp
  ultimately show ?thesis by (simp add: c)
next
  case False
  then show ?thesis by (auto simp: json_escape_char_def)
qed

lemma read_chars_concat:
  "read_chars (concat (map json_escape_char t) @ CHR 0x22 # r) = Some (t, r)"
  by (induction t) (simp_all add: read_chars_escape)

lemma read_json_escape: "read_json_string (json_escape (Some t) @ r) = Some (t, r)"
  using read_chars_concat [of t r] by (simp add: read_json_string_def json_escape_def)

section \<open>What logging leaves unchanged\<close>

lemma logger_write_frame [world_simps]:
  "w_env (logger_write lg e w) = w_env w"
  "w_fs (logger_write lg e w) = w_fs w"
  "w_unwritable (logger_write lg e w) = w_unwritable w"
  "w_errno (logger_write lg e w) = w_errno w"
  "w_resolve (logger_write lg e w) = w_resolve w"
  "w_sockfault (logger_write lg e w) = w_sockfault w"
  "w_stop (logger_write lg e w) = w_stop w"
  "w_net (logger_write lg e w) = w_net w"
  "w_waits (logger_write lg e w) = w_waits w"
  "w_sendfault (logger_write lg e w) = w_sendfault w"
  "w_writefault (logger_write lg e w) = w_writefault w"
  "w_renamefault (logger_write lg e w) = w_renamefault w"
  "w_allocfault (logger_write lg e w) = w_allocfault w"
  "w_clock (logger_write lg e w) = w_clock w"
  "w_tick (logger_write lg e w) = w_tick w"
  "w_stdin (logger_write lg e w) = w_stdin w"
  "w_nonces (logger_write lg e w) = w_nonces w"
  "w_tcp_in (logger_write lg e w) = w_tcp_in w"
  "w_tcp_cap (logger_write lg e w) = w_tcp_cap w"
  "w_tcp_out (logger_write lg e w) = w_tcp_out w"
  "w_sent (logger_write lg e w) = w_sent w"
  "w_stdout (logger_write lg e w) = w_stdout w"
  by (simp_all add: logger_write_def Let_def)

lemma file_data_logger_write [world_simps]: "file_data (logger_write lg e w) p = file_data w p"
  by (simp add: file_data_def world_simps)

lemma getenv_logger_write [world_simps]: "getenv (logger_write lg e w) n = getenv w n"
  by (simp add: getenv_def world_simps)

lemma logger_write_events:
  "lg_open lg \<Longrightarrow> w_events (logger_write lg (Some e) w) = w_events w @ [e]"
  by (simp add: logger_write_def Let_def)

section \<open>What a packet identifier depends on\<close>

lemma compute_packet_uid_eq:
  "out_size \<ge> 17 \<Longrightarrow> compute_packet_uid out_size t i a wire n =
     Some (concat (map (\<lambda>b. [hex_char (drop_bit 4 b), hex_char b])
        (take 8 (sha1_digest (concat (uid_hash_input t i a wire n))))))"
  by (simp add: compute_packet_uid_def sha1.foldl_update sha1.ok_init sha1_digest_def)

lemma length_compute_packet_uid:
  "out_size \<ge> 17 \<Longrightarrow> \<exists>u. compute_packet_uid out_size t i a wire n = Some u \<and> length u = 16"
  by (simp add: compute_packet_uid_eq length_concat comp_def sum_list_triv)

text \<open>With the wire at hand the attempt number does not matter.\<close>

lemma uid_ignores_attempt:
  "wire \<noteq> [] \<Longrightarrow> uid_hash_input t i a (Some wire) (length wire) =
                uid_hash_input t i a' (Some wire) (length wire)"
  by (simp add: uid_hash_input_def Let_def)

lemma compute_packet_uid_ignores_attempt:
  "wire \<noteq> [] \<Longrightarrow> compute_packet_uid n t i a (Some wire) (length wire) =
                compute_packet_uid n t i a' (Some wire) (length wire)"
  using uid_ignores_attempt [of wire t i a a'] by (simp add: compute_packet_uid_def)

section \<open>Logged receives\<close>

text \<open>
  The result of a logged receive: a packet (0), a timeout that is not logged (1),
  or a failure (-1).
\<close>

datatype recv_rc =
    RecvOk Packet sockaddr_in string
  | RecvSilent
  | RecvFailed

end
