(* ===== verification/UdpServer.thy ===== *)
theory UdpServer
  imports LogFile
begin

text \<open>
  The UDP server (\<open>src/server.c\<close>): logging, the simulation lists, chunk loading,
  the plain and the reliable transfer, authentication and \<open>main\<close>. Every function
  takes and returns the world; \<open>main\<close> returns the process's exit status.
\<close>

section \<open>Logging helpers\<close>

definition server_log_defaults :: "string \<Rightarrow> string \<Rightarrow> string \<Rightarrow> string \<Rightarrow> LogEvent" where
  "server_log_defaults level event state message =
     zero_event\<lparr>
       le_level := Some level, le_event := Some event, le_state := Some state,
       le_message := Some message,
       le_stream_id := LOG_INT_UNSET, le_stream_offset := LOG_INT_UNSET,
       le_status_code := LOG_INT_UNSET, le_seq := LOG_INT_UNSET, le_ack := LOG_INT_UNSET,
       le_window_size := LOG_INT_UNSET, le_retransmit_count := LOG_INT_UNSET,
       le_security_encrypted := LOG_INT_UNSET, le_security_mac_valid := LOG_INT_UNSET,
       le_security_replay := LOG_INT_UNSET, le_packet_id := LOG_INT_UNSET,
       le_payload_length := LOG_INT_UNSET, le_bytes := LOG_INT_UNSET,
       le_attempt := LOG_INT_UNSET, le_port := LOG_INT_UNSET\<rparr>"

definition server_finish :: "Logger \<Rightarrow> string \<Rightarrow> string \<Rightarrow> world \<Rightarrow> world" where
  "server_finish lg result reason w =
     (let e = (server_log_defaults (if result = ''OK'' then ''SUCCESS'' else ''ABORT'')
                 (if result = ''OK'' then ''FINAL_OK'' else ''FINAL_ABORT'')
                 (if result = ''OK'' then ''DONE'' else ''ABORT'') reason)\<lparr>le_result := Some result\<rparr>
      in print_line result (logger_write lg (Some e) w))"

text \<open>C's integer division truncates towards zero.\<close>

definition c_div :: "int \<Rightarrow> int \<Rightarrow> int" where
  "c_div a b = sgn a * sgn b * (\<bar>a\<bar> div \<bar>b\<bar>)"

definition elapsed_between :: "timespec \<Rightarrow> timespec \<Rightarrow> int" where
  "elapsed_between ts now =
     (let sec_diff = tv_sec now - tv_sec ts; nsec_diff = tv_nsec now - tv_nsec ts
      in sec_diff * 1000 + c_div nsec_diff 1000000)"

definition elapsed_ms_since :: "timespec \<Rightarrow> world \<Rightarrow> int \<times> world" where
  "elapsed_ms_since ts w = (let (now, w1) = clock_gettime w in (elapsed_between ts now, w1))"

section \<open>Simulation lists\<close>

definition list_sep :: "char \<Rightarrow> bool" where
  "list_sep c \<longleftrightarrow> c = CHR '' '' \<or> c = CHR 0x09 \<or> c = CHR '',''"

lemma packet_id_step_shorter:
  "(v, rest, e) = strtol10 (dropWhile list_sep p) \<Longrightarrow> rest \<noteq> dropWhile list_sep p \<Longrightarrow>
   length rest < length p"
  using strtol10_progress [of "dropWhile list_sep p" v rest e] dropWhile_le [of list_sep p] by simp

lemma packet_id_skip_shorter:
  "p \<noteq> [] \<Longrightarrow> length (dropWhile list_sep p) - Suc 0 < length p"
  using dropWhile_le [of list_sep p] by (cases p) auto

text \<open>The outer loop, from the position \<open>p\<close>; the array holds 128 entries.\<close>

function packet_id_loop :: "string \<Rightarrow> u32 list \<Rightarrow> u32 list" where
  "packet_id_loop p ids =
     (if p = [] \<or> length ids \<ge> 128 then ids
      else let q = dropWhile list_sep p in
        if q = [] then ids
        else (case strtol10 q of (value, rest, erange) \<Rightarrow>
          packet_id_loop (if rest \<noteq> q then rest else tl q)
            (if \<not> erange \<and> rest \<noteq> q \<and> value \<ge> 0 \<and> value \<le> 0x7fffffff
             then ids @ [word_of_int value] else ids)))"
  by pat_completeness auto
termination
  by (relation "measure (\<lambda>(p, ids). length p)") (auto dest: packet_id_step_shorter packet_id_skip_shorter)

declare packet_id_loop.simps [simp del]

definition parse_packet_id_list :: "string option \<Rightarrow> u32 list" where
  "parse_packet_id_list text = (case text of
     None \<Rightarrow> [] | Some t \<Rightarrow> if t = [] then [] else packet_id_loop t [])"

fun packet_id_list_contains :: "u32 list \<Rightarrow> u32 \<Rightarrow> bool" where
  "packet_id_list_contains [] packet_id = False"
| "packet_id_list_contains (x # xs) packet_id =
     (if x = packet_id then True else packet_id_list_contains xs packet_id)"

section \<open>Packets in and out, with their log events\<close>

text \<open>The event \<open>log_packet\<close> builds; \<open>wire_len\<close> is the length of \<open>wire\<close>.\<close>

definition server_packet_event ::
  "string \<Rightarrow> string \<Rightarrow> string \<Rightarrow> string \<Rightarrow> byte list \<Rightarrow> Packet \<Rightarrow> string \<Rightarrow> int \<Rightarrow> int \<Rightarrow> LogEvent" where
  "server_packet_event level event state peer wire packet direction attempt retransmit_count =
     (let e0 = server_log_defaults level event state ''packet event'';
          wire_len = length wire;
          hex_len = (if wire_len > 160 then 160 else wire_len);
          hex = bytes_to_hex (Some (take hex_len wire)) (PROTOCOL_RECV_BUFFER * 2 + 1);
          uid = compute_packet_uid 24 (p_type packet)
                  (if p_type packet = pkt PKT_DATA then int_of_u32 (p_packet_id packet) else 0)
                  attempt (Some wire) wire_len;
          e1 = e0\<lparr>le_peer := Some peer,
                  le_packet_type := Some (packet_type_name (p_type packet)),
                  le_packet_code := uint (p_type packet),
                  le_payload_length := int_of_u32 (p_payload_length packet),
                  le_direction := Some direction,
                  le_retransmit_count := retransmit_count,
                  le_packet_uid := (if uid = Some [] then None else uid)\<rparr>;
          e2 = (if p_type packet \<noteq> pkt PKT_PASS_RESP
                then (e1\<lparr>le_wire_hex := hex\<rparr>)
                       \<lparr>le_message := (if hex_len < wire_len
                          then Some ''packet event; wire_hex preview truncated''
                          else le_message e1)\<rparr>
                else e1\<lparr>le_message := Some ''packet event; password payload redacted''\<rparr>)
      in if p_type packet = pkt PKT_DATA
         then e2\<lparr>le_packet_id := int_of_u32 (p_packet_id packet),
                 le_seq := int_of_u32 (p_packet_id packet),
                 le_bytes := int_of_u32 (p_payload_length packet)\<rparr>
         else if p_type packet = pkt PKT_ACK \<or> p_type packet = pkt PKT_NACK
         then e2\<lparr>le_ack := int_of_u32 (p_ack_id packet),
                 le_window_size := int_of_u32 (p_window_size packet),
                 le_packet_id := int_of_u32 (p_ack_id packet)\<rparr>
         else e2)"

definition server_log_packet ::
  "Logger \<Rightarrow> string \<Rightarrow> string \<Rightarrow> string \<Rightarrow> string \<Rightarrow> byte list \<Rightarrow> Packet \<Rightarrow> string \<Rightarrow> int \<Rightarrow> int
   \<Rightarrow> world \<Rightarrow> world" where
  "server_log_packet lg level event state peer wire packet direction attempt retransmit_count w =
     logger_write lg (Some (server_packet_event level event state peer wire packet direction
                              attempt retransmit_count)) w"

definition server_send_logged ::
  "Logger \<Rightarrow> sockaddr_in \<Rightarrow> string \<Rightarrow> u16 \<Rightarrow> byte list \<Rightarrow> u32 \<Rightarrow> u32 \<Rightarrow> u32 \<Rightarrow> u32 \<Rightarrow> int
   \<Rightarrow> string \<Rightarrow> string \<Rightarrow> world \<Rightarrow> int \<times> world" where
  "server_send_logged lg peer peer_text type wire packet_id payload_len ack_id window_size
       retransmit_count state event w =
     (let packet = \<lparr>p_type = type, p_payload_length = payload_len, p_packet_id = packet_id,
                    p_ack_id = ack_id, p_window_size = window_size, p_payload = None, p_wire = []\<rparr>;
          (rc, w1) = send_all_packet wire peer w
      in if rc \<noteq> 0
         then (-1, logger_write lg (Some ((server_log_defaults ''ERROR'' ''SEND_ERROR'' state (w_errno w1))
                    \<lparr>le_peer := Some peer_text,
                     le_packet_type := Some (packet_type_name type),
                     le_packet_code := uint type,
                     le_direction := Some ''Server -> Client'',
                     le_retransmit_count := retransmit_count\<rparr>)) w1)
         else (0, server_log_packet lg (if type = pkt PKT_DATA then ''DATA'' else ''INFO'') event state
                    peer_text wire packet ''Server -> Client'' 0 retransmit_count w1))"

definition server_recv_logged_timeout ::
  "Logger \<Rightarrow> string \<Rightarrow> string \<Rightarrow> nat \<Rightarrow> int \<Rightarrow> bool \<Rightarrow> world \<Rightarrow> recv_rc \<times> world" where
  "server_recv_logged_timeout lg state event peer_text_size timeout_ms log_timeout w =
     (case recv_packet_timeout timeout_ms w of
        (Inl error, w1) \<Rightarrow>
          if \<not> log_timeout \<and> error = ''timeout'' then (RecvSilent, w1)
          else (RecvFailed, logger_write lg
                 (Some ((server_log_defaults (if error = ''timeout'' then ''WARN'' else ''ERROR'')
                          (if error = ''timeout'' then ''TIMEOUT'' else ''PARSE_ERROR'') state error)
                        \<lparr>le_error_code := Some error, le_direction := Some ''Client -> Server''\<rparr>)) w1)
      | (Inr (packet, peer), w1) \<Rightarrow>
          let peer_text = peer_to_string peer peer_text_size in
          (RecvOk packet peer peer_text,
           server_log_packet lg (if p_type packet = pkt PKT_DATA then ''DATA'' else ''INFO'') event state
             peer_text (p_wire packet) packet ''Client -> Server'' 0 0 w1))"

definition server_recv_expected ::
  "Logger \<Rightarrow> string \<Rightarrow> string \<Rightarrow> nat \<Rightarrow> world \<Rightarrow> recv_rc \<times> world" where
  "server_recv_expected lg state event peer_text_size w =
     server_recv_logged_timeout lg state event peer_text_size (env_timeout_ms w) True w"

definition server_send_control ::
  "Logger \<Rightarrow> sockaddr_in \<Rightarrow> string \<Rightarrow> u16 \<Rightarrow> string \<Rightarrow> string \<Rightarrow> world \<Rightarrow> int \<times> world" where
  "server_send_control lg peer peer_text type state event w =
     (case build_control_packet type (Some PROTOCOL_MAX_DATAGRAM) of
        None \<Rightarrow> (-1, w)
      | Some wire \<Rightarrow> server_send_logged lg peer peer_text type wire 0 0 0 0 0 state event w)"

section \<open>Reliable transfer: chunks\<close>

record ReliableChunk =
  rc_packet_id :: u32
  rc_payload_length :: u32
  rc_wire :: "byte list"     \<comment> \<open>the first \<open>wire_len\<close> bytes\<close>
  rc_acked :: bool
  rc_send_count :: int
  rc_drop_first_send :: bool
  rc_dup_first_send :: bool
  rc_reorder_first_send :: bool
  rc_reorder_pending :: bool
  rc_last_send :: timespec

text \<open>
  The read loop of \<open>load_reliable_chunks\<close>, on the blocks \<open>fread\<close> returns, with
  \<open>count\<close> chunks built so far and room for \<open>cap\<close>; \<open>None\<close> is the error return.
\<close>

fun load_chunks_loop ::
  "u32 list \<Rightarrow> u32 list \<Rightarrow> u32 list \<Rightarrow> byte list list \<Rightarrow> nat \<Rightarrow> nat \<Rightarrow> ReliableChunk list
   \<Rightarrow> world \<Rightarrow> ReliableChunk list option \<times> world" where
  "load_chunks_loop loss dup reorder [] count cap acc w = (Some acc, w)"
| "load_chunks_loop loss dup reorder (data # blocks) count cap acc w =
     (let (ok, w1, cap1) =
            (if count = cap
             then (let (ok, w') = malloc_ok w in (ok, w', if cap \<noteq> 0 then cap * 2 else 32))
             else (True, w, cap))
      in if \<not> ok then (None, w1)
         else (case build_data_packet (word_of_nat count) (Some data) (word_of_nat (length data))
                      (Some PROTOCOL_MAX_DATAGRAM) of
            None \<Rightarrow> (None, w1)
          | Some wire \<Rightarrow>
              load_chunks_loop loss dup reorder blocks (Suc count) cap1
                (acc @ [\<lparr>rc_packet_id = word_of_nat count,
                         rc_payload_length = word_of_nat (length data),
                         rc_wire = wire, rc_acked = False, rc_send_count = 0,
                         rc_drop_first_send = packet_id_list_contains loss (word_of_nat count),
                         rc_dup_first_send = packet_id_list_contains dup (word_of_nat count),
                         rc_reorder_first_send = packet_id_list_contains reorder (word_of_nat count),
                         rc_reorder_pending = False, rc_last_send = Timespec 0 0\<rparr>]) w1))"

text \<open>Like the code, this does not look at \<open>ferror\<close>.\<close>

definition load_reliable_chunks :: "string \<Rightarrow> world \<Rightarrow> ReliableChunk list option \<times> world" where
  "load_reliable_chunks input_path w =
     (let loss = parse_packet_id_list (getenv w ''UDP_SECURE_RELIABLE_LOSS_IDS'');
          dup = parse_packet_id_list (getenv w ''UDP_SECURE_RELIABLE_DUP_IDS'');
          reorder = parse_packet_id_list (getenv w ''UDP_SECURE_RELIABLE_REORDER_IDS'')
      in case w_fs w input_path of
           None \<Rightarrow> (None, w)
         | Some f \<Rightarrow> load_chunks_loop loss dup reorder
                      (fst (fread_blocks PROTOCOL_DATA_CHUNK_SIZE f)) 0 0 [] w)"

text \<open>The event of a simulated drop, duplicate or reordering.\<close>

definition sim_event :: "ReliableChunk \<Rightarrow> string \<Rightarrow> string \<Rightarrow> string \<Rightarrow> LogEvent" where
  "sim_event chunk event state message =
     (server_log_defaults ''WARN'' event state message)
       \<lparr>le_packet_id := int_of_u32 (rc_packet_id chunk), le_seq := int_of_u32 (rc_packet_id chunk)\<rparr>"

definition send_reliable_chunk ::
  "Logger \<Rightarrow> sockaddr_in \<Rightarrow> string \<Rightarrow> ReliableChunk \<Rightarrow> string \<Rightarrow> string \<Rightarrow> world
   \<Rightarrow> int \<times> ReliableChunk \<times> world" where
  "send_reliable_chunk lg peer peer_text chunk state event w =
     (let retransmits = (if rc_send_count chunk > 0 then rc_send_count chunk - 1 else 0) in
      if rc_send_count chunk = 0 \<and> rc_reorder_first_send chunk then
        (0, chunk\<lparr>rc_reorder_first_send := False, rc_reorder_pending := True\<rparr>,
         logger_write lg (Some (sim_event chunk ''SIMULATED_REORDER_HOLD'' state
           ''held packet for first-send reordering'')) w)
      else if rc_send_count chunk = 0 \<and> rc_drop_first_send chunk then
        (let (now, w1) = clock_gettime w in
         (0, chunk\<lparr>rc_drop_first_send := False, rc_send_count := rc_send_count chunk + 1,
                   rc_last_send := now\<rparr>,
          logger_write lg (Some (sim_event chunk ''SIMULATED_DROP'' state
            ''dropped first transmission to trigger retransmission'')) w1))
      else
        (let (rc, w1) = server_send_logged lg peer peer_text (pkt PKT_DATA) (rc_wire chunk)
               (rc_packet_id chunk) (rc_payload_length chunk) 0 0 retransmits state event w in
         if rc \<noteq> 0 then (-1, chunk, w1)
         else let (now, w2) = clock_gettime w1;
                  chunk1 = chunk\<lparr>rc_last_send := now, rc_send_count := rc_send_count chunk + 1\<rparr> in
           if rc_send_count chunk1 = 1 \<and> rc_dup_first_send chunk1 then
             (let chunk2 = chunk1\<lparr>rc_dup_first_send := False\<rparr>;
                  (rc2, w3) = server_send_logged lg peer peer_text (pkt PKT_DATA) (rc_wire chunk2)
                    (rc_packet_id chunk2) (rc_payload_length chunk2) 0 0 retransmits
                    state ''SEND_DATA_DUPLICATE'' w2 in
              if rc2 \<noteq> 0 then (-1, chunk2, w3)
              else (0, chunk2, logger_write lg (Some (sim_event chunk2 ''SIMULATED_DUPLICATE'' state
                     ''duplicated first transmission for receiver dedup testing'')) w3))
           else (0, chunk1, w2)))"

text \<open>The loop over \<open>chunks[i..chunk_count-1]\<close>.\<close>

function release_delayed_from ::
  "Logger \<Rightarrow> sockaddr_in \<Rightarrow> string \<Rightarrow> nat \<Rightarrow> nat \<Rightarrow> string \<Rightarrow> ReliableChunk list \<Rightarrow> world
   \<Rightarrow> int \<times> ReliableChunk list \<times> world" where
  "release_delayed_from lg peer peer_text i chunk_count state cs w =
     (if i < chunk_count then
        (if \<not> rc_reorder_pending (cs ! i) \<or> rc_acked (cs ! i)
         then release_delayed_from lg peer peer_text (Suc i) chunk_count state cs w
         else let (rc, c, w1) = send_reliable_chunk lg peer peer_text
                    ((cs ! i)\<lparr>rc_reorder_pending := False\<rparr>) state ''SEND_DATA_REORDERED'' w;
                  cs1 = cs[i := c] in
              if rc \<noteq> 0 then (-1, cs1, w1)
              else release_delayed_from lg peer peer_text (Suc i) chunk_count state cs1 w1)
      else (0, cs, w))"
  by pat_completeness auto
termination
  by (relation "measure (\<lambda>(lg, peer, pt, i, n, st, cs, w). n - i)") auto

declare release_delayed_from.simps [simp del]

definition release_delayed_chunks ::
  "Logger \<Rightarrow> sockaddr_in \<Rightarrow> string \<Rightarrow> ReliableChunk list \<Rightarrow> nat \<Rightarrow> string \<Rightarrow> world
   \<Rightarrow> int \<times> ReliableChunk list \<times> world" where
  "release_delayed_chunks lg peer peer_text cs chunk_count state w =
     release_delayed_from lg peer peer_text 0 chunk_count state cs w"

section \<open>Plain transfer\<close>

text \<open>
  The \<open>while ((n = fread(...)) > 0)\<close> loop, on the blocks; the return code, the
  number of packets and the number of payload bytes sent.
\<close>

fun send_data_loop ::
  "Logger \<Rightarrow> sockaddr_in \<Rightarrow> string \<Rightarrow> byte list list \<Rightarrow> u32 \<Rightarrow> nat \<Rightarrow> world
   \<Rightarrow> int \<times> u32 \<times> nat \<times> world" where
  "send_data_loop lg peer peer_text [] packet_id total_bytes w = (0, packet_id, total_bytes, w)"
| "send_data_loop lg peer peer_text (data # blocks) packet_id total_bytes w =
     (let (stop, w1) = read_stop w in
      if stop then (-1, packet_id, total_bytes, w1)
      else (case build_data_packet packet_id (Some data) (word_of_nat (length data))
                   (Some PROTOCOL_MAX_DATAGRAM) of
              None \<Rightarrow> (-1, packet_id, total_bytes, w1)
            | Some wire \<Rightarrow>
               (let (rc, w2) = server_send_logged lg peer peer_text (pkt PKT_DATA) wire packet_id
                      (word_of_nat (length data)) 0 0 0 ''DATA_TRANSFER'' ''SEND_DATA'' w1 in
                if rc \<noteq> 0 then (-1, packet_id, total_bytes, w2)
                else send_data_loop lg peer peer_text blocks (packet_id + 1)
                       (total_bytes + length data) w2)))"

text \<open>The last event of a transfer, with the digest and the bytes sent.\<close>

definition digest_event :: "string \<Rightarrow> string \<Rightarrow> byte list \<Rightarrow> nat \<Rightarrow> LogEvent" where
  "digest_event message peer_text digest total_bytes =
     (server_log_defaults ''SUCCESS'' ''SERVER_DIGEST'' ''VERIFY'' message)
       \<lparr>le_peer := Some peer_text, le_sha1 := Some (sha1_to_hex digest),
        le_bytes := int_of_size total_bytes\<rparr>"

definition server_transfer_file ::
  "Logger \<Rightarrow> sockaddr_in \<Rightarrow> string \<Rightarrow> string \<Rightarrow> byte list \<Rightarrow> world \<Rightarrow> int \<times> world" where
  "server_transfer_file lg peer peer_text input_path digest w =
     (case w_fs w input_path of
        None \<Rightarrow> (-1, logger_write lg (Some ((server_log_defaults ''ERROR'' ''FILE_OPEN_ERROR''
                  ''DATA_TRANSFER'' (w_errno w))\<lparr>le_error_code := Some ''FILE_OPEN_ERROR''\<rparr>)) w)
      | Some f \<Rightarrow>
         (let (blocks, ferror) = fread_blocks PROTOCOL_DATA_CHUNK_SIZE f;
              (rc, packet_id, total_bytes, w1) = send_data_loop lg peer peer_text blocks 0 0 w in
          if rc \<noteq> 0 then (-1, w1)
          else if ferror then (-1, w1)
          else (case build_terminate_packet (Some digest) (Some PROTOCOL_MAX_DATAGRAM) of
             None \<Rightarrow> (-1, w1)
           | Some wire \<Rightarrow>
              (let (rc2, w2) = server_send_logged lg peer peer_text (pkt PKT_TERMINATE) wire 0
                     (word_of_nat PROTOCOL_DIGEST_SIZE) 0 0 0 ''VERIFY'' ''SEND_TERMINATE'' w1 in
               if rc2 \<noteq> 0 then (-1, w2)
               else (0, logger_write lg (Some (digest_event ''server SHA1 digest sent'' peer_text
                          digest total_bytes)) w2)))))"

section \<open>Reliable transfer: the sliding window\<close>

record rel_state =
  rs_chunks :: "ReliableChunk list"
  rs_base :: nat
  rs_next :: nat

text \<open>The inner loop that fills the window.\<close>

function reliable_fill ::
  "Logger \<Rightarrow> sockaddr_in \<Rightarrow> string \<Rightarrow> nat \<Rightarrow> nat \<Rightarrow> ReliableChunk list \<Rightarrow> nat \<Rightarrow> world
   \<Rightarrow> int \<times> ReliableChunk list \<times> nat \<times> world" where
  "reliable_fill lg peer peer_text window base cs next w =
     (if next < length cs \<and> next < base + window then
        (let (rc, c, w1) = send_reliable_chunk lg peer peer_text (cs ! next)
               ''DATA_TRANSFER'' ''SEND_DATA'' w;
             cs1 = cs[next := c] in
         if rc \<noteq> 0 then (-1, cs1, next, w1)
         else (let (rc2, cs2, w2) = release_delayed_chunks lg peer peer_text cs1 (next + 1)
                      ''DATA_TRANSFER'' w1 in
           if rc2 \<noteq> 0 then (-1, cs2, next, w2)
           else reliable_fill lg peer peer_text window base cs2 (next + 1) w2))
      else (0, cs, next, w))"
  by pat_completeness auto
termination
  by (relation "measure (\<lambda>(lg, peer, pt, win, base, cs, next, w). base + win - next)") auto

declare reliable_fill.simps [simp del]

function mark_acked :: "nat \<Rightarrow> nat \<Rightarrow> ReliableChunk list \<Rightarrow> ReliableChunk list" where
  "mark_acked i lim cs =
     (if i < lim then mark_acked (Suc i) lim (cs[i := (cs ! i)\<lparr>rc_acked := True\<rparr>]) else cs)"
  by pat_completeness auto
termination
  by (relation "measure (\<lambda>(i, lim, cs). lim - i)") auto

declare mark_acked.simps [simp del]

function advance_base :: "ReliableChunk list \<Rightarrow> nat \<Rightarrow> nat" where
  "advance_base cs base =
     (if base < length cs \<and> rc_acked (cs ! base) then advance_base cs (Suc base) else base)"
  by pat_completeness auto
termination
  by (relation "measure (\<lambda>(cs, base). length cs - base)") auto

declare advance_base.simps [simp del]

text \<open>What one received packet does to the window.\<close>

definition reliable_feedback ::
  "Logger \<Rightarrow> sockaddr_in \<Rightarrow> string \<Rightarrow> Packet \<Rightarrow> sockaddr_in \<Rightarrow> string \<Rightarrow> ReliableChunk list \<Rightarrow> nat
   \<Rightarrow> world \<Rightarrow> int \<times> ReliableChunk list \<times> nat \<times> world" where
  "reliable_feedback lg peer peer_text packet fb_peer fb_peer_text cs base w =
     (if \<not> is_same_peer peer fb_peer then
        (0, cs, base, logger_write lg (Some ((server_log_defaults ''WARN'' ''UNEXPECTED_PEER''
            ''DATA_TRANSFER'' ''ignored feedback from another peer'')\<lparr>le_peer := Some fb_peer_text\<rparr>)) w)
      else if p_type packet = pkt PKT_ACK then
        (let ack_upto = (if unat (p_ack_id packet) > length cs then length cs
                         else unat (p_ack_id packet));
             cs1 = mark_acked base ack_upto cs
         in (0, cs1, advance_base cs1 base, w))
      else if p_type packet = pkt PKT_NACK then
        (let missing = unat (p_ack_id packet) in
         if missing < length cs \<and> \<not> rc_acked (cs ! missing) then
           (let (rc, c, w1) = send_reliable_chunk lg peer peer_text (cs ! missing)
                  ''DATA_TRANSFER'' ''RETRANSMIT_DATA'' w
            in (if rc \<noteq> 0 then -1 else 0, cs[missing := c], base, w1))
         else (0, cs, base, w))
      else
        (0, cs, base, logger_write lg (Some ((server_log_defaults ''WARN'' ''UNEXPECTED_FEEDBACK_TYPE''
            ''DATA_TRANSFER'' ''ignored non-feedback packet during reliable transfer'')
              \<lparr>le_packet_type := Some (packet_type_name (p_type packet)),
               le_packet_code := uint (p_type packet)\<rparr>)) w))"

text \<open>The loop that retransmits what has waited too long, over \<open>i = base .. next-1\<close>.\<close>

function reliable_retransmit ::
  "Logger \<Rightarrow> sockaddr_in \<Rightarrow> string \<Rightarrow> int \<Rightarrow> nat \<Rightarrow> nat \<Rightarrow> ReliableChunk list \<Rightarrow> world
   \<Rightarrow> int \<times> ReliableChunk list \<times> world" where
  "reliable_retransmit lg peer peer_text timeout i next cs w =
     (if i < next then
        (if rc_acked (cs ! i) \<or> rc_reorder_pending (cs ! i) \<or> rc_send_count (cs ! i) \<le> 0
         then reliable_retransmit lg peer peer_text timeout (Suc i) next cs w
         else (let (ms, w1) = elapsed_ms_since (rc_last_send (cs ! i)) w in
           if ms \<ge> timeout then
             (let (rc, c, w2) = send_reliable_chunk lg peer peer_text (cs ! i)
                    ''DATA_TRANSFER'' ''RETRANSMIT_DATA'' w1;
                  cs1 = cs[i := c] in
              if rc \<noteq> 0 then (-1, cs1, w2)
              else reliable_retransmit lg peer peer_text timeout (Suc i) next cs1 w2)
           else reliable_retransmit lg peer peer_text timeout (Suc i) next cs w1))
      else (0, cs, w))"
  by pat_completeness auto
termination
  by (relation "measure (\<lambda>(lg, peer, pt, tmo, i, next, cs, w). next - i)") auto

declare reliable_retransmit.simps [simp del]

text \<open>One round of the outer loop: fill, one receive of at most 80 ms, retransmit.\<close>

definition reliable_iteration ::
  "Logger \<Rightarrow> sockaddr_in \<Rightarrow> string \<Rightarrow> nat \<Rightarrow> int \<Rightarrow> rel_state \<Rightarrow> world \<Rightarrow> int \<times> rel_state \<times> world" where
  "reliable_iteration lg peer peer_text window timeout st w =
     (let (rc, cs, next, w1) = reliable_fill lg peer peer_text window (rs_base st) (rs_chunks st)
            (rs_next st) w in
      if rc \<noteq> 0 then (-1, \<lparr>rs_chunks = cs, rs_base = rs_base st, rs_next = next\<rparr>, w1)
      else
       (let (recv_rc, w2) = server_recv_logged_timeout lg ''DATA_TRANSFER'' ''RECV_FEEDBACK'' 64 80 False w1;
            (rc2, cs2, base2, w3) = (case recv_rc of
               RecvFailed \<Rightarrow> (-1, cs, rs_base st, w2)
             | RecvSilent \<Rightarrow> (0, cs, rs_base st, w2)
             | RecvOk packet fb_peer fb_text \<Rightarrow>
                 reliable_feedback lg peer peer_text packet fb_peer fb_text cs (rs_base st) w2) in
        if rc2 \<noteq> 0 then (-1, \<lparr>rs_chunks = cs2, rs_base = base2, rs_next = next\<rparr>, w3)
        else
         (let (rc3, cs3, w4) = reliable_retransmit lg peer peer_text timeout base2 next cs2 w3 in
          (rc3, \<lparr>rs_chunks = cs3, rs_base = base2, rs_next = next\<rparr>, w4))))"

text \<open>
  The outer loop. Nothing in the code bounds the number of rounds (a client that
  never acknowledges keeps it running), so it takes fuel; \<open>None\<close> is running out.
\<close>

fun reliable_loop ::
  "nat \<Rightarrow> Logger \<Rightarrow> sockaddr_in \<Rightarrow> string \<Rightarrow> nat \<Rightarrow> int \<Rightarrow> rel_state \<Rightarrow> world
   \<Rightarrow> (int \<times> rel_state \<times> world) option" where
  "reliable_loop 0 lg peer peer_text window timeout st w = None"
| "reliable_loop (Suc fuel) lg peer peer_text window timeout st w =
     (let (stop, w1) = read_stop w in
      if \<not> stop \<and> rs_base st < length (rs_chunks st) then
        (let (rc, st1, w2) = reliable_iteration lg peer peer_text window timeout st w1 in
         if rc \<noteq> 0 then Some (-1, st1, w2)
         else reliable_loop fuel lg peer peer_text window timeout st1 w2)
      else Some (0, st, w1))"

text \<open>The three \<open>TERMINATE\<close> packets, from number \<open>k\<close>.\<close>

function send_terminates ::
  "Logger \<Rightarrow> sockaddr_in \<Rightarrow> string \<Rightarrow> byte list \<Rightarrow> nat \<Rightarrow> world \<Rightarrow> int \<times> world" where
  "send_terminates lg peer peer_text wire k w =
     (if k < 3 then
        (let (rc, w1) = server_send_logged lg peer peer_text (pkt PKT_TERMINATE) wire 0
               (word_of_nat PROTOCOL_DIGEST_SIZE) 0 0 (int k) ''VERIFY''
               (if k = 0 then ''SEND_TERMINATE'' else ''RETRANSMIT_TERMINATE'') w in
         if rc \<noteq> 0 then (-1, w1)
         else send_terminates lg peer peer_text wire (Suc k) w1)
      else (0, w))"
  by pat_completeness auto
termination
  by (relation "measure (\<lambda>(lg, peer, pt, wire, k, w). 3 - k)") auto

declare send_terminates.simps [simp del]

definition server_transfer_file_reliable ::
  "nat \<Rightarrow> Logger \<Rightarrow> sockaddr_in \<Rightarrow> string \<Rightarrow> string \<Rightarrow> byte list \<Rightarrow> world \<Rightarrow> (int \<times> world) option" where
  "server_transfer_file_reliable fuel lg peer peer_text input_path digest w =
     (let window_size = nat (env_reliable_window_size w);
          retransmit_timeout = env_reliable_timeout_ms w;
          (chunks, w1) = load_reliable_chunks input_path w in
      case chunks of
        None \<Rightarrow> Some (-1, logger_write lg (Some ((server_log_defaults ''ERROR'' ''FILE_OPEN_ERROR''
                  ''DATA_TRANSFER'' ''failed to prepare reliable transfer chunks'')
                    \<lparr>le_error_code := Some ''FILE_OPEN_ERROR''\<rparr>)) w1)
      | Some cs \<Rightarrow>
         (let total_bytes = sum_list (map (\<lambda>c. unat (rc_payload_length c)) cs) in
          case reliable_loop fuel lg peer peer_text window_size retransmit_timeout
                 \<lparr>rs_chunks = cs, rs_base = 0, rs_next = 0\<rparr> w1 of
            None \<Rightarrow> None
          | Some (rc, st, w2) \<Rightarrow>
             if rc \<noteq> 0 then Some (-1, w2)
             else (let (stop, w3) = read_stop w2 in
               if stop then Some (-1, w3)
               else (case build_terminate_packet (Some digest) (Some PROTOCOL_MAX_DATAGRAM) of
                  None \<Rightarrow> Some (-1, w3)
                | Some wire \<Rightarrow>
                   (let (rc2, w4) = send_terminates lg peer peer_text wire 0 w3 in
                    if rc2 \<noteq> 0 then Some (-1, w4)
                    else Some (0, logger_write lg (Some ((digest_event
                           ''server SHA1 digest sent after reliable transfer'' peer_text digest total_bytes)
                             \<lparr>le_retransmit_count := 0\<rparr>)) w4))))))"

section \<open>What the operations leave unchanged\<close>

text \<open>The result of a logged send, and the world it leaves, up to the log.\<close>

definition after_send :: "byte list \<Rightarrow> sockaddr_in \<Rightarrow> world \<Rightarrow> world" where
  "after_send wire peer w = snd (send_all_packet wire peer w)"

lemma after_send_frame [world_simps]:
  "w_env (after_send wire peer w) = w_env w"
  "w_fs (after_send wire peer w) = w_fs w"
  "w_errno (after_send wire peer w) = w_errno w"
  "w_stop (after_send wire peer w) = w_stop w"
  "w_net (after_send wire peer w) = w_net w"
  "w_waits (after_send wire peer w) = w_waits w"
  "w_sendfault (after_send wire peer w) = snd (pop_fault (w_sendfault w))"
  "w_writefault (after_send wire peer w) = w_writefault w"
  "w_renamefault (after_send wire peer w) = w_renamefault w"
  "w_allocfault (after_send wire peer w) = w_allocfault w"
  "w_clock (after_send wire peer w) = w_clock w"
  "w_tick (after_send wire peer w) = w_tick w"
  "w_stdin (after_send wire peer w) = w_stdin w"
  "w_stdout (after_send wire peer w) = w_stdout w"
  "w_sent (after_send wire peer w) =
     (if fst (pop_fault (w_sendfault w)) then w_sent w else w_sent w @ [(peer, wire)])"
  by (simp_all add: after_send_def send_all_packet_eq)

lemma server_send_logged_cases:
  "\<exists>e. server_send_logged lg peer pt t wire pid len a win r st ev w =
     ((if fst (pop_fault (w_sendfault w)) then -1 else 0),
      logger_write lg (Some e) (after_send wire peer w))"
  by (simp add: server_send_logged_def after_send_def send_all_packet_eq Let_def server_log_packet_def)
     blast

lemma server_send_logged_rc [simp]:
  "fst (server_send_logged lg peer pt t wire pid len a win r st ev w) =
     (if fst (pop_fault (w_sendfault w)) then -1 else 0)"
  using server_send_logged_cases [of lg peer pt t wire pid len a win r st ev w] by auto

lemma server_send_logged_frame [world_simps]:
  "w_env (snd (server_send_logged lg peer pt t wire pid len a win r st ev w)) = w_env w"
  "w_fs (snd (server_send_logged lg peer pt t wire pid len a win r st ev w)) = w_fs w"
  "w_stop (snd (server_send_logged lg peer pt t wire pid len a win r st ev w)) = w_stop w"
  "w_net (snd (server_send_logged lg peer pt t wire pid len a win r st ev w)) = w_net w"
  "w_sendfault (snd (server_send_logged lg peer pt t wire pid len a win r st ev w)) =
     snd (pop_fault (w_sendfault w))"
  "w_clock (snd (server_send_logged lg peer pt t wire pid len a win r st ev w)) = w_clock w"
  "w_tick (snd (server_send_logged lg peer pt t wire pid len a win r st ev w)) = w_tick w"
  "w_stdout (snd (server_send_logged lg peer pt t wire pid len a win r st ev w)) = w_stdout w"
  "w_sent (snd (server_send_logged lg peer pt t wire pid len a win r st ev w)) =
     (if fst (pop_fault (w_sendfault w)) then w_sent w else w_sent w @ [(peer, wire)])"
  using server_send_logged_cases [of lg peer pt t wire pid len a win r st ev w]
  by (auto simp: world_simps)

text \<open>A logged receive is a receive, a log line at most, and nothing else.\<close>

lemma server_recv_world:
  "snd (server_recv_logged_timeout lg state event n ms b w) = after_recv ms w \<or>
   (\<exists>e. snd (server_recv_logged_timeout lg state event n ms b w) =
        logger_write lg (Some e) (after_recv ms w))"
  by (auto simp: server_recv_logged_timeout_def server_log_packet_def Let_def
      dest: recv_packet_timeout_after split: prod.splits sum.splits)

lemma server_recv_frame [world_simps]:
  "w_env (snd (server_recv_logged_timeout lg state event n ms b w)) = w_env w"
  "w_fs (snd (server_recv_logged_timeout lg state event n ms b w)) = w_fs w"
  "w_stop (snd (server_recv_logged_timeout lg state event n ms b w)) = w_stop w"
  "w_sendfault (snd (server_recv_logged_timeout lg state event n ms b w)) = w_sendfault w"
  "w_clock (snd (server_recv_logged_timeout lg state event n ms b w)) = w_clock w"
  "w_tick (snd (server_recv_logged_timeout lg state event n ms b w)) = w_tick w"
  "w_sent (snd (server_recv_logged_timeout lg state event n ms b w)) = w_sent w"
  "w_stdout (snd (server_recv_logged_timeout lg state event n ms b w)) = w_stdout w"
  "w_net (snd (server_recv_logged_timeout lg state event n ms b w)) = fst (snd (select_loop (w_net w)))"
  using server_recv_world [of lg state event n ms b w]
  by (auto simp: world_simps) (simp_all add: after_recv_def)

lemma server_recv_RecvOk:
  "server_recv_logged_timeout lg state event n ms b w = (RecvOk p peer pt, w1) \<Longrightarrow>
   recv_packet_timeout ms w = (Inr (p, peer), after_recv ms w)"
  by (auto simp: server_recv_logged_timeout_def Let_def dest: recv_packet_timeout_after
      split: prod.splits sum.splits if_splits)

lemma server_recv_shrinks:
  "server_recv_logged_timeout lg state event n ms b w = (RecvOk p peer pt, w1) \<Longrightarrow>
   length (w_net w1) < length (w_net w)"
  using recv_packet_timeout_shrinks [of ms w "(p, peer)" "after_recv ms w"]
    server_recv_RecvOk [of lg state event n ms b w p peer pt w1]
    server_recv_frame(9) [of lg state event n ms b w]
  by (simp add: after_recv_def)

lemma server_recv_msg_ok:
  "server_recv_logged_timeout lg state event n ms b w = (RecvOk p peer pt, w1) \<Longrightarrow>
   msg_ok (message_of p) \<and> p = packet_of (message_of p)"
  by (blast dest: server_recv_RecvOk recv_packet_timeout_ok)

lemma server_send_control_frame [world_simps]:
  "w_env (snd (server_send_control lg peer pt t st ev w)) = w_env w"
  "w_fs (snd (server_send_control lg peer pt t st ev w)) = w_fs w"
  "w_stop (snd (server_send_control lg peer pt t st ev w)) = w_stop w"
  "w_net (snd (server_send_control lg peer pt t st ev w)) = w_net w"
  "w_stdout (snd (server_send_control lg peer pt t st ev w)) = w_stdout w"
  by (simp_all add: server_send_control_def world_simps split: option.splits)

lemma server_send_control_sent:
  "build_control_packet t (Some PROTOCOL_MAX_DATAGRAM) = Some wire \<Longrightarrow>
   w_sent (snd (server_send_control lg peer pt t st ev w)) =
     (if fst (server_send_control lg peer pt t st ev w) = 0
      then w_sent w @ [(peer, wire)] else w_sent w)"
  by (simp add: server_send_control_def world_simps)

lemma server_send_control_sent':
  "\<exists>xs. w_sent (snd (server_send_control lg peer pt t st ev w)) = w_sent w @ xs \<and>
     (\<forall>x \<in> set xs. build_control_packet t (Some PROTOCOL_MAX_DATAGRAM) = Some (snd x) \<and> fst x = peer)"
  by (auto simp: server_send_control_def world_simps split: option.splits)

section \<open>Properties of the simulation lists\<close>

lemma packet_id_loop_bound:
  "length ids \<le> 128 \<Longrightarrow> (\<forall>x \<in> set ids. unat x \<le> 0x7fffffff) \<Longrightarrow>
   length (packet_id_loop p ids) \<le> 128 \<and> (\<forall>x \<in> set (packet_id_loop p ids). unat x \<le> 0x7fffffff)"
proof (induction p ids rule: packet_id_loop.induct)
  case (1 p ids)
  show ?case
  proof (cases "p = [] \<or> length ids \<ge> 128 \<or> dropWhile list_sep p = []")
    case True
    with "1.prems" show ?thesis by (subst (1 2) packet_id_loop.simps) (auto simp: Let_def)
  next
    case False
    obtain v rest e where s: "strtol10 (dropWhile list_sep p) = (v, rest, e)" by (metis prod_cases3)
    have v: "unat (word_of_int v :: u32) \<le> 0x7fffffff" if "0 \<le> v" "v \<le> 0x7fffffff"
    proof -
      from that have "uint (word_of_int v :: u32) = v" by (simp add: uint_word_of_int_eq take_bit_int_eq_self)
      with that show ?thesis by (simp add: unat_eq_nat_uint nat_le_iff)
    qed
    let ?q = "dropWhile list_sep p"
    let ?ids = "if \<not> e \<and> rest \<noteq> ?q \<and> 0 \<le> v \<and> v \<le> 0x7fffffff then ids @ [word_of_int v] else ids"
    have "packet_id_loop p ids = packet_id_loop (if rest \<noteq> ?q then rest else tl ?q) ?ids"
      using False by (simp only: packet_id_loop.simps [of p ids] Let_def s prod.case if_False de_Morgan_disj simp_thms)
    moreover have "length ?ids \<le> 128 \<and> (\<forall>x \<in> set ?ids. unat x \<le> 0x7fffffff)"
      using False "1.prems" v by auto
    ultimately show ?thesis
      using "1.IH" [OF _ refl _ s [symmetric] refl] False by metis
  qed
qed

text \<open>
  However long the text in the environment, the list of packet numbers has at most
  the 128 entries of its array, and no entry is above \<open>INT_MAX\<close>.
\<close>

lemma packet_id_list_bounds:
  "length (parse_packet_id_list t) \<le> 128 \<and> (\<forall>x \<in> set (parse_packet_id_list t). unat x \<le> 0x7fffffff)"
  using packet_id_loop_bound [of "[]"] by (cases t) (simp_all add: parse_packet_id_list_def)

lemma digit_not_list_sep: "is_digit c \<Longrightarrow> \<not> list_sep c"
  by (auto simp: list_sep_def is_digit_def)

lemma packet_id_loop_number:
  assumes "n \<le> 0x7fffffff" "length ids < 128" "sep = [] \<or> sep = '',''"
  shows "packet_id_loop (sep @ show_nat n @ '','' @ rest) ids = packet_id_loop ('','' @ rest) (ids @ [word_of_nat n])"
proof -
  obtain d ds where d: "show_nat n = d # ds" by (cases "show_nat n") auto
  then have "is_digit d" using show_nat_digits [of d n] by simp
  then have drop: "dropWhile list_sep (sep @ show_nat n @ '','' @ rest) = show_nat n @ '','' @ rest"
    using assms(3) d digit_not_list_sep by (auto simp: list_sep_def)
  have "strtol10 (show_nat n @ '','' @ rest) = (int n, '','' @ rest, False)"
    using assms(1) by (intro strtol10_show_nat) (auto simp: long_max_def is_digit_def)
  with drop assms(1,2) d show ?thesis
    by (subst packet_id_loop.simps) simp
qed

lemma packet_id_loop_numbers:
  "(\<forall>n \<in> set ns. n \<le> 0x7fffffff) \<Longrightarrow> length ids \<le> 128 \<Longrightarrow> sep = [] \<or> sep = '','' \<Longrightarrow>
   packet_id_loop (sep @ concat (map (\<lambda>n. show_nat n @ '','') ns)) ids =
     take 128 (ids @ map word_of_nat ns)"
proof (induction ns arbitrary: ids sep)
  case Nil
  then show ?case by (subst packet_id_loop.simps) (auto simp: list_sep_def)
next
  case (Cons n ns)
  show ?case
  proof (cases "length ids < 128")
    case True
    with Cons.prems Cons.IH [of "ids @ [word_of_nat n]" "'',''"] show ?thesis
      using packet_id_loop_number [of n ids sep "concat (map (\<lambda>n. show_nat n @ '','') ns)"] by simp
  next
    case False
    with Cons.prems show ?thesis by (subst packet_id_loop.simps) simp
  qed
qed

text \<open>A comma-separated list of numbers is read in order, the first 128 of them.
\<close>

lemma packet_id_list_reads:
  assumes "\<forall>n \<in> set ns. n \<le> 0x7fffffff"
  shows "parse_packet_id_list (Some (concat (map (\<lambda>n. show_nat n @ '','') ns))) = map word_of_nat (take 128 ns)"
proof (cases ns)
  case (Cons n ms)
  then have "concat (map (\<lambda>n. show_nat n @ '','') ns) \<noteq> []" by simp
  then show ?thesis
    using packet_id_loop_numbers [of ns "[]" "[]"] assms by (simp add: parse_packet_id_list_def take_map)
qed (simp add: parse_packet_id_list_def)

end
