(* ===== verification/UdpServerMain.thy ===== *)
theory UdpServerMain
  imports UdpServer
begin

text \<open>
  The server's authentication loop and \<open>main\<close> (\<open>src/server.c\<close>, lines 571-751).
  The loop ends because every round that goes on has taken one datagram from the
  network; what it may answer is stated against an abstract account of the
  password attempts.
\<close>

section \<open>Authentication\<close>

text \<open>The comparison of \<open>PASS_RESP\<close>'s payload with the password.\<close>

definition password_matches :: "Packet \<Rightarrow> string \<Rightarrow> bool" where
  "password_matches packet password \<longleftrightarrow>
     unat (p_payload_length packet) = length password \<and>
     payload_bytes packet (unat (p_payload_length packet)) =
       take (unat (p_payload_length packet)) (bytes_of_string password)"

text \<open>
  The \<open>for\<close> loop from attempt \<open>attempt\<close>: \<open>Inl\<close> is an exit of \<open>main\<close> with that
  status, \<open>Inr\<close> the value of \<open>authed\<close> when the loop is left.
\<close>

function server_auth_loop ::
  "Logger \<Rightarrow> sockaddr_in \<Rightarrow> string \<Rightarrow> string \<Rightarrow> nat \<Rightarrow> world \<Rightarrow> (int + bool) \<times> world" where
  "server_auth_loop lg peer peer_text password attempt w =
     (if attempt > 3 then (Inr False, w)
      else (case read_stop w of (stop, w0) \<Rightarrow>
       if stop then (Inr False, w0)
       else (case server_recv_expected lg ''AUTH'' ''RECV_PASS_RESP'' 64 w0 of
         (RecvOk packet auth_peer auth_peer_text, w1) \<Rightarrow>
           if \<not> is_same_peer peer auth_peer then
             server_auth_loop lg peer peer_text password attempt
               (logger_write lg (Some ((server_log_defaults ''WARN'' ''UNEXPECTED_PEER'' ''AUTH''
                  ''ignored packet from another peer'')\<lparr>le_peer := Some auth_peer_text\<rparr>)) w1)
           else if p_type packet \<noteq> pkt PKT_PASS_RESP then
             (Inl 1, server_finish lg ''ABORT'' ''expected PASS_RESP'' w1)
           else if password_matches packet password then
             (let w2 = logger_write lg (Some ((server_log_defaults ''AUTH'' ''AUTH_SUCCESS'' ''AUTH''
                    ''password accepted'')\<lparr>le_peer := Some peer_text, le_attempt := int attempt\<rparr>)) w1;
                  (rc, w3) = server_send_control lg peer peer_text (pkt PKT_PASS_ACCEPT) ''AUTH''
                    ''SEND_PASS_ACCEPT'' w2
              in if rc \<noteq> 0 then (Inl 1, server_finish lg ''ABORT'' ''failed to send PASS_ACCEPT'' w3)
                 else (Inr True, w3))
           else
             (let w2 = logger_write lg (Some ((server_log_defaults ''AUTH'' ''AUTH_FAIL'' ''AUTH''
                    ''password rejected'')\<lparr>le_peer := Some peer_text, le_attempt := int attempt\<rparr>)) w1
              in if attempt = 3 then
                   (Inl 1, server_finish lg ''ABORT'' ''three password attempts failed''
                     (snd (server_send_control lg peer peer_text (pkt PKT_REJECT) ''AUTH''
                             ''SEND_REJECT'' w2)))
                 else (case server_send_control lg peer peer_text (pkt PKT_PASS_REQ) ''AUTH''
                         ''SEND_PASS_REQ'' w2 of (rc, w3) \<Rightarrow>
                   if rc \<noteq> 0 then (Inl 1, server_finish lg ''ABORT'' ''failed to send PASS_REQ'' w3)
                   else server_auth_loop lg peer peer_text password (Suc attempt) w3))
       | (_, w1) \<Rightarrow> (Inl 1, server_finish lg ''ABORT'' ''authentication receive failed'' w1))))"
  by pat_completeness auto

lemma read_stop_frame [world_simps]:
  "w_net (snd (read_stop w)) = w_net w"
  "w_fs (snd (read_stop w)) = w_fs w"
  "w_env (snd (read_stop w)) = w_env w"
  "w_sent (snd (read_stop w)) = w_sent w"
  "w_stdout (snd (read_stop w)) = w_stdout w"
  "w_sendfault (snd (read_stop w)) = w_sendfault w"
  by (simp_all add: read_stop_def split: option.splits nat.splits)

lemma server_recv_expected_shrinks:
  "server_recv_expected lg state event n w = (RecvOk p peer pt, w1) \<Longrightarrow>
   length (w_net w1) < length (w_net w)"
  unfolding server_recv_expected_def by (rule server_recv_shrinks)

lemma auth_round_shrinks:
  assumes "(stop, w0) = read_stop w"
    and "(RecvOk p peer pt, w1) = server_recv_expected lg state event n w0"
  shows "length (w_net w1) < length (w_net w)"
  using server_recv_expected_shrinks [OF assms(2) [symmetric]] read_stop_frame(1) [of w]
    assms(1) [symmetric] by simp

lemma send_control_net:
  "(rc, w1) = server_send_control lg peer pt t st ev w \<Longrightarrow> w_net w1 = w_net w"
  using server_send_control_frame(4) [of lg peer pt t st ev w] by (metis snd_conv)

termination server_auth_loop
  by (relation "measure (\<lambda>(lg, peer, pt, pw, attempt, w). length (w_net w))")
    (simp, simp_all only: in_measure split_conv world_simps,
     (drule (1) auth_round_shrinks, assumption | drule send_control_net, drule (1) auth_round_shrinks, simp only: world_simps)+)

section \<open>main\<close>

text \<open>
  From the first receive to the end (lines 652-750). The exit status and the
  world; \<open>None\<close> when the reliable transfer runs out of fuel.
\<close>

definition server_session ::
  "nat \<Rightarrow> Logger \<Rightarrow> string \<Rightarrow> string \<Rightarrow> byte list \<Rightarrow> bool \<Rightarrow> world \<Rightarrow> (int \<times> world) option" where
  "server_session fuel lg password input_path digest reliable_mode w =
     (case server_recv_expected lg ''WAIT_JOIN_REQ'' ''RECV_JOIN_REQ'' 64 w of
        (RecvOk packet peer peer_text, w1) \<Rightarrow>
          if p_type packet \<noteq> pkt PKT_JOIN_REQ
          then Some (1, server_finish lg ''ABORT'' ''expected JOIN_REQ'' w1)
          else (case server_send_control lg peer peer_text (pkt PKT_PASS_REQ) ''AUTH'' ''SEND_PASS_REQ'' w1
             of (rc, w2) \<Rightarrow>
               if rc \<noteq> 0 then Some (1, server_finish lg ''ABORT'' ''failed to send PASS_REQ'' w2)
               else (case server_auth_loop lg peer peer_text password 1 w2 of
                   (Inl status, w3) \<Rightarrow> Some (status, w3)
                 | (Inr authed, w3) \<Rightarrow>
                    (case (if authed then read_stop w3 else (True, w3)) of (give_up, w4) \<Rightarrow>
                       if give_up
                       then Some (1, server_finish lg ''ABORT''
                              ''server stopped before authentication completed'' w4)
                       else (case (if reliable_mode
                                   then server_transfer_file_reliable fuel lg peer peer_text input_path digest w4
                                   else Some (server_transfer_file lg peer peer_text input_path digest w4))
                          of None \<Rightarrow> None
                           | Some (rc2, w5) \<Rightarrow>
                              if rc2 \<noteq> 0 then Some (1, server_finish lg ''ABORT'' ''file transfer failed'' w5)
                              else Some (0, server_finish lg ''OK'' ''file sent and digest transmitted'' w5)))))
      | (_, w1) \<Rightarrow> Some (1, server_finish lg ''ABORT'' ''expected JOIN_REQ'' w1))"

text \<open>
  The usage text on \<open>stderr\<close> and the closing of the socket and the log at exit
  leave nothing in the modelled state.
\<close>

definition server_main :: "nat \<Rightarrow> string list \<Rightarrow> world \<Rightarrow> (int \<times> world) option" where
  "server_main fuel argv w =
     (let reliable_mode = protocol_is_reliable w in
      case logger_open (Some ''server'') (Some ''logs/server.jsonl'') w of
        (rc, None) \<Rightarrow> Some (1, print_line ''ABORT'' w)
      | (rc, Some lg) \<Rightarrow>
        if rc \<noteq> 0 then Some (1, print_line ''ABORT'' w)
        else if length argv \<noteq> 4
        then Some (1, server_finish lg ''ABORT'' ''invalid arguments'' w)
        else (case parse_port (Some (argv ! 1)) of
            None \<Rightarrow> Some (1, server_finish lg ''ABORT'' ''invalid port or password'' w)
          | Some port \<Rightarrow>
            if length (argv ! 2) > PROTOCOL_MAX_PASSWORD \<or> length (argv ! 2) = 0
            then Some (1, server_finish lg ''ABORT'' ''invalid port or password'' w)
            else
             (let password = argv ! 2; input_path = argv ! 3 in
              case w_fs w input_path of
                None \<Rightarrow> Some (1, server_finish lg ''ABORT'' ''input file cannot be read'' w)
              | Some st \<Rightarrow>
                (case (if f_regular st then sha1_file w input_path else None) of
                   None \<Rightarrow> Some (1, server_finish lg ''ABORT'' ''input file cannot be read'' w)
                 | Some digest \<Rightarrow>
                   (case socket_call w of (sock_ok, w1) \<Rightarrow>
                      if \<not> sock_ok then Some (1, server_finish lg ''ABORT'' (w_errno w1) w1)
                      else (case socket_call w1 of (bind_ok, w2) \<Rightarrow>
                        if \<not> bind_ok then Some (1, server_finish lg ''ABORT'' (w_errno w2) w2)
                        else server_session fuel lg password input_path digest reliable_mode
                          (logger_write lg (Some ((server_log_defaults ''INFO'' ''SERVER_START''
                               ''WAIT_JOIN_REQ'' ''server started'')
                                 \<lparr>le_port := uint port,
                                  le_bytes := int_of_size (length (f_data st)),
                                  le_sha1 := Some (sha1_to_hex digest)\<rparr>)) w2)))))))"

end
