(* ===== verification/UdpLink.thy ===== *)
theory UdpLink
  imports LogFile
begin

text \<open>
  What the two UDP programs do to each other, in terms both share: the datagrams a
  receive script brings, the datagrams a run sends, and the message sequence of a
  file transfer. The lemmas say how one receive consumes the arrivals; \<open>emits\<close>
  is the relation by which the runs of both programs are described.
\<close>

section \<open>Arrivals\<close>

text \<open>The datagrams a receive script brings, in order, as the sockets hand them over.\<close>

definition arrival :: "select_result \<Rightarrow> (sockaddr_in \<times> byte list) list" where
  "arrival s = (case s of SelReady r \<Rightarrow> (case recvfrom_loop r of Inr x \<Rightarrow> [x] | Inl m \<Rightarrow> []) | _ \<Rightarrow> [])"

definition arrivals :: "select_result list \<Rightarrow> (sockaddr_in \<times> byte list) list" where
  "arrivals ss = concat (map arrival ss)"

definition deliver :: "sockaddr_in \<Rightarrow> message \<Rightarrow> select_result" where
  "deliver peer m = SelReady (RecvData peer (encode m))"

lemma arrivals_Nil [simp]: "arrivals [] = []"
  by (simp add: arrivals_def)

lemma arrivals_append [simp]: "arrivals (ss @ ts) = arrivals ss @ arrivals ts"
  by (simp add: arrivals_def)

lemma arrivals_deliver [simp]:
  "msg_ok m \<Longrightarrow> arrivals (deliver peer m # ss) = (peer, encode m) # arrivals ss"
  using length_encode [of m] by (simp add: arrivals_def arrival_def deliver_def protocol_sizes)

lemma arrivals_delivers:
  "list_all msg_ok ms \<Longrightarrow> arrivals (map (deliver peer) ms) = map (\<lambda>m. (peer, encode m)) ms"
  by (induction ms) simp_all

lemma select_loop_arrivals:
  "select_loop ss = (Inr r, rest, n) \<Longrightarrow> arrivals ss = arrival (SelReady r) @ arrivals rest"
  "select_loop ss = (Inl m, rest, n) \<Longrightarrow> arrivals ss = arrivals rest"
  by (induction ss arbitrary: rest n rule: select_loop.induct)
    (fastforce simp: arrivals_def arrival_def split: prod.splits)+

lemma select_loop_subset:
  "set (arrivals (fst (snd (select_loop ss)))) \<subseteq> set (arrivals ss)"
  by (cases "select_loop ss"; cases "fst (select_loop ss)") (auto dest: select_loop_arrivals)

lemma recv_packet_arrivals:
  assumes "recv_packet_timeout ms w = (Inr (p, peer), w1)"
  shows "arrivals (w_net w) = (peer, encode (message_of p)) # arrivals (w_net w1)"
proof -
  from assms obtain r rest n d where sel: "select_loop (w_net w) = (Inr r, rest, n)"
    and r: "recvfrom_loop r = Inr (peer, d)" and p: "parse_packet (Some d) = Inr p"
    and w1: "w_net w1 = rest"
    by (auto simp: recv_packet_timeout_def Let_def parse_fail_def split: prod.splits sum.splits)
  have "d = encode (message_of p)" using parse_sound [OF p] by simp
  with select_loop_arrivals(1) [OF sel] r w1 show ?thesis by (simp add: arrival_def)
qed

lemma after_recv_arrivals: "set (arrivals (w_net (after_recv ms w))) \<subseteq> set (arrivals (w_net w))"
  using select_loop_subset [of "w_net w"] by (simp add: after_recv_def)

section \<open>What a run sends\<close>

text \<open>
  From \<open>w\<close> to \<open>w'\<close> only datagrams that satisfy \<open>P\<close> were sent, nothing new arrived,
  nothing was printed and the environment variables are the same.
\<close>

definition emits :: "(sockaddr_in \<times> byte list \<Rightarrow> bool) \<Rightarrow> world \<Rightarrow> world \<Rightarrow> bool" where
  "emits P w w' \<longleftrightarrow>
     (\<exists>xs. w_sent w' = w_sent w @ xs \<and> (\<forall>x \<in> set xs. P x)) \<and>
     set (arrivals (w_net w')) \<subseteq> set (arrivals (w_net w)) \<and>
     w_env w' = w_env w \<and> w_stdout w' = w_stdout w"

lemma emits_refl [simp]: "emits P w w"
  by (simp add: emits_def)

lemma emits_trans: "emits P w w1 \<Longrightarrow> emits P w1 w2 \<Longrightarrow> emits P w w2"
  by (fastforce simp: emits_def)

lemma emits_mono: "emits P w w1 \<Longrightarrow> (\<And>x. P x \<Longrightarrow> Q x) \<Longrightarrow> emits Q w w1"
  by (fastforce simp: emits_def)

lemma emits_arrivals: "emits P w w1 \<Longrightarrow> x \<in> set (arrivals (w_net w1)) \<Longrightarrow> x \<in> set (arrivals (w_net w))"
  by (auto simp: emits_def)

lemma emits_same:
  "w_sent w1 = w_sent w \<Longrightarrow> w_net w1 = w_net w \<Longrightarrow> w_env w1 = w_env w \<Longrightarrow> w_stdout w1 = w_stdout w \<Longrightarrow> emits P w w1"
  by (simp add: emits_def)

lemma emits_send:
  "w_sent w1 = w_sent w @ xs \<Longrightarrow> (\<And>x. x \<in> set xs \<Longrightarrow> P x) \<Longrightarrow> w_net w1 = w_net w \<Longrightarrow>
   w_env w1 = w_env w \<Longrightarrow> w_stdout w1 = w_stdout w \<Longrightarrow> emits P w w1"
  by (auto simp: emits_def)

lemma emits_new:
  "emits P w w1 \<Longrightarrow> x \<in> set (drop (length (w_sent w)) (w_sent w1)) \<Longrightarrow> P x"
  by (auto simp: emits_def)

lemma emits_sent:
  "emits P w w1 \<Longrightarrow> w_sent w1 = w_sent w @ drop (length (w_sent w)) (w_sent w1)"
  by (auto simp: emits_def)

lemma emits_stdout: "emits P w w1 \<Longrightarrow> w_stdout w1 = w_stdout w"
  by (simp add: emits_def)

lemma emits_logger_write [simp]: "emits P w (logger_write lg e w)"
  by (rule emits_same) (simp_all add: world_simps)

lemma emits_log: "emits P w w1 \<Longrightarrow> emits P w (logger_write lg e w1)"
  by (erule emits_trans) (rule emits_logger_write)

lemma emits_after_recv: "emits P w (after_recv ms w)"
  using after_recv_arrivals [of ms w] by (simp add: emits_def world_simps)

section \<open>The messages of a transfer\<close>

text \<open>\<open>DATA\<close> messages with consecutive numbers from \<open>i\<close>, which wrap at 32 bits.\<close>

fun data_messages :: "u32 \<Rightarrow> byte list list \<Rightarrow> message list" where
  "data_messages i [] = []"
| "data_messages i (d # ds) = Data i d # data_messages (i + 1) ds"

definition transfer_messages :: "byte list \<Rightarrow> byte list \<Rightarrow> message list" where
  "transfer_messages contents digest =
     data_messages 0 (chunks PROTOCOL_DATA_CHUNK_SIZE contents) @ [Terminate digest]"

lemma length_data_messages [simp]: "length (data_messages i ds) = length ds"
  by (induction ds arbitrary: i) simp_all

lemma nth_data_messages:
  "k < length ds \<Longrightarrow> data_messages i ds ! k = Data (i + word_of_nat k) (ds ! k)"
proof (induction ds arbitrary: i k)
  case (Cons d ds)
  then show ?case by (cases k) (simp_all add: algebra_simps)
qed simp

lemma data_messages_append:
  "data_messages i (ds @ es) = data_messages i ds @ data_messages (i + word_of_nat (length ds)) es"
  by (induction ds arbitrary: i) (simp_all add: algebra_simps)

lemma data_messages_ok:
  "(\<And>d. d \<in> set ds \<Longrightarrow> length d \<le> 1000) \<Longrightarrow> list_all msg_ok (data_messages i ds)"
  by (induction ds arbitrary: i) auto

lemma transfer_messages_ok: "length digest = 20 \<Longrightarrow> list_all msg_ok (transfer_messages c digest)"
  unfolding transfer_messages_def
  by (simp add: protocol_sizes data_messages_ok chunks_bounds)

text \<open>The equations to switch off while a datagram is to stay \<open>encode m\<close>.\<close>

lemmas opaque = encode.simps pkt.simps

lemma encode_eq_iff [simp]: "msg_ok m \<Longrightarrow> msg_ok m' \<Longrightarrow> encode m = encode m' \<longleftrightarrow> m = m'"
  by (rule udp.enc_inj)

lemma terminate_not_data [simp]:
  "length h = 20 \<Longrightarrow> length d \<le> 1000 \<Longrightarrow> encode (Terminate h) \<noteq> encode (Data i d)"
  using encode_eq_iff [of "Terminate h" "Data i d"] by simp

text \<open>A message fits the receive buffer.\<close>

lemma take_encode: "msg_ok m \<Longrightarrow> take 2048 (encode m) = encode m"
  using length_encode [of m] by (simp add: protocol_sizes)

section \<open>The messages of an authentication\<close>

text \<open>
  The replies to a list of passwords when \<open>left\<close> attempts are left, and the passwords
  that get read.
\<close>

fun auth_replies :: "nat \<Rightarrow> byte list \<Rightarrow> byte list list \<Rightarrow> message list" where
  "auth_replies left pw [] = []"
| "auth_replies left pw (x # xs) =
     (if x = pw then [PassAccept]
      else if left \<le> 1 then [Reject] else PassReq # auth_replies (left - 1) pw xs)"

fun tried :: "nat \<Rightarrow> byte list \<Rightarrow> byte list list \<Rightarrow> byte list list" where
  "tried left pw [] = []"
| "tried left pw (x # xs) =
     (if x = pw \<or> left \<le> 1 then [x] else x # tried (left - 1) pw xs)"

section \<open>Names for concrete runs\<close>

definition host :: "u32 \<Rightarrow> sockaddr_in" where
  "host n = \<lparr>sin_family = 2, sin_port = 9000, sin_addr = n\<rparr>"

lemma closed_logger_silent [simp]: "logger_write closed_logger e w = w"
  by (simp add: logger_write_def closed_logger_def)

lemma host_inject [simp]: "host a = host b \<longleftrightarrow> a = b"
  by (simp add: host_def)

text \<open>What the client sends of its passwords is answered like all of them.\<close>

lemma tried_again:
  "1 \<le> n \<Longrightarrow> n \<le> length xs \<Longrightarrow> auth_replies n pw (tried n pw xs) = auth_replies n pw xs \<and>
   (pw \<in> set (take n (tried n pw xs)) \<longleftrightarrow> pw \<in> set (take n xs)) \<and> length (tried n pw xs) \<le> n \<and>
   (pw \<notin> set (take n xs) \<longrightarrow> length (tried n pw xs) = n) \<and> set (tried n pw xs) \<subseteq> set xs"
proof (induction n pw xs rule: tried.induct)
  case (2 n pw x xs)
  obtain k where k: "n = Suc k" using "2.prems"(1) by (cases n) auto
  show ?case
  proof (cases "x = pw \<or> n \<le> 1")
    case True
    then show ?thesis using k by auto
  next
    case False
    with 2 k show ?thesis by auto
  qed
qed simp

end
