(* ===== verification/UdpServerFacts.thy ===== *)
theory UdpServerFacts
  imports UdpServerMain UdpLink
begin

text \<open>
  What the server's transfer code guarantees: the plain transfer sends exactly the
  numbered chunks and the digest; the reliable transfer keeps its window and its
  acknowledgement flags honest and sends nothing but its chunks to its peer.
\<close>

section \<open>Sending\<close>

lemma server_send_logged_emits:
  "server_send_logged lg peer pt t wire pid len a win r st ev w = (rc, w1) \<Longrightarrow> P (peer, wire) \<Longrightarrow>
   emits P w w1"
  using server_send_logged_frame [of lg peer pt t wire pid len a win r st ev w]
  by (intro emits_send [where xs = "if rc = 0 then [(peer, wire)] else []"])
    (auto split: if_splits simp: server_send_logged_rc [of lg peer pt t wire pid len a win r st ev w,
       simplified] dest: arg_cong [where f = fst])

lemma clock_gettime_emits: "clock_gettime w = (t, w1) \<Longrightarrow> emits P w w1"
  by (auto simp: clock_gettime_def intro: emits_same)

lemma elapsed_ms_since_emits: "elapsed_ms_since ts w = (ms, w1) \<Longrightarrow> emits P w w1"
  by (auto simp: elapsed_ms_since_def clock_gettime_def intro: emits_same)

lemma read_stop_emits: "read_stop w = (b, w1) \<Longrightarrow> emits P w w1"
  using read_stop_frame [of w] by (auto intro: emits_same)

lemma server_recv_emits:
  "server_recv_logged_timeout lg state event n ms b w = (r, w1) \<Longrightarrow> emits P w w1"
  using server_recv_world [of lg state event n ms b w] emits_after_recv [of P w ms]
  by (auto intro: emits_log)

lemma server_recv_arrivals:
  "server_recv_logged_timeout lg state event n ms b w = (RecvOk p peer pt, w1) \<Longrightarrow>
   arrivals (w_net w) = (peer, encode (message_of p)) # arrivals (w_net w1)"
  using recv_packet_arrivals [OF server_recv_RecvOk [of lg state event n ms b w p peer pt w1]]
    server_recv_frame(9) [of lg state event n ms b w]
  by (simp add: after_recv_def)

lemmas server_emits =
  server_send_logged_emits clock_gettime_emits elapsed_ms_since_emits read_stop_emits server_recv_emits

section \<open>The plain transfer\<close>

lemma server_send_sent:
  "server_send_logged lg peer pt t wire pid len a win r st ev w = (0, w1) \<Longrightarrow>
   w_sent w1 = w_sent w @ [(peer, wire)]"
  using server_send_logged_frame(9) [of lg peer pt t wire pid len a win r st ev w]
    server_send_logged_rc [of lg peer pt t wire pid len a win r st ev w]
  by (auto split: if_splits)

text \<open>When the loop ends without an error every chunk was sent, in order.\<close>

lemma send_data_loop_sent:
  "send_data_loop lg peer pt blocks i tot w = (0, i', tot', w1) \<Longrightarrow>
   (\<And>d. d \<in> set blocks \<Longrightarrow> length d \<le> 1000) \<Longrightarrow>
   w_sent w1 = w_sent w @ map (\<lambda>m. (peer, encode m)) (data_messages i blocks) \<and>
   tot' = tot + length (concat blocks) \<and> i' = i + word_of_nat (length blocks)"
proof (induction blocks arbitrary: i tot w)
  case (Cons d blocks)
  obtain stop w2 where stop: "read_stop w = (stop, w2)" by fastforce
  have len: "length d \<le> 1000" using Cons.prems(2) by simp
  then have wire: "build_data_packet i (Some d) (word_of_nat (length d)) (Some PROTOCOL_MAX_DATAGRAM)
      = Some (encode (Data i d))"
    by (subst build_data_packet_eq) (simp_all add: protocol_sizes)
  obtain rc w3 where snd: "server_send_logged lg peer pt (pkt PKT_DATA) (encode (Data i d)) i
      (word_of_nat (length d)) 0 0 0 ''DATA_TRANSFER'' ''SEND_DATA'' w2 = (rc, w3)" by fastforce
  from Cons.prems(1) have rc: "\<not> stop" "rc = 0"
    and rest: "send_data_loop lg peer pt blocks (i + 1) (tot + length d) w3 = (0, i', tot', w1)"
    by (auto simp: stop wire snd simp del: opaque split: if_splits)
  have "w_sent w3 = w_sent w @ [(peer, encode (Data i d))]"
    using server_send_sent [OF snd [unfolded rc]] read_stop_frame(4) [of w] stop by simp
  with Cons.IH [OF rest] Cons.prems(2) show ?case
    by (simp add: algebra_simps del: opaque)
qed simp

lemma server_transfer_file_sent:
  assumes "server_transfer_file lg peer pt path digest w = (0, w1)" "length digest = 20"
  shows "\<exists>f. w_fs w path = Some f \<and> \<not> f_bad f \<and>
    w_sent w1 = w_sent w @ map (\<lambda>m. (peer, encode m)) (transfer_messages (f_data f) digest)"
proof -
  from assms(1) obtain f where f: "w_fs w path = Some f"
    by (auto simp: server_transfer_file_def split: option.splits)
  let ?blocks = "chunks PROTOCOL_DATA_CHUNK_SIZE (f_data f)"
  obtain rc i tot w2 where loop: "send_data_loop lg peer pt ?blocks 0 0 w = (rc, i, tot, w2)"
    by (metis prod_cases4)
  have wire: "build_terminate_packet (Some digest) (Some PROTOCOL_MAX_DATAGRAM) = Some (encode (Terminate digest))"
    using build_terminate_packet_eq [OF assms(2)] by (simp add: protocol_sizes)
  obtain rc2 w3 where snd: "server_send_logged lg peer pt (pkt PKT_TERMINATE) (encode (Terminate digest)) 0
      (word_of_nat PROTOCOL_DIGEST_SIZE) 0 0 0 ''VERIFY'' ''SEND_TERMINATE'' w2 = (rc2, w3)" by fastforce
  from assms(1) have rc: "rc = 0" "\<not> f_bad f" "rc2 = 0"
    and w1: "w_sent w1 = w_sent w3"
    by (auto simp: server_transfer_file_def f fread_blocks_def loop wire snd world_simps
        simp del: opaque split: if_splits)
  have "w_sent w2 = w_sent w @ map (\<lambda>m. (peer, encode m)) (data_messages 0 ?blocks)"
    using send_data_loop_sent [OF loop [unfolded rc]]
    by (simp add: chunks_bounds protocol_sizes)
  with server_send_sent [OF snd [unfolded rc]] f rc w1 show ?thesis
    by (simp add: transfer_messages_def del: opaque)
qed

text \<open>Without a fault or a signal the transfer succeeds.\<close>

lemma server_send_ok:
  assumes "w_sendfault w = []"
  obtains w1 where "server_send_logged lg peer pt t wire pid len a win r st ev w = (0, w1)"
    "w_sendfault w1 = []" "w_stop w1 = w_stop w" "w_net w1 = w_net w" "w_fs w1 = w_fs w"
    "w_clock w1 = w_clock w" "w_env w1 = w_env w"
  using assms server_send_logged_frame [of lg peer pt t wire pid len a win r st ev w]
    server_send_logged_rc [of lg peer pt t wire pid len a win r st ev w]
  by (cases "server_send_logged lg peer pt t wire pid len a win r st ev w") auto

lemma send_data_loop_ok:
  "w_sendfault w = [] \<Longrightarrow> w_stop w = None \<Longrightarrow> (\<And>d. d \<in> set blocks \<Longrightarrow> length d \<le> 1000) \<Longrightarrow>
   \<exists>i' tot' w1. send_data_loop lg peer pt blocks i tot w = (0, i', tot', w1) \<and>
     w_sendfault w1 = [] \<and> w_stop w1 = None"
proof (induction blocks arbitrary: i tot w)
  case (Cons d blocks)
  have wire: "build_data_packet i (Some d) (word_of_nat (length d)) (Some PROTOCOL_MAX_DATAGRAM)
      = Some (encode (Data i d))"
    using Cons.prems(3) [of d] by (subst build_data_packet_eq) (simp_all add: protocol_sizes)
  obtain w1 where "server_send_logged lg peer pt (pkt PKT_DATA) (encode (Data i d)) i
      (word_of_nat (length d)) 0 0 0 ''DATA_TRANSFER'' ''SEND_DATA'' w = (0, w1)"
    "w_sendfault w1 = []" "w_stop w1 = None"
    using server_send_ok [OF Cons.prems(1)] Cons.prems(2) by metis
  with Cons.IH [of w1 "i + 1" "tot + length d"] Cons.prems show ?case
    by (simp add: wire read_stop_def del: opaque)
qed simp

lemma server_transfer_file_ok:
  assumes "w_fs w path = Some f" "\<not> f_bad f" "length digest = 20" "w_sendfault w = []" "w_stop w = None"
  shows "\<exists>w1. server_transfer_file lg peer pt path digest w = (0, w1)"
proof -
  let ?blocks = "chunks PROTOCOL_DATA_CHUNK_SIZE (f_data f)"
  obtain i tot w2 where loop: "send_data_loop lg peer pt ?blocks 0 0 w = (0, i, tot, w2)"
    and w2: "w_sendfault w2 = []"
    using send_data_loop_ok [OF assms(4,5), of ?blocks lg peer pt 0 0]
    by (auto simp: protocol_sizes chunks_bounds)
  have wire: "build_terminate_packet (Some digest) (Some PROTOCOL_MAX_DATAGRAM) = Some (encode (Terminate digest))"
    using build_terminate_packet_eq [OF assms(3)] by (simp add: protocol_sizes)
  obtain w3 where "server_send_logged lg peer pt (pkt PKT_TERMINATE) (encode (Terminate digest)) 0
      (word_of_nat PROTOCOL_DIGEST_SIZE) 0 0 0 ''VERIFY'' ''SEND_TERMINATE'' w2 = (0, w3)"
    using server_send_ok [OF w2] by metis
  with assms(1,2) loop wire show ?thesis
    by (simp add: server_transfer_file_def fread_blocks_def del: opaque)
qed

section \<open>The reliable transfer: what a chunk keeps\<close>

text \<open>The part of a chunk that sending does not change.\<close>

definition fixed_part :: "ReliableChunk \<Rightarrow> u32 \<times> u32 \<times> byte list \<times> bool" where
  "fixed_part c = (rc_packet_id c, rc_payload_length c, rc_wire c, rc_acked c)"

lemma fixed_part_simps [simp]:
  "fixed_part (c\<lparr>rc_send_count := n\<rparr>) = fixed_part c"
  "fixed_part (c\<lparr>rc_drop_first_send := b\<rparr>) = fixed_part c"
  "fixed_part (c\<lparr>rc_dup_first_send := b\<rparr>) = fixed_part c"
  "fixed_part (c\<lparr>rc_reorder_first_send := b\<rparr>) = fixed_part c"
  "fixed_part (c\<lparr>rc_reorder_pending := b\<rparr>) = fixed_part c"
  "fixed_part (c\<lparr>rc_last_send := t\<rparr>) = fixed_part c"
  by (simp_all add: fixed_part_def)

lemma fixed_part_wire: "fixed_part c = fixed_part c' \<Longrightarrow> rc_wire c = rc_wire c' \<and> rc_acked c = rc_acked c'"
  by (simp add: fixed_part_def)

lemma fixed_part_update:
  "fixed_part c = fixed_part (cs ! i) \<Longrightarrow> map fixed_part (cs[i := c]) = map fixed_part cs"
  by (metis list_update_beyond list_update_id map_update not_le_imp_less nth_map)

lemma fixed_part_lists:
  assumes "map fixed_part cs = map fixed_part cs'"
  shows "length cs = length cs'" "map rc_wire cs = map rc_wire cs'" "map rc_acked cs = map rc_acked cs'"
proof -
  from assms have "list_all2 (\<lambda>c c'. fixed_part c = fixed_part c') cs cs'"
    by (simp add: list_all2_conv_all_nth list_eq_iff_nth_eq)
  then show "length cs = length cs'" "map rc_wire cs = map rc_wire cs'" "map rc_acked cs = map rc_acked cs'"
    by (induction rule: list_all2_induct) (auto dest: fixed_part_wire)
qed

definition wires_ok :: "(sockaddr_in \<times> byte list \<Rightarrow> bool) \<Rightarrow> sockaddr_in \<Rightarrow> ReliableChunk list \<Rightarrow> bool" where
  "wires_ok P peer cs \<longleftrightarrow> (\<forall>c \<in> set cs. P (peer, rc_wire c))"

lemma wires_ok_map: "wires_ok P peer cs \<longleftrightarrow> (\<forall>x \<in> set (map rc_wire cs). P (peer, x))"
  by (simp add: wires_ok_def)

lemma wires_ok_fixed:
  "map fixed_part cs = map fixed_part cs' \<Longrightarrow> wires_ok P peer cs \<longleftrightarrow> wires_ok P peer cs'"
  unfolding wires_ok_map using fixed_part_lists(2) [of cs cs'] by auto

lemma wires_ok_nth: "wires_ok P peer cs \<Longrightarrow> i < length cs \<Longrightarrow> P (peer, rc_wire (cs ! i))"
  by (simp add: wires_ok_def)

lemma send_reliable_chunk_effect:
  assumes "send_reliable_chunk lg peer pt c state ev w = (rc, c1, w1)" "P (peer, rc_wire c)"
  shows "fixed_part c1 = fixed_part c \<and> emits P w w1"
proof -
  define r where "r = (if rc_send_count c > 0 then rc_send_count c - 1 else 0)"
  obtain r1 w2 where s1: "server_send_logged lg peer pt (pkt PKT_DATA) (rc_wire c) (rc_packet_id c)
      (rc_payload_length c) 0 0 r state ev w = (r1, w2)" by fastforce
  obtain now w3 where cl: "clock_gettime w2 = (now, w3)" by fastforce
  obtain r2 w4 where s2: "server_send_logged lg peer pt (pkt PKT_DATA) (rc_wire c) (rc_packet_id c)
      (rc_payload_length c) 0 0 r state ''SEND_DATA_DUPLICATE'' w3 = (r2, w4)" by fastforce
  obtain now' w5 where cl0: "clock_gettime w = (now', w5)" by fastforce
  have e: "emits P w w2" "emits P w w3" "emits P w w4" "emits P w w5"
    using server_send_logged_emits [OF s1, of P, OF assms(2)] clock_gettime_emits [OF cl, of P]
      server_send_logged_emits [OF s2, of P, OF assms(2)] clock_gettime_emits [OF cl0, of P]
    by (blast intro: emits_trans)+
  note unf = assms(1) [unfolded send_reliable_chunk_def r_def [symmetric] Let_def s1 cl cl0 split_conv]
  consider (hold) "rc_send_count c = 0 \<and> rc_reorder_first_send c"
    | (drop) "\<not> (rc_send_count c = 0 \<and> rc_reorder_first_send c)" "rc_send_count c = 0 \<and> rc_drop_first_send c"
    | (send) "\<not> (rc_send_count c = 0 \<and> rc_reorder_first_send c)" "\<not> (rc_send_count c = 0 \<and> rc_drop_first_send c)"
    by blast
  then show ?thesis
  proof cases
    case hold
    with unf show ?thesis by auto
  next
    case drop
    with unf e(4) show ?thesis by (auto intro: emits_log)
  next
    case send
    note unf = unf [simplified send if_False]
    show ?thesis
      using unf s2 e by (auto simp: s2 split: if_splits intro: emits_log)
  qed
qed

lemma release_delayed_from_effect:
  "release_delayed_from lg peer pt i n state cs w = (rc, cs1, w1) \<Longrightarrow>
   wires_ok P peer cs \<Longrightarrow> n \<le> length cs \<Longrightarrow>
   map fixed_part cs1 = map fixed_part cs \<and> emits P w w1"
proof (induction lg peer pt i n state cs w arbitrary: rc cs1 w1 rule: release_delayed_from.induct)
  case (1 lg peer pt i n state cs w)
  note unf = release_delayed_from.simps [of lg peer pt i n state cs w]
  show ?case
  proof (cases "i < n")
    case False
    with "1.prems" unf show ?thesis by auto
  next
    case True
    show ?thesis
    proof (cases "\<not> rc_reorder_pending (cs ! i) \<or> rc_acked (cs ! i)")
      case skip: True
      with True "1.prems"(1) unf
      have "release_delayed_from lg peer pt (Suc i) n state cs w = (rc, cs1, w1)" by simp
      from "1.IH"(1) [OF True skip this "1.prems"(2,3)] show ?thesis .
    next
      case go: False
      let ?c = "(cs ! i)\<lparr>rc_reorder_pending := False\<rparr>"
      obtain r c w2 where snd: "send_reliable_chunk lg peer pt ?c state ''SEND_DATA_REORDERED'' w = (r, c, w2)"
        by (metis prod_cases3)
      have "P (peer, rc_wire ?c)" using wires_ok_nth [OF "1.prems"(2), of i] True "1.prems"(3) by simp
      from send_reliable_chunk_effect [OF snd, of P, OF this]
      have eff: "map fixed_part (cs[i := c]) = map fixed_part cs" "emits P w w2"
        by (auto intro: fixed_part_update)
      show ?thesis
      proof (cases "r = 0")
        case False
        with go True snd "1.prems"(1) unf eff show ?thesis by auto
      next
        case r: True
        with go True snd "1.prems"(1) unf
        have rec: "release_delayed_from lg peer pt (Suc i) n state (cs[i := c]) w2 = (rc, cs1, w1)" by simp
        have P: "wires_ok P peer (cs[i := c])"
          using "1.prems"(2) wires_ok_fixed [OF eff(1)] by blast
        have "map fixed_part cs1 = map fixed_part (cs[i := c]) \<and> emits P w2 w1"
          using "1.IH"(2) [OF True go refl snd [symmetric] refl] r rec P "1.prems"(3) snd by auto
        with eff show ?thesis by (auto intro: emits_trans)
      qed
    qed
  qed
qed

lemma reliable_fill_effect:
  "reliable_fill lg peer pt win base cs next w = (rc, cs1, next1, w1) \<Longrightarrow> wires_ok P peer cs \<Longrightarrow>
   map fixed_part cs1 = map fixed_part cs \<and> emits P w w1 \<and> next \<le> next1 \<and>
   next1 \<le> max next (min (length cs) (base + win))"
proof (induction lg peer pt win base cs "next" w arbitrary: rc cs1 next1 w1 rule: reliable_fill.induct)
  case (1 lg peer pt win base cs "next" w)
  note unf = reliable_fill.simps [of lg peer pt win base cs "next" w]
  show ?case
  proof (cases "next < length cs \<and> next < base + win")
    case False
    with "1.prems" unf show ?thesis by auto
  next
    case True
    obtain r c w2 where snd: "send_reliable_chunk lg peer pt (cs ! next) ''DATA_TRANSFER'' ''SEND_DATA'' w
        = (r, c, w2)" by (metis prod_cases3)
    have "P (peer, rc_wire (cs ! next))" using wires_ok_nth "1.prems"(2) True by blast
    from send_reliable_chunk_effect [OF snd, of P, OF this]
    have eff: "map fixed_part (cs[next := c]) = map fixed_part cs" "emits P w w2"
      by (auto intro: fixed_part_update)
    obtain r2 cs2 w3 where rel: "release_delayed_chunks lg peer pt (cs[next := c]) (next + 1)
        ''DATA_TRANSFER'' w2 = (r2, cs2, w3)" by (metis prod_cases3)
    have P: "wires_ok P peer (cs[next := c])"
      using "1.prems"(2) wires_ok_fixed [OF eff(1)] by blast
    have eff2: "map fixed_part cs2 = map fixed_part (cs[next := c]) \<and> emits P w2 w3"
      using release_delayed_from_effect [OF rel [unfolded release_delayed_chunks_def] P] True by simp
    have all2: "map fixed_part cs2 = map fixed_part cs" "emits P w w3"
      using eff eff2 by (auto intro: emits_trans)
    show ?thesis
    proof (cases "r = 0 \<and> r2 = 0")
      case False
      with True snd rel [simplified] "1.prems"(1) unf eff all2 show ?thesis
        by (auto simp: Let_def split: if_splits)
    next
      case r: True
      with True snd rel [simplified] "1.prems"(1) unf
      have rec: "reliable_fill lg peer pt win base cs2 (next + 1) w3 = (rc, cs1, next1, w1)" by simp
      have "map fixed_part cs1 = map fixed_part cs2 \<and> emits P w3 w1 \<and> next + 1 \<le> next1 \<and>
          next1 \<le> max (next + 1) (min (length cs2) (base + win))"
        using "1.IH" [OF True snd [symmetric] refl refl refl _ rel [symmetric] refl refl _ rec] r
          "1.prems"(2) wires_ok_fixed [OF all2(1)] by blast
      with all2 fixed_part_lists(1) [OF all2(1)] True show ?thesis by (auto intro: emits_trans)
    qed
  qed
qed

lemma reliable_retransmit_effect:
  "reliable_retransmit lg peer pt tmo i n cs w = (rc, cs1, w1) \<Longrightarrow> wires_ok P peer cs \<Longrightarrow>
   n \<le> length cs \<Longrightarrow> map fixed_part cs1 = map fixed_part cs \<and> emits P w w1"
proof (induction lg peer pt tmo i n cs w arbitrary: rc cs1 w1 rule: reliable_retransmit.induct)
  case (1 lg peer pt tmo i n cs w)
  note unf = reliable_retransmit.simps [of lg peer pt tmo i n cs w]
  show ?case
  proof (cases "i < n")
    case False
    with "1.prems" unf show ?thesis by auto
  next
    case True
    let ?skip = "rc_acked (cs ! i) \<or> rc_reorder_pending (cs ! i) \<or> rc_send_count (cs ! i) \<le> 0"
    show ?thesis
    proof (cases ?skip)
      case skip: True
      with True "1.prems"(1) unf have "reliable_retransmit lg peer pt tmo (Suc i) n cs w = (rc, cs1, w1)"
        by simp
      from "1.IH"(1) [OF True skip this "1.prems"(2,3)] show ?thesis .
    next
      case go: False
      obtain ms w2 where el: "elapsed_ms_since (rc_last_send (cs ! i)) w = (ms, w2)" by fastforce
      have e2: "emits P w w2" using el by (rule elapsed_ms_since_emits)
      show ?thesis
      proof (cases "ms \<ge> tmo")
        case False
        with True go el "1.prems"(1) unf
        have "reliable_retransmit lg peer pt tmo (Suc i) n cs w2 = (rc, cs1, w1)" by simp
        with "1.IH"(3) [OF True go el [symmetric] refl False] "1.prems"(2,3) e2 show ?thesis
          by (blast intro: emits_trans)
      next
        case late: True
        obtain r c w3 where snd: "send_reliable_chunk lg peer pt (cs ! i) ''DATA_TRANSFER''
            ''RETRANSMIT_DATA'' w2 = (r, c, w3)" by (metis prod_cases3)
        have "P (peer, rc_wire (cs ! i))" using wires_ok_nth [OF "1.prems"(2), of i] "1.prems"(3) True by simp
        from send_reliable_chunk_effect [OF snd, of P, OF this]
        have eff: "map fixed_part (cs[i := c]) = map fixed_part cs" "emits P w2 w3"
          by (auto intro: fixed_part_update)
        show ?thesis
        proof (cases "r = 0")
          case False
          with True go el late snd "1.prems"(1) unf eff e2 show ?thesis by (auto intro: emits_trans)
        next
          case r: True
          with True go el late snd "1.prems"(1) unf
          have rec: "reliable_retransmit lg peer pt tmo (Suc i) n (cs[i := c]) w3 = (rc, cs1, w1)" by simp
          have "map fixed_part cs1 = map fixed_part (cs[i := c]) \<and> emits P w3 w1"
            using "1.IH"(2) [OF True go el [symmetric] refl late snd [symmetric] refl refl refl _ rec] r
              "1.prems"(2,3) wires_ok_fixed [OF eff(1)] by simp
          moreover from this eff e2 have "emits P w w1" by (blast intro: emits_trans)
          ultimately show ?thesis using eff(1) by simp
        qed
      qed
    qed
  qed
qed

section \<open>Acknowledgements\<close>

text \<open>
  The window invariant: the chunks carry the wires \<open>W\<close>, everything below \<open>base\<close>
  is acknowledged, and a chunk is only marked by an \<open>ACK\<close> of the peer with a
  larger number among the datagrams \<open>A\<close>.
\<close>

definition acked_by :: "(sockaddr_in \<times> byte list) set \<Rightarrow> sockaddr_in \<Rightarrow> ReliableChunk list \<Rightarrow> bool" where
  "acked_by A peer cs \<longleftrightarrow>
     (\<forall>i < length cs. rc_acked (cs ! i) \<longrightarrow> (\<exists>k win. (peer, encode (Ack k win)) \<in> A \<and> i < unat k))"

definition window_inv ::
  "(sockaddr_in \<times> byte list) set \<Rightarrow> sockaddr_in \<Rightarrow> byte list list \<Rightarrow> ReliableChunk list \<Rightarrow> nat \<Rightarrow> bool" where
  "window_inv A peer W cs base \<longleftrightarrow>
     map rc_wire cs = W \<and> acked_by A peer cs \<and> base \<le> length cs \<and> (\<forall>i < base. rc_acked (cs ! i))"

lemma map_acked_nth:
  "map rc_acked cs = map rc_acked cs' \<Longrightarrow> i < length cs \<Longrightarrow> rc_acked (cs ! i) = rc_acked (cs' ! i)"
  by (metis length_map nth_map)

lemma window_inv_fixed:
  assumes "map fixed_part cs = map fixed_part cs'" "window_inv A peer W cs' base"
  shows "window_inv A peer W cs base"
  using assms fixed_part_lists [OF assms(1)] map_acked_nth [OF fixed_part_lists(3) [OF assms(1)]]
  by (simp add: window_inv_def acked_by_def)

lemma mark_acked_eq:
  "lim \<le> length cs \<Longrightarrow> length (mark_acked i lim cs) = length cs \<and>
   (\<forall>j < length cs. mark_acked i lim cs ! j =
      (if i \<le> j \<and> j < lim then (cs ! j)\<lparr>rc_acked := True\<rparr> else cs ! j))"
proof (induction i lim cs rule: mark_acked.induct)
  case (1 i lim cs)
  show ?case
  proof (cases "i < lim")
    case False
    then show ?thesis by (subst (1 2) mark_acked.simps) auto
  next
    case True
    with "1.IH" [OF True] "1.prems" show ?thesis
      by (subst (1 2) mark_acked.simps) (auto simp: nth_list_update)
  qed
qed

lemma mark_acked_window:
  assumes inv: "window_inv A peer W cs base" and ack: "(peer, encode (Ack k win)) \<in> A"
    and lim: "lim = min (length cs) (unat k)"
  shows "window_inv A peer W (mark_acked base lim cs) base"
proof -
  have l: "length (mark_acked base lim cs) = length cs" and
    n: "j < length cs \<Longrightarrow> mark_acked base lim cs ! j =
      (if base \<le> j \<and> j < lim then (cs ! j)\<lparr>rc_acked := True\<rparr> else cs ! j)" for j
    using mark_acked_eq [of lim cs base] lim by auto
  have "map rc_wire (mark_acked base lim cs) = map rc_wire cs"
    by (rule nth_equalityI) (simp_all add: l n)
  moreover have "acked_by A peer (mark_acked base lim cs)"
    unfolding acked_by_def
  proof (intro allI impI)
    fix i assume i: "i < length (mark_acked base lim cs)" and a: "rc_acked (mark_acked base lim cs ! i)"
    show "\<exists>k win. (peer, encode (Ack k win)) \<in> A \<and> i < unat k"
    proof (cases "base \<le> i \<and> i < lim")
      case True
      with lim ack show ?thesis by auto
    next
      case False
      with i a l n inv show ?thesis by (auto simp: window_inv_def acked_by_def)
    qed
  qed
  ultimately show ?thesis
    using inv l n by (auto simp: window_inv_def)
qed

lemma advance_base_bounds:
  "base \<le> advance_base cs base \<and> (base \<le> length cs \<longrightarrow> advance_base cs base \<le> length cs) \<and>
   (\<forall>i. base \<le> i \<and> i < advance_base cs base \<longrightarrow> rc_acked (cs ! i)) \<and>
   (advance_base cs base < length cs \<longrightarrow> \<not> rc_acked (cs ! advance_base cs base))"
proof (induction cs base rule: advance_base.induct)
  case (1 cs base)
  show ?case
  proof (cases "base < length cs \<and> rc_acked (cs ! base)")
    case False
    then have "advance_base cs base = base" by (subst advance_base.simps) auto
    with False show ?thesis by auto
  next
    case True
    then have "advance_base cs base = advance_base cs (Suc base)" by (subst advance_base.simps) simp
    moreover have "rc_acked (cs ! i)" if "base \<le> i" "i < advance_base cs (Suc base)" for i
      using "1.IH" [OF True] True that by (cases "i = base") auto
    ultimately show ?thesis using "1.IH" [OF True] True by auto
  qed
qed

lemma advance_base_window:
  "window_inv A peer W cs base \<Longrightarrow> window_inv A peer W cs (advance_base cs base)"
  using advance_base_bounds [of base cs] unfolding window_inv_def by (meson not_le_imp_less)

lemma reliable_feedback_effect:
  assumes "reliable_feedback lg peer pt (packet_of m) fb fbt cs base w = (rc, cs1, base1, w1)"
    and "msg_ok m" "(fb, encode m) \<in> A"
    and inv: "window_inv A peer W cs base" and P: "wires_ok P peer cs"
  shows "window_inv A peer W cs1 base1 \<and> emits P w w1 \<and> base \<le> base1"
proof (cases "fb = peer")
  case False
  with assms show ?thesis by (auto simp: reliable_feedback_def)
next
  case True
  show ?thesis
  proof (cases m)
    case (Ack k win)
    let ?cs = "mark_acked base (min (length cs) (unat k)) cs"
    have "reliable_feedback lg peer pt (packet_of (Ack k win)) peer fbt cs base w
        = (0, ?cs, advance_base ?cs base, w)"
      by (auto simp: reliable_feedback_def Let_def min_def not_less intro: arg_cong)
    with assms(1) Ack True have "cs1 = ?cs \<and> base1 = advance_base ?cs base \<and> w1 = w"
      by (simp only: prod.inject) blast
    moreover have "window_inv A peer W ?cs base"
      using mark_acked_window [OF inv, of k win] assms(3) True Ack by blast
    ultimately show ?thesis
      using advance_base_window advance_base_bounds [of base ?cs] by simp
  next
    case (Nack k win)
    show ?thesis
    proof (cases "unat k < length cs \<and> \<not> rc_acked (cs ! unat k)")
      case False
      with assms Nack True show ?thesis by (auto simp: reliable_feedback_def Let_def)
    next
      case go: True
      obtain r c w2 where snd: "send_reliable_chunk lg peer pt (cs ! unat k) ''DATA_TRANSFER''
          ''RETRANSMIT_DATA'' w = (r, c, w2)" by (metis prod_cases3)
      with assms(1) Nack True go have r: "cs1 = cs[unat k := c]" "base1 = base" "w1 = w2"
        by (simp_all add: reliable_feedback_def Let_def)
      have "P (peer, rc_wire (cs ! unat k))" using wires_ok_nth [OF P] go by blast
      from send_reliable_chunk_effect [OF snd, of P, OF this] r
      show ?thesis using window_inv_fixed [OF fixed_part_update inv] by simp
    qed
  qed (use assms True in \<open>auto simp: reliable_feedback_def Let_def\<close>)
qed

section \<open>The loop\<close>

definition rel_inv ::
  "(sockaddr_in \<times> byte list) set \<Rightarrow> sockaddr_in \<Rightarrow> byte list list \<Rightarrow> rel_state \<Rightarrow> bool" where
  "rel_inv A peer W st \<longleftrightarrow> window_inv A peer W (rs_chunks st) (rs_base st) \<and> rs_next st \<le> length (rs_chunks st)"

lemma rel_inv_lengths:
  "rel_inv A peer W st \<Longrightarrow> length (rs_chunks st) = length W \<and> rs_base st \<le> length W \<and> rs_next st \<le> length W"
  by (auto simp: rel_inv_def window_inv_def)

lemma window_wires_ok:
  "window_inv A peer W cs base \<Longrightarrow> wires_ok (\<lambda>x. fst x = peer \<and> snd x \<in> set W) peer cs"
  by (auto simp: window_inv_def wires_ok_map)

lemma reliable_iteration_effect:
  assumes it: "reliable_iteration lg peer pt win tmo st w = (rc, st1, w1)"
    and inv: "rel_inv A peer W st" and A: "set (arrivals (w_net w)) \<subseteq> A"
  shows "rel_inv A peer W st1 \<and> emits (\<lambda>x. fst x = peer \<and> snd x \<in> set W) w w1 \<and>
         rs_base st \<le> rs_base st1"
proof -
  let ?P = "\<lambda>x. fst x = peer \<and> snd x \<in> set W"
  obtain r cs "next" wa where fill: "reliable_fill lg peer pt win (rs_base st) (rs_chunks st)
      (rs_next st) w = (r, cs, next, wa)" by (metis prod_cases4)
  from inv have wi: "window_inv A peer W (rs_chunks st) (rs_base st)" by (simp add: rel_inv_def)
  from reliable_fill_effect [OF fill window_wires_ok [OF wi]]
  have f: "map fixed_part cs = map fixed_part (rs_chunks st)" "emits ?P w wa"
    "next \<le> max (rs_next st) (min (length (rs_chunks st)) (rs_base st + win))" by auto
  have wi1: "window_inv A peer W cs (rs_base st)" by (rule window_inv_fixed [OF f(1) wi])
  have next_le: "next \<le> length W" using f(3) rel_inv_lengths [OF inv] by linarith
  have len: "length cs = length W" using wi1 by (auto simp: window_inv_def)
  show ?thesis
  proof (cases "r = 0")
    case False
    with it fill have "st1 = \<lparr>rs_chunks = cs, rs_base = rs_base st, rs_next = next\<rparr>" "w1 = wa"
      by (simp_all add: reliable_iteration_def)
    with wi1 f(2) next_le len show ?thesis by (simp add: rel_inv_def)
  next
    case r: True
    obtain rr wb where rcv: "server_recv_logged_timeout lg ''DATA_TRANSFER'' ''RECV_FEEDBACK'' 64 80 False wa
        = (rr, wb)" by fastforce
    have eb: "emits ?P w wb" using f(2) server_recv_emits [OF rcv] by (rule emits_trans)
    obtain r2 cs2 base2 wc where fb: "(case rr of RecvFailed \<Rightarrow> (-1, cs, rs_base st, wb)
        | RecvSilent \<Rightarrow> (0, cs, rs_base st, wb)
        | RecvOk packet fb_peer fb_text \<Rightarrow>
            reliable_feedback lg peer pt packet fb_peer fb_text cs (rs_base st) wb) = (r2, cs2, base2, wc)"
      by (metis prod_cases4)
    have g: "window_inv A peer W cs2 base2 \<and> emits ?P wb wc \<and> rs_base st \<le> base2"
    proof (cases rr)
      case (RecvOk p fp ft)
      from server_recv_msg_ok [OF rcv [unfolded RecvOk]]
      have m: "msg_ok (message_of p)" "p = packet_of (message_of p)" by auto
      have "(fp, encode (message_of p)) \<in> A"
        using server_recv_arrivals [OF rcv [unfolded RecvOk]] emits_arrivals [OF f(2)] A by auto
      moreover have "reliable_feedback lg peer pt (packet_of (message_of p)) fp ft cs (rs_base st) wb
          = (r2, cs2, base2, wc)"
        using fb RecvOk m(2) by simp
      ultimately show ?thesis
        using reliable_feedback_effect m(1) wi1 window_wires_ok [OF wi1] by blast
    qed (use fb wi1 in auto)
    have ec: "emits ?P w wc" using eb g by (blast intro: emits_trans)
    have len2: "length cs2 = length W" using g by (auto simp: window_inv_def)
    show ?thesis
    proof (cases "r2 = 0")
      case False
      with it fill r rcv fb have "st1 = \<lparr>rs_chunks = cs2, rs_base = base2, rs_next = next\<rparr>" "w1 = wc"
        by (auto simp: reliable_iteration_def)
      with g ec next_le len2 show ?thesis by (simp add: rel_inv_def)
    next
      case r2: True
      obtain r3 cs3 wd where ret: "reliable_retransmit lg peer pt tmo base2 next cs2 wc = (r3, cs3, wd)"
        by (metis prod_cases3)
      with it fill r rcv fb r2 have s: "st1 = \<lparr>rs_chunks = cs3, rs_base = base2, rs_next = next\<rparr>" "w1 = wd"
        by (simp_all add: reliable_iteration_def)
      from g have g2: "window_inv A peer W cs2 base2" by simp
      from reliable_retransmit_effect [OF ret window_wires_ok [OF g2]] next_le len2
      have h: "map fixed_part cs3 = map fixed_part cs2" "emits ?P wc wd" by auto
      have "window_inv A peer W cs3 base2" by (rule window_inv_fixed [OF h(1) g2])
      moreover from this have "length cs3 = length W" by (auto simp: window_inv_def)
      moreover have "emits ?P w wd" using ec h(2) by (rule emits_trans)
      ultimately show ?thesis using s g next_le by (simp add: rel_inv_def)
    qed
  qed
qed

lemma read_stop_sticky: "read_stop w = (True, w1) \<Longrightarrow> read_stop w1 = (True, w1)"
  by (auto simp: read_stop_def split: option.splits nat.splits)

lemma reliable_loop_effect:
  "reliable_loop fuel lg peer pt win tmo st w = Some (rc, st1, w1) \<Longrightarrow> rel_inv A peer W st \<Longrightarrow>
   set (arrivals (w_net w)) \<subseteq> A \<Longrightarrow>
   rel_inv A peer W st1 \<and> emits (\<lambda>x. fst x = peer \<and> snd x \<in> set W) w w1 \<and>
   (rc = 0 \<longrightarrow> length W \<le> rs_base st1 \<or> fst (read_stop w1))"
proof (induction fuel arbitrary: st w)
  case (Suc fuel)
  obtain stop w2 where stop: "read_stop w = (stop, w2)" by fastforce
  have e2: "emits (\<lambda>x. fst x = peer \<and> snd x \<in> set W) w w2" using stop by (rule read_stop_emits)
  show ?case
  proof (cases "\<not> stop \<and> rs_base st < length (rs_chunks st)")
    case False
    with Suc.prems(1) stop have "rc = 0" "st1 = st" "w1 = w2" by auto
    with False Suc.prems(2) e2 stop read_stop_sticky [of w w2] rel_inv_lengths [OF Suc.prems(2)]
    show ?thesis by auto
  next
    case True
    obtain r st2 w3 where it: "reliable_iteration lg peer pt win tmo st w2 = (r, st2, w3)"
      by (metis prod_cases3)
    have A2: "set (arrivals (w_net w2)) \<subseteq> A" using Suc.prems(3) emits_arrivals [OF e2] by auto
    from reliable_iteration_effect [OF it Suc.prems(2) A2]
    have eff: "rel_inv A peer W st2" "emits (\<lambda>x. fst x = peer \<and> snd x \<in> set W) w w3"
      using e2 by (auto intro: emits_trans)
    show ?thesis
    proof (cases "r = 0")
      case False
      with Suc.prems(1) stop True it eff show ?thesis by auto
    next
      case r: True
      with Suc.prems(1) stop True it
      have rec: "reliable_loop fuel lg peer pt win tmo st2 w3 = Some (rc, st1, w1)" by simp
      have "set (arrivals (w_net w3)) \<subseteq> A" using Suc.prems(3) emits_arrivals [OF eff(2)] by auto
      from Suc.IH [OF rec eff(1) this] eff(2) show ?thesis by (auto intro: emits_trans)
    qed
  qed
qed simp

section \<open>Loading the chunks\<close>

lemma malloc_ok_emits: "malloc_ok w = (b, w1) \<Longrightarrow> emits P w w1 \<and> w_net w1 = w_net w"
  by (auto simp: malloc_ok_def split: prod.splits intro: emits_same)

lemma load_chunks_loop_effect:
  "load_chunks_loop loss dup reorder blocks count cap acc w = (r, w1) \<Longrightarrow>
   (\<And>d. d \<in> set blocks \<Longrightarrow> length d \<le> 1000) \<Longrightarrow>
   emits P w w1 \<and> w_net w1 = w_net w \<and>
   (\<forall>cs. r = Some cs \<longrightarrow>
      map rc_wire cs = map rc_wire acc @ map encode (data_messages (word_of_nat count) blocks) \<and>
      (\<forall>c \<in> set cs. c \<in> set acc \<or> \<not> rc_acked c))"
proof (induction loss dup reorder blocks count cap acc w rule: load_chunks_loop.induct)
  case (2 loss dup reorder data blocks count cap acc w)
  obtain ok w2 cap1 where al: "(if count = cap
       then (let (ok, w') = malloc_ok w in (ok, w', if cap \<noteq> 0 then cap * 2 else 32))
       else (True, w, cap)) = (ok, w2, cap1)"
    by (metis prod_cases3)
  have e2: "emits P w w2 \<and> w_net w2 = w_net w"
    using al malloc_ok_emits [of w _ _ P] by (auto split: if_splits prod.splits)
  show ?case
  proof (cases ok)
    case False
    with "2.prems"(1) al e2 show ?thesis by auto
  next
    case True
    have wire: "build_data_packet (word_of_nat count) (Some data) (word_of_nat (length data))
        (Some PROTOCOL_MAX_DATAGRAM) = Some (encode (Data (word_of_nat count) data))"
      using "2.prems"(2) [of data] by (subst build_data_packet_eq) (simp_all add: protocol_sizes)
    let ?c = "\<lparr>rc_packet_id = word_of_nat count,
                         rc_payload_length = word_of_nat (length data),
                         rc_wire = encode (Data (word_of_nat count) data), rc_acked = False, rc_send_count = 0,
                         rc_drop_first_send = packet_id_list_contains loss (word_of_nat count),
                         rc_dup_first_send = packet_id_list_contains dup (word_of_nat count),
                         rc_reorder_first_send = packet_id_list_contains reorder (word_of_nat count),
                         rc_reorder_pending = False, rc_last_send = Timespec 0 0\<rparr>"
    have rec: "load_chunks_loop loss dup reorder blocks (Suc count) cap1 (acc @ [?c]) w2 = (r, w1)"
      using "2.prems"(1) True by (simp add: al wire del: opaque)
    have "emits P w2 w1 \<and> w_net w1 = w_net w2 \<and> (\<forall>cs. r = Some cs \<longrightarrow>
      map rc_wire cs = map rc_wire (acc @ [?c]) @ map encode (data_messages (word_of_nat (Suc count)) blocks) \<and>
      (\<forall>c \<in> set cs. c \<in> set (acc @ [?c]) \<or> \<not> rc_acked c))"
      using "2.IH" [OF al [symmetric] refl refl _ wire rec] True "2.prems"(2) by simp
    then have h: "emits P w2 w1" "w_net w1 = w_net w2" and
      cs: "\<And>cs. r = Some cs \<Longrightarrow>
        map rc_wire cs = map rc_wire (acc @ [?c]) @ map encode (data_messages (word_of_nat (Suc count)) blocks) \<and>
        (\<forall>c \<in> set cs. c \<in> set (acc @ [?c]) \<or> \<not> rc_acked c)"
      by blast+
    have "emits P w w1" using e2 h(1) by (blast intro: emits_trans)
    moreover have "map rc_wire cs = map rc_wire acc @ map encode (data_messages (word_of_nat count) (data # blocks)) \<and>
        (\<forall>c \<in> set cs. c \<in> set acc \<or> \<not> rc_acked c)" if "r = Some cs" for cs
      using cs [OF that] by (simp add: add.commute del: opaque) fastforce
    ultimately show ?thesis using e2 h(2) by simp
  qed
qed auto

lemma load_reliable_chunks_effect:
  assumes "load_reliable_chunks path w = (r, w1)"
  shows "emits P w w1 \<and> w_net w1 = w_net w \<and>
    (\<forall>cs. r = Some cs \<longrightarrow> (\<exists>f. w_fs w path = Some f \<and>
       rel_inv A peer (map encode (data_messages 0 (chunks PROTOCOL_DATA_CHUNK_SIZE (f_data f))))
         \<lparr>rs_chunks = cs, rs_base = 0, rs_next = 0\<rparr>))"
proof (cases "w_fs w path")
  case None
  with assms show ?thesis by (auto simp: load_reliable_chunks_def)
next
  case (Some f)
  let ?loss = "parse_packet_id_list (getenv w ''UDP_SECURE_RELIABLE_LOSS_IDS'')"
  let ?dup = "parse_packet_id_list (getenv w ''UDP_SECURE_RELIABLE_DUP_IDS'')"
  let ?reorder = "parse_packet_id_list (getenv w ''UDP_SECURE_RELIABLE_REORDER_IDS'')"
  have "load_chunks_loop ?loss ?dup ?reorder (chunks PROTOCOL_DATA_CHUNK_SIZE (f_data f)) 0 0 [] w = (r, w1)"
    using assms Some by (simp add: load_reliable_chunks_def Let_def fread_blocks_def)
  from load_chunks_loop_effect [OF this, of P]
  have eff: "emits P w w1" "w_net w1 = w_net w"
    and cs: "r = Some cs \<Longrightarrow>
      map rc_wire cs = map encode (data_messages 0 (chunks PROTOCOL_DATA_CHUNK_SIZE (f_data f))) \<and>
      (\<forall>c \<in> set cs. \<not> rc_acked c)" for cs
    by (auto simp: protocol_sizes chunks_bounds)
  have "rel_inv A peer (map encode (data_messages 0 (chunks PROTOCOL_DATA_CHUNK_SIZE (f_data f))))
      \<lparr>rs_chunks = cs, rs_base = 0, rs_next = 0\<rparr>" if "r = Some cs" for cs
    using cs [OF that] by (simp add: rel_inv_def window_inv_def acked_by_def)
  with eff Some show ?thesis by blast
qed

lemma send_terminates_emits:
  "send_terminates lg peer pt wire k w = (rc, w1) \<Longrightarrow> P (peer, wire) \<Longrightarrow> emits P w w1"
proof (induction lg peer pt wire k w arbitrary: rc w1 rule: send_terminates.induct)
  case (1 lg peer pt wire k w)
  note unf = send_terminates.simps [of lg peer pt wire k w]
  let ?snd = "server_send_logged lg peer pt (pkt PKT_TERMINATE) wire 0 (word_of_nat PROTOCOL_DIGEST_SIZE)
     0 0 (int k) ''VERIFY'' (if k = 0 then ''SEND_TERMINATE'' else ''RETRANSMIT_TERMINATE'') w"
  obtain r w2 where snd: "?snd = (r, w2)" by fastforce
  have e2: "emits P w w2" by (rule server_send_logged_emits [OF snd]) (rule "1.prems"(2))
  show ?case
  proof (cases "k < 3 \<and> r = 0")
    case False
    with "1.prems"(1) unf snd e2 show ?thesis by (auto split: if_splits)
  next
    case True
    with "1.prems"(1) unf snd have "send_terminates lg peer pt wire (Suc k) w2 = (rc, w1)" by simp
    with "1.IH" [OF _ snd [symmetric]] True "1.prems"(2) e2 show ?thesis by (auto intro: emits_trans)
  qed
qed

section \<open>The reliable transfer sends its digest only when everything is acknowledged\<close>

definition all_acked :: "(sockaddr_in \<times> byte list) set \<Rightarrow> sockaddr_in \<Rightarrow> nat \<Rightarrow> bool" where
  "all_acked A peer n \<longleftrightarrow> n = 0 \<or> (\<exists>k win. (peer, encode (Ack k win)) \<in> A \<and> n \<le> unat k)"

lemma rel_inv_all_acked:
  assumes "rel_inv A peer W st" "length W \<le> rs_base st"
  shows "all_acked A peer (length W)"
proof (cases "length W = 0")
  case False
  from assms have "\<forall>i < length W. rc_acked (rs_chunks st ! i)" "length (rs_chunks st) = length W"
    "acked_by A peer (rs_chunks st)"
    by (auto simp: rel_inv_def window_inv_def)
  with False obtain k win where "(peer, encode (Ack k win)) \<in> A" "length W - 1 < unat k"
    unfolding acked_by_def by (metis diff_less length_0_conv length_greater_0_conv zero_less_one)
  moreover from this have "length W \<le> unat k" by simp
  ultimately show ?thesis unfolding all_acked_def by blast
qed (simp add: all_acked_def)

lemma transfer_reliable_emits:
  assumes run: "server_transfer_file_reliable fuel lg peer pt path digest w = Some (rc, w1)"
    and digest: "length digest = 20"
    and f: "w_fs w path = Some f"
    and W: "W = map encode (data_messages 0 (chunks PROTOCOL_DATA_CHUNK_SIZE (f_data f)))"
  shows "emits (\<lambda>x. fst x = peer \<and> (snd x \<in> set W \<or> snd x = encode (Terminate digest) \<and>
           all_acked (set (arrivals (w_net w))) peer (length W))) w w1"
    (is "emits ?P w w1")
proof -
  let ?A = "set (arrivals (w_net w))"
  obtain r w2 where ld: "load_reliable_chunks path w = (r, w2)" by fastforce
  note load = load_reliable_chunks_effect [OF ld, of ?P ?A peer]
  show ?thesis
  proof (cases r)
    case None
    with run ld load show ?thesis by (auto simp: server_transfer_file_reliable_def intro: emits_log)
  next
    case (Some cs)
    with load f W have inv: "rel_inv ?A peer W \<lparr>rs_chunks = cs, rs_base = 0, rs_next = 0\<rparr>" by auto
    have A2: "set (arrivals (w_net w2)) \<subseteq> ?A" and e2: "emits ?P w w2" using load by auto
    let ?loop = "reliable_loop fuel lg peer pt (nat (env_reliable_window_size w)) (env_reliable_timeout_ms w)
        \<lparr>rs_chunks = cs, rs_base = 0, rs_next = 0\<rparr> w2"
    obtain rl st w3 where loop: "?loop = Some (rl, st, w3)"
      using run ld Some
      by (auto simp: server_transfer_file_reliable_def Let_def split: option.splits)
    from reliable_loop_effect [OF loop inv A2]
    have l: "rel_inv ?A peer W st" "rl = 0 \<Longrightarrow> length W \<le> rs_base st \<or> fst (read_stop w3)"
      and "emits (\<lambda>x. fst x = peer \<and> snd x \<in> set W) w2 w3" by auto
    from this(3) have "emits ?P w2 w3" by (rule emits_mono) auto
    with e2 have e3: "emits ?P w w3" by (rule emits_trans)
    obtain stop w4 where stop: "read_stop w3 = (stop, w4)" by fastforce
    have e4: "emits ?P w w4" using e3 read_stop_emits [OF stop] by (rule emits_trans)
    have wire: "build_terminate_packet (Some digest) (Some PROTOCOL_MAX_DATAGRAM) = Some (encode (Terminate digest))"
      using build_terminate_packet_eq [OF digest] by (simp add: protocol_sizes)
    obtain r5 w5 where tmn: "send_terminates lg peer pt (encode (Terminate digest)) 0 w4 = (r5, w5)"
      by fastforce
    show ?thesis
    proof (cases "rl = 0 \<and> \<not> stop")
      case False
      with run ld Some loop stop e3 e4 show ?thesis
        by (auto simp: server_transfer_file_reliable_def Let_def split: if_splits)
    next
      case True
      with l stop have "length W \<le> rs_base st" by simp
      from rel_inv_all_acked [OF l(1) this]
      have "?P (peer, encode (Terminate digest))" by simp
      from send_terminates_emits [OF tmn, of ?P, OF this] have "emits ?P w w5"
        by (rule emits_trans [OF e4])
      with True run ld Some loop stop wire tmn show ?thesis
        by (auto simp: server_transfer_file_reliable_def Let_def simp del: opaque split: if_splits
            intro: emits_log)
    qed
  qed
qed

section \<open>Authentication\<close>

lemma password_matches_iff:
  "length x \<le> 255 \<Longrightarrow> password_matches (packet_of (PassResp x)) password \<longleftrightarrow> x = bytes_of_string password"
  by (auto simp: password_matches_def payload_bytes_def unat_small)

text \<open>What the server may send before it has seen the password.\<close>

definition auth_reply :: "sockaddr_in \<Rightarrow> string \<Rightarrow> world \<Rightarrow> sockaddr_in \<times> byte list \<Rightarrow> bool" where
  "auth_reply peer password w x \<longleftrightarrow>
     x = (peer, encode PassReq) \<or> x = (peer, encode Reject) \<or>
     (x = (peer, encode PassAccept) \<and>
      (peer, encode (PassResp (bytes_of_string password))) \<in> set (arrivals (w_net w)))"

lemma auth_reply_earlier: "emits P w w1 \<Longrightarrow> auth_reply peer pw w1 x \<Longrightarrow> auth_reply peer pw w x"
  using emits_arrivals unfolding auth_reply_def by blast

lemma control_wire:
  "build_control_packet (pkt PKT_PASS_REQ) (Some PROTOCOL_MAX_DATAGRAM) = Some (encode PassReq)"
  "build_control_packet (pkt PKT_PASS_ACCEPT) (Some PROTOCOL_MAX_DATAGRAM) = Some (encode PassAccept)"
  "build_control_packet (pkt PKT_REJECT) (Some PROTOCOL_MAX_DATAGRAM) = Some (encode Reject)"
  "build_control_packet (pkt PKT_JOIN_REQ) (Some PROTOCOL_MAX_DATAGRAM) = Some (encode Join)"
  by (rule build_control_packet_eq; simp add: protocol_sizes)+

lemma server_send_control_emits:
  assumes "server_send_control lg peer pt t st ev w = (rc, w1)"
    and "build_control_packet t (Some PROTOCOL_MAX_DATAGRAM) = Some wire"
  shows "P (peer, wire) \<Longrightarrow> emits P w w1"
    and "w_sent w1 = (if rc = 0 then w_sent w @ [(peer, wire)] else w_sent w)"
    and "rc = 0 \<or> rc = -1"
  using assms server_send_logged_emits [of lg peer pt t wire 0 0 0 0 0 st ev w rc w1 P]
    server_send_logged_rc [of lg peer pt t wire 0 0 0 0 0 st ev w]
    server_send_logged_frame(9) [of lg peer pt t wire 0 0 0 0 0 st ev w]
  by (auto simp: server_send_control_def split: if_splits)

text \<open>How the loop ends: the result, the replies sent and how many, and the verdict printed.\<close>

definition auth_result :: "Logger \<Rightarrow> sockaddr_in \<Rightarrow> string \<Rightarrow> nat \<Rightarrow> world \<Rightarrow> (int + bool) \<Rightarrow> world \<Rightarrow> bool" where
  "auth_result lg peer password left w r w1 \<longleftrightarrow>
     (\<exists>w2. emits (auth_reply peer password w) w w2 \<and> length (w_sent w2) \<le> length (w_sent w) + left \<and>
       (case r of
          Inl status \<Rightarrow> status = 1 \<and> (\<exists>reason. w1 = server_finish lg ''ABORT'' reason w2)
        | Inr authed \<Rightarrow> w1 = w2 \<and>
            (authed \<longrightarrow> (peer, encode (PassResp (bytes_of_string password))) \<in> set (arrivals (w_net w)))))"

lemma auth_resultI:
  assumes "emits (auth_reply peer password w) w w2" "length (w_sent w2) \<le> length (w_sent w) + left"
  shows "auth_result lg peer password left w (Inl 1) (server_finish lg ''ABORT'' reason w2)"
    and "auth_result lg peer password left w (Inr False) w2"
    and "(peer, encode (PassResp (bytes_of_string password))) \<in> set (arrivals (w_net w)) \<Longrightarrow>
         auth_result lg peer password left w (Inr True) w2"
  using assms unfolding auth_result_def by auto

lemma auth_result_prepend:
  assumes "auth_result lg peer password m w1 r w2" "emits (auth_reply peer password w) w w1"
    "length (w_sent w1) + m \<le> length (w_sent w) + n"
  shows "auth_result lg peer password n w r w2"
proof -
  from assms(1) obtain w3 where w3: "emits (auth_reply peer password w1) w1 w3"
      "length (w_sent w3) \<le> length (w_sent w1) + m"
    and r: "case r of
          Inl status \<Rightarrow> status = 1 \<and> (\<exists>reason. w2 = server_finish lg ''ABORT'' reason w3)
        | Inr authed \<Rightarrow> w2 = w3 \<and>
            (authed \<longrightarrow> (peer, encode (PassResp (bytes_of_string password))) \<in> set (arrivals (w_net w1)))"
    unfolding auth_result_def by blast
  have "emits (auth_reply peer password w) w1 w3"
    using w3(1) auth_reply_earlier [OF assms(2)] by (rule emits_mono)
  with assms(2) have "emits (auth_reply peer password w) w w3" by (rule emits_trans)
  with w3(2) r assms(3) emits_arrivals [OF assms(2)] show ?thesis
    unfolding auth_result_def by (intro exI [of _ w3]) (auto split: sum.splits)
qed

lemma server_auth_loop_result:
  "server_auth_loop lg peer pt pw att w = (r, w1) \<Longrightarrow> auth_result lg peer pw (4 - att) w r w1"
proof (induction lg peer pt pw att w arbitrary: r w1 rule: server_auth_loop.induct)
  case (1 lg peer pt pw att w)
  note unf = server_auth_loop.simps [of lg peer pt pw att w]
  let ?P = "auth_reply peer pw w"
  show ?case
  proof (cases "att > 3")
    case True
    with "1.prems" unf show ?thesis by (auto intro: auth_resultI)
  next
    case att: False
    obtain stop wa where stop: "read_stop w = (stop, wa)" by fastforce
    have ea: "emits ?P w wa" "w_sent wa = w_sent w" "w_net wa = w_net w"
      using read_stop_emits [OF stop] read_stop_frame [of w] stop by auto
    show ?thesis
    proof (cases stop)
      case True
      with "1.prems" unf att stop ea show ?thesis by (auto intro: auth_resultI)
    next
      case nostop: False
      obtain rr wb where rcv: "server_recv_expected lg ''AUTH'' ''RECV_PASS_RESP'' 64 wa = (rr, wb)" by fastforce
      note rcv' = rcv [unfolded server_recv_expected_def]
      have eb: "emits ?P w wb" using ea(1) server_recv_emits [OF rcv'] by (rule emits_trans)
      have sb: "w_sent wb = w_sent w" using server_recv_frame(7) rcv' ea(2) by (metis snd_conv)
      show ?thesis
      proof (cases rr)
        case (RecvOk p ap apt)
        from server_recv_msg_ok [OF rcv' [unfolded RecvOk]]
        obtain m where m: "msg_ok m" "p = packet_of m" "m = message_of p" by blast
        have arr: "(ap, encode m) \<in> set (arrivals (w_net w))"
          using server_recv_arrivals [OF rcv' [unfolded RecvOk]] ea(3) m(3) by simp
        show ?thesis
        proof (cases "ap = peer")
          case other: False
          let ?wl = "logger_write lg (Some ((server_log_defaults ''WARN'' ''UNEXPECTED_PEER'' ''AUTH''
              ''ignored packet from another peer'')\<lparr>le_peer := Some apt\<rparr>)) wb"
          from "1.prems" unf att stop nostop rcv RecvOk other
          have rec: "server_auth_loop lg peer pt pw att ?wl = (r, w1)" by simp
          have "\<not> is_same_peer peer ap" using other by simp
          from "1.IH"(1) [OF att stop [symmetric] nostop rcv [symmetric] RecvOk this rec]
          show ?thesis
            by (rule auth_result_prepend) (use eb sb in \<open>auto intro: emits_log simp: world_simps\<close>)
        next
          case ap: True
          show ?thesis
          proof (cases "\<exists>x. m = PassResp x")
            case False
            then have "p_type p \<noteq> pkt PKT_PASS_RESP" using m(2) by (cases m) auto
            with "1.prems" unf att stop nostop rcv RecvOk ap
            have "(r, w1) = (Inl 1, server_finish lg ''ABORT'' ''expected PASS_RESP'' wb)" by simp
            with eb sb show ?thesis by (auto intro: auth_resultI)
          next
            case True
            then obtain x where x: "m = PassResp x" by blast
            have ty: "p_type p = pkt PKT_PASS_RESP" using m(2) x by simp
            have mt: "password_matches p pw \<longleftrightarrow> x = bytes_of_string pw"
              using password_matches_iff [of x pw] m(1,2) x by simp
            show ?thesis
            proof (cases "x = bytes_of_string pw")
              case right: True
              let ?wl = "logger_write lg (Some ((server_log_defaults ''AUTH'' ''AUTH_SUCCESS'' ''AUTH''
                    ''password accepted'')\<lparr>le_peer := Some pt, le_attempt := int att\<rparr>)) wb"
              obtain rc wc where snd: "server_send_control lg peer pt (pkt PKT_PASS_ACCEPT) ''AUTH''
                    ''SEND_PASS_ACCEPT'' ?wl = (rc, wc)" by fastforce
              have seen: "(peer, encode (PassResp (bytes_of_string pw))) \<in> set (arrivals (w_net w))"
                using arr ap x right by simp
              then have "?P (peer, encode PassAccept)" by (simp add: auth_reply_def)
              from server_send_control_emits(1) [OF snd control_wire(2), of ?P, OF this]
              have ec: "emits ?P w wc" using eb by (blast intro: emits_trans emits_log)
              have sc: "length (w_sent wc) \<le> length (w_sent w) + (4 - att)"
                using server_send_control_emits(2) [OF snd control_wire(2)] sb att by (auto simp: world_simps)
              have "(r, w1) = (if rc \<noteq> 0 then (Inl 1, server_finish lg ''ABORT'' ''failed to send PASS_ACCEPT'' wc)
                  else (Inr True, wc))"
                using "1.prems" unf att stop nostop rcv RecvOk ap ty mt right snd
                by (simp add: Let_def del: pkt.simps cong: if_cong)
              with ec sc seen show ?thesis by (auto intro: auth_resultI split: if_splits)
            next
              case wrong: False
              let ?wl = "logger_write lg (Some ((server_log_defaults ''AUTH'' ''AUTH_FAIL'' ''AUTH''
                    ''password rejected'')\<lparr>le_peer := Some pt, le_attempt := int att\<rparr>)) wb"
              have el: "emits ?P w ?wl" using eb by (rule emits_log)
              show ?thesis
              proof (cases "att = 3")
                case last: True
                obtain rc wc where snd: "server_send_control lg peer pt (pkt PKT_REJECT) ''AUTH''
                    ''SEND_REJECT'' ?wl = (rc, wc)" by fastforce
                have "?P (peer, encode Reject)" by (simp add: auth_reply_def)
                from server_send_control_emits(1) [OF snd control_wire(3), of ?P, OF this] el
                have ec: "emits ?P w wc" by (blast intro: emits_trans)
                have sc: "length (w_sent wc) \<le> length (w_sent w) + (4 - att)"
                  using server_send_control_emits(2) [OF snd control_wire(3)] sb att by (auto simp: world_simps)
                have "(r, w1) = (Inl 1, server_finish lg ''ABORT'' ''three password attempts failed'' wc)"
                  using "1.prems" unf att stop nostop rcv RecvOk ap ty mt wrong snd last
                  by (simp add: Let_def del: pkt.simps)
                with ec sc show ?thesis by (auto intro: auth_resultI)
              next
                case more: False
                obtain rc wc where snd: "server_send_control lg peer pt (pkt PKT_PASS_REQ) ''AUTH''
                    ''SEND_PASS_REQ'' ?wl = (rc, wc)" by fastforce
                have "?P (peer, encode PassReq)" by (simp add: auth_reply_def)
                from server_send_control_emits(1) [OF snd control_wire(1), of ?P, OF this] el
                have ec: "emits ?P w wc" by (blast intro: emits_trans)
                have sc: "length (w_sent wc) + (4 - Suc att) \<le> length (w_sent w) + (4 - att)"
                  using server_send_control_emits(2) [OF snd control_wire(1)] sb att by (auto simp: world_simps)
                have run: "(r, w1) = (if rc \<noteq> 0 then (Inl 1, server_finish lg ''ABORT'' ''failed to send PASS_REQ'' wc)
                    else server_auth_loop lg peer pt pw (Suc att) wc)"
                  using "1.prems" unf att stop nostop rcv RecvOk ap ty mt wrong snd more
                  by (simp add: Let_def del: pkt.simps cong: if_cong)
                show ?thesis
                proof (cases "rc = 0")
                  case False
                  with run ec sc show ?thesis by (auto intro: auth_resultI)
                next
                  case True
                  with run have rec: "server_auth_loop lg peer pt pw (Suc att) wc = (r, w1)" by simp
                  have "is_same_peer peer ap" "\<not> p_type p \<noteq> pkt PKT_PASS_RESP" "\<not> password_matches p pw"
                    using ap ty mt wrong by simp_all
                  from "1.IH"(2) [OF att stop [symmetric] nostop rcv [symmetric] RecvOk _ this(2,3) refl more
                      snd [symmetric] _ rec] True this(1)
                  have "auth_result lg peer pw (4 - Suc att) wc r w1" by simp
                  from auth_result_prepend [OF this ec sc] show ?thesis .
                qed
              qed
            qed
          qed
        qed
      next
        case RecvSilent
        with "1.prems" unf att stop nostop rcv eb sb show ?thesis by (auto intro: auth_resultI)
      next
        case RecvFailed
        with "1.prems" unf att stop nostop rcv eb sb show ?thesis by (auto intro: auth_resultI)
      qed
    qed
  qed
qed

section \<open>A whole session\<close>

lemma send_data_loop_emits:
  "send_data_loop lg peer pt blocks i tot w = (rc, i', tot', w1) \<Longrightarrow> (\<And>x. P (peer, x)) \<Longrightarrow> emits P w w1"
proof (induction blocks arbitrary: i tot w)
  case (Cons d blocks)
  obtain stop w2 where stop: "read_stop w = (stop, w2)" by fastforce
  have e2: "emits P w w2" using stop by (rule read_stop_emits)
  show ?case
  proof (cases "build_data_packet i (Some d) (word_of_nat (length d)) (Some PROTOCOL_MAX_DATAGRAM)")
    case None
    with Cons.prems(1) stop e2 show ?thesis by (auto split: if_splits)
  next
    case (Some wire)
    obtain r w3 where snd: "server_send_logged lg peer pt (pkt PKT_DATA) wire i
      (word_of_nat (length d)) 0 0 0 ''DATA_TRANSFER'' ''SEND_DATA'' w2 = (r, w3)" by fastforce
    have e3: "emits P w w3" using e2 server_send_logged_emits [OF snd, of P] Cons.prems(2)
      by (blast intro: emits_trans)
    show ?thesis
    proof (cases "stop \<or> r \<noteq> 0")
      case True
      with Cons.prems(1) stop Some snd e2 e3 show ?thesis by (auto simp del: pkt.simps split: if_splits)
    next
      case False
      with Cons.prems(1) stop Some snd
      have "send_data_loop lg peer pt blocks (i + 1) (tot + length d) w3 = (rc, i', tot', w1)"
        by (simp del: pkt.simps)
      from Cons.IH [OF this Cons.prems(2)] e3 show ?thesis by (blast intro: emits_trans)
    qed
  qed
qed simp

lemma server_transfer_file_emits:
  assumes "server_transfer_file lg peer pt path digest w = (rc, w1)" "length digest = 20" "\<And>x. P (peer, x)"
  shows "emits P w w1"
proof (cases "w_fs w path")
  case None
  with assms(1) show ?thesis by (auto simp: server_transfer_file_def intro: emits_log)
next
  case (Some f)
  let ?blocks = "chunks PROTOCOL_DATA_CHUNK_SIZE (f_data f)"
  obtain r i tot w2 where loop: "send_data_loop lg peer pt ?blocks 0 0 w = (r, i, tot, w2)"
    by (metis prod_cases4)
  have e2: "emits P w w2" using loop assms(3) by (rule send_data_loop_emits)
  have wire: "build_terminate_packet (Some digest) (Some PROTOCOL_MAX_DATAGRAM) = Some (encode (Terminate digest))"
    using build_terminate_packet_eq [OF assms(2)] by (simp add: protocol_sizes)
  obtain r2 w3 where snd: "server_send_logged lg peer pt (pkt PKT_TERMINATE) (encode (Terminate digest)) 0
      (word_of_nat PROTOCOL_DIGEST_SIZE) 0 0 0 ''VERIFY'' ''SEND_TERMINATE'' w2 = (r2, w3)" by fastforce
  have e3: "emits P w w3" using e2 server_send_logged_emits [OF snd, of P] assms(3) by (blast intro: emits_trans)
  show ?thesis
    using assms(1) e2 e3 Some
    by (auto simp: server_transfer_file_def fread_blocks_def loop wire snd simp del: opaque
        split: if_splits intro: emits_log)
qed

lemma server_transfer_reliable_emits:
  assumes run: "server_transfer_file_reliable fuel lg peer pt path digest w = Some (rc, w1)"
    and "length digest = 20" "\<And>x. P (peer, x)"
  shows "emits P w w1"
proof (cases "w_fs w path")
  case None
  then have "load_reliable_chunks path w = (None, w)" by (simp add: load_reliable_chunks_def)
  with run show ?thesis by (auto simp: server_transfer_file_reliable_def intro: emits_log)
next
  case (Some f)
  from transfer_reliable_emits [OF run assms(2) Some refl] show ?thesis
    by (rule emits_mono) (use assms(3) in auto)
qed

text \<open>Before the password has come from an address, it only gets \<open>PASS_REQ\<close> and \<open>REJECT\<close>.\<close>

definition guarded :: "string \<Rightarrow> world \<Rightarrow> sockaddr_in \<times> byte list \<Rightarrow> bool" where
  "guarded password w x \<longleftrightarrow>
     snd x = encode PassReq \<or> snd x = encode Reject \<or>
     (fst x, encode (PassResp (bytes_of_string password))) \<in> set (arrivals (w_net w))"

lemma guarded_earlier: "emits P w w1 \<Longrightarrow> guarded pw w1 x \<Longrightarrow> guarded pw w x"
  using emits_arrivals unfolding guarded_def by blast

lemma auth_reply_guarded: "auth_reply peer pw w x \<Longrightarrow> guarded pw w x"
  by (auto simp: auth_reply_def guarded_def simp del: opaque)

text \<open>A session ends by printing one verdict, with the exit status that goes with it.\<close>

definition session_end ::
  "Logger \<Rightarrow> (sockaddr_in \<times> byte list \<Rightarrow> bool) \<Rightarrow> world \<Rightarrow> int \<Rightarrow> world \<Rightarrow> bool" where
  "session_end lg P w status w1 \<longleftrightarrow>
     (\<exists>w2 reason. emits P w w2 \<and>
        ((status = 0 \<and> w1 = server_finish lg ''OK'' reason w2) \<or>
         (status = 1 \<and> w1 = server_finish lg ''ABORT'' reason w2)))"

lemma session_endI:
  "emits P w w2 \<Longrightarrow> session_end lg P w 0 (server_finish lg ''OK'' reason w2)"
  "emits P w w2 \<Longrightarrow> session_end lg P w 1 (server_finish lg ''ABORT'' reason w2)"
  unfolding session_end_def by blast+

lemma server_session_end:
  assumes run: "server_session fuel lg pw path digest rel w = Some (st, w1)" and dg: "length digest = 20"
  shows "session_end lg (guarded pw w) w st w1"
proof -
  let ?P = "guarded pw w"
  obtain rr wb where rcv: "server_recv_expected lg ''WAIT_JOIN_REQ'' ''RECV_JOIN_REQ'' 64 w = (rr, wb)"
    by fastforce
  have eb: "emits ?P w wb" using rcv [unfolded server_recv_expected_def] by (rule server_recv_emits)
  show ?thesis
  proof (cases "\<exists>p peer pt. rr = RecvOk p peer pt \<and> p_type p = pkt PKT_JOIN_REQ")
    case False
    then have "(st, w1) = (1, server_finish lg ''ABORT'' ''expected JOIN_REQ'' wb)"
      using run rcv by (cases rr) (auto simp: server_session_def simp del: pkt.simps)
    with eb show ?thesis by (auto intro: session_endI)
  next
    case True
    then obtain p peer pt where rr: "rr = RecvOk p peer pt" "p_type p = pkt PKT_JOIN_REQ" by blast
    obtain rc wc where snd: "server_send_control lg peer pt (pkt PKT_PASS_REQ) ''AUTH'' ''SEND_PASS_REQ'' wb
        = (rc, wc)" by fastforce
    have "?P (peer, encode PassReq)" by (simp add: guarded_def)
    from server_send_control_emits(1) [OF snd control_wire(1), of ?P, OF this]
    have ec: "emits ?P w wc" using eb by (blast intro: emits_trans)
    show ?thesis
    proof (cases "rc = 0")
      case False
      with run rcv rr snd have "(st, w1) = (1, server_finish lg ''ABORT'' ''failed to send PASS_REQ'' wc)"
        by (simp add: server_session_def del: pkt.simps)
      with ec show ?thesis by (auto intro: session_endI)
    next
      case rc: True
      obtain r wd where auth: "server_auth_loop lg peer pt pw 1 wc = (r, wd)" by fastforce
      from server_auth_loop_result [OF auth] obtain we where
        ee': "emits (auth_reply peer pw wc) wc we" and
        r: "case r of
          Inl status \<Rightarrow> status = 1 \<and> (\<exists>reason. wd = server_finish lg ''ABORT'' reason we)
        | Inr authed \<Rightarrow> wd = we \<and>
            (authed \<longrightarrow> (peer, encode (PassResp (bytes_of_string pw))) \<in> set (arrivals (w_net wc)))"
        unfolding auth_result_def by blast
      have ee: "emits ?P w we"
        using ec emits_mono [OF ee' guarded_earlier [OF ec auth_reply_guarded]] by (rule emits_trans)
      show ?thesis
      proof (cases r)
        case (Inl status)
        with run rcv rr snd rc auth r have "(st, w1) = (1, wd)" "\<exists>reason. wd = server_finish lg ''ABORT'' reason we"
          by (simp_all add: server_session_def del: pkt.simps)
        with ee show ?thesis by (auto intro: session_endI)
      next
        case (Inr authed)
        obtain giveup wf where stop: "(if authed then read_stop wd else (True, wd)) = (giveup, wf)" by fastforce
        have ef: "emits ?P w wf" using ee r Inr stop read_stop_emits [of we giveup wf ?P]
          by (auto split: if_splits intro: emits_trans)
        show ?thesis
        proof (cases giveup)
          case True
          with run rcv rr snd rc auth Inr stop
          have "(st, w1) = (1, server_finish lg ''ABORT'' ''server stopped before authentication completed'' wf)"
            by (simp add: server_session_def del: pkt.simps)
          with ef show ?thesis by (auto intro: session_endI)
        next
          case go: False
          then have "authed" using stop by (auto split: if_splits)
          with r Inr emits_arrivals [OF ec] have "?P (peer, x)" for x by (auto simp: guarded_def)
          note all = this
          let ?tr = "if rel then server_transfer_file_reliable fuel lg peer pt path digest wf
              else Some (server_transfer_file lg peer pt path digest wf)"
          obtain rc2 wg where tr: "?tr = Some (rc2, wg)"
            using run rcv rr snd rc auth Inr stop go
            by (cases ?tr) (auto simp: server_session_def simp del: pkt.simps)
          have "emits ?P wf wg"
            using tr server_transfer_reliable_emits [where P = ?P, OF _ dg all]
              server_transfer_file_emits [where P = ?P, OF _ dg all]
            by (auto split: if_splits)
          with ef have eg: "emits ?P w wg" by (rule emits_trans)
          have "(st, w1) = (if rc2 \<noteq> 0 then (1, server_finish lg ''ABORT'' ''file transfer failed'' wg)
              else (0, server_finish lg ''OK'' ''file sent and digest transmitted'' wg))"
            using run rcv rr snd rc auth Inr stop go tr
            by (simp add: server_session_def del: pkt.simps split: if_splits)
          with eg show ?thesis by (auto intro: session_endI split: if_splits)
        qed
      qed
    qed
  qed
qed

end
