(* ===== verification/UdpServerProgress.thy ===== *)
theory UdpServerProgress
  imports UdpServerFacts
begin

text \<open>
  What the reliable transfer does when the operating system cooperates: it ends
  once the peer has acknowledged every chunk, within as many rounds as
  acknowledgements arrive, and it transmits the chunks of a window in order.
\<close>

section \<open>The reliable transfer ends when it is acknowledged\<close>

text \<open>No send fails and no signal arrives; the receive script is untouched.\<close>

definition server_calm :: "world \<Rightarrow> bool" where
  "server_calm w \<longleftrightarrow> w_sendfault w = [] \<and> w_stop w = None"

definition calm_step :: "world \<Rightarrow> world \<Rightarrow> bool" where
  "calm_step w w1 \<longleftrightarrow> server_calm w1 \<and> w_net w1 = w_net w"

lemma calm_step_trans: "calm_step w w1 \<Longrightarrow> calm_step w1 w2 \<Longrightarrow> calm_step w w2"
  by (simp add: calm_step_def)

lemma calm_step_refl: "server_calm w \<Longrightarrow> calm_step w w"
  by (simp add: calm_step_def)

lemma calm_step_log: "calm_step w w1 \<Longrightarrow> calm_step w (logger_write lg e w1)"
  by (simp add: calm_step_def server_calm_def world_simps)

lemma calm_server_send:
  "server_calm w \<Longrightarrow> server_send_logged lg peer pt t wire pid len a win r st ev w = (rc, w1) \<Longrightarrow>
   rc = 0 \<and> calm_step w w1 \<and> w_sent w1 = w_sent w @ [(peer, wire)]"
  using server_send_logged_rc [of lg peer pt t wire pid len a win r st ev w]
    server_send_logged_frame [of lg peer pt t wire pid len a win r st ev w]
  by (simp add: server_calm_def calm_step_def)

lemma calm_clock: "server_calm w \<Longrightarrow> clock_gettime w = (t, w1) \<Longrightarrow> calm_step w w1 \<and> w_sent w1 = w_sent w"
  by (auto simp: clock_gettime_def calm_step_def server_calm_def)

text \<open>What the first transmission of a chunk puts on the wire, by its simulation flags.\<close>

definition first_sends :: "sockaddr_in \<Rightarrow> ReliableChunk \<Rightarrow> (sockaddr_in \<times> byte list) list" where
  "first_sends peer c =
     (if rc_drop_first_send c then []
      else if rc_dup_first_send c then [(peer, rc_wire c), (peer, rc_wire c)]
      else [(peer, rc_wire c)])"

lemma send_reliable_chunk_calm:
  assumes "send_reliable_chunk lg peer pt c state ev w = (rc, c1, w1)" "server_calm w"
  shows "rc = 0 \<and> calm_step w w1 \<and>
    (rc_send_count c = 0 \<longrightarrow>
       (if rc_reorder_first_send c
        then w_sent w1 = w_sent w \<and> c1 = c\<lparr>rc_reorder_first_send := False, rc_reorder_pending := True\<rparr>
        else w_sent w1 = w_sent w @ first_sends peer c \<and> rc_reorder_pending c1 = rc_reorder_pending c))"
proof -
  define r where "r = (if rc_send_count c > 0 then rc_send_count c - 1 else 0)"
  obtain r1 w2 where s1: "server_send_logged lg peer pt (pkt PKT_DATA) (rc_wire c) (rc_packet_id c)
      (rc_payload_length c) 0 0 r state ev w = (r1, w2)" by fastforce
  note c1 = calm_server_send [OF assms(2) s1]
  obtain now w3 where cl: "clock_gettime w2 = (now, w3)" by fastforce
  have calm2: "server_calm w2" using c1 by (simp add: calm_step_def)
  note c2 = calm_clock [OF calm2 cl]
  obtain r2 w4 where s2: "server_send_logged lg peer pt (pkt PKT_DATA) (rc_wire c) (rc_packet_id c)
      (rc_payload_length c) 0 0 r state ''SEND_DATA_DUPLICATE'' w3 = (r2, w4)" by fastforce
  have calm3: "server_calm w3" using c2 by (simp add: calm_step_def)
  note c3 = calm_server_send [OF calm3 s2]
  obtain now' w5 where cl0: "clock_gettime w = (now', w5)" by fastforce
  note c0 = calm_clock [OF assms(2) cl0]
  have steps: "calm_step w w3" "calm_step w w4" using c1 c2 c3 by (auto intro: calm_step_trans)
  note unf = assms(1) [unfolded send_reliable_chunk_def r_def [symmetric] Let_def s1 cl cl0 split_conv]
  consider (hold) "rc_send_count c = 0 \<and> rc_reorder_first_send c"
    | (drop) "\<not> (rc_send_count c = 0 \<and> rc_reorder_first_send c)" "rc_send_count c = 0 \<and> rc_drop_first_send c"
    | (send) "\<not> (rc_send_count c = 0 \<and> rc_reorder_first_send c)" "\<not> (rc_send_count c = 0 \<and> rc_drop_first_send c)"
    by blast
  then show ?thesis
  proof cases
    case hold
    with unf assms(2) show ?thesis by (auto simp: world_simps intro: calm_step_log calm_step_refl)
  next
    case drop
    with unf c0 show ?thesis by (auto simp: world_simps first_sends_def intro: calm_step_log)
  next
    case send
    note unf = unf [simplified send if_False]
    show ?thesis
      using unf c1 c2 c3 steps send
      by (auto simp: s2 world_simps first_sends_def simp del: pkt.simps split: if_splits intro: calm_step_log)
  qed
qed

lemma release_delayed_from_calm:
  "release_delayed_from lg peer pt i n state cs w = (rc, cs1, w1) \<Longrightarrow> server_calm w \<Longrightarrow>
   rc = 0 \<and> calm_step w w1"
proof (induction lg peer pt i n state cs w arbitrary: rc cs1 w1 rule: release_delayed_from.induct)
  case (1 lg peer pt i n state cs w)
  note unf = release_delayed_from.simps [of lg peer pt i n state cs w]
  show ?case
  proof (cases "i < n")
    case False
    with "1.prems" unf show ?thesis by (auto intro: calm_step_refl)
  next
    case True
    show ?thesis
    proof (cases "\<not> rc_reorder_pending (cs ! i) \<or> rc_acked (cs ! i)")
      case skip: True
      with True "1.prems"(1) unf
      have "release_delayed_from lg peer pt (Suc i) n state cs w = (rc, cs1, w1)" by simp
      from "1.IH"(1) [OF True skip this "1.prems"(2)] show ?thesis .
    next
      case go: False
      obtain r c w2 where snd: "send_reliable_chunk lg peer pt ((cs ! i)\<lparr>rc_reorder_pending := False\<rparr>)
          state ''SEND_DATA_REORDERED'' w = (r, c, w2)" by (metis prod_cases3)
      from send_reliable_chunk_calm [OF snd "1.prems"(2)] have r: "r = 0" "calm_step w w2" by auto
      with go True snd "1.prems"(1) unf
      have rec: "release_delayed_from lg peer pt (Suc i) n state (cs[i := c]) w2 = (rc, cs1, w1)" by simp
      have "\<not> r \<noteq> 0" "server_calm w2" using r by (simp_all add: calm_step_def)
      from "1.IH"(2) [OF True go snd [symmetric] refl refl refl this(1) rec this(2)] r(2)
      show ?thesis by (auto intro: calm_step_trans)
    qed
  qed
qed

lemma reliable_fill_calm:
  "reliable_fill lg peer pt win base cs next w = (rc, cs1, next1, w1) \<Longrightarrow> server_calm w \<Longrightarrow>
   rc = 0 \<and> calm_step w w1"
proof (induction lg peer pt win base cs "next" w arbitrary: rc cs1 next1 w1 rule: reliable_fill.induct)
  case (1 lg peer pt win base cs "next" w)
  note unf = reliable_fill.simps [of lg peer pt win base cs "next" w]
  show ?case
  proof (cases "next < length cs \<and> next < base + win")
    case False
    with "1.prems" unf show ?thesis by (auto intro: calm_step_refl)
  next
    case True
    obtain r c w2 where snd: "send_reliable_chunk lg peer pt (cs ! next) ''DATA_TRANSFER'' ''SEND_DATA'' w
        = (r, c, w2)" by (metis prod_cases3)
    from send_reliable_chunk_calm [OF snd "1.prems"(2)] have r: "r = 0" "calm_step w w2" by auto
    obtain r2 cs2 w3 where rel: "release_delayed_chunks lg peer pt (cs[next := c]) (next + 1)
        ''DATA_TRANSFER'' w2 = (r2, cs2, w3)" by (metis prod_cases3)
    have "server_calm w2" using r by (simp add: calm_step_def)
    from release_delayed_from_calm [OF rel [unfolded release_delayed_chunks_def] this]
    have r2: "r2 = 0" "calm_step w2 w3" by auto
    from True snd rel [simplified] "1.prems"(1) unf r r2
    have rec: "reliable_fill lg peer pt win base cs2 (next + 1) w3 = (rc, cs1, next1, w1)" by simp
    have n: "\<not> r \<noteq> 0" "\<not> r2 \<noteq> 0" "server_calm w3" using r r2 by (simp_all add: calm_step_def)
    from "1.IH" [OF True snd [symmetric] refl refl refl n(1) rel [symmetric] refl refl n(2) rec n(3)] r r2
    show ?thesis by (auto intro: calm_step_trans)
  qed
qed

lemma reliable_retransmit_calm:
  "reliable_retransmit lg peer pt tmo i n cs w = (rc, cs1, w1) \<Longrightarrow> server_calm w \<Longrightarrow>
   rc = 0 \<and> calm_step w w1"
proof (induction lg peer pt tmo i n cs w arbitrary: rc cs1 w1 rule: reliable_retransmit.induct)
  case (1 lg peer pt tmo i n cs w)
  note unf = reliable_retransmit.simps [of lg peer pt tmo i n cs w]
  show ?case
  proof (cases "i < n")
    case False
    with "1.prems" unf show ?thesis by (auto intro: calm_step_refl)
  next
    case True
    let ?skip = "rc_acked (cs ! i) \<or> rc_reorder_pending (cs ! i) \<or> rc_send_count (cs ! i) \<le> 0"
    show ?thesis
    proof (cases ?skip)
      case skip: True
      with True "1.prems"(1) unf have "reliable_retransmit lg peer pt tmo (Suc i) n cs w = (rc, cs1, w1)"
        by simp
      from "1.IH"(1) [OF True skip this "1.prems"(2)] show ?thesis .
    next
      case go: False
      obtain ms w2 where el: "elapsed_ms_since (rc_last_send (cs ! i)) w = (ms, w2)" by fastforce
      have c2: "calm_step w w2" using el calm_clock [OF "1.prems"(2)]
        by (auto simp: elapsed_ms_since_def split: prod.splits)
      then have calm2: "server_calm w2" by (simp add: calm_step_def)
      show ?thesis
      proof (cases "ms \<ge> tmo")
        case False
        with True go el "1.prems"(1) unf
        have "reliable_retransmit lg peer pt tmo (Suc i) n cs w2 = (rc, cs1, w1)" by simp
        with "1.IH"(3) [OF True go el [symmetric] refl False] calm2 c2 show ?thesis
          by (blast intro: calm_step_trans)
      next
        case late: True
        obtain r c w3 where snd: "send_reliable_chunk lg peer pt (cs ! i) ''DATA_TRANSFER''
            ''RETRANSMIT_DATA'' w2 = (r, c, w3)" by (metis prod_cases3)
        from send_reliable_chunk_calm [OF snd calm2] have r: "r = 0" "calm_step w2 w3" by auto
        with True go el late snd "1.prems"(1) unf
        have rec: "reliable_retransmit lg peer pt tmo (Suc i) n (cs[i := c]) w3 = (rc, cs1, w1)" by simp
        have n: "\<not> r \<noteq> 0" "server_calm w3" using r by (simp_all add: calm_step_def)
        from "1.IH"(2) [OF True go el [symmetric] refl late snd [symmetric] refl refl refl n(1) rec n(2)] c2 r(2)
        show ?thesis by (blast intro: calm_step_trans)
      qed
    qed
  qed
qed

lemma reliable_retransmit_length:
  "reliable_retransmit lg peer pt tmo i n cs w = (rc, cs1, w1) \<Longrightarrow> length cs1 = length cs"
proof (induction lg peer pt tmo i n cs w arbitrary: rc cs1 w1 rule: reliable_retransmit.induct)
  case (1 lg peer pt tmo i n cs w)
  note unf = reliable_retransmit.simps [of lg peer pt tmo i n cs w]
  show ?case
    using "1.prems" "1.IH" unf by (auto simp: Let_def split: if_splits prod.splits)
qed

lemma server_recv_ack:
  assumes "server_calm w" "w_net w = deliver peer m # rest" "msg_ok m"
  shows "\<exists>w1. server_recv_logged_timeout lg state event n ms b w =
      (RecvOk (packet_of m) peer (peer_to_string peer n), w1) \<and> w_net w1 = rest \<and> server_calm w1"
  using recv_packet_timeout_message [OF assms(2) [unfolded deliver_def] assms(3), of ms] assms(1)
  by (simp add: server_recv_logged_timeout_def server_log_packet_def Let_def world_simps server_calm_def)

lemma advance_base_marked:
  assumes "base \<le> length cs"
  shows "min (length cs) k \<le> advance_base (mark_acked base (min (length cs) k) cs) base"
proof (rule ccontr)
  let ?m = "min (length cs) k"
  let ?cs = "mark_acked base ?m cs"
  let ?b = "advance_base ?cs base"
  assume "\<not> ?m \<le> ?b"
  moreover note bounds = advance_base_bounds [of base ?cs]
  moreover have len: "length ?cs = length cs" using mark_acked_eq [of ?m cs base] by simp
  ultimately have "\<not> rc_acked (?cs ! ?b)" "base \<le> ?b" "?b < ?m" by auto
  moreover have "rc_acked (?cs ! ?b)"
    using mark_acked_eq [of ?m cs base] calculation(2,3) by simp
  ultimately show False by blast
qed

text \<open>One round in which an \<open>ACK\<close> of the peer is received.\<close>

lemma reliable_iteration_ack:
  assumes calm: "server_calm w" and net: "w_net w = deliver peer (Ack k awin) # rest"
    and base: "rs_base st \<le> length (rs_chunks st)"
  shows "\<exists>st1 w1. reliable_iteration lg peer pt win tmo st w = (0, st1, w1) \<and> server_calm w1 \<and>
    w_net w1 = rest \<and> length (rs_chunks st1) = length (rs_chunks st) \<and>
    rs_base st1 \<le> length (rs_chunks st) \<and> rs_base st \<le> rs_base st1 \<and>
    min (length (rs_chunks st)) (unat k) \<le> rs_base st1"
proof -
  obtain r cs "next" wa where fill: "reliable_fill lg peer pt win (rs_base st) (rs_chunks st)
      (rs_next st) w = (r, cs, next, wa)" by (metis prod_cases4)
  from reliable_fill_calm [OF fill calm] have r: "r = 0" "server_calm wa" "w_net wa = w_net w"
    by (auto simp: calm_step_def)
  have "wires_ok (\<lambda>_. True) peer (rs_chunks st)" by (simp add: wires_ok_def)
  from reliable_fill_effect [OF fill this] fixed_part_lists(1)
  have len: "length cs = length (rs_chunks st)" by blast
  have ok: "msg_ok (Ack k awin)" by simp
  obtain wb where rcv: "server_recv_logged_timeout lg ''DATA_TRANSFER'' ''RECV_FEEDBACK'' 64 80 False wa
      = (RecvOk (packet_of (Ack k awin)) peer (peer_to_string peer 64), wb)"
    and wb: "w_net wb = rest" "server_calm wb"
    using server_recv_ack [OF r(2) _ ok, of peer rest] net r(3) by metis
  let ?cs = "mark_acked (rs_base st) (min (length cs) (unat k)) cs"
  let ?b = "advance_base ?cs (rs_base st)"
  have fb: "reliable_feedback lg peer pt (packet_of (Ack k awin)) peer (peer_to_string peer 64) cs (rs_base st) wb
      = (0, ?cs, ?b, wb)"
    by (auto simp: reliable_feedback_def Let_def min_def not_less intro: arg_cong)
  obtain r3 cs3 wc where ret: "reliable_retransmit lg peer pt tmo ?b next ?cs wb = (r3, cs3, wc)"
    by (metis prod_cases3)
  from reliable_retransmit_calm [OF ret wb(2)] wb(1) have r3: "r3 = 0" "server_calm wc" "w_net wc = rest"
    by (auto simp: calm_step_def)
  have len3: "length cs3 = length cs"
    using reliable_retransmit_length [OF ret] mark_acked_eq [of "min (length cs) (unat k)" cs "rs_base st"] by simp
  have "reliable_iteration lg peer pt win tmo st w = (0, \<lparr>rs_chunks = cs3, rs_base = ?b, rs_next = next\<rparr>, wc)"
    using fill r rcv fb ret r3(1) by (simp add: reliable_iteration_def del: packet_of.simps)
  moreover have "?b \<le> length cs \<and> rs_base st \<le> ?b"
    using advance_base_bounds [of "rs_base st" ?cs] mark_acked_eq [of "min (length cs) (unat k)" cs "rs_base st"]
      base len by simp
  moreover have "min (length cs) (unat k) \<le> ?b" by (rule advance_base_marked) (use base len in simp)
  ultimately show ?thesis using r3 len len3 by auto
qed

lemma reliable_loop_completes:
  "server_calm w \<Longrightarrow> w_net w = map (\<lambda>k. deliver peer (Ack k awin)) ks @ rest \<Longrightarrow>
   rs_base st \<le> length (rs_chunks st) \<Longrightarrow>
   rs_base st = length (rs_chunks st) \<or> (\<exists>k \<in> set ks. length (rs_chunks st) \<le> unat k) \<Longrightarrow>
   \<exists>st1 w1. reliable_loop (Suc (length ks)) lg peer pt win tmo st w = Some (0, st1, w1) \<and>
     server_calm w1 \<and> rs_base st1 = length (rs_chunks st1) \<and> (\<exists>ks'. w_net w1 = map (\<lambda>k. deliver peer (Ack k awin)) ks' @ rest)"
proof (induction ks arbitrary: w st)
  case Nil
  then show ?case by (auto simp: read_stop_def server_calm_def)
next
  case (Cons k ks)
  have stop: "read_stop w = (False, w)" using Cons.prems(1) by (simp add: read_stop_def server_calm_def)
  show ?case
  proof (cases "rs_base st < length (rs_chunks st)")
    case False
    then have "rs_base st = length (rs_chunks st)" using Cons.prems(3) by simp
    with stop Cons.prems(1,2) show ?thesis
      by (intro exI [of _ st] exI [of _ w]) (auto intro!: exI [of _ "k # ks"])
  next
    case True
    have net: "w_net w = deliver peer (Ack k awin) # (map (\<lambda>k. deliver peer (Ack k awin)) ks @ rest)"
      using Cons.prems(2) by simp
    from reliable_iteration_ack [OF Cons.prems(1) net Cons.prems(3), of lg pt win tmo]
    obtain st1 w1 where it: "reliable_iteration lg peer pt win tmo st w = (0, st1, w1)" "server_calm w1"
      "w_net w1 = map (\<lambda>k. deliver peer (Ack k awin)) ks @ rest"
      "length (rs_chunks st1) = length (rs_chunks st)" "rs_base st1 \<le> length (rs_chunks st)"
      "min (length (rs_chunks st)) (unat k) \<le> rs_base st1" by blast
    have "rs_base st1 = length (rs_chunks st1) \<or> (\<exists>k \<in> set ks. length (rs_chunks st1) \<le> unat k)"
      using Cons.prems(4) True it(4,5,6) by auto
    moreover have "rs_base st1 \<le> length (rs_chunks st1)" using it(4,5) by simp
    ultimately obtain st2 w2 where "reliable_loop (Suc (length ks)) lg peer pt win tmo st1 w1 = Some (0, st2, w2)"
      "server_calm w2" "rs_base st2 = length (rs_chunks st2)"
      "\<exists>ks'. w_net w2 = map (\<lambda>k. deliver peer (Ack k awin)) ks' @ rest"
      using Cons.IH [OF it(2,3)] by blast
    moreover from this(1) have "reliable_loop (Suc (length (k # ks))) lg peer pt win tmo st w = Some (0, st2, w2)"
      using stop True it(1) by (simp del: reliable_loop.simps add: reliable_loop.simps(2) [of "Suc (length ks)"])
    ultimately show ?thesis by blast
  qed
qed

text \<open>One round in which nothing arrives.\<close>

lemma reliable_iteration_silent:
  assumes calm: "server_calm w" and net: "w_net w = []"
  shows "\<exists>st1 w1. reliable_iteration lg peer pt win tmo st w = (0, st1, w1) \<and> server_calm w1 \<and>
    w_net w1 = [] \<and> length (rs_chunks st1) = length (rs_chunks st) \<and> rs_base st1 = rs_base st"
proof -
  obtain r cs "next" wa where fill: "reliable_fill lg peer pt win (rs_base st) (rs_chunks st)
      (rs_next st) w = (r, cs, next, wa)" by (metis prod_cases4)
  from reliable_fill_calm [OF fill calm] have r: "r = 0" "server_calm wa" "w_net wa = []"
    using net by (auto simp: calm_step_def)
  have "wires_ok (\<lambda>_. True) peer (rs_chunks st)" by (simp add: wires_ok_def)
  from reliable_fill_effect [OF fill this] fixed_part_lists(1)
  have len: "length cs = length (rs_chunks st)" by blast
  obtain wb where rcv: "server_recv_logged_timeout lg ''DATA_TRANSFER'' ''RECV_FEEDBACK'' 64 80 False wa
      = (RecvSilent, wb)" and wb: "w_net wb = []" "server_calm wb"
    using r(2,3) by (auto simp: server_recv_logged_timeout_def recv_packet_timeout_def parse_fail_def server_calm_def)
  obtain r3 cs3 wc where ret: "reliable_retransmit lg peer pt tmo (rs_base st) next cs wb = (r3, cs3, wc)"
    by (metis prod_cases3)
  from reliable_retransmit_calm [OF ret wb(2)] wb(1) have r3: "r3 = 0" "server_calm wc" "w_net wc = []"
    by (auto simp: calm_step_def)
  have "reliable_iteration lg peer pt win tmo st w = (0, \<lparr>rs_chunks = cs3, rs_base = rs_base st, rs_next = next\<rparr>, wc)"
    using fill r rcv ret r3(1) by (simp add: reliable_iteration_def)
  then show ?thesis using r3 len reliable_retransmit_length [OF ret] by auto
qed

lemma reliable_loop_silent:
  "server_calm w \<Longrightarrow> w_net w = [] \<Longrightarrow> rs_base st < length (rs_chunks st) \<Longrightarrow>
   reliable_loop fuel lg peer pt win tmo st w = None"
proof (induction fuel arbitrary: st w)
  case (Suc fuel)
  have stop: "read_stop w = (False, w)" using Suc.prems(1) by (simp add: read_stop_def server_calm_def)
  from reliable_iteration_silent [OF Suc.prems(1,2), of lg peer pt win tmo st] obtain st1 w1 where
    it: "reliable_iteration lg peer pt win tmo st w = (0, st1, w1)" "server_calm w1" "w_net w1 = []"
      "length (rs_chunks st1) = length (rs_chunks st)" "rs_base st1 = rs_base st" by blast
  have "reliable_loop fuel lg peer pt win tmo st1 w1 = None"
    by (rule Suc.IH [OF it(2,3)]) (use Suc.prems(3) it(4,5) in simp)
  with stop Suc.prems(3) it(1) show ?case by simp
qed simp

lemma load_chunks_loop_calm:
  "w_allocfault w = [] \<Longrightarrow> server_calm w \<Longrightarrow> (\<And>d. d \<in> set blocks \<Longrightarrow> length d \<le> 1000) \<Longrightarrow>
   \<exists>cs w1. load_chunks_loop loss dup reorder blocks count cap acc w = (Some cs, w1) \<and>
     server_calm w1 \<and> length cs = length acc + length blocks"
proof (induction loss dup reorder blocks count cap acc w rule: load_chunks_loop.induct)
  case (2 loss dup reorder data blocks count cap acc w)
  obtain ok w2 cap1 where al: "(if count = cap
       then (let (ok, w') = malloc_ok w in (ok, w', if cap \<noteq> 0 then cap * 2 else 32))
       else (True, w, cap)) = (ok, w2, cap1)"
    by (metis prod_cases3)
  have w2: ok "w_allocfault w2 = []" "server_calm w2"
    using al "2.prems"(1,2) by (auto simp: malloc_ok_def server_calm_def split: if_splits)
  have wire: "build_data_packet (word_of_nat count) (Some data) (word_of_nat (length data))
        (Some PROTOCOL_MAX_DATAGRAM) = Some (encode (Data (word_of_nat count) data))"
    using "2.prems"(3) [of data] by (subst build_data_packet_eq) (simp_all add: protocol_sizes)
  have "\<not> \<not> ok" using w2(1) by simp
  from "2.IH" [OF al [symmetric] refl refl this wire w2(2,3) "2.prems"(3)] w2(1)
  show ?case by (simp add: al wire del: opaque)
qed simp

lemma load_reliable_chunks_calm:
  assumes "w_fs w path = Some f" "w_allocfault w = []" "server_calm w"
  shows "\<exists>cs w1. load_reliable_chunks path w = (Some cs, w1) \<and> server_calm w1 \<and>
    length cs = length (chunks PROTOCOL_DATA_CHUNK_SIZE (f_data f))"
proof -
  let ?bs = "chunks PROTOCOL_DATA_CHUNK_SIZE (f_data f)"
  have "\<And>d. d \<in> set ?bs \<Longrightarrow> length d \<le> 1000" by (simp add: protocol_sizes chunks_bounds)
  from load_chunks_loop_calm [where count = 0 and cap = 0 and acc = "[]" and blocks = ?bs, OF assms(2,3) this]
  show ?thesis using assms(1) by (simp add: load_reliable_chunks_def Let_def fread_blocks_def)
qed

lemma load_reliable_chunks_sent: "load_reliable_chunks path w = (r, w1) \<Longrightarrow> w_sent w1 = w_sent w"
proof -
  assume "load_reliable_chunks path w = (r, w1)"
  from load_reliable_chunks_effect [OF this, of "\<lambda>_. False"] have "emits (\<lambda>_. False) w w1" by blast
  then obtain xs where xs: "w_sent w1 = w_sent w @ xs" "\<forall>x \<in> set xs. False" unfolding emits_def by blast
  have "hd xs \<notin> set xs" using xs(2) by blast
  then have "xs = []" by (metis hd_in_set)
  with xs(1) show ?thesis by simp
qed

lemma send_terminates_calm:
  "send_terminates lg peer pt wire k w = (rc, w1) \<Longrightarrow> server_calm w \<Longrightarrow> rc = 0 \<and> server_calm w1"
proof (induction lg peer pt wire k w arbitrary: rc w1 rule: send_terminates.induct)
  case (1 lg peer pt wire k w)
  note unf = send_terminates.simps [of lg peer pt wire k w]
  let ?snd = "server_send_logged lg peer pt (pkt PKT_TERMINATE) wire 0 (word_of_nat PROTOCOL_DIGEST_SIZE)
     0 0 (int k) ''VERIFY'' (if k = 0 then ''SEND_TERMINATE'' else ''RETRANSMIT_TERMINATE'') w"
  obtain r w2 where snd: "?snd = (r, w2)" by fastforce
  from calm_server_send [OF "1.prems"(2) snd] have r: "r = 0" "server_calm w2" by (auto simp: calm_step_def)
  show ?case
  proof (cases "k < 3")
    case False
    with "1.prems" unf show ?thesis by auto
  next
    case True
    with "1.prems"(1) unf snd r have "send_terminates lg peer pt wire (Suc k) w2 = (rc, w1)" by simp
    with "1.IH" [OF True snd [symmetric]] r show ?thesis by simp
  qed
qed

lemma transfer_reliable_completes:
  assumes f: "w_fs w path = Some f" and alloc: "w_allocfault w = []" and calm: "server_calm w"
    and net: "w_net w = map (\<lambda>k. deliver peer (Ack k awin)) ks @ rest"
    and acks: "\<exists>k \<in> set ks. length (chunks PROTOCOL_DATA_CHUNK_SIZE (f_data f)) \<le> unat k"
    and dg: "length digest = 20"
  shows "\<exists>w1. server_transfer_file_reliable (Suc (length ks)) lg peer pt path digest w = Some (0, w1)"
proof -
  obtain cs w2 where ld: "load_reliable_chunks path w = (Some cs, w2)" and
    cs: "server_calm w2" "length cs = length (chunks PROTOCOL_DATA_CHUNK_SIZE (f_data f))"
    using load_reliable_chunks_calm [OF f alloc calm] by blast
  have net2: "w_net w2 = w_net w" using load_reliable_chunks_effect [OF ld] by blast
  let ?st = "\<lparr>rs_chunks = cs, rs_base = 0, rs_next = 0\<rparr>"
  from reliable_loop_completes [OF cs(1), of peer awin ks rest ?st lg pt "nat (env_reliable_window_size w)"
      "env_reliable_timeout_ms w"] acks cs(2) net net2
  obtain st1 w3 where loop: "reliable_loop (Suc (length ks)) lg peer pt (nat (env_reliable_window_size w))
      (env_reliable_timeout_ms w) ?st w2 = Some (0, st1, w3)" "server_calm w3"
    by auto
  have stop: "read_stop w3 = (False, w3)" using loop(2) by (simp add: read_stop_def server_calm_def)
  have wire: "build_terminate_packet (Some digest) (Some PROTOCOL_MAX_DATAGRAM) = Some (encode (Terminate digest))"
    using build_terminate_packet_eq [OF dg] by (simp add: protocol_sizes)
  obtain r w4 where tm: "send_terminates lg peer pt (encode (Terminate digest)) 0 w3 = (r, w4)" by fastforce
  with send_terminates_calm [OF tm loop(2)] have "r = 0" by simp
  with ld loop stop wire tm show ?thesis
    by (simp add: server_transfer_file_reliable_def Let_def del: opaque reliable_loop.simps)
qed

lemma transfer_reliable_silent:
  assumes f: "w_fs w path = Some f" and alloc: "w_allocfault w = []" and calm: "server_calm w"
    and net: "w_net w = []" and data: "f_data f \<noteq> []"
  shows "server_transfer_file_reliable fuel lg peer pt path digest w = None"
proof -
  obtain cs w2 where ld: "load_reliable_chunks path w = (Some cs, w2)" and
    cs: "server_calm w2" "length cs = length (chunks PROTOCOL_DATA_CHUNK_SIZE (f_data f))"
    using load_reliable_chunks_calm [OF f alloc calm] by blast
  have net2: "w_net w2 = []" using load_reliable_chunks_effect [OF ld] net by metis
  have "0 < length cs" using data cs(2) by (subst cs(2), subst chunks.simps) (simp add: protocol_sizes)
  then have "reliable_loop fuel lg peer pt (nat (env_reliable_window_size w)) (env_reliable_timeout_ms w)
      \<lparr>rs_chunks = cs, rs_base = 0, rs_next = 0\<rparr> w2 = None"
    by (intro reliable_loop_silent [OF cs(1) net2]) simp
  with ld show ?thesis by (simp add: server_transfer_file_reliable_def Let_def del: opaque reliable_loop.simps)
qed

section \<open>The order of first transmissions\<close>

text \<open>A chunk that has not been sent, and a prefix in which nothing is held back.\<close>

definition fresh :: "ReliableChunk \<Rightarrow> bool" where
  "fresh c \<longleftrightarrow> rc_send_count c = 0 \<and> \<not> rc_acked c \<and> \<not> rc_reorder_pending c"

definition none_held :: "nat \<Rightarrow> ReliableChunk list \<Rightarrow> bool" where
  "none_held n cs \<longleftrightarrow> (\<forall>i < n. \<not> rc_reorder_pending (cs ! i))"

lemma release_none:
  "(\<forall>j. i \<le> j \<and> j < n \<longrightarrow> \<not> rc_reorder_pending (cs ! j)) \<Longrightarrow>
   release_delayed_from lg peer pt i n state cs w = (0, cs, w)"
proof (induction "n - i" arbitrary: i)
  case 0
  then show ?case by (simp add: release_delayed_from.simps)
next
  case (Suc k)
  then have "release_delayed_from lg peer pt (Suc i) n state cs w = (0, cs, w)" by simp
  with Suc.prems Suc.hyps(2) show ?case by (subst release_delayed_from.simps) simp
qed

lemma release_last:
  assumes "none_held n cs" "i \<le> n" "rc_reorder_pending (cs ! n)" "\<not> rc_acked (cs ! n)"
    and snd: "send_reliable_chunk lg peer pt ((cs ! n)\<lparr>rc_reorder_pending := False\<rparr>) state
       ''SEND_DATA_REORDERED'' w = (0, c, w1)"
  shows "release_delayed_from lg peer pt i (Suc n) state cs w = (0, cs[n := c], w1)"
  using assms(2)
proof (induction "n - i" arbitrary: i)
  case 0
  then have "i = n" by simp
  have "release_delayed_from lg peer pt (Suc n) (Suc n) state (cs[n := c]) w1 = (0, cs[n := c], w1)"
    by (rule release_none) auto
  with \<open>i = n\<close> assms snd show ?case by (subst release_delayed_from.simps) simp
next
  case (Suc k)
  then have "release_delayed_from lg peer pt (Suc i) (Suc n) state cs w = (0, cs[n := c], w1)" by simp
  with Suc assms(1) show ?case by (subst release_delayed_from.simps) (simp add: none_held_def)
qed

text \<open>
  Sending a chunk and releasing the held ones in one go: whatever the reorder flag
  says, the chunk leaves the server here.
\<close>

lemma send_and_release:
  assumes calm: "server_calm w" and held: "none_held n cs" and n: "n < length cs" and fr: "fresh (cs ! n)"
    and snd: "send_reliable_chunk lg peer pt (cs ! n) state ev w = (r, c, w1)"
    and rel: "release_delayed_chunks lg peer pt (cs[n := c]) (Suc n) state w1 = (r2, cs2, w2)"
  shows "r = 0 \<and> r2 = 0 \<and> server_calm w2 \<and> none_held (Suc n) cs2 \<and> length cs2 = length cs \<and>
    (\<forall>j. n < j \<longrightarrow> cs2 ! j = cs ! j) \<and> w_sent w2 = w_sent w @ first_sends peer (cs ! n)"
proof -
  let ?c = "cs ! n"
  from send_reliable_chunk_calm [OF snd calm] fr
  have r: "r = 0" "server_calm w1" and c:
     "if rc_reorder_first_send ?c
        then w_sent w1 = w_sent w \<and> c = ?c\<lparr>rc_reorder_first_send := False, rc_reorder_pending := True\<rparr>
        else w_sent w1 = w_sent w @ first_sends peer ?c \<and> rc_reorder_pending c = rc_reorder_pending ?c"
    by (simp_all add: calm_step_def fresh_def)
  have held': "none_held n (cs[n := c])" using held by (auto simp: none_held_def)
  show ?thesis
  proof (cases "rc_reorder_first_send ?c")
    case False
    with c fr have p: "\<not> rc_reorder_pending c" "w_sent w1 = w_sent w @ first_sends peer ?c"
      by (auto simp: fresh_def)
    have all: "none_held (Suc n) (cs[n := c])"
      using held' p(1) n by (auto simp: none_held_def less_Suc_eq)
    have "release_delayed_chunks lg peer pt (cs[n := c]) (Suc n) state w1 = (0, cs[n := c], w1)"
      unfolding release_delayed_chunks_def by (rule release_none) (use all in \<open>simp add: none_held_def\<close>)
    with rel have "r2 = 0" "cs2 = cs[n := c]" "w2 = w1" by simp_all
    with r p all show ?thesis by auto
  next
    case True
    with c have c': "c = ?c\<lparr>rc_reorder_first_send := False, rc_reorder_pending := True\<rparr>" "w_sent w1 = w_sent w"
      by simp_all
    let ?d = "c\<lparr>rc_reorder_pending := False\<rparr>"
    obtain r3 c3 w3 where snd3: "send_reliable_chunk lg peer pt ?d state ''SEND_DATA_REORDERED'' w1 = (r3, c3, w3)"
      by (metis prod_cases3)
    from send_reliable_chunk_calm [OF snd3 r(2)] c' fr
    have r3: "r3 = 0" "server_calm w3" "w_sent w3 = w_sent w1 @ first_sends peer ?d" "\<not> rc_reorder_pending c3"
      by (simp_all add: calm_step_def fresh_def)
    have "first_sends peer ?d = first_sends peer ?c" using c' by (simp add: first_sends_def)
    moreover have "release_delayed_chunks lg peer pt (cs[n := c]) (Suc n) state w1 = (0, cs[n := c3], w3)"
      unfolding release_delayed_chunks_def
      using release_last [OF held', of 0 lg peer pt state w1 c3 w3] snd3 r3(1) c' fr n
      by (simp add: fresh_def)
    ultimately have "r2 = 0" "cs2 = cs[n := c3]" "w2 = w3" "w_sent w2 = w_sent w @ first_sends peer ?c"
      using rel r3 c' by simp_all
    moreover have "none_held (Suc n) (cs[n := c3])"
      using held r3(4) n by (auto simp: none_held_def less_Suc_eq)
    ultimately show ?thesis using r r3 by auto
  qed
qed

lemma load_chunks_loop_fresh:
  "load_chunks_loop loss dup reorder blocks count cap acc w = (Some cs, w1) \<Longrightarrow>
   (\<forall>c \<in> set acc. fresh c) \<Longrightarrow> \<forall>c \<in> set cs. fresh c"
  by (induction loss dup reorder blocks count cap acc w rule: load_chunks_loop.induct)
    (simp_all add: fresh_def Let_def split: prod.splits if_splits option.splits)

lemma load_reliable_chunks_fresh:
  "load_reliable_chunks path w = (Some cs, w1) \<Longrightarrow> \<forall>c \<in> set cs. fresh c"
  by (auto simp: load_reliable_chunks_def dest: load_chunks_loop_fresh split: option.splits)

lemma reliable_fill_order:
  "reliable_fill lg peer pt win base cs next w = (rc, cs1, next1, w1) \<Longrightarrow> server_calm w \<Longrightarrow>
   none_held next cs \<Longrightarrow> (\<forall>i. next \<le> i \<and> i < length cs \<longrightarrow> fresh (cs ! i)) \<Longrightarrow>
   w_sent w1 = w_sent w @ concat (map (\<lambda>i. first_sends peer (cs ! i)) [next..<next1]) \<and> none_held next1 cs1"
proof (induction lg peer pt win base cs "next" w arbitrary: rc cs1 next1 w1 rule: reliable_fill.induct)
  case (1 lg peer pt win base cs "next" w)
  note unf = reliable_fill.simps [of lg peer pt win base cs "next" w]
  show ?case
  proof (cases "next < length cs \<and> next < base + win")
    case False
    with "1.prems" unf show ?thesis by auto
  next
    case True
    obtain r c w2 where snd: "send_reliable_chunk lg peer pt (cs ! next) ''DATA_TRANSFER'' ''SEND_DATA'' w
        = (r, c, w2)" by (metis prod_cases3)
    obtain r2 cs2 w3 where rel: "release_delayed_chunks lg peer pt (cs[next := c]) (next + 1)
        ''DATA_TRANSFER'' w2 = (r2, cs2, w3)" by (metis prod_cases3)
    have fr: "fresh (cs ! next)" "next < length cs" using "1.prems"(4) True by auto
    from send_and_release [OF "1.prems"(2,3) fr(2,1) snd rel [simplified]]
    have s: "r = 0" "r2 = 0" "server_calm w3" "none_held (next + 1) cs2" "length cs2 = length cs"
      "\<And>j. next < j \<Longrightarrow> cs2 ! j = cs ! j" "w_sent w3 = w_sent w @ first_sends peer (cs ! next)" by auto
    from True snd rel [simplified] "1.prems"(1) unf s(1,2)
    have rec: "reliable_fill lg peer pt win base cs2 (next + 1) w3 = (rc, cs1, next1, w1)" by simp
    have n: "\<not> r \<noteq> 0" "\<not> r2 \<noteq> 0" using s by simp_all
    have fr2: "\<forall>i. next + 1 \<le> i \<and> i < length cs2 \<longrightarrow> fresh (cs2 ! i)" using "1.prems"(4) s(5,6) by simp
    from "1.IH" [OF True snd [symmetric] refl refl refl n(1) rel [symmetric] refl refl n(2) rec s(3,4) fr2]
    have ih: "w_sent w1 = w_sent w3 @ concat (map (\<lambda>i. first_sends peer (cs2 ! i)) [next + 1..<next1])"
      "none_held next1 cs1" by auto
    have "wires_ok (\<lambda>_. True) peer cs2" by (simp add: wires_ok_def)
    from reliable_fill_effect [OF rec this] have le: "next + 1 \<le> next1" by blast
    have "map (\<lambda>i. first_sends peer (cs2 ! i)) [next + 1..<next1] = map (\<lambda>i. first_sends peer (cs ! i)) [next + 1..<next1]"
      using s(6) by (intro map_cong) auto
    moreover have "[next..<next1] = next # [next + 1..<next1]" using le by (simp add: upt_conv_Cons)
    ultimately show ?thesis using ih s(7) by (simp only: append_assoc list.map concat.simps)
  qed
qed

section \<open>The window\<close>

lemma reliable_feedback_base:
  "reliable_feedback lg peer pt p fb fbt cs base w = (rc, cs1, base1, w1) \<Longrightarrow> base \<le> base1"
  using advance_base_bounds [of base "mark_acked base (min (length cs) (unat (p_ack_id p))) cs"]
    advance_base_bounds [of base "mark_acked base (length cs) cs"]
    advance_base_bounds [of base "mark_acked base (unat (p_ack_id p)) cs"]
  by (auto simp: reliable_feedback_def Let_def split: if_splits prod.splits)

text \<open>The number of chunks past the base that were taken up never exceeds the window.\<close>

lemma reliable_iteration_window:
  assumes "reliable_iteration lg peer pt win tmo st w = (rc, st1, w1)" "rs_next st \<le> rs_base st + win"
  shows "rs_next st1 \<le> rs_base st1 + win"
proof -
  obtain r cs "next" wa where fill: "reliable_fill lg peer pt win (rs_base st) (rs_chunks st)
      (rs_next st) w = (r, cs, next, wa)" by (metis prod_cases4)
  have "wires_ok (\<lambda>_. True) peer (rs_chunks st)" by (simp add: wires_ok_def)
  from reliable_fill_effect [OF fill this] assms(2) have "next \<le> rs_base st + win" by linarith
  with assms(1) fill show ?thesis
    by (auto simp: reliable_iteration_def Let_def split: if_splits prod.splits recv_rc.splits
        dest!: reliable_feedback_base)
qed

lemma reliable_loop_window:
  "reliable_loop fuel lg peer pt win tmo st w = Some (rc, st1, w1) \<Longrightarrow> rs_next st \<le> rs_base st + win \<Longrightarrow>
   rs_next st1 \<le> rs_base st1 + win"
proof (induction fuel arbitrary: st w)
  case (Suc fuel)
  show ?case
    using Suc.prems Suc.IH reliable_iteration_window
    by (auto simp: Let_def split: prod.splits if_splits)
qed simp

section \<open>main\<close>

lemma emits_same_net: "w_sent w1 = w_sent w \<Longrightarrow> w_net w1 = w_net w \<Longrightarrow> w_env w1 = w_env w \<Longrightarrow>
  w_stdout w1 = w_stdout w \<Longrightarrow> emits P w1 w2 \<Longrightarrow> emits P w w2"
  by (simp add: emits_def)

lemma socket_call_emits: "socket_call w = (b, w1) \<Longrightarrow> emits P w w1 \<and> w_net w1 = w_net w"
  by (auto simp: socket_call_def split: prod.splits intro: emits_same)

lemma guarded_net: "w_net w = w_net w' \<Longrightarrow> guarded pw w = guarded pw w'"
  by (rule ext) (simp add: guarded_def)

lemma session_end_prepend:
  "emits P w w1 \<Longrightarrow> session_end lg P w1 st w2 \<Longrightarrow> session_end lg P w st w2"
  unfolding session_end_def by (blast intro: emits_trans)

text \<open>
  Every end of \<open>main\<close>: without a log it prints \<open>ABORT\<close> and sends nothing, with one
  it ends like a session.
\<close>

lemma server_main_end:
  assumes run: "server_main fuel argv w = Some (st, w1)"
  shows "(st = 1 \<and> w1 = print_line ''ABORT'' w) \<or> (\<exists>lg. session_end lg (guarded (argv ! 2) w) w st w1)"
proof -
  let ?P = "guarded (argv ! 2) w"
  obtain rc lgo where lg: "logger_open (Some ''server'') (Some ''logs/server.jsonl'') w = (rc, lgo)" by fastforce
  show ?thesis
  proof (cases "lgo = None \<or> rc \<noteq> 0")
    case True
    with run lg show ?thesis by (auto simp: server_main_def split: option.splits)
  next
    case False
    then obtain l where l: "lgo = Some l" "rc = 0" by auto
    have fail: ?thesis if "\<exists>reason w2. st = 1 \<and> w1 = server_finish l ''ABORT'' reason w2 \<and> emits ?P w w2"
      using that session_endI(2) by blast
    show ?thesis
    proof (cases "length argv = 4 \<and> parse_port (Some (argv ! 1)) \<noteq> None \<and>
        length (argv ! 2) \<le> PROTOCOL_MAX_PASSWORD \<and> length (argv ! 2) \<noteq> 0 \<and>
        w_fs w (argv ! 3) \<noteq> None")
      case False
      with run lg l show ?thesis
        by (intro fail) (auto simp: server_main_def Let_def split: option.splits if_splits intro: emits_refl)
    next
      case args: True
      then obtain port f where port: "parse_port (Some (argv ! 1)) = Some port" and f: "w_fs w (argv ! 3) = Some f"
        by auto
      show ?thesis
      proof (cases "f_regular f \<and> \<not> f_bad f")
        case False
        with run lg l args port f show ?thesis
          by (intro fail) (auto simp: server_main_def Let_def sha1_file_digest split: option.splits if_splits intro: emits_refl)
      next
        case True
        then have dg: "(if f_regular f then sha1_file w (argv ! 3) else None) = Some (sha1_digest (f_data f))"
          using f by (simp add: sha1_file_digest)
        obtain ok1 wa where s1: "socket_call w = (ok1, wa)" by fastforce
        obtain ok2 wb where s2: "socket_call wa = (ok2, wb)" by fastforce
        note e1 = socket_call_emits [OF s1, of ?P] and e2 = socket_call_emits [OF s2, of ?P]
        show ?thesis
        proof (cases "ok1 \<and> ok2")
          case False
          with run lg l args port f dg s1 s2 e1 e2 show ?thesis
            by (intro fail) (auto simp: server_main_def Let_def split: if_splits intro: emits_trans)
        next
          case ok: True
          let ?e = "(server_log_defaults ''INFO'' ''SERVER_START'' ''WAIT_JOIN_REQ'' ''server started'')
                                 \<lparr>le_port := uint port,
                                  le_bytes := int_of_size (length (f_data f)),
                                  le_sha1 := Some (sha1_to_hex (sha1_digest (f_data f)))\<rparr>"
          have ses: "server_session fuel l (argv ! 2) (argv ! 3) (sha1_digest (f_data f))
              (protocol_is_reliable w) (logger_write l (Some ?e) wb) = Some (st, w1)"
            using run lg l args port f dg s1 s2 ok by (simp add: server_main_def Let_def)
          have net: "w_net (logger_write l (Some ?e) wb) = w_net w" using e1 e2 by (simp add: world_simps)
          have "emits ?P w (logger_write l (Some ?e) wb)" using e1 e2 by (auto intro: emits_log emits_trans)
          moreover have "session_end l ?P (logger_write l (Some ?e) wb) st w1"
            using server_session_end [OF ses] guarded_net [OF net, of "argv ! 2"] by simp
          ultimately have "session_end l ?P w st w1" by (rule session_end_prepend)
          then show ?thesis by blast
        qed
      qed
    qed
  qed
qed

section \<open>Authentication, functionally\<close>

lemma calm_control:
  assumes "server_calm w" "build_control_packet t (Some PROTOCOL_MAX_DATAGRAM) = Some wire"
  obtains w1 where "server_send_control lg peer pt t st ev w = (0, w1)" "calm_step w w1"
    "w_sent w1 = w_sent w @ [(peer, wire)]"
proof -
  obtain rc w1 where snd: "server_send_logged lg peer pt t wire 0 0 0 0 0 st ev w = (rc, w1)" by fastforce
  from calm_server_send [OF assms(1) snd] snd assms(2) that show ?thesis
    by (auto simp: server_send_control_def)
qed

lemma server_auth_loop_functional:
  "server_calm w \<Longrightarrow> w_net w = map (\<lambda>x. deliver peer (PassResp x)) xs @ rest \<Longrightarrow>
   (\<forall>x \<in> set xs. length x \<le> 255) \<Longrightarrow> att \<le> 3 \<Longrightarrow>
   bytes_of_string pw \<in> set (take (4 - att) xs) \<or> 4 - att \<le> length xs \<Longrightarrow>
   \<exists>w2. w_sent w2 = w_sent w @ map (\<lambda>m. (peer, encode m)) (auth_replies (4 - att) (bytes_of_string pw) xs) \<and>
     w_net w2 = map (\<lambda>x. deliver peer (PassResp x)) (drop (length (tried (4 - att) (bytes_of_string pw) xs)) xs) @ rest \<and>
     server_auth_loop lg peer pt pw att w =
       (if bytes_of_string pw \<in> set (take (4 - att) xs) then (Inr True, w2)
        else (Inl 1, server_finish lg ''ABORT'' ''three password attempts failed'' w2))"
proof (induction xs arbitrary: w att)
  case Nil
  then show ?case by simp
next
  case (Cons x xs)
  let ?pw = "bytes_of_string pw"
  note unf = server_auth_loop.simps [of lg peer pt pw att w]
  have att: "\<not> att > 3" using Cons.prems(4) by simp
  have stop: "read_stop w = (False, w)" using Cons.prems(1) by (simp add: read_stop_def server_calm_def)
  have ok: "msg_ok (PassResp x)" using Cons.prems(3) by simp
  have net: "w_net w = deliver peer (PassResp x) # (map (\<lambda>x. deliver peer (PassResp x)) xs @ rest)"
    using Cons.prems(2) by simp
  define p where "p = packet_of (PassResp x)"
  have p: "p_type p = pkt PKT_PASS_RESP" "password_matches p pw \<longleftrightarrow> x = ?pw"
    using password_matches_iff [of x pw] ok by (simp_all add: p_def del: packet_of.simps) (simp add: p_def)
  obtain wb where rcv: "server_recv_expected lg ''AUTH'' ''RECV_PASS_RESP'' 64 w = (RecvOk p peer (peer_to_string peer 64), wb)"
    and wb: "w_net wb = map (\<lambda>x. deliver peer (PassResp x)) xs @ rest" "server_calm wb"
    using server_recv_ack [OF Cons.prems(1) net ok] unfolding server_recv_expected_def p_def by metis
  have sb: "w_sent wb = w_sent w"
    using server_recv_frame(7) rcv unfolding server_recv_expected_def by (metis snd_conv)
  show ?case
  proof (cases "x = ?pw")
    case True
    let ?wl = "logger_write lg (Some ((server_log_defaults ''AUTH'' ''AUTH_SUCCESS'' ''AUTH''
                    ''password accepted'')\<lparr>le_peer := Some pt, le_attempt := int att\<rparr>)) wb"
    have "server_calm ?wl" using wb(2) by (simp add: server_calm_def world_simps)
    from calm_control [OF this control_wire(2)] obtain wc where
      wc: "server_send_control lg peer pt (pkt PKT_PASS_ACCEPT) ''AUTH'' ''SEND_PASS_ACCEPT'' ?wl = (0, wc)"
        "calm_step ?wl wc" "w_sent wc = w_sent ?wl @ [(peer, encode PassAccept)]" by metis
    have "server_auth_loop lg peer pt pw att w = (Inr True, wc)"
      using unf att stop rcv p True wc(1) by (simp add: Let_def del: pkt.simps)
    moreover have "?pw \<in> set (take (4 - att) (x # xs))" using True att by (cases "4 - att") auto
    ultimately show ?thesis
      using wc(2,3) sb wb(1) True att by (intro exI [of _ wc]) (auto simp: calm_step_def world_simps)
  next
    case wrong: False
    let ?wl = "logger_write lg (Some ((server_log_defaults ''AUTH'' ''AUTH_FAIL'' ''AUTH''
                    ''password rejected'')\<lparr>le_peer := Some pt, le_attempt := int att\<rparr>)) wb"
    have cl: "server_calm ?wl" using wb(2) by (simp add: server_calm_def world_simps)
    show ?thesis
    proof (cases "att = 3")
      case last: True
      from calm_control [OF cl control_wire(3)] obtain wc where
        wc: "server_send_control lg peer pt (pkt PKT_REJECT) ''AUTH'' ''SEND_REJECT'' ?wl = (0, wc)"
          "calm_step ?wl wc" "w_sent wc = w_sent ?wl @ [(peer, encode Reject)]" by metis
      have "server_auth_loop lg peer pt pw att w
          = (Inl 1, server_finish lg ''ABORT'' ''three password attempts failed'' wc)"
        using unf att stop rcv p wrong wc(1) last by (simp add: Let_def del: pkt.simps)
      with wc(2,3) sb wb(1) wrong last show ?thesis
        by (intro exI [of _ wc]) (auto simp: calm_step_def world_simps)
    next
      case more: False
      from calm_control [OF cl control_wire(1)] obtain wc where
        wc: "server_send_control lg peer pt (pkt PKT_PASS_REQ) ''AUTH'' ''SEND_PASS_REQ'' ?wl = (0, wc)"
          "calm_step ?wl wc" "w_sent wc = w_sent ?wl @ [(peer, encode PassReq)]" by metis
      have rec: "server_auth_loop lg peer pt pw att w = server_auth_loop lg peer pt pw (Suc att) wc"
        using unf att stop rcv p wrong wc(1) more by (simp add: Let_def del: pkt.simps)
      have four: "4 - att = Suc (4 - Suc att)" using att by simp
      have c: "server_calm wc" "w_net wc = map (\<lambda>x. deliver peer (PassResp x)) xs @ rest"
        using wc(2) wb(1) by (simp_all add: calm_step_def world_simps)
      have "Suc att \<le> 3" using att more by simp
      moreover have "?pw \<in> set (take (4 - Suc att) xs) \<or> 4 - Suc att \<le> length xs"
        using Cons.prems(5) wrong unfolding four by auto
      moreover have "\<forall>x \<in> set xs. length x \<le> 255" using Cons.prems(3) by simp
      ultimately obtain w2 where ih:
        "w_sent w2 = w_sent wc @ map (\<lambda>m. (peer, encode m)) (auth_replies (4 - Suc att) ?pw xs)"
        "w_net w2 = map (\<lambda>x. deliver peer (PassResp x)) (drop (length (tried (4 - Suc att) ?pw xs)) xs) @ rest"
        "server_auth_loop lg peer pt pw (Suc att) wc =
       (if ?pw \<in> set (take (4 - Suc att) xs) then (Inr True, w2)
        else (Inl 1, server_finish lg ''ABORT'' ''three password attempts failed'' w2))"
        using Cons.IH [OF c] by blast
      have n: "\<not> 4 - att \<le> 1" using att more by simp
      have "?pw \<in> set (take (4 - att) (x # xs)) \<longleftrightarrow> ?pw \<in> set (take (4 - Suc att) xs)"
        using wrong unfolding four by auto
      moreover have "4 - att - 1 = 4 - Suc att" by simp
      ultimately show ?thesis
        using ih wc(3) sb rec wrong n by (intro exI [of _ w2]) (simp add: world_simps del: opaque)
    qed
  qed
qed

end
