(* ===== verification/UdpClient.thy ===== *)
theory UdpClient
  imports LogFile
begin

text \<open>
  The UDP client (\<open>src/client.c\<close>): logging, password input, feedback packets,
  the reassembly buffer and the reliable receive loop, the plain receive loop and
  \<open>main\<close>. The output file is written under \<open><output>.part\<close> and renamed only after
  the digest check; freeing memory and closing files leave nothing in the
  modelled state.
\<close>

section \<open>Logging helpers\<close>

definition client_log_defaults :: "string \<Rightarrow> string \<Rightarrow> string \<Rightarrow> string \<Rightarrow> LogEvent" where
  "client_log_defaults level event state message =
     zero_event\<lparr>
       le_level := Some level, le_event := Some event, le_state := Some state,
       le_message := Some message,
       le_stream_id := LOG_INT_UNSET, le_stream_offset := LOG_INT_UNSET,
       le_status_code := LOG_INT_UNSET, le_seq := LOG_INT_UNSET, le_ack := LOG_INT_UNSET,
       le_window_size := LOG_INT_UNSET, le_retransmit_count := LOG_INT_UNSET,
       le_security_encrypted := LOG_INT_UNSET, le_security_mac_valid := LOG_INT_UNSET,
       le_security_replay := LOG_INT_UNSET, le_packet_id := LOG_INT_UNSET,
       le_payload_length := LOG_INT_UNSET, le_bytes := LOG_INT_UNSET,
       le_attempt := LOG_INT_UNSET, le_port := LOG_INT_UNSET\<rparr>"

definition client_finish :: "Logger \<Rightarrow> string \<Rightarrow> string \<Rightarrow> world \<Rightarrow> world" where
  "client_finish lg result reason w =
     (let e = (client_log_defaults (if result = ''OK'' then ''SUCCESS'' else ''ABORT'')
                 (if result = ''OK'' then ''FINAL_OK'' else ''FINAL_ABORT'')
                 (if result = ''OK'' then ''DONE'' else ''ABORT'') reason)\<lparr>le_result := Some result\<rparr>
      in print_line result (logger_write lg (Some e) w))"

definition client_packet_event ::
  "string \<Rightarrow> string \<Rightarrow> string \<Rightarrow> string \<Rightarrow> byte list \<Rightarrow> Packet \<Rightarrow> string \<Rightarrow> int \<Rightarrow> int \<Rightarrow> LogEvent" where
  "client_packet_event level event state peer wire packet direction attempt retransmit_count =
     (let e0 = client_log_defaults level event state ''packet event'';
          wire_len = length wire;
          hex_len = (if wire_len > 160 then 160 else wire_len);
          hex = bytes_to_hex (Some (take hex_len wire)) (PROTOCOL_RECV_BUFFER * 2 + 1);
          uid = compute_packet_uid 24 (p_type packet)
                  (if p_type packet = pkt PKT_DATA then int_of_u32 (p_packet_id packet) else 0)
                  attempt (Some wire) wire_len;
          e1 = e0\<lparr>le_peer := Some peer,
                  le_packet_type := Some (packet_type_name (p_type packet)),
                  le_packet_code := uint (p_type packet),
                  le_payload_length := int_of_u32 (p_payload_length packet),
                  le_direction := Some direction,
                  le_retransmit_count := retransmit_count,
                  le_packet_uid := (if uid = Some [] then None else uid)\<rparr>;
          e2 = (if p_type packet \<noteq> pkt PKT_PASS_RESP
                then (e1\<lparr>le_wire_hex := hex\<rparr>)
                       \<lparr>le_message := (if hex_len < wire_len
                          then Some ''packet event; wire_hex preview truncated''
                          else le_message e1)\<rparr>
                else e1\<lparr>le_message := Some ''packet event; password payload redacted''\<rparr>)
      in if p_type packet = pkt PKT_DATA
         then e2\<lparr>le_packet_id := int_of_u32 (p_packet_id packet),
                 le_seq := int_of_u32 (p_packet_id packet),
                 le_bytes := int_of_u32 (p_payload_length packet)\<rparr>
         else if p_type packet = pkt PKT_ACK \<or> p_type packet = pkt PKT_NACK
         then e2\<lparr>le_ack := int_of_u32 (p_ack_id packet),
                 le_window_size := int_of_u32 (p_window_size packet),
                 le_packet_id := int_of_u32 (p_ack_id packet)\<rparr>
         else e2)"

definition client_log_packet ::
  "Logger \<Rightarrow> string \<Rightarrow> string \<Rightarrow> string \<Rightarrow> string \<Rightarrow> byte list \<Rightarrow> Packet \<Rightarrow> string \<Rightarrow> int \<Rightarrow> int
   \<Rightarrow> world \<Rightarrow> world" where
  "client_log_packet lg level event state peer wire packet direction attempt retransmit_count w =
     logger_write lg (Some (client_packet_event level event state peer wire packet direction
                              attempt retransmit_count)) w"

section \<open>Packets in and out\<close>

definition client_send_logged ::
  "Logger \<Rightarrow> sockaddr_in \<Rightarrow> string \<Rightarrow> u16 \<Rightarrow> byte list \<Rightarrow> u32 \<Rightarrow> u32 \<Rightarrow> u32 \<Rightarrow> string \<Rightarrow> string
   \<Rightarrow> int \<Rightarrow> int \<Rightarrow> world \<Rightarrow> int \<times> world" where
  "client_send_logged lg peer peer_text type wire payload_len ack_id window_size state event
       attempt retransmit_count w =
     (let packet = \<lparr>p_type = type, p_payload_length = payload_len, p_packet_id = 0,
                    p_ack_id = ack_id, p_window_size = window_size, p_payload = None, p_wire = []\<rparr>;
          (rc, w1) = send_all_packet wire peer w
      in if rc \<noteq> 0
         then (-1, logger_write lg (Some ((client_log_defaults ''ERROR'' ''SEND_ERROR'' state (w_errno w1))
                    \<lparr>le_peer := Some peer_text,
                     le_packet_type := Some (packet_type_name type),
                     le_packet_code := uint type,
                     le_direction := Some ''Client -> Server'',
                     le_retransmit_count := retransmit_count\<rparr>)) w1)
         else let w2 = client_log_packet lg ''INFO'' event state peer_text wire packet
                         ''Client -> Server'' attempt retransmit_count w1
              in (0, if attempt \<noteq> LOG_INT_UNSET
                     then logger_write lg (Some ((client_log_defaults ''AUTH'' ''AUTH_ATTEMPT_SENT'' state
                            ''password attempt sent'')
                            \<lparr>le_peer := Some peer_text, le_attempt := attempt,
                             le_direction := Some ''Client -> Server''\<rparr>)) w2
                     else w2))"

definition client_recv_logged_timeout ::
  "Logger \<Rightarrow> string \<Rightarrow> string \<Rightarrow> nat \<Rightarrow> int \<Rightarrow> bool \<Rightarrow> world \<Rightarrow> recv_rc \<times> world" where
  "client_recv_logged_timeout lg state event peer_text_size timeout_ms log_timeout w =
     (case recv_packet_timeout timeout_ms w of
        (Inl error, w1) \<Rightarrow>
          if \<not> log_timeout \<and> error = ''timeout'' then (RecvSilent, w1)
          else (RecvFailed, logger_write lg
                 (Some ((client_log_defaults (if error = ''timeout'' then ''WARN'' else ''ERROR'')
                          (if error = ''timeout'' then ''TIMEOUT'' else ''PARSE_ERROR'') state error)
                        \<lparr>le_error_code := Some error, le_direction := Some ''Server -> Client''\<rparr>)) w1)
      | (Inr (packet, peer), w1) \<Rightarrow>
          let peer_text = peer_to_string peer peer_text_size in
          (RecvOk packet peer peer_text,
           client_log_packet lg (if p_type packet = pkt PKT_DATA then ''DATA'' else ''INFO'') event state
             peer_text (p_wire packet) packet ''Server -> Client'' 0 0 w1))"

definition client_recv_logged ::
  "Logger \<Rightarrow> string \<Rightarrow> string \<Rightarrow> nat \<Rightarrow> world \<Rightarrow> recv_rc \<times> world" where
  "client_recv_logged lg state event peer_text_size w =
     client_recv_logged_timeout lg state event peer_text_size (env_timeout_ms w) True w"

text \<open>
  \<open>getaddrinfo\<close> fills in the port it was asked for; asked for \<open>AF_INET\<close> it gives
  addresses of the size the loop looks for, so the first one is taken.
\<close>

definition resolve_server :: "string \<Rightarrow> u16 \<Rightarrow> world \<Rightarrow> sockaddr_in option" where
  "resolve_server host port w =
     (case w_resolve w host of
        Some (a # _) \<Rightarrow> Some (a\<lparr>sin_port := htons LittleEndian port\<rparr>)
      | _ \<Rightarrow> None)"

definition client_trim_line :: "string \<Rightarrow> string" where
  "client_trim_line text = rev (dropWhile (\<lambda>c. c = CHR 0x0A \<or> c = CHR 0x0D) (rev text))"

definition get_password ::
  "bool \<Rightarrow> string list \<Rightarrow> int \<Rightarrow> nat \<Rightarrow> world \<Rightarrow> string option \<times> world" where
  "get_password interactive passwords index n w =
     (if \<not> interactive then
        (if index < 0 \<or> index \<ge> 3 \<or> length (passwords ! nat index) \<ge> n then (None, w)
         else (Some (snprintf_s n (passwords ! nat index)), w))
      else (case fgets_stdin n w of
          (None, w1) \<Rightarrow> (None, w1)
        | (Some line, w1) \<Rightarrow>
            let buf = client_trim_line line in
            if length buf \<le> PROTOCOL_MAX_PASSWORD then (Some buf, w1) else (None, w1)))"

definition send_feedback ::
  "Logger \<Rightarrow> sockaddr_in \<Rightarrow> string \<Rightarrow> u16 \<Rightarrow> u32 \<Rightarrow> u32 \<Rightarrow> string \<Rightarrow> string \<Rightarrow> world \<Rightarrow> int \<times> world" where
  "send_feedback lg peer peer_text type ack_id window_size state event w =
     (case build_feedback_packet type ack_id window_size (Some PROTOCOL_MAX_DATAGRAM) of
        None \<Rightarrow> (-1, w)
      | Some wire \<Rightarrow> client_send_logged lg peer peer_text type wire
            (word_of_nat PROTOCOL_FEEDBACK_PAYLOAD_SIZE) ack_id window_size state event
            LOG_INT_UNSET 0 w)"

section \<open>The reassembly buffer\<close>

record BufferedChunk =
  bc_data :: "byte list"
  bc_length :: u32
  bc_present :: bool

definition empty_chunk :: BufferedChunk where
  "empty_chunk = \<lparr>bc_data = [], bc_length = 0, bc_present = False\<rparr>"

text \<open>\<open>while (new_cap < need) new_cap = new_cap ? new_cap * 2 : 32;\<close>\<close>

function grow_capacity :: "nat \<Rightarrow> nat \<Rightarrow> nat" where
  "grow_capacity new_cap need =
     (if new_cap < need then grow_capacity (if new_cap \<noteq> 0 then new_cap * 2 else 32) need
      else new_cap)"
  by pat_completeness auto
termination
  by (relation "measure (\<lambda>(c, n). n - c)") auto

declare grow_capacity.simps [simp del]

text \<open>The capacity is the length of the list.\<close>

definition ensure_buffer_capacity ::
  "BufferedChunk list \<Rightarrow> nat \<Rightarrow> world \<Rightarrow> BufferedChunk list option \<times> world" where
  "ensure_buffer_capacity bufs need w =
     (if need \<le> length bufs then (Some bufs, w)
      else (let new_cap = grow_capacity (length bufs) need;
                (ok, w1) = malloc_ok w
            in if \<not> ok then (None, w1)
               else (Some (bufs @ replicate (new_cap - length bufs) empty_chunk), w1)))"

record cli_state =
  cs_expected :: u32
  cs_buffered :: "BufferedChunk list"
  cs_received :: u64

definition count_present :: "BufferedChunk list \<Rightarrow> nat" where
  "count_present bs = length (filter bc_present bs)"

lemma count_present_clear:
  "i < length bs \<Longrightarrow> bc_present (bs ! i) \<Longrightarrow>
   count_present (bs[i := (bs ! i)\<lparr>bc_data := d, bc_length := l, bc_present := False\<rparr>]) < count_present bs"
  unfolding count_present_def
proof (induction bs arbitrary: i)
  case (Cons b bs)
  then show ?case by (cases i) auto
qed simp

text \<open>
  The loop that writes out every chunk that is now in order. It ends because each
  round clears one \<open>present\<close> flag.
\<close>

function drain_buffer :: "string \<Rightarrow> cli_state \<Rightarrow> world \<Rightarrow> bool \<times> cli_state \<times> world" where
  "drain_buffer temp_path st w =
     (let i = unat (cs_expected st) in
      if i < length (cs_buffered st) \<and> bc_present (cs_buffered st ! i) then
        (let c = cs_buffered st ! i;
             (ok, w1) = (if bc_length c > 0
                         then fwrite_all temp_path (take (unat (bc_length c)) (bc_data c)) w
                         else (True, w))
         in if \<not> ok then (False, st, w1)
            else drain_buffer temp_path
                   \<lparr>cs_expected = cs_expected st + 1,
                    cs_buffered = (cs_buffered st)[i := c\<lparr>bc_data := [], bc_length := 0, bc_present := False\<rparr>],
                    cs_received = cs_received st + ucast (bc_length c)\<rparr> w1)
      else (True, st, w))"
  by pat_completeness auto
termination
  by (relation "measure (\<lambda>(p, st, w). count_present (cs_buffered st))")
    (auto simp: count_present_clear)

declare drain_buffer.simps [simp del]

section \<open>The reliable receive loop\<close>

text \<open>What a \<open>DATA\<close> packet does (lines 282-346): whether to go on, and the new state.\<close>

definition client_reliable_data ::
  "Logger \<Rightarrow> sockaddr_in \<Rightarrow> string \<Rightarrow> string \<Rightarrow> u32 \<Rightarrow> Packet \<Rightarrow> cli_state \<Rightarrow> world
   \<Rightarrow> bool \<times> cli_state \<times> world" where
  "client_reliable_data lg server_addr server_peer_text temp_path receiver_window packet st w =
     (if p_packet_id packet < cs_expected st then
        (let w1 = logger_write lg (Some ((client_log_defaults ''WARN'' ''DUPLICATE_DATA''
                 ''DATA_TRANSFER'' ''duplicate DATA packet ignored'')
                 \<lparr>le_peer := Some server_peer_text,
                  le_packet_id := int_of_u32 (p_packet_id packet),
                  le_seq := int_of_u32 (p_packet_id packet)\<rparr>)) w;
             (rc, w2) = send_feedback lg server_addr server_peer_text (pkt PKT_ACK) (cs_expected st)
                 receiver_window ''DATA_TRANSFER'' ''SEND_ACK'' w1
         in (rc = 0, st, w2))
      else (case ensure_buffer_capacity (cs_buffered st) (unat (p_packet_id packet) + 1) w of
          (None, w1) \<Rightarrow> (False, st, w1)
        | (Some bs, w1) \<Rightarrow>
          (let i = unat (p_packet_id packet);
               (ok, bs2, w2) =
                 (if \<not> bc_present (bs ! i)
                  then (let (ok, w') = malloc_ok w1 in
                        (ok, bs[i := \<lparr>bc_data = payload_bytes packet (unat (p_payload_length packet)),
                                      bc_length = p_payload_length packet, bc_present = True\<rparr>], w'))
                  else (True, bs, w1))
           in if \<not> ok then (False, st\<lparr>cs_buffered := bs\<rparr>, w2)
              else
               (let (rc, w3) =
                  (if p_packet_id packet > cs_expected st
                   then send_feedback lg server_addr server_peer_text (pkt PKT_NACK) (cs_expected st)
                          receiver_window ''DATA_TRANSFER'' ''SEND_NACK''
                          (logger_write lg (Some ((client_log_defaults ''WARN'' ''OUT_OF_ORDER_DATA''
                             ''DATA_TRANSFER'' ''received out-of-order DATA packet'')
                             \<lparr>le_peer := Some server_peer_text,
                              le_packet_id := int_of_u32 (p_packet_id packet),
                              le_seq := int_of_u32 (p_packet_id packet),
                              le_ack := int_of_u32 (cs_expected st)\<rparr>)) w2)
                   else (0, w2))
                in if rc \<noteq> 0 then (False, st\<lparr>cs_buffered := bs2\<rparr>, w3)
                   else (case drain_buffer temp_path (st\<lparr>cs_buffered := bs2\<rparr>) w3 of
                       (ok2, st2, w4) \<Rightarrow>
                         if \<not> ok2 then (False, st2, w4)
                         else (let (rc2, w5) = send_feedback lg server_addr server_peer_text (pkt PKT_ACK)
                                  (cs_expected st2) receiver_window ''DATA_TRANSFER'' ''SEND_ACK'' w4
                               in (rc2 = 0, st2, w5)))))))"

text \<open>The two events that report the digests.\<close>

definition digest_check_event :: "bool \<Rightarrow> string \<Rightarrow> byte list \<Rightarrow> u64 \<Rightarrow> u32 \<Rightarrow> LogEvent" where
  "digest_check_event matches server_peer_text local_digest received expected =
     (client_log_defaults (if matches then ''SUCCESS'' else ''ERROR'')
        (if matches then ''DIGEST_MATCH'' else ''DIGEST_MISMATCH'') ''VERIFY''
        (if matches then ''SHA1 digest matched'' else ''SHA1 digest mismatched''))
       \<lparr>le_peer := Some server_peer_text, le_sha1 := Some (sha1_to_hex local_digest),
        le_bytes := int_of_u32 (ucast received), le_packet_id := int_of_u32 expected,
        le_result := Some (if matches then ''OK'' else ''ABORT'')\<rparr>"

definition server_digest_event :: "string \<Rightarrow> byte list \<Rightarrow> LogEvent" where
  "server_digest_event server_peer_text digest =
     (client_log_defaults ''INFO'' ''SERVER_DIGEST'' ''VERIFY'' ''server SHA1 digest'')
       \<lparr>le_peer := Some server_peer_text, le_sha1 := Some (sha1_to_hex digest)\<rparr>"

text \<open>What a \<open>TERMINATE\<close> packet does (lines 353-402): the return code.\<close>

definition client_reliable_terminate ::
  "Logger \<Rightarrow> sockaddr_in \<Rightarrow> string \<Rightarrow> string \<Rightarrow> string \<Rightarrow> u32 \<Rightarrow> Packet \<Rightarrow> cli_state \<Rightarrow> world
   \<Rightarrow> int \<times> world" where
  "client_reliable_terminate lg server_addr server_peer_text output_path temp_path receiver_window
       packet st w =
     (case sha1_file w temp_path of
        None \<Rightarrow> (-1, w)
      | Some local_digest \<Rightarrow>
         (let server_digest = payload_bytes packet PROTOCOL_DIGEST_SIZE;
              matches = (server_digest = local_digest);
              w1 = logger_write lg (Some (digest_check_event matches server_peer_text local_digest
                     (cs_received st) (cs_expected st))) w;
              w2 = logger_write lg (Some (server_digest_event server_peer_text server_digest)) w1;
              (rc, w3) = send_feedback lg server_addr server_peer_text (pkt PKT_ACK) (cs_expected st)
                     receiver_window ''VERIFY'' ''SEND_ACK'' w2
          in if rc \<noteq> 0 then (-1, w3)
             else if \<not> matches then (-1, w3)
             else (let (renamed, w4) = rename_file temp_path output_path w3
                   in if \<not> renamed then (-1, w4) else (0, w4))))"

section \<open>What the operations leave unchanged\<close>

lemma client_send_logged_rc [simp]:
  "fst (client_send_logged lg peer pt t wire len a win st ev att r w) =
     (if fst (pop_fault (w_sendfault w)) then -1 else 0)"
  by (simp add: client_send_logged_def send_all_packet_eq Let_def)

lemma client_send_logged_frame [world_simps]:
  "w_env (snd (client_send_logged lg peer pt t wire len a win st ev att r w)) = w_env w"
  "w_fs (snd (client_send_logged lg peer pt t wire len a win st ev att r w)) = w_fs w"
  "w_unwritable (snd (client_send_logged lg peer pt t wire len a win st ev att r w)) = w_unwritable w"
  "w_stop (snd (client_send_logged lg peer pt t wire len a win st ev att r w)) = w_stop w"
  "w_net (snd (client_send_logged lg peer pt t wire len a win st ev att r w)) = w_net w"
  "w_clock (snd (client_send_logged lg peer pt t wire len a win st ev att r w)) = w_clock w"
  "w_tick (snd (client_send_logged lg peer pt t wire len a win st ev att r w)) = w_tick w"
  "w_writefault (snd (client_send_logged lg peer pt t wire len a win st ev att r w)) = w_writefault w"
  "w_renamefault (snd (client_send_logged lg peer pt t wire len a win st ev att r w)) = w_renamefault w"
  "w_allocfault (snd (client_send_logged lg peer pt t wire len a win st ev att r w)) = w_allocfault w"
  "w_stdin (snd (client_send_logged lg peer pt t wire len a win st ev att r w)) = w_stdin w"
  "w_stdout (snd (client_send_logged lg peer pt t wire len a win st ev att r w)) = w_stdout w"
  "file_data (snd (client_send_logged lg peer pt t wire len a win st ev att r w)) p = file_data w p"
  "w_sendfault (snd (client_send_logged lg peer pt t wire len a win st ev att r w)) = snd (pop_fault (w_sendfault w))"
  "w_sent (snd (client_send_logged lg peer pt t wire len a win st ev att r w)) =
     (if fst (pop_fault (w_sendfault w)) then w_sent w else w_sent w @ [(peer, wire)])"
  by (simp_all add: client_send_logged_def client_log_packet_def send_all_packet_eq Let_def
      file_data_def world_simps)

lemma send_feedback_frame [world_simps]:
  "w_env (snd (send_feedback lg peer pt t a win st ev w)) = w_env w"
  "w_fs (snd (send_feedback lg peer pt t a win st ev w)) = w_fs w"
  "w_unwritable (snd (send_feedback lg peer pt t a win st ev w)) = w_unwritable w"
  "w_stop (snd (send_feedback lg peer pt t a win st ev w)) = w_stop w"
  "w_net (snd (send_feedback lg peer pt t a win st ev w)) = w_net w"
  "w_clock (snd (send_feedback lg peer pt t a win st ev w)) = w_clock w"
  "w_tick (snd (send_feedback lg peer pt t a win st ev w)) = w_tick w"
  "w_writefault (snd (send_feedback lg peer pt t a win st ev w)) = w_writefault w"
  "w_renamefault (snd (send_feedback lg peer pt t a win st ev w)) = w_renamefault w"
  "w_allocfault (snd (send_feedback lg peer pt t a win st ev w)) = w_allocfault w"
  "w_stdin (snd (send_feedback lg peer pt t a win st ev w)) = w_stdin w"
  "w_stdout (snd (send_feedback lg peer pt t a win st ev w)) = w_stdout w"
  "file_data (snd (send_feedback lg peer pt t a win st ev w)) p = file_data w p"
  by (simp_all add: send_feedback_def world_simps split: option.splits)

lemma send_feedback_net:
  "send_feedback lg peer pt t a win st ev w = (rc, w1) \<Longrightarrow>
   w_net w1 = w_net w \<and> w_env w1 = w_env w \<and> w_stop w1 = w_stop w \<and> w_fs w1 = w_fs w \<and>
   w_stdout w1 = w_stdout w"
  using send_feedback_frame [of lg peer pt t a win st ev w] by simp

lemma send_feedback_sent:
  "build_feedback_packet t a win (Some PROTOCOL_MAX_DATAGRAM) = Some wire \<Longrightarrow>
   w_sent (snd (send_feedback lg peer pt t a win st ev w)) =
     (if fst (send_feedback lg peer pt t a win st ev w) = 0 then w_sent w @ [(peer, wire)] else w_sent w)"
  by (simp add: send_feedback_def world_simps)

lemma send_feedback_ack:
  "w_sent (snd (send_feedback lg peer pt (pkt PKT_ACK) a win st ev w)) =
     (if fst (send_feedback lg peer pt (pkt PKT_ACK) a win st ev w) = 0
      then w_sent w @ [(peer, encode (Ack a win))] else w_sent w)"
  by (rule send_feedback_sent) (simp add: build_feedback_packet_eq(1) [simplified] protocol_sizes)

lemma send_feedback_nack:
  "w_sent (snd (send_feedback lg peer pt (pkt PKT_NACK) a win st ev w)) =
     (if fst (send_feedback lg peer pt (pkt PKT_NACK) a win st ev w) = 0
      then w_sent w @ [(peer, encode (Nack a win))] else w_sent w)"
  by (rule send_feedback_sent) (simp add: build_feedback_packet_eq(2) [simplified] protocol_sizes)

lemma client_recv_world:
  "snd (client_recv_logged_timeout lg state event n ms b w) = after_recv ms w \<or>
   (\<exists>e. snd (client_recv_logged_timeout lg state event n ms b w) =
        logger_write lg (Some e) (after_recv ms w))"
  by (auto simp: client_recv_logged_timeout_def client_log_packet_def Let_def
      dest: recv_packet_timeout_after split: prod.splits sum.splits)

lemma client_recv_frame [world_simps]:
  "w_env (snd (client_recv_logged lg state event n w)) = w_env w"
  "w_fs (snd (client_recv_logged lg state event n w)) = w_fs w"
  "w_stop (snd (client_recv_logged lg state event n w)) = w_stop w"
  "w_clock (snd (client_recv_logged lg state event n w)) = w_clock w"
  "w_tick (snd (client_recv_logged lg state event n w)) = w_tick w"
  "w_writefault (snd (client_recv_logged lg state event n w)) = w_writefault w"
  "w_renamefault (snd (client_recv_logged lg state event n w)) = w_renamefault w"
  "w_allocfault (snd (client_recv_logged lg state event n w)) = w_allocfault w"
  "w_stdin (snd (client_recv_logged lg state event n w)) = w_stdin w"
  "w_stdout (snd (client_recv_logged lg state event n w)) = w_stdout w"
  "w_sendfault (snd (client_recv_logged lg state event n w)) = w_sendfault w"
  "w_sent (snd (client_recv_logged lg state event n w)) = w_sent w"
  "file_data (snd (client_recv_logged lg state event n w)) p = file_data w p"
  "w_net (snd (client_recv_logged lg state event n w)) = fst (snd (select_loop (w_net w)))"
  using client_recv_world [of lg state event n "env_timeout_ms w" True w]
  by (auto simp: client_recv_logged_def world_simps) (simp_all add: after_recv_def)

lemma client_recv_RecvOk:
  "client_recv_logged lg state event n w = (RecvOk p peer pt, w1) \<Longrightarrow>
   recv_packet_timeout (env_timeout_ms w) w = (Inr (p, peer), after_recv (env_timeout_ms w) w)"
  by (auto simp: client_recv_logged_def client_recv_logged_timeout_def Let_def
      dest: recv_packet_timeout_after split: prod.splits sum.splits if_splits)

lemma client_recv_shrinks:
  "client_recv_logged lg state event n w = (RecvOk p peer pt, w1) \<Longrightarrow>
   length (w_net w1) < length (w_net w)"
  using recv_packet_timeout_shrinks [of "env_timeout_ms w" w "(p, peer)" "after_recv (env_timeout_ms w) w"]
    client_recv_RecvOk [of lg state event n w p peer pt w1]
    client_recv_frame(14) [of lg state event n w]
  by (simp add: after_recv_def)

lemma client_recv_msg_ok:
  "client_recv_logged lg state event n w = (RecvOk p peer pt, w1) \<Longrightarrow>
   msg_ok (message_of p) \<and> p = packet_of (message_of p)"
  by (blast dest: client_recv_RecvOk recv_packet_timeout_ok)

lemma fwrite_all_frame [world_simps]:
  "w_net (snd (fwrite_all p d w)) = w_net w"
  "w_env (snd (fwrite_all p d w)) = w_env w"
  "w_stop (snd (fwrite_all p d w)) = w_stop w"
  "w_sendfault (snd (fwrite_all p d w)) = w_sendfault w"
  "w_allocfault (snd (fwrite_all p d w)) = w_allocfault w"
  "w_renamefault (snd (fwrite_all p d w)) = w_renamefault w"
  "w_sent (snd (fwrite_all p d w)) = w_sent w"
  "w_stdout (snd (fwrite_all p d w)) = w_stdout w"
  by (simp_all add: fwrite_all_def Let_def split: prod.splits)

lemma malloc_ok_frame [world_simps]:
  "w_net (snd (malloc_ok w)) = w_net w" "w_env (snd (malloc_ok w)) = w_env w"
  "w_fs (snd (malloc_ok w)) = w_fs w" "w_sent (snd (malloc_ok w)) = w_sent w"
  "w_stop (snd (malloc_ok w)) = w_stop w" "w_stdout (snd (malloc_ok w)) = w_stdout w"
  "w_sendfault (snd (malloc_ok w)) = w_sendfault w"
  "w_writefault (snd (malloc_ok w)) = w_writefault w"
  "w_renamefault (snd (malloc_ok w)) = w_renamefault w"
  "file_data (snd (malloc_ok w)) p = file_data w p"
  by (simp_all add: malloc_ok_def file_data_def split: prod.splits)

section \<open>Properties of the reassembly buffer\<close>

lemma grow_capacity_bounds:
  "need \<le> grow_capacity cap need \<and> cap \<le> grow_capacity cap need \<and> grow_capacity cap need \<le> max cap (max 32 (2 * need))"
proof (induction cap need rule: grow_capacity.induct)
  case (1 cap need)
  then show ?case by (subst (1 2 3) grow_capacity.simps) (auto simp: max_def split: if_splits)
qed

text \<open>
  Growing the reassembly buffer keeps every slot, makes the needed index valid,
  clears what is new, and at most doubles what is needed (32 slots at least).
\<close>

lemma ensure_buffer_capacity_grows:
  assumes "ensure_buffer_capacity bs need w = (Some bs', w1)"
  shows "need \<le> length bs' \<and> take (length bs) bs' = bs \<and>
    (\<forall>i. length bs \<le> i \<and> i < length bs' \<longrightarrow> bs' ! i = empty_chunk) \<and>
    length bs' \<le> max (length bs) (max 32 (2 * need))"
  using assms grow_capacity_bounds [of need "length bs"]
  by (auto simp: ensure_buffer_capacity_def Let_def nth_append split: if_splits prod.splits)

end
