(* ===== verification/UdpClientMain.thy ===== *)
theory UdpClientMain
  imports UdpClient
begin

text \<open>
  The client's loops and \<open>main\<close> (\<open>src/client.c\<close>, lines 261-695): the reliable
  receive loop, the authentication dialogue, the plain receive loop. Every loop
  ends because each round takes a datagram from the network or leaves.
\<close>

section \<open>Frames of the compound steps\<close>

lemma drain_buffer_frame [world_simps]:
  "drain_buffer p st w = (ok, st1, w1) \<Longrightarrow>
   w_net w1 = w_net w \<and> w_env w1 = w_env w \<and> w_stop w1 = w_stop w \<and> w_sent w1 = w_sent w \<and>
   w_sendfault w1 = w_sendfault w \<and> w_stdout w1 = w_stdout w"
proof (induction p st w arbitrary: ok st1 w1 rule: drain_buffer.induct)
  case (1 p st w)
  show ?case
  proof (cases "unat (cs_expected st) < length (cs_buffered st) \<and>
      bc_present (cs_buffered st ! unat (cs_expected st))")
    case False
    with "1.prems" show ?thesis by (auto simp: drain_buffer.simps Let_def)
  next
    case True
    let ?c = "cs_buffered st ! unat (cs_expected st)"
    obtain wok w2 where wr: "(if bc_length ?c > 0
         then fwrite_all p (take (unat (bc_length ?c)) (bc_data ?c)) w else (True, w)) = (wok, w2)"
      by fastforce
    then have frame: "w_net w2 = w_net w" "w_env w2 = w_env w" "w_stop w2 = w_stop w"
        "w_sent w2 = w_sent w" "w_sendfault w2 = w_sendfault w" "w_stdout w2 = w_stdout w"
      using fwrite_all_frame [of p "take (unat (bc_length ?c)) (bc_data ?c)" w]
      by (auto split: if_splits)
    show ?thesis
    proof (cases wok)
      case False
      with "1.prems" True wr frame show ?thesis
        by (auto simp: drain_buffer.simps [of p st w] Let_def)
    next
      case wok: True
      have "drain_buffer p
         \<lparr>cs_expected = cs_expected st + 1,
          cs_buffered = (cs_buffered st)[unat (cs_expected st) :=
              ?c\<lparr>bc_data := [], bc_length := 0, bc_present := False\<rparr>],
          cs_received = cs_received st + ucast (bc_length ?c)\<rparr> w2 = (ok, st1, w1)"
        using "1.prems" True wr wok by (simp add: drain_buffer.simps [of p st w] Let_def)
      with "1.IH" [OF refl True refl wr [symmetric] refl] wok frame show ?thesis by auto
    qed
  qed
qed

lemma ensure_buffer_capacity_frame:
  "ensure_buffer_capacity bs n w = (r, w1) \<Longrightarrow> w1 = w \<or> w1 = snd (malloc_ok w)"
  by (auto simp: ensure_buffer_capacity_def Let_def split: if_splits prod.splits)

lemma malloc_ok_net: "malloc_ok w = (ok, w1) \<Longrightarrow> w_net w1 = w_net w \<and> w_env w1 = w_env w"
  using malloc_ok_frame(1,2) [of w] by simp

lemma client_reliable_data_net:
  "client_reliable_data lg a pt p win packet st w = (go, st1, w1) \<Longrightarrow>
   w_net w1 = w_net w \<and> w_env w1 = w_env w"
  unfolding client_reliable_data_def Let_def
  by (auto split: if_splits option.splits prod.splits simp: world_simps
      dest!: ensure_buffer_capacity_frame drain_buffer_frame send_feedback_net malloc_ok_net)

lemma get_password_net: "w_net (snd (get_password ia pws i n w)) = w_net w"
  by (auto simp: get_password_def fgets_stdin_def Let_def split: list.splits option.splits prod.splits)

lemma read_stop_net: "w_net (snd (read_stop w)) = w_net w"
  by (simp add: read_stop_def split: option.splits nat.splits)

section \<open>The reliable receive loop\<close>

text \<open>Lines 261-411: the return code and the world.\<close>

function client_reliable_loop ::
  "Logger \<Rightarrow> sockaddr_in \<Rightarrow> string \<Rightarrow> string \<Rightarrow> string \<Rightarrow> u32 \<Rightarrow> cli_state \<Rightarrow> world \<Rightarrow> int \<times> world" where
  "client_reliable_loop lg server_addr server_peer_text output_path temp_path receiver_window st w =
     (case read_stop w of (stop, w0) \<Rightarrow>
      if stop then (-1, w0)
      else (case client_recv_logged lg ''DATA_TRANSFER'' ''RECV_TRANSFER_PACKET'' 64 w0 of
        (RecvOk packet recv_peer recv_peer_text, w1) \<Rightarrow>
          if \<not> is_same_peer server_addr recv_peer then (-1, w1)
          else if p_type packet = pkt PKT_DATA then
            (case client_reliable_data lg server_addr server_peer_text temp_path receiver_window
                    packet st w1 of (go_on, st1, w2) \<Rightarrow>
               if go_on
               then client_reliable_loop lg server_addr server_peer_text output_path temp_path
                      receiver_window st1 w2
               else (-1, w2))
          else if p_type packet = pkt PKT_TERMINATE then
            client_reliable_terminate lg server_addr server_peer_text output_path temp_path
              receiver_window packet st w1
          else (-1, w1)
      | (_, w1) \<Rightarrow> (-1, w1)))"
  by pat_completeness auto

lemma client_round_shrinks:
  assumes "(stop, w0) = read_stop w"
    and "(RecvOk p peer pt, w1) = client_recv_logged lg state event n w0"
  shows "length (w_net w1) < length (w_net w)"
  using client_recv_shrinks [OF assms(2) [symmetric]] read_stop_net [of w]
    assms(1) [symmetric] by simp

lemma client_reliable_round_shrinks:
  assumes "(stop, w0) = read_stop w"
    and "(RecvOk p peer pt, w1) = client_recv_logged lg state event n w0"
    and "(go, st1, w2) = client_reliable_data lg a apt tp win packet st w1"
  shows "length (w_net w2) < length (w_net w)"
  using client_round_shrinks [OF assms(1,2)] client_reliable_data_net [OF assms(3) [symmetric]] by simp

termination client_reliable_loop
  by (relation "measure (\<lambda>(lg, a, apt, op, tp, win, st, w). length (w_net w))")
    (simp, auto simp only: in_measure split_conv dest: client_reliable_round_shrinks)

declare client_reliable_loop.simps [simp del]

section \<open>Authentication\<close>

text \<open>
  The loop of lines 518-573: \<open>Inl\<close> is an exit of \<open>main\<close> with that status, \<open>Inr\<close>
  the world when the loop is left. Removing the partial file follows \<open>finish\<close>.
\<close>

definition client_abort :: "Logger \<Rightarrow> string \<Rightarrow> string \<Rightarrow> world \<Rightarrow> world" where
  "client_abort lg temp_path reason w = remove_file temp_path (client_finish lg ''ABORT'' reason w)"

function client_auth_loop ::
  "Logger \<Rightarrow> sockaddr_in \<Rightarrow> string \<Rightarrow> bool \<Rightarrow> string list \<Rightarrow> string \<Rightarrow> nat \<Rightarrow> world
   \<Rightarrow> int option \<times> world" where
  "client_auth_loop lg server_addr server_peer_text interactive passwords temp_path attempt w =
     (case read_stop w of (stop, w0) \<Rightarrow>
      if stop then (None, w0)
      else (case client_recv_logged lg ''AUTH'' ''RECV_AUTH_PACKET'' 64 w0 of
        (RecvOk packet recv_peer recv_peer_text, w1) \<Rightarrow>
          if \<not> is_same_peer server_addr recv_peer
          then (Some 1, client_abort lg temp_path ''authentication receive failed'' w1)
          else if p_type packet = pkt PKT_PASS_REQ then
            (case (if attempt \<ge> 3 then (None, w1)
                   else get_password interactive passwords (int attempt) (PROTOCOL_MAX_PASSWORD + 1) w1) of
               (None, w2) \<Rightarrow> (Some 1, client_abort lg temp_path ''password attempt unavailable'' w2)
             | (Some password, w2) \<Rightarrow>
                (case (case build_pass_resp_packet (Some password) (Some PROTOCOL_MAX_DATAGRAM) of
                         None \<Rightarrow> (-1, w2)
                       | Some wire \<Rightarrow>
                          client_send_logged lg server_addr server_peer_text (pkt PKT_PASS_RESP) wire
                            (word_of_nat (length password)) 0 0 ''AUTH'' ''SEND_PASS_RESP''
                            (int (Suc attempt)) 0 w2) of
                   (rc, w3) \<Rightarrow>
                     if rc \<noteq> 0
                     then (Some 1, client_abort lg temp_path ''failed to send PASS_RESP'' w3)
                     else client_auth_loop lg server_addr server_peer_text interactive passwords
                            temp_path (Suc attempt) w3))
          else if p_type packet = pkt PKT_PASS_ACCEPT then
            (None, logger_write lg (Some ((client_log_defaults ''AUTH'' ''AUTH_SUCCESS''
                      ''DATA_TRANSFER'' ''authentication accepted'')
                        \<lparr>le_peer := Some server_peer_text, le_attempt := int attempt\<rparr>)) w1)
          else if p_type packet = pkt PKT_REJECT then
            (Some 1, client_abort lg temp_path ''server rejected authentication'' w1)
          else (Some 1, client_abort lg temp_path ''unexpected packet during authentication'' w1)
      | (_, w1) \<Rightarrow> (Some 1, client_abort lg temp_path ''authentication receive failed'' w1)))"
  by pat_completeness auto

lemma client_password_round_shrinks:
  assumes "(stop, w0) = read_stop w"
    and "(RecvOk p peer pt, w1) = client_recv_logged lg state event n w0"
    and "(pw, w2) = (if attempt \<ge> (3::nat) then (None, w1)
           else get_password interactive passwords (int attempt) m w1)"
    and "(rc, w3) = (case build_pass_resp_packet x y of None \<Rightarrow> (-1, w2)
           | Some wire \<Rightarrow> client_send_logged lg a apt t wire len i win st ev att r w2)"
  shows "length (w_net w3) < length (w_net w)"
proof -
  have "w_net w2 = w_net w1"
    using assms(3) get_password_net [of interactive passwords "int attempt" m w1]
    by (auto split: if_splits dest: sym)
  moreover have "w_net w3 = w_net w2"
    using assms(4) client_send_logged_frame(5) [of lg a apt t _ len i win st ev att r w2]
    by (auto split: option.splits dest: sym) (metis snd_conv)
  ultimately show ?thesis using client_round_shrinks [OF assms(1,2)] by simp
qed

termination client_auth_loop
  by (relation "measure (\<lambda>(lg, a, apt, ia, pws, tp, attempt, w). length (w_net w))")
    (simp, auto simp only: in_measure split_conv dest: client_password_round_shrinks)

declare client_auth_loop.simps [simp del]

section \<open>The plain receive loop\<close>

text \<open>What \<open>TERMINATE\<close> does in the plain mode (lines 628-676): the exit status.\<close>

definition client_plain_terminate ::
  "Logger \<Rightarrow> string \<Rightarrow> string \<Rightarrow> string \<Rightarrow> Packet \<Rightarrow> u32 \<Rightarrow> u64 \<Rightarrow> world \<Rightarrow> int \<times> world" where
  "client_plain_terminate lg server_peer_text output_path temp_path packet expected received w =
     (case sha1_file w temp_path of
        None \<Rightarrow> (1, client_abort lg temp_path ''failed to calculate local SHA1'' w)
      | Some local_digest \<Rightarrow>
         (let server_digest = payload_bytes packet PROTOCOL_DIGEST_SIZE;
              matches = (server_digest = local_digest);
              w1 = logger_write lg (Some (digest_check_event matches server_peer_text local_digest
                     received expected)) w;
              w2 = logger_write lg (Some (server_digest_event server_peer_text server_digest)) w1
          in if \<not> matches then (1, client_abort lg temp_path ''SHA1 digest mismatch'' w2)
             else (case rename_file temp_path output_path w2 of (renamed, w3) \<Rightarrow>
               if \<not> renamed then (1, client_abort lg temp_path ''failed to commit output file'' w3)
               else (0, client_finish lg ''OK'' ''file received and SHA1 verified'' w3))))"

text \<open>Lines 590-694: the exit status and the final world.\<close>

function client_plain_loop ::
  "Logger \<Rightarrow> sockaddr_in \<Rightarrow> string \<Rightarrow> string \<Rightarrow> string \<Rightarrow> u32 \<Rightarrow> u64 \<Rightarrow> world \<Rightarrow> int \<times> world" where
  "client_plain_loop lg server_addr server_peer_text output_path temp_path expected received w =
     (case read_stop w of (stop, w0) \<Rightarrow>
      if stop then (1, client_abort lg temp_path ''client stopped'' w0)
      else (case client_recv_logged lg ''DATA_TRANSFER'' ''RECV_TRANSFER_PACKET'' 64 w0 of
        (RecvOk packet recv_peer recv_peer_text, w1) \<Rightarrow>
          if \<not> is_same_peer server_addr recv_peer
          then (1, client_abort lg temp_path ''transfer receive failed'' w1)
          else if p_type packet = pkt PKT_DATA then
            (if p_packet_id packet \<noteq> expected then
               (1, client_abort lg temp_path ''DATA packet id is not continuous''
                  (logger_write lg (Some ((client_log_defaults ''ERROR'' ''SEQUENCE_ERROR''
                     ''DATA_TRANSFER'' ''DATA packet id is not continuous'')
                       \<lparr>le_peer := Some server_peer_text,
                        le_packet_id := int_of_u32 (p_packet_id packet),
                        le_error_code := Some ''SEQUENCE_ERROR''\<rparr>)) w1))
             else (case (if p_payload_length packet > 0
                         then fwrite_all temp_path
                                (payload_bytes packet (unat (p_payload_length packet))) w1
                         else (True, w1)) of (ok, w2) \<Rightarrow>
               if \<not> ok then (1, client_abort lg temp_path ''output file write failed'' w2)
               else client_plain_loop lg server_addr server_peer_text output_path temp_path
                      (expected + 1) (received + ucast (p_payload_length packet)) w2))
          else if p_type packet = pkt PKT_TERMINATE then
            client_plain_terminate lg server_peer_text output_path temp_path packet expected received w1
          else (1, client_abort lg temp_path ''unexpected packet during file transfer'' w1)
      | (_, w1) \<Rightarrow> (1, client_abort lg temp_path ''transfer receive failed'' w1)))"
  by pat_completeness auto

lemma client_plain_round_shrinks:
  assumes "(stop, w0) = read_stop w"
    and "(RecvOk p peer pt, w1) = client_recv_logged lg state event n w0"
    and "(ok, w2) = (if b then fwrite_all tp d w1 else (True, w1))"
  shows "length (w_net w2) < length (w_net w)"
proof -
  have "w_net w2 = w_net w1"
    using assms(3) fwrite_all_frame(1) [of tp d w1] by (auto split: if_splits) (metis snd_conv)
  with client_round_shrinks [OF assms(1,2)] show ?thesis by simp
qed

termination client_plain_loop
  by (relation "measure (\<lambda>(lg, a, apt, op, tp, ex, rcv, w). length (w_net w))")
    (simp, auto simp only: in_measure split_conv dest: client_plain_round_shrinks)

declare client_plain_loop.simps [simp del]

section \<open>main\<close>

text \<open>From the authentication loop to the end (lines 518-695).\<close>

definition client_session ::
  "Logger \<Rightarrow> sockaddr_in \<Rightarrow> string \<Rightarrow> bool \<Rightarrow> string list \<Rightarrow> string \<Rightarrow> string \<Rightarrow> bool \<Rightarrow> world
   \<Rightarrow> int \<times> world" where
  "client_session lg server_addr server_peer_text interactive passwords output_path temp_path
       reliable_mode w =
     (case client_auth_loop lg server_addr server_peer_text interactive passwords temp_path 0 w of
        (Some status, w1) \<Rightarrow> (status, w1)
      | (None, w1) \<Rightarrow>
         if reliable_mode then
           (case client_reliable_loop lg server_addr server_peer_text output_path temp_path
                   (word_of_int (env_reliable_window_size w1))
                   \<lparr>cs_expected = 0, cs_buffered = [], cs_received = 0\<rparr> w1 of
              (rc, w2) \<Rightarrow>
                if rc \<noteq> 0 then (1, client_abort lg temp_path ''reliable transfer failed'' w2)
                else (0, client_finish lg ''OK'' ''file received and SHA1 verified'' w2))
         else client_plain_loop lg server_addr server_peer_text output_path temp_path 0 0 w1)"

text \<open>Lines 483-516: the socket, the partial file, \<open>JOIN_REQ\<close>, then the session.\<close>

definition client_start ::
  "Logger \<Rightarrow> u16 \<Rightarrow> sockaddr_in \<Rightarrow> bool \<Rightarrow> string list \<Rightarrow> string \<Rightarrow> bool \<Rightarrow> world \<Rightarrow> int \<times> world" where
  "client_start lg port server_addr interactive passwords output_path reliable_mode w =
     (let server_peer_text = peer_to_string server_addr 64;
          temp_path = snprintf_s 512 (output_path @ ''.part'') in
      case socket_call w of (sock_ok, w1) \<Rightarrow>
      if \<not> sock_ok then (1, client_finish lg ''ABORT'' (w_errno w1) w1)
      else (case fopen_wb temp_path w1 of (opened, w2) \<Rightarrow>
       if \<not> opened then (1, client_finish lg ''ABORT'' ''output file cannot be created'' w2)
       else
        (let w3 = logger_write lg (Some ((client_log_defaults ''INFO'' ''CLIENT_START'' ''INIT''
                    ''client started'')
                      \<lparr>le_peer := Some server_peer_text, le_port := uint port\<rparr>)) w2 in
         case (case build_control_packet (pkt PKT_JOIN_REQ) (Some PROTOCOL_MAX_DATAGRAM) of
                 None \<Rightarrow> (-1, w3)
               | Some wire \<Rightarrow>
                  client_send_logged lg server_addr server_peer_text (pkt PKT_JOIN_REQ) wire 0 0 0
                    ''WAIT_PASS_REQ'' ''SEND_JOIN_REQ'' LOG_INT_UNSET 0 w3) of (rc, w4) \<Rightarrow>
           if rc \<noteq> 0 then (1, client_abort lg temp_path ''failed to send JOIN_REQ'' w4)
           else client_session lg server_addr server_peer_text interactive passwords output_path
                  temp_path reliable_mode w4)))"

definition client_main :: "string list \<Rightarrow> world \<Rightarrow> int \<times> world" where
  "client_main argv w =
     (let reliable_mode = protocol_is_reliable w in
      case logger_open (Some ''client'') (Some ''logs/client.jsonl'') w of
        (rc, None) \<Rightarrow> (1, print_line ''ABORT'' w)
      | (rc, Some lg) \<Rightarrow>
        if rc \<noteq> 0 then (1, print_line ''ABORT'' w)
        else
         (let parsed = (if length argv = 7
                  then Some (False, [argv ! 3, argv ! 4, argv ! 5], argv ! 6)
                  else if length argv = 4 then Some (True, [], argv ! 3) else None) in
          case parsed of
            None \<Rightarrow> (1, client_finish lg ''ABORT'' ''invalid arguments'' w)
          | Some (interactive, passwords, output_path) \<Rightarrow>
             (case (if length output_path + 6 \<ge> 512 then None else parse_port (Some (argv ! 2))) of
                None \<Rightarrow> (1, client_finish lg ''ABORT'' ''invalid port or output path'' w)
              | Some port \<Rightarrow>
                 (case resolve_server (argv ! 1) port w of
                    None \<Rightarrow> (1, client_finish lg ''ABORT'' ''server name resolution failed'' w)
                  | Some server_addr \<Rightarrow>
                     client_start lg port server_addr interactive passwords output_path
                       reliable_mode w))))"

end
