(* ===== verification/UdpClientFacts.thy ===== *)
theory UdpClientFacts
  imports UdpClientMain UdpLink
begin

text \<open>
  What the client guarantees: the output file changes only when a file whose digest
  the server announced is committed under its name; every other end removes the
  partial file and leaves the output as it was. In the reliable mode the partial
  file is always the concatenation of the chunks acknowledged.
\<close>

section \<open>Receiving\<close>

lemma client_recv_arrivals:
  "client_recv_logged lg state event n w = (RecvOk p peer pt, w1) \<Longrightarrow>
   arrivals (w_net w) = (peer, encode (message_of p)) # arrivals (w_net w1)"
  using recv_packet_arrivals [OF client_recv_RecvOk [of lg state event n w p peer pt w1]]
    client_recv_frame(14) [of lg state event n w]
  by (simp add: after_recv_def)

lemma client_recv_emits: "client_recv_logged lg state event n w = (r, w1) \<Longrightarrow> emits P w w1"
  using client_recv_world [of lg state event n "env_timeout_ms w" True w] emits_after_recv [of P w "env_timeout_ms w"]
  by (auto simp: client_recv_logged_def intro: emits_log)

text \<open>A receive leaves the files, the output and the faults alone.\<close>

lemma client_recv_same:
  "client_recv_logged lg state event n w = (r, w1) \<Longrightarrow>
   w_fs w1 = w_fs w \<and> w_stdout w1 = w_stdout w \<and> w_sent w1 = w_sent w \<and>
   w_writefault w1 = w_writefault w \<and> w_renamefault w1 = w_renamefault w \<and>
   w_allocfault w1 = w_allocfault w \<and> w_sendfault w1 = w_sendfault w \<and> w_stop w1 = w_stop w"
  using client_recv_frame [of lg state event n w] by simp

lemma client_recv_next:
  assumes "w_net w = deliver peer m # rest" "msg_ok m"
  shows "\<exists>w1. client_recv_logged lg state event n w = (RecvOk (packet_of m) peer (peer_to_string peer n), w1) \<and>
    w_net w1 = rest"
  using recv_packet_timeout_message [OF assms(1) [unfolded deliver_def] assms(2)]
  by (simp add: client_recv_logged_def client_recv_logged_timeout_def client_log_packet_def Let_def world_simps)

lemma client_recv_packet:
  "client_recv_logged lg state event n w = (RecvOk p peer pt, w1) \<Longrightarrow>
   \<exists>m. msg_ok m \<and> p = packet_of m \<and> arrivals (w_net w) = (peer, encode m) # arrivals (w_net w1)"
  using client_recv_msg_ok client_recv_arrivals by blast

lemma read_stop_same:
  "read_stop w = (b, w1) \<Longrightarrow>
   w_net w1 = w_net w \<and> w_fs w1 = w_fs w \<and> w_stdout w1 = w_stdout w \<and> w_sent w1 = w_sent w \<and>
   w_writefault w1 = w_writefault w \<and> w_renamefault w1 = w_renamefault w \<and>
   w_allocfault w1 = w_allocfault w \<and> w_sendfault w1 = w_sendfault w \<and> w_env w1 = w_env w"
  by (auto simp: read_stop_def split: option.splits nat.splits)

section \<open>How a session ends\<close>

definition ok_line :: string where "ok_line = ''OK'' @ [CHR 0x0A]"
definition abort_line :: string where "abort_line = ''ABORT'' @ [CHR 0x0A]"

definition aborted :: "string \<Rightarrow> world \<Rightarrow> world \<Rightarrow> bool" where
  "aborted temp_path w w' \<longleftrightarrow>
     w_fs w' = (w_fs w)(temp_path := None) \<and> w_stdout w' = w_stdout w @ [abort_line]"

definition committed :: "string \<Rightarrow> string \<Rightarrow> byte list \<Rightarrow> world \<Rightarrow> world \<Rightarrow> bool" where
  "committed output_path temp_path contents w w' \<longleftrightarrow>
     w_fs w' = (w_fs w)(output_path \<mapsto> new_file contents, temp_path := None) \<and>
     w_stdout w' = w_stdout w @ [ok_line]"

lemma client_finish_same [world_simps]:
  "w_fs (client_finish lg res reason w) = w_fs w"
  "w_sent (client_finish lg res reason w) = w_sent w"
  "w_net (client_finish lg res reason w) = w_net w"
  "w_env (client_finish lg res reason w) = w_env w"
  "w_stdout (client_finish lg res reason w) = w_stdout w @ [res @ [CHR 0x0A]]"
  by (simp_all add: client_finish_def Let_def print_line_def world_simps)

lemma client_abort_same [world_simps]:
  "w_fs (client_abort lg tp reason w) = (w_fs w)(tp := None)"
  "w_sent (client_abort lg tp reason w) = w_sent w"
  "w_net (client_abort lg tp reason w) = w_net w"
  "w_env (client_abort lg tp reason w) = w_env w"
  "w_stdout (client_abort lg tp reason w) = w_stdout w @ [abort_line]"
  by (simp_all add: client_abort_def remove_file_def world_simps abort_line_def)

lemma aborted_client_abort:
  "(w_fs w1)(tp := None) = (w_fs w)(tp := None) \<Longrightarrow> w_stdout w1 = w_stdout w \<Longrightarrow>
   aborted tp w (client_abort lg tp reason w1)"
  by (simp add: aborted_def world_simps)

lemma rename_file_cases:
  assumes "rename_file tp op w = (b, w1)" "op \<noteq> tp" "w_fs w tp = Some f"
  shows "w_stdout w1 = w_stdout w \<and> w_sent w1 = w_sent w \<and> w_net w1 = w_net w \<and> w_env w1 = w_env w \<and>
    w_fs w1 = (if b then (w_fs w)(op \<mapsto> f, tp := None) else w_fs w)"
  using assms by (auto simp: rename_file_def Let_def split: prod.splits if_splits)

lemma rename_file_ok:
  "w_renamefault w = [] \<Longrightarrow> w_fs w tp = Some f \<Longrightarrow> fst (rename_file tp op w)"
  by (simp add: rename_file_def Let_def)

lemma fwrite_all_file:
  "fwrite_all tp d w = (True, w1) \<Longrightarrow> w_fs w tp = Some (new_file d0) \<Longrightarrow>
   w_fs w1 = (w_fs w)(tp \<mapsto> new_file (d0 @ d))"
  by (auto simp: fwrite_all_def file_data_def new_file_def Let_def split: prod.splits if_splits)

lemma fwrite_all_fails:
  "fwrite_all tp d w = (False, w1) \<Longrightarrow> w_fs w1 = w_fs w"
  by (auto simp: fwrite_all_def Let_def split: prod.splits if_splits)

section \<open>The plain mode\<close>

text \<open>The conditional write of a \<open>DATA\<close> payload appends the payload.\<close>

lemma write_payload:
  assumes "(if p_payload_length p > 0 then fwrite_all tp (payload_bytes p (unat (p_payload_length p))) w
            else (True, w)) = (ok, w1)"
    and p: "p = packet_of (Data i d)" "length d \<le> 1000"
    and f: "w_fs w tp = Some (new_file d0)"
  shows "w_fs w1 = (if ok then (w_fs w)(tp \<mapsto> new_file (d0 @ d)) else w_fs w) \<and>
    w_net w1 = w_net w \<and> w_stdout w1 = w_stdout w \<and> w_sent w1 = w_sent w \<and> w_env w1 = w_env w"
proof (cases "d = []")
  case True
  with assms(1) p f show ?thesis by auto
next
  case False
  have u: "unat (word_of_nat (length d) :: u32) = length d" using p(2) by (simp add: unat_small)
  moreover from this have "(word_of_nat (length d) :: u32) > 0" using False by (metis length_0_conv unat_0 word_gt_0)
  ultimately have wr: "fwrite_all tp d w = (ok, w1)"
    using assms(1) p(1) by (simp add: payload_bytes_def)
  then show ?thesis
    using fwrite_all_file [of tp d w w1 d0] fwrite_all_fails [of tp d w w1] f fwrite_all_frame [of tp d w]
    by (cases ok) auto
qed

lemma client_plain_terminate_outcome:
  assumes "client_plain_terminate lg pt op tp (packet_of (Terminate dg)) ex rcv w = (st, w1)"
    and "length dg = 20" "op \<noteq> tp" "w_fs w tp = Some (new_file d0)"
  shows "(st = 0 \<and> dg = sha1_digest d0 \<and> committed op tp d0 w w1) \<or> (st = 1 \<and> aborted tp w w1)"
proof -
  have sha: "sha1_file w tp = Some (sha1_digest d0)"
    using assms(4) by (simp add: sha1_file_digest new_file_def)
  have pay: "payload_bytes (packet_of (Terminate dg)) PROTOCOL_DIGEST_SIZE = dg"
    using assms(2) by (simp add: payload_bytes_def protocol_sizes)
  define wl where "wl = logger_write lg (Some (server_digest_event pt dg))
    (logger_write lg (Some (digest_check_event (dg = sha1_digest d0) pt (sha1_digest d0) rcv ex)) w)"
  have wl: "w_fs wl = w_fs w" "w_stdout wl = w_stdout w" by (simp_all add: wl_def world_simps)
  obtain b w3 where ren: "rename_file tp op wl = (b, w3)" by fastforce
  from rename_file_cases [OF this assms(3)] wl assms(4)
  have w3: "w_fs w3 = (if b then (w_fs w)(op \<mapsto> new_file d0, tp := None) else w_fs w)"
    "w_stdout w3 = w_stdout w" by auto
  have run: "(if dg \<noteq> sha1_digest d0 then (1, client_abort lg tp ''SHA1 digest mismatch'' wl)
     else if \<not> b then (1, client_abort lg tp ''failed to commit output file'' w3)
     else (0, client_finish lg ''OK'' ''file received and SHA1 verified'' w3)) = (st, w1)"
    using assms(1) unfolding client_plain_terminate_def Let_def sha pay option.case wl_def [symmetric] ren
    by (simp split: if_splits)
  consider "dg \<noteq> sha1_digest d0" | "dg = sha1_digest d0" "\<not> b" | "dg = sha1_digest d0" b by blast
  then show ?thesis
  proof cases
    case 1
    with run wl show ?thesis by (auto intro: aborted_client_abort)
  next
    case 2
    with run w3 show ?thesis by (auto intro: aborted_client_abort)
  next
    case 3
    with run w3 show ?thesis by (auto simp: committed_def world_simps ok_line_def)
  qed
qed

text \<open>
  The plain loop either commits exactly the payloads of consecutively numbered
  \<open>DATA\<close> packets that the server sent before a matching \<open>TERMINATE\<close>, or aborts.
\<close>

definition transcript :: "sockaddr_in \<Rightarrow> u32 \<Rightarrow> byte list list \<Rightarrow> byte list \<Rightarrow> world \<Rightarrow> bool" where
  "transcript peer i ds dg w \<longleftrightarrow>
     (\<exists>rest. arrivals (w_net w) =
        map (\<lambda>m. (peer, encode m)) (data_messages i ds @ [Terminate dg]) @ rest)"

lemma aborted_start:
  "w_fs w1 = w_fs w \<Longrightarrow> w_stdout w1 = w_stdout w \<Longrightarrow> aborted tp w1 w2 \<Longrightarrow> aborted tp w w2"
  by (simp add: aborted_def)

lemma client_plain_loop_outcome:
  "client_plain_loop lg a pt op tp ex rcv w = (st, w1) \<Longrightarrow> op \<noteq> tp \<Longrightarrow>
   w_fs w tp = Some (new_file d0) \<Longrightarrow>
   (st = 0 \<and> (\<exists>ds. transcript a ex ds (sha1_digest (d0 @ concat ds)) w \<and>
                     committed op tp (d0 @ concat ds) w w1)) \<or>
   (st = 1 \<and> aborted tp w w1)"
proof (induction lg a pt op tp ex rcv w arbitrary: st w1 d0 rule: client_plain_loop.induct)
  case (1 lg a pt op tp ex rcv w)
  note unf = client_plain_loop.simps [of lg a pt op tp ex rcv w]
  obtain stop wa where stop: "read_stop w = (stop, wa)" by fastforce
  note sa = read_stop_same [OF stop]
  show ?case
  proof (cases stop)
    case True
    with "1.prems"(1) unf stop sa show ?thesis by (auto intro: aborted_client_abort)
  next
    case nostop: False
    obtain r wb where rcv: "client_recv_logged lg ''DATA_TRANSFER'' ''RECV_TRANSFER_PACKET'' 64 wa = (r, wb)"
      by fastforce
    note sb = client_recv_same [OF rcv]
    have fb: "w_fs wb = w_fs w" "w_stdout wb = w_stdout w" using sa sb by auto
    show ?thesis
    proof (cases "\<exists>p ptx. r = RecvOk p a ptx")
      case False
      then have "(st, w1) = (1, client_abort lg tp ''transfer receive failed'' wb)"
        using "1.prems"(1) unf stop nostop rcv by (cases r) auto
      with fb show ?thesis by (auto intro: aborted_client_abort)
    next
      case True
      then obtain p ptx where r: "r = RecvOk p a ptx" by blast
      from client_recv_packet [OF rcv [unfolded r]] obtain m where m: "msg_ok m" "p = packet_of m"
        and arr: "arrivals (w_net w) = (a, encode m) # arrivals (w_net wb)"
        using sa by auto
      show ?thesis
      proof (cases m)
        case (Data i d)
        show ?thesis
        proof (cases "i = ex")
          case False
          with "1.prems"(1) unf stop nostop rcv r m Data fb show ?thesis
            by (auto intro!: aborted_client_abort simp: world_simps)
        next
          case True
          obtain ok wc where wr: "(if p_payload_length p > 0
              then fwrite_all tp (payload_bytes p (unat (p_payload_length p))) wb else (True, wb)) = (ok, wc)"
            by fastforce
          have len: "length d \<le> 1000" using m Data by simp
          from write_payload [OF wr m(2) [unfolded Data] len] "1.prems"(3) fb
          have wc: "w_fs wc = (if ok then (w_fs w)(tp \<mapsto> new_file (d0 @ d)) else w_fs w)"
            "w_net wc = w_net wb" "w_stdout wc = w_stdout w" by auto
          have pt: "p_type p = pkt PKT_DATA" "p_packet_id p = ex" using m Data True by simp_all
          show ?thesis
          proof (cases ok)
            case False
            with "1.prems"(1) unf stop nostop rcv r pt wr
            have "(st, w1) = (1, client_abort lg tp ''output file write failed'' wc)" by simp
            with wc False show ?thesis by (auto intro: aborted_client_abort)
          next
            case ok: True
            from "1.prems"(1) unf stop nostop rcv r pt wr ok
            have rec: "client_plain_loop lg a pt op tp (ex + 1) (rcv + ucast (p_payload_length p)) wc = (st, w1)"
              by simp
            have fc: "w_fs wc tp = Some (new_file (d0 @ d))" using wc ok by simp
            have same: "is_same_peer a a" by simp
            from "1.IH" [OF stop [symmetric] nostop rcv [symmetric] r _ pt(1) _ wr [symmetric] _ rec "1.prems"(2) fc]
            consider (good) ds where "st = 0" "transcript a (ex + 1) ds (sha1_digest ((d0 @ d) @ concat ds)) wc"
                "committed op tp ((d0 @ d) @ concat ds) wc w1"
              | (bad) "st = 1" "aborted tp wc w1"
              using same pt(2) ok by blast
            then show ?thesis
            proof cases
              case good
              then have "transcript a ex (d # ds) (sha1_digest (d0 @ concat (d # ds))) w"
                using arr wc(2) Data True by (simp add: transcript_def del: opaque)
              moreover have "committed op tp (d0 @ concat (d # ds)) w w1"
                using good(3) wc ok "1.prems"(2) by (auto simp: committed_def)
              ultimately show ?thesis using good(1) by blast
            next
              case bad
              with wc ok show ?thesis by (auto simp: aborted_def)
            qed
          qed
        qed
      next
        case (Terminate dg)
        from "1.prems"(1) unf stop nostop rcv r m Terminate
        have run: "client_plain_terminate lg pt op tp (packet_of (Terminate dg)) ex rcv wb = (st, w1)"
          by simp
        have "length dg = 20" "w_fs wb tp = Some (new_file d0)" using m Terminate "1.prems"(3) fb by auto
        from client_plain_terminate_outcome [OF run this(1) "1.prems"(2) this(2)]
        consider "st = 0" "dg = sha1_digest d0" "committed op tp d0 wb w1" | "st = 1" "aborted tp wb w1"
          by blast
        then show ?thesis
        proof cases
          case 1
          then have "transcript a ex [] (sha1_digest (d0 @ concat [])) w"
            using arr Terminate by (simp add: transcript_def del: opaque)
          moreover have "committed op tp (d0 @ concat []) w w1" using 1 fb by (simp add: committed_def)
          ultimately show ?thesis using 1(1) by blast
        next
          case 2
          with fb show ?thesis by (auto simp: aborted_def)
        qed
      qed (use "1.prems"(1) unf stop nostop rcv r m fb in \<open>auto intro!: aborted_client_abort\<close>)
    qed
  qed
qed

text \<open>
  Nothing goes wrong: no signal, no write or rename fails.
\<close>

definition client_calm :: "world \<Rightarrow> bool" where
  "client_calm w \<longleftrightarrow> w_stop w = None \<and> w_writefault w = [] \<and> w_renamefault w = [] \<and>
     w_allocfault w = [] \<and> w_sendfault w = []"

lemma calm_stop: "client_calm w \<Longrightarrow> read_stop w = (False, w)"
  by (simp add: client_calm_def read_stop_def)

lemma calm_recv:
  assumes "client_calm w" "w_net w = deliver peer m # rest" "msg_ok m"
  obtains w1 where "client_recv_logged lg state event n w = (RecvOk (packet_of m) peer (peer_to_string peer n), w1)"
    "w_net w1 = rest" "client_calm w1" "w_fs w1 = w_fs w" "w_stdout w1 = w_stdout w" "w_sent w1 = w_sent w"
    "w_env w1 = w_env w"
proof -
  obtain w1 where r: "client_recv_logged lg state event n w = (RecvOk (packet_of m) peer (peer_to_string peer n), w1)"
    "w_net w1 = rest" using client_recv_next [OF assms(2,3)] by blast
  with client_recv_same [OF r(1)] client_recv_frame(1) [of lg state event n w] assms(1) that
  show ?thesis by (simp add: client_calm_def)
qed

lemma calm_write:
  assumes "client_calm w" "length d \<le> 1000" "w_fs w tp = Some (new_file d0)"
  obtains w1 where "(if p_payload_length (packet_of (Data i d)) > 0
      then fwrite_all tp (payload_bytes (packet_of (Data i d)) (unat (p_payload_length (packet_of (Data i d))))) w
      else (True, w)) = (True, w1)" "client_calm w1" "w_net w1 = w_net w"
    "w_fs w1 = (w_fs w)(tp \<mapsto> new_file (d0 @ d))" "w_stdout w1 = w_stdout w" "w_sent w1 = w_sent w"
    "w_env w1 = w_env w"
proof -
  let ?p = "packet_of (Data i d)"
  obtain ok w1 where wr: "(if p_payload_length ?p > 0
      then fwrite_all tp (payload_bytes ?p (unat (p_payload_length ?p))) w else (True, w)) = (ok, w1)"
    by fastforce
  then have "ok \<and> client_calm w1"
    using assms(1) by (auto simp: fwrite_all_def Let_def client_calm_def split: if_splits)
  with wr write_payload [OF wr refl assms(2,3)] that show ?thesis by simp
qed

lemma client_plain_loop_complete:
  "client_calm w \<Longrightarrow> op \<noteq> tp \<Longrightarrow> w_fs w tp = Some (new_file d0) \<Longrightarrow> (\<And>d. d \<in> set ds \<Longrightarrow> length d \<le> 1000) \<Longrightarrow>
   w_net w = map (deliver a) (data_messages ex ds @ [Terminate (sha1_digest (d0 @ concat ds))]) @ rest \<Longrightarrow>
   \<exists>w1. client_plain_loop lg a pt op tp ex rcv w = (0, w1) \<and> committed op tp (d0 @ concat ds) w w1"
proof (induction ds arbitrary: w d0 ex rcv)
  case Nil
  let ?m = "Terminate (sha1_digest d0)"
  have net: "w_net w = deliver a ?m # rest" using Nil.prems(5) by simp
  obtain wb where rcv: "client_recv_logged lg ''DATA_TRANSFER'' ''RECV_TRANSFER_PACKET'' 64 w
      = (RecvOk (packet_of ?m) a (peer_to_string a 64), wb)"
    and wb: "client_calm wb" "w_fs wb = w_fs w" "w_stdout wb = w_stdout w"
    using calm_recv [OF Nil.prems(1) net, of lg "''DATA_TRANSFER''" "''RECV_TRANSFER_PACKET''" 64] by auto
  obtain st w1 where fin: "client_plain_terminate lg pt op tp (packet_of ?m) ex rcv wb = (st, w1)" by fastforce
  have run: "client_plain_loop lg a pt op tp ex rcv w = (st, w1)"
    using fin by (subst client_plain_loop.simps) (simp add: calm_stop [OF Nil.prems(1)] rcv)
  have ftp: "w_fs wb tp = Some (new_file d0)" using wb Nil.prems(3) by simp
  have "st = 0"
  proof -
    have "sha1_file wb tp = Some (sha1_digest d0)" using ftp by (simp add: sha1_file_digest new_file_def)
    moreover have "fst (rename_file tp op (logger_write lg e (logger_write lg e' wb)))" for e e'
      by (rule rename_file_ok) (use wb ftp in \<open>simp_all add: world_simps client_calm_def\<close>)
    ultimately show ?thesis
      using fin by (simp add: client_plain_terminate_def Let_def payload_bytes_def protocol_sizes
          split: prod.splits) (metis fst_conv)
  qed
  with client_plain_terminate_outcome [OF fin _ Nil.prems(2) ftp] run wb show ?case
    by (simp add: committed_def)
next
  case (Cons d ds)
  let ?m = "Data ex d"
  have len: "length d \<le> 1000" using Cons.prems(4) by simp
  then have ok: "msg_ok ?m" by simp
  have net: "w_net w = deliver a ?m # map (deliver a) (data_messages (ex + 1) ds @
      [Terminate (sha1_digest ((d0 @ d) @ concat ds))]) @ rest"
    using Cons.prems(5) by simp
  obtain wb where rcv: "client_recv_logged lg ''DATA_TRANSFER'' ''RECV_TRANSFER_PACKET'' 64 w
      = (RecvOk (packet_of ?m) a (peer_to_string a 64), wb)"
    and wb: "client_calm wb" "w_fs wb = w_fs w" "w_stdout wb = w_stdout w"
      "w_net wb = map (deliver a) (data_messages (ex + 1) ds @
      [Terminate (sha1_digest ((d0 @ d) @ concat ds))]) @ rest"
    using calm_recv [OF Cons.prems(1) net ok, of lg "''DATA_TRANSFER''" "''RECV_TRANSFER_PACKET''" 64] by metis
  have "w_fs wb tp = Some (new_file d0)" using wb Cons.prems(3) by simp
  from calm_write [OF wb(1) len this, of ex] obtain wc where
    wr: "(if p_payload_length (packet_of ?m) > 0
      then fwrite_all tp (payload_bytes (packet_of ?m) (unat (p_payload_length (packet_of ?m)))) wb
      else (True, wb)) = (True, wc)"
    and wc: "client_calm wc" "w_net wc = w_net wb" "w_fs wc = (w_fs wb)(tp \<mapsto> new_file (d0 @ d))"
      "w_stdout wc = w_stdout wb" by metis
  define p where "p = packet_of ?m"
  have p: "p_type p = pkt PKT_DATA" "p_packet_id p = ex" by (simp_all add: p_def)
  obtain w1 where "client_plain_loop lg a pt op tp (ex + 1)
        (rcv + ucast (p_payload_length p)) wc = (0, w1)"
    and com: "committed op tp ((d0 @ d) @ concat ds) wc w1"
    using Cons.IH [OF wc(1) Cons.prems(2), of "d0 @ d" "ex + 1" "rcv + ucast (p_payload_length p)"]
      wc wb Cons.prems(4) by auto
  then have "client_plain_loop lg a pt op tp ex rcv w = (0, w1)"
    using wr [folded p_def] p
    by (subst client_plain_loop.simps) (simp add: calm_stop [OF Cons.prems(1)] rcv [folded p_def])
  moreover have "committed op tp (d0 @ concat (d # ds)) w w1"
    using com wc wb by (simp add: committed_def)
  ultimately show ?case by blast
qed

section \<open>The reliable mode\<close>

text \<open>
  Against a sender of the chunks \<open>D 0 .. D (N-1)\<close>: the partial file holds the first
  \<open>expected\<close> chunks and every buffered slot holds its own chunk.
\<close>

definition slot_ok :: "nat \<Rightarrow> (nat \<Rightarrow> byte list) \<Rightarrow> nat \<Rightarrow> BufferedChunk \<Rightarrow> bool" where
  "slot_ok N D i b \<longleftrightarrow>
     (bc_present b \<longrightarrow> i < N \<and> bc_data b = D i \<and> bc_length b = word_of_nat (length (D i)))"

definition slots_ok :: "nat \<Rightarrow> (nat \<Rightarrow> byte list) \<Rightarrow> BufferedChunk list \<Rightarrow> bool" where
  "slots_ok N D bs \<longleftrightarrow> (\<forall>i < length bs. slot_ok N D i (bs ! i))"

definition prefix_of :: "(nat \<Rightarrow> byte list) \<Rightarrow> nat \<Rightarrow> byte list" where
  "prefix_of D n = concat (map D [0..<n])"

definition cli_inv :: "nat \<Rightarrow> (nat \<Rightarrow> byte list) \<Rightarrow> string \<Rightarrow> cli_state \<Rightarrow> world \<Rightarrow> bool" where
  "cli_inv N D tp st w \<longleftrightarrow>
     unat (cs_expected st) \<le> N \<and>
     w_fs w tp = Some (new_file (prefix_of D (unat (cs_expected st)))) \<and>
     slots_ok N D (cs_buffered st)"

definition chunks_fit :: "nat \<Rightarrow> (nat \<Rightarrow> byte list) \<Rightarrow> bool" where
  "chunks_fit N D \<longleftrightarrow> N < 4294967296 \<and> (\<forall>i < N. length (D i) \<le> 1000)"

lemma chunks_fit_length: "chunks_fit N D \<Longrightarrow> i < N \<Longrightarrow> length (D i) \<le> 1000"
  by (simp add: chunks_fit_def)

text \<open>Only the partial file changed, and nothing was printed.\<close>

definition only_temp :: "string \<Rightarrow> world \<Rightarrow> world \<Rightarrow> bool" where
  "only_temp tp w w' \<longleftrightarrow>
     (w_fs w')(tp := None) = (w_fs w)(tp := None) \<and> w_stdout w' = w_stdout w"

lemma only_temp_refl [simp]: "only_temp tp w w"
  by (simp add: only_temp_def)

lemma only_temp_trans: "only_temp tp w w1 \<Longrightarrow> only_temp tp w1 w2 \<Longrightarrow> only_temp tp w w2"
  by (simp add: only_temp_def)

lemma only_temp_same: "w_fs w' = w_fs w \<Longrightarrow> w_stdout w' = w_stdout w \<Longrightarrow> only_temp tp w w'"
  by (simp add: only_temp_def)

lemma slots_ok_update: "slots_ok N D bs \<Longrightarrow> slot_ok N D i b \<Longrightarrow> slots_ok N D (bs[i := b])"
  unfolding slots_ok_def
proof (intro allI impI)
  fix j assume "\<forall>i < length bs. slot_ok N D i (bs ! i)" "slot_ok N D i b" "j < length (bs[i := b])"
  then show "slot_ok N D j (bs[i := b] ! j)" by (cases "j = i") simp_all
qed

lemma slots_ok_extend:
  assumes "slots_ok N D bs"
  shows "slots_ok N D (bs @ replicate k empty_chunk)"
  unfolding slots_ok_def
proof (intro allI impI)
  fix i assume "i < length (bs @ replicate k empty_chunk)"
  with assms show "slot_ok N D i ((bs @ replicate k empty_chunk) ! i)"
    by (cases "i < length bs") (auto simp: nth_append slots_ok_def slot_ok_def empty_chunk_def)
qed

lemma unat_next:
  assumes "unat e < N" "N < 4294967296"
  shows "unat (e + 1 :: u32) = Suc (unat e)"
proof -
  have "unat e + unat (1 :: u32) < 2 ^ LENGTH(32)" using assms by simp
  then have "unat (e + 1) = unat e + unat (1 :: u32)" by (simp add: unat_plus_if_size word_size)
  then show ?thesis by simp
qed

lemma prefix_of_Suc: "prefix_of D (Suc n) = prefix_of D n @ D n"
  by (simp add: prefix_of_def)

lemma drain_buffer_inv:
  "drain_buffer tp st w = (ok, st1, w1) \<Longrightarrow> cli_inv N D tp st w \<Longrightarrow> chunks_fit N D \<Longrightarrow>
   cli_inv N D tp st1 w1 \<and> unat (cs_expected st) \<le> unat (cs_expected st1) \<and> only_temp tp w w1 \<and>
   length (cs_buffered st1) = length (cs_buffered st)"
proof (induction tp st w arbitrary: ok st1 w1 rule: drain_buffer.induct)
  case (1 tp st w)
  let ?e = "unat (cs_expected st)"
  let ?c = "cs_buffered st ! ?e"
  note unf = drain_buffer.simps [of tp st w]
  show ?case
  proof (cases "?e < length (cs_buffered st) \<and> bc_present ?c")
    case False
    with "1.prems"(1) unf have "st1 = st" "w1 = w" by (auto simp: Let_def)
    with "1.prems"(2) show ?thesis by simp
  next
    case True
    with "1.prems"(2) have slot: "?e < N" "bc_data ?c = D ?e" "bc_length ?c = word_of_nat (length (D ?e))"
      by (auto simp: cli_inv_def slots_ok_def slot_ok_def)
    have u: "unat (bc_length ?c) = length (D ?e)"
      using slot chunks_fit_length [OF "1.prems"(3) slot(1)] by (simp add: unat_small)
    have ftp: "w_fs w tp = Some (new_file (prefix_of D ?e))" using "1.prems"(2) by (simp add: cli_inv_def)
    obtain wok w2 where wr: "(if bc_length ?c > 0
        then fwrite_all tp (take (unat (bc_length ?c)) (bc_data ?c)) w else (True, w)) = (wok, w2)" by fastforce
    have w2: "w_fs w2 = (if wok then (w_fs w)(tp \<mapsto> new_file (prefix_of D (Suc ?e))) else w_fs w) \<and>
        w_stdout w2 = w_stdout w"
    proof (cases "bc_length ?c > 0")
      case False
      then have "D ?e = []" using u by (simp add: word_gt_0)
      with False wr ftp show ?thesis by (auto simp: prefix_of_Suc)
    next
      case True
      with wr slot u have "fwrite_all tp (D ?e) w = (wok, w2)" by simp
      then show ?thesis
        using fwrite_all_file [of tp "D ?e" w w2 "prefix_of D ?e"] fwrite_all_fails [of tp "D ?e" w w2] ftp
          fwrite_all_frame(8) [of tp "D ?e" w]
        by (cases wok) (auto simp: prefix_of_Suc)
    qed
    let ?st = "\<lparr>cs_expected = cs_expected st + 1,
        cs_buffered = (cs_buffered st)[?e := ?c\<lparr>bc_data := [], bc_length := 0, bc_present := False\<rparr>],
        cs_received = cs_received st + ucast (bc_length ?c)\<rparr>"
    show ?thesis
    proof (cases wok)
      case False
      with "1.prems"(1) unf True wr have "st1 = st" "w1 = w2" by (simp_all add: Let_def)
      with w2 False "1.prems"(2) show ?thesis by (simp add: cli_inv_def only_temp_def)
    next
      case wok: True
      with "1.prems"(1) unf True wr have rec: "drain_buffer tp ?st w2 = (ok, st1, w1)" by (simp add: Let_def)
      have e1: "unat (cs_expected st + 1) = Suc ?e"
        using unat_next slot(1) "1.prems"(3) by (simp add: chunks_fit_def)
      have "slots_ok N D (cs_buffered ?st)"
        using "1.prems"(2) by (auto simp: cli_inv_def slot_ok_def intro: slots_ok_update)
      then have inv: "cli_inv N D tp ?st w2"
        using w2 wok e1 slot(1) by (simp add: cli_inv_def)
      from "1.IH" [OF refl True refl wr [symmetric] refl _ rec inv "1.prems"(3)] wok e1
      have "cli_inv N D tp st1 w1" "Suc ?e \<le> unat (cs_expected st1)" "only_temp tp w2 w1"
        "length (cs_buffered st1) = length (cs_buffered st)" by simp_all
      moreover have "only_temp tp w w2" using w2 wok by (simp add: only_temp_def)
      ultimately show ?thesis by (auto intro: only_temp_trans)
    qed
  qed
qed

text \<open>The feedback the client sends never exceeds \<open>n\<close>.\<close>

definition feedback_upto :: "sockaddr_in \<Rightarrow> nat \<Rightarrow> sockaddr_in \<times> byte list \<Rightarrow> bool" where
  "feedback_upto a n x \<longleftrightarrow>
     (\<exists>k win. unat k \<le> n \<and> (x = (a, encode (Ack k win)) \<or> x = (a, encode (Nack k win))))"

lemma feedback_upto_mono: "feedback_upto a n x \<Longrightarrow> n \<le> m \<Longrightarrow> feedback_upto a m x"
  unfolding feedback_upto_def using le_trans by blast

lemma emits_feedback_mono:
  "emits (feedback_upto a n) w w1 \<Longrightarrow> n \<le> m \<Longrightarrow> emits (feedback_upto a m) w w1"
  by (erule emits_mono) (erule (1) feedback_upto_mono)

lemma feedback_upto_ack: "feedback_upto a n (a, encode (Ack k win)) \<Longrightarrow> unat k \<le> n"
  by (auto simp: feedback_upto_def simp del: opaque)

lemma send_feedback_emits:
  assumes "send_feedback lg a pt t k win st ev w = (rc, w1)"
    and "t = pkt PKT_ACK \<or> t = pkt PKT_NACK" "unat k \<le> n"
  shows "emits (feedback_upto a n) w w1 \<and> w_fs w1 = w_fs w \<and> w_stdout w1 = w_stdout w \<and> only_temp tp w w1"
proof -
  have "feedback_upto a n (a, encode (Ack k win))" "feedback_upto a n (a, encode (Nack k win))"
    using assms(3) by (auto simp: feedback_upto_def)
  moreover obtain xs where "w_sent w1 = w_sent w @ xs"
    "set xs \<subseteq> {(a, encode (Ack k win)), (a, encode (Nack k win))}"
  proof (cases "t = pkt PKT_ACK")
    case True
    with assms(1) send_feedback_ack [of lg a pt k win st ev w] that [of "[]"] that [of "[(a, encode (Ack k win))]"]
    show ?thesis by (auto simp del: opaque split: if_splits)
  next
    case False
    with assms(1,2) send_feedback_nack [of lg a pt k win st ev w] that [of "[]"] that [of "[(a, encode (Nack k win))]"]
    show ?thesis by (auto simp del: opaque split: if_splits)
  qed
  moreover note send_feedback_net [OF assms(1)]
  ultimately show ?thesis
    by (auto simp del: opaque simp: only_temp_def intro!: emits_send [of w1 w xs])
qed

lemma logged_first:
  "emits P (logger_write lg e w) w1 \<Longrightarrow> emits P w w1"
  "only_temp tp (logger_write lg e w) w1 \<Longrightarrow> only_temp tp w w1"
  by (auto intro: emits_trans [OF emits_logger_write]) (simp add: only_temp_def world_simps)

lemma grow_capacity_ge: "need \<le> grow_capacity c need"
  by (induction c need rule: grow_capacity.induct) (subst grow_capacity.simps, simp)

lemma drain_buffer_emits: "drain_buffer p st w = (ok, st1, w1) \<Longrightarrow> emits P w w1"
  by (drule drain_buffer_frame) (simp add: emits_same)

lemma malloc_ok_all: "malloc_ok w = (b, w1) \<Longrightarrow> emits P w w1 \<and> w_fs w1 = w_fs w \<and> only_temp tp w w1"
  by (auto simp: malloc_ok_def only_temp_def split: prod.splits intro: emits_same)

lemma ensure_buffer_capacity_inv:
  "ensure_buffer_capacity bs n w = (r, w1) \<Longrightarrow>
   emits P w w1 \<and> w_fs w1 = w_fs w \<and> only_temp tp w w1 \<and>
   (slots_ok N D bs \<longrightarrow> (\<forall>bs1. r = Some bs1 \<longrightarrow> slots_ok N D bs1 \<and> n \<le> length bs1))"
  using grow_capacity_ge [of n "length bs"] malloc_ok_all [of w _ _ P tp]
  by (auto simp: ensure_buffer_capacity_def Let_def slots_ok_extend split: if_splits prod.splits)

lemma client_reliable_data_inv:
  assumes step: "client_reliable_data lg a pt tp win p st w = (go, st1, w1)"
    and p: "p_packet_id p = i" "payload_bytes p (unat (p_payload_length p)) = d"
      "p_payload_length p = word_of_nat (length d)"
    and i: "unat i < N" "d = D (unat i)" and fit: "chunks_fit N D" and inv: "cli_inv N D tp st w"
  shows "cli_inv N D tp st1 w1 \<and> unat (cs_expected st) \<le> unat (cs_expected st1) \<and> only_temp tp w w1 \<and>
    emits (feedback_upto a (unat (cs_expected st1))) w w1"
proof (cases "i < cs_expected st")
  case True
  let ?dup = "logger_write lg (Some ((client_log_defaults ''WARN'' ''DUPLICATE_DATA''
                 ''DATA_TRANSFER'' ''duplicate DATA packet ignored'')
                 \<lparr>le_peer := Some pt, le_packet_id := int_of_u32 i, le_seq := int_of_u32 i\<rparr>)) w"
  obtain rc w2 where fb: "send_feedback lg a pt (pkt PKT_ACK) (cs_expected st) win ''DATA_TRANSFER''
      ''SEND_ACK'' ?dup = (rc, w2)" by fastforce
  with step True have "st1 = st" "w1 = w2" by (simp_all add: client_reliable_data_def p del: pkt.simps)
  with send_feedback_emits [OF fb, of "unat (cs_expected st)" tp] inv logged_first show ?thesis
    by (simp add: cli_inv_def world_simps) blast
next
  case False
  let ?E = "\<lambda>s. emits (feedback_upto a (unat (cs_expected s)))"
  obtain r wa where cap: "ensure_buffer_capacity (cs_buffered st) (unat i + 1) w = (r, wa)" by fastforce
  note capi = ensure_buffer_capacity_inv [OF cap, of _ tp N D]
  show ?thesis
  proof (cases r)
    case None
    with step False cap have "st1 = st" "w1 = wa" by (simp_all add: client_reliable_data_def p)
    with capi inv show ?thesis by (simp add: cli_inv_def)
  next
    case (Some bs)
    with capi [of "\<lambda>_. True"] inv have bs: "slots_ok N D bs" "unat i < length bs"
      by (auto simp: cli_inv_def)
    let ?new = "\<lparr>bc_data = d, bc_length = word_of_nat (length d), bc_present = True\<rparr>"
    obtain ok bs2 wb where store: "(if \<not> bc_present (bs ! unat i)
        then (let (ok, w') = malloc_ok wa in (ok, bs[unat i := ?new], w')) else (True, bs, wa)) = (ok, bs2, wb)"
      by (metis prod_cases3)
    have "slot_ok N D (unat i) ?new" using i by (simp add: slot_ok_def)
    then have bs2: "slots_ok N D bs2"
      using store bs slots_ok_update by (auto split: if_splits prod.splits)
    have wb: "emits P w wb" "w_fs wb = w_fs w" "only_temp tp w wb" for P
      using store capi malloc_ok_all [of wa _ wb P tp]
      by (auto split: if_splits prod.splits intro: emits_trans only_temp_trans)
    have inv2: "cli_inv N D tp (st\<lparr>cs_buffered := bs2\<rparr>) wb"
      using inv bs2 wb(2) by (simp add: cli_inv_def)
    let ?gap = "logger_write lg (Some ((client_log_defaults ''WARN'' ''OUT_OF_ORDER_DATA''
                             ''DATA_TRANSFER'' ''received out-of-order DATA packet'')
                             \<lparr>le_peer := Some pt, le_packet_id := int_of_u32 i, le_seq := int_of_u32 i,
                              le_ack := int_of_u32 (cs_expected st)\<rparr>)) wb"
    obtain rc wc where nack: "(if i > cs_expected st
        then send_feedback lg a pt (pkt PKT_NACK) (cs_expected st) win ''DATA_TRANSFER'' ''SEND_NACK'' ?gap
        else (0, wb)) = (rc, wc)" by fastforce
    have "emits (feedback_upto a (unat (cs_expected st))) w wc" "w_fs wc = w_fs w" "only_temp tp w wc"
      if "i > cs_expected st"
    proof -
      have "send_feedback lg a pt (pkt PKT_NACK) (cs_expected st) win ''DATA_TRANSFER'' ''SEND_NACK'' ?gap
          = (rc, wc)" using nack that by simp
      note fb = send_feedback_emits [OF this, of "unat (cs_expected st)" tp, simplified]
      show "emits (feedback_upto a (unat (cs_expected st))) w wc"
        using wb(1) logged_first(1) fb by (blast intro: emits_trans)
      show "w_fs wc = w_fs w" using fb wb(2) by (simp add: world_simps)
      show "only_temp tp w wc" using wb(3) logged_first(2) fb by (blast intro: only_temp_trans)
    qed
    then have wc: "emits (feedback_upto a (unat (cs_expected st))) w wc" "w_fs wc = w_fs w" "only_temp tp w wc"
      using nack wb by (cases "i > cs_expected st", simp_all)+
    have inv3: "cli_inv N D tp (st\<lparr>cs_buffered := bs2\<rparr>) wc"
      using inv bs2 wc(2) by (simp add: cli_inv_def)
    obtain ok2 st2 wd where drain: "drain_buffer tp (st\<lparr>cs_buffered := bs2\<rparr>) wc = (ok2, st2, wd)"
      by (metis prod_cases3)
    from drain_buffer_inv [OF drain inv3 fit]
    have d: "cli_inv N D tp st2 wd" "unat (cs_expected st) \<le> unat (cs_expected st2)" "only_temp tp w wd"
      using wc(3) by (auto intro: only_temp_trans)
    have ed: "?E st2 w wd"
      using emits_feedback_mono [OF wc(1) d(2)] drain_buffer_emits [OF drain] by (rule emits_trans)
    obtain rc2 we where ack: "send_feedback lg a pt (pkt PKT_ACK) (cs_expected st2) win ''DATA_TRANSFER''
        ''SEND_ACK'' wd = (rc2, we)" by fastforce
    from send_feedback_emits [OF ack, of "unat (cs_expected st2)" tp]
    have e: "?E st2 w we" "w_fs we = w_fs wd" "only_temp tp w we"
      using ed d(3) by (auto intro: emits_trans only_temp_trans)
    have unf: "(if \<not> ok then (False, st\<lparr>cs_buffered := bs\<rparr>, wb)
        else if rc \<noteq> 0 then (False, st\<lparr>cs_buffered := bs2\<rparr>, wc)
        else if \<not> ok2 then (False, st2, wd) else (rc2 = 0, st2, we)) = (go, st1, w1)"
      using step False cap Some store nack drain ack
      by (simp add: client_reliable_data_def p p(2) [unfolded p(3)] Let_def del: pkt.simps cong: if_cong)
    consider (nomem) "\<not> ok" | (nonack) ok "rc \<noteq> 0" | (nowrite) ok "rc = 0" "\<not> ok2" | (sent) ok "rc = 0" ok2
      by blast
    then show ?thesis
    proof cases
      case nomem
      with unf wb bs(1) inv show ?thesis by (auto simp: cli_inv_def)
    next
      case nonack
      with unf wc inv3 show ?thesis by auto
    next
      case nowrite
      with unf d ed show ?thesis by auto
    next
      case sent
      with unf d e show ?thesis by (auto simp: cli_inv_def)
    qed
  qed
qed

lemma client_reliable_terminate_outcome:
  assumes run: "client_reliable_terminate lg a pt op tp win (packet_of (Terminate dg)) st w = (rc, w1)"
    and "length dg = 20" "op \<noteq> tp" "w_fs w tp = Some (new_file d0)"
  shows "emits (feedback_upto a (unat (cs_expected st))) w w1 \<and> w_stdout w1 = w_stdout w \<and>
    ((rc = 0 \<and> dg = sha1_digest d0 \<and> w_fs w1 = (w_fs w)(op \<mapsto> new_file d0, tp := None)) \<or>
     (rc = -1 \<and> w_fs w1 = w_fs w))"
proof -
  have sha: "sha1_file w tp = Some (sha1_digest d0)"
    using assms(4) by (simp add: sha1_file_digest new_file_def)
  have pay: "payload_bytes (packet_of (Terminate dg)) PROTOCOL_DIGEST_SIZE = dg"
    using assms(2) by (simp add: payload_bytes_def protocol_sizes)
  define wl where "wl = logger_write lg (Some (server_digest_event pt dg))
    (logger_write lg (Some (digest_check_event (dg = sha1_digest d0) pt (sha1_digest d0)
       (cs_received st) (cs_expected st))) w)"
  have wl: "w_fs wl = w_fs w" "w_stdout wl = w_stdout w" "emits P w wl" for P
    by (auto simp: wl_def world_simps intro: emits_log)
  obtain r w3 where fb: "send_feedback lg a pt (pkt PKT_ACK) (cs_expected st) win ''VERIFY'' ''SEND_ACK'' wl
      = (r, w3)" by fastforce
  from send_feedback_emits [OF fb, of "unat (cs_expected st)" tp] wl
  have w3: "emits (feedback_upto a (unat (cs_expected st))) w w3" "w_fs w3 = w_fs w" "w_stdout w3 = w_stdout w"
    by (auto intro: emits_trans)
  obtain b w4 where ren: "rename_file tp op w3 = (b, w4)" by fastforce
  have w4: "w_fs w4 = (if b then (w_fs w)(op \<mapsto> new_file d0, tp := None) else w_fs w)"
    "w_stdout w4 = w_stdout w" "w_sent w4 = w_sent w3" "w_net w4 = w_net w3" "w_env w4 = w_env w3"
    using rename_file_cases [OF ren assms(3), of "new_file d0"] w3 assms(4) by auto
  have e4: "emits (feedback_upto a (unat (cs_expected st))) w w4"
    using w3(1) emits_same [OF w4(3,4,5)] w4(2) w3(3) by (auto intro: emits_trans)
  have "(if r \<noteq> 0 then (-1, w3) else if dg \<noteq> sha1_digest d0 then (-1, w3)
      else if \<not> b then (-1, w4) else (0, w4)) = (rc, w1)"
    using run [unfolded client_reliable_terminate_def Let_def sha pay option.case wl_def [symmetric] fb ren split_conv] .
  then show ?thesis using w3 w4 e4 by (auto split: if_splits)
qed

text \<open>
  The whole loop, when every \<open>DATA\<close> packet the server's address sends carries one of
  the chunks \<open>D\<close> under its number.
\<close>

definition data_arrivals_ok :: "sockaddr_in \<Rightarrow> nat \<Rightarrow> (nat \<Rightarrow> byte list) \<Rightarrow> world \<Rightarrow> bool" where
  "data_arrivals_ok a N D w \<longleftrightarrow>
     (\<forall>i d. msg_ok (Data i d) \<and> (a, encode (Data i d)) \<in> set (arrivals (w_net w)) \<longrightarrow>
        unat i < N \<and> d = D (unat i))"

lemma data_arrivals_ok_emits: "emits P w w1 \<Longrightarrow> data_arrivals_ok a N D w \<Longrightarrow> data_arrivals_ok a N D w1"
  unfolding data_arrivals_ok_def using emits_arrivals by blast

definition reliable_result ::
  "sockaddr_in \<Rightarrow> string \<Rightarrow> string \<Rightarrow> (nat \<Rightarrow> byte list) \<Rightarrow> nat \<Rightarrow> world \<Rightarrow> int \<Rightarrow> world \<Rightarrow> bool" where
  "reliable_result a op tp D n w rc w1 \<longleftrightarrow>
     emits (feedback_upto a n) w w1 \<and> w_stdout w1 = w_stdout w \<and>
     ((rc = 0 \<and> w_fs w1 = (w_fs w)(op \<mapsto> new_file (prefix_of D n), tp := None) \<and>
       (a, encode (Terminate (sha1_digest (prefix_of D n)))) \<in> set (arrivals (w_net w))) \<or>
      (rc = -1 \<and> only_temp tp w w1))"

lemma reliable_result_prepend:
  assumes "reliable_result a op tp D n w1 rc w2" "only_temp tp w w1" "emits (feedback_upto a m) w w1" "m \<le> n"
    "op \<noteq> tp"
  shows "reliable_result a op tp D n w rc w2"
proof -
  have "emits (feedback_upto a n) w w2"
    using emits_feedback_mono [OF assms(3,4)] assms(1) by (auto simp: reliable_result_def intro: emits_trans)
  moreover have "(w_fs w1)(op \<mapsto> f, tp := None) = (w_fs w)(op \<mapsto> f, tp := None)" for f
    using assms(2,5) by (simp add: only_temp_def fun_upd_twist)
  ultimately show ?thesis
    using assms(1,2) emits_arrivals [OF assms(3)]
    by (auto simp: reliable_result_def only_temp_def)
qed

lemma client_reliable_loop_outcome:
  "client_reliable_loop lg a pt op tp win st w = (rc, w1) \<Longrightarrow> cli_inv N D tp st w \<Longrightarrow> chunks_fit N D \<Longrightarrow>
   data_arrivals_ok a N D w \<Longrightarrow> op \<noteq> tp \<Longrightarrow>
   \<exists>n. unat (cs_expected st) \<le> n \<and> n \<le> N \<and> reliable_result a op tp D n w rc w1"
proof (induction lg a pt op tp win st w arbitrary: rc w1 rule: client_reliable_loop.induct)
  case (1 lg a pt op tp win st w)
  note unf = client_reliable_loop.simps [of lg a pt op tp win st w]
  let ?e = "unat (cs_expected st)"
  have le: "?e \<le> N" using "1.prems"(2) by (simp add: cli_inv_def)
  obtain stop wa where stop: "read_stop w = (stop, wa)" by fastforce
  note sa = read_stop_same [OF stop]
  have ea: "emits P w wa" for P using sa by (intro emits_same) auto
  show ?case
  proof (cases stop)
    case True
    with "1.prems"(1) unf stop have "rc = -1" "w1 = wa" by simp_all
    with sa ea le show ?thesis by (auto simp: reliable_result_def only_temp_def intro!: exI [of _ ?e])
  next
    case nostop: False
    obtain r wb where rcv: "client_recv_logged lg ''DATA_TRANSFER'' ''RECV_TRANSFER_PACKET'' 64 wa = (r, wb)"
      by fastforce
    note sb = client_recv_same [OF rcv]
    have fb: "w_fs wb = w_fs w" "w_stdout wb = w_stdout w" "only_temp tp w wb"
      using sa sb by (auto simp: only_temp_def)
    have eb: "emits P w wb" for P using ea client_recv_emits [OF rcv] by (rule emits_trans)
    have fail: ?thesis if "rc = -1" "w1 = wb"
      using that fb eb le by (auto simp: reliable_result_def intro!: exI [of _ ?e])
    show ?thesis
    proof (cases "\<exists>p ptx. r = RecvOk p a ptx")
      case False
      then have "(rc, w1) = (-1, wb)" using "1.prems"(1) unf stop nostop rcv by (cases r) auto
      then show ?thesis using fail by simp
    next
      case True
      then obtain p ptx where r: "r = RecvOk p a ptx" by blast
      from client_recv_packet [OF rcv [unfolded r]] obtain m where m: "msg_ok m" "p = packet_of m"
        and arr: "arrivals (w_net w) = (a, encode m) # arrivals (w_net wb)"
        using sa by auto
      have invb: "cli_inv N D tp st wb" using "1.prems"(2) fb by (simp add: cli_inv_def)
      show ?thesis
      proof (cases m)
        case (Data i d)
        have i: "unat i < N" "d = D (unat i)"
          using "1.prems"(4) arr m Data by (auto simp: data_arrivals_ok_def)
        have p: "p_type p = pkt PKT_DATA" "p_packet_id p = i" "p_payload_length p = word_of_nat (length d)"
          "payload_bytes p (unat (p_payload_length p)) = d"
          using m Data by (simp_all add: payload_bytes_def unat_small)
        obtain go st2 wc where step: "client_reliable_data lg a pt tp win p st wb = (go, st2, wc)"
          by (metis prod_cases3)
        from client_reliable_data_inv [OF step p(2,4,3) i "1.prems"(3) invb]
        have s: "cli_inv N D tp st2 wc" "?e \<le> unat (cs_expected st2)" "only_temp tp w wc"
          "emits (feedback_upto a (unat (cs_expected st2))) w wc"
          using fb(3) eb by (auto intro: only_temp_trans emits_trans)
        have le2: "unat (cs_expected st2) \<le> N" using s(1) by (simp add: cli_inv_def)
        show ?thesis
        proof (cases go)
          case False
          with "1.prems"(1) unf stop nostop rcv r p(1) step have "rc = -1" "w1 = wc" by simp_all
          with s le2 show ?thesis
            by (auto simp: reliable_result_def only_temp_def intro!: exI [of _ "unat (cs_expected st2)"])
        next
          case go: True
          with "1.prems"(1) unf stop nostop rcv r p(1) step
          have rec: "client_reliable_loop lg a pt op tp win st2 wc = (rc, w1)" by simp
          have "data_arrivals_ok a N D wc" using s(4) "1.prems"(4) by (rule data_arrivals_ok_emits)
          from "1.IH" [OF stop [symmetric] nostop rcv [symmetric] r _ p(1) step [symmetric] refl go rec s(1)
              "1.prems"(3) this "1.prems"(5)]
          obtain n where "unat (cs_expected st2) \<le> n" "n \<le> N" "reliable_result a op tp D n wc rc w1" by auto
          with reliable_result_prepend [OF this(3) s(3,4) this(1) "1.prems"(5)] s(2) show ?thesis
            by (blast intro: le_trans)
        qed
      next
        case (Terminate dg)
        with "1.prems"(1) unf stop nostop rcv r m
        have run: "client_reliable_terminate lg a pt op tp win (packet_of (Terminate dg)) st wb = (rc, w1)"
          by simp
        have "w_fs wb tp = Some (new_file (prefix_of D ?e))" using invb by (simp add: cli_inv_def)
        from client_reliable_terminate_outcome [OF run _ "1.prems"(5) this] m Terminate
        have t: "emits (feedback_upto a ?e) wb w1" "w_stdout w1 = w_stdout wb"
          "(rc = 0 \<and> dg = sha1_digest (prefix_of D ?e) \<and>
              w_fs w1 = (w_fs wb)(op \<mapsto> new_file (prefix_of D ?e), tp := None)) \<or>
           (rc = -1 \<and> w_fs w1 = w_fs wb)" by auto
        have "emits (feedback_upto a ?e) w w1" using eb t(1) by (rule emits_trans)
        with t fb arr Terminate le show ?thesis
          by (auto simp: reliable_result_def only_temp_def simp del: opaque intro!: exI [of _ ?e])
      qed (use "1.prems"(1) unf stop nostop rcv r m fail in auto)
    qed
  qed
qed

end
