(* ===== verification/UdpClientRun.thy ===== *)
theory UdpClientRun
  imports UdpClientFacts
begin

text \<open>
  A whole client run against an arbitrary network: authentication, either transfer
  mode, and \<open>main\<close>. A run commits an output file or leaves it alone, and prints
  the verdict that goes with its exit status.
\<close>

section \<open>The reliable mode against any sender\<close>

definition temp_file :: "string \<Rightarrow> world \<Rightarrow> bool" where
  "temp_file tp w \<longleftrightarrow> (\<exists>d. w_fs w tp = Some (new_file d))"

lemma temp_file_same: "w_fs w1 = w_fs w \<Longrightarrow> temp_file tp w \<Longrightarrow> temp_file tp w1"
  by (simp add: temp_file_def)

lemma fwrite_all_temp:
  "fwrite_all tp d w = (ok, w1) \<Longrightarrow> temp_file tp w \<Longrightarrow> temp_file tp w1 \<and> only_temp tp w w1"
  using fwrite_all_file [of tp d w w1] fwrite_all_fails [of tp d w w1] fwrite_all_frame(8) [of tp d w]
  by (cases ok) (fastforce simp: temp_file_def only_temp_def)+

lemma drain_buffer_temp:
  "drain_buffer tp st w = (ok, st1, w1) \<Longrightarrow> temp_file tp w \<Longrightarrow> temp_file tp w1 \<and> only_temp tp w w1"
proof (induction tp st w arbitrary: ok st1 w1 rule: drain_buffer.induct)
  case (1 tp st w)
  let ?e = "unat (cs_expected st)"
  let ?c = "cs_buffered st ! ?e"
  note unf = drain_buffer.simps [of tp st w]
  show ?case
  proof (cases "?e < length (cs_buffered st) \<and> bc_present ?c")
    case False
    with "1.prems"(1) unf have "st1 = st" "w1 = w" by (auto simp: Let_def)
    with "1.prems"(2) show ?thesis by simp
  next
    case True
    obtain wok w2 where wr: "(if bc_length ?c > 0
        then fwrite_all tp (take (unat (bc_length ?c)) (bc_data ?c)) w else (True, w)) = (wok, w2)" by fastforce
    have w2: "temp_file tp w2 \<and> only_temp tp w w2"
      using wr "1.prems"(2) fwrite_all_temp by (auto split: if_splits)
    let ?st = "\<lparr>cs_expected = cs_expected st + 1,
        cs_buffered = (cs_buffered st)[?e := ?c\<lparr>bc_data := [], bc_length := 0, bc_present := False\<rparr>],
        cs_received = cs_received st + ucast (bc_length ?c)\<rparr>"
    show ?thesis
    proof (cases wok)
      case False
      with "1.prems"(1) unf True wr have "w1 = w2" by (simp add: Let_def)
      with w2 show ?thesis by simp
    next
      case wok: True
      with "1.prems"(1) unf True wr have rec: "drain_buffer tp ?st w2 = (ok, st1, w1)" by (simp add: Let_def)
      from "1.IH" [OF refl True refl wr [symmetric] refl _ rec] wok w2
      show ?thesis by (auto intro: only_temp_trans)
    qed
  qed
qed

lemma send_feedback_temp:
  "send_feedback lg a pt t k win st ev w = (rc, w1) \<Longrightarrow> temp_file tp w \<Longrightarrow>
   temp_file tp w1 \<and> only_temp tp w w1"
  by (drule send_feedback_net) (simp add: temp_file_def only_temp_def)

lemma malloc_ok_temp: "malloc_ok w = (b, w1) \<Longrightarrow> temp_file tp w \<Longrightarrow> temp_file tp w1 \<and> only_temp tp w w1"
  by (auto simp: malloc_ok_def temp_file_def only_temp_def split: prod.splits)

lemma ensure_capacity_temp:
  "ensure_buffer_capacity bs n w = (r, w1) \<Longrightarrow> temp_file tp w \<Longrightarrow> temp_file tp w1 \<and> only_temp tp w w1"
  by (auto simp: ensure_buffer_capacity_def Let_def dest: malloc_ok_temp split: if_splits prod.splits)

lemma log_temp:
  "temp_file tp (logger_write lg e w) \<longleftrightarrow> temp_file tp w"
  "only_temp tp (logger_write lg e w) w1 \<longleftrightarrow> only_temp tp w w1"
  by (simp_all add: temp_file_def only_temp_def world_simps)

lemma client_reliable_data_temp:
  assumes "client_reliable_data lg a pt tp win p st w = (go, st1, w1)" "temp_file tp w"
  shows "temp_file tp w1 \<and> only_temp tp w w1"
proof (cases "p_packet_id p < cs_expected st")
  case True
  with assms show ?thesis
    by (auto simp: client_reliable_data_def Let_def log_temp split: prod.splits
        dest!: send_feedback_temp [where tp = tp])
next
  case False
  obtain r wa where cap: "ensure_buffer_capacity (cs_buffered st) (unat (p_packet_id p) + 1) w = (r, wa)"
    by fastforce
  have wa: "temp_file tp wa" "only_temp tp w wa" using ensure_capacity_temp [OF cap] assms(2) by auto
  show ?thesis
  proof (cases r)
    case None
    with assms(1) False cap wa show ?thesis by (simp add: client_reliable_data_def)
  next
    case (Some bs)
    obtain ok bs2 wb where store: "(if \<not> bc_present (bs ! unat (p_packet_id p))
        then (let (ok, w') = malloc_ok wa in
              (ok, bs[unat (p_packet_id p) :=
                 \<lparr>bc_data = payload_bytes p (unat (p_payload_length p)),
                  bc_length = p_payload_length p, bc_present = True\<rparr>], w'))
        else (True, bs, wa)) = (ok, bs2, wb)"
      by (metis prod_cases3)
    have wb: "temp_file tp wb" "only_temp tp w wb"
      using store wa malloc_ok_temp [of wa _ wb tp] by (auto split: if_splits prod.splits intro: only_temp_trans)
    let ?gap = "logger_write lg (Some ((client_log_defaults ''WARN'' ''OUT_OF_ORDER_DATA''
                             ''DATA_TRANSFER'' ''received out-of-order DATA packet'')
                             \<lparr>le_peer := Some pt, le_packet_id := int_of_u32 (p_packet_id p),
                              le_seq := int_of_u32 (p_packet_id p),
                              le_ack := int_of_u32 (cs_expected st)\<rparr>)) wb"
    obtain rc wc where nack: "(if p_packet_id p > cs_expected st
        then send_feedback lg a pt (pkt PKT_NACK) (cs_expected st) win ''DATA_TRANSFER'' ''SEND_NACK'' ?gap
        else (0, wb)) = (rc, wc)" by fastforce
    have wc: "temp_file tp wc" "only_temp tp w wc"
      using nack wb send_feedback_temp [of lg a pt _ _ win _ _ ?gap rc wc tp]
      by (auto simp: log_temp split: if_splits intro: only_temp_trans)
    obtain ok2 st2 wd where drain: "drain_buffer tp (st\<lparr>cs_buffered := bs2\<rparr>) wc = (ok2, st2, wd)"
      by (metis prod_cases3)
    have wd: "temp_file tp wd" "only_temp tp w wd"
      using drain_buffer_temp [OF drain wc(1)] wc(2) by (auto intro: only_temp_trans)
    obtain rc2 we where ack: "send_feedback lg a pt (pkt PKT_ACK) (cs_expected st2) win ''DATA_TRANSFER''
        ''SEND_ACK'' wd = (rc2, we)" by fastforce
    have we: "temp_file tp we" "only_temp tp w we"
      using send_feedback_temp [OF ack wd(1)] wd(2) by (auto intro: only_temp_trans)
    have "(if \<not> ok then (False, st\<lparr>cs_buffered := bs\<rparr>, wb)
        else if rc \<noteq> 0 then (False, st\<lparr>cs_buffered := bs2\<rparr>, wc)
        else if \<not> ok2 then (False, st2, wd) else (rc2 = 0, st2, we)) = (go, st1, w1)"
      using assms(1) False cap Some store nack drain ack
      by (simp add: client_reliable_data_def Let_def del: pkt.simps cong: if_cong)
    with wb wc wd we show ?thesis by (auto split: if_splits)
  qed
qed

lemma client_reliable_loop_verdict:
  "client_reliable_loop lg a pt op tp win st w = (rc, w1) \<Longrightarrow> temp_file tp w \<Longrightarrow> op \<noteq> tp \<Longrightarrow>
   w_stdout w1 = w_stdout w \<and>
   ((rc = 0 \<and> (\<exists>contents. w_fs w1 = (w_fs w)(op \<mapsto> new_file contents, tp := None) \<and>
       (a, encode (Terminate (sha1_digest contents))) \<in> set (arrivals (w_net w)))) \<or>
    (rc = -1 \<and> only_temp tp w w1))"
proof (induction lg a pt op tp win st w arbitrary: rc w1 rule: client_reliable_loop.induct)
  case (1 lg a pt op tp win st w)
  note unf = client_reliable_loop.simps [of lg a pt op tp win st w]
  obtain stop wa where stop: "read_stop w = (stop, wa)" by fastforce
  note sa = read_stop_same [OF stop]
  show ?case
  proof (cases stop)
    case True
    with "1.prems"(1) unf stop sa show ?thesis by (auto simp: only_temp_def)
  next
    case nostop: False
    obtain r wb where rcv: "client_recv_logged lg ''DATA_TRANSFER'' ''RECV_TRANSFER_PACKET'' 64 wa = (r, wb)"
      by fastforce
    note sb = client_recv_same [OF rcv]
    have fb: "w_fs wb = w_fs w" "w_stdout wb = w_stdout w" using sa sb by auto
    show ?thesis
    proof (cases "\<exists>p ptx. r = RecvOk p a ptx")
      case False
      then have "(rc, w1) = (-1, wb)" using "1.prems"(1) unf stop nostop rcv by (cases r) auto
      with fb show ?thesis by (simp add: only_temp_def)
    next
      case True
      then obtain p ptx where r: "r = RecvOk p a ptx" by blast
      from client_recv_packet [OF rcv [unfolded r]] obtain m where m: "msg_ok m" "p = packet_of m"
        and arr: "arrivals (w_net w) = (a, encode m) # arrivals (w_net wb)"
        using sa by auto
      have tb: "temp_file tp wb" using fb(1) "1.prems"(2) by (rule temp_file_same)
      show ?thesis
      proof (cases "p_type p = pkt PKT_DATA")
        case data: True
        obtain go st2 wc where step: "client_reliable_data lg a pt tp win p st wb = (go, st2, wc)"
          by (metis prod_cases3)
        from client_reliable_data_temp [OF step tb] fb
        have wc: "temp_file tp wc" "only_temp tp w wc" by (auto simp: only_temp_def)
        show ?thesis
        proof (cases go)
          case False
          with "1.prems"(1) unf stop nostop rcv r data step have "rc = -1" "w1 = wc" by simp_all
          with wc show ?thesis by (simp add: only_temp_def)
        next
          case go: True
          with "1.prems"(1) unf stop nostop rcv r data step
          have rec: "client_reliable_loop lg a pt op tp win st2 wc = (rc, w1)" by simp
          have same: "\<not> \<not> is_same_peer a a" by simp
          from "1.IH" [OF stop [symmetric] nostop rcv [symmetric] r same data step [symmetric] refl go rec wc(1)
              "1.prems"(3)]
          have ih: "w_stdout w1 = w_stdout wc" "(rc = 0 \<and> (\<exists>contents. w_fs w1 = (w_fs wc)(op \<mapsto> new_file contents, tp := None) \<and>
             (a, encode (Terminate (sha1_digest contents))) \<in> set (arrivals (w_net wc)))) \<or>
             (rc = -1 \<and> only_temp tp wc w1)" by blast+
          have up: "(w_fs wc)(op \<mapsto> f, tp := None) = (w_fs w)(op \<mapsto> f, tp := None)" for f
            using wc(2) "1.prems"(3) by (simp add: only_temp_def fun_upd_twist)
          have "arrivals (w_net wc) = arrivals (w_net wb)" using client_reliable_data_net [OF step] by simp
          then have sub: "x \<in> set (arrivals (w_net wc)) \<Longrightarrow> x \<in> set (arrivals (w_net w))" for x
            using arr by simp
          have so: "w_stdout w1 = w_stdout w" using ih(1) wc(2) by (simp add: only_temp_def)
          show ?thesis
            using ih(2) so sub up only_temp_trans [OF wc(2)] by metis
        qed
      next
        case nodata: False
        show ?thesis
        proof (cases m)
          case (Terminate dg)
          with "1.prems"(1) unf stop nostop rcv r m
          have run: "client_reliable_terminate lg a pt op tp win (packet_of (Terminate dg)) st wb = (rc, w1)"
            by simp
          from tb obtain d0 where d0: "w_fs wb tp = Some (new_file d0)" by (auto simp: temp_file_def)
          have len: "length dg = 20" using m Terminate by simp
          from client_reliable_terminate_outcome [OF run len "1.prems"(3) d0] fb
          have t: "w_stdout w1 = w_stdout w"
            "(rc = 0 \<and> dg = sha1_digest d0 \<and> w_fs w1 = (w_fs w)(op \<mapsto> new_file d0, tp := None)) \<or>
             (rc = -1 \<and> only_temp tp w w1)"
            by (simp_all only: only_temp_def) auto
          have "(a, encode (Terminate dg)) \<in> set (arrivals (w_net w))" using arr Terminate by simp
          with t show ?thesis by blast
        qed (use "1.prems"(1) unf stop nostop rcv r m nodata fb in \<open>auto simp: only_temp_def\<close>)
      qed
    qed
  qed
qed

section \<open>Authentication\<close>

lemma client_send_logged_emits:
  assumes "client_send_logged lg peer pt t wire len i win st ev att r w = (rc, w1)" "P (peer, wire)"
  shows "emits P w w1 \<and> w_fs w1 = w_fs w \<and> length (w_sent w1) \<le> Suc (length (w_sent w)) \<and>
    w_net w1 = w_net w"
  using client_send_logged_frame [of lg peer pt t wire len i win st ev att r w] assms
  by (auto intro!: emits_send [where xs = "drop (length (w_sent w)) (w_sent w1)"] split: if_splits)

lemma get_password_same:
  "get_password ia pws i n w = (r, w1) \<Longrightarrow>
   w_sent w1 = w_sent w \<and> w_net w1 = w_net w \<and> w_env w1 = w_env w \<and> w_stdout w1 = w_stdout w \<and> w_fs w1 = w_fs w"
  by (auto simp: get_password_def fgets_stdin_def Let_def split: list.splits option.splits prod.splits if_splits)

text \<open>A password response to the server.\<close>

definition pass_resp :: "sockaddr_in \<Rightarrow> sockaddr_in \<times> byte list \<Rightarrow> bool" where
  "pass_resp a x \<longleftrightarrow> (\<exists>pw. length pw \<le> 255 \<and> x = (a, encode (PassResp (bytes_of_string pw))))"

definition client_auth_result ::
  "Logger \<Rightarrow> sockaddr_in \<Rightarrow> string \<Rightarrow> nat \<Rightarrow> world \<Rightarrow> int option \<Rightarrow> world \<Rightarrow> bool" where
  "client_auth_result lg a tp left w r w1 \<longleftrightarrow>
     (\<exists>w2. emits (pass_resp a) w w2 \<and> w_fs w2 = w_fs w \<and> length (w_sent w2) \<le> length (w_sent w) + left \<and>
        (case r of None \<Rightarrow> w1 = w2
         | Some status \<Rightarrow> status = 1 \<and> (\<exists>reason. w1 = client_abort lg tp reason w2)))"

lemma client_auth_resultI:
  assumes "emits (pass_resp a) w w2" "w_fs w2 = w_fs w" "length (w_sent w2) \<le> length (w_sent w) + left"
  shows "client_auth_result lg a tp left w None w2"
    and "client_auth_result lg a tp left w (Some 1) (client_abort lg tp reason w2)"
  using assms unfolding client_auth_result_def by auto

lemma client_auth_result_prepend:
  assumes "client_auth_result lg a tp m w1 r w2" "emits (pass_resp a) w w1" "w_fs w1 = w_fs w"
    "length (w_sent w1) + m \<le> length (w_sent w) + n"
  shows "client_auth_result lg a tp n w r w2"
proof -
  from assms(1) obtain w3 where w3: "emits (pass_resp a) w1 w3" "w_fs w3 = w_fs w1"
    "length (w_sent w3) \<le> length (w_sent w1) + m" "case r of None \<Rightarrow> w2 = w3
         | Some status \<Rightarrow> status = 1 \<and> (\<exists>reason. w2 = client_abort lg tp reason w3)"
    unfolding client_auth_result_def by blast
  have "emits (pass_resp a) w w3" using assms(2) w3(1) by (rule emits_trans)
  with w3 assms(3,4) show ?thesis
    unfolding client_auth_result_def by (intro exI [of _ w3]) auto
qed

lemma client_auth_loop_result:
  "client_auth_loop lg a pt ia pws tp att w = (r, w1) \<Longrightarrow> client_auth_result lg a tp (3 - att) w r w1"
proof (induction lg a pt ia pws tp att w arbitrary: r w1 rule: client_auth_loop.induct)
  case (1 lg a pt ia pws tp att w)
  note unf = client_auth_loop.simps [of lg a pt ia pws tp att w]
  let ?P = "pass_resp a"
  obtain stop wa where stop: "read_stop w = (stop, wa)" by fastforce
  note sa = read_stop_same [OF stop]
  have ea: "emits ?P w wa" using sa by (intro emits_same) auto
  show ?case
  proof (cases stop)
    case True
    with "1.prems" unf stop sa ea show ?thesis by (auto intro: client_auth_resultI)
  next
    case nostop: False
    obtain rr wb where rcv: "client_recv_logged lg ''AUTH'' ''RECV_AUTH_PACKET'' 64 wa = (rr, wb)" by fastforce
    have eb: "emits ?P w wb" using ea client_recv_emits [OF rcv] by (rule emits_trans)
    have sb: "w_fs wb = w_fs w" "w_sent wb = w_sent w" using sa client_recv_same [OF rcv] by auto
    note doneI = client_auth_resultI [OF eb sb(1), of "3 - att" lg tp, unfolded sb(2)]
    show ?thesis
    proof (cases "\<exists>p ptx. rr = RecvOk p a ptx \<and> p_type p = pkt PKT_PASS_REQ")
      case False
      with "1.prems" unf stop nostop rcv doneI show ?thesis
        by (cases rr) (auto simp del: pkt.simps split: if_splits
            intro!: client_auth_resultI emits_log eb simp: world_simps sb)
    next
      case True
      then obtain p ptx where rr: "rr = RecvOk p a ptx" "p_type p = pkt PKT_PASS_REQ" by blast
      obtain pw wc where pw: "(if att \<ge> 3 then (None, wb)
          else get_password ia pws (int att) (PROTOCOL_MAX_PASSWORD + 1) wb) = (pw, wc)" by fastforce
      have sc: "w_fs wc = w_fs w" "w_sent wc = w_sent w" "emits ?P w wc"
        using pw sb eb get_password_same [of ia pws "int att" "PROTOCOL_MAX_PASSWORD + 1" wb pw wc]
        by (auto split: if_splits intro: emits_trans [OF _ emits_same])
      show ?thesis
      proof (cases pw)
        case None
        have "(r, w1) = (Some 1, client_abort lg tp ''password attempt unavailable'' wc)"
          using "1.prems" unf stop nostop rcv rr pw None by (simp del: pkt.simps)
        with sc show ?thesis by (auto intro: client_auth_resultI)
      next
        case (Some q)
        with pw have att: "att < 3" by (auto split: if_splits)
        obtain rc wd where snd: "(case build_pass_resp_packet (Some q) (Some PROTOCOL_MAX_DATAGRAM) of
                         None \<Rightarrow> (-1, wc)
                       | Some wire \<Rightarrow>
                          client_send_logged lg a pt (pkt PKT_PASS_RESP) wire
                            (word_of_nat (length q)) 0 0 ''AUTH'' ''SEND_PASS_RESP''
                            (int (Suc att)) 0 wc) = (rc, wd)" by fastforce
        have sd: "emits ?P w wd \<and> w_fs wd = w_fs w \<and> length (w_sent wd) \<le> Suc (length (w_sent w))"
        proof (cases "length q \<le> 255")
          case False
          then have "wd = wc" using snd by (simp add: build_pass_resp_packet_eq del: pkt.simps)
          with sc show ?thesis by simp
        next
          case True
          then have wr: "client_send_logged lg a pt (pkt PKT_PASS_RESP) (encode (PassResp (bytes_of_string q)))
                (word_of_nat (length q)) 0 0 ''AUTH'' ''SEND_PASS_RESP'' (int (Suc att)) 0 wc = (rc, wd)"
            using snd by (simp add: build_pass_resp_packet_eq protocol_sizes del: opaque)
          have "?P (a, encode (PassResp (bytes_of_string q)))" using True by (auto simp: pass_resp_def)
          from client_send_logged_emits [OF wr, of ?P, OF this] sc show ?thesis
            by (auto intro: emits_trans)
        qed
        have run: "(r, w1) = (if rc \<noteq> 0 then (Some 1, client_abort lg tp ''failed to send PASS_RESP'' wd)
            else client_auth_loop lg a pt ia pws tp (Suc att) wd)"
          using "1.prems" unf stop nostop rcv rr pw Some snd by (simp del: pkt.simps cong: if_cong)
        show ?thesis
        proof (cases "rc = 0")
          case False
          with run sd att show ?thesis by (auto intro: client_auth_resultI)
        next
          case True
          with run have rec: "client_auth_loop lg a pt ia pws tp (Suc att) wd = (r, w1)" by simp
          have same: "\<not> \<not> is_same_peer a a" by simp
          have "\<not> rc \<noteq> 0" using True by simp
          from "1.IH" [OF stop [symmetric] nostop rcv [symmetric] rr(1) same rr(2) pw [symmetric] Some
              snd [symmetric] this rec]
          show ?thesis by (rule client_auth_result_prepend) (use sd att in auto)
        qed
      qed
    qed
  qed
qed

section \<open>A whole run\<close>

text \<open>
  The verdict of a client run: \<open>OK\<close> with a committed output whose digest the server
  announced, or \<open>ABORT\<close> with the output file untouched and no partial file.
\<close>

definition client_verdict ::
  "sockaddr_in \<Rightarrow> string \<Rightarrow> string \<Rightarrow> world \<Rightarrow> int \<Rightarrow> world \<Rightarrow> bool" where
  "client_verdict a op tp w status w1 \<longleftrightarrow>
     (status = 0 \<and> (\<exists>contents. committed op tp contents w w1 \<and>
        (a, encode (Terminate (sha1_digest contents))) \<in> set (arrivals (w_net w)))) \<or>
     (status = 1 \<and> aborted tp w w1)"

lemma client_session_verdict:
  assumes run: "client_session lg a pt ia pws op tp rel w = (st, w1)"
    and tmp: "temp_file tp w" and op: "op \<noteq> tp"
  shows "client_verdict a op tp w st w1"
proof -
  obtain r wa where auth: "client_auth_loop lg a pt ia pws tp 0 w = (r, wa)" by fastforce
  from client_auth_loop_result [OF auth] obtain wb where
    e: "emits (pass_resp a) w wb" and fs: "w_fs wb = w_fs w" and
    r: "case r of None \<Rightarrow> wa = wb
         | Some status \<Rightarrow> status = 1 \<and> (\<exists>reason. wa = client_abort lg tp reason wb)"
    unfolding client_auth_result_def by blast
  have so: "w_stdout wb = w_stdout w" using e by (simp add: emits_def)
  show ?thesis
  proof (cases r)
    case (Some status)
    with run auth r have "st = 1" "\<exists>reason. w1 = client_abort lg tp reason wb"
      by (auto simp: client_session_def)
    with fs so show ?thesis by (auto simp: client_verdict_def intro: aborted_client_abort)
  next
    case None
    with r have wa: "wa = wb" by simp
    have tb: "temp_file tp wb" using fs tmp by (rule temp_file_same)
    note sub = emits_arrivals [OF e]
    show ?thesis
    proof (cases rel)
      case True
      let ?st = "\<lparr>cs_expected = 0, cs_buffered = [], cs_received = 0\<rparr>"
      obtain rc wc where loop: "client_reliable_loop lg a pt op tp (word_of_int (env_reliable_window_size wb)) ?st wb
          = (rc, wc)" by fastforce
      have fin: "(st, w1) = (if rc \<noteq> 0 then (1, client_abort lg tp ''reliable transfer failed'' wc)
          else (0, client_finish lg ''OK'' ''file received and SHA1 verified'' wc))"
        using run auth None wa True loop by (simp add: client_session_def)
      from client_reliable_loop_verdict [OF loop tb op]
      consider (good) contents where "rc = 0" "w_fs wc = (w_fs wb)(op \<mapsto> new_file contents, tp := None)"
            "(a, encode (Terminate (sha1_digest contents))) \<in> set (arrivals (w_net wb))"
            "w_stdout wc = w_stdout wb"
        | (bad) "rc = -1" "only_temp tp wb wc" by blast
      then show ?thesis
      proof cases
        case good
        then have "committed op tp contents w w1"
          using fin fs so by (simp add: committed_def world_simps ok_line_def)
        with good(1,3) fin sub show ?thesis by (auto simp: client_verdict_def)
      next
        case bad
        with fin fs so show ?thesis
          by (auto simp: client_verdict_def only_temp_def intro: aborted_client_abort)
      qed
    next
      case False
      from tb obtain d0 where d0: "w_fs wb tp = Some (new_file d0)" by (auto simp: temp_file_def)
      have loop: "client_plain_loop lg a pt op tp 0 0 wb = (st, w1)"
        using run auth None wa False by (simp add: client_session_def)
      from client_plain_loop_outcome [OF loop op d0]
      consider (good) ds where "st = 0" "transcript a 0 ds (sha1_digest (d0 @ concat ds)) wb"
          "committed op tp (d0 @ concat ds) wb w1"
        | (bad) "st = 1" "aborted tp wb w1" by blast
      then show ?thesis
      proof cases
        case good
        then have "(a, encode (Terminate (sha1_digest (d0 @ concat ds)))) \<in> set (arrivals (w_net wb))"
          by (auto simp: transcript_def simp del: opaque)
        moreover have "committed op tp (d0 @ concat ds) w w1" using good(3) fs so by (simp add: committed_def)
        ultimately show ?thesis using good(1) sub by (auto simp: client_verdict_def)
      next
        case bad
        with fs so show ?thesis by (auto simp: client_verdict_def aborted_def)
      qed
    qed
  qed
qed

text \<open>The whole program; \<open>output\<close> is the last argument.\<close>

definition run_verdict :: "string \<Rightarrow> world \<Rightarrow> int \<Rightarrow> world \<Rightarrow> bool" where
  "run_verdict output w status w1 \<longleftrightarrow>
     (status = 0 \<and> w_stdout w1 = w_stdout w @ [ok_line] \<and>
        (\<exists>server contents. w_fs w1 = (w_fs w)(output \<mapsto> new_file contents, output @ ''.part'' := None) \<and>
           (server, encode (Terminate (sha1_digest contents))) \<in> set (arrivals (w_net w)))) \<or>
     (status = 1 \<and> w_stdout w1 = w_stdout w @ [abort_line] \<and>
        (w_fs w1 = w_fs w \<or> w_fs w1 = (w_fs w)(output @ ''.part'' := None)))"

lemma control_wire_join:
  "build_control_packet (pkt PKT_JOIN_REQ) (Some PROTOCOL_MAX_DATAGRAM) = Some (encode Join)"
  by (rule build_control_packet_eq) (simp add: protocol_sizes)

lemma socket_call_same:
  "socket_call w = (b, w1) \<Longrightarrow> w_fs w1 = w_fs w \<and> w_stdout w1 = w_stdout w \<and> w_net w1 = w_net w"
  by (auto simp: socket_call_def split: prod.splits)

lemma client_start_verdict:
  assumes run: "client_start lg port a ia pws op rel w = (st, w1)" and len: "length op + 6 < 512"
  shows "run_verdict op w st w1"
proof -
  let ?tp = "op @ ''.part''"
  have tp: "snprintf_s 512 ?tp = ?tp" using len by simp
  obtain sok wa where sock: "socket_call w = (sok, wa)" by fastforce
  note sa = socket_call_same [OF sock]
  obtain ook wb where opn: "fopen_wb ?tp wa = (ook, wb)" by fastforce
  have sb: "w_fs wb = (if ook then (w_fs w)(?tp \<mapsto> new_file []) else w_fs w)"
    "w_stdout wb = w_stdout w" "w_net wb = w_net w"
    using opn sa by (auto simp: fopen_wb_def split: if_splits)
  note unf = run [unfolded client_start_def Let_def tp sock opn split_conv control_wire_join]
  show ?thesis
  proof (cases "sok \<and> ook")
    case False
    with unf sa sb show ?thesis
      by (auto simp: run_verdict_def world_simps abort_line_def split: if_splits)
  next
    case True
    let ?wl = "logger_write lg (Some ((client_log_defaults ''INFO'' ''CLIENT_START'' ''INIT''
                    ''client started'')
                      \<lparr>le_peer := Some (peer_to_string a 64), le_port := uint port\<rparr>)) wb"
    obtain rc wc where snd: "client_send_logged lg a (peer_to_string a 64) (pkt PKT_JOIN_REQ) (encode Join) 0 0 0
        ''WAIT_PASS_REQ'' ''SEND_JOIN_REQ'' LOG_INT_UNSET 0 ?wl = (rc, wc)" by fastforce
    have sc: "w_fs wc = (w_fs w)(?tp \<mapsto> new_file [])" "w_stdout wc = w_stdout w" "w_net wc = w_net w"
      using client_send_logged_frame(2,5,12) [of lg a "peer_to_string a 64" "pkt PKT_JOIN_REQ" "encode Join" 0 0 0
        "''WAIT_PASS_REQ''" "''SEND_JOIN_REQ''" LOG_INT_UNSET 0 ?wl] snd sb True
      by (simp_all del: opaque add: world_simps)
    show ?thesis
    proof (cases "rc = 0")
      case False
      with unf True snd have "(st, w1) = (1, client_abort lg ?tp ''failed to send JOIN_REQ'' wc)"
        by (simp del: opaque)
      with sc show ?thesis by (simp add: run_verdict_def world_simps)
    next
      case rc: True
      with unf True snd
      have ses: "client_session lg a (peer_to_string a 64) ia pws op ?tp rel wc = (st, w1)"
        by (simp del: opaque)
      have "temp_file ?tp wc" using sc(1) by (auto simp: temp_file_def)
      from client_session_verdict [OF ses this] have v: "client_verdict a op ?tp wc st w1" by simp
      have up: "((w_fs w)(?tp \<mapsto> new_file []))(op \<mapsto> f, ?tp := None) = (w_fs w)(op \<mapsto> f, ?tp := None)" for f
        by (rule ext) simp
      from v show ?thesis
        unfolding client_verdict_def run_verdict_def committed_def aborted_def sc up by auto
    qed
  qed
qed

lemma client_main_run_verdict:
  assumes run: "client_main argv w = (st, w1)"
  shows "run_verdict (last argv) w st w1"
proof -
  have fail: ?thesis if "st = 1" "w_fs w1 = w_fs w" "w_stdout w1 = w_stdout w @ [abort_line]"
    using that by (simp add: run_verdict_def)
  obtain rc lgo where lg: "logger_open (Some ''client'') (Some ''logs/client.jsonl'') w = (rc, lgo)" by fastforce
  show ?thesis
  proof (cases "lgo = None \<or> rc \<noteq> 0")
    case True
    with run lg show ?thesis
      by (intro fail) (auto simp: client_main_def print_line_def abort_line_def split: option.splits)
  next
    case False
    then obtain l where l: "lgo = Some l" "rc = 0" by auto
    let ?parsed = "if length argv = 7 then Some (False, [argv ! 3, argv ! 4, argv ! 5], argv ! 6)
                  else if length argv = 4 then Some (True, [], argv ! 3) else None"
    have args: "op = last argv" if "?parsed = Some (ia, pws, op)" for ia pws op
      using that last_conv_nth [of argv] by (cases "argv = []") (auto split: if_splits)
    show ?thesis
    proof (cases ?parsed)
      case None
      with run lg l have "(st, w1) = (1, client_finish l ''ABORT'' ''invalid arguments'' w)"
        by (simp add: client_main_def split: if_splits)
      then show ?thesis by (intro fail) (simp_all add: world_simps abort_line_def)
    next
      case (Some x)
      then obtain ia pws op where parsed: "?parsed = Some (ia, pws, op)" by (cases x) auto
      have "run_verdict op w st w1"
      proof (cases "length op + 6 < 512 \<and> parse_port (Some (argv ! 2)) \<noteq> None \<and>
          resolve_server (argv ! 1) (the (parse_port (Some (argv ! 2)))) w \<noteq> None")
        case False
        with run lg l parsed
        have "st = 1" "\<exists>reason. w1 = client_finish l ''ABORT'' reason w"
          by (auto simp: client_main_def Let_def not_less split: option.splits if_splits)
        then show ?thesis by (auto simp: run_verdict_def world_simps abort_line_def)
      next
        case True
        then obtain port a where "parse_port (Some (argv ! 2)) = Some port" "resolve_server (argv ! 1) port w = Some a"
          by auto
        with True run lg l parsed
        have "client_start l port a ia pws op (protocol_is_reliable w) w = (st, w1)"
          by (auto simp: client_main_def Let_def split: if_splits)
        with True show ?thesis using client_start_verdict by blast
      qed
      with args [OF parsed] show ?thesis by simp
    qed
  qed
qed

section \<open>Authentication, functionally\<close>

lemma calm_client_send:
  assumes "client_calm w"
  shows "\<exists>w1. client_send_logged lg peer pt t wire len i win st ev att r w = (0, w1) \<and> client_calm w1 \<and>
    w_net w1 = w_net w \<and> w_fs w1 = w_fs w \<and> w_sent w1 = w_sent w @ [(peer, wire)]"
  using client_send_logged_frame [of lg peer pt t wire len i win st ev att r w]
    client_send_logged_rc [of lg peer pt t wire len i win st ev att r w] assms
  by (cases "client_send_logged lg peer pt t wire len i win st ev att r w") (simp add: client_calm_def)

text \<open>A round that answers \<open>PASS_REQ\<close> with the password of this attempt.\<close>

lemma client_auth_round:
  assumes calm: "client_calm w" and net: "w_net w = deliver a PassReq # rest"
    and att: "att < 3" and pw: "length (pws ! att) \<le> 255"
  shows "\<exists>w1. client_auth_loop lg a pt False pws tp att w = client_auth_loop lg a pt False pws tp (Suc att) w1 \<and>
    client_calm w1 \<and> w_net w1 = rest \<and> w_fs w1 = w_fs w \<and>
    w_sent w1 = w_sent w @ [(a, encode (PassResp (bytes_of_string (pws ! att))))]"
proof -
  have ok: "msg_ok PassReq" by simp
  obtain wb where rcv: "client_recv_logged lg ''AUTH'' ''RECV_AUTH_PACKET'' 64 w
      = (RecvOk (packet_of PassReq) a (peer_to_string a 64), wb)"
    and wb: "client_calm wb" "w_net wb = rest" "w_fs wb = w_fs w" "w_sent wb = w_sent w"
    using calm_recv [OF calm net ok, of lg "''AUTH''" "''RECV_AUTH_PACKET''" 64] by metis
  define p where "p = packet_of PassReq"
  have p: "p_type p = pkt PKT_PASS_REQ" by (simp add: p_def)
  have get: "(if att \<ge> 3 then (None, wb)
      else get_password False pws (int att) (PROTOCOL_MAX_PASSWORD + 1) wb) = (Some (pws ! att), wb)"
    using att pw by (simp add: get_password_def protocol_sizes)
  obtain wc where snd: "client_send_logged lg a pt (pkt PKT_PASS_RESP) (encode (PassResp (bytes_of_string (pws ! att))))
      (word_of_nat (length (pws ! att))) 0 0 ''AUTH'' ''SEND_PASS_RESP'' (int (Suc att)) 0 wb = (0, wc)"
    and wc: "client_calm wc" "w_net wc = rest" "w_fs wc = w_fs w"
      "w_sent wc = w_sent w @ [(a, encode (PassResp (bytes_of_string (pws ! att))))]"
    using calm_client_send [OF wb(1)] wb by metis
  have snd': "(case build_pass_resp_packet (Some (pws ! att)) (Some PROTOCOL_MAX_DATAGRAM) of
                         None \<Rightarrow> (-1, wb)
                       | Some wire \<Rightarrow>
                          client_send_logged lg a pt (pkt PKT_PASS_RESP) wire
                            (word_of_nat (length (pws ! att))) 0 0 ''AUTH'' ''SEND_PASS_RESP''
                            (int (Suc att)) 0 wb) = (0, wc)"
    using snd pw by (simp add: build_pass_resp_packet_eq protocol_sizes del: opaque of_nat_Suc)
  have "client_auth_loop lg a pt False pws tp att w = client_auth_loop lg a pt False pws tp (Suc att) wc"
    by (subst client_auth_loop.simps)
      (simp add: calm_stop [OF calm] rcv [folded p_def] p get snd' del: pkt.simps of_nat_Suc)
  with wc show ?thesis by blast
qed

lemma client_auth_last:
  assumes calm: "client_calm w" and net: "w_net w = deliver a m # rest" and m: "m = PassAccept \<or> m = Reject"
  shows "\<exists>w1. client_calm w1 \<and> w_net w1 = rest \<and> w_fs w1 = w_fs w \<and> w_sent w1 = w_sent w \<and>
    client_auth_loop lg a pt ia pws tp att w =
      (if m = PassAccept then (None, w1)
       else (Some 1, client_abort lg tp ''server rejected authentication'' w1))"
proof -
  have ok: "msg_ok m" using m by auto
  obtain wb where rcv: "client_recv_logged lg ''AUTH'' ''RECV_AUTH_PACKET'' 64 w
      = (RecvOk (packet_of m) a (peer_to_string a 64), wb)"
    and wb: "client_calm wb" "w_net wb = rest" "w_fs wb = w_fs w" "w_sent wb = w_sent w"
    using calm_recv [OF calm net ok, of lg "''AUTH''" "''RECV_AUTH_PACKET''" 64] by metis
  show ?thesis
  proof (cases "m = PassAccept")
    case True
    let ?wl = "logger_write lg (Some ((client_log_defaults ''AUTH'' ''AUTH_SUCCESS''
                      ''DATA_TRANSFER'' ''authentication accepted'')
                        \<lparr>le_peer := Some pt, le_attempt := int att\<rparr>)) wb"
    have "client_auth_loop lg a pt ia pws tp att w = (None, ?wl)"
      using rcv True by (subst client_auth_loop.simps) (simp add: calm_stop [OF calm])
    with wb True show ?thesis by (intro exI [of _ ?wl]) (simp add: client_calm_def world_simps)
  next
    case False
    with m have "m = Reject" by simp
    then have "client_auth_loop lg a pt ia pws tp att w
        = (Some 1, client_abort lg tp ''server rejected authentication'' wb)"
      using rcv by (subst client_auth_loop.simps) (simp add: calm_stop [OF calm])
    with wb False show ?thesis by auto
  qed
qed

lemma client_auth_functional:
  "client_calm w \<Longrightarrow> att + length ps = 3 \<Longrightarrow> ps = drop att pws \<Longrightarrow> ps \<noteq> [] \<Longrightarrow>
   (\<forall>q \<in> set ps. length q \<le> 255) \<Longrightarrow>
   w_net w = map (deliver a) (PassReq # auth_replies (length ps) pw (map bytes_of_string ps)) @ rest \<Longrightarrow>
   \<exists>w2. w_fs w2 = w_fs w \<and> w_net w2 = rest \<and> client_calm w2 \<and>
     w_sent w2 = w_sent w @ map (\<lambda>x. (a, encode (PassResp x))) (tried (length ps) pw (map bytes_of_string ps)) \<and>
     client_auth_loop lg a pt False pws tp att w =
       (if pw \<in> set (map bytes_of_string ps) then (None, w2)
        else (Some 1, client_abort lg tp ''server rejected authentication'' w2))"
proof (induction ps arbitrary: w att)
  case (Cons q ps)
  have att: "att < 3" using Cons.prems(2) by simp
  have q: "pws ! att = q" "ps = drop (Suc att) pws"
    using Cons.prems(3) by (metis nth_via_drop, metis drop_Suc list.sel(3) drop_tl)
  let ?rest = "map (deliver a) (auth_replies (length (q # ps)) pw (map bytes_of_string (q # ps))) @ rest"
  have net: "w_net w = deliver a PassReq # ?rest" using Cons.prems(6) by simp
  have "length (pws ! att) \<le> 255" using q Cons.prems(5) by simp
  from client_auth_round [OF Cons.prems(1) net att this, of lg pt tp]
  obtain w1 where w1: "client_auth_loop lg a pt False pws tp att w = client_auth_loop lg a pt False pws tp (Suc att) w1"
    "client_calm w1" "w_net w1 = ?rest" "w_fs w1 = w_fs w"
    "w_sent w1 = w_sent w @ [(a, encode (PassResp (bytes_of_string q)))]"
    using q by auto
  show ?case
  proof (cases "bytes_of_string q = pw \<or> ps = []")
    case True
    let ?m = "if bytes_of_string q = pw then PassAccept else Reject"
    have net1: "w_net w1 = deliver a ?m # rest" using w1(3) True by auto
    have m: "?m = PassAccept \<or> ?m = Reject" by simp
    from client_auth_last [OF w1(2) net1 m, of lg pt False pws tp "Suc att"]
    obtain w2 where w2: "client_calm w2" "w_net w2 = rest" "w_fs w2 = w_fs w1" "w_sent w2 = w_sent w1"
      "client_auth_loop lg a pt False pws tp (Suc att) w1 =
      (if ?m = PassAccept then (None, w2)
       else (Some 1, client_abort lg tp ''server rejected authentication'' w2))" by blast
    with w1 True show ?thesis
      by (intro exI [of _ w2]) (auto simp del: opaque)
  next
    case False
    then have more: "bytes_of_string q \<noteq> pw" "ps \<noteq> []" by auto
    then have n: "\<not> length (q # ps) \<le> 1" by simp
    have net1: "w_net w1 = map (deliver a) (PassReq # auth_replies (length ps) pw (map bytes_of_string ps)) @ rest"
      using w1(3) more by (cases ps) auto
    have "Suc att + length ps = 3" "\<forall>q \<in> set ps. length q \<le> 255" using Cons.prems(2,5) by auto
    from Cons.IH [OF w1(2) this(1) q(2) more(2) this(2) net1]
    obtain w2 where w2: "w_fs w2 = w_fs w1" "w_net w2 = rest" "client_calm w2"
      "w_sent w2 = w_sent w1 @ map (\<lambda>x. (a, encode (PassResp x))) (tried (length ps) pw (map bytes_of_string ps))"
      "client_auth_loop lg a pt False pws tp (Suc att) w1 =
       (if pw \<in> set (map bytes_of_string ps) then (None, w2)
        else (Some 1, client_abort lg tp ''server rejected authentication'' w2))" by blast
    with w1 more show ?thesis
      by (intro exI [of _ w2]) (auto simp del: opaque)
  qed
qed simp

section \<open>Properties of the handshake\<close>

text \<open>
  C12. In the handshake the client sends at most three datagrams, all to the server and
  all of them PASS_RESP with a password of at most 255 bytes, whatever arrives.
\<close>

theorem client_tries_three_passwords:
  assumes "client_auth_loop lg server pt interactive pws tp 0 w = (r, w1)"
  shows "\<exists>xs. w_sent w1 = w_sent w @ xs \<and> length xs \<le> 3 \<and>
    (\<forall>x \<in> set xs. \<exists>pw. length pw \<le> 255 \<and> x = (server, encode (PassResp (bytes_of_string pw))))"
proof -
  from client_auth_loop_result [OF assms] obtain w2 where w2: "emits (pass_resp server) w w2"
    "length (w_sent w2) \<le> length (w_sent w) + 3" "w_sent w1 = w_sent w2"
    by (auto simp: client_auth_result_def client_abort_def remove_file_def world_simps split: option.splits)
  then show ?thesis unfolding emits_def pass_resp_def by auto
qed

theorem client_tries_three_passwords_witness:
  "\<exists>r w1 xs. client_auth_loop closed_logger (host 1) [] False [''a'', ''b'', ''c''] ''o'' 0
      (quiet_world\<lparr>w_net := [deliver (host 1) PassReq]\<rparr>) = (r, w1) \<and>
    w_sent w1 = xs \<and> length xs \<le> 3"
proof -
  obtain r w1 where run: "client_auth_loop closed_logger (host 1) [] False [''a'', ''b'', ''c''] ''o'' 0
      (quiet_world\<lparr>w_net := [deliver (host 1) PassReq]\<rparr>) = (r, w1)" by fastforce
  from client_tries_three_passwords [OF run] run show ?thesis by (auto simp: quiet_world_def)
qed

end
