(* ===== verification/ConcreteRuns.thy ===== *)
theory ConcreteRuns
  imports UdpServerProgress UdpClientRun
begin

text \<open>
  Small concrete runs of the UDP programs, evaluated by the simplifier with the
  digest kept symbolic: a server with a three-byte file, a client that receives it,
  in both modes. They exercise the definitions and show that the hypotheses of the
  system theorems can hold together.
\<close>

section \<open>Evaluation\<close>

lemma chunks123: "chunks 1000 [1, 2, 3 :: byte] = [[1, 2, 3]]"
  by (simp add: chunks_short)

lemma terminate_wire:
  "build_terminate_packet (Some (sha1_digest xs)) (Some 1010) = Some (encode (Terminate (sha1_digest xs)))"
  by (subst build_terminate_packet_eq) simp_all

lemmas env_eval =
  quiet_parts getenv_def read_stop_def env_timeout_ms_def env_reliable_window_size_def
  env_reliable_timeout_ms_def parse_packet_id_list_def protocol_sizes chunks123 terminate_wire
  new_file_def malloc_ok_def Let_def

lemmas receive_eval =
  recv_packet_timeout_def deliver_def parse_encode take_encode payload_bytes_def

lemmas server_eval =
  server_transfer_file_reliable_def load_reliable_chunks_def fread_blocks_def
  build_data_packet_eq [of "[1, 2, 3]", simplified]
  reliable_iteration_def reliable_fill.simps send_reliable_chunk_def server_send_logged_def
  send_all_packet_def server_log_packet_def clock_gettime_def release_delayed_chunks_def
  release_delayed_from.simps server_recv_logged_timeout_def reliable_feedback_def
  mark_acked.simps advance_base.simps reliable_retransmit.simps send_terminates.simps

lemmas client_eval =
  client_reliable_loop.simps client_recv_logged_def client_recv_logged_timeout_def
  client_log_packet_def client_reliable_data_def ensure_buffer_capacity_def grow_capacity.simps
  drain_buffer.simps empty_chunk_def nth_append fwrite_all_def file_data_def send_feedback_def
  build_feedback_packet_eq [simplified] client_send_logged_def send_all_packet_def
  client_reliable_terminate_def sha1_file_digest rename_file_def

section \<open>A reliable transfer of three bytes\<close>

definition server_world :: world where
  "server_world = quiet_world\<lparr>w_fs := [''in'' \<mapsto> new_file [1, 2, 3]],
     w_net := [deliver (host 2) (Ack 1 4)]\<rparr>"

definition client_world :: world where
  "client_world = quiet_world\<lparr>w_fs := [''out.part'' \<mapsto> new_file []],
     w_net := [deliver (host 1) (Data 0 [1, 2, 3]), deliver (host 1) (Terminate (sha1_digest [1, 2, 3]))]\<rparr>"

lemma reliable_server_run:
  "\<exists>w1. server_transfer_file_reliable 3 closed_logger (host 2) [] ''in'' (sha1_digest [1, 2, 3]) server_world
      = Some (0, w1) \<and>
    w_sent w1 = (host 2, encode (Data 0 [1, 2, 3])) #
      replicate 3 (host 2, encode (Terminate (sha1_digest [1, 2, 3])))"
  by (simp add: server_world_def env_eval receive_eval server_eval numeral_3_eq_3 del: encode.simps)

lemma reliable_client_run:
  "\<exists>w1. client_reliable_loop closed_logger (host 1) [] ''out'' ''out.part'' 4
      \<lparr>cs_expected = 0, cs_buffered = [], cs_received = 0\<rparr> client_world = (0, w1) \<and>
    w_sent w1 = [(host 1, encode (Ack 1 4)), (host 1, encode (Ack 1 4))]"
  by (simp add: client_world_def env_eval receive_eval client_eval del: encode.simps)

lemma server_world_parts:
  "w_fs server_world ''in'' = Some (new_file [1, 2, 3])" "server_calm server_world"
  "w_allocfault server_world = []" "w_sent server_world = []"
  "w_net server_world = [deliver (host 2) (Ack 1 4)]"
  "arrivals (w_net server_world) = [(host 2, encode (Ack 1 4))]"
  by (simp_all add: server_world_def quiet_parts server_calm_def del: encode.simps)

lemma client_world_parts:
  "w_fs client_world ''out.part'' = Some (new_file [])" "client_calm client_world"
  "w_sent client_world = []" "w_stdout client_world = []"
  "arrivals (w_net client_world) =
     [(host 1, encode (Data 0 [1, 2, 3])), (host 1, encode (Terminate (sha1_digest [1, 2, 3])))]"
  by (simp_all add: client_world_def quiet_parts client_calm_def del: encode.simps)

section \<open>A run that stops at the password\<close>

text \<open>The server is asked to join; no password ever comes.\<close>

definition join_world :: world where
  "join_world = quiet_world\<lparr>w_fs := [''in'' \<mapsto> new_file [1, 2, 3]], w_net := [deliver (host 2) Join]\<rparr>"

lemma server_join_run:
  "\<exists>w1. server_main 0 [''server'', ''1234'', ''pw'', ''in''] join_world = Some (1, w1) \<and>
    w_sent w1 = [(host 2, encode PassReq)]"
  using build_control_packet_eq(2) [of 1010]
  by (simp add: join_world_def server_main_def env_eval receive_eval logger_open_def server_session_def
     protocol_is_reliable_def parse_port_def strtol10_def dec_value_def is_space_def is_digit_def
     digit_val_def sha1_file_digest socket_call_def server_recv_expected_def
     server_recv_logged_timeout_def server_send_control_def server_send_logged_def send_all_packet_def
     server_finish_def print_line_def parse_fail_def server_log_packet_def server_auth_loop.simps long_max_def long_min_def world_simps
    del: encode.simps)

lemma join_world_parts:
  "w_sent join_world = []" "w_stdout join_world = []" "arrivals (w_net join_world) = [(host 2, encode Join)]"
  by (simp_all add: join_world_def quiet_parts del: encode.simps)

end
