(* ===== verification/LogLines.thy ===== *)
theory LogLines
  imports LogFile
begin

text \<open>
  What a line of the log file is: a JSON object, specified by its fields, with the
  strings escaped so that a JSON reader recovers them. \<open>logger_write\<close> writes the
  object field by field through the flag \<open>first\<close>; here the object is built first
  and rendered at once.
\<close>

section \<open>The object a line renders\<close>

datatype jval = JStr string | JInt int | JBool bool | JObj "(string \<times> jval) list"

fun comma_join :: "string list \<Rightarrow> string" where
  "comma_join [] = []"
| "comma_join [x] = x"
| "comma_join (x # y # xs) = x @ '','' @ comma_join (y # xs)"

fun render :: "jval \<Rightarrow> string" where
  "render (JStr s) = json_escape (Some s)"
| "render (JInt i) = show_int i"
| "render (JBool b) = (if b then ''true'' else ''false'')"
| "render (JObj fs) =
     ''{'' @ comma_join (map (\<lambda>(k, v). json_escape (Some k) @ '':'' @ render v) fs) @ ''}''"

abbreviation render_field :: "string \<times> jval \<Rightarrow> string" where
  "render_field \<equiv> \<lambda>(k, v). json_escape (Some k) @ '':'' @ render v"

text \<open>Absent fields are \<open>None\<close>.\<close>

type_synonym field = "(string \<times> jval) option"

definition str_field :: "string \<Rightarrow> string option \<Rightarrow> field" where
  "str_field k v = map_option (\<lambda>s. (k, JStr s)) v"

definition int_field :: "string \<Rightarrow> int \<Rightarrow> field" where
  "int_field k v = (if v = LOG_INT_UNSET then None else Some (k, JInt v))"

definition pid_field :: "string \<Rightarrow> int \<Rightarrow> field" where
  "pid_field k v = (if v \<le> 0 then None else Some (k, JInt v))"

definition bool_field :: "string \<Rightarrow> int \<Rightarrow> field" where
  "bool_field k v = (if v = LOG_INT_UNSET then None else Some (k, JBool (v \<noteq> 0)))"

definition present :: "field list \<Rightarrow> (string \<times> jval) list" where
  "present fs = List.map_filter id fs"

definition security_field :: "LogEvent \<Rightarrow> field" where
  "security_field e =
     (case present [bool_field ''encrypted'' (le_security_encrypted e),
                    bool_field ''mac_valid'' (le_security_mac_valid e),
                    bool_field ''replay'' (le_security_replay e),
                    str_field ''handshake_phase'' (le_handshake_phase e)]
      of [] \<Rightarrow> None | fs \<Rightarrow> Some (''security'', JObj fs))"

definition field_list :: "Logger \<Rightarrow> string \<Rightarrow> LogEvent \<Rightarrow> field list" where
  "field_list lg now e =
    [str_field ''time'' (Some now),
     str_field ''schema_version'' (or_else (le_schema_version e) (lg_schema_version lg)),
     str_field ''protocol'' (or_else (le_protocol e) (lg_protocol lg)),
     str_field ''transport'' (or_else (le_transport e) (lg_transport lg)),
     str_field ''role'' (Some (lg_role lg)),
     str_field ''flow_id'' (or_else (le_flow_id e) (lg_flow_id lg)),
     str_field ''session_id'' (or_else (le_session_id e) (lg_session_id lg)),
     str_field ''scenario'' (or_else (le_scenario e) (lg_scenario lg)),
     str_field ''connection_id'' (le_connection_id e),
     str_field ''level'' (or_else (le_level e) ''INFO''),
     str_field ''event'' (or_else (le_event e) ''EVENT''),
     str_field ''peer'' (or_else (le_peer e) []),
     str_field ''state'' (le_state e),
     str_field ''packet_type'' (le_packet_type e),
     str_field ''result'' (le_result e),
     str_field ''sha1'' (le_sha1 e),
     str_field ''error_code'' (le_error_code e),
     str_field ''wire_hex'' (le_wire_hex e),
     str_field ''message'' (le_message e),
     str_field ''direction'' (le_direction e),
     str_field ''packet_uid'' (le_packet_uid e),
     str_field ''method'' (le_method e),
     str_field ''path'' (le_path e),
     str_field ''header_summary'' (le_header_summary e),
     str_field ''frame_type'' (le_frame_type e),
     str_field ''handshake_phase'' (le_handshake_phase e),
     int_field ''packet_code'' (le_packet_code e),
     int_field ''seq'' (le_seq e),
     int_field ''ack'' (le_ack e),
     int_field ''window_size'' (le_window_size e),
     int_field ''retransmit_count'' (le_retransmit_count e),
     int_field ''stream_id'' (le_stream_id e),
     int_field ''stream_offset'' (le_stream_offset e),
     int_field ''status_code'' (le_status_code e),
     int_field ''packet_id'' (le_packet_id e),
     int_field ''payload_length'' (le_payload_length e),
     int_field ''bytes'' (le_bytes e),
     int_field ''attempt'' (le_attempt e),
     int_field ''port'' (le_port e),
     security_field e,
     pid_field ''pid'' (le_pid e)]"

definition event_fields :: "Logger \<Rightarrow> string \<Rightarrow> LogEvent \<Rightarrow> (string \<times> jval) list" where
  "event_fields lg now e = present (field_list lg now e)"

section \<open>Writing field by field\<close>

definition put_field :: "field \<Rightarrow> jbuf \<Rightarrow> jbuf" where
  "put_field f fp = (case f of None \<Rightarrow> fp
     | Some kv \<Rightarrow> (False, snd fp @ (if fst fp then [] else '','') @ render_field kv))"

lemma writers_put:
  "write_string_field k v = put_field (str_field k v)"
  "write_int_field k i = put_field (int_field k i)"
  "write_pid_field k i = put_field (pid_field k i)"
  "write_bool_field k i = put_field (bool_field k i)"
  by (auto simp: fun_eq_iff put_field_def str_field_def int_field_def pid_field_def bool_field_def
      write_string_field_def write_int_field_def write_pid_field_def write_bool_field_def split: option.splits)

lemma comma_join_snoc: "xs \<noteq> [] \<Longrightarrow> comma_join (xs @ [x]) = comma_join xs @ '','' @ x"
  by (induction xs rule: comma_join.induct) auto

lemma present_snoc: "present (fs @ [f]) = present fs @ (case f of None \<Rightarrow> [] | Some x \<Rightarrow> [x])"
  by (induction fs) (auto simp: present_def List.map_filter_simps split: option.splits)

lemma put_fields:
  "fold put_field fs (True, s) = (present fs = [], s @ comma_join (map render_field (present fs)))"
proof (induction fs rule: rev_induct)
  case (snoc f fs)
  then show ?case
    by (cases f) (auto simp: present_snoc put_field_def comma_join_snoc)
qed (simp add: present_def List.map_filter_simps)

lemma write_security_put: "write_security e = put_field (security_field e)"
proof
  fix fp
  let ?fs = "[bool_field ''encrypted'' (le_security_encrypted e), bool_field ''mac_valid'' (le_security_mac_valid e),
    bool_field ''replay'' (le_security_replay e), str_field ''handshake_phase'' (le_handshake_phase e)]"
  have inner: "write_string_field ''handshake_phase'' (le_handshake_phase e)
      (write_bool_field ''replay'' (le_security_replay e)
      (write_bool_field ''mac_valid'' (le_security_mac_valid e)
      (write_bool_field ''encrypted'' (le_security_encrypted e) (True, [])))) = fold put_field ?fs (True, [])"
    by (simp add: writers_put)
  have "present ?fs = [] \<longleftrightarrow> \<not> (le_security_encrypted e \<noteq> LOG_INT_UNSET \<or>
      le_security_mac_valid e \<noteq> LOG_INT_UNSET \<or> le_security_replay e \<noteq> LOG_INT_UNSET \<or>
      le_handshake_phase e \<noteq> None)"
    by (auto simp: present_def List.map_filter_simps bool_field_def str_field_def split: option.splits)
  then show "write_security e fp = put_field (security_field e) fp"
    unfolding write_security_def Let_def inner put_fields security_field_def put_field_def
    by (cases "present ?fs") auto
qed

lemma event_writers_put: "event_writers lg now e = map put_field (field_list lg now e)"
  by (simp only: event_writers_def field_list_def list.map writers_put write_security_put)

text \<open>
  C10. A log line is the JSON object of the event's fields, those that are set, in
  their order, with the logger's defaults where the event has none and the nested
  \<open>security\<close> object when it is not empty; then the newline.
\<close>

theorem logger_line_is_json_object:
  "logger_line lg now e = render (JObj (event_fields lg now e)) @ [CHR 0x0A]"
proof -
  have "fold (\<lambda>f. f) (map put_field fs) s = fold put_field fs s" for fs s
    by (induction fs arbitrary: s) simp_all
  then show ?thesis
    by (simp add: logger_line_def event_writers_put put_fields event_fields_def write_raw_def)
qed

text \<open>
  Writing an event to an open log appends exactly one line, ended by a newline and
  with no other newline in it, so the file stays one record per line whatever texts
  the event carries.
\<close>

lemma logger_write_appends_one_line:
  assumes "lg_open lg"
  shows "\<exists>line. w_lines (logger_write lg event w) = w_lines w @ [line @ [CHR 0x0A]] \<and> CHR 0x0A \<notin> set line"
  using assms logger_line_shape by (auto simp: logger_write_def Let_def)

text \<open>
  Escaping a text for the log is undone by a JSON string reader, whatever
  follows: quotes, backslashes and control characters included.
\<close>

lemma json_text_round_trip:
  "read_json_string (json_escape (Some text) @ rest) = Some (text, rest)"
  by (rule read_json_escape)

end
