(* ===== verification/PrefixCodec.thy ===== *)
theory PrefixCodec
  imports Prelude
begin

text \<open>
  The interface of a self-delimiting encoding in a stream: a reader that takes one
  message off the front of what is left. The TCP frames of \<open>src/demo_util.c\<close> and the
  length field of MQTT (\<open>src/mqtt_demo_client.c\<close>) are such encodings; the lemmas about
  sequences of messages and about unambiguity are proved once, here.
\<close>

locale prefix_codec =
  fixes enc :: "'m \<Rightarrow> 'b list" and read1 :: "'b list \<Rightarrow> ('m \<times> 'b list) option" and ok :: "'m \<Rightarrow> bool"
  assumes read_enc: "ok m \<Longrightarrow> read1 (enc m @ rest) = Some (m, rest)"
begin

lemma enc_unambiguous:
  assumes "ok m" "ok m'" "enc m @ r = enc m' @ r'"
  shows "m = m' \<and> r = r'"
proof -
  have "Some (m, r) = read1 (enc m' @ r')" using read_enc [OF assms(1), of r] by (simp only: assms(3))
  then show ?thesis by (simp add: read_enc [OF assms(2)])
qed

lemma enc_not_prefix: "ok m \<Longrightarrow> ok m' \<Longrightarrow> enc m' = enc m @ r \<Longrightarrow> r = []"
  using enc_unambiguous [of m' m "[]" r] by simp

lemma stream_unambiguous:
  assumes "list_all ok ms" "list_all ok ms'" "length ms = length ms'"
    and "concat (map enc ms) @ r = concat (map enc ms') @ r'"
  shows "ms = ms' \<and> r = r'"
  using assms(3,1,2,4)
proof (induction ms ms' rule: list_induct2)
  case (Cons m ms m' ms')
  then have "m = m' \<and> concat (map enc ms) @ r = concat (map enc ms') @ r'"
    by (intro enc_unambiguous) simp_all
  with Cons show ?case by simp
qed simp

end

end
