(* ===== verification/DemoUtil.thy ===== *)
theory DemoUtil
  imports LogFile PrefixCodec
begin

text \<open>
  The shared utilities of the stream demos (\<open>src/demo_util.c\<close>,
  \<open>include/demo_util.h\<close>): events, the TCP connection with its partial reads and
  writes, length-prefixed frames, HMAC-SHA1, the XOR cipher, session keys and
  Base64.
\<close>

section \<open>Constants and frames (include/demo_util.h)\<close>

definition DEMO_HEADER_SIZE :: nat where "DEMO_HEADER_SIZE = 6"
definition DEMO_MAX_PAYLOAD :: nat where "DEMO_MAX_PAYLOAD = 4096"
definition DEMO_MAX_FRAME :: nat where "DEMO_MAX_FRAME = DEMO_HEADER_SIZE + DEMO_MAX_PAYLOAD"

lemmas demo_sizes = DEMO_HEADER_SIZE_def DEMO_MAX_PAYLOAD_def DEMO_MAX_FRAME_def

datatype DemoPacketType =
    DEMO_PKT_JOIN_REQ | DEMO_PKT_PASS_REQ | DEMO_PKT_PASS_RESP | DEMO_PKT_PASS_ACCEPT
  | DEMO_PKT_DATA | DEMO_PKT_TERMINATE | DEMO_PKT_REJECT | DEMO_PKT_ACK | DEMO_PKT_NACK
  | DEMO_PKT_CLIENT_HELLO | DEMO_PKT_SERVER_HELLO | DEMO_PKT_FINISHED | DEMO_PKT_APP_DATA

primrec dpkt :: "DemoPacketType \<Rightarrow> u16" where
  "dpkt DEMO_PKT_JOIN_REQ = 1"
| "dpkt DEMO_PKT_PASS_REQ = 2"
| "dpkt DEMO_PKT_PASS_RESP = 3"
| "dpkt DEMO_PKT_PASS_ACCEPT = 4"
| "dpkt DEMO_PKT_DATA = 5"
| "dpkt DEMO_PKT_TERMINATE = 6"
| "dpkt DEMO_PKT_REJECT = 7"
| "dpkt DEMO_PKT_ACK = 8"
| "dpkt DEMO_PKT_NACK = 9"
| "dpkt DEMO_PKT_CLIENT_HELLO = 20"
| "dpkt DEMO_PKT_SERVER_HELLO = 21"
| "dpkt DEMO_PKT_FINISHED = 22"
| "dpkt DEMO_PKT_APP_DATA = 23"

lemma dpkt_inj [simp]: "dpkt a = dpkt b \<longleftrightarrow> a = b"
  by (cases a; cases b) simp_all

definition demo_packet_type_name :: "u16 \<Rightarrow> string" where
  "demo_packet_type_name type =
     (if type = dpkt DEMO_PKT_JOIN_REQ then ''JOIN_REQ''
      else if type = dpkt DEMO_PKT_PASS_REQ then ''PASS_REQ''
      else if type = dpkt DEMO_PKT_PASS_RESP then ''PASS_RESP''
      else if type = dpkt DEMO_PKT_PASS_ACCEPT then ''PASS_ACCEPT''
      else if type = dpkt DEMO_PKT_DATA then ''DATA''
      else if type = dpkt DEMO_PKT_TERMINATE then ''TERMINATE''
      else if type = dpkt DEMO_PKT_REJECT then ''REJECT''
      else if type = dpkt DEMO_PKT_ACK then ''ACK''
      else if type = dpkt DEMO_PKT_NACK then ''NACK''
      else if type = dpkt DEMO_PKT_CLIENT_HELLO then ''CLIENT_HELLO''
      else if type = dpkt DEMO_PKT_SERVER_HELLO then ''SERVER_HELLO''
      else if type = dpkt DEMO_PKT_FINISHED then ''FINISHED''
      else if type = dpkt DEMO_PKT_APP_DATA then ''APP_DATA''
      else ''UNKNOWN'')"

text \<open>
  The payload is the whole buffer of 4096 bytes: receiving a frame overwrites its
  beginning and leaves the rest as it was.
\<close>

record DemoFrame =
  fr_type :: u16
  fr_length :: u32
  fr_payload :: "byte list"

text \<open>The payload proper, and \<open>memcmp\<close>/\<open>memcpy\<close> of the first \<open>n\<close> bytes of the buffer.\<close>

definition frame_data :: "DemoFrame \<Rightarrow> byte list" where
  "frame_data fr = take (unat (fr_length fr)) (fr_payload fr)"

section \<open>Events\<close>

definition demo_init_event :: "string \<Rightarrow> string \<Rightarrow> string \<Rightarrow> string \<Rightarrow> LogEvent" where
  "demo_init_event level event state message =
     zero_event\<lparr>le_level := Some level, le_event := Some event, le_state := Some state,
       le_message := Some message, le_packet_id := LOG_INT_UNSET, le_seq := LOG_INT_UNSET,
       le_ack := LOG_INT_UNSET, le_window_size := LOG_INT_UNSET,
       le_retransmit_count := LOG_INT_UNSET, le_stream_id := LOG_INT_UNSET,
       le_stream_offset := LOG_INT_UNSET, le_status_code := LOG_INT_UNSET,
       le_payload_length := LOG_INT_UNSET, le_bytes := LOG_INT_UNSET,
       le_attempt := LOG_INT_UNSET, le_port := LOG_INT_UNSET,
       le_security_encrypted := LOG_INT_UNSET, le_security_mac_valid := LOG_INT_UNSET,
       le_security_replay := LOG_INT_UNSET\<rparr>"

definition demo_finish :: "Logger \<Rightarrow> string \<Rightarrow> string \<Rightarrow> world \<Rightarrow> world" where
  "demo_finish lg result reason w =
     (let e = (demo_init_event (if result = ''OK'' then ''SUCCESS'' else ''ABORT'')
                 (if result = ''OK'' then ''FINAL_OK'' else ''FINAL_ABORT'')
                 (if result = ''OK'' then ''DONE'' else ''ABORT'') reason)\<lparr>le_result := Some result\<rparr>
      in print_line result (logger_write lg (Some e) w))"

section \<open>Setting up a connection\<close>

text \<open>\<open>socket\<close>, then \<open>bind\<close> and \<open>listen\<close>; \<open>setsockopt\<close> is not looked at.\<close>

definition demo_create_tcp_listener :: "u16 \<Rightarrow> world \<Rightarrow> bool \<times> world" where
  "demo_create_tcp_listener port w =
     (case socket_call w of (ok, w1) \<Rightarrow>
        if \<not> ok then (False, w1)
        else (case socket_call w1 of (ok2, w2) \<Rightarrow>
          if \<not> ok2 then (False, w2) else socket_call w2))"

text \<open>The connection accepted comes from the address \<open>peer\<close>.\<close>

definition demo_accept_client :: "sockaddr_in \<Rightarrow> world \<Rightarrow> sockaddr_in option \<times> world" where
  "demo_accept_client peer w =
     (case socket_call w of (ok, w1) \<Rightarrow> (if ok then Some peer else None, w1))"

text \<open>The loop over the addresses: the first that can be connected to.\<close>

fun connect_loop :: "sockaddr_in list \<Rightarrow> world \<Rightarrow> sockaddr_in option \<times> world" where
  "connect_loop [] w = (None, w)"
| "connect_loop (rp # rps) w =
     (case socket_call w of (ok, w1) \<Rightarrow>
        if \<not> ok then connect_loop rps w1
        else (case socket_call w1 of (ok2, w2) \<Rightarrow>
          if ok2 then (Some rp, w2) else connect_loop rps w2))"

definition demo_connect_tcp :: "string \<Rightarrow> u16 \<Rightarrow> world \<Rightarrow> sockaddr_in option \<times> world" where
  "demo_connect_tcp host port w =
     (case w_resolve w host of
        None \<Rightarrow> (None, w)
      | Some as \<Rightarrow> connect_loop (map (\<lambda>a. a\<lparr>sin_port := htons LittleEndian port\<rparr>) as) w)"

section \<open>Bytes in and out\<close>

text \<open>
  One \<open>recv\<close>: at most \<open>n\<close> bytes of the next segment. The empty result stands for
  0 (the peer has closed) and for -1.
\<close>

definition tcp_recv :: "nat \<Rightarrow> world \<Rightarrow> byte list \<times> world" where
  "tcp_recv n w = (case w_tcp_in w of
     [] \<Rightarrow> ([], w)
   | seg # rest \<Rightarrow>
       (take n seg, w\<lparr>w_tcp_in := (if length seg \<le> n then rest else drop n seg # rest)\<rparr>))"

text \<open>One \<open>send\<close>: \<open>None\<close> for a failure, else how many bytes were taken (at least one).\<close>

definition tcp_send :: "byte list \<Rightarrow> world \<Rightarrow> nat option \<times> world" where
  "tcp_send d w =
     (case pop_fault (w_sendfault w) of (bad, faults) \<Rightarrow>
        let w1 = w\<lparr>w_sendfault := faults\<rparr> in
        if bad then (None, w1)
        else (case w_tcp_cap w1 of
            [] \<Rightarrow> (Some (length d), w1\<lparr>w_tcp_out := w_tcp_out w1 @ d\<rparr>)
          | c # cs \<Rightarrow>
              let n = min (length d) (Suc c) in
              (Some n, w1\<lparr>w_tcp_cap := cs, w_tcp_out := w_tcp_out w1 @ take n d\<rparr>)))"

function demo_write_all :: "byte list \<Rightarrow> world \<Rightarrow> bool \<times> world" where
  "demo_write_all buf w =
     (if buf = [] then (True, w)
      else (case tcp_send buf w of
          (None, w1) \<Rightarrow> (False, w1)
        | (Some n, w1) \<Rightarrow> if n = 0 then (False, w1) else demo_write_all (drop n buf) w1))"
  by pat_completeness auto
termination
  by (relation "measure (\<lambda>(buf, w). length buf)") auto

function demo_read_all :: "nat \<Rightarrow> world \<Rightarrow> byte list option \<times> world" where
  "demo_read_all len w =
     (if len = 0 then (Some [], w)
      else (case tcp_recv len w of (d, w1) \<Rightarrow>
        if d = [] then (None, w1)
        else (case demo_read_all (len - length d) w1 of
            (None, w2) \<Rightarrow> (None, w2)
          | (Some d2, w2) \<Rightarrow> (Some (d @ d2), w2))))"
  by pat_completeness auto
termination
  by (relation "measure (\<lambda>(len, w). len)") auto

declare demo_write_all.simps [simp del] demo_read_all.simps [simp del]

section \<open>Frames\<close>

text \<open>
  The bytes of a frame. The callers that pass a \<open>NULL\<close> payload pass length 0; the
  payload is here the bytes the pointer refers to.
\<close>

definition frame_wire :: "u16 \<Rightarrow> byte list \<Rightarrow> u32 \<Rightarrow> byte list" where
  "frame_wire type payload len = put_u16 type @ put_u32 len @ take (unat len) payload"

definition demo_send_frame :: "u16 \<Rightarrow> byte list \<Rightarrow> u32 \<Rightarrow> bool \<Rightarrow> world \<Rightarrow> bool \<times> world" where
  "demo_send_frame type payload len fragment_mode w =
     (if unat len > DEMO_MAX_PAYLOAD then (False, w)
      else let buf = frame_wire type payload len in
        if fragment_mode \<and> len > 0
        then (let first = DEMO_HEADER_SIZE + unat len div 2;
                  (ok, w1) = demo_write_all (take first buf) w
              in if \<not> ok then (False, w1) else demo_write_all (drop first buf) w1)
        else demo_write_all buf w)"

definition demo_recv_frame :: "DemoFrame \<Rightarrow> world \<Rightarrow> DemoFrame option \<times> world" where
  "demo_recv_frame frame w =
     (case demo_read_all DEMO_HEADER_SIZE w of
        (None, w1) \<Rightarrow> (None, w1)
      | (Some header, w1) \<Rightarrow>
          let fr = frame\<lparr>fr_type := get_u16 header, fr_length := get_u32 (drop 2 header)\<rparr> in
          if unat (fr_length fr) > DEMO_MAX_PAYLOAD then (None, w1)
          else if fr_length fr > 0
          then (case demo_read_all (unat (fr_length fr)) w1 of
              (None, w2) \<Rightarrow> (None, w2)
            | (Some d, w2) \<Rightarrow>
                (Some (fr\<lparr>fr_payload := d @ drop (length d) (fr_payload fr)\<rparr>), w2))
          else (Some fr, w1))"

section \<open>Passwords\<close>

definition demo_trim_line :: "string \<Rightarrow> string" where
  "demo_trim_line text = rev (dropWhile (\<lambda>c. c = CHR 0x0A \<or> c = CHR 0x0D) (rev text))"

definition demo_read_password ::
  "bool \<Rightarrow> string list \<Rightarrow> int \<Rightarrow> nat \<Rightarrow> world \<Rightarrow> string option \<times> world" where
  "demo_read_password interactive passwords index n w =
     (if \<not> interactive then
        (if index < 0 \<or> index \<ge> 3 \<or> length (passwords ! nat index) \<ge> n then (None, w)
         else (Some (snprintf_s n (passwords ! nat index)), w))
      else (case fgets_stdin n w of
          (None, w1) \<Rightarrow> (None, w1)
        | (Some line, w1) \<Rightarrow> (Some (demo_trim_line line), w1)))"

text \<open>
  One \<open>read\<close> of a character from the control server's pipe. A script that has run
  out is the end of the file.
\<close>

datatype read_result = RdChar char | RdEof | RdIntr | RdAgain | RdErr

fun prompt_loop :: "nat \<Rightarrow> string \<Rightarrow> read_result list \<Rightarrow> string \<times> read_result list" where
  "prompt_loop n buf [] = (buf, [])"
| "prompt_loop n buf (r # rs) =
     (if length buf + 1 < n then
        (case r of
           RdEof \<Rightarrow> (buf, rs)
         | RdIntr \<Rightarrow> prompt_loop n buf rs
         | RdAgain \<Rightarrow> prompt_loop n buf rs
         | RdErr \<Rightarrow> (buf, rs)
         | RdChar c \<Rightarrow>
             if c = CHR 0x0A \<or> c = CHR 0x0D then (buf, rs)
             else prompt_loop n (buf @ [c]) rs)
      else (buf, r # rs))"

text \<open>
  \<open>pipe\<close> is the script of the descriptor, \<open>None\<close> when it is negative. The result is
  the text left in the buffer, its length being the value returned; \<open>None\<close> is -1.
\<close>

definition demo_prompt_interactive_password ::
  "read_result list option \<Rightarrow> nat \<Rightarrow> world \<Rightarrow> string option \<times> read_result list option \<times> world" where
  "demo_prompt_interactive_password pipe n w =
     (if n = 0 then (None, pipe, w)
      else (case pipe of
          Some rs \<Rightarrow> (case prompt_loop n [] rs of (buf, rs') \<Rightarrow> (Some buf, Some rs', w))
        | None \<Rightarrow> (case fgets_stdin n w of
              (None, w1) \<Rightarrow> (None, None, w1)
            | (Some line, w1) \<Rightarrow> (Some (demo_trim_line line), None, w1))))"

section \<open>Keys, MACs and ciphers\<close>

definition demo_hmac_sha1 :: "byte list \<Rightarrow> byte list \<Rightarrow> byte list" where
  "demo_hmac_sha1 key data =
     (let start = (if length key > 64 then sha1_final (sha1_update sha1_init key) else key);
          key_block = start @ replicate (64 - length start) 0;
          ipad = map (\<lambda>b. b XOR 0x36) key_block;
          opad = map (\<lambda>b. b XOR 0x5c) key_block;
          inner = sha1_final (sha1_update (sha1_update sha1_init ipad) data)
      in sha1_final (sha1_update (sha1_update sha1_init opad) inner))"

definition demo_xor_crypt :: "byte list \<Rightarrow> byte list \<Rightarrow> byte list" where
  "demo_xor_crypt data key =
     (if key = [] then data
      else map (\<lambda>i. data ! i XOR key ! (i mod length key)) [0..<length data])"

definition demo_derive_session_key :: "string \<Rightarrow> byte list \<Rightarrow> byte list \<Rightarrow> byte list" where
  "demo_derive_session_key password left right =
     sha1_final (sha1_update (sha1_update (sha1_update sha1_init (bytes_of_string password)) left) right)"

text \<open>What the generator yields is part of the environment; a script that ran out yields zeros.\<close>

definition demo_random_nonce :: "nat \<Rightarrow> world \<Rightarrow> byte list \<times> world" where
  "demo_random_nonce len w = (case w_nonces w of
     [] \<Rightarrow> (replicate len 0, w)
   | n # ns \<Rightarrow> (take len (n @ replicate len 0), w\<lparr>w_nonces := ns\<rparr>))"

section \<open>Base64\<close>

definition base64_alphabet :: string where
  "base64_alphabet = ''ABCDEFGHIJKLMNOPQRSTUVWXYZabcdefghijklmnopqrstuvwxyz0123456789+/''"

definition base64_char :: "u32 \<Rightarrow> char" where
  "base64_char x = base64_alphabet ! unat (x AND 0x3f)"

text \<open>The block of up to three bytes, and the four characters it gives.\<close>

definition base64_block :: "byte list \<Rightarrow> u32" where
  "base64_block d = foldl (\<lambda>acc i. acc OR push_bit (16 - i * 8) (ucast (d ! i))) 0 [0..<length d]"

definition base64_quad :: "byte list \<Rightarrow> string" where
  "base64_quad d =
     (let block = base64_block d in
      [base64_char (drop_bit 18 block), base64_char (drop_bit 12 block),
       if length d \<ge> 2 then base64_char (drop_bit 6 block) else CHR ''='',
       if length d = 3 then base64_char block else CHR ''=''])"

function base64_loop :: "byte list \<Rightarrow> string \<Rightarrow> nat \<Rightarrow> string option" where
  "base64_loop data out out_size =
     (if data = [] then Some out
      else if length out + 4 \<ge> out_size then None
      else base64_loop (drop 3 data) (out @ base64_quad (take 3 data)) out_size)"
  by pat_completeness auto
termination
  by (relation "measure (\<lambda>(data, out, n). length data)") auto

declare base64_loop.simps [simp del]

definition demo_base64_encode :: "byte list \<Rightarrow> nat \<Rightarrow> string option" where
  "demo_base64_encode data out_size =
     (case base64_loop data [] out_size of
        None \<Rightarrow> None
      | Some out \<Rightarrow> if length out \<ge> out_size then None else Some out)"

end
