(* ===== verification/DemoStream.thy ===== *)
theory DemoStream
  imports DemoUtil
begin

text \<open>
  The byte stream of a TCP connection and the frames in it: what the read and write
  loops of \<open>src/demo_util.c\<close> do does not depend on how the stream is cut into
  segments or on how much each \<open>send\<close> takes.
\<close>

section \<open>The byte stream\<close>

text \<open>What is still to be read, and that no \<open>recv\<close> of it reports an end or an error.\<close>

definition tcp_stream :: "world \<Rightarrow> byte list" where
  "tcp_stream w = concat (w_tcp_in w)"

definition flowing :: "world \<Rightarrow> bool" where
  "flowing w \<longleftrightarrow> [] \<notin> set (w_tcp_in w)"

text \<open>Reading only moves on in the stream.\<close>

definition reads :: "world \<Rightarrow> world \<Rightarrow> bool" where
  "reads w w1 \<longleftrightarrow> (\<exists>segs. w1 = w\<lparr>w_tcp_in := segs\<rparr>)"

lemma readsI: "reads w (w\<lparr>w_tcp_in := segs\<rparr>)"
  by (auto simp: reads_def)

lemma reads_refl [simp]: "reads w w"
  using readsI [of w "w_tcp_in w"] by simp

lemma reads_trans: "reads w w1 \<Longrightarrow> reads w1 w2 \<Longrightarrow> reads w w2"
  by (auto simp: reads_def)

lemma reads_same [world_simps]:
  assumes "reads w w1"
  shows "w_fs w1 = w_fs w" "w_env w1 = w_env w" "w_stdout w1 = w_stdout w" "w_tcp_out w1 = w_tcp_out w"
    "w_sendfault w1 = w_sendfault w" "w_stop w1 = w_stop w" "w_nonces w1 = w_nonces w"
    "w_writefault w1 = w_writefault w" "w_renamefault w1 = w_renamefault w" "w_allocfault w1 = w_allocfault w"
    "w_stdin w1 = w_stdin w" "w_tcp_cap w1 = w_tcp_cap w" "w_lines w1 = w_lines w"
  using assms by (auto simp: reads_def)

lemma tcp_recv_stream:
  assumes "tcp_recv n w = (d, w1)"
  shows "reads w w1" "tcp_stream w = d @ tcp_stream w1" "length d \<le> n"
    "flowing w \<Longrightarrow> flowing w1" "flowing w \<Longrightarrow> 0 < n \<Longrightarrow> d = [] \<Longrightarrow> tcp_stream w = []"
proof -
  show "reads w w1" using assms by (auto simp: tcp_recv_def readsI split: list.splits)
qed (use assms in \<open>auto simp: tcp_recv_def tcp_stream_def flowing_def split: list.splits if_splits\<close>)

lemma demo_read_all_some:
  "demo_read_all n w = (Some d, w1) \<Longrightarrow> reads w w1 \<and> tcp_stream w = d @ tcp_stream w1 \<and> length d = n"
proof (induction n w arbitrary: d w1 rule: demo_read_all.induct)
  case (1 n w)
  obtain d1 wa where r: "tcp_recv n w = (d1, wa)" by fastforce
  note t = tcp_recv_stream [OF r] and unf = demo_read_all.simps [of n w]
  show ?case
  proof (cases "n = 0 \<or> d1 = []")
    case True
    with "1.prems" r unf show ?thesis by (auto split: if_splits)
  next
    case False
    with "1.prems" r unf obtain d2 where rest: "demo_read_all (n - length d1) wa = (Some d2, w1)" "d = d1 @ d2"
      by (auto split: prod.splits option.splits)
    from "1.IH" [OF _ r [symmetric] _ rest(1)] False have
      "reads wa w1" "tcp_stream wa = d2 @ tcp_stream w1" "length d2 = n - length d1"
      by auto
    with t rest(2) show ?thesis by (auto intro: reads_trans)
  qed
qed

lemma demo_read_all_flowing:
  "flowing w \<Longrightarrow> \<exists>w1. reads w w1 \<and> flowing w1 \<and>
   demo_read_all n w = (if n \<le> length (tcp_stream w) then Some (take n (tcp_stream w)) else None, w1) \<and>
   (n \<le> length (tcp_stream w) \<longrightarrow> tcp_stream w1 = drop n (tcp_stream w))"
proof (induction n w rule: demo_read_all.induct)
  case (1 n w)
  obtain d wa where r: "tcp_recv n w = (d, wa)" by fastforce
  note t = tcp_recv_stream [OF r] and unf = demo_read_all.simps [of n w]
  show ?case
  proof (cases "n = 0 \<or> d = []")
    case True
    show ?thesis
    proof (cases "n = 0")
      case True
      with "1.prems" unf show ?thesis by auto
    next
      case False
      with True have d: "d = []" by simp
      with t "1.prems" False have "tcp_stream w = []" by simp
      with False d r unf t(1) t(4) [OF "1.prems"] show ?thesis by auto
    qed
  next
    case False
    have "flowing wa" using t(4) "1.prems" by blast
    with "1.IH" [OF _ r [symmetric]] False obtain w1 where w1: "reads wa w1" "flowing w1"
      "demo_read_all (n - length d) wa =
        (if n - length d \<le> length (tcp_stream wa) then Some (take (n - length d) (tcp_stream wa)) else None, w1)"
      "n - length d \<le> length (tcp_stream wa) \<longrightarrow> tcp_stream w1 = drop (n - length d) (tcp_stream wa)"
      by auto
    have "demo_read_all n w = (if n \<le> length (tcp_stream w) then Some (take n (tcp_stream w)) else None, w1)"
      using False t(2,3) w1(3) unf r by auto
    with w1 t show ?thesis by (auto intro: reads_trans)
  qed
qed

text \<open>Writing: what leaves is a prefix of the bytes given, all of them on success.\<close>

definition writes :: "byte list \<Rightarrow> world \<Rightarrow> world \<Rightarrow> bool" where
  "writes d w w1 \<longleftrightarrow> (\<exists>f c. w1 = w\<lparr>w_sendfault := f, w_tcp_cap := c, w_tcp_out := w_tcp_out w @ d\<rparr>)"

lemma writesI: "writes d w (w\<lparr>w_sendfault := f, w_tcp_cap := c, w_tcp_out := w_tcp_out w @ d\<rparr>)"
  unfolding writes_def by blast

lemma writes_Nil [simp]: "writes [] w w" "writes [] w (w\<lparr>w_sendfault := f\<rparr>)"
  using writesI [where d = "[]" and w = w and f = "w_sendfault w" and c = "w_tcp_cap w"]
    writesI [where d = "[]" and w = w and f = f and c = "w_tcp_cap w"] by simp_all

lemma writes_trans:
  assumes "writes d w w1" "writes d' w1 w2"
  shows "writes (d @ d') w w2"
proof -
  obtain f c where "w1 = w\<lparr>w_sendfault := f, w_tcp_cap := c, w_tcp_out := w_tcp_out w @ d\<rparr>"
    using assms(1) unfolding writes_def by blast
  moreover obtain f' c' where "w2 = w1\<lparr>w_sendfault := f', w_tcp_cap := c', w_tcp_out := w_tcp_out w1 @ d'\<rparr>"
    using assms(2) unfolding writes_def by blast
  ultimately show ?thesis using writesI [where d = "d @ d'" and w = w and f = f' and c = c'] by simp
qed

lemma tcp_send_writes:
  assumes "tcp_send d w = (n, w1)"
  shows "writes (case n of None \<Rightarrow> [] | Some k \<Rightarrow> take k d) w w1"
    and "w_sendfault w = [] \<Longrightarrow> n \<noteq> None \<and> w_sendfault w1 = []"
    and "n = Some k \<Longrightarrow> d \<noteq> [] \<Longrightarrow> 0 < k"
proof -
  obtain bad fs where p: "pop_fault (w_sendfault w) = (bad, fs)" by fastforce
  show "writes (case n of None \<Rightarrow> [] | Some k \<Rightarrow> take k d) w w1"
    using assms p writesI [where d = d and w = w and f = fs and c = "w_tcp_cap w"]
      writesI [where d = "take (min (length d) (Suc (hd (w_tcp_cap w)))) d" and w = w and f = fs and c = "tl (w_tcp_cap w)"]
    by (auto simp: tcp_send_def Let_def split: if_splits list.splits)
qed (use assms in \<open>auto simp: tcp_send_def Let_def split: prod.splits if_splits list.splits\<close>)

lemma writes_same [world_simps]:
  assumes "writes d w w1"
  shows "w_fs w1 = w_fs w" "w_env w1 = w_env w" "w_stdout w1 = w_stdout w" "w_tcp_out w1 = w_tcp_out w @ d"
    "w_tcp_in w1 = w_tcp_in w" "w_stop w1 = w_stop w" "w_nonces w1 = w_nonces w"
    "w_writefault w1 = w_writefault w" "w_renamefault w1 = w_renamefault w" "w_allocfault w1 = w_allocfault w"
    "w_stdin w1 = w_stdin w" "w_lines w1 = w_lines w"
    "tcp_stream w1 = tcp_stream w" "flowing w1 = flowing w"
  using assms by (auto simp: writes_def tcp_stream_def flowing_def)

lemma demo_write_all_writes:
  "demo_write_all d w = (ok, w1) \<Longrightarrow> \<exists>d1 d2. d = d1 @ d2 \<and> writes d1 w w1 \<and> (ok \<longrightarrow> d2 = []) \<and>
     (w_sendfault w = [] \<longrightarrow> ok \<and> w_sendfault w1 = [])"
proof (induction d w arbitrary: ok w1 rule: demo_write_all.induct)
  case (1 d w)
  note unf = demo_write_all.simps [of d w]
  obtain n wa where snd: "tcp_send d w = (n, wa)" by fastforce
  show ?case
  proof (cases "d = []")
    case True
    with "1.prems" unf show ?thesis by simp
  next
    case d: False
    show ?thesis
    proof (cases n)
      case None
      with d "1.prems" unf snd have "ok = False" "w1 = wa" by auto
      moreover have "writes [] w wa" "w_sendfault w \<noteq> []"
        using tcp_send_writes(1,2) [OF snd] None by auto
      ultimately show ?thesis by auto
    next
      case (Some k)
      have k: "writes (take k d) w wa" "0 < k" "w_sendfault w = [] \<longrightarrow> w_sendfault wa = []"
        using tcp_send_writes [OF snd] Some d by auto
      with d "1.prems" unf snd Some have rec: "demo_write_all (drop k d) wa = (ok, w1)" by simp
      have "k \<noteq> 0" using k(2) by simp
      from "1.IH" [OF d snd [symmetric] Some this rec] obtain d1 d2 where
        r: "drop k d = d1 @ d2" "writes d1 wa w1" "ok \<longrightarrow> d2 = []" "w_sendfault wa = [] \<longrightarrow> ok \<and> w_sendfault w1 = []"
        by blast
      have "d = (take k d @ d1) @ d2" using r(1) by (metis append.assoc append_take_drop_id)
      with writes_trans [OF k(1) r(2)] r(3,4) k(3) show ?thesis by blast
    qed
  qed
qed

section \<open>Frames\<close>

definition frame_bytes :: "u16 \<Rightarrow> byte list \<Rightarrow> byte list" where
  "frame_bytes t d = frame_wire t d (word_of_nat (length d))"

definition parse_frame :: "byte list \<Rightarrow> ((u16 \<times> byte list) \<times> byte list) option" where
  "parse_frame s =
     (let n = unat (get_u32 (drop 2 s)) in
      if length s < 6 \<or> n > 4096 \<or> length s < 6 + n then None
      else Some ((get_u16 s, take n (drop 6 s)), drop (6 + n) s))"

lemma frame_bytes_eq: "length d \<le> 4096 \<Longrightarrow> frame_bytes t d = be16 t @ be32 (word_of_nat (length d)) @ d"
  by (simp add: frame_bytes_def frame_wire_def unat_small be_put [of _ LittleEndian])

lemma parse_frame_bytes: "length d \<le> 4096 \<Longrightarrow> parse_frame (frame_bytes t d @ rest) = Some ((t, d), rest)"
  by (simp add: parse_frame_def frame_bytes_eq unat_small Let_def del: length_drop)

interpretation frames: prefix_codec "\<lambda>(t, d). frame_bytes t d" parse_frame "\<lambda>(t, d). length d \<le> 4096"
  by unfold_locales (auto simp: parse_frame_bytes)

lemma parse_frame_sound:
  assumes "parse_frame s = Some ((t, d), rest)"
  shows "length d \<le> 4096 \<and> s = frame_bytes t d @ rest"
proof -
  let ?n = "unat (get_u32 (drop 2 s))"
  from assms have n: "6 \<le> length s" "?n \<le> 4096" "6 + ?n \<le> length s"
    and t: "t = get_u16 s" "d = take ?n (drop 6 s)" "rest = drop (6 + ?n) s"
    by (auto simp: parse_frame_def Let_def split: if_splits)
  have len: "length d = ?n" using n t by simp
  then have "word_of_nat (length d) = get_u32 (drop 2 s)" by simp
  moreover have "rest = drop ?n (drop 6 s)" using t by (simp add: add.commute)
  then have "drop 6 s = d @ rest" using t(2) by (metis append_take_drop_id)
  ultimately have "be16 t @ be32 (word_of_nat (length d)) @ d @ rest = s"
    using split_header [OF n(1)] t(1) by metis
  moreover have bound: "length d \<le> 4096" using n(2) len by simp
  ultimately have "frame_bytes t d @ rest = s" by (simp only: frame_bytes_eq append.assoc)
  with bound show ?thesis by (simp only:)
qed

text \<open>A frame received into the buffer \<open>fr\<close>.\<close>

definition filled :: "DemoFrame \<Rightarrow> u16 \<Rightarrow> byte list \<Rightarrow> DemoFrame" where
  "filled fr t d = \<lparr>fr_type = t, fr_length = word_of_nat (length d),
     fr_payload = d @ drop (length d) (fr_payload fr)\<rparr>"

lemma filled_simps [simp]:
  "fr_type (filled fr t d) = t" "fr_length (filled fr t d) = word_of_nat (length d)"
  "length d \<le> 4096 \<Longrightarrow> frame_data (filled fr t d) = d"
  "length d \<le> 4096 \<Longrightarrow> length (fr_payload fr) = 4096 \<Longrightarrow> length (fr_payload (filled fr t d)) = 4096"
  by (simp_all add: filled_def frame_data_def unat_small)

lemma demo_recv_frame_some:
  assumes "demo_recv_frame fr w = (Some fr1, w1)"
  shows "\<exists>t d. fr1 = filled fr t d \<and> length d \<le> 4096 \<and> reads w w1 \<and> tcp_stream w = frame_bytes t d @ tcp_stream w1"
proof -
  obtain r wa where hd: "demo_read_all 6 w = (r, wa)" by fastforce
  with assms obtain h where r: "r = Some h" by (cases r) (auto simp: demo_recv_frame_def demo_sizes)
  note h = demo_read_all_some [OF hd [unfolded r]]
  let ?t = "get_u16 h" and ?n = "get_u32 (drop 2 h)"
  have h_eq: "h = be16 ?t @ be32 ?n" using split_header [of h] h by simp
  from assms hd r have n: "unat ?n \<le> 4096" by (auto simp: demo_recv_frame_def demo_sizes Let_def split: if_splits)
  show ?thesis
  proof (cases "?n > 0")
    case True
    with assms hd r n obtain d where d: "demo_read_all (unat ?n) wa = (Some d, w1)"
      and fr1: "fr1 = fr\<lparr>fr_type := ?t, fr_length := ?n, fr_payload := d @ drop (length d) (fr_payload fr)\<rparr>"
      by (auto simp: demo_recv_frame_def demo_sizes Let_def split: prod.splits option.splits)
    note e = demo_read_all_some [OF d]
    then have len: "length d = unat ?n" by simp
    then have "fr1 = filled fr ?t d" by (simp add: fr1 filled_def)
    moreover have "tcp_stream w = frame_bytes ?t d @ tcp_stream w1"
      using h e h_eq n len by (simp add: frame_bytes_eq)
    moreover have "reads w w1" using h e reads_trans by blast
    ultimately show ?thesis using n len by (intro exI [of _ ?t] exI [of _ d]) simp
  next
    case False
    with assms hd r n have "fr1 = fr\<lparr>fr_type := ?t, fr_length := ?n\<rparr>" "w1 = wa" "?n = 0"
      by (auto simp: demo_recv_frame_def demo_sizes Let_def word_gt_0)
    then have "fr1 = filled fr ?t []" "tcp_stream w = frame_bytes ?t [] @ tcp_stream w1"
      using h h_eq by (simp_all add: filled_def frame_bytes_eq)
    with h \<open>w1 = wa\<close> show ?thesis by (intro exI [of _ ?t] exI [of _ "[]"]) simp
  qed
qed

lemma demo_recv_frame_flowing:
  assumes "flowing w"
  shows "\<exists>w1. reads w w1 \<and> flowing w1 \<and>
    (case parse_frame (tcp_stream w) of
       None \<Rightarrow> demo_recv_frame fr w = (None, w1)
     | Some ((t, d), rest) \<Rightarrow> demo_recv_frame fr w = (Some (filled fr t d), w1) \<and> tcp_stream w1 = rest)"
proof -
  let ?s = "tcp_stream w"
  from demo_read_all_flowing [OF assms, of 6] obtain wa where wa: "reads w wa" "flowing wa"
    "demo_read_all 6 w = (if 6 \<le> length ?s then Some (take 6 ?s) else None, wa)"
    "6 \<le> length ?s \<longrightarrow> tcp_stream wa = drop 6 ?s" by blast
  show ?thesis
  proof (cases "6 \<le> length ?s \<and> unat (get_u32 (drop 2 ?s)) \<le> 4096")
    case False
    have hd: "6 \<le> length ?s \<longrightarrow> get_u32 (drop 2 (take 6 ?s)) = get_u32 (drop 2 ?s)"
      by (auto simp: eval_nat_numeral Suc_le_length_iff get_u32_host)
    have "parse_frame ?s = None" using False by (auto simp: parse_frame_def Let_def)
    moreover have "demo_recv_frame fr w = (None, wa)"
      using False wa(3) hd by (auto simp: demo_recv_frame_def demo_sizes Let_def)
    ultimately show ?thesis using wa by auto
  next
    case True
    let ?n = "unat (get_u32 (drop 2 ?s))"
    have hd: "get_u32 (drop 2 (take 6 ?s)) = get_u32 (drop 2 ?s)" "get_u16 (take 6 ?s) = get_u16 ?s"
      using True by (auto simp: eval_nat_numeral Suc_le_length_iff get_u32_host get_u16_host)
    from demo_read_all_flowing [OF wa(2), of ?n] obtain w1 where w1: "reads wa w1" "flowing w1"
      "demo_read_all ?n wa = (if ?n \<le> length (tcp_stream wa) then Some (take ?n (tcp_stream wa)) else None, w1)"
      "?n \<le> length (tcp_stream wa) \<longrightarrow> tcp_stream w1 = drop ?n (tcp_stream wa)" by blast
    show ?thesis
    proof (cases "?n = 0")
      case z: True
      then have "get_u32 (drop 2 ?s) = 0" by (simp add: unat_eq_zero)
      then have "demo_recv_frame fr w = (Some (filled fr (get_u16 ?s) []), wa)"
        using True wa(3) hd by (simp add: demo_recv_frame_def demo_sizes Let_def filled_def)
      moreover have "parse_frame ?s = Some ((get_u16 ?s, []), drop 6 ?s)"
        using True z by (simp add: parse_frame_def Let_def)
      ultimately show ?thesis using wa True by auto
    next
      case nz: False
      then have pos: "0 < get_u32 (drop 2 ?s)" by (simp add: unat_eq_zero word_gt_0)
      have "demo_recv_frame fr w = (if 6 + ?n \<le> length ?s
          then Some (filled fr (get_u16 ?s) (take ?n (drop 6 ?s))) else None, w1)"
        using True wa(3,4) hd w1(3) pos by (auto simp: demo_recv_frame_def demo_sizes Let_def filled_def)
      moreover have "parse_frame ?s = (if 6 + ?n \<le> length ?s
          then Some ((get_u16 ?s, take ?n (drop 6 ?s)), drop (6 + ?n) ?s) else None)"
        using True by (simp add: parse_frame_def Let_def)
      moreover have "reads w w1" using wa(1) w1(1) by (rule reads_trans)
      ultimately show ?thesis using True wa(4) w1 by (auto simp: add.commute)
    qed
  qed
qed

lemma demo_send_frame_writes:
  assumes "demo_send_frame t d (word_of_nat (length d)) frag w = (ok, w1)" "length d \<le> 4096"
  shows "\<exists>p q. frame_bytes t d = p @ q \<and> writes p w w1 \<and> (ok \<longrightarrow> q = []) \<and>
    (w_sendfault w = [] \<longrightarrow> ok \<and> w_sendfault w1 = [])"
proof -
  let ?buf = "frame_bytes t d" and ?first = "6 + length d div 2"
  show ?thesis
  proof (cases "frag \<and> 0 < (word_of_nat (length d) :: u32)")
    case False
    with assms have "demo_write_all ?buf w = (ok, w1)"
      by (auto simp: demo_send_frame_def frame_bytes_def demo_sizes unat_small Let_def)
    from demo_write_all_writes [OF this] show ?thesis by blast
  next
    case True
    obtain ok1 wa where one: "demo_write_all (take ?first ?buf) w = (ok1, wa)" by fastforce
    from demo_write_all_writes [OF one] obtain p1 q1 where p1: "take ?first ?buf = p1 @ q1" "writes p1 w wa"
      "ok1 \<longrightarrow> q1 = []" "w_sendfault w = [] \<longrightarrow> ok1 \<and> w_sendfault wa = []" by blast
    show ?thesis
    proof (cases ok1)
      case False
      with True assms one have "ok = False" "w1 = wa"
        by (auto simp: demo_send_frame_def frame_bytes_def demo_sizes unat_small Let_def)
      moreover have "?buf = p1 @ (q1 @ drop ?first ?buf)" using p1(1) by (metis append.assoc append_take_drop_id)
      ultimately show ?thesis using p1 False by blast
    next
      case ok1: True
      with True assms one have "demo_write_all (drop ?first ?buf) wa = (ok, w1)"
        by (auto simp: demo_send_frame_def frame_bytes_def demo_sizes unat_small Let_def)
      from demo_write_all_writes [OF this] obtain p2 q2 where p2: "drop ?first ?buf = p2 @ q2" "writes p2 wa w1"
        "ok \<longrightarrow> q2 = []" "w_sendfault wa = [] \<longrightarrow> ok \<and> w_sendfault w1 = []" by blast
      have "?buf = (p1 @ p2) @ q2" using p1(1,3) p2(1) ok1 by (metis append.assoc append_Nil2 append_take_drop_id)
      with writes_trans [OF p1(2) p2(2)] p1 p2 ok1 show ?thesis by blast
    qed
  qed
qed

end
