(* ===== verification/TcpConn.thy ===== *)
theory TcpConn
  imports DemoStream
begin

text \<open>
  What the two programs over TCP (\<open>src/tcp_demo_server.c\<close>, \<open>src/tcp_demo_client.c\<close>)
  share: the local variables that follow one connection. The payload buffer of
  \<open>frame\<close> is a local array: what it holds before the first frame is arbitrary.
\<close>

section \<open>The variables of a connection\<close>

record tcp_conn =
  tc_frame :: DemoFrame
  tc_recv_offset :: int
  tc_send_offset :: int

definition new_conn :: "DemoFrame \<Rightarrow> tcp_conn" where
  "new_conn junk = \<lparr>tc_frame = junk, tc_recv_offset = 0, tc_send_offset = 0\<rparr>"

text \<open>For concrete runs: a frame buffer of zeros.\<close>

definition junk0 :: DemoFrame where
  "junk0 = \<lparr>fr_type = 0, fr_length = 0, fr_payload = replicate 4096 0\<rparr>"

text \<open>The text of an environment variable, or a default: \<open>getenv(x) ? getenv(x) : d\<close>.\<close>

definition getenv_or :: "world \<Rightarrow> string \<Rightarrow> string \<Rightarrow> string" where
  "getenv_or w name d = (case getenv w name of None \<Rightarrow> d | Some s \<Rightarrow> s)"

definition env_flag :: "world \<Rightarrow> string \<Rightarrow> bool" where
  "env_flag w name \<longleftrightarrow> getenv w name = Some ''1''"

text \<open>A frame is data for the log when it carries a piece of the file.\<close>

definition is_data_type :: "u16 \<Rightarrow> bool" where
  "is_data_type type \<longleftrightarrow> type = dpkt DEMO_PKT_DATA \<or> type = dpkt DEMO_PKT_APP_DATA"

end
