(* ===== verification/TcpServer.thy ===== *)
theory TcpServer
  imports TcpConn
begin

text \<open>
  The server of the TCP demos (\<open>src/tcp_demo_server.c\<close>): the dialogue about the
  password, then the file as plain frames (\<open>tcp-basic\<close>) or as numbered, encrypted
  and authenticated ones (\<open>tls-like\<close>).
\<close>

section \<open>The encrypted payload\<close>

text \<open>The four bytes of a sequence number, most significant first.\<close>

definition seq_bytes :: "u32 \<Rightarrow> byte list" where
  "seq_bytes seq = [ucast (drop_bit 24 seq AND 0xff), ucast (drop_bit 16 seq AND 0xff),
     ucast (drop_bit 8 seq AND 0xff), ucast (seq AND 0xff)]"

definition tls_app_mac :: "u32 \<Rightarrow> byte list \<Rightarrow> byte list \<Rightarrow> world \<Rightarrow> byte list \<times> world" where
  "tls_app_mac seq cipher key w =
     (case malloc_ok w of (ok, w1) \<Rightarrow>
        if \<not> ok then (replicate 20 0, w1)
        else (demo_hmac_sha1 key (seq_bytes seq @ cipher), w1))"

text \<open>\<open>None\<close> for -1, else the bytes put into \<open>out\<close>. The bound is computed in 32 bits.\<close>

definition tls_payload_app_data ::
  "u32 \<Rightarrow> byte list \<Rightarrow> byte list \<Rightarrow> bool \<Rightarrow> world \<Rightarrow> byte list option \<times> world" where
  "tls_payload_app_data seq plain key tamper_mac w =
     (if unat (word_of_nat (length plain) + 4 + 20 :: u32) > DEMO_MAX_PAYLOAD then (None, w)
      else (let cipher = demo_xor_crypt plain key in
        case tls_app_mac seq cipher key w of (mac, w1) \<Rightarrow>
          let mac1 = (if tamper_mac then mac[0 := mac ! 0 XOR 0x5a] else mac)
          in (Some (seq_bytes seq @ mac1 @ cipher), w1)))"

section \<open>Logged frames\<close>

definition build_frame_wire :: "u16 \<Rightarrow> byte list \<Rightarrow> u32 \<Rightarrow> byte list" where
  "build_frame_wire type payload payload_len =
     put_u16 type @ put_u32 payload_len @ (if payload_len > 0 then take (unat payload_len) payload else [])"

definition server_frame_event ::
  "string \<Rightarrow> string \<Rightarrow> string \<Rightarrow> string \<Rightarrow> u16 \<Rightarrow> byte list \<Rightarrow> u32 \<Rightarrow> string \<Rightarrow> int \<Rightarrow> int \<Rightarrow> LogEvent" where
  "server_frame_event level event state peer type payload payload_len direction stream_offset logical_pid =
     (let e0 = demo_init_event level event state ''packet event'';
          wire = build_frame_wire type payload payload_len;
          wire_len = DEMO_HEADER_SIZE + unat payload_len;
          hex = bytes_to_hex (Some (take (if wire_len > 160 then 160 else wire_len) wire)) (DEMO_MAX_FRAME * 2 + 1);
          e1 = e0\<lparr>le_peer := Some peer,
                  le_packet_type := Some (demo_packet_type_name type),
                  le_packet_code := uint type,
                  le_payload_length := int_of_u32 payload_len,
                  le_bytes := int_of_u32 payload_len,
                  le_direction := Some direction,
                  le_stream_offset := stream_offset\<rparr>;
          e2 = (if is_data_type type then e1\<lparr>le_packet_id := logical_pid, le_seq := logical_pid\<rparr> else e1)
      in e2\<lparr>le_wire_hex := hex,
            le_packet_uid := compute_packet_uid 24 type (if logical_pid \<ge> 0 then logical_pid else stream_offset)
                               0 (Some wire) wire_len\<rparr>)"

definition server_send_frame ::
  "Logger \<Rightarrow> string \<Rightarrow> u16 \<Rightarrow> byte list \<Rightarrow> u32 \<Rightarrow> string \<Rightarrow> string \<Rightarrow> int \<Rightarrow> bool \<Rightarrow> tcp_conn \<Rightarrow> world
   \<Rightarrow> bool \<times> tcp_conn \<times> world" where
  "server_send_frame lg peer type payload payload_len state event logical_pid fragment_mode c w =
     (case demo_send_frame type payload payload_len fragment_mode w of (ok, w1) \<Rightarrow>
        if \<not> ok then (False, c, w1)
        else (True, c\<lparr>tc_send_offset := tc_send_offset c + int DEMO_HEADER_SIZE + int_of_u32 payload_len\<rparr>,
              logger_write lg (Some (server_frame_event (if is_data_type type then ''DATA'' else ''INFO'')
                event state peer type payload payload_len ''Server -> Client'' (tc_send_offset c) logical_pid)) w1))"

text \<open>\<open>None\<close> for -1; else the connection with the frame in \<open>frame\<close>.\<close>

definition server_recv_frame ::
  "Logger \<Rightarrow> string \<Rightarrow> string \<Rightarrow> string \<Rightarrow> int \<Rightarrow> tcp_conn \<Rightarrow> world \<Rightarrow> tcp_conn option \<times> world" where
  "server_recv_frame lg peer state event logical_pid c w =
     (case demo_recv_frame (tc_frame c) w of
        (None, w1) \<Rightarrow> (None, w1)
      | (Some fr, w1) \<Rightarrow>
          (Some (c\<lparr>tc_frame := fr,
                   tc_recv_offset := tc_recv_offset c + int DEMO_HEADER_SIZE + int_of_u32 (fr_length fr)\<rparr>),
           logger_write lg (Some (server_frame_event (if is_data_type (fr_type fr) then ''DATA'' else ''INFO'')
             event state peer (fr_type fr) (fr_payload fr) (fr_length fr) ''Client -> Server''
             (tc_recv_offset c) logical_pid)) w1))"

section \<open>The plain transfer\<close>

text \<open>
  The loop over the blocks \<open>fread\<close> returns: \<open>Some rc\<close> when the function returns from
  inside it. \<open>ferror\<close> is not looked at.
\<close>

fun tcp_basic_loop ::
  "Logger \<Rightarrow> string \<Rightarrow> bool \<Rightarrow> bool \<Rightarrow> int \<Rightarrow> byte list list \<Rightarrow> tcp_conn \<Rightarrow> world
   \<Rightarrow> int option \<times> tcp_conn \<times> world" where
  "tcp_basic_loop lg peer close_mid fragment_mode cs [] c w = (None, c, w)"
| "tcp_basic_loop lg peer close_mid fragment_mode cs (b # bs) c w =
     (case server_send_frame lg peer (dpkt DEMO_PKT_DATA) b (word_of_nat (length b)) ''DATA_TRANSFER''
             ''SEND_DATA'' cs (fragment_mode \<and> cs = 0) c w of (ok, c1, w1) \<Rightarrow>
        if \<not> ok then (Some (-1), c1, w1)
        else if close_mid \<and> cs + 1 = 1
        then (Some 1, c1, demo_finish lg ''ABORT'' ''connection closed mid transfer'' w1)
        else tcp_basic_loop lg peer close_mid fragment_mode (cs + 1) bs c1 w1)"

definition run_tcp_basic ::
  "Logger \<Rightarrow> string \<Rightarrow> string \<Rightarrow> byte list \<Rightarrow> bool \<Rightarrow> bool \<Rightarrow> DemoFrame \<Rightarrow> world \<Rightarrow> int \<times> world" where
  "run_tcp_basic lg peer input_path digest close_mid fragment_mode junk w =
     (case w_fs w input_path of
        None \<Rightarrow> (-1, w)
      | Some f \<Rightarrow>
         (case tcp_basic_loop lg peer close_mid fragment_mode 0
                 (fst (fread_blocks PROTOCOL_DATA_CHUNK_SIZE f)) (new_conn junk) w of
            (Some rc, c1, w1) \<Rightarrow> (rc, w1)
          | (None, c1, w1) \<Rightarrow>
             (case server_send_frame lg peer (dpkt DEMO_PKT_TERMINATE) digest 20 ''VERIFY''
                     ''SEND_TERMINATE'' (-1) False c1 w1 of (ok, c2, w2) \<Rightarrow>
                if \<not> ok then (-1, w2)
                else (0, demo_finish lg ''OK'' ''tcp-basic transfer completed'' w2))))"

section \<open>The handshake and the encrypted transfer\<close>

text \<open>From the first receive to the server's \<open>FINISHED\<close>: a return code, or the session key.\<close>

definition tls_server_handshake ::
  "Logger \<Rightarrow> string \<Rightarrow> string \<Rightarrow> bool \<Rightarrow> DemoFrame \<Rightarrow> world \<Rightarrow> (int + byte list) \<times> tcp_conn \<times> world" where
  "tls_server_handshake lg peer password tamper_finished junk w =
     (let c = new_conn junk in
      case server_recv_frame lg peer ''HANDSHAKE'' ''RECV_CLIENT_HELLO'' (-1) c w of
        (None, w1) \<Rightarrow> (Inl (-1), c, w1)
      | (Some c1, w1) \<Rightarrow>
        if fr_type (tc_frame c1) \<noteq> dpkt DEMO_PKT_CLIENT_HELLO \<or> fr_length (tc_frame c1) \<noteq> 16
        then (Inl (-1), c1, w1)
        else (let client_nonce = take 16 (fr_payload (tc_frame c1)) in
         case demo_random_nonce 16 w1 of (server_nonce, w2) \<Rightarrow>
         case server_send_frame lg peer (dpkt DEMO_PKT_SERVER_HELLO) server_nonce 16 ''HANDSHAKE''
                ''SEND_SERVER_HELLO'' (-1) False c1 w2 of (ok, c3, w3) \<Rightarrow>
         if \<not> ok then (Inl (-1), c3, w3)
         else (let session_key = demo_derive_session_key password client_nonce server_nonce;
                   expected = demo_hmac_sha1 session_key (bytes_of_string ''client-finished'') in
          case server_recv_frame lg peer ''HANDSHAKE'' ''RECV_FINISHED'' (-1) c3 w3 of
            (None, w4) \<Rightarrow> (Inl (-1), c3, w4)
          | (Some c4, w4) \<Rightarrow>
            if fr_type (tc_frame c4) \<noteq> dpkt DEMO_PKT_FINISHED \<or> fr_length (tc_frame c4) \<noteq> 20
            then (Inl (-1), c4, w4)
            else if take 20 (fr_payload (tc_frame c4)) \<noteq> expected
            then (Inl (-1), c4,
                  logger_write lg (Some ((demo_init_event ''ERROR'' ''FINISHED_VERIFY_FAIL'' ''HANDSHAKE''
                      ''client FINISHED MAC invalid'')
                    \<lparr>le_peer := Some peer, le_security_encrypted := 0, le_security_mac_valid := 0,
                     le_security_replay := 0, le_handshake_phase := Some ''finished''\<rparr>)) w4)
            else (let reply0 = demo_hmac_sha1 session_key (bytes_of_string ''server-finished'');
                      reply = (if tamper_finished then reply0[0 := reply0 ! 0 XOR 0x33] else reply0) in
             case server_send_frame lg peer (dpkt DEMO_PKT_FINISHED) reply 20 ''HANDSHAKE''
                    ''SEND_FINISHED'' (-1) False c4 w4 of (ok5, c5, w5) \<Rightarrow>
             if \<not> ok5 then (Inl (-1), c5, w5)
             else if tamper_finished
             then (Inl 1, c5, demo_finish lg ''ABORT'' ''tampered FINISHED sent'' w5)
             else (Inr session_key, c5, w5)))))"

text \<open>The loop over the blocks of the file.\<close>

fun tls_app_loop ::
  "Logger \<Rightarrow> string \<Rightarrow> byte list \<Rightarrow> bool \<Rightarrow> bool \<Rightarrow> u32 \<Rightarrow> int \<Rightarrow> byte list list \<Rightarrow> tcp_conn \<Rightarrow> world
   \<Rightarrow> int option \<times> tcp_conn \<times> world" where
  "tls_app_loop lg peer key tamper_app_data replay_mode seq app_pid [] c w = (None, c, w)"
| "tls_app_loop lg peer key tamper_app_data replay_mode seq app_pid (b # bs) c w =
     (case tls_payload_app_data seq b key (tamper_app_data \<and> seq = 1) w of
        (None, w1) \<Rightarrow> (Some (-1), c, w1)
      | (Some app, w1) \<Rightarrow>
         (case server_send_frame lg peer (dpkt DEMO_PKT_APP_DATA) app (word_of_nat (length app))
                 ''DATA_TRANSFER'' ''SEND_APP_DATA'' app_pid False c w1 of (ok, c2, w2) \<Rightarrow>
            if \<not> ok then (Some (-1), c2, w2)
            else if replay_mode \<and> seq = 1 then
              (case server_send_frame lg peer (dpkt DEMO_PKT_APP_DATA) app (word_of_nat (length app))
                      ''DATA_TRANSFER'' ''SEND_APP_DATA_REPLAY'' app_pid False c2 w2 of (ok3, c3, w3) \<Rightarrow>
                 if \<not> ok3 then (Some (-1), c3, w3)
                 else (Some 1, c3, demo_finish lg ''ABORT'' ''replayed APP_DATA sent'' w3))
            else tls_app_loop lg peer key tamper_app_data replay_mode (seq + 1) (app_pid + 1) bs c2 w2))"

definition run_tls_like ::
  "Logger \<Rightarrow> string \<Rightarrow> string \<Rightarrow> string \<Rightarrow> bool \<Rightarrow> bool \<Rightarrow> bool \<Rightarrow> DemoFrame \<Rightarrow> world \<Rightarrow> int \<times> world" where
  "run_tls_like lg peer password input_path tamper_finished tamper_app_data replay_mode junk w =
     (case w_fs w input_path of
        None \<Rightarrow> (-1, w)
      | Some f \<Rightarrow>
         (case tls_server_handshake lg peer password tamper_finished junk w of
            (Inl rc, c1, w1) \<Rightarrow> (rc, w1)
          | (Inr session_key, c1, w1) \<Rightarrow>
             (case tls_app_loop lg peer session_key tamper_app_data replay_mode 1 0
                     (fst (fread_blocks PROTOCOL_DATA_CHUNK_SIZE f)) c1 w1 of
                (Some rc, c2, w2) \<Rightarrow> (rc, w2)
              | (None, c2, w2) \<Rightarrow>
                 if tamper_app_data then (1, demo_finish lg ''ABORT'' ''tampered APP_DATA sent'' w2)
                 else (case sha1_file w2 input_path of
                     None \<Rightarrow> (-1, w2)
                   | Some digest \<Rightarrow>
                      (let w3 = logger_write lg (Some ((demo_init_event ''INFO'' ''SERVER_DIGEST'' ''VERIFY''
                                  ''server digest ready'')
                                \<lparr>le_peer := Some peer, le_sha1 := Some (sha1_to_hex digest)\<rparr>)) w2 in
                       case server_send_frame lg peer (dpkt DEMO_PKT_TERMINATE) digest 20 ''VERIFY''
                              ''SEND_TERMINATE'' (-1) False c2 w3 of (ok, c4, w4) \<Rightarrow>
                       if \<not> ok then (-1, w4)
                       else (0, demo_finish lg ''OK'' ''tls-like transfer completed'' w4))))))"

section \<open>The password\<close>

definition frame_is_password :: "DemoFrame \<Rightarrow> string \<Rightarrow> bool" where
  "frame_is_password fr password \<longleftrightarrow>
     unat (fr_length fr) = length password \<and>
     take (unat (fr_length fr)) (fr_payload fr) = take (unat (fr_length fr)) (bytes_of_string password)"

text \<open>The loop: \<open>Inl\<close> is an exit of \<open>main\<close>, \<open>Inr\<close> the value of \<open>authed\<close> after it.\<close>

function tcp_auth_loop ::
  "Logger \<Rightarrow> string \<Rightarrow> string \<Rightarrow> nat \<Rightarrow> bool \<Rightarrow> tcp_conn \<Rightarrow> world \<Rightarrow> (int + bool) \<times> tcp_conn \<times> world" where
  "tcp_auth_loop lg peer password attempt authed c w =
     (case read_stop w of (stop, w0) \<Rightarrow>
      if stop \<or> attempt \<ge> 3 \<or> authed then (Inr authed, c, w0)
      else (case server_recv_frame lg peer ''AUTH'' ''RECV_PASS_RESP'' (-1) c w0 of
          (None, w1) \<Rightarrow> (Inl 1, c, demo_finish lg ''ABORT'' ''expected PASS_RESP'' w1)
        | (Some c1, w1) \<Rightarrow>
          if fr_type (tc_frame c1) \<noteq> dpkt DEMO_PKT_PASS_RESP
          then (Inl 1, c1, demo_finish lg ''ABORT'' ''expected PASS_RESP'' w1)
          else if frame_is_password (tc_frame c1) password then
            (case server_send_frame lg peer (dpkt DEMO_PKT_PASS_ACCEPT) [] 0 ''AUTH'' ''SEND_PASS_ACCEPT''
                    (-1) False c1 w1 of (ok, c2, w2) \<Rightarrow>
               if \<not> ok then (Inl 1, c2, demo_finish lg ''ABORT'' ''failed to send PASS_ACCEPT'' w2)
               else tcp_auth_loop lg peer password (attempt + 1) True c2 w2)
          else if attempt + 1 \<ge> 3 then
            (case server_send_frame lg peer (dpkt DEMO_PKT_REJECT) [] 0 ''AUTH'' ''SEND_REJECT''
                    (-1) False c1 w1 of (ok, c2, w2) \<Rightarrow>
               (Inl 1, c2, demo_finish lg ''ABORT'' ''authentication failed'' w2))
          else
            (case server_send_frame lg peer (dpkt DEMO_PKT_PASS_REQ) [] 0 ''AUTH'' ''SEND_PASS_REQ''
                    (-1) False c1 w1 of (ok, c2, w2) \<Rightarrow>
               tcp_auth_loop lg peer password (attempt + 1) authed c2 w2)))"
  by pat_completeness auto
termination
  by (relation "measure (\<lambda>(lg, peer, pw, attempt, authed, c, w). 3 - attempt)") auto

declare tcp_auth_loop.simps [simp del]

section \<open>main\<close>

text \<open>After the loop: \<open>authed\<close> is not looked at again. A return code below 0 becomes 1.\<close>

definition tcp_server_transfer ::
  "Logger \<Rightarrow> string \<Rightarrow> string \<Rightarrow> string \<Rightarrow> byte list \<Rightarrow> DemoFrame \<Rightarrow> world \<Rightarrow> int \<times> world" where
  "tcp_server_transfer lg peer password input_path digest junk w =
     (if getenv_or w ''UDP_SECURE_PROTOCOL'' ''tcp-basic'' = ''tls-like'' then
        (case run_tls_like lg peer password input_path (env_flag w ''UDP_SECURE_TAMPER_FINISHED'')
                (env_flag w ''UDP_SECURE_TAMPER_APP_DATA'')
                (getenv_or w ''UDP_SECURE_SCENARIO'' [] = ''replay'') junk w of (rc, w1) \<Rightarrow>
           if rc < 0 then (1, demo_finish lg ''ABORT'' ''tls-like flow failed'' w1) else (rc, w1))
      else
        (case run_tcp_basic lg peer input_path digest
                (getenv_or w ''UDP_SECURE_SCENARIO'' [] = ''connection-close-mid-transfer'')
                (env_flag w ''UDP_SECURE_STREAM_FRAGMENTATION'') junk w of (rc, w1) \<Rightarrow>
           if rc < 0 then (1, demo_finish lg ''ABORT'' ''tcp-basic flow failed'' w1) else (rc, w1)))"

text \<open>From the accepted connection to the end of \<open>main\<close>.\<close>

definition tcp_server_session ::
  "Logger \<Rightarrow> string \<Rightarrow> string \<Rightarrow> string \<Rightarrow> byte list \<Rightarrow> DemoFrame \<Rightarrow> DemoFrame \<Rightarrow> world \<Rightarrow> int \<times> world" where
  "tcp_server_session lg peer password input_path digest junk junk2 w =
     (case server_recv_frame lg peer ''WAIT_JOIN_REQ'' ''RECV_JOIN_REQ'' (-1) (new_conn junk) w of
        (None, w1) \<Rightarrow> (1, demo_finish lg ''ABORT'' ''expected JOIN_REQ'' w1)
      | (Some c1, w1) \<Rightarrow>
        if fr_type (tc_frame c1) \<noteq> dpkt DEMO_PKT_JOIN_REQ
        then (1, demo_finish lg ''ABORT'' ''expected JOIN_REQ'' w1)
        else (case server_send_frame lg peer (dpkt DEMO_PKT_PASS_REQ) [] 0 ''AUTH'' ''SEND_PASS_REQ''
                     (-1) False c1 w1 of (ok, c2, w2) \<Rightarrow>
          if \<not> ok then (1, demo_finish lg ''ABORT'' ''failed to send PASS_REQ'' w2)
          else (case tcp_auth_loop lg peer password 0 False c2 w2 of
              (Inl status, c3, w3) \<Rightarrow> (status, w3)
            | (Inr authed, c3, w3) \<Rightarrow> tcp_server_transfer lg peer password input_path digest junk2 w3)))"

text \<open>
  \<open>peer\<close> is the address \<open>accept\<close> reports; \<open>junk\<close>, \<open>junk2\<close> what the local frames of
  \<open>main\<close> and of the transfer hold at first. Closing descriptors, and creating the log's
  directory, leave nothing in the modelled state.
\<close>

definition tcp_server_main ::
  "sockaddr_in \<Rightarrow> DemoFrame \<Rightarrow> DemoFrame \<Rightarrow> string list \<Rightarrow> world \<Rightarrow> int \<times> world" where
  "tcp_server_main peer junk junk2 argv w =
     (case logger_open (Some ''server'') (Some ''logs/server.jsonl'') w of
        (rc, None) \<Rightarrow> (1, w)
      | (rc, Some lg) \<Rightarrow>
        if rc \<noteq> 0 then (1, w)
        else (case (if length argv \<noteq> 4 then None else parse_port (Some (argv ! 1))) of
            None \<Rightarrow> (1, demo_finish lg ''ABORT'' ''invalid arguments'' w)
          | Some port \<Rightarrow>
            (let password = argv ! 2; input_path = argv ! 3 in
             case w_fs w input_path of
               None \<Rightarrow> (1, demo_finish lg ''ABORT'' ''input file cannot be read'' w)
             | Some st \<Rightarrow>
               (case sha1_file w input_path of
                  None \<Rightarrow> (1, demo_finish lg ''ABORT'' ''input file cannot be read'' w)
                | Some digest \<Rightarrow>
                  (case demo_create_tcp_listener port w of (listening, w1) \<Rightarrow>
                   if \<not> listening then (1, demo_finish lg ''ABORT'' (w_errno w1) w1)
                   else
                    (let w2 = logger_write lg (Some ((demo_init_event ''INFO'' ''SERVER_START''
                                ''WAIT_JOIN_REQ'' ''tcp-family server started'')
                              \<lparr>le_port := uint port, le_bytes := int_of_size (length (f_data st)),
                               le_sha1 := Some (sha1_to_hex digest)\<rparr>)) w1 in
                     case demo_accept_client peer w2 of
                       (None, w3) \<Rightarrow> (1, demo_finish lg ''ABORT'' (w_errno w3) w3)
                     | (Some addr, w3) \<Rightarrow>
                        tcp_server_session lg (peer_to_string addr 64) password input_path digest
                          junk junk2 w3))))))"

end
