(* ===== verification/TcpClient.thy ===== *)
theory TcpClient
  imports TcpConn
begin

text \<open>
  The client of the TCP demos (\<open>src/tcp_demo_client.c\<close>): the dialogue about the
  password, then plain frames or the handshake and the encrypted ones, written to a
  partial file that is checked and renamed at the end. The functions this file
  repeats from the server have names of their own here, as they are separate code.
\<close>

section \<open>Logged frames\<close>

definition client_tls_app_mac :: "u32 \<Rightarrow> byte list \<Rightarrow> byte list \<Rightarrow> world \<Rightarrow> byte list \<times> world" where
  "client_tls_app_mac seq cipher key w =
     (case malloc_ok w of (ok, w1) \<Rightarrow>
        if \<not> ok then (replicate 20 0, w1)
        else (demo_hmac_sha1 key
                ([ucast (drop_bit 24 seq AND 0xff), ucast (drop_bit 16 seq AND 0xff),
                  ucast (drop_bit 8 seq AND 0xff), ucast (seq AND 0xff)] @ cipher), w1))"

definition client_frame_wire :: "u16 \<Rightarrow> byte list \<Rightarrow> u32 \<Rightarrow> byte list" where
  "client_frame_wire type payload payload_len =
     put_u16 type @ put_u32 payload_len @ (if payload_len > 0 then take (unat payload_len) payload else [])"

definition client_frame_event ::
  "string \<Rightarrow> string \<Rightarrow> string \<Rightarrow> string \<Rightarrow> u16 \<Rightarrow> byte list \<Rightarrow> u32 \<Rightarrow> string \<Rightarrow> int \<Rightarrow> int \<Rightarrow> LogEvent" where
  "client_frame_event level event state peer type payload payload_len direction stream_offset logical_pid =
     (let e0 = demo_init_event level event state ''packet event'';
          wire = client_frame_wire type payload payload_len;
          wire_len = DEMO_HEADER_SIZE + unat payload_len;
          hex = bytes_to_hex (Some (take (if wire_len > 160 then 160 else wire_len) wire)) (DEMO_MAX_FRAME * 2 + 1);
          e1 = e0\<lparr>le_peer := Some peer,
                  le_packet_type := Some (demo_packet_type_name type),
                  le_packet_code := uint type,
                  le_payload_length := int_of_u32 payload_len,
                  le_bytes := int_of_u32 payload_len,
                  le_direction := Some direction,
                  le_stream_offset := stream_offset\<rparr>;
          e2 = (if is_data_type type then e1\<lparr>le_packet_id := logical_pid, le_seq := logical_pid\<rparr> else e1)
      in e2\<lparr>le_wire_hex := hex,
            le_packet_uid := compute_packet_uid 24 type (if logical_pid \<ge> 0 then logical_pid else stream_offset)
                               0 (Some wire) wire_len\<rparr>)"

definition client_send_frame ::
  "Logger \<Rightarrow> string \<Rightarrow> u16 \<Rightarrow> byte list \<Rightarrow> u32 \<Rightarrow> string \<Rightarrow> string \<Rightarrow> int \<Rightarrow> tcp_conn \<Rightarrow> world
   \<Rightarrow> bool \<times> tcp_conn \<times> world" where
  "client_send_frame lg peer type payload payload_len state event logical_pid c w =
     (case demo_send_frame type payload payload_len False w of (ok, w1) \<Rightarrow>
        if \<not> ok then (False, c, w1)
        else (True, c\<lparr>tc_send_offset := tc_send_offset c + int DEMO_HEADER_SIZE + int_of_u32 payload_len\<rparr>,
              logger_write lg (Some (client_frame_event (if is_data_type type then ''DATA'' else ''INFO'')
                event state peer type payload payload_len ''Client -> Server'' (tc_send_offset c) logical_pid)) w1))"

definition client_recv_frame ::
  "Logger \<Rightarrow> string \<Rightarrow> string \<Rightarrow> string \<Rightarrow> int \<Rightarrow> tcp_conn \<Rightarrow> world \<Rightarrow> tcp_conn option \<times> world" where
  "client_recv_frame lg peer state event logical_pid c w =
     (case demo_recv_frame (tc_frame c) w of
        (None, w1) \<Rightarrow> (None, w1)
      | (Some fr, w1) \<Rightarrow>
          (Some (c\<lparr>tc_frame := fr,
                   tc_recv_offset := tc_recv_offset c + int DEMO_HEADER_SIZE + int_of_u32 (fr_length fr)\<rparr>),
           logger_write lg (Some (client_frame_event (if is_data_type (fr_type fr) then ''DATA'' else ''INFO'')
             event state peer (fr_type fr) (fr_payload fr) (fr_length fr) ''Server -> Client''
             (tc_recv_offset c) logical_pid)) w1))"

lemma client_recv_frame_shrinks:
  "client_recv_frame lg peer st ev pid c w = (Some c1, w1) \<Longrightarrow>
   length (tcp_stream w1) < length (tcp_stream w)"
proof -
  assume "client_recv_frame lg peer st ev pid c w = (Some c1, w1)"
  then obtain fr w0 where fr: "demo_recv_frame (tc_frame c) w = (Some fr, w0)" and
    "tcp_stream w1 = tcp_stream w0"
    by (auto simp: client_recv_frame_def logger_write_def tcp_stream_def Let_def
        split: prod.splits option.splits)
  with demo_recv_frame_some [OF fr] show ?thesis
    by (auto simp: frame_bytes_eq)
qed

section \<open>One encrypted frame\<close>

text \<open>The sequence number at the front of a payload.\<close>

definition seq_of :: "byte list \<Rightarrow> u32" where
  "seq_of p = push_bit 24 (ucast (p ! 0)) OR push_bit 16 (ucast (p ! 1)) OR
     push_bit 8 (ucast (p ! 2)) OR ucast (p ! 3)"

text \<open>
  Whether the frame is accepted, the frame (its payload is decrypted in place), the
  last sequence number seen and the world. \<open>path\<close> is the file behind \<open>out\<close>.
\<close>

definition verify_tls_app_data ::
  "Logger \<Rightarrow> string \<Rightarrow> DemoFrame \<Rightarrow> byte list \<Rightarrow> string \<Rightarrow> u32 \<Rightarrow> world \<Rightarrow> bool \<times> DemoFrame \<times> u32 \<times> world" where
  "verify_tls_app_data lg peer frame key path seen_seq w =
     (if fr_length frame < 24 then (False, frame, seen_seq, w)
      else (let p = fr_payload frame;
                seq = seq_of p;
                cipher_len = unat (fr_length frame - 4 - 20);
                mac = take 20 (drop 4 p);
                cipher = take cipher_len (drop 24 p);
                event = (\<lambda>name message valid replay.
                  (demo_init_event ''ERROR'' name ''VERIFY'' message)
                    \<lparr>le_peer := Some peer, le_security_encrypted := 1, le_security_mac_valid := valid,
                     le_security_replay := replay, le_handshake_phase := Some ''app-data'',
                     le_seq := int_of_u32 seq\<rparr>) in
        case client_tls_app_mac seq cipher key w of (expected, w1) \<Rightarrow>
        if seq \<le> seen_seq
        then (False, frame, seen_seq,
              logger_write lg (Some (event ''REPLAY_DETECTED'' ''replayed APP_DATA detected'' 1 1)) w1)
        else if mac \<noteq> expected
        then (False, frame, seen_seq,
              logger_write lg (Some (event ''APP_DATA_MAC_FAIL'' ''APP_DATA MAC invalid'' 0 0)) w1)
        else (let plain = demo_xor_crypt cipher key;
                  frame1 = frame\<lparr>fr_payload := take 24 p @ plain @ drop (24 + cipher_len) p\<rparr> in
          case (if cipher_len > 0 then fwrite_all path plain w1 else (True, w1)) of (ok, w2) \<Rightarrow>
          if ok then (True, frame1, seq, w2) else (False, frame1, seen_seq, w2))))"

lemma verify_tls_app_data_stream:
  "verify_tls_app_data lg peer fr key path seen w = (ok, fr1, seen1, w1) \<Longrightarrow> tcp_stream w1 = tcp_stream w"
  by (auto simp: verify_tls_app_data_def client_tls_app_mac_def malloc_ok_def fwrite_all_def Let_def
      tcp_stream_def logger_write_def split: if_splits prod.splits)

section \<open>The password\<close>

definition tcp_abort :: "Logger \<Rightarrow> string \<Rightarrow> string \<Rightarrow> world \<Rightarrow> world" where
  "tcp_abort lg temp_path reason w = remove_file temp_path (demo_finish lg ''ABORT'' reason w)"

text \<open>
  The loop: \<open>Inl\<close> is an exit of \<open>main\<close>, \<open>Inr\<close> the value of \<open>session_password\<close> when the
  loop is left. Frames of other types are read and ignored.
\<close>

function tcp_client_auth ::
  "Logger \<Rightarrow> string \<Rightarrow> bool \<Rightarrow> string list \<Rightarrow> string \<Rightarrow> nat \<Rightarrow> string \<Rightarrow> tcp_conn \<Rightarrow> world
   \<Rightarrow> (int + string) \<times> tcp_conn \<times> world" where
  "tcp_client_auth lg peer interactive passwords temp_path attempt session_password c w =
     (case read_stop w of (stop, w0) \<Rightarrow>
      if stop then (Inr session_password, c, w0)
      else (case client_recv_frame lg peer ''AUTH'' ''RECV_AUTH_PACKET'' (-1) c w0 of
          (None, w1) \<Rightarrow> (Inl 1, c, tcp_abort lg temp_path ''authentication receive failed'' w1)
        | (Some c1, w1) \<Rightarrow>
          if fr_type (tc_frame c1) = dpkt DEMO_PKT_PASS_REQ then
            (case demo_read_password interactive passwords (int attempt) (PROTOCOL_MAX_PASSWORD + 1) w1 of
               (None, w2) \<Rightarrow> (Inl 1, c1, tcp_abort lg temp_path ''password unavailable'' w2)
             | (Some password, w2) \<Rightarrow>
                (case client_send_frame lg peer (dpkt DEMO_PKT_PASS_RESP) (bytes_of_string password)
                        (word_of_nat (length password)) ''AUTH'' ''SEND_PASS_RESP'' (-1) c1 w2 of
                   (ok, c3, w3) \<Rightarrow>
                     if \<not> ok then (Inl 1, c3, tcp_abort lg temp_path ''failed to send PASS_RESP'' w3)
                     else tcp_client_auth lg peer interactive passwords temp_path (attempt + 1)
                            (snprintf_s (PROTOCOL_MAX_PASSWORD + 1) password) c3 w3))
          else if fr_type (tc_frame c1) = dpkt DEMO_PKT_PASS_ACCEPT then (Inr session_password, c1, w1)
          else if fr_type (tc_frame c1) = dpkt DEMO_PKT_REJECT
          then (Inl 1, c1, tcp_abort lg temp_path ''server rejected authentication'' w1)
          else tcp_client_auth lg peer interactive passwords temp_path attempt session_password c1 w1))"
  by pat_completeness auto

lemma read_stop_stream [world_simps]: "tcp_stream (snd (read_stop w)) = tcp_stream w"
  by (simp add: read_stop_def tcp_stream_def split: option.splits nat.splits)

lemma demo_read_password_stream: "tcp_stream (snd (demo_read_password i ps k n w)) = tcp_stream w"
  by (auto simp: demo_read_password_def fgets_stdin_def tcp_stream_def split: list.splits option.splits)

lemma client_send_frame_stream:
  "tcp_stream (snd (snd (client_send_frame lg peer t d n st ev pid c w))) = tcp_stream w"
proof -
  obtain ok w1 where s: "demo_send_frame t d n False w = (ok, w1)" by fastforce
  then have "tcp_stream w1 = tcp_stream w"
    by (auto simp: demo_send_frame_def Let_def split: if_splits dest!: demo_write_all_writes writes_same(13))
  with s show ?thesis
    by (auto simp: client_send_frame_def logger_write_def Let_def tcp_stream_def)
qed

lemma client_frame_round:
  assumes "(stop, w0) = read_stop w" "(Some c1, w1) = client_recv_frame lg peer st ev pid c w0"
  shows "length (tcp_stream w1) < length (tcp_stream w)"
  using client_recv_frame_shrinks [OF assms(2) [symmetric]] read_stop_stream [of w] assms(1) [symmetric]
  by simp

lemma client_password_round:
  assumes "(stop, w0) = read_stop w" "(Some c1, w1) = client_recv_frame lg peer st ev pid c w0"
    "(pw, w2) = demo_read_password i ps k n w1"
    "(ok, c3, w3) = client_send_frame lg peer t d m st' ev' pid' c' w2"
  shows "length (tcp_stream w3) < length (tcp_stream w)"
  using client_frame_round [OF assms(1,2)] demo_read_password_stream [of i ps k n w1]
    client_send_frame_stream [of lg peer t d m st' ev' pid' c' w2] assms(3,4) [symmetric] by simp

termination tcp_client_auth
  by (relation "measure (\<lambda>(lg, peer, i, ps, tp, attempt, sp, c, w). length (tcp_stream w))")
    (simp, auto simp only: in_measure split_conv dest: client_password_round client_frame_round)

declare tcp_client_auth.simps [simp del]

section \<open>The handshake\<close>

text \<open>An exit of \<open>main\<close>, or the session key. \<open>FINISHED\<close> is read whatever its length.\<close>

definition tls_client_handshake ::
  "Logger \<Rightarrow> string \<Rightarrow> string \<Rightarrow> string \<Rightarrow> tcp_conn \<Rightarrow> world \<Rightarrow> (int + byte list) \<times> tcp_conn \<times> world" where
  "tls_client_handshake lg peer session_password temp_path c w =
     (let hello_failed = (\<lambda>c' w'. (Inl 1, c', tcp_abort lg temp_path ''tls-like hello failed'' w'));
          finished_failed = (\<lambda>c' w'. (Inl 1, c', tcp_abort lg temp_path ''tls-like finished failed'' w')) in
      case demo_random_nonce 16 w of (client_nonce, w1) \<Rightarrow>
      case client_send_frame lg peer (dpkt DEMO_PKT_CLIENT_HELLO) client_nonce 16 ''HANDSHAKE''
             ''SEND_CLIENT_HELLO'' (-1) c w1 of (ok, c2, w2) \<Rightarrow>
      if \<not> ok then hello_failed c2 w2
      else (case client_recv_frame lg peer ''HANDSHAKE'' ''RECV_SERVER_HELLO'' (-1) c2 w2 of
        (None, w3) \<Rightarrow> hello_failed c2 w3
      | (Some c3, w3) \<Rightarrow>
        if fr_type (tc_frame c3) \<noteq> dpkt DEMO_PKT_SERVER_HELLO \<or> fr_length (tc_frame c3) \<noteq> 16
        then hello_failed c3 w3
        else (let server_nonce = take 16 (fr_payload (tc_frame c3));
                  session_key = demo_derive_session_key session_password client_nonce server_nonce;
                  finished = demo_hmac_sha1 session_key (bytes_of_string ''client-finished'') in
         case client_send_frame lg peer (dpkt DEMO_PKT_FINISHED) finished 20 ''HANDSHAKE''
                ''SEND_FINISHED'' (-1) c3 w3 of (ok4, c4, w4) \<Rightarrow>
         if \<not> ok4 then finished_failed c4 w4
         else (case client_recv_frame lg peer ''HANDSHAKE'' ''RECV_FINISHED'' (-1) c4 w4 of
           (None, w5) \<Rightarrow> finished_failed c4 w5
         | (Some c5, w5) \<Rightarrow>
           if fr_type (tc_frame c5) \<noteq> dpkt DEMO_PKT_FINISHED then finished_failed c5 w5
           else (let finished2 = demo_hmac_sha1 session_key (bytes_of_string ''server-finished'');
                     w6 = logger_write lg (Some ((demo_init_event ''WARN'' ''TLS_NO_SERVER_AUTH'' ''HANDSHAKE''
                            ''tls-like demo: no server authentication, MITM possible'')
                          \<lparr>le_peer := Some peer, le_security_encrypted := 1, le_security_mac_valid := 1,
                           le_security_replay := 0, le_handshake_phase := Some ''post-finished''\<rparr>)) w5 in
            if take 20 (fr_payload (tc_frame c5)) \<noteq> finished2
            then (Inl 1, c5, tcp_abort lg temp_path ''tls-like finished verify failed''
                   (logger_write lg (Some ((demo_init_event ''ERROR'' ''FINISHED_VERIFY_FAIL'' ''HANDSHAKE''
                        ''server FINISHED invalid'')
                      \<lparr>le_peer := Some peer, le_security_encrypted := 0, le_security_mac_valid := 0,
                       le_security_replay := 0, le_handshake_phase := Some ''finished''\<rparr>)) w6))
            else (Inr session_key, c5, w6))))))"

section \<open>The receive loops\<close>

text \<open>
  The loop over the encrypted frames: \<open>Inl\<close> is an exit of \<open>main\<close>, \<open>Inr\<close> the last frame
  when the loop is left. Asking for the replay scenario at its end changes nothing.
\<close>

function tls_client_loop ::
  "Logger \<Rightarrow> string \<Rightarrow> byte list \<Rightarrow> string \<Rightarrow> int \<Rightarrow> u32 \<Rightarrow> tcp_conn \<Rightarrow> world \<Rightarrow> (int + DemoFrame) \<times> world" where
  "tls_client_loop lg peer key temp_path app_pid seen_seq c w =
     (case read_stop w of (stop, w0) \<Rightarrow>
      if stop then (Inr (tc_frame c), w0)
      else (case client_recv_frame lg peer ''DATA_TRANSFER'' ''RECV_TRANSFER_PACKET'' app_pid c w0 of
          (None, w1) \<Rightarrow> (Inl 1, tcp_abort lg temp_path ''tls-like app data receive failed'' w1)
        | (Some c1, w1) \<Rightarrow>
          if fr_type (tc_frame c1) \<noteq> dpkt DEMO_PKT_APP_DATA then (Inr (tc_frame c1), w1)
          else (case verify_tls_app_data lg peer (tc_frame c1) key temp_path seen_seq w1 of
                  (ok, fr, seen1, w2) \<Rightarrow>
            if \<not> ok then (Inl 1, tcp_abort lg temp_path ''tls-like app data verify failed'' w2)
            else tls_client_loop lg peer key temp_path (app_pid + 1) seen1 (c1\<lparr>tc_frame := fr\<rparr>) w2)))"
  by pat_completeness auto

lemma client_verify_round:
  assumes "(stop, w0) = read_stop w" "(Some c1, w1) = client_recv_frame lg peer st ev pid c w0"
    "(ok, fr, seen1, w2) = verify_tls_app_data lg peer f key path seen w1"
  shows "length (tcp_stream w2) < length (tcp_stream w)"
  using client_frame_round [OF assms(1,2)] verify_tls_app_data_stream [OF assms(3) [symmetric]] by simp

termination tls_client_loop
  by (relation "measure (\<lambda>(lg, peer, k, tp, pid, seen, c, w). length (tcp_stream w))")
    (simp, auto simp only: in_measure split_conv dest: client_verify_round)

declare tls_client_loop.simps [simp del]

text \<open>
  \<open>TERMINATE\<close>: the digest of the partial file against the first 20 bytes of the
  payload buffer; what \<open>rename\<close> returns is not looked at. \<open>mismatch\<close> and \<open>completed\<close> are the
  texts of the two endings, \<open>note\<close> what is logged before the renaming.
\<close>

definition tcp_client_terminate ::
  "Logger \<Rightarrow> string \<Rightarrow> string \<Rightarrow> string \<Rightarrow> string \<Rightarrow> (byte list \<Rightarrow> world \<Rightarrow> world) \<Rightarrow> DemoFrame \<Rightarrow> world
   \<Rightarrow> int \<times> world" where
  "tcp_client_terminate lg output_path temp_path mismatch completed note fr w =
     (case sha1_file w temp_path of
        None \<Rightarrow> (1, tcp_abort lg temp_path mismatch w)
      | Some local_digest \<Rightarrow>
         if local_digest \<noteq> take 20 (fr_payload fr) then (1, tcp_abort lg temp_path mismatch w)
         else (case rename_file temp_path output_path (note local_digest w) of (renamed, w1) \<Rightarrow>
                 (0, demo_finish lg ''OK'' completed w1)))"

definition tls_client_transfer ::
  "Logger \<Rightarrow> string \<Rightarrow> string \<Rightarrow> string \<Rightarrow> string \<Rightarrow> tcp_conn \<Rightarrow> world \<Rightarrow> int \<times> world" where
  "tls_client_transfer lg peer session_password output_path temp_path c w =
     (case tls_client_handshake lg peer session_password temp_path c w of
        (Inl rc, c1, w1) \<Rightarrow> (rc, w1)
      | (Inr session_key, c1, w1) \<Rightarrow>
         (case tls_client_loop lg peer session_key temp_path 0 0 c1 w1 of
            (Inl rc, w2) \<Rightarrow> (rc, w2)
          | (Inr fr, w2) \<Rightarrow>
             if fr_type fr = dpkt DEMO_PKT_TERMINATE then
               tcp_client_terminate lg output_path temp_path ''tls-like digest mismatch''
                 ''tls-like transfer completed''
                 (\<lambda>local_digest. logger_write lg (Some ((demo_init_event ''SUCCESS'' ''DIGEST_MATCH'' ''DONE''
                      ''tls-like digest matched'')
                    \<lparr>le_peer := Some peer, le_sha1 := Some (sha1_to_hex local_digest)\<rparr>))) fr w2
             else (1, tcp_abort lg temp_path ''missing terminate for tls-like flow'' w2)))"

text \<open>The plain loop. Frames of other types are read and ignored.\<close>

function tcp_client_loop ::
  "Logger \<Rightarrow> string \<Rightarrow> string \<Rightarrow> string \<Rightarrow> int \<Rightarrow> tcp_conn \<Rightarrow> world \<Rightarrow> int \<times> world" where
  "tcp_client_loop lg peer output_path temp_path data_pid c w =
     (case read_stop w of (stop, w0) \<Rightarrow>
      if stop then (1, tcp_abort lg temp_path ''client stopped'' w0)
      else (case client_recv_frame lg peer ''DATA_TRANSFER'' ''RECV_TRANSFER_PACKET'' data_pid c w0 of
          (None, w1) \<Rightarrow> (1, tcp_abort lg temp_path ''tcp-basic receive failed'' w1)
        | (Some c1, w1) \<Rightarrow>
          let fr = tc_frame c1 in
          if fr_type fr = dpkt DEMO_PKT_DATA then
            (case (if fr_length fr > 0
                   then fwrite_all temp_path (take (unat (fr_length fr)) (fr_payload fr)) w1
                   else (True, w1)) of (ok, w2) \<Rightarrow>
               if \<not> ok then (1, tcp_abort lg temp_path ''output write failed'' w2)
               else tcp_client_loop lg peer output_path temp_path (data_pid + 1) c1 w2)
          else if fr_type fr = dpkt DEMO_PKT_TERMINATE then
            tcp_client_terminate lg output_path temp_path ''digest mismatch'' ''tcp-basic transfer completed''
              (\<lambda>local_digest w'. w') fr w1
          else tcp_client_loop lg peer output_path temp_path data_pid c1 w1))"
  by pat_completeness auto

lemma fwrite_all_stream: "tcp_stream (snd (fwrite_all p d w)) = tcp_stream w"
  by (simp add: fwrite_all_def tcp_stream_def Let_def split: prod.splits)

lemma client_write_round:
  assumes "(stop, w0) = read_stop w" "(Some c1, w1) = client_recv_frame lg peer st ev pid c w0"
    "(ok, w2) = (if b then fwrite_all p d w1 else (True, w1))"
  shows "length (tcp_stream w2) < length (tcp_stream w)"
  using client_frame_round [OF assms(1,2)] fwrite_all_stream [of p d w1] assms(3) [symmetric]
  by (simp split: if_splits)

termination tcp_client_loop
  by (relation "measure (\<lambda>(lg, peer, op, tp, pid, c, w). length (tcp_stream w))")
    (simp, auto simp only: in_measure split_conv dest: client_write_round client_frame_round)

declare tcp_client_loop.simps [simp del]

section \<open>main\<close>

text \<open>From \<open>JOIN_REQ\<close> to the end.\<close>

definition tcp_client_session ::
  "Logger \<Rightarrow> string \<Rightarrow> bool \<Rightarrow> string list \<Rightarrow> string \<Rightarrow> string \<Rightarrow> DemoFrame \<Rightarrow> world \<Rightarrow> int \<times> world" where
  "tcp_client_session lg peer interactive passwords output_path temp_path junk w =
     (case client_send_frame lg peer (dpkt DEMO_PKT_JOIN_REQ) [] 0 ''WAIT_PASS_REQ'' ''SEND_JOIN_REQ'' (-1)
             (new_conn junk) w of (ok, c1, w1) \<Rightarrow>
      if \<not> ok then (1, demo_finish lg ''ABORT'' ''failed to send JOIN_REQ'' w1)
      else (case tcp_client_auth lg peer interactive passwords temp_path 0 ''secret'' c1 w1 of
          (Inl status, c2, w2) \<Rightarrow> (status, w2)
        | (Inr session_password, c2, w2) \<Rightarrow>
           if getenv_or w2 ''UDP_SECURE_PROTOCOL'' ''tcp-basic'' = ''tls-like''
           then tls_client_transfer lg peer session_password output_path temp_path c2 w2
           else tcp_client_loop lg peer output_path temp_path 0 c2 w2))"

text \<open>\<open>junk\<close> is what the local frame holds before the first one is received.\<close>

definition tcp_client_main :: "DemoFrame \<Rightarrow> string list \<Rightarrow> world \<Rightarrow> int \<times> world" where
  "tcp_client_main junk argv w =
     (case logger_open (Some ''client'') (Some ''logs/client.jsonl'') w of
        (rc, None) \<Rightarrow> (1, w)
      | (rc, Some lg) \<Rightarrow>
        if rc \<noteq> 0 then (1, w)
        else
         (let parsed = (if length argv = 7
                  then Some (False, [argv ! 3, argv ! 4, argv ! 5], argv ! 6)
                  else if length argv = 4 then Some (True, [], argv ! 3) else None) in
          case parsed of
            None \<Rightarrow> (1, demo_finish lg ''ABORT'' ''invalid arguments'' w)
          | Some (interactive, passwords, output_path) \<Rightarrow>
             (case parse_port (Some (argv ! 2)) of
                None \<Rightarrow> (1, demo_finish lg ''ABORT'' ''invalid port'' w)
              | Some port \<Rightarrow>
                 (case demo_connect_tcp (argv ! 1) port w of
                    (None, w1) \<Rightarrow> (1, demo_finish lg ''ABORT'' ''tcp connect failed'' w1)
                  | (Some addr, w1) \<Rightarrow>
                     (let peer = peer_to_string addr 64;
                          temp_path = snprintf_s 512 (output_path @ ''.part'') in
                      case fopen_wb temp_path w1 of (opened, w2) \<Rightarrow>
                      if \<not> opened then (1, demo_finish lg ''ABORT'' ''output open failed'' w2)
                      else tcp_client_session lg peer interactive passwords output_path temp_path junk
                             (logger_write lg (Some ((demo_init_event ''INFO'' ''CLIENT_START'' ''INIT''
                                  ''tcp-family client started'')
                                \<lparr>le_peer := Some peer, le_port := uint port\<rparr>)) w2))))))"

end
