(* ===== verification/Sha1Standard.thy ===== *)
theory Sha1Standard
  imports ByteOrder Sha1
begin

text \<open>
  SHA-1 as FIPS 180-4 states it, written from the standard and independently of
  \<open>src/sha1_util.c\<close>: a message schedule by recursion on its index, the functions
  Ch, Parity and Maj, eighty rounds, padding by arithmetic on the length. The
  program's digest is this function.
\<close>

section \<open>The standard\<close>

definition fips_word :: "byte list \<Rightarrow> u32" where
  "fips_word bs = foldl (\<lambda>a b. 256 * a + ucast b) 0 bs"

fun fips_W :: "byte list \<Rightarrow> nat \<Rightarrow> u32" where
  "fips_W block t =
     (if t < 16 then fips_word (take 4 (drop (4 * t) block))
      else word_rotl 1 (fips_W block (t - 3) XOR fips_W block (t - 8) XOR
                        fips_W block (t - 14) XOR fips_W block (t - 16)))"

declare fips_W.simps [simp del]

definition Ch :: "u32 \<Rightarrow> u32 \<Rightarrow> u32 \<Rightarrow> u32" where
  "Ch x y z = (x AND y) XOR (NOT x AND z)"

definition Parity :: "u32 \<Rightarrow> u32 \<Rightarrow> u32 \<Rightarrow> u32" where
  "Parity x y z = x XOR y XOR z"

definition Maj :: "u32 \<Rightarrow> u32 \<Rightarrow> u32 \<Rightarrow> u32" where
  "Maj x y z = (x AND y) XOR (x AND z) XOR (y AND z)"

definition fips_f :: "nat \<Rightarrow> u32 \<Rightarrow> u32 \<Rightarrow> u32 \<Rightarrow> u32" where
  "fips_f t = [Ch, Parity, Maj, Parity] ! (t div 20)"

definition fips_K :: "nat \<Rightarrow> u32" where
  "fips_K t = [0x5a827999, 0x6ed9eba1, 0x8f1bbcdc, 0xca62c1d6] ! (t div 20)"

definition fips_round :: "byte list \<Rightarrow> nat \<Rightarrow> u32 \<times> u32 \<times> u32 \<times> u32 \<times> u32 \<Rightarrow> u32 \<times> u32 \<times> u32 \<times> u32 \<times> u32" where
  "fips_round block t = (\<lambda>(a, b, c, d, e).
     (word_rotl 5 a + fips_f t b c d + e + fips_K t + fips_W block t, a, word_rotl 30 b, c, d))"

definition fips_block :: "u32 list \<Rightarrow> byte list \<Rightarrow> u32 list" where
  "fips_block h block =
     (case fold (fips_round block) [0..<80] (h ! 0, h ! 1, h ! 2, h ! 3, h ! 4)
      of (a, b, c, d, e) \<Rightarrow> [a + h ! 0, b + h ! 1, c + h ! 2, d + h ! 3, e + h ! 4])"

text \<open>The \<open>n\<close> bytes of a number, most significant first.\<close>

definition fips_bytes :: "nat \<Rightarrow> nat \<Rightarrow> byte list" where
  "fips_bytes n v = map (\<lambda>i. word_of_nat (v div 256 ^ (n - 1 - i))) [0..<n]"

definition fips_pad :: "byte list \<Rightarrow> byte list" where
  "fips_pad m = m @ [0x80] @ replicate (nat ((55 - int (length m)) mod 64)) 0 @
                fips_bytes 8 (8 * length m)"

definition fips_sha1 :: "byte list \<Rightarrow> byte list" where
  "fips_sha1 m = concat (map (\<lambda>h. fips_bytes 4 (unat h))
     (foldl fips_block [0x67452301, 0xefcdab89, 0x98badcfe, 0x10325476, 0xc3d2e1f0]
        (chunks 64 (fips_pad m))))"

section \<open>The compression function\<close>

lemma u32_bit_high [simp]: "32 \<le> n \<Longrightarrow> \<not> bit (x :: u32) n"
  by (auto dest: bit_imp_le_length)

lemma rotl32_word_rotl:
  assumes "0 < n" "n < 32"
  shows "rotl32 x n = word_rotl n x"
proof (rule bit_word_eqI)
  fix i assume "i < LENGTH(32)"
  then have i: "i < 32" by simp
  have "(i + (32 - n)) mod 32 = (if n \<le> i then i - n else i + (32 - n))"
    using assms i by (auto simp: mod_if)
  moreover have "32 + i - n = i + 32 - n" by simp
  ultimately show "bit (rotl32 x n) i = bit (word_rotl n x) i"
    using assms i by (auto simp: rotl32_def bit_simps bit_word_rotl_iff)
qed

lemma ch_or: "(b AND c) OR ((NOT b) AND d) = Ch b c d"
  by (rule bit_word_eqI) (auto simp: bit_simps Ch_def)

lemma maj_or: "(b AND c) OR (b AND d) OR (c AND d) = Maj b c d"
  by (rule bit_word_eqI) (auto simp: bit_simps Maj_def)

lemma div_20: "(t::nat) < 80 \<Longrightarrow>
  t div 20 = (if t < 20 then 0 else if t < 40 then 1 else if t < 60 then 2 else 3)"
  by (simp, intro conjI impI; rule div_nat_eqI; simp)

lemma sha1_f_fips: "t < 80 \<Longrightarrow> sha1_f t b c d = fips_f t b c d"
  by (simp add: sha1_f_def fips_f_def div_20 ch_or maj_or Parity_def)

lemma sha1_k_fips: "t < 80 \<Longrightarrow> sha1_k t = fips_K t"
  by (simp add: sha1_k_def fips_K_def div_20)

lemma shift_in: "256 * (x::u32) + ucast (b::byte) = push_bit 8 x OR ucast b"
proof -
  have "push_bit 8 x AND (ucast b :: u32) = 0"
    by (rule bit_word_eqI) (auto simp: bit_simps)
  then have "push_bit 8 x + ucast b = push_bit 8 x OR (ucast b :: u32)"
    by (rule disjunctive_add_eq_or)
  then show ?thesis by (simp add: push_bit_eq_mult mult.commute)
qed

lemma take4: "i + 4 \<le> length xs \<Longrightarrow> take 4 (drop i xs) = [xs ! i, xs ! (i + 1), xs ! (i + 2), xs ! (i + 3)]"
  by (simp add: list_eq_iff_nth_eq nth_Cons' less_Suc_eq numeral_eq_Suc)

lemma fips_word4:
  "fips_word [a, b, c, d] = push_bit 24 (ucast a) OR push_bit 16 (ucast b) OR push_bit 8 (ucast c) OR ucast d"
  by (simp only: fips_word_def foldl.simps shift_in) (simp add: or.assoc)

lemma load_be32_fips:
  "t < 16 \<Longrightarrow> length block = 64 \<Longrightarrow> load_be32 block t = fips_W block t"
  unfolding fips_W.simps [of block t] load_be32_def
  by (simp add: fips_word4 take4 mult.commute)

lemma schedule_from_fips:
  "w = map (fips_W block) [0..<n] \<Longrightarrow> 16 \<le> n \<Longrightarrow> schedule_from k w = map (fips_W block) [0..<n + k]"
proof (induction k arbitrary: n w)
  case (Suc k)
  have "rotl32 (w ! (n - 3) XOR w ! (n - 8) XOR w ! (n - 14) XOR w ! (n - 16)) 1 = fips_W block n"
    using Suc.prems by (simp add: fips_W.simps [of block n] rotl32_word_rotl)
  with Suc.prems Suc.IH [of "w @ [fips_W block n]" "Suc n"] show ?case by (simp add: Let_def)
qed simp

lemma sha1_schedule_fips: "length block = 64 \<Longrightarrow> sha1_schedule block = map (fips_W block) [0..<80]"
  unfolding sha1_schedule_def
  by (subst schedule_from_fips [of _ block 16]) (simp_all add: load_be32_fips)

lemma sha1_rounds_fips:
  "i + k \<le> 80 \<Longrightarrow> sha1_rounds i (map (fips_W block) [i..<i + k]) v = fold (fips_round block) [i..<i + k] v"
proof (induction k arbitrary: i v)
  case (Suc k)
  obtain a b c d e where "v = (a, b, c, d, e)" by (metis prod_cases5)
  moreover have "[i..<i + Suc k] = i # [Suc i..<Suc i + k]" by (simp add: upt_conv_Cons del: upt_Suc)
  ultimately show ?case
    using Suc.prems Suc.IH [of "Suc i"]
    by (simp add: fips_round_def sha1_f_fips sha1_k_fips rotl32_word_rotl del: upt_Suc)
qed simp

lemma sha1_compress_fips: "length block = 64 \<Longrightarrow> sha1_compress st block = fips_block st block"
  using sha1_rounds_fips [of 0 80 block] 
  by (simp add: sha1_compress_def fips_block_def sha1_schedule_fips add.commute split: prod.splits)

section \<open>Padding and output\<close>

lemma byte_of_word: "(ucast (drop_bit (8 * k) x AND 0xff) :: byte) = word_of_nat (unat (x :: 'a::len word) div 256 ^ k)"
proof -
  have "(256::nat) ^ k = 2 ^ (8 * k)" by (simp add: power_mult)
  then have "unat x div 256 ^ k = unat (drop_bit (8 * k) x)" by (simp only: unat_drop_bit_eq drop_bit_nat_def)
  moreover have "(ucast (y AND 0xff) :: byte) = ucast y" for y :: "'a word"
    by (rule byte_eqI, unfold upt_8, auto simp: bit_simps dest: bit_imp_le_length)
  ultimately show ?thesis by simp
qed

lemma store_be32_fips: "store_be32 x = fips_bytes 4 (unat x)"
  using byte_of_word [of 3 x] byte_of_word [of 2 x] byte_of_word [of 1 x] byte_of_word [of 0 x]
  by (simp add: store_be32_def fips_bytes_def upt_rec)

lemma length_bytes_fips: "length_bytes x = fips_bytes 8 (unat x)"
  unfolding length_bytes_def fips_bytes_def
proof (intro map_cong refl)
  fix j show "(ucast (drop_bit ((7 - j) * 8) x AND 0xff) :: byte) = word_of_nat (unat x div 256 ^ (8 - 1 - j))"
    using byte_of_word [of "7 - j" x] by (simp add: mult.commute)
qed

lemma pad_zeros_fips: "nat ((55 - int n) mod 64) = (119 - n mod 64) mod 64"
proof -
  define r q where "r = n mod 64" and "q = n div 64"
  then have n: "n = r + 64 * q" and r: "r < 64" by simp_all
  have "(55 - int n) mod 64 = (55 - int r + 64 * (- int q)) mod 64" by (simp add: n diff_diff_eq)
  also have "\<dots> = (55 - int r) mod 64" by (rule mod_mult_self2)
  also have "\<dots> = int ((119 - r) mod 64)"
  proof (cases "r \<le> 55")
    case True
    then have "119 - r = (55 - r) + 64" by simp
    then have "(119 - r) mod 64 = (55 - r) mod 64" by (simp only: mod_add_self2)
    then have "(119 - r) mod 64 = 55 - r" by simp
    with True show ?thesis by simp
  next
    case False
    then have "(55 - int r) mod 64 = (119 - int r) mod 64" using mod_add_self2 [of "55 - int r" 64] by simp
    with False r show ?thesis by simp
  qed
  finally show ?thesis by (simp add: r_def)
qed

lemma fips_byte_wrap:
  assumes "k < 8"
  shows "(word_of_nat (v mod 2 ^ 64 div 256 ^ k) :: byte) = word_of_nat (v div 256 ^ k)"
proof -
  have p: "(256::nat) ^ k = 2 ^ (8 * k)" by (simp add: power_mult)
  have "take_bit 8 (drop_bit (8 * k) (take_bit 64 v)) = take_bit 8 (drop_bit (8 * k) v)"
    using assms by (intro bit_eqI) (auto simp: bit_simps)
  then show ?thesis
    unfolding p word_of_nat_eq_iff take_bit_eq_mod [of 64, symmetric] drop_bit_eq_div [symmetric] by simp
qed

lemma fips_pad_eq: "sha1_pad m = fips_pad m"
proof -
  have "unat (word_of_nat (length m) * 8 :: u64) = (8 * length m) mod 2 ^ 64"
    by (simp add: unat_word_ariths unat_of_nat mult.commute mod_mult_right_eq)
  then have "fips_bytes 8 (unat (word_of_nat (length m) * 8 :: u64)) = fips_bytes 8 (8 * length m)"
    by (auto simp: fips_bytes_def fips_byte_wrap [simplified])
  then show ?thesis by (simp add: sha1_pad_def fips_pad_def pad_zeros_fips length_bytes_fips)
qed

lemma foldl_compress_fips:
  "(\<forall>b \<in> set bs. length b = 64) \<Longrightarrow> foldl sha1_compress st bs = foldl fips_block st bs"
  by (induction bs arbitrary: st) (simp_all add: sha1_compress_fips)

lemma chunks_all_exact: "n dvd length xs \<Longrightarrow> b \<in> set (chunks n xs) \<Longrightarrow> length b = n"
proof (induction n xs rule: chunks.induct)
  case (1 n xs)
  show ?case
  proof (cases "n = 0 \<or> xs = []")
    case True
    with "1.prems" show ?thesis by (auto simp: chunks.simps)
  next
    case False
    with "1.prems"(1) have "n \<le> length xs" "n dvd length (drop n xs)" by (auto dest: dvd_imp_le simp: dvd_diff_nat)
    with "1.IH" "1.prems"(2) False show ?thesis by (auto simp: chunks_step)
  qed
qed

lemma sha1_digest_fips: "sha1_digest m = fips_sha1 m"
proof -
  have "\<forall>b \<in> set (chunks 64 (sha1_pad m)). length b = 64"
    using chunks_all_exact length_sha1_pad by blast
  then show ?thesis
    by (simp add: sha1_digest_spec sha1_spec_def fips_sha1_def sha1_iv_def foldl_compress_fips fips_pad_eq store_be32_fips [abs_def])
qed

text \<open>
  C9. The digest the program computes is the SHA-1 of FIPS 180-4 of the whole
  message, however the message is cut into calls of \<open>sha1_update\<close>.
\<close>

theorem sha1_program_is_standard:
  "sha1_final (foldl sha1_update sha1_init parts) = fips_sha1 (concat parts)"
  by (simp add: sha1.foldl_update sha1.ok_init flip: sha1_digest_def sha1_digest_fips)

lemma pad_zeros_done: "sha1_pad_zeros n c = Some c1 \<Longrightarrow> sc_buffer_len c1 = 56"
  by (induction n arbitrary: c) (auto split: if_splits)

text \<open>
  C22. The padding loop of \<open>sha1_final\<close>, which has no bound of its own, ends after at most
  63 rounds, whatever was hashed in whatever pieces, and leaves a well-formed context with
  the 56 bytes in its block that the length field needs.
\<close>

theorem sha1_padding_ends:
  "\<exists>c. sha1_pad_zeros 63 (sha1_update (foldl sha1_update sha1_init parts) [0x80]) = Some c \<and>
     ctx_ok c \<and> sc_buffer_len c = 56"
proof -
  let ?c = "sha1_update (foldl sha1_update sha1_init parts) [0x80]"
  have ok: "ctx_ok ?c" by (intro sha1.ok_update sha1.ok_foldl sha1.ok_init)
  have "(120 - sc_buffer_len ?c) mod 64 \<le> 63" using less_Suc_eq_le by fastforce
  from sha1_pad_zeros_eq [OF ok this] obtain c where c: "sha1_pad_zeros 63 ?c = Some c"
    "c = sha1_update ?c (replicate ((120 - sc_buffer_len ?c) mod 64) 0)" by blast
  with sha1.ok_update [OF ok] pad_zeros_done [OF c(1)] show ?thesis by blast
qed

end
