(* ===== verification/DemoFacts.thy ===== *)
theory DemoFacts
  imports DemoStream Sha1Standard
begin

text \<open>
  What the other utilities of \<open>src/demo_util.c\<close> guarantee: HMAC is FIPS 198-1 over
  FIPS 180-4, the cipher is its own inverse, Base64 can be decoded, a prompted
  password fits its buffer.
\<close>

section \<open>HMAC\<close>

text \<open>FIPS 198-1, table 1, for SHA-1: block size 64, the key padded or hashed to it.\<close>

definition fips198_k0 :: "byte list \<Rightarrow> byte list" where
  "fips198_k0 k =
     (if length k = 64 then k
      else if length k > 64 then fips_sha1 k @ replicate (64 - 20) 0
      else k @ replicate (64 - length k) 0)"

definition fips198_hmac :: "byte list \<Rightarrow> byte list \<Rightarrow> byte list" where
  "fips198_hmac k m =
     (let k0 = fips198_k0 k;
          inner = fips_sha1 (map2 (XOR) k0 (replicate 64 0x36) @ m)
      in fips_sha1 (map2 (XOR) k0 (replicate 64 0x5c) @ inner))"

lemma length_fips_sha1 [simp]: "length (fips_sha1 m) = 20"
  using length_sha1_digest [of m] by (simp add: sha1_digest_fips)

lemma length_fips198_k0 [simp]: "length (fips198_k0 k) = 64"
  by (simp add: fips198_k0_def)

lemma map2_replicate_xor: "length xs = n \<Longrightarrow> map2 (XOR) xs (replicate n c) = map (\<lambda>b. b XOR c) xs"
  by (induction xs arbitrary: n) auto

lemma hash_final: "sha1_final (sha1_update sha1_init m) = fips_sha1 m"
  by (simp flip: sha1_digest_fips add: sha1_digest_def)

lemma hash_final2: "sha1_final (sha1_update (sha1_update sha1_init a) b) = fips_sha1 (a @ b)"
  by (simp only: sha1.two_updates hash_final)

lemma demo_hmac_fips: "demo_hmac_sha1 key msg = fips198_hmac key msg"
proof -
  let ?start = "if length key > 64 then fips_sha1 key else key"
  have "?start @ replicate (64 - length ?start) 0 = fips198_k0 key"
    by (simp add: fips198_k0_def)
  then show ?thesis
    unfolding demo_hmac_sha1_def fips198_hmac_def Let_def hash_final hash_final2
    by (simp only: map2_replicate_xor [OF length_fips198_k0])
qed

lemma length_demo_hmac_sha1 [simp]: "length (demo_hmac_sha1 key msg) = 20"
  by (simp add: demo_hmac_fips fips198_hmac_def Let_def)

lemma length_demo_derive_session_key [simp]: "length (demo_derive_session_key pw a b) = 20"
  by (simp add: demo_derive_session_key_def sha1.update_update sha1.ok_update sha1.ok_init hash_final)

text \<open>
  C14. The program's HMAC is the HMAC of FIPS 198-1 over the SHA-1 of FIPS 180-4, both
  written from the standards, for keys of every length and messages of every length.
\<close>

theorem demo_hmac_is_standard: "demo_hmac_sha1 key msg = fips198_hmac key msg"
  by (rule demo_hmac_fips)

section \<open>The cipher\<close>

lemma length_demo_xor_crypt [simp]: "length (demo_xor_crypt d k) = length d"
  by (simp add: demo_xor_crypt_def)

lemma demo_xor_crypt_inverse: "demo_xor_crypt (demo_xor_crypt d k) k = d"
  by (auto simp: demo_xor_crypt_def xor.assoc intro: nth_equalityI)

section \<open>A prompted password\<close>

text \<open>The characters typed before the line ends, or before the pipe does.\<close>

fun typed :: "read_result list \<Rightarrow> string" where
  "typed [] = []"
| "typed (RdChar c # rs) = (if c = CHR 0x0A \<or> c = CHR 0x0D then [] else c # typed rs)"
| "typed (RdIntr # rs) = typed rs"
| "typed (RdAgain # rs) = typed rs"
| "typed (_ # rs) = []"

lemma prompt_loop_typed: "length buf < n \<Longrightarrow> fst (prompt_loop n buf rs) = take (n - 1) (buf @ typed rs)"
proof (induction n buf rs rule: prompt_loop.induct)
  case (2 n buf r rs)
  show ?case
  proof (cases "length buf + 1 < n")
    case True
    with 2 show ?thesis by (cases r) auto
  next
    case False
    with "2.prems" have "length buf = n - 1" by simp
    then show ?thesis using False by simp
  qed
qed simp

text \<open>
  A password typed at the control server's pipe is the line typed there, cut to
  the buffer; interrupted and not yet ready reads change nothing, nor does what
  follows the line. No buffer of a positive size is refused or overrun.
\<close>

lemma prompted_password_is_typed_line:
  "fst (demo_prompt_interactive_password (Some rs) n w) =
     (if n = 0 then None else Some (take (n - 1) (typed rs)))"
  using prompt_loop_typed [of "[]" n rs]
  by (cases "prompt_loop n [] rs") (simp add: demo_prompt_interactive_password_def)

section \<open>Base64\<close>

text \<open>
  A decoder written from RFC 4648: a character stands for its place in the alphabet,
  four of them for three bytes, \<open>=\<close> for the bytes missing at the end.
\<close>

definition b64_value :: "char \<Rightarrow> u32 option" where
  "b64_value c = (let i = length (takeWhile (\<lambda>x. x \<noteq> c) base64_alphabet) in
     if i < 64 then Some (word_of_nat i) else None)"

definition b64_bytes :: "u32 \<Rightarrow> u32 \<Rightarrow> u32 \<Rightarrow> u32 \<Rightarrow> byte list" where
  "b64_bytes a b c d =
     (let v = push_bit 18 a OR push_bit 12 b OR push_bit 6 c OR d
      in [ucast (drop_bit 16 v), ucast (drop_bit 8 v), ucast v])"

text \<open>Four characters; only the last group may have bytes missing.\<close>

definition b64_group :: "bool \<Rightarrow> char \<Rightarrow> char \<Rightarrow> char \<Rightarrow> char \<Rightarrow> byte list option" where
  "b64_group final a b c d =
     (case (b64_value a, b64_value b, b64_value c, b64_value d) of
        (Some x, Some y, Some z, Some u) \<Rightarrow> Some (b64_bytes x y z u)
      | (Some x, Some y, Some z, None) \<Rightarrow>
          if final \<and> d = CHR ''='' then Some (take 2 (b64_bytes x y z 0)) else None
      | (Some x, Some y, None, None) \<Rightarrow>
          if final \<and> c = CHR ''='' \<and> d = CHR ''='' then Some (take 1 (b64_bytes x y 0 0)) else None
      | _ \<Rightarrow> None)"

fun base64_decode :: "string \<Rightarrow> byte list option" where
  "base64_decode (a # b # c # d # rest) =
     (case b64_group (rest = []) a b c d of
        None \<Rightarrow> None
      | Some bytes \<Rightarrow> map_option ((@) bytes) (base64_decode rest))"
| "base64_decode s = (if s = [] then Some [] else None)"

lemma takeWhile_nth_distinct:
  "distinct xs \<Longrightarrow> i < length xs \<Longrightarrow> takeWhile (\<lambda>x. x \<noteq> xs ! i) xs = take i xs"
  by (induction xs arbitrary: i) (auto simp: nth_Cons' gr0_conv_Suc)

lemma distinct_alphabet: "distinct base64_alphabet" "length base64_alphabet = 64"
  by (simp_all add: base64_alphabet_def)

lemma masked_lt_64: "unat (x AND 0x3f :: u32) < 64"
  using word_and_le1 [of x "0x3f"] by (simp add: word_le_nat_alt)

lemma b64_value_char [simp]: "b64_value (base64_char x) = Some (x AND 0x3f)"
  using masked_lt_64 [of x] takeWhile_nth_distinct [OF distinct_alphabet(1), of "unat (x AND 0x3f)"]
  by (simp add: b64_value_def base64_char_def distinct_alphabet(2))

lemma b64_value_pad [simp]: "b64_value (CHR ''='') = None"
  by (simp add: b64_value_def base64_alphabet_def)

lemma base64_block_cases:
  "base64_block [x] = push_bit 16 (ucast x)"
  "base64_block [x, y] = push_bit 16 (ucast x) OR push_bit 8 (ucast y)"
  "base64_block [x, y, z] = push_bit 16 (ucast x) OR push_bit 8 (ucast y) OR ucast z"
  by (simp_all add: base64_block_def upt_rec or.assoc)

lemma Suc_Suc_minus_2: "2 \<le> n \<Longrightarrow> Suc (Suc (n - 2)) = n"
  by simp

lemma b64_bits:
  "(let v = base64_block [x, y, z] in
    b64_bytes (drop_bit 18 v AND 0x3f) (drop_bit 12 v AND 0x3f) (drop_bit 6 v AND 0x3f) (v AND 0x3f)) = [x, y, z]"
proof -
  have m: "(0x3f :: u32) = mask 6" by (simp add: mask_numeral)
  show ?thesis unfolding b64_bytes_def Let_def m base64_block_cases
    by (auto intro!: bit_word_eqI simp: bit_simps Suc_Suc_minus_2)
qed

text \<open>A short block is a full one with zeros, whose last characters carry no bit.\<close>

lemma base64_block_short: "base64_block [x, y] = base64_block [x, y, 0]" "base64_block [x] = base64_block [x, 0, 0]"
  by (simp_all add: base64_block_cases)

lemma base64_block_low:
  "base64_block [x, y, 0] AND 0x3f = 0" "drop_bit 6 (base64_block [x, 0, 0]) AND 0x3f = 0"
proof -
  have m: "(0x3f :: u32) = mask 6" by (simp add: mask_numeral)
  show "base64_block [x, y, 0] AND 0x3f = 0" "drop_bit 6 (base64_block [x, 0, 0]) AND 0x3f = 0"
    unfolding m base64_block_cases by (auto intro!: bit_word_eqI simp: bit_simps)
qed

text \<open>The whole encoding, without the buffer.\<close>

fun base64_text :: "byte list \<Rightarrow> string" where
  "base64_text (x # y # z # ds) = base64_quad [x, y, z] @ base64_text ds"
| "base64_text ds = (if ds = [] then [] else base64_quad ds)"

lemma length_base64_quad [simp]: "length (base64_quad d) = 4"
  by (simp add: base64_quad_def Let_def)

lemma length_base64_text: "length (base64_text d) = 4 * ((length d + 2) div 3)"
proof (induction d rule: base64_text.induct)
  case (1 x y z ds)
  have "(length ds + 5) div 3 = Suc ((length ds + 2) div 3)" by presburger
  with 1 show ?case by (simp add: add.commute)
qed simp_all

lemma base64_loop_text:
  "base64_loop d acc n = (if d = [] \<or> length acc + length (base64_text d) < n then Some (acc @ base64_text d) else None)"
proof (induction d arbitrary: acc rule: base64_text.induct)
  case (1 x y z ds)
  have "base64_loop (x # y # z # ds) acc n =
      (if length acc + 4 \<ge> n then None else base64_loop ds (acc @ base64_quad [x, y, z]) n)"
    by (subst base64_loop.simps) simp
  with 1 show ?case by auto
qed (simp_all add: base64_loop.simps)

lemma base64_decode_quad:
  "base64_decode (base64_quad [x, y, z] @ s) = map_option ((@) [x, y, z]) (base64_decode s)"
  "base64_decode (base64_quad [x, y]) = Some [x, y]"
  "base64_decode (base64_quad [x]) = Some [x]"
  using b64_bits [of x y z] b64_bits [of x y 0] b64_bits [of x 0 0] base64_block_low
  by (simp_all add: base64_quad_def b64_group_def base64_block_short Let_def)

lemma base64_decode_text: "base64_decode (base64_text d) = Some d"
proof (induction d rule: base64_text.induct)
  case (1 x y z ds)
  then show ?case by (simp add: base64_decode_quad)
qed (simp_all add: base64_decode_quad)

text \<open>
  Base64: the encoder succeeds exactly when the text and its NUL fit the buffer,
  and what it writes is read back by a decoder written from RFC 4648 as the very
  bytes encoded, whatever their number modulo three.
\<close>

lemma base64_round_trip:
  "map_option base64_decode (demo_base64_encode d n) =
     (if 4 * ((length d + 2) div 3) < n then Some (Some d) else None)"
  unfolding length_base64_text [symmetric]
  by (auto simp: demo_base64_encode_def base64_loop_text base64_decode_text)

end
