(* ===== verification/Exchange.thy ===== *)
theory Exchange
  imports DemoStream
begin

text \<open>
  Steps of a program over a stream without faults: \<open>exchange i out w w1\<close> says that a step
  read the bytes \<open>i\<close> and wrote the bytes \<open>out\<close>, that nothing failed and that nothing else
  changed but the log. The stream demos share these steps.
\<close>

lemma logger_write_stream [simp]: "tcp_stream (logger_write lg e w) = tcp_stream w"
  by (simp add: logger_write_def tcp_stream_def Let_def)

lemma demo_finish_same:
  "w_stdout (demo_finish lg r why w) = w_stdout w @ [r @ [CHR 0x0A]]"
  "w_tcp_out (demo_finish lg r why w) = w_tcp_out w"
  "w_fs (demo_finish lg r why w) = w_fs w"
  by (simp_all add: demo_finish_def print_line_def logger_write_def Let_def)

section \<open>Calm worlds and exchanges\<close>

definition calm :: "world \<Rightarrow> bool" where
  "calm w \<longleftrightarrow> w_sendfault w = [] \<and> w_stop w = None \<and> w_allocfault w = [] \<and> flowing w"

definition exchange :: "byte list \<Rightarrow> byte list \<Rightarrow> world \<Rightarrow> world \<Rightarrow> bool" where
  "exchange i out w w1 \<longleftrightarrow>
     calm w \<and> calm w1 \<and> tcp_stream w = i @ tcp_stream w1 \<and> w_tcp_out w1 = w_tcp_out w @ out \<and>
     w_fs w1 = w_fs w \<and> w_env w1 = w_env w \<and> w_stdout w1 = w_stdout w \<and> w_nonces w1 = w_nonces w \<and>
     w_writefault w1 = w_writefault w \<and> w_renamefault w1 = w_renamefault w \<and> w_stdin w1 = w_stdin w \<and>
     w_unwritable w1 = w_unwritable w"

lemma exchange_refl: "calm w \<Longrightarrow> exchange [] [] w w"
  by (simp add: exchange_def)

lemma exchange_trans:
  "exchange i out w w1 \<Longrightarrow> exchange i' out' w1 w2 \<Longrightarrow> exchange (i @ i') (out @ out') w w2"
  by (simp add: exchange_def)

lemma exchange_calm: "exchange i out w w1 \<Longrightarrow> calm w \<and> calm w1"
  by (simp add: exchange_def)

lemma exchange_stream: "exchange i out w w1 \<Longrightarrow> tcp_stream w = i @ tcp_stream w1"
  by (simp add: exchange_def)

lemma exchange_same:
  assumes "exchange i out w w1"
  shows "w_fs w1 = w_fs w" "w_env w1 = w_env w" "w_stdout w1 = w_stdout w" "w_nonces w1 = w_nonces w"
    "w_writefault w1 = w_writefault w" "w_renamefault w1 = w_renamefault w" "w_stdin w1 = w_stdin w"
    "w_unwritable w1 = w_unwritable w" "w_tcp_out w1 = w_tcp_out w @ out"
  using assms by (simp_all add: exchange_def)

lemma exchange_log: "exchange i out w w1 \<Longrightarrow> exchange i out w (logger_write lg e w1)"
  by (simp add: exchange_def calm_def logger_write_def flowing_def tcp_stream_def Let_def)

lemma calm_log: "calm w \<Longrightarrow> exchange [] [] w (logger_write lg e w)"
  by (intro exchange_log exchange_refl)

lemma tcp_calm_stop [simp]: "calm w \<Longrightarrow> read_stop w = (False, w)"
  by (simp add: calm_def read_stop_def)

lemma calm_malloc: "calm w \<Longrightarrow> malloc_ok w = (True, w)"
  by (simp add: calm_def malloc_ok_def)

lemma exchange_writes:
  assumes "calm w" "writes d w w1" "w_sendfault w1 = []"
  shows "exchange [] d w w1"
  using assms by (auto simp: exchange_def calm_def writes_def tcp_stream_def flowing_def)

lemma exchange_reads:
  assumes "calm w" "reads w w1" "flowing w1" "tcp_stream w = i @ tcp_stream w1"
  shows "exchange i [] w w1"
  using assms by (auto simp: exchange_def calm_def reads_def)

section \<open>Conversations in segments\<close>

text \<open>
  For the programs that take a whole message from one \<open>recv\<close>: a run that began in \<open>w0\<close>
  has the segments \<open>segs\<close> still before it and has written \<open>out\<close>; nothing else changed but the log.
\<close>

definition script :: "world \<Rightarrow> byte list list \<Rightarrow> byte list \<Rightarrow> world \<Rightarrow> bool" where
  "script w0 segs out w \<longleftrightarrow>
     w_sendfault w = [] \<and> w_tcp_in w = segs \<and> w_tcp_out w = w_tcp_out w0 @ out \<and> w_env w = w_env w0 \<and>
     w_fs w = w_fs w0 \<and> w_writefault w = w_writefault w0 \<and> w_stdout w = w_stdout w0 \<and> w_nonces w = w_nonces w0"

lemma script_start: "w_sendfault w = [] \<Longrightarrow> w_tcp_in w = segs \<Longrightarrow> script w segs [] w"
  by (simp add: script_def)

lemma script_log: "script w0 segs out w \<Longrightarrow> script w0 segs out (logger_write lg e w)"
  by (simp add: script_def world_simps)

lemma script_recv:
  assumes "script w0 (seg # segs) out w" "length seg \<le> n"
  shows "\<exists>w1. tcp_recv n w = (seg, w1) \<and> script w0 segs out w1"
  using assms by (simp add: tcp_recv_def script_def)

lemma script_recv_none:
  assumes "script w0 [] out w"
  shows "tcp_recv n w = ([], w)"
  using assms by (simp add: tcp_recv_def script_def)

lemma script_write:
  assumes "script w0 segs out w"
  shows "\<exists>w1. demo_write_all d w = (True, w1) \<and> script w0 segs (out @ d) w1"
proof -
  obtain ok w1 where run: "demo_write_all d w = (ok, w1)" by fastforce
  from demo_write_all_writes [OF run] assms obtain d1 d2 where
    "d = d1 @ d2" "writes d1 w w1" "ok \<longrightarrow> d2 = []" "ok" "w_sendfault w1 = []"
    by (auto simp: script_def)
  with run assms show ?thesis by (auto simp: script_def writes_def)
qed

lemma script_env: "script w0 segs out w \<Longrightarrow> getenv w v = getenv w0 v"
  by (simp add: script_def getenv_def)

end
