(* ===== verification/TcpLink.thy ===== *)
theory TcpLink
  imports TcpServer TcpClient DemoFacts Exchange
begin

text \<open>
  One connection seen from either TCP program: one exchange step (\<open>Exchange\<close>) for each
  frame sent or received.
\<close>

section \<open>Frames of the two programs\<close>

lemma build_frame_wire_eq:
  "length d \<le> 4096 \<Longrightarrow> build_frame_wire t d (word_of_nat (length d)) = frame_bytes t d"
  "length d \<le> 4096 \<Longrightarrow> client_frame_wire t d (word_of_nat (length d)) = frame_bytes t d"
  by (auto simp: build_frame_wire_def client_frame_wire_def frame_bytes_def frame_wire_def word_gt_0)

lemma client_frame_event_eq: "client_frame_event = server_frame_event"
  by (intro ext) (simp add: client_frame_event_def server_frame_event_def client_frame_wire_def build_frame_wire_def)

lemma client_tls_app_mac_eq: "client_tls_app_mac = tls_app_mac"
  unfolding client_tls_app_mac_def [abs_def] tls_app_mac_def [abs_def] seq_bytes_def by (rule refl)

section \<open>One frame sent\<close>

lemma demo_send_exchange:
  assumes "calm w" "length d \<le> 4096"
  shows "\<exists>w1. demo_send_frame t d (word_of_nat (length d)) frag w = (True, w1) \<and> exchange [] (frame_bytes t d) w w1"
proof -
  obtain ok w1 where s: "demo_send_frame t d (word_of_nat (length d)) frag w = (ok, w1)" by fastforce
  with demo_send_frame_writes [OF s assms(2)] assms(1) show ?thesis
    by (auto simp: calm_def intro!: exchange_writes)
qed

lemma server_send_exchange:
  assumes "calm w" "length d \<le> 4096"
  shows "\<exists>c1 w1. server_send_frame lg peer t d (word_of_nat (length d)) st ev pid frag c w = (True, c1, w1) \<and>
    tc_frame c1 = tc_frame c \<and> exchange [] (frame_bytes t d) w w1"
  using demo_send_exchange [OF assms, of t frag] by (auto simp: server_send_frame_def intro: exchange_log)

lemma client_send_exchange:
  assumes "calm w" "length d \<le> 4096"
  shows "\<exists>c1 w1. client_send_frame lg peer t d (word_of_nat (length d)) st ev pid c w = (True, c1, w1) \<and>
    tc_frame c1 = tc_frame c \<and> exchange [] (frame_bytes t d) w w1"
  using demo_send_exchange [OF assms, of t False] by (auto simp: client_send_frame_def intro: exchange_log)

section \<open>One frame received\<close>

lemma demo_recv_exchange:
  assumes "calm w" "tcp_stream w = frame_bytes t d @ rest" "length d \<le> 4096"
  shows "\<exists>w1. demo_recv_frame fr w = (Some (filled fr t d), w1) \<and>
    exchange (frame_bytes t d) [] w w1 \<and> tcp_stream w1 = rest"
proof -
  have "parse_frame (tcp_stream w) = Some ((t, d), rest)"
    using assms(2,3) by (simp add: parse_frame_bytes)
  with demo_recv_frame_flowing [of w fr] assms show ?thesis
    by (auto simp: calm_def intro!: exchange_reads)
qed

lemma server_recv_exchange:
  assumes "calm w" "tcp_stream w = frame_bytes t d @ rest" "length d \<le> 4096"
  shows "\<exists>c1 w1. server_recv_frame lg peer st ev pid c w = (Some c1, w1) \<and>
    tc_frame c1 = filled (tc_frame c) t d \<and> exchange (frame_bytes t d) [] w w1 \<and> tcp_stream w1 = rest"
  using demo_recv_exchange [OF assms, of "tc_frame c"]
  by (auto simp: server_recv_frame_def exchange_log)

lemma client_recv_exchange:
  assumes "calm w" "tcp_stream w = frame_bytes t d @ rest" "length d \<le> 4096"
  shows "\<exists>c1 w1. client_recv_frame lg peer st ev pid c w = (Some c1, w1) \<and>
    tc_frame c1 = filled (tc_frame c) t d \<and> exchange (frame_bytes t d) [] w w1 \<and> tcp_stream w1 = rest"
  using demo_recv_exchange [OF assms, of "tc_frame c"]
  by (auto simp: client_recv_frame_def exchange_log)

section \<open>Whatever a frame brings\<close>

lemma client_recv_some:
  assumes "client_recv_frame lg peer st ev pid c w = (Some c1, w1)"
  shows "\<exists>t d. tc_frame c1 = filled (tc_frame c) t d \<and> length d \<le> 4096 \<and>
    tcp_stream w = frame_bytes t d @ tcp_stream w1 \<and> w_fs w1 = w_fs w \<and> w_allocfault w1 = w_allocfault w"
proof -
  from assms obtain fr w0 e where r: "demo_recv_frame (tc_frame c) w = (Some fr, w0)"
    "tc_frame c1 = fr" "w1 = logger_write lg e w0"
    by (auto simp: client_recv_frame_def split: prod.splits option.splits)
  from demo_recv_frame_some [OF r(1)] obtain t d where
    td: "fr = filled (tc_frame c) t d" "length d \<le> 4096" "reads w w0" "tcp_stream w = frame_bytes t d @ tcp_stream w0"
    by blast
  show ?thesis
    by (rule exI [of _ t], rule exI [of _ d])
      (use td r(2,3) reads_same [OF td(3)] in \<open>simp add: logger_write_def Let_def tcp_stream_def\<close>)
qed

end
