(* ===== verification/TcpTransfer.thy ===== *)
theory TcpTransfer
  imports TcpLink
begin

text \<open>
  The plain transfer over TCP, end to end: the dialogue about the password, the file
  in frames, the digest. Each program is shown to send what the other one reads.
\<close>

section \<open>Endings\<close>

lemma sha1_new_file: "w_fs w p = Some (new_file d) \<Longrightarrow> sha1_file w p = Some (sha1_digest d)"
  by (simp add: sha1_file_digest new_file_def)

section \<open>The file in frames\<close>

definition data_frames :: "byte list list \<Rightarrow> byte list" where
  "data_frames bs = concat (map (frame_bytes (dpkt DEMO_PKT_DATA)) bs)"

lemma data_frames_simps [simp]:
  "data_frames [] = []"
  "data_frames (b # bs) = frame_bytes (dpkt DEMO_PKT_DATA) b @ data_frames bs"
  by (simp_all add: data_frames_def)

lemma tcp_basic_loop_sends:
  "calm w \<Longrightarrow> \<forall>b \<in> set bs. length b \<le> 4096 \<Longrightarrow>
   \<exists>c1 w1. tcp_basic_loop lg peer False frag cs bs c w = (None, c1, w1) \<and> exchange [] (data_frames bs) w w1"
proof (induction bs arbitrary: cs c w)
  case Nil
  then show ?case by (simp add: exchange_refl)
next
  case (Cons b bs)
  from server_send_exchange [of w b lg peer "dpkt DEMO_PKT_DATA" "''DATA_TRANSFER''" "''SEND_DATA''" cs "frag \<and> cs = 0" c]
    Cons.prems obtain c1 w1 where one: "server_send_frame lg peer (dpkt DEMO_PKT_DATA) b (word_of_nat (length b))
      ''DATA_TRANSFER'' ''SEND_DATA'' cs (frag \<and> cs = 0) c w = (True, c1, w1)"
      "exchange [] (frame_bytes (dpkt DEMO_PKT_DATA) b) w w1" by auto
  with Cons.IH [of w1 "cs + 1" c1] Cons.prems(2) obtain c2 w2 where
    "tcp_basic_loop lg peer False frag (cs + 1) bs c1 w1 = (None, c2, w2)" "exchange [] (data_frames bs) w1 w2"
    by (auto simp: exchange_calm)
  with one exchange_trans [OF one(2)] show ?case by fastforce
qed

lemma run_tcp_basic_sends:
  assumes "calm w" "w_fs w input = Some f" "length dg = 20"
  shows "\<exists>w1 w2. run_tcp_basic lg peer input dg False frag junk w =
      (0, demo_finish lg ''OK'' ''tcp-basic transfer completed'' w2) \<and>
    exchange [] (data_frames (chunks 1000 (f_data f)) @ frame_bytes (dpkt DEMO_PKT_TERMINATE) dg) w w2"
proof -
  let ?bs = "chunks 1000 (f_data f)"
  have "\<forall>b \<in> set ?bs. length b \<le> 4096" using chunks_bounds by fastforce
  from tcp_basic_loop_sends [OF assms(1) this, of lg peer frag 0 "new_conn junk"] obtain c1 w1 where
    data: "tcp_basic_loop lg peer False frag 0 ?bs (new_conn junk) w = (None, c1, w1)" "exchange [] (data_frames ?bs) w w1"
    by blast
  from server_send_exchange [of w1 dg lg peer "dpkt DEMO_PKT_TERMINATE" "''VERIFY''" "''SEND_TERMINATE''" "-1" False c1]
    data(2) assms(3) obtain c2 w2 where fin: "server_send_frame lg peer (dpkt DEMO_PKT_TERMINATE) dg 20
      ''VERIFY'' ''SEND_TERMINATE'' (-1) False c1 w1 = (True, c2, w2)"
      "exchange [] (frame_bytes (dpkt DEMO_PKT_TERMINATE) dg) w1 w2" by (auto simp: exchange_calm)
  with exchange_trans [OF data(2) fin(2)] fin(1) data(1) assms(2) show ?thesis
    by (auto simp: run_tcp_basic_def fread_blocks_def protocol_sizes)
qed

lemma client_write_calm:
  assumes "calm w" "w_writefault w = []" "w_fs w p = Some (new_file acc)"
  shows "fwrite_all p d w = (True, w\<lparr>w_fs := (w_fs w)(p \<mapsto> new_file (acc @ d))\<rparr>)"
  using assms by (simp add: fwrite_all_def file_data_def new_file_def)

lemma calm_fs [simp]: "calm (w\<lparr>w_fs := fs\<rparr>) = calm w" "tcp_stream (w\<lparr>w_fs := fs\<rparr>) = tcp_stream w"
  by (simp_all add: calm_def flowing_def tcp_stream_def)

lemma rename_calm:
  assumes "w_renamefault w = []" "w_fs w old = Some f" "old \<noteq> new"
  shows "rename_file old new w = (True, w\<lparr>w_fs := (w_fs w)(new \<mapsto> f, old := None)\<rparr>)"
  using assms by (simp add: rename_file_def)

text \<open>The partial file holds what has arrived so far, in front of what is still to come.\<close>

lemma tcp_client_terminate_ok:
  assumes "w_renamefault w = []" "w_fs w tmp = Some (new_file d)" "tmp \<noteq> out"
    and "take 20 (fr_payload fr) = sha1_digest d"
    and "\<And>x w'. w_fs (note x w') = w_fs w' \<and> w_stdout (note x w') = w_stdout w' \<and>
      w_tcp_out (note x w') = w_tcp_out w' \<and> w_renamefault (note x w') = w_renamefault w'"
  shows "\<exists>w1. tcp_client_terminate lg out tmp bad good note fr w = (0, w1) \<and>
    w_fs w1 = (w_fs w)(out \<mapsto> new_file d, tmp := None) \<and>
    w_stdout w1 = w_stdout w @ [''OK'' @ [CHR 0x0A]] \<and> w_tcp_out w1 = w_tcp_out w"
  using assms
  by (simp add: tcp_client_terminate_def sha1_new_file rename_calm demo_finish_same)

lemma tcp_client_loop_receives:
  "calm w \<Longrightarrow> w_writefault w = [] \<Longrightarrow> w_renamefault w = [] \<Longrightarrow> w_fs w tmp = Some (new_file acc) \<Longrightarrow> tmp \<noteq> out \<Longrightarrow>
   \<forall>b \<in> set bs. length b \<le> 4096 \<Longrightarrow> dg = sha1_digest (acc @ concat bs) \<Longrightarrow>
   tcp_stream w = data_frames bs @ frame_bytes (dpkt DEMO_PKT_TERMINATE) dg @ rest \<Longrightarrow>
   \<exists>w1. tcp_client_loop lg peer out tmp pid c w = (0, w1) \<and>
     w_fs w1 = (w_fs w)(out \<mapsto> new_file (acc @ concat bs), tmp := None) \<and>
     w_stdout w1 = w_stdout w @ [''OK'' @ [CHR 0x0A]] \<and> w_tcp_out w1 = w_tcp_out w"
proof (induction bs arbitrary: acc pid c w)
  case Nil
  from client_recv_exchange [OF Nil.prems(1) Nil.prems(8) [simplified]] Nil.prems(7) obtain c1 w1 where
    rcv: "client_recv_frame lg peer ''DATA_TRANSFER'' ''RECV_TRANSFER_PACKET'' pid c w = (Some c1, w1)"
      "tc_frame c1 = filled (tc_frame c) (dpkt DEMO_PKT_TERMINATE) dg"
      "exchange (frame_bytes (dpkt DEMO_PKT_TERMINATE) dg) [] w w1" by fastforce
  have pay: "take 20 (fr_payload (tc_frame c1)) = sha1_digest acc" using rcv(2) Nil.prems(7) by (simp add: filled_def)
  have "\<exists>w2. tcp_client_terminate lg out tmp ''digest mismatch'' ''tcp-basic transfer completed'' (\<lambda>x w'. w')
      (tc_frame c1) w1 = (0, w2) \<and> w_fs w2 = (w_fs w1)(out \<mapsto> new_file acc, tmp := None) \<and>
      w_stdout w2 = w_stdout w1 @ [''OK'' @ [CHR 0x0A]] \<and> w_tcp_out w2 = w_tcp_out w1"
    by (rule tcp_client_terminate_ok) (use Nil.prems pay exchange_same [OF rcv(3)] in simp_all)
  moreover have "tcp_client_loop lg peer out tmp pid c w = tcp_client_terminate lg out tmp ''digest mismatch''
      ''tcp-basic transfer completed'' (\<lambda>x w'. w') (tc_frame c1) w1"
    using rcv Nil.prems(1) by (simp add: tcp_client_loop.simps [of lg peer out tmp pid c w] Let_def)
  ultimately show ?case by (simp only: exchange_same [OF rcv(3)] concat.simps append_Nil2)
next
  case (Cons b bs)
  have len: "length b \<le> 4096" using Cons.prems(6) by simp
  from client_recv_exchange [OF Cons.prems(1) Cons.prems(8) [simplified] len] obtain c1 w1 where
    rcv: "client_recv_frame lg peer ''DATA_TRANSFER'' ''RECV_TRANSFER_PACKET'' pid c w = (Some c1, w1)"
      "tc_frame c1 = filled (tc_frame c) (dpkt DEMO_PKT_DATA) b"
      "exchange (frame_bytes (dpkt DEMO_PKT_DATA) b) [] w w1"
      "tcp_stream w1 = data_frames bs @ frame_bytes (dpkt DEMO_PKT_TERMINATE) dg @ rest" by fastforce
  note same = exchange_same [OF rcv(3)] exchange_calm [OF rcv(3)]
  let ?w2 = "w1\<lparr>w_fs := (w_fs w1)(tmp \<mapsto> new_file (acc @ b))\<rparr>"
  have wr: "(if fr_length (tc_frame c1) > 0
      then fwrite_all tmp (take (unat (fr_length (tc_frame c1))) (fr_payload (tc_frame c1))) w1
      else (True, w1)) = (True, ?w2)"
  proof (cases "b = []")
    case True
    then have "?w2 = w1" using same Cons.prems(4) by (simp add: fun_upd_idem)
    with True rcv(2) show ?thesis by simp
  next
    case False
    then have "(word_of_nat (length b) :: u32) \<noteq> 0" using len by (simp add: word_of_nat_eq_0_iff nat_dvd_not_less)
    then show ?thesis using rcv(2) len same Cons.prems(2,4)
      by (simp add: word_gt_0 unat_small client_write_calm filled_def)
  qed
  have "\<exists>w3. tcp_client_loop lg peer out tmp (pid + 1) c1 ?w2 = (0, w3) \<and>
     w_fs w3 = (w_fs ?w2)(out \<mapsto> new_file ((acc @ b) @ concat bs), tmp := None) \<and>
     w_stdout w3 = w_stdout ?w2 @ [''OK'' @ [CHR 0x0A]] \<and> w_tcp_out w3 = w_tcp_out ?w2"
    by (rule Cons.IH) (use Cons.prems same rcv(4) in simp_all)
  then obtain w3 where w3: "tcp_client_loop lg peer out tmp (pid + 1) c1 ?w2 = (0, w3)"
     "w_fs w3 = (w_fs ?w2)(out \<mapsto> new_file ((acc @ b) @ concat bs), tmp := None)"
     "w_stdout w3 = w_stdout ?w2 @ [''OK'' @ [CHR 0x0A]]" "w_tcp_out w3 = w_tcp_out ?w2" by blast
  have "fr_type (tc_frame c1) = dpkt DEMO_PKT_DATA" using rcv(2) by simp
  then have "tcp_client_loop lg peer out tmp pid c w = (0, w3)"
    using Cons.prems(1) rcv(1) wr w3(1)
    by (simp add: tcp_client_loop.simps [of lg peer out tmp pid c w] Let_def split del: if_split)
  moreover have "w_fs w3 = (w_fs w)(out \<mapsto> new_file (acc @ concat (b # bs)), tmp := None)"
    using w3(2) same Cons.prems(5) by (simp add: fun_upd_twist)
  moreover have "w_stdout w3 = w_stdout w @ [''OK'' @ [CHR 0x0A]] \<and> w_tcp_out w3 = w_tcp_out w"
    using w3(3,4) same by simp
  ultimately show ?case by blast
qed

section \<open>The dialogue about the password\<close>

text \<open>
  The passwords tried until the right one, and what the server answers: it asks
  again until the third try.
\<close>

fun client_tries :: "string \<Rightarrow> string list \<Rightarrow> string list" where
  "client_tries p [] = []"
| "client_tries p (q # qs) = q # (if q = p then [] else client_tries p qs)"

fun server_replies :: "string \<Rightarrow> string list \<Rightarrow> DemoPacketType list" where
  "server_replies p [] = []"
| "server_replies p (q # qs) =
     (if q = p then [DEMO_PKT_PASS_ACCEPT]
      else if qs = [] then [DEMO_PKT_REJECT]
      else DEMO_PKT_PASS_REQ # server_replies p qs)"

definition tries_bytes :: "string \<Rightarrow> string list \<Rightarrow> byte list" where
  "tries_bytes p ps = concat (map (\<lambda>q. frame_bytes (dpkt DEMO_PKT_PASS_RESP) (bytes_of_string q)) (client_tries p ps))"

definition replies_bytes :: "string \<Rightarrow> string list \<Rightarrow> byte list" where
  "replies_bytes p ps = concat (map (\<lambda>t. frame_bytes (dpkt t) []) (server_replies p ps))"

lemma tries_bytes_Cons: "tries_bytes p (q # qs) =
    frame_bytes (dpkt DEMO_PKT_PASS_RESP) (bytes_of_string q) @ (if q = p then [] else tries_bytes p qs)"
  by (simp add: tries_bytes_def)

lemma replies_bytes_Cons: "replies_bytes p (q # qs) =
    (if q = p then frame_bytes (dpkt DEMO_PKT_PASS_ACCEPT) []
     else if qs = [] then frame_bytes (dpkt DEMO_PKT_REJECT) []
     else frame_bytes (dpkt DEMO_PKT_PASS_REQ) [] @ replies_bytes p qs)"
  by (simp add: replies_bytes_def)

lemma frame_is_password_filled:
  "length q \<le> 4096 \<Longrightarrow> frame_is_password (filled fr t (bytes_of_string q)) p \<longleftrightarrow> q = p"
  by (auto simp: frame_is_password_def filled_def unat_small)

lemmas send_empty_server = server_send_exchange [of _ "[]", simplified]
lemmas send_empty_client = client_send_exchange [of _ "[]", simplified]
lemmas recv_empty_client = client_recv_exchange [of _ _ "[]", simplified]

lemma tcp_auth_loop_dialogue:
  "calm w \<Longrightarrow> ps \<noteq> [] \<Longrightarrow> attempt + length ps = 3 \<Longrightarrow> \<forall>q \<in> set ps. length q \<le> 255 \<Longrightarrow>
   tcp_stream w = tries_bytes p ps @ rest \<Longrightarrow>
   \<exists>c1 w1. exchange (tries_bytes p ps) (replies_bytes p ps) w w1 \<and>
     tcp_auth_loop lg peer p attempt False c w =
       (if p \<in> set ps then (Inr True, c1, w1)
        else (Inl 1, c1, demo_finish lg ''ABORT'' ''authentication failed'' w1))"
proof (induction ps arbitrary: attempt c w)
  case (Cons q qs)
  have len: "length (bytes_of_string q) \<le> 4096" using Cons.prems(4) by simp
  from server_recv_exchange [OF Cons.prems(1) _ len, of "dpkt DEMO_PKT_PASS_RESP" _ lg peer "''AUTH''" "''RECV_PASS_RESP''" "-1" c]
    Cons.prems(5) obtain c1 w1 where rcv: "server_recv_frame lg peer ''AUTH'' ''RECV_PASS_RESP'' (-1) c w = (Some c1, w1)"
      "tc_frame c1 = filled (tc_frame c) (dpkt DEMO_PKT_PASS_RESP) (bytes_of_string q)"
      "exchange (frame_bytes (dpkt DEMO_PKT_PASS_RESP) (bytes_of_string q)) [] w w1"
      "tcp_stream w1 = (if q = p then [] else tries_bytes p qs) @ rest"
    by (auto simp: tries_bytes_Cons)
  have calm1: "calm w1" using exchange_calm [OF rcv(3)] by simp
  have pw: "frame_is_password (tc_frame c1) p \<longleftrightarrow> q = p"
    using rcv(2) len by (simp add: frame_is_password_filled)
  have "attempt < 3" using Cons.prems(3) by simp
  note unf = tcp_auth_loop.simps [of lg peer p attempt False c w]
  show ?case
  proof (cases "q = p")
    case True
    from send_empty_server [OF calm1] obtain c2 w2 where
      snd: "server_send_frame lg peer (dpkt DEMO_PKT_PASS_ACCEPT) [] 0 ''AUTH'' ''SEND_PASS_ACCEPT'' (-1) False c1 w1 = (True, c2, w2)"
      "exchange [] (frame_bytes (dpkt DEMO_PKT_PASS_ACCEPT) []) w1 w2" by blast
    moreover have "tcp_auth_loop lg peer p (attempt + 1) True c2 w2 = (Inr True, c2, w2)"
      using exchange_calm [OF snd(2)] by (simp add: tcp_auth_loop.simps [of lg peer p "Suc attempt"])
    ultimately show ?thesis
      using exchange_trans [OF rcv(3) snd(2)] Cons.prems(1) rcv(1,2) pw True \<open>attempt < 3\<close> unf
      by (auto simp: tries_bytes_Cons replies_bytes_Cons)
  next
    case wrong: False
    show ?thesis
    proof (cases "qs = []")
      case True
      from send_empty_server [OF calm1] obtain c2 w2 where
        snd: "server_send_frame lg peer (dpkt DEMO_PKT_REJECT) [] 0 ''AUTH'' ''SEND_REJECT'' (-1) False c1 w1 = (True, c2, w2)"
        "exchange [] (frame_bytes (dpkt DEMO_PKT_REJECT) []) w1 w2" by blast
      moreover have "attempt + 1 \<ge> 3" using Cons.prems(3) True by simp
      ultimately show ?thesis
        using exchange_trans [OF rcv(3) snd(2)] Cons.prems(1) rcv(1,2) pw True wrong \<open>attempt < 3\<close> unf
        by (auto simp: tries_bytes_Cons replies_bytes_Cons tries_bytes_def [of _ "[]"])
    next
      case more: False
      from send_empty_server [OF calm1] obtain c2 w2 where
        snd: "server_send_frame lg peer (dpkt DEMO_PKT_PASS_REQ) [] 0 ''AUTH'' ''SEND_PASS_REQ'' (-1) False c1 w1 = (True, c2, w2)"
        "exchange [] (frame_bytes (dpkt DEMO_PKT_PASS_REQ) []) w1 w2" by blast
      have "tcp_stream w2 = tries_bytes p qs @ rest"
        using exchange_stream [OF snd(2)] rcv(4) wrong by simp
      with Cons.IH [of w2 "attempt + 1" c2] Cons.prems more exchange_calm [OF snd(2)] obtain c3 w3 where
        ih: "exchange (tries_bytes p qs) (replies_bytes p qs) w2 w3"
        "tcp_auth_loop lg peer p (attempt + 1) False c2 w2 =
          (if p \<in> set qs then (Inr True, c3, w3)
           else (Inl 1, c3, demo_finish lg ''ABORT'' ''authentication failed'' w3))" by auto
      have "attempt + 1 < 3" using Cons.prems(3) more by (cases qs) auto
      then have "tcp_auth_loop lg peer p attempt False c w = tcp_auth_loop lg peer p (attempt + 1) False c2 w2"
        using Cons.prems(1) rcv(1,2) pw wrong snd(1) \<open>attempt < 3\<close> unf by simp
      with ih exchange_trans [OF exchange_trans [OF rcv(3) snd(2)] ih(1)] wrong more show ?thesis
        by (auto simp: tries_bytes_Cons replies_bytes_Cons)
    qed
  qed
qed simp

lemma read_password_arg:
  assumes "k < 3" "length P = 3" "length (P ! k) \<le> 255"
  shows "demo_read_password False P (int k) (PROTOCOL_MAX_PASSWORD + 1) w = (Some (P ! k), w)"
  using assms by (simp add: demo_read_password_def protocol_sizes)

lemma tcp_client_auth_dialogue:
  "calm w \<Longrightarrow> ps = drop k P \<Longrightarrow> length P = 3 \<Longrightarrow> k < 3 \<Longrightarrow> \<forall>q \<in> set P. length q \<le> 255 \<Longrightarrow>
   tcp_stream w = frame_bytes (dpkt DEMO_PKT_PASS_REQ) [] @ replies_bytes p ps @ rest \<Longrightarrow>
   \<exists>c1 w1. exchange (frame_bytes (dpkt DEMO_PKT_PASS_REQ) [] @ replies_bytes p ps) (tries_bytes p ps) w w1 \<and>
     tcp_client_auth lg peer False P tmp k sp c w =
       (if p \<in> set ps then (Inr p, c1, w1)
        else (Inl 1, c1, tcp_abort lg tmp ''server rejected authentication'' w1))"
proof (induction ps arbitrary: k sp c w)
  case (Cons q qs)
  have q: "q = P ! k" "qs = drop (k + 1) P" using Cons.prems(2-4) by (simp_all add: Cons_nth_drop_Suc [symmetric])
  have len: "length q \<le> 255" using Cons.prems(3-5) q(1) by simp
  from recv_empty_client [OF Cons.prems(1,6), of lg peer "''AUTH''" "''RECV_AUTH_PACKET''" "-1" c] obtain c1 w1 where
    rcv: "client_recv_frame lg peer ''AUTH'' ''RECV_AUTH_PACKET'' (-1) c w = (Some c1, w1)"
      "tc_frame c1 = filled (tc_frame c) (dpkt DEMO_PKT_PASS_REQ) []"
      "exchange (frame_bytes (dpkt DEMO_PKT_PASS_REQ) []) [] w w1"
      "tcp_stream w1 = replies_bytes p (q # qs) @ rest" by auto
  have calm1: "calm w1" using exchange_calm [OF rcv(3)] by simp
  have pw: "demo_read_password False P (int k) (PROTOCOL_MAX_PASSWORD + 1) w1 = (Some q, w1)"
    using read_password_arg [of k P w1] Cons.prems(3,4) q(1) len by simp
  from client_send_exchange [OF calm1, of "bytes_of_string q" lg peer "dpkt DEMO_PKT_PASS_RESP" "''AUTH''" "''SEND_PASS_RESP''" "-1" c1]
    len obtain c2 w2 where
    snd: "client_send_frame lg peer (dpkt DEMO_PKT_PASS_RESP) (bytes_of_string q) (word_of_nat (length q)) ''AUTH''
      ''SEND_PASS_RESP'' (-1) c1 w1 = (True, c2, w2)"
      "exchange [] (frame_bytes (dpkt DEMO_PKT_PASS_RESP) (bytes_of_string q)) w1 w2" by auto
  have stream2: "tcp_stream w2 = replies_bytes p (q # qs) @ rest"
    using exchange_stream [OF snd(2)] rcv(4) by simp
  have calm2: "calm w2" using exchange_calm [OF snd(2)] by simp
  have sess: "snprintf_s (PROTOCOL_MAX_PASSWORD + 1) q = q" using len by (simp add: protocol_sizes)
  have round: "tcp_client_auth lg peer False P tmp k sp c w = tcp_client_auth lg peer False P tmp (k + 1) q c2 w2"
    using Cons.prems(1) rcv(1,2) pw snd(1) sess by (simp add: tcp_client_auth.simps [of lg peer False P tmp k sp c w])
  note sofar = exchange_trans [OF rcv(3) snd(2)]
  have last: "\<exists>c3 w3. exchange (frame_bytes (dpkt DEMO_PKT_PASS_REQ) [] @ frame_bytes (dpkt t) [])
        (frame_bytes (dpkt DEMO_PKT_PASS_RESP) (bytes_of_string q)) w w3 \<and>
      tcp_client_auth lg peer False P tmp k sp c w =
       (if t = DEMO_PKT_PASS_ACCEPT then (Inr q, c3, w3)
        else (Inl 1, c3, tcp_abort lg tmp ''server rejected authentication'' w3))"
    if t: "tcp_stream w2 = frame_bytes (dpkt t) [] @ rest" "t = DEMO_PKT_PASS_ACCEPT \<or> t = DEMO_PKT_REJECT" for t
  proof -
    from recv_empty_client [OF calm2 t(1), of lg peer "''AUTH''" "''RECV_AUTH_PACKET''" "-1" c2] obtain c3 w3 where
      rcv3: "client_recv_frame lg peer ''AUTH'' ''RECV_AUTH_PACKET'' (-1) c2 w2 = (Some c3, w3)"
        "tc_frame c3 = filled (tc_frame c2) (dpkt t) []" "exchange (frame_bytes (dpkt t) []) [] w2 w3" by auto
    have "tcp_client_auth lg peer False P tmp (k + 1) q c2 w2 =
       (if t = DEMO_PKT_PASS_ACCEPT then (Inr q, c3, w3)
        else (Inl 1, c3, tcp_abort lg tmp ''server rejected authentication'' w3))"
      using calm2 rcv3(1,2) t(2) by (auto simp: tcp_client_auth.simps [of lg peer False P tmp "Suc k" q c2 w2])
    with exchange_trans [OF sofar rcv3(3)] round show ?thesis by auto
  qed
  show ?case
  proof (cases "q = p \<or> qs = []")
    case True
    let ?t = "if q = p then DEMO_PKT_PASS_ACCEPT else DEMO_PKT_REJECT"
    have "tcp_stream w2 = frame_bytes (dpkt ?t) [] @ rest" using stream2 True by (auto simp: replies_bytes_Cons)
    from last [OF this] True show ?thesis
      by (auto simp: tries_bytes_Cons replies_bytes_Cons tries_bytes_def [of _ "[]"])
  next
    case more: False
    then have "k + 1 < 3" using q(2) Cons.prems(3) by (cases "k + 1 < 3") auto
    with Cons.IH [OF calm2 q(2) Cons.prems(3), of q c2] Cons.prems(5) stream2 more obtain c3 w3 where
      ih: "exchange (frame_bytes (dpkt DEMO_PKT_PASS_REQ) [] @ replies_bytes p qs) (tries_bytes p qs) w2 w3"
      "tcp_client_auth lg peer False P tmp (k + 1) q c2 w2 =
        (if p \<in> set qs then (Inr p, c3, w3)
         else (Inl 1, c3, tcp_abort lg tmp ''server rejected authentication'' w3))"
      by (auto simp: replies_bytes_Cons)
    with exchange_trans [OF sofar ih(1)] round more show ?thesis
      by (auto simp: tries_bytes_Cons replies_bytes_Cons)
  qed
qed simp

lemma client_recv_payload:
  "client_recv_frame lg peer st ev pid c w = (Some c1, w1) \<Longrightarrow> length (fr_payload (tc_frame c)) = 4096 \<Longrightarrow>
   length (fr_payload (tc_frame c1)) = 4096"
  by (drule client_recv_some) auto

lemma client_send_payload:
  "client_send_frame lg peer t d n st ev pid c w = (ok, c1, w1) \<Longrightarrow> tc_frame c1 = tc_frame c"
  by (auto simp: client_send_frame_def split: prod.splits if_splits)

lemma tcp_client_auth_payload:
  "tcp_client_auth lg peer i ps tmp k sp c w = (r, c1, w1) \<Longrightarrow> length (fr_payload (tc_frame c)) = 4096 \<Longrightarrow>
   length (fr_payload (tc_frame c1)) = 4096"
proof (induction lg peer i ps tmp k sp c w arbitrary: r c1 w1 rule: tcp_client_auth.induct)
  case (1 lg peer i ps tmp k sp c w)
  note unf = tcp_client_auth.simps [of lg peer i ps tmp k sp c w]
  obtain stop w0 where rs: "read_stop w = (stop, w0)" by fastforce
  obtain f wa where rcv: "client_recv_frame lg peer ''AUTH'' ''RECV_AUTH_PACKET'' (-1) c w0 = (f, wa)" by fastforce
  show ?case
  proof (cases "stop \<or> f = None")
    case True
    with "1.prems" unf rs rcv show ?thesis by (auto split: if_splits)
  next
    case False
    then obtain c2 where f: "f = Some c2" and go: "\<not> stop" by auto
    have c2: "length (fr_payload (tc_frame c2)) = 4096" using client_recv_payload [OF rcv [unfolded f] "1.prems"(2)] .
    let ?type = "fr_type (tc_frame c2)"
    show ?thesis
    proof (cases "?type = dpkt DEMO_PKT_PASS_REQ")
      case asked: True
      obtain pw wb where pw: "demo_read_password i ps (int k) (PROTOCOL_MAX_PASSWORD + 1) wa = (pw, wb)" by fastforce
      show ?thesis
      proof (cases pw)
        case None
        with "1.prems" unf rs rcv f go asked pw c2 show ?thesis by auto
      next
        case (Some q)
        obtain ok c3 wc where snd: "client_send_frame lg peer (dpkt DEMO_PKT_PASS_RESP) (bytes_of_string q)
            (word_of_nat (length q)) ''AUTH'' ''SEND_PASS_RESP'' (-1) c2 wb = (ok, c3, wc)" using prod_cases3 by blast
        have c3: "length (fr_payload (tc_frame c3)) = 4096" using client_send_payload [OF snd] c2 by simp
        show ?thesis
        proof (cases ok)
          case False
          with "1.prems" unf rs rcv f go asked pw Some snd c3 show ?thesis by auto
        next
          case True
          with "1.prems"(1) unf rs rcv f go asked pw Some snd have
            "tcp_client_auth lg peer i ps tmp (k + 1) (snprintf_s (PROTOCOL_MAX_PASSWORD + 1) q) c3 wc = (r, c1, w1)" by simp
          from "1.IH"(1) [OF rs [symmetric] go rcv [symmetric] f asked pw [symmetric] Some snd [symmetric] refl _ this c3] True
          show ?thesis by simp
        qed
      qed
    next
      case other: False
      show ?thesis
      proof (cases "?type = dpkt DEMO_PKT_PASS_ACCEPT \<or> ?type = dpkt DEMO_PKT_REJECT")
        case True
        with "1.prems" unf rs rcv f go other c2 show ?thesis by auto
      next
        case False
        with "1.prems"(1) unf rs rcv f go other have
          "tcp_client_auth lg peer i ps tmp k sp c2 wa = (r, c1, w1)" by simp
        from "1.IH"(2) [OF rs [symmetric] go rcv [symmetric] f other _ _ this c2] False show ?thesis by simp
      qed
    qed
  qed
qed

section \<open>The two sessions up to the transfer\<close>

abbreviation join_frame :: "byte list" where
  "join_frame \<equiv> frame_bytes (dpkt DEMO_PKT_JOIN_REQ) []"

abbreviation ask_frame :: "byte list" where
  "ask_frame \<equiv> frame_bytes (dpkt DEMO_PKT_PASS_REQ) []"

abbreviation digest_frame :: "byte list \<Rightarrow> byte list" where
  "digest_frame data \<equiv> frame_bytes (dpkt DEMO_PKT_TERMINATE) (sha1_digest data)"

lemma tcp_server_dialogue:
  assumes "calm w" "length ps = 3" "\<forall>q \<in> set ps. length q \<le> 255"
    and "tcp_stream w = join_frame @ tries_bytes p ps @ rest"
  shows "\<exists>w1. exchange (join_frame @ tries_bytes p ps) (ask_frame @ replies_bytes p ps) w w1 \<and>
    tcp_server_session lg peer p input dg junk junk2 w =
      (if p \<in> set ps then tcp_server_transfer lg peer p input dg junk2 w1
       else (1, demo_finish lg ''ABORT'' ''authentication failed'' w1))"
proof -
  from server_recv_exchange [OF assms(1,4), of lg peer "''WAIT_JOIN_REQ''" "''RECV_JOIN_REQ''" "-1" "new_conn junk"]
  obtain c1 w1 where rcv: "server_recv_frame lg peer ''WAIT_JOIN_REQ'' ''RECV_JOIN_REQ'' (-1) (new_conn junk) w = (Some c1, w1)"
    "tc_frame c1 = filled (tc_frame (new_conn junk)) (dpkt DEMO_PKT_JOIN_REQ) []"
    "exchange join_frame [] w w1" "tcp_stream w1 = tries_bytes p ps @ rest" by auto
  have calm1: "calm w1" using exchange_calm [OF rcv(3)] by simp
  from send_empty_server [OF calm1] obtain c2 w2 where
    snd: "server_send_frame lg peer (dpkt DEMO_PKT_PASS_REQ) [] 0 ''AUTH'' ''SEND_PASS_REQ'' (-1) False c1 w1 = (True, c2, w2)"
    "exchange [] ask_frame w1 w2" by blast
  have "calm w2" "tcp_stream w2 = tries_bytes p ps @ rest"
    using exchange_calm [OF snd(2)] exchange_stream [OF snd(2)] rcv(4) by simp_all
  moreover have "ps \<noteq> []" using assms(2) by auto
  ultimately obtain c3 w3 where
    auth: "exchange (tries_bytes p ps) (replies_bytes p ps) w2 w3" "tcp_auth_loop lg peer p 0 False c2 w2 =
       (if p \<in> set ps then (Inr True, c3, w3)
        else (Inl 1, c3, demo_finish lg ''ABORT'' ''authentication failed'' w3))"
    using tcp_auth_loop_dialogue [of w2 ps 0 p rest lg peer c2] assms(2,3) by auto
  have "tcp_server_session lg peer p input dg junk junk2 w =
      (if p \<in> set ps then tcp_server_transfer lg peer p input dg junk2 w3
       else (1, demo_finish lg ''ABORT'' ''authentication failed'' w3))"
    using rcv(1,2) snd(1) auth(2) by (simp add: tcp_server_session_def)
  with exchange_trans [OF exchange_trans [OF rcv(3) snd(2)] auth(1)] show ?thesis by auto
qed

lemma tcp_client_dialogue:
  assumes "calm w" "length ps = 3" "\<forall>q \<in> set ps. length q \<le> 255"
    and "tcp_stream w = ask_frame @ replies_bytes p ps @ rest"
  shows "\<exists>c1 w1. exchange (ask_frame @ replies_bytes p ps) (join_frame @ tries_bytes p ps) w w1 \<and>
    (length (fr_payload junk) = 4096 \<longrightarrow> length (fr_payload (tc_frame c1)) = 4096) \<and>
    tcp_client_session lg peer False ps out tmp junk w =
      (if p \<notin> set ps then (1, tcp_abort lg tmp ''server rejected authentication'' w1)
       else if getenv_or w ''UDP_SECURE_PROTOCOL'' ''tcp-basic'' = ''tls-like''
       then tls_client_transfer lg peer p out tmp c1 w1
       else tcp_client_loop lg peer out tmp 0 c1 w1)"
proof -
  from send_empty_client [OF assms(1)] obtain c1 w1 where
    snd: "client_send_frame lg peer (dpkt DEMO_PKT_JOIN_REQ) [] 0 ''WAIT_PASS_REQ'' ''SEND_JOIN_REQ'' (-1) (new_conn junk) w = (True, c1, w1)"
    "exchange [] join_frame w w1" by blast
  have "calm w1" "tcp_stream w1 = ask_frame @ replies_bytes p ps @ rest"
    using exchange_calm [OF snd(2)] exchange_stream [OF snd(2)] assms(4) by simp_all
  from tcp_client_auth_dialogue [OF this(1) _ assms(2) _ assms(3) this(2), of 0 lg peer tmp "''secret''" c1] obtain c2 w2 where
    auth: "exchange (ask_frame @ replies_bytes p ps) (tries_bytes p ps) w1 w2"
      "tcp_client_auth lg peer False ps tmp 0 ''secret'' c1 w1 =
       (if p \<in> set ps then (Inr p, c2, w2)
        else (Inl 1, c2, tcp_abort lg tmp ''server rejected authentication'' w2))" by auto
  have env: "getenv_or w2 x y = getenv_or w x y" for x y
    using exchange_same(2) [OF auth(1)] exchange_same(2) [OF snd(2)] by (simp add: getenv_or_def getenv_def)
  have "tcp_client_session lg peer False ps out tmp junk w =
      (if p \<notin> set ps then (1, tcp_abort lg tmp ''server rejected authentication'' w2)
       else if getenv_or w ''UDP_SECURE_PROTOCOL'' ''tcp-basic'' = ''tls-like''
       then tls_client_transfer lg peer p out tmp c2 w2
       else tcp_client_loop lg peer out tmp 0 c2 w2)"
    unfolding tcp_client_session_def snd(1) by (simp add: auth(2) env)
  moreover have "length (fr_payload junk) = 4096 \<longrightarrow> length (fr_payload (tc_frame c2)) = 4096"
    using client_send_payload [OF snd(1)] tcp_client_auth_payload [of lg peer False ps tmp 0 "''secret''" c1 w1] auth(2)
    by (auto simp: new_conn_def split: if_splits)
  ultimately show ?thesis using exchange_trans [OF snd(2) auth(1)] by (intro exI [of _ c2] exI [of _ w2]) simp
qed

section \<open>The plain transfer, end to end\<close>

text \<open>
  C15. A download over TCP (\<open>tcp-basic\<close>): when no call fails and one of the three
  passwords is right, each program sends exactly the bytes the other one reads, however
  the connection cuts them; both end with status 0 and \<open>OK\<close>, and the client's output
  file is the server's input file, of any length, the partial file being gone.
\<close>

theorem tcp_basic_download:
  assumes "calm ws" "calm wc" "w_writefault wc = []" "w_renamefault wc = []"
    and "getenv_or ws ''UDP_SECURE_PROTOCOL'' ''tcp-basic'' \<noteq> ''tls-like''"
    and "getenv_or wc ''UDP_SECURE_PROTOCOL'' ''tcp-basic'' \<noteq> ''tls-like''"
    and "getenv_or ws ''UDP_SECURE_SCENARIO'' [] \<noteq> ''connection-close-mid-transfer''"
    and "p \<in> set ps" "length ps = 3" "\<forall>q \<in> set ps. length q \<le> 255"
    and "w_fs ws input = Some f" "w_fs wc tmp = Some (new_file [])" "tmp \<noteq> out"
    and "tcp_stream ws = join_frame @ tries_bytes p ps"
    and "tcp_stream wc = ask_frame @ replies_bytes p ps @ data_frames (chunks 1000 (f_data f)) @ digest_frame (f_data f)"
  shows "\<exists>ws1 wc1.
    tcp_server_session lgs peers p input (sha1_digest (f_data f)) junk junk2 ws = (0, ws1) \<and>
    tcp_client_session lgc peerc False ps out tmp junkc wc = (0, wc1) \<and>
    w_tcp_out ws1 = w_tcp_out ws @ tcp_stream wc \<and> w_tcp_out wc1 = w_tcp_out wc @ tcp_stream ws \<and>
    w_stdout ws1 = w_stdout ws @ [''OK'' @ [CHR 0x0A]] \<and> w_stdout wc1 = w_stdout wc @ [''OK'' @ [CHR 0x0A]] \<and>
    w_fs wc1 = (w_fs wc)(out \<mapsto> new_file (f_data f), tmp := None)"
proof -
  let ?d = "f_data f"
  from tcp_server_dialogue [OF assms(1,9,10), of p "[]" lgs peers input "sha1_digest ?d" junk junk2] assms(8,14) obtain ws0 where
    s0: "exchange (join_frame @ tries_bytes p ps) (ask_frame @ replies_bytes p ps) ws ws0"
      "tcp_server_session lgs peers p input (sha1_digest ?d) junk junk2 ws
        = tcp_server_transfer lgs peers p input (sha1_digest ?d) junk2 ws0" by auto
  note same = exchange_same [OF s0(1)] exchange_calm [OF s0(1)]
  have env: "getenv_or ws0 x y = getenv_or ws x y" for x y using same(2) by (simp add: getenv_or_def getenv_def)
  from run_tcp_basic_sends [of ws0 input f "sha1_digest ?d" lgs peers "env_flag ws0 ''UDP_SECURE_STREAM_FRAGMENTATION''" junk2]
    same assms(11) obtain ws1 where
    s1: "run_tcp_basic lgs peers input (sha1_digest ?d) False (env_flag ws0 ''UDP_SECURE_STREAM_FRAGMENTATION'') junk2 ws0
        = (0, demo_finish lgs ''OK'' ''tcp-basic transfer completed'' ws1)"
      "exchange [] (data_frames (chunks 1000 ?d) @ digest_frame ?d) ws0 ws1" by auto
  have server: "tcp_server_session lgs peers p input (sha1_digest ?d) junk junk2 ws
      = (0, demo_finish lgs ''OK'' ''tcp-basic transfer completed'' ws1)"
    using s0(2) s1(1) assms(5,7) by (simp add: tcp_server_transfer_def env)
  from tcp_client_dialogue [OF assms(2,9,10), of p "data_frames (chunks 1000 ?d) @ digest_frame ?d" junkc lgc peerc out tmp]
    assms(6,8,15) obtain c0 wc0 where
    c0: "exchange (ask_frame @ replies_bytes p ps) (join_frame @ tries_bytes p ps) wc wc0"
      "tcp_client_session lgc peerc False ps out tmp junkc wc = tcp_client_loop lgc peerc out tmp 0 c0 wc0" by auto
  note samec = exchange_same [OF c0(1)] exchange_calm [OF c0(1)]
  have rest: "tcp_stream wc0 = data_frames (chunks 1000 ?d) @ digest_frame ?d @ []"
    using exchange_stream [OF c0(1)] assms(15) by simp
  have le: "\<forall>b \<in> set (chunks 1000 ?d). length b \<le> 4096" using chunks_bounds by fastforce
  have "\<exists>w1. tcp_client_loop lgc peerc out tmp 0 c0 wc0 = (0, w1) \<and>
     w_fs w1 = (w_fs wc0)(out \<mapsto> new_file ([] @ concat (chunks 1000 ?d)), tmp := None) \<and>
     w_stdout w1 = w_stdout wc0 @ [''OK'' @ [CHR 0x0A]] \<and> w_tcp_out w1 = w_tcp_out wc0"
    by (rule tcp_client_loop_receives [OF _ _ _ _ assms(13) le _ rest]) (use samec assms(3,4,12) in simp_all)
  then obtain wc1 where client: "tcp_client_loop lgc peerc out tmp 0 c0 wc0 = (0, wc1)"
     "w_fs wc1 = (w_fs wc0)(out \<mapsto> new_file ([] @ concat (chunks 1000 ?d)), tmp := None)"
     "w_stdout wc1 = w_stdout wc0 @ [''OK'' @ [CHR 0x0A]]" "w_tcp_out wc1 = w_tcp_out wc0" by blast
  have "w_fs wc1 = (w_fs wc)(out \<mapsto> new_file ?d, tmp := None)" using client(2) samec(1) by simp
  with server c0(2) client(1,3,4) exchange_same [OF s1(2)] same samec assms(14,15) show ?thesis
    by (simp add: demo_finish_same)
qed

text \<open>
  A run with a file of three bytes, the second password right, every byte arriving on
  its own, and the server's sends taken ten bytes at a time.
\<close>

definition download_server :: world where
  "download_server = quiet_world\<lparr>w_fs := [''in'' \<mapsto> new_file [1, 2, 3]], w_tcp_cap := replicate 20 9,
     w_tcp_in := byte_by_byte (join_frame @ tries_bytes ''b'' [''a'', ''b'', ''c''])\<rparr>"

definition download_client :: world where
  "download_client = quiet_world\<lparr>w_fs := [''out.part'' \<mapsto> new_file []],
     w_tcp_in := byte_by_byte (ask_frame @ replies_bytes ''b'' [''a'', ''b'', ''c''] @
       data_frames (chunks 1000 [1, 2, 3]) @ digest_frame [1, 2, 3])\<rparr>"

lemmas quiet_tcp = quiet_parts calm_def flowing_def tcp_stream_def getenv_or_def getenv_def

theorem tcp_basic_download_witness:
  "\<exists>ws1 wc1.
    tcp_server_session closed_logger [] ''b'' ''in'' (sha1_digest [1, 2, 3]) junk0 junk0 download_server = (0, ws1) \<and>
    tcp_client_session closed_logger [] False [''a'', ''b'', ''c''] ''out'' ''out.part'' junk0 download_client = (0, wc1) \<and>
    w_tcp_out ws1 = tcp_stream download_client \<and> w_tcp_out wc1 = tcp_stream download_server \<and>
    w_stdout ws1 = [''OK'' @ [CHR 0x0A]] \<and> w_stdout wc1 = [''OK'' @ [CHR 0x0A]] \<and>
    w_fs wc1 = [''out'' \<mapsto> new_file [1, 2, 3]]"
proof -
  have cut: "[''out.part'' \<mapsto> new_file []](''out'' \<mapsto> new_file [1, 2, 3], ''out.part'' := None)
      = [''out'' \<mapsto> new_file [1, 2, 3 :: byte]]" by (simp add: fun_eq_iff)
  show ?thesis
    using tcp_basic_download [of download_server download_client "''b''" "[''a'', ''b'', ''c'']" "''in''"
        "new_file [1, 2, 3]" "''out.part''" "''out''" closed_logger "[]" junk0 junk0 closed_logger "[]" junk0]
    by (simp add: download_server_def download_client_def quiet_tcp cut) (simp add: new_file_def)
qed

end
