(* ===== verification/TcpTls.thy ===== *)
theory TcpTls
  imports TcpTransfer
begin

text \<open>
  The encrypted transfer over TCP (\<open>tls-like\<close>): what a payload of the server is, which
  payloads the client accepts, what a run of the client can have written, and the
  transfer end to end.
\<close>

section \<open>Sequence numbers\<close>

lemma length_seq_bytes [simp]: "length (seq_bytes s) = 4"
  by (simp add: seq_bytes_def)

lemma seq_of_seq_bytes [simp]: "seq_of (seq_bytes s @ d) = s"
proof -
  have m: "(0xff :: u32) = mask 8" by (simp add: mask_numeral)
  have "push_bit 24 (ucast (ucast (drop_bit 24 s AND 0xff) :: byte)) OR
      push_bit 16 (ucast (ucast (drop_bit 16 s AND 0xff) :: byte)) OR
      push_bit 8 (ucast (ucast (drop_bit 8 s AND 0xff) :: byte)) OR ucast (ucast (s AND 0xff) :: byte) = s"
    unfolding m
  proof (rule bit_word_eqI)
    fix n assume "n < LENGTH(32)"
    then consider "n < 8" | "8 \<le> n" "n < 16" | "16 \<le> n" "n < 24" | "24 \<le> n" "n < 32" by fastforce
    then show "bit (push_bit 24 (ucast (ucast (drop_bit 24 s AND mask 8) :: byte)) OR
      push_bit 16 (ucast (ucast (drop_bit 16 s AND mask 8) :: byte)) OR
      push_bit 8 (ucast (ucast (drop_bit 8 s AND mask 8) :: byte)) OR ucast (ucast (s AND mask 8) :: byte) :: u32) n = bit s n"
      by cases (auto simp: bit_simps)
  qed
  then show ?thesis by (simp add: seq_of_def seq_bytes_def)
qed

lemma seq_bytes_seq_of: "length d = 4 \<Longrightarrow> seq_bytes (seq_of d) = d"
proof -
  assume "length d = 4"
  then obtain a b c e where d: "d = [a, b, c, e]"
    by (auto simp: eval_nat_numeral length_Suc_conv)
  have m: "(0xff :: u32) = mask 8" by (simp add: mask_numeral)
  show ?thesis unfolding d seq_bytes_def seq_of_def m
    by (auto intro!: bit_word_eqI simp: bit_simps)
qed

section \<open>A payload\<close>

definition app_payload :: "byte list \<Rightarrow> u32 \<Rightarrow> byte list \<Rightarrow> byte list" where
  "app_payload key seq plain =
     (let cipher = demo_xor_crypt plain key
      in seq_bytes seq @ demo_hmac_sha1 key (seq_bytes seq @ cipher) @ cipher)"

lemma length_app_payload [simp]: "length (app_payload key seq plain) = 24 + length plain"
  by (simp add: app_payload_def Let_def)

lemma app_payload_parts:
  "seq_of (app_payload key seq plain) = seq"
  "take 20 (drop 4 (app_payload key seq plain)) = demo_hmac_sha1 key (seq_bytes seq @ demo_xor_crypt plain key)"
  "drop 24 (app_payload key seq plain) = demo_xor_crypt plain key"
  by (simp_all add: app_payload_def Let_def)

lemma app_payload_inject:
  "app_payload key seq plain = app_payload key seq' plain' \<longleftrightarrow> seq = seq' \<and> plain = plain'"
  by (metis app_payload_parts(1,3) demo_xor_crypt_inverse)

lemma tls_payload_calm:
  assumes "calm w" "length plain \<le> 4072"
  shows "tls_payload_app_data seq plain key False w = (Some (app_payload key seq plain), w)"
proof -
  have "unat (word_of_nat (length plain) + 4 + 20 :: u32) = length plain + 24"
    using assms(2) by (simp add: unat_word_ariths unat_small)
  with assms show ?thesis
    by (simp add: tls_payload_app_data_def tls_app_mac_def calm_malloc app_payload_def demo_sizes Let_def)
qed

section \<open>Which payloads the client accepts\<close>

lemma verify_parts:
  assumes "24 \<le> length d" "length d \<le> 4096" "unat (fr_length fr) = length d" "take (length d) (fr_payload fr) = d"
  shows "seq_of (fr_payload fr) = seq_of d" "take 20 (drop 4 (fr_payload fr)) = take 20 (drop 4 d)"
    "take (unat (fr_length fr - 24)) (drop 24 (fr_payload fr)) = drop 24 d"
    "unat (fr_length fr - 24) = length d - 24" "\<not> fr_length fr < 24"
proof -
  let ?p = "fr_payload fr"
  have nth: "?p ! i = d ! i" if "i < 24" for i
    using that assms(1,4) by (metis nth_take order_less_le_trans)
  then show "seq_of ?p = seq_of d" by (simp add: seq_of_def)
  have "take 24 ?p = take 24 d" using assms(1,4) by (metis min.absorb1 take_take)
  then have "drop 4 (take 24 ?p) = drop 4 (take 24 d)" by simp
  then show "take 20 (drop 4 ?p) = take 20 (drop 4 d)" by (simp add: drop_take)
  show n: "unat (fr_length fr - 24) = length d - 24" and "\<not> fr_length fr < 24"
    using assms(1,3) by (simp_all add: unat_sub word_le_nat_alt word_less_nat_alt unat_word_ariths)
  show "take (unat (fr_length fr - 24)) (drop 24 ?p) = drop 24 d"
    unfolding n using arg_cong [OF assms(4), of "drop 24"] by (simp add: drop_take)
qed

text \<open>
  The acceptance test in terms of the payload alone: long enough, a fresh number, and
  the authentication code of the number and the cipher text.
\<close>

definition app_fresh :: "byte list \<Rightarrow> u32 \<Rightarrow> byte list \<Rightarrow> bool" where
  "app_fresh key seen d \<longleftrightarrow> 24 \<le> length d \<and> seen < seq_of d \<and>
     take 20 (drop 4 d) = demo_hmac_sha1 key (seq_bytes (seq_of d) @ drop 24 d)"

lemma app_fresh_iff: "app_fresh key seen d \<longleftrightarrow> (\<exists>seq plain. seen < seq \<and> d = app_payload key seq plain)"
proof
  assume f: "app_fresh key seen d"
  let ?s = "seq_of d" and ?c = "drop 24 d"
  have split: "d = take 4 d @ take 20 (drop 4 d) @ drop 24 d"
    using append_take_drop_id [of 20 "drop 4 d"] append_take_drop_id [of 4 d] by simp
  have "length (take 4 d) = 4" using f by (simp add: app_fresh_def)
  moreover have "seq_of (take 4 d) = ?s" using f by (simp add: seq_of_def app_fresh_def)
  ultimately have "take 4 d = seq_bytes ?s" using seq_bytes_seq_of by metis
  with split f have "d = app_payload key ?s (demo_xor_crypt ?c key)"
    by (simp add: app_payload_def Let_def demo_xor_crypt_inverse app_fresh_def)
  with f show "\<exists>seq plain. seen < seq \<and> d = app_payload key seq plain"
    by (auto simp: app_fresh_def)
qed (auto simp: app_fresh_def app_payload_parts)

lemma fwrite_rest:
  "fwrite_all p d w = (ok, w1) \<Longrightarrow> w_allocfault w1 = w_allocfault w \<and> w_tcp_in w1 = w_tcp_in w"
  by (auto simp: fwrite_all_def Let_def split: prod.splits if_splits)

lemma verify_step:
  assumes "w_allocfault w = []" "w_fs w tmp = Some (new_file acc)" "length (fr_payload fr) = 4096"
    and "unat (fr_length fr) \<le> 4096" "verify_tls_app_data lg peer fr key tmp seen w = (ok, fr1, seen1, w1)"
  shows "w_allocfault w1 = [] \<and>
    (if ok then \<exists>plain. seen < seen1 \<and> frame_data fr = app_payload key seen1 plain \<and>
        w_fs w1 = (w_fs w)(tmp \<mapsto> new_file (acc @ plain)) \<and> length (fr_payload fr1) = 4096
     else w_fs w1 = w_fs w \<and> seen1 = seen \<and> (w_writefault w = [] \<longrightarrow> \<not> app_fresh key seen (frame_data fr)))"
proof -
  let ?d = "frame_data fr" and ?p = "fr_payload fr"
  have len: "length ?d = unat (fr_length fr)" using assms(3,4) by (simp add: frame_data_def)
  have malloc: "malloc_ok w = (True, w)" using assms(1) by (simp add: malloc_ok_def)
  show ?thesis
  proof (cases "24 \<le> length ?d")
    case False
    then have "fr_length fr < 24" using len by (simp add: word_less_nat_alt)
    with assms(1,5) False show ?thesis by (auto simp: verify_tls_app_data_def app_fresh_def)
  next
    case True
    note parts = verify_parts [OF True _ len [symmetric], unfolded len, OF assms(4)]
    have take_d: "take (unat (fr_length fr)) ?p = ?d" by (simp add: frame_data_def)
    note parts = parts [OF take_d]
    let ?mac = "demo_hmac_sha1 key (seq_bytes (seq_of ?d) @ drop 24 ?d)"
    let ?plain = "demo_xor_crypt (drop 24 ?d) key"
    let ?fr1 = "fr\<lparr>fr_payload := take 24 ?p @ ?plain @ drop (24 + (length ?d - 24)) ?p\<rparr>"
    have body: "client_tls_app_mac (seq_of ?d) (drop 24 ?d) key w = (?mac, w)"
      by (simp add: client_tls_app_mac_eq tls_app_mac_def malloc)
    show ?thesis
    proof (cases "app_fresh key seen ?d")
      case False
      have "\<exists>e. verify_tls_app_data lg peer fr key tmp seen w = (False, fr, seen, logger_write lg e w)"
      proof (cases "seq_of ?d \<le> seen")
        case le: True
        with parts body show ?thesis by (simp add: verify_tls_app_data_def Let_def) blast
      next
        case gt: False
        then have "take 20 (drop 4 ?p) \<noteq> ?mac" using False True parts by (simp add: app_fresh_def)
        with parts(1,3-5) body gt show ?thesis by (simp add: verify_tls_app_data_def Let_def) blast
      qed
      with assms(5) obtain e where "(ok, fr1, seen1, w1) = (False, fr, seen, logger_write lg e w)" by auto
      with False assms(1) show ?thesis by (auto simp: logger_write_def Let_def)
    next
      case fresh: True
      obtain plain where plain: "?d = app_payload key (seq_of ?d) plain"
        using fresh unfolding app_fresh_iff by (metis app_payload_parts(1))
      then have dec: "?plain = plain" by (metis app_payload_parts(3) demo_xor_crypt_inverse)
      obtain wok w2 where wr: "(if length ?d - 24 > 0 then fwrite_all tmp ?plain w else (True, w)) = (wok, w2)" by fastforce
      have res: "(ok, fr1, seen1, w1) = (if wok then (True, ?fr1, seq_of ?d, w2) else (False, ?fr1, seen, w2))"
      proof -
        have "\<not> seq_of ?d \<le> seen" "take 20 (drop 4 ?p) = ?mac"
          using fresh parts(2) by (simp_all add: app_fresh_def not_le)
        with parts(1,3-5) body have "verify_tls_app_data lg peer fr key tmp seen w =
            (case (if length ?d - 24 > 0 then fwrite_all tmp ?plain w else (True, w)) of (wok, w2) \<Rightarrow>
               if wok then (True, ?fr1, seq_of ?d, w2) else (False, ?fr1, seen, w2))"
          by (simp add: verify_tls_app_data_def Let_def len split: prod.split)
        with assms(5) show ?thesis unfolding wr by simp
      qed
      have fs: "w_allocfault w2 = [] \<and> (if wok then w_fs w2 = (w_fs w)(tmp \<mapsto> new_file (acc @ plain))
          else w_fs w2 = w_fs w \<and> w_writefault w \<noteq> [])"
      proof (cases "length ?d - 24 > 0")
        case True
        with wr assms(1,2) dec show ?thesis
          by (auto simp: fwrite_all_def file_data_def new_file_def Let_def split: prod.splits if_splits)
      next
        case False
        moreover have "length ?d = 24 + length plain" using plain by (metis length_app_payload)
        ultimately have "plain = []" by simp
        with wr False assms(1,2) show ?thesis by (auto simp: fun_upd_idem)
      qed
      have l1: "length (fr_payload ?fr1) = 4096" using True len assms(3,4) by simp
      have seen: "seen < seq_of ?d" using fresh by (simp add: app_fresh_def)
      show ?thesis
      proof (cases wok)
        case True
        with res have r: "ok" "fr1 = ?fr1" "seen1 = seq_of ?d" "w1 = w2" by simp_all
        show ?thesis unfolding r using fs True seen plain l1 r(1) by auto
      next
        case False
        with res fs show ?thesis by auto
      qed
    qed
  qed
qed

section \<open>What a run of the client can have written\<close>

definition app_frame :: "byte list \<Rightarrow> u32 \<times> byte list \<Rightarrow> byte list" where
  "app_frame key a = frame_bytes (dpkt DEMO_PKT_APP_DATA) (app_payload key (fst a) (snd a))"

lemma read_stop_rest:
  "read_stop w = (stop, w0) \<Longrightarrow> w_fs w0 = w_fs w \<and> w_allocfault w0 = w_allocfault w \<and> tcp_stream w0 = tcp_stream w"
  by (auto simp: read_stop_def tcp_stream_def split: option.splits nat.splits)

text \<open>What the loop has written: fresh, increasing, authenticated payloads, in the order read.\<close>

definition authentic_run :: "byte list \<Rightarrow> string \<Rightarrow> u32 \<Rightarrow> byte list \<Rightarrow> world \<Rightarrow> world \<Rightarrow> (u32 \<times> byte list) list \<Rightarrow> bool" where
  "authentic_run key tmp seen acc w w1 apps \<longleftrightarrow>
     sorted_wrt (<) (seen # map fst apps) \<and>
     w_fs w1 = (w_fs w)(tmp \<mapsto> new_file (acc @ concat (map snd apps))) \<and>
     (\<exists>rest. tcp_stream w = concat (map (app_frame key) apps) @ rest)"

lemma authentic_run_Nil:
  "w_fs w tmp = Some (new_file acc) \<Longrightarrow> w_fs w1 = w_fs w \<Longrightarrow> authentic_run key tmp seen acc w w1 []"
  by (simp add: authentic_run_def fun_upd_idem)

lemma authentic_run_Cons:
  assumes "authentic_run key tmp s (acc @ plain) w w1 apps" "seen < s"
    and "tcp_stream w0 = app_frame key (s, plain) @ tcp_stream w" "w_fs w = (w_fs w0)(tmp \<mapsto> d)"
  shows "authentic_run key tmp seen acc w0 w1 ((s, plain) # apps)"
  using assms by (auto simp: authentic_run_def)

lemma tls_client_loop_authentic:
  "tls_client_loop lg peer key tmp pid seen c w = (Inr fr, w1) \<Longrightarrow> w_allocfault w = [] \<Longrightarrow>
   w_fs w tmp = Some (new_file acc) \<Longrightarrow> length (fr_payload (tc_frame c)) = 4096 \<Longrightarrow>
   \<exists>apps. authentic_run key tmp seen acc w w1 apps"
proof (induction lg peer key tmp pid seen c w arbitrary: acc rule: tls_client_loop.induct)
  case (1 lg peer key tmp pid seen c w)
  note unf = tls_client_loop.simps [of lg peer key tmp pid seen c w]
  obtain stop w0 where rs: "read_stop w = (stop, w0)" by fastforce
  note r0 = read_stop_rest [OF rs]
  show ?case
  proof (cases stop)
    case True
    with "1.prems"(1) unf rs r0 have "w_fs w1 = w_fs w" by simp
    then show ?thesis using authentic_run_Nil [OF "1.prems"(3)] by blast
  next
    case go: False
    with "1.prems"(1) unf rs obtain c1 wa where
      rcv: "client_recv_frame lg peer ''DATA_TRANSFER'' ''RECV_TRANSFER_PACKET'' pid c w0 = (Some c1, wa)"
      by (cases "client_recv_frame lg peer ''DATA_TRANSFER'' ''RECV_TRANSFER_PACKET'' pid c w0") (auto split: option.splits)
    from client_recv_some [OF rcv] obtain t d where
      c1: "tc_frame c1 = filled (tc_frame c) t d" "length d \<le> 4096" "tcp_stream w0 = frame_bytes t d @ tcp_stream wa"
        "w_fs wa = w_fs w0" "w_allocfault wa = w_allocfault w0" by blast
    show ?thesis
    proof (cases "fr_type (tc_frame c1) = dpkt DEMO_PKT_APP_DATA")
      case False
      with "1.prems"(1) unf rs go rcv c1 r0 have "w_fs w1 = w_fs w" by simp
      then show ?thesis using authentic_run_Nil [OF "1.prems"(3)] by blast
    next
      case app: True
      obtain ok fr1 seen1 wb where v: "verify_tls_app_data lg peer (tc_frame c1) key tmp seen wa = (ok, fr1, seen1, wb)"
        using prod_cases4 by blast
      have acc_a: "w_allocfault wa = []" "w_fs wa tmp = Some (new_file acc)" using c1 r0 "1.prems"(2,3) by simp_all
      have lens: "length (fr_payload (tc_frame c1)) = 4096" "unat (fr_length (tc_frame c1)) \<le> 4096"
        using c1(1,2) "1.prems"(4) by (simp_all add: unat_small)
      note step = verify_step [OF acc_a lens v]
      from "1.prems"(1) unf rs go rcv app v have ok: ok by (auto split: if_splits)
      with "1.prems"(1) unf rs go rcv app v have
        rec: "tls_client_loop lg peer key tmp (pid + 1) seen1 (c1\<lparr>tc_frame := fr1\<rparr>) wb = (Inr fr, w1)" by simp
      from step ok obtain plain where pl: "w_allocfault wb = []" "seen < seen1" "frame_data (tc_frame c1) = app_payload key seen1 plain"
        "w_fs wb = (w_fs wa)(tmp \<mapsto> new_file (acc @ plain))" "length (fr_payload fr1) = 4096" by auto
      have d: "d = app_payload key seen1 plain" "t = dpkt DEMO_PKT_APP_DATA"
        using pl(3) c1(1,2) app by simp_all
      from "1.IH" [OF rs [symmetric] go rcv [symmetric] refl _ v [symmetric] refl refl _ rec] app ok pl obtain apps where
        ih: "authentic_run key tmp seen1 (acc @ plain) wb w1 apps" by fastforce
      have "tcp_stream w = app_frame key (seen1, plain) @ tcp_stream wb"
        using c1(3) d r0 verify_tls_app_data_stream [OF v] by (simp add: app_frame_def)
      with authentic_run_Cons [OF ih pl(2)] pl(4) c1(4) r0 show ?thesis by auto
    qed
  qed
qed

section \<open>The handshake, end to end\<close>

text \<open>An exchange up to the random numbers drawn meanwhile.\<close>

definition moved :: "byte list \<Rightarrow> byte list \<Rightarrow> world \<Rightarrow> world \<Rightarrow> bool" where
  "moved i out w w1 \<longleftrightarrow> exchange i out (w\<lparr>w_nonces := []\<rparr>) (w1\<lparr>w_nonces := []\<rparr>)"

lemma nonces_parts [simp]:
  "calm (w\<lparr>w_nonces := n\<rparr>) = calm w" "tcp_stream (w\<lparr>w_nonces := n\<rparr>) = tcp_stream w"
  by (simp_all add: calm_def flowing_def tcp_stream_def)

lemma exchange_moved: "exchange i out w w1 \<Longrightarrow> moved i out w w1"
  by (simp add: moved_def exchange_def)

lemma moved_trans: "moved i out w w1 \<Longrightarrow> moved i' out' w1 w2 \<Longrightarrow> moved (i @ i') (out @ out') w w2"
  unfolding moved_def by (rule exchange_trans)

lemma moved_nonce: "calm w \<Longrightarrow> moved [] [] w (w\<lparr>w_nonces := n\<rparr>)"
  by (simp add: moved_def exchange_refl)

lemma moved_same:
  assumes "moved i out w w1"
  shows "calm w" "calm w1" "tcp_stream w = i @ tcp_stream w1" "w_fs w1 = w_fs w" "w_env w1 = w_env w"
    "w_stdout w1 = w_stdout w" "w_writefault w1 = w_writefault w" "w_renamefault w1 = w_renamefault w"
    "w_tcp_out w1 = w_tcp_out w @ out"
  using assms by (simp_all add: moved_def exchange_def)

lemma nonce_drawn:
  "w_nonces w = n # ns \<Longrightarrow> length n = k \<Longrightarrow> demo_random_nonce k w = (n, w\<lparr>w_nonces := ns\<rparr>)"
  by (simp add: demo_random_nonce_def)

text \<open>The frames of the handshake for a password and two random numbers.\<close>

definition client_hand :: "string \<Rightarrow> byte list \<Rightarrow> byte list \<Rightarrow> byte list" where
  "client_hand p cn sn = frame_bytes (dpkt DEMO_PKT_CLIENT_HELLO) cn @
     frame_bytes (dpkt DEMO_PKT_FINISHED)
       (demo_hmac_sha1 (demo_derive_session_key p cn sn) (bytes_of_string ''client-finished''))"

definition server_hand :: "string \<Rightarrow> byte list \<Rightarrow> byte list \<Rightarrow> byte list" where
  "server_hand p cn sn = frame_bytes (dpkt DEMO_PKT_SERVER_HELLO) sn @
     frame_bytes (dpkt DEMO_PKT_FINISHED)
       (demo_hmac_sha1 (demo_derive_session_key p cn sn) (bytes_of_string ''server-finished''))"

lemma filled_front [simp]: "length d = n \<Longrightarrow> take n (fr_payload (filled fr t d)) = d"
  by (simp add: filled_def)

lemma tls_server_handshake_ok:
  assumes "calm w" "w_nonces w = sn # ns" "length sn = 16" "length cn = 16"
    and "tcp_stream w = client_hand p cn sn @ rest"
  shows "\<exists>c1 w1. tls_server_handshake lg peer p False junk w = (Inr (demo_derive_session_key p cn sn), c1, w1) \<and>
    moved (client_hand p cn sn) (server_hand p cn sn) w w1"
proof -
  let ?key = "demo_derive_session_key p cn sn"
  let ?cf = "demo_hmac_sha1 ?key (bytes_of_string ''client-finished'')"
  let ?sf = "demo_hmac_sha1 ?key (bytes_of_string ''server-finished'')"
  have stream: "tcp_stream w = frame_bytes (dpkt DEMO_PKT_CLIENT_HELLO) cn @ frame_bytes (dpkt DEMO_PKT_FINISHED) ?cf @ rest"
    using assms(5) by (simp add: client_hand_def)
  have len: "length cn \<le> 4096" "length sn \<le> 4096" "length ?cf \<le> 4096" "length ?sf \<le> 4096"
    using assms(3,4) by simp_all
  from server_recv_exchange [OF assms(1) stream len(1), of lg peer "''HANDSHAKE''" "''RECV_CLIENT_HELLO''" "-1" "new_conn junk"]
  obtain c1 w1 where r1: "server_recv_frame lg peer ''HANDSHAKE'' ''RECV_CLIENT_HELLO'' (-1) (new_conn junk) w = (Some c1, w1)"
    "tc_frame c1 = filled (tc_frame (new_conn junk)) (dpkt DEMO_PKT_CLIENT_HELLO) cn"
    "exchange (frame_bytes (dpkt DEMO_PKT_CLIENT_HELLO) cn) [] w w1"
    "tcp_stream w1 = frame_bytes (dpkt DEMO_PKT_FINISHED) ?cf @ rest" by blast
  let ?w2 = "w1\<lparr>w_nonces := ns\<rparr>"
  have calm1: "calm w1" using exchange_calm [OF r1(3)] by simp
  have n: "demo_random_nonce 16 w1 = (sn, ?w2)"
    using exchange_same(4) [OF r1(3)] assms(2,3) by (simp add: nonce_drawn)
  have "calm ?w2" using calm1 by simp
  from server_send_exchange [OF this len(2), of lg peer "dpkt DEMO_PKT_SERVER_HELLO" "''HANDSHAKE''" "''SEND_SERVER_HELLO''" "-1" False c1]
    assms(3) obtain c3 w3 where s3: "server_send_frame lg peer (dpkt DEMO_PKT_SERVER_HELLO) sn 16 ''HANDSHAKE''
      ''SEND_SERVER_HELLO'' (-1) False c1 ?w2 = (True, c3, w3)" "exchange [] (frame_bytes (dpkt DEMO_PKT_SERVER_HELLO) sn) ?w2 w3"
    by auto
  have w3: "calm w3" "tcp_stream w3 = frame_bytes (dpkt DEMO_PKT_FINISHED) ?cf @ rest"
    using exchange_calm [OF s3(2)] exchange_stream [OF s3(2)] r1(4) by simp_all
  from server_recv_exchange [OF w3 len(3), of lg peer "''HANDSHAKE''" "''RECV_FINISHED''" "-1" c3]
  obtain c4 w4 where r4: "server_recv_frame lg peer ''HANDSHAKE'' ''RECV_FINISHED'' (-1) c3 w3 = (Some c4, w4)"
    "tc_frame c4 = filled (tc_frame c3) (dpkt DEMO_PKT_FINISHED) ?cf"
    "exchange (frame_bytes (dpkt DEMO_PKT_FINISHED) ?cf) [] w3 w4" by blast
  have calm4: "calm w4" using exchange_calm [OF r4(3)] by simp
  from server_send_exchange [OF calm4 len(4), of lg peer "dpkt DEMO_PKT_FINISHED" "''HANDSHAKE''" "''SEND_FINISHED''" "-1" False c4]
  obtain c5 w5 where s5: "server_send_frame lg peer (dpkt DEMO_PKT_FINISHED) ?sf 20 ''HANDSHAKE''
      ''SEND_FINISHED'' (-1) False c4 w4 = (True, c5, w5)" "exchange [] (frame_bytes (dpkt DEMO_PKT_FINISHED) ?sf) w4 w5"
    by auto
  have "tls_server_handshake lg peer p False junk w = (Inr ?key, c5, w5)"
    unfolding tls_server_handshake_def Let_def
    using r1(1,2) n s3(1) r4(1,2) s5(1) assms(4) by simp
  moreover have "moved (client_hand p cn sn) (server_hand p cn sn) w w5"
    using moved_trans [OF moved_trans [OF moved_trans [OF exchange_moved [OF r1(3)] moved_nonce [OF calm1, of ns]]
        exchange_moved [OF s3(2)]] moved_trans [OF exchange_moved [OF r4(3)] exchange_moved [OF s5(2)]]]
    by (simp add: client_hand_def server_hand_def)
  ultimately show ?thesis by blast
qed

lemma tls_client_handshake_ok:
  assumes "calm w" "w_nonces w = cn # ns" "length cn = 16" "length sn = 16"
    and "tcp_stream w = server_hand p cn sn @ rest" "length (fr_payload (tc_frame c)) = 4096"
  shows "\<exists>c1 w1. tls_client_handshake lg peer p tmp c w = (Inr (demo_derive_session_key p cn sn), c1, w1) \<and>
    moved (server_hand p cn sn) (client_hand p cn sn) w w1 \<and> length (fr_payload (tc_frame c1)) = 4096"
proof -
  let ?key = "demo_derive_session_key p cn sn"
  let ?cf = "demo_hmac_sha1 ?key (bytes_of_string ''client-finished'')"
  let ?sf = "demo_hmac_sha1 ?key (bytes_of_string ''server-finished'')"
  have len: "length cn \<le> 4096" "length sn \<le> 4096" "length ?cf \<le> 4096" "length ?sf \<le> 4096"
    using assms(3,4) by simp_all
  let ?w1 = "w\<lparr>w_nonces := ns\<rparr>"
  have n: "demo_random_nonce 16 w = (cn, ?w1)" using assms(2,3) by (simp add: nonce_drawn)
  have "calm ?w1" using assms(1) by simp
  from client_send_exchange [OF this len(1), of lg peer "dpkt DEMO_PKT_CLIENT_HELLO" "''HANDSHAKE''" "''SEND_CLIENT_HELLO''" "-1" c]
    assms(3) obtain c2 w2 where s2: "client_send_frame lg peer (dpkt DEMO_PKT_CLIENT_HELLO) cn 16 ''HANDSHAKE''
      ''SEND_CLIENT_HELLO'' (-1) c ?w1 = (True, c2, w2)" "exchange [] (frame_bytes (dpkt DEMO_PKT_CLIENT_HELLO) cn) ?w1 w2"
      "tc_frame c2 = tc_frame c"
    by auto
  have w2: "calm w2" "tcp_stream w2 = frame_bytes (dpkt DEMO_PKT_SERVER_HELLO) sn @ frame_bytes (dpkt DEMO_PKT_FINISHED) ?sf @ rest"
    using exchange_calm [OF s2(2)] exchange_stream [OF s2(2)] assms(5) by (simp_all add: server_hand_def)
  from client_recv_exchange [OF w2 len(2), of lg peer "''HANDSHAKE''" "''RECV_SERVER_HELLO''" "-1" c2]
  obtain c3 w3 where r3: "client_recv_frame lg peer ''HANDSHAKE'' ''RECV_SERVER_HELLO'' (-1) c2 w2 = (Some c3, w3)"
    "tc_frame c3 = filled (tc_frame c2) (dpkt DEMO_PKT_SERVER_HELLO) sn"
    "exchange (frame_bytes (dpkt DEMO_PKT_SERVER_HELLO) sn) [] w2 w3"
    "tcp_stream w3 = frame_bytes (dpkt DEMO_PKT_FINISHED) ?sf @ rest" by blast
  have calm3: "calm w3" using exchange_calm [OF r3(3)] by simp
  from client_send_exchange [OF calm3 len(3), of lg peer "dpkt DEMO_PKT_FINISHED" "''HANDSHAKE''" "''SEND_FINISHED''" "-1" c3]
  obtain c4 w4 where s4: "client_send_frame lg peer (dpkt DEMO_PKT_FINISHED) ?cf 20 ''HANDSHAKE''
      ''SEND_FINISHED'' (-1) c3 w3 = (True, c4, w4)" "exchange [] (frame_bytes (dpkt DEMO_PKT_FINISHED) ?cf) w3 w4"
      "tc_frame c4 = tc_frame c3"
    by auto
  have w4: "calm w4" "tcp_stream w4 = frame_bytes (dpkt DEMO_PKT_FINISHED) ?sf @ rest"
    using exchange_calm [OF s4(2)] exchange_stream [OF s4(2)] r3(4) by simp_all
  from client_recv_exchange [OF w4 len(4), of lg peer "''HANDSHAKE''" "''RECV_FINISHED''" "-1" c4]
  obtain c5 w5 where r5: "client_recv_frame lg peer ''HANDSHAKE'' ''RECV_FINISHED'' (-1) c4 w4 = (Some c5, w5)"
    "tc_frame c5 = filled (tc_frame c4) (dpkt DEMO_PKT_FINISHED) ?sf"
    "exchange (frame_bytes (dpkt DEMO_PKT_FINISHED) ?sf) [] w4 w5" by blast
  obtain e where "tls_client_handshake lg peer p tmp c w = (Inr ?key, c5, logger_write lg e w5)"
    unfolding tls_client_handshake_def Let_def
    using n s2(1) r3(1,2) s4(1) r5(1,2) assms(4) by simp
  moreover have "moved (server_hand p cn sn) (client_hand p cn sn) w (logger_write lg e w5)"
    using moved_trans [OF moved_trans [OF moved_trans [OF moved_nonce [OF assms(1), of ns] exchange_moved [OF s2(2)]]
        exchange_moved [OF r3(3)]] moved_trans [OF exchange_moved [OF s4(2)] exchange_moved [OF exchange_log [OF r5(3)]]]]
    by (simp add: client_hand_def server_hand_def)
  moreover have "length (fr_payload (tc_frame c5)) = 4096"
    using assms(3,4,6) s2(3) r3(2) s4(3) r5(2) by simp
  ultimately show ?thesis by blast
qed

section \<open>The encrypted file, end to end\<close>

text \<open>The frames of the file's chunks, the first being number \<open>n + 1\<close>.\<close>

fun app_frames :: "byte list \<Rightarrow> nat \<Rightarrow> byte list list \<Rightarrow> byte list" where
  "app_frames key n [] = []"
| "app_frames key n (b # bs) = app_frame key (word_of_nat (Suc n), b) @ app_frames key (Suc n) bs"

lemma tls_app_loop_sends:
  "calm w \<Longrightarrow> \<forall>b \<in> set bs. length b \<le> 4072 \<Longrightarrow>
   \<exists>c1 w1. tls_app_loop lg peer key False False (word_of_nat (Suc n)) pid bs c w = (None, c1, w1) \<and>
     exchange [] (app_frames key n bs) w w1"
proof (induction bs arbitrary: n pid c w)
  case Nil
  then show ?case by (simp add: exchange_refl)
next
  case (Cons b bs)
  let ?seq = "word_of_nat (Suc n) :: u32"
  let ?app = "app_payload key ?seq b"
  have len: "length ?app \<le> 4096" "length b \<le> 4072" using Cons.prems(2) by simp_all
  note pay = tls_payload_calm [OF Cons.prems(1) len(2), of ?seq key]
  from server_send_exchange [OF Cons.prems(1) len(1), of lg peer "dpkt DEMO_PKT_APP_DATA" "''DATA_TRANSFER''" "''SEND_APP_DATA''" pid False c]
  obtain c1 w1 where snd: "server_send_frame lg peer (dpkt DEMO_PKT_APP_DATA) ?app (word_of_nat (length ?app))
      ''DATA_TRANSFER'' ''SEND_APP_DATA'' pid False c w = (True, c1, w1)"
    "exchange [] (app_frame key (?seq, b)) w w1" by (auto simp: app_frame_def)
  from Cons.IH [of w1 "Suc n" "pid + 1" c1] exchange_calm [OF snd(2)] Cons.prems(2) obtain c2 w2 where
    ih: "tls_app_loop lg peer key False False (word_of_nat (Suc (Suc n))) (pid + 1) bs c1 w1 = (None, c2, w2)"
      "exchange [] (app_frames key (Suc n) bs) w1 w2" by auto
  have "tls_app_loop lg peer key False False ?seq pid (b # bs) c w
      = tls_app_loop lg peer key False False (?seq + 1) (pid + 1) bs c1 w1"
    using pay snd(1) by simp
  moreover have "?seq + 1 = word_of_nat (Suc (Suc n))" by simp
  ultimately have "tls_app_loop lg peer key False False ?seq pid (b # bs) c w = (None, c2, w2)"
    using ih(1) by metis
  with exchange_trans [OF snd(2) ih(2)] show ?case by fastforce
qed

lemma verify_good:
  assumes "calm w" "w_writefault w = []" "w_fs w tmp = Some (new_file acc)" "length (fr_payload fr) = 4096"
    and "unat (fr_length fr) \<le> 4096" "frame_data fr = app_payload key seq plain" "seen < seq"
  shows "\<exists>fr1 w1. verify_tls_app_data lg peer fr key tmp seen w = (True, fr1, seq, w1) \<and>
    length (fr_payload fr1) = 4096 \<and> w_fs w1 = (w_fs w)(tmp \<mapsto> new_file (acc @ plain)) \<and> calm w1 \<and>
    tcp_stream w1 = tcp_stream w \<and> w_stdout w1 = w_stdout w \<and> w_tcp_out w1 = w_tcp_out w \<and>
    w_writefault w1 = [] \<and> w_renamefault w1 = w_renamefault w"
proof -
  obtain ok fr1 seen1 w1 where v: "verify_tls_app_data lg peer fr key tmp seen w = (ok, fr1, seen1, w1)"
    using prod_cases4 by blast
  have alloc: "w_allocfault w = []" using assms(1) by (simp add: calm_def)
  note step = verify_step [OF alloc assms(3-5) v]
  have "app_fresh key seen (frame_data fr)" unfolding app_fresh_iff using assms(6,7) by blast
  with step assms(2) have ok: ok by (cases ok) simp_all
  with step obtain plain' where p': "frame_data fr = app_payload key seen1 plain'" "length (fr_payload fr1) = 4096"
    "w_fs w1 = (w_fs w)(tmp \<mapsto> new_file (acc @ plain'))" by auto
  with assms(6) have eq: "seen1 = seq" "plain' = plain" by (metis app_payload_inject)+
  have "malloc_ok w = (True, w)" by (rule calm_malloc [OF assms(1)])
  then have "calm w1 \<and> tcp_stream w1 = tcp_stream w \<and> w_stdout w1 = w_stdout w \<and> w_tcp_out w1 = w_tcp_out w \<and>
      w_writefault w1 = [] \<and> w_renamefault w1 = w_renamefault w"
    using v ok assms(1,2) by (auto simp: verify_tls_app_data_def client_tls_app_mac_def Let_def fwrite_all_def
        calm_def flowing_def tcp_stream_def split: if_splits)
  with v ok eq p' show ?thesis by simp
qed

lemma tls_client_loop_receives:
  "calm w \<Longrightarrow> w_writefault w = [] \<Longrightarrow> w_fs w tmp = Some (new_file acc) \<Longrightarrow>
   \<forall>b \<in> set bs. length b \<le> 4072 \<Longrightarrow> n + length bs < 2 ^ 32 \<Longrightarrow> length dg = 20 \<Longrightarrow>
   length (fr_payload (tc_frame c)) = 4096 \<Longrightarrow>
   tcp_stream w = app_frames key n bs @ frame_bytes (dpkt DEMO_PKT_TERMINATE) dg @ rest \<Longrightarrow>
   \<exists>fr w1. tls_client_loop lg peer key tmp pid (word_of_nat n) c w = (Inr fr, w1) \<and>
     fr_type fr = dpkt DEMO_PKT_TERMINATE \<and> take 20 (fr_payload fr) = dg \<and>
     w_fs w1 = (w_fs w)(tmp \<mapsto> new_file (acc @ concat bs)) \<and> w_stdout w1 = w_stdout w \<and>
     w_tcp_out w1 = w_tcp_out w \<and> w_renamefault w1 = w_renamefault w"
proof (induction bs arbitrary: acc n pid c w)
  case Nil
  from client_recv_exchange [OF Nil.prems(1) Nil.prems(8) [simplified]] Nil.prems(6) obtain c1 w1 where
    rcv: "client_recv_frame lg peer ''DATA_TRANSFER'' ''RECV_TRANSFER_PACKET'' pid c w = (Some c1, w1)"
      "tc_frame c1 = filled (tc_frame c) (dpkt DEMO_PKT_TERMINATE) dg"
      "exchange (frame_bytes (dpkt DEMO_PKT_TERMINATE) dg) [] w w1" by fastforce
  have "tls_client_loop lg peer key tmp pid (word_of_nat n) c w = (Inr (tc_frame c1), w1)"
    using rcv Nil.prems(1) by (simp add: tls_client_loop.simps [of lg peer key tmp pid _ c w])
  moreover have "w_fs w1 = (w_fs w)(tmp \<mapsto> new_file (acc @ concat []))"
    using exchange_same(1) [OF rcv(3)] Nil.prems(3) by (simp add: fun_upd_idem)
  moreover have "fr_type (tc_frame c1) = dpkt DEMO_PKT_TERMINATE" "take 20 (fr_payload (tc_frame c1)) = dg"
    using rcv(2) Nil.prems(6) by simp_all
  ultimately show ?case using exchange_same [OF rcv(3)] by auto
next
  case (Cons b bs)
  let ?seq = "word_of_nat (Suc n) :: u32"
  let ?app = "app_payload key ?seq b"
  have len: "length ?app \<le> 4096" using Cons.prems(4) by simp
  from client_recv_exchange [OF Cons.prems(1) Cons.prems(8) [unfolded app_frames.simps append.assoc app_frame_def fst_conv snd_conv] len]
  obtain c1 w1 where
    rcv: "client_recv_frame lg peer ''DATA_TRANSFER'' ''RECV_TRANSFER_PACKET'' pid c w = (Some c1, w1)"
      "tc_frame c1 = filled (tc_frame c) (dpkt DEMO_PKT_APP_DATA) ?app"
      "exchange (frame_bytes (dpkt DEMO_PKT_APP_DATA) ?app) [] w w1"
      "tcp_stream w1 = app_frames key (Suc n) bs @ frame_bytes (dpkt DEMO_PKT_TERMINATE) dg @ rest" by blast
  note same = exchange_same [OF rcv(3)] exchange_calm [OF rcv(3)]
  have "(word_of_nat n :: u32) < ?seq"
    using Cons.prems(5) by (simp add: word_less_nat_alt unat_of_nat take_bit_nat_eq_self del: of_nat_Suc)
  note fresh = this
  have small: "unat (word_of_nat (length ?app) :: u32) = length ?app" by (rule unat_small) (use len in simp)
  have ready: "calm w1" "w_writefault w1 = []" "w_fs w1 tmp = Some (new_file acc)"
    "length (fr_payload (tc_frame c1)) = 4096" "unat (fr_length (tc_frame c1)) \<le> 4096"
    "frame_data (tc_frame c1) = ?app"
    unfolding rcv(2) filled_simps(2) filled_simps(3) [OF len] small
    using same Cons.prems(2,3,7) len by (simp_all del: length_app_payload)
  from verify_good [OF ready fresh, of lg peer]
  obtain fr1 w2 where v: "verify_tls_app_data lg peer (tc_frame c1) key tmp (word_of_nat n) w1 = (True, fr1, ?seq, w2)"
    "length (fr_payload fr1) = 4096" "w_fs w2 = (w_fs w1)(tmp \<mapsto> new_file (acc @ b))" "calm w2"
    "tcp_stream w2 = tcp_stream w1" "w_stdout w2 = w_stdout w1" "w_tcp_out w2 = w_tcp_out w1"
    "w_writefault w2 = []" "w_renamefault w2 = w_renamefault w1" by blast
  have "fr_type (tc_frame c1) = dpkt DEMO_PKT_APP_DATA" using rcv(2) by simp
  then have round: "tls_client_loop lg peer key tmp pid (word_of_nat n) c w
      = tls_client_loop lg peer key tmp (pid + 1) ?seq (c1\<lparr>tc_frame := fr1\<rparr>) w2"
    using Cons.prems(1) rcv(1) v(1) by (simp add: tls_client_loop.simps [of lg peer key tmp pid _ c w] del: of_nat_Suc)
  have "\<exists>fr w3. tls_client_loop lg peer key tmp (pid + 1) ?seq (c1\<lparr>tc_frame := fr1\<rparr>) w2 = (Inr fr, w3) \<and>
     fr_type fr = dpkt DEMO_PKT_TERMINATE \<and> take 20 (fr_payload fr) = dg \<and>
     w_fs w3 = (w_fs w2)(tmp \<mapsto> new_file ((acc @ b) @ concat bs)) \<and> w_stdout w3 = w_stdout w2 \<and>
     w_tcp_out w3 = w_tcp_out w2 \<and> w_renamefault w3 = w_renamefault w2"
    by (rule Cons.IH) (use Cons.prems rcv(4) v in simp_all)
  then obtain fr w3 where ih: "tls_client_loop lg peer key tmp (pid + 1) ?seq (c1\<lparr>tc_frame := fr1\<rparr>) w2 = (Inr fr, w3)"
     "fr_type fr = dpkt DEMO_PKT_TERMINATE" "take 20 (fr_payload fr) = dg"
     "w_fs w3 = (w_fs w2)(tmp \<mapsto> new_file ((acc @ b) @ concat bs))" "w_stdout w3 = w_stdout w2"
     "w_tcp_out w3 = w_tcp_out w2" "w_renamefault w3 = w_renamefault w2" by blast
  have "w_fs w3 = (w_fs w)(tmp \<mapsto> new_file (acc @ concat (b # bs)))"
    using ih(4) v(3) same by simp
  moreover have "w_stdout w3 = w_stdout w \<and> w_tcp_out w3 = w_tcp_out w \<and> w_renamefault w3 = w_renamefault w"
    using ih(5-7) v(6,7,9) same by simp
  ultimately show ?case using round ih(1-3) by metis
qed

lemma run_tls_like_sends:
  assumes "calm w" "w_fs w input = Some f" "\<not> f_bad f" "w_nonces w = sn # ns" "length sn = 16" "length cn = 16"
    and "tcp_stream w = client_hand p cn sn @ rest"
  shows "\<exists>w1. run_tls_like lg peer p input False False False junk w =
      (0, demo_finish lg ''OK'' ''tls-like transfer completed'' w1) \<and>
    moved (client_hand p cn sn) (server_hand p cn sn @
      app_frames (demo_derive_session_key p cn sn) 0 (chunks 1000 (f_data f)) @ digest_frame (f_data f)) w w1"
proof -
  let ?key = "demo_derive_session_key p cn sn" and ?bs = "chunks 1000 (f_data f)" and ?dg = "sha1_digest (f_data f)"
  from tls_server_handshake_ok [OF assms(1,4,5,6,7), of lg peer junk] obtain c1 w1 where
    h: "tls_server_handshake lg peer p False junk w = (Inr ?key, c1, w1)"
      "moved (client_hand p cn sn) (server_hand p cn sn) w w1" by blast
  have "\<forall>b \<in> set ?bs. length b \<le> 4072" using chunks_bounds by fastforce
  from tls_app_loop_sends [OF moved_same(2) [OF h(2)] this, of lg peer ?key 0 0 c1] obtain c2 w2 where
    a: "tls_app_loop lg peer ?key False False 1 0 ?bs c1 w1 = (None, c2, w2)"
      "exchange [] (app_frames ?key 0 ?bs) w1 w2" by auto
  have dg: "sha1_file w2 input = Some ?dg"
    using exchange_same(1) [OF a(2)] moved_same(4) [OF h(2)] assms(2,3) by (simp add: sha1_file_digest)
  let ?e = "Some ((demo_init_event ''INFO'' ''SERVER_DIGEST'' ''VERIFY'' ''server digest ready'')
      \<lparr>le_peer := Some peer, le_sha1 := Some (sha1_to_hex ?dg)\<rparr>)"
  have l: "exchange [] [] w2 (logger_write lg ?e w2)" using exchange_calm [OF a(2)] calm_log by blast
  have "calm (logger_write lg ?e w2)" using exchange_calm [OF l] by blast
  from server_send_exchange [OF this, of ?dg lg peer "dpkt DEMO_PKT_TERMINATE" "''VERIFY''" "''SEND_TERMINATE''" "-1" False c2]
  obtain c4 w4 where t: "server_send_frame lg peer (dpkt DEMO_PKT_TERMINATE) ?dg 20 ''VERIFY'' ''SEND_TERMINATE'' (-1)
      False c2 (logger_write lg ?e w2) = (True, c4, w4)"
    "exchange [] (digest_frame (f_data f)) (logger_write lg ?e w2) w4" by auto
  have "run_tls_like lg peer p input False False False junk w = (0, demo_finish lg ''OK'' ''tls-like transfer completed'' w4)"
    using assms(2) h(1) a(1) dg t(1) by (simp add: run_tls_like_def fread_blocks_def protocol_sizes Let_def)
  moreover have "moved (client_hand p cn sn) (server_hand p cn sn @ app_frames ?key 0 ?bs @ digest_frame (f_data f)) w w4"
    using moved_trans [OF h(2) moved_trans [OF exchange_moved [OF a(2)]
        moved_trans [OF exchange_moved [OF l] exchange_moved [OF t(2)]]]] by simp
  ultimately show ?thesis by blast
qed

lemma tls_client_transfer_receives:
  assumes "calm w" "w_writefault w = []" "w_renamefault w = []" "w_fs w tmp = Some (new_file [])" "tmp \<noteq> out"
    and "w_nonces w = cn # ns" "length cn = 16" "length sn = 16" "length (chunks 1000 d) < 2 ^ 32"
    and "length (fr_payload (tc_frame c)) = 4096"
    and "tcp_stream w = server_hand p cn sn @ app_frames (demo_derive_session_key p cn sn) 0 (chunks 1000 d) @ digest_frame d"
  shows "\<exists>w1. tls_client_transfer lg peer p out tmp c w = (0, w1) \<and>
    w_fs w1 = (w_fs w)(out \<mapsto> new_file d, tmp := None) \<and> w_tcp_out w1 = w_tcp_out w @ client_hand p cn sn \<and>
    w_stdout w1 = w_stdout w @ [''OK'' @ [CHR 0x0A]]"
proof -
  let ?key = "demo_derive_session_key p cn sn"
  from tls_client_handshake_ok [OF assms(1,6,7,8,11,10), of lg peer tmp] obtain c1 w1 where
    h: "tls_client_handshake lg peer p tmp c w = (Inr ?key, c1, w1)"
      "moved (server_hand p cn sn) (client_hand p cn sn) w w1"
      "length (fr_payload (tc_frame c1)) = 4096" by blast
  note same = moved_same [OF h(2)]
  have stream: "tcp_stream w1 = app_frames ?key 0 (chunks 1000 d) @ digest_frame d @ []"
    using same(3) assms(11) by simp
  have le: "\<forall>b \<in> set (chunks 1000 d). length b \<le> 4072" using chunks_bounds by fastforce
  have "\<exists>fr w2. tls_client_loop lg peer ?key tmp 0 (word_of_nat 0) c1 w1 = (Inr fr, w2) \<and>
     fr_type fr = dpkt DEMO_PKT_TERMINATE \<and> take 20 (fr_payload fr) = sha1_digest d \<and>
     w_fs w2 = (w_fs w1)(tmp \<mapsto> new_file ([] @ concat (chunks 1000 d))) \<and> w_stdout w2 = w_stdout w1 \<and>
     w_tcp_out w2 = w_tcp_out w1 \<and> w_renamefault w2 = w_renamefault w1"
    by (rule tls_client_loop_receives [OF _ _ _ le _ _ h(3) stream]) (use same assms(2-4,9) in simp_all)
  then obtain fr w2 where l: "tls_client_loop lg peer ?key tmp 0 0 c1 w1 = (Inr fr, w2)"
     "fr_type fr = dpkt DEMO_PKT_TERMINATE" "take 20 (fr_payload fr) = sha1_digest d"
     "w_fs w2 = (w_fs w1)(tmp \<mapsto> new_file d)" "w_stdout w2 = w_stdout w1"
     "w_tcp_out w2 = w_tcp_out w1" "w_renamefault w2 = w_renamefault w1" by auto
  let ?note = "\<lambda>local_digest. logger_write lg (Some ((demo_init_event ''SUCCESS'' ''DIGEST_MATCH'' ''DONE''
      ''tls-like digest matched'')\<lparr>le_peer := Some peer, le_sha1 := Some (sha1_to_hex local_digest)\<rparr>))"
  have "\<exists>w3. tcp_client_terminate lg out tmp ''tls-like digest mismatch'' ''tls-like transfer completed'' ?note fr w2
      = (0, w3) \<and> w_fs w3 = (w_fs w2)(out \<mapsto> new_file d, tmp := None) \<and>
      w_stdout w3 = w_stdout w2 @ [''OK'' @ [CHR 0x0A]] \<and> w_tcp_out w3 = w_tcp_out w2"
    by (rule tcp_client_terminate_ok) (use l same assms(3,5) in \<open>simp_all add: logger_write_def Let_def\<close>)
  then obtain w3 where t: "tcp_client_terminate lg out tmp ''tls-like digest mismatch'' ''tls-like transfer completed'' ?note fr w2
      = (0, w3)" "w_fs w3 = (w_fs w2)(out \<mapsto> new_file d, tmp := None)"
      "w_stdout w3 = w_stdout w2 @ [''OK'' @ [CHR 0x0A]]" "w_tcp_out w3 = w_tcp_out w2" by blast
  have "tls_client_transfer lg peer p out tmp c w = (0, w3)"
    using h(1) l(1,2) t(1) by (simp add: tls_client_transfer_def)
  moreover have "w_fs w3 = (w_fs w)(out \<mapsto> new_file d, tmp := None)"
    using t(2) l(4) same(4) assms(5) by (simp add: fun_upd_twist)
  moreover have "w_tcp_out w3 = w_tcp_out w @ client_hand p cn sn \<and> w_stdout w3 = w_stdout w @ [''OK'' @ [CHR 0x0A]]"
    using t(3,4) l(5,6) same(6,9) by simp
  ultimately show ?thesis by blast
qed

text \<open>
  C16. A download over TCP with the handshake (\<open>tls-like\<close>): when no call fails and one of
  the three passwords is right, each program sends exactly the bytes the other one
  reads, however the connection cuts them; both end with status 0 and \<open>OK\<close>, and the
  client's output file is the server's input file, for every file of fewer than
  2^32 chunks, as the sequence numbers have 32 bits.
\<close>

theorem tls_like_download:
  assumes "calm ws" "calm wc" "w_writefault wc = []" "w_renamefault wc = []"
    and "getenv_or ws ''UDP_SECURE_PROTOCOL'' ''tcp-basic'' = ''tls-like''"
    and "getenv_or wc ''UDP_SECURE_PROTOCOL'' ''tcp-basic'' = ''tls-like''"
    and "getenv_or ws ''UDP_SECURE_SCENARIO'' [] \<noteq> ''replay''"
    and "\<not> env_flag ws ''UDP_SECURE_TAMPER_FINISHED''" "\<not> env_flag ws ''UDP_SECURE_TAMPER_APP_DATA''"
    and "p \<in> set ps" "length ps = 3" "\<forall>q \<in> set ps. length q \<le> 255"
    and "w_fs ws input = Some f" "\<not> f_bad f" "length (chunks 1000 (f_data f)) < 2 ^ 32"
    and "w_fs wc tmp = Some (new_file [])" "tmp \<noteq> out" "length (fr_payload junkc) = 4096"
    and "w_nonces ws = sn # sns" "w_nonces wc = cn # cns" "length sn = 16" "length cn = 16"
    and "tcp_stream ws = join_frame @ tries_bytes p ps @ client_hand p cn sn"
    and "tcp_stream wc = ask_frame @ replies_bytes p ps @ server_hand p cn sn @
      app_frames (demo_derive_session_key p cn sn) 0 (chunks 1000 (f_data f)) @ digest_frame (f_data f)"
  shows "\<exists>ws1 wc1.
    tcp_server_session lgs peers p input (sha1_digest (f_data f)) junk junk2 ws = (0, ws1) \<and>
    tcp_client_session lgc peerc False ps out tmp junkc wc = (0, wc1) \<and>
    w_tcp_out ws1 = w_tcp_out ws @ tcp_stream wc \<and> w_tcp_out wc1 = w_tcp_out wc @ tcp_stream ws \<and>
    w_stdout ws1 = w_stdout ws @ [''OK'' @ [CHR 0x0A]] \<and> w_stdout wc1 = w_stdout wc @ [''OK'' @ [CHR 0x0A]] \<and>
    w_fs wc1 = (w_fs wc)(out \<mapsto> new_file (f_data f), tmp := None)"
proof -
  let ?d = "f_data f"
  let ?data = "app_frames (demo_derive_session_key p cn sn) 0 (chunks 1000 ?d) @ digest_frame ?d"
  from tcp_server_dialogue [OF assms(1,11,12,23), of lgs peers input "sha1_digest ?d" junk junk2] assms(10) obtain ws0 where
    s0: "exchange (join_frame @ tries_bytes p ps) (ask_frame @ replies_bytes p ps) ws ws0"
      "tcp_server_session lgs peers p input (sha1_digest ?d) junk junk2 ws
        = tcp_server_transfer lgs peers p input (sha1_digest ?d) junk2 ws0" by auto
  note same = exchange_same [OF s0(1)] exchange_calm [OF s0(1)]
  have env: "getenv_or ws0 x y = getenv_or ws x y" "env_flag ws0 x = env_flag ws x" for x y
    using same(2) by (simp_all add: getenv_or_def env_flag_def getenv_def)
  have "calm ws0" "w_fs ws0 input = Some f" "w_nonces ws0 = sn # sns" "tcp_stream ws0 = client_hand p cn sn @ []"
    using same exchange_stream [OF s0(1)] assms(13,19,23) by simp_all
  from run_tls_like_sends [OF this(1,2) assms(14) this(3) assms(21,22) this(4), of lgs peers junk2] obtain ws1 where
    s1: "run_tls_like lgs peers p input False False False junk2 ws0
        = (0, demo_finish lgs ''OK'' ''tls-like transfer completed'' ws1)"
      "moved (client_hand p cn sn) (server_hand p cn sn @ ?data) ws0 ws1" by blast
  have server: "tcp_server_session lgs peers p input (sha1_digest ?d) junk junk2 ws
      = (0, demo_finish lgs ''OK'' ''tls-like transfer completed'' ws1)"
    using s0(2) s1(1) assms(5,7-9) by (simp add: tcp_server_transfer_def env)
  from tcp_client_dialogue [OF assms(2,11,12,24), of junkc lgc peerc out tmp] assms(6,10,18) obtain c0 wc0 where
    c0: "exchange (ask_frame @ replies_bytes p ps) (join_frame @ tries_bytes p ps) wc wc0"
      "tcp_client_session lgc peerc False ps out tmp junkc wc = tls_client_transfer lgc peerc p out tmp c0 wc0"
      "length (fr_payload (tc_frame c0)) = 4096" by auto
  note samec = exchange_same [OF c0(1)] exchange_calm [OF c0(1)]
  have ready: "calm wc0" "w_writefault wc0 = []" "w_renamefault wc0 = []" "w_fs wc0 tmp = Some (new_file [])"
    "w_nonces wc0 = cn # cns" "tcp_stream wc0 = server_hand p cn sn @ ?data"
    using samec assms(3,4,16,20,24) exchange_stream [OF c0(1)] by simp_all
  from tls_client_transfer_receives [OF ready(1-4) assms(17) ready(5) assms(22,21,15) c0(3) ready(6), of lgc peerc] obtain wc1 where
    client: "tls_client_transfer lgc peerc p out tmp c0 wc0 = (0, wc1)"
      "w_fs wc1 = (w_fs wc0)(out \<mapsto> new_file ?d, tmp := None)" "w_tcp_out wc1 = w_tcp_out wc0 @ client_hand p cn sn"
      "w_stdout wc1 = w_stdout wc0 @ [''OK'' @ [CHR 0x0A]]" by blast
  have "w_fs wc1 = (w_fs wc)(out \<mapsto> new_file ?d, tmp := None)" using client(2) samec(1) by simp
  with server c0(2) client(1,3,4) moved_same [OF s1(2)] same samec assms(23,24) show ?thesis
    by (simp add: demo_finish_same)
qed

definition secure_server :: world where
  "secure_server = quiet_world\<lparr>w_fs := [''in'' \<mapsto> new_file [1, 2, 3]], w_nonces := [replicate 16 7],
     w_env := [''UDP_SECURE_PROTOCOL'' \<mapsto> ''tls-like''],
     w_tcp_in := byte_by_byte (join_frame @ tries_bytes ''b'' [''a'', ''b'', ''c''] @
       client_hand ''b'' (replicate 16 5) (replicate 16 7))\<rparr>"

definition secure_client :: world where
  "secure_client = quiet_world\<lparr>w_fs := [''out.part'' \<mapsto> new_file []], w_nonces := [replicate 16 5],
     w_env := [''UDP_SECURE_PROTOCOL'' \<mapsto> ''tls-like''],
     w_tcp_in := byte_by_byte (ask_frame @ replies_bytes ''b'' [''a'', ''b'', ''c''] @
       server_hand ''b'' (replicate 16 5) (replicate 16 7) @
       app_frames (demo_derive_session_key ''b'' (replicate 16 5) (replicate 16 7)) 0 (chunks 1000 [1, 2, 3]) @
       digest_frame [1, 2, 3])\<rparr>"

theorem tls_like_download_witness:
  "\<exists>ws1 wc1.
    tcp_server_session closed_logger [] ''b'' ''in'' (sha1_digest [1, 2, 3]) junk0 junk0 secure_server = (0, ws1) \<and>
    tcp_client_session closed_logger [] False [''a'', ''b'', ''c''] ''out'' ''out.part'' junk0 secure_client = (0, wc1) \<and>
    w_tcp_out ws1 = tcp_stream secure_client \<and> w_tcp_out wc1 = tcp_stream secure_server \<and>
    w_stdout ws1 = [''OK'' @ [CHR 0x0A]] \<and> w_stdout wc1 = [''OK'' @ [CHR 0x0A]] \<and>
    w_fs wc1 = [''out'' \<mapsto> new_file [1, 2, 3]]"
proof -
  have cut: "[''out.part'' \<mapsto> new_file []](''out'' \<mapsto> new_file [1, 2, 3], ''out.part'' := None)
      = [''out'' \<mapsto> new_file [1, 2, 3 :: byte]]" by (simp add: fun_eq_iff)
  have short: "chunks 1000 [1, 2, 3 :: byte] = [[1, 2, 3]]" by (simp add: chunks_short)
  show ?thesis
    using tls_like_download [of secure_server secure_client "''b''" "[''a'', ''b'', ''c'']" "''in''"
        "new_file [1, 2, 3]" "''out.part''" "''out''" junk0 "replicate 16 7" "[]" "replicate 16 5" "[]"
        closed_logger "[]" junk0 junk0 closed_logger "[]"]
    by (simp add: secure_server_def secure_client_def quiet_tcp env_flag_def cut short junk0_def)
      (simp add: new_file_def short)
qed

end
