(* ===== verification/TcpSafety.thy ===== *)
theory TcpSafety
  imports TcpTls
begin

text \<open>
  What holds of the two TCP programs whatever arrives and whatever fails: the verdict a
  client prints fits what it leaves behind, and a server that has not seen the password
  sends nothing but its questions.
\<close>

section \<open>Steps\<close>

text \<open>
  \<open>kept P parts w w1\<close>: the pieces \<open>parts\<close> were sent, only files in \<open>P\<close> changed and nothing
  was printed. \<open>trace P fs parts w w1\<close>: moreover exactly the frames \<open>fs\<close> were read.
\<close>

definition kept :: "string set \<Rightarrow> byte list list \<Rightarrow> world \<Rightarrow> world \<Rightarrow> bool" where
  "kept P parts w w1 \<longleftrightarrow>
     w_tcp_out w1 = w_tcp_out w @ concat parts \<and> w_stdout w1 = w_stdout w \<and>
     (\<forall>q. q \<notin> P \<longrightarrow> w_fs w1 q = w_fs w q) \<and> w_env w1 = w_env w \<and>
     (w_stop w = None \<longrightarrow> w_stop w1 = None) \<and> w_renamefault w1 = w_renamefault w"

definition frames_wire :: "(u16 \<times> byte list) list \<Rightarrow> byte list" where
  "frames_wire fs = concat (map (\<lambda>(t, d). frame_bytes t d) fs)"

definition trace :: "string set \<Rightarrow> (u16 \<times> byte list) list \<Rightarrow> byte list list \<Rightarrow> world \<Rightarrow> world \<Rightarrow> bool" where
  "trace P fs parts w w1 \<longleftrightarrow> kept P parts w w1 \<and> list_all (\<lambda>(t, d). length d \<le> 4096) fs \<and>
     tcp_stream w = frames_wire fs @ tcp_stream w1"

lemma kept_refl [simp]: "kept P [] w w"
  by (simp add: kept_def)

lemma kept_trans: "kept P x w w1 \<Longrightarrow> kept P y w1 w2 \<Longrightarrow> kept P (x @ y) w w2"
  by (simp add: kept_def)

lemma trace_refl [simp]: "trace P [] [] w w"
  by (simp add: trace_def frames_wire_def)

lemma trace_trans: "trace P fs x w w1 \<Longrightarrow> trace P gs y w1 w2 \<Longrightarrow> trace P (fs @ gs) (x @ y) w w2"
  using kept_trans by (auto simp: trace_def frames_wire_def)

lemma trace_kept: "trace P fs x w w1 \<Longrightarrow> kept P x w w1"
  by (simp add: trace_def)

lemma trace_mono: "trace {} fs x w w1 \<Longrightarrow> trace P fs x w w1"
  by (simp add: trace_def kept_def)

lemma kept_mono: "kept {} x w w1 \<Longrightarrow> kept P x w w1"
  by (simp add: kept_def)

lemma trace_log: "trace P [] [] w (logger_write lg e w)"
  by (simp add: trace_def frames_wire_def kept_def logger_write_def Let_def)
    (simp add: tcp_stream_def)

lemma trace_stop: "read_stop w = (stop, w0) \<Longrightarrow> trace P [] [] w w0"
  by (auto simp: trace_def frames_wire_def kept_def read_stop_def tcp_stream_def split: option.splits nat.splits)

lemma trace_nonce: "demo_random_nonce k w = (n, w1) \<Longrightarrow> trace P [] [] w w1"
  by (auto simp: trace_def frames_wire_def kept_def demo_random_nonce_def tcp_stream_def split: list.splits)

lemma trace_password: "demo_read_password i ps k n w = (r, w1) \<Longrightarrow> trace P [] [] w w1"
  by (auto simp: trace_def frames_wire_def kept_def demo_read_password_def fgets_stdin_def tcp_stream_def
      split: if_splits list.splits option.splits)

lemma trace_fwrite: "fwrite_all p d w = (ok, w1) \<Longrightarrow> trace {p} [] [] w w1"
  by (auto simp: trace_def frames_wire_def kept_def fwrite_all_def Let_def tcp_stream_def
      split: prod.splits if_splits)

lemma trace_mac: "tls_app_mac seq c key w = (m, w1) \<Longrightarrow> trace P [] [] w w1"
  by (auto simp: trace_def frames_wire_def kept_def tls_app_mac_def malloc_ok_def Let_def tcp_stream_def
      split: prod.splits if_splits)

lemma trace_writes: "writes d w w1 \<Longrightarrow> trace P [] [d] w w1"
  by (auto simp: trace_def frames_wire_def kept_def writes_def tcp_stream_def)

lemma demo_write_all_trace: "demo_write_all d w = (ok, w1) \<Longrightarrow> \<exists>x. trace P [] [x] w w1"
  using demo_write_all_writes trace_writes by blast

lemma trace_join: "trace P [] [x] w w1 \<Longrightarrow> trace P [] [y] w1 w2 \<Longrightarrow> trace P [] [x @ y] w w2"
  by (auto simp: trace_def kept_def frames_wire_def)

lemma trace_none: "trace P [] [[]] w w"
  by (simp add: trace_def kept_def frames_wire_def)

lemma demo_send_frame_trace: "demo_send_frame t d n frag w = (ok, w1) \<Longrightarrow> \<exists>x. trace P [] [x] w w1"
  by (auto simp: demo_send_frame_def Let_def split: if_splits prod.splits
      intro: trace_none dest!: demo_write_all_trace [where P = P]) (blast intro: trace_join)+

lemma client_send_trace:
  "client_send_frame lg peer t d n st ev pid c w = (ok, c1, w1) \<Longrightarrow> \<exists>x. trace P [] [x] w w1"
  using trace_log [of P] trace_trans [where gs = "[]" and y = "[]" and P = P]
  by (fastforce simp: client_send_frame_def split: prod.splits if_splits dest: demo_send_frame_trace [where P = P])

text \<open>The answers of a server without the password: pieces of the frames named.\<close>

lemma server_send_trace:
  assumes "server_send_frame lg peer t [] 0 st ev pid False c w = (ok, c1, w1)"
  shows "\<exists>x y. frame_bytes t [] = x @ y \<and> trace P [] [x] w w1 \<and> tc_frame c1 = tc_frame c"
proof -
  obtain ok0 w0 where s: "demo_send_frame t [] 0 False w = (ok0, w0)" by fastforce
  have r: "w1 = w0 \<or> (\<exists>e. w1 = logger_write lg e w0)" "tc_frame c1 = tc_frame c"
    using assms s by (auto simp: server_send_frame_def split: if_splits)
  from demo_send_frame_writes [of t "[]" False w ok0 w0] s obtain x y where
    xy: "frame_bytes t [] = x @ y" "trace P [] [x] w w0" by (auto intro: trace_writes)
  have "trace P [] [x] w w1"
    using r(1) xy(2) trace_trans [OF xy(2) trace_log] by auto
  with xy(1) r(2) show ?thesis by blast
qed

lemma server_recv_trace:
  assumes "server_recv_frame lg peer st ev pid c w = (Some c1, w1)"
  shows "\<exists>t d. trace P [(t, d)] [] w w1 \<and> tc_frame c1 = filled (tc_frame c) t d \<and> length d \<le> 4096"
proof -
  obtain fr w0 e where r: "demo_recv_frame (tc_frame c) w = (Some fr, w0)" "tc_frame c1 = fr" "w1 = logger_write lg e w0"
    using assms by (auto simp: server_recv_frame_def split: prod.splits option.splits)
  from demo_recv_frame_some [OF r(1)] obtain t d where td: "fr = filled (tc_frame c) t d" "length d \<le> 4096"
    "reads w w0" "tcp_stream w = frame_bytes t d @ tcp_stream w0" by blast
  have "trace P [(t, d)] [] w w0"
    using td reads_same [OF td(3)] by (simp add: trace_def kept_def frames_wire_def)
  from trace_trans [OF this trace_log [of P w0 lg e]] td(1,2) r(2,3) show ?thesis by auto
qed

lemma client_recv_eq:
  "client_recv_frame lg peer st ev pid c w = (r, w1) \<Longrightarrow>
   \<exists>r0 w0. demo_recv_frame (tc_frame c) w = (r0, w0) \<and>
     (case r of None \<Rightarrow> r0 = None \<and> w1 = w0
      | Some c1 \<Rightarrow> r0 = Some (tc_frame c1) \<and> (\<exists>e. w1 = logger_write lg e w0))"
  by (auto simp: client_recv_frame_def split: prod.splits option.splits)

lemma demo_read_all_reads: "demo_read_all n w = (r, w1) \<Longrightarrow> reads w w1"
proof (induction n w arbitrary: r w1 rule: demo_read_all.induct)
  case (1 n w)
  obtain d wa where d: "tcp_recv n w = (d, wa)" by fastforce
  note t = tcp_recv_stream(1) [OF d] and unf = demo_read_all.simps [of n w]
  show ?case
  proof (cases "n = 0 \<or> d = []")
    case True
    with "1.prems" d t unf show ?thesis by (auto split: if_splits)
  next
    case False
    obtain r2 w2 where rec: "demo_read_all (n - length d) wa = (r2, w2)" by fastforce
    with "1.IH" [OF _ d [symmetric]] False have "reads wa w2" by blast
    moreover have "w1 = w2" using "1.prems" d unf False rec by (auto split: option.splits)
    ultimately show ?thesis using t reads_trans by blast
  qed
qed

lemma demo_recv_frame_reads: "demo_recv_frame fr w = (r, w1) \<Longrightarrow> reads w w1"
  by (auto simp: demo_recv_frame_def Let_def split: prod.splits option.splits if_splits
      dest!: demo_read_all_reads intro: reads_trans)

lemma reads_kept: "reads w w1 \<Longrightarrow> kept P [] w w1"
  by (simp add: kept_def reads_same)

lemma client_recv_failed: "client_recv_frame lg peer st ev pid c w = (None, w1) \<Longrightarrow> kept P [] w w1"
  by (drule client_recv_eq) (auto intro: reads_kept demo_recv_frame_reads)

lemma server_recv_failed: "server_recv_frame lg peer st ev pid c w = (None, w1) \<Longrightarrow> kept P [] w w1"
  by (auto simp: server_recv_frame_def split: prod.splits option.splits intro: reads_kept demo_recv_frame_reads)

lemma client_recv_trace:
  assumes "client_recv_frame lg peer st ev pid c w = (Some c1, w1)"
  shows "\<exists>t d. trace P [(t, d)] [] w w1 \<and> tc_frame c1 = filled (tc_frame c) t d \<and> length d \<le> 4096"
proof -
  from client_recv_eq [OF assms] obtain w0 e where r: "demo_recv_frame (tc_frame c) w = (Some (tc_frame c1), w0)"
    "w1 = logger_write lg e w0" by auto
  from demo_recv_frame_some [OF r(1)] obtain t d where td: "tc_frame c1 = filled (tc_frame c) t d" "length d \<le> 4096"
    "reads w w0" "tcp_stream w = frame_bytes t d @ tcp_stream w0" by blast
  have "trace P [(t, d)] [] w w0"
    using td reads_same [OF td(3)] by (simp add: trace_def kept_def frames_wire_def)
  from trace_trans [OF this trace_log [of P w0 lg e]] td(1,2) r(2) show ?thesis by auto
qed

section \<open>The client's verdict\<close>

text \<open>An abort prints \<open>ABORT\<close> and has touched no file but the partial one.\<close>

definition tcp_aborted :: "string \<Rightarrow> world \<Rightarrow> world \<Rightarrow> bool" where
  "tcp_aborted tmp w w1 \<longleftrightarrow> w_stdout w1 = w_stdout w @ [''ABORT'' @ [CHR 0x0A]] \<and>
     (\<forall>q. q \<noteq> tmp \<longrightarrow> w_fs w1 q = w_fs w q)"

text \<open>A stage of the client either exits with status 1 after an abort or goes on.\<close>

definition stage :: "string \<Rightarrow> world \<Rightarrow> (int + 'a) \<Rightarrow> world \<Rightarrow> bool" where
  "stage tmp w r w1 \<longleftrightarrow>
     (case r of Inl rc \<Rightarrow> rc = 1 \<and> tcp_aborted tmp w w1 | Inr a \<Rightarrow> \<exists>fs x. trace {tmp} fs x w w1)"

lemma tcp_aborted_abort: "kept {tmp} x w w0 \<Longrightarrow> tcp_aborted tmp w (tcp_abort lg tmp why w0)"
  by (auto simp: tcp_aborted_def kept_def tcp_abort_def remove_file_def demo_finish_same)

lemma tcp_aborted_finish: "kept {tmp} x w w0 \<Longrightarrow> tcp_aborted tmp w (demo_finish lg ''ABORT'' why w0)"
  by (auto simp: tcp_aborted_def kept_def demo_finish_same)

lemma tcp_aborted_after: "kept {tmp} x w w0 \<Longrightarrow> tcp_aborted tmp w0 w1 \<Longrightarrow> tcp_aborted tmp w w1"
  by (simp add: tcp_aborted_def kept_def)

lemma stage_abort: "kept {tmp} x w w0 \<Longrightarrow> stage tmp w (Inl 1) (tcp_abort lg tmp why w0)"
  by (simp add: stage_def tcp_aborted_abort)

lemma stage_on: "trace {tmp} fs x w w1 \<Longrightarrow> stage tmp w (Inr a) w1"
  by (auto simp: stage_def)

lemma stage_after: "trace {tmp} fs x w w0 \<Longrightarrow> stage tmp w0 r w1 \<Longrightarrow> stage tmp w r w1"
  by (auto simp: stage_def split: sum.splits intro: tcp_aborted_after trace_kept trace_trans)

lemma trace_kept_trans: "trace P fs x w w0 \<Longrightarrow> kept P y w0 w1 \<Longrightarrow> kept P (x @ y) w w1"
  using kept_trans trace_kept by blast

lemma tcp_client_auth_stage:
  "tcp_client_auth lg peer i ps tmp k sp c w = (r, c1, w1) \<Longrightarrow> stage tmp w r w1"
proof (induction lg peer i ps tmp k sp c w arbitrary: r c1 w1 rule: tcp_client_auth.induct)
  case (1 lg peer i ps tmp k sp c w)
  note unf = tcp_client_auth.simps [of lg peer i ps tmp k sp c w]
  obtain stop w0 where rs: "read_stop w = (stop, w0)" by fastforce
  note t0 = trace_stop [OF rs, of "{tmp}"]
  obtain f wa where rcv: "client_recv_frame lg peer ''AUTH'' ''RECV_AUTH_PACKET'' (-1) c w0 = (f, wa)" by fastforce
  show ?case
  proof (cases stop)
    case True
    with "1.prems" unf rs t0 show ?thesis by (auto intro: stage_on)
  next
    case go: False
    show ?thesis
    proof (cases f)
      case None
      with "1.prems" unf rs rcv go have "r = Inl 1" "w1 = tcp_abort lg tmp ''authentication receive failed'' wa" by auto
      with stage_abort [OF trace_kept_trans [OF t0 client_recv_failed [OF rcv [unfolded None]]]] show ?thesis by metis
    next
      case f: (Some c2)
      from client_recv_trace [OF rcv [unfolded f]] obtain t d where "trace {tmp} [(t, d)] [] w0 wa" by blast
      note ta = trace_trans [OF t0 this]
      let ?type = "fr_type (tc_frame c2)"
      show ?thesis
      proof (cases "?type = dpkt DEMO_PKT_PASS_REQ")
        case asked: True
        obtain pw wb where pw: "demo_read_password i ps (int k) (PROTOCOL_MAX_PASSWORD + 1) wa = (pw, wb)" by fastforce
        note tb = trace_trans [OF ta trace_password [OF pw]]
        show ?thesis
        proof (cases pw)
          case None
          with "1.prems" unf rs rcv f go asked pw have "r = Inl 1" "w1 = tcp_abort lg tmp ''password unavailable'' wb" by auto
          with stage_abort [OF trace_kept [OF tb]] show ?thesis by metis
        next
          case (Some q)
          obtain ok c3 wc where snd: "client_send_frame lg peer (dpkt DEMO_PKT_PASS_RESP) (bytes_of_string q)
              (word_of_nat (length q)) ''AUTH'' ''SEND_PASS_RESP'' (-1) c2 wb = (ok, c3, wc)" using prod_cases3 by blast
          from client_send_trace [OF snd, of "{tmp}"] obtain x where "trace {tmp} [] [x] wb wc" by blast
          note tc = trace_trans [OF tb this]
          show ?thesis
          proof (cases ok)
            case False
            with "1.prems" unf rs rcv f go asked pw Some snd have
              "r = Inl 1" "w1 = tcp_abort lg tmp ''failed to send PASS_RESP'' wc" by auto
            with stage_abort [OF trace_kept [OF tc]] show ?thesis by metis
          next
            case True
            with "1.prems"(1) unf rs rcv f go asked pw Some snd have
              "tcp_client_auth lg peer i ps tmp (k + 1) (snprintf_s (PROTOCOL_MAX_PASSWORD + 1) q) c3 wc = (r, c1, w1)" by simp
            from "1.IH"(1) [OF rs [symmetric] go rcv [symmetric] f asked pw [symmetric] Some snd [symmetric] refl _ this] True
            show ?thesis using stage_after [OF tc] by blast
          qed
        qed
      next
        case other: False
        show ?thesis
        proof (cases "?type = dpkt DEMO_PKT_PASS_ACCEPT \<or> ?type = dpkt DEMO_PKT_REJECT")
          case True
          then show ?thesis
          proof
            assume "?type = dpkt DEMO_PKT_PASS_ACCEPT"
            with "1.prems" unf rs rcv f go have "r = Inr sp" "w1 = wa" by auto
            with stage_on [OF ta] show ?thesis by metis
          next
            assume "?type = dpkt DEMO_PKT_REJECT"
            with "1.prems" unf rs rcv f go have "r = Inl 1" "w1 = tcp_abort lg tmp ''server rejected authentication'' wa" by auto
            with stage_abort [OF trace_kept [OF ta]] show ?thesis by metis
          qed
        next
          case False
          with "1.prems"(1) unf rs rcv f go other have
            "tcp_client_auth lg peer i ps tmp k sp c2 wa = (r, c1, w1)" by simp
          from "1.IH"(2) [OF rs [symmetric] go rcv [symmetric] f other _ _ this] False
          show ?thesis using stage_after [OF ta] by blast
        qed
      qed
    qed
  qed
qed

lemma tls_client_handshake_stage:
  assumes "tls_client_handshake lg peer p tmp c w = (r, c1, w1)"
  shows "stage tmp w r w1 \<and> (\<forall>key. r = Inr key \<longrightarrow> fr_type (tc_frame c1) = dpkt DEMO_PKT_FINISHED)"
proof -
  obtain cn wa where n: "demo_random_nonce 16 w = (cn, wa)" by fastforce
  note ta = trace_nonce [OF n, of "{tmp}"]
  obtain ok c2 w2 where s2: "client_send_frame lg peer (dpkt DEMO_PKT_CLIENT_HELLO) cn 16 ''HANDSHAKE''
    ''SEND_CLIENT_HELLO'' (-1) c wa = (ok, c2, w2)" using prod_cases3 by blast
  from client_send_trace [OF s2, of "{tmp}"] obtain x2 where "trace {tmp} [] [x2] wa w2" by blast
  note t2 = trace_trans [OF ta this]
  note unf = assms [unfolded tls_client_handshake_def Let_def n prod.case s2]
  obtain f3 w3 where r3: "client_recv_frame lg peer ''HANDSHAKE'' ''RECV_SERVER_HELLO'' (-1) c2 w2 = (f3, w3)" by fastforce
  show ?thesis
  proof (cases "ok \<and> f3 \<noteq> None")
    case False
    then show ?thesis
    proof (cases ok)
      case False
      with unf have "r = Inl 1" "w1 = tcp_abort lg tmp ''tls-like hello failed'' w2" by auto
      with stage_abort [OF trace_kept [OF t2]] show ?thesis by auto
    next
      case True
      with \<open>\<not> (ok \<and> f3 \<noteq> None)\<close> have f: "f3 = None" by simp
      with unf True r3 have "r = Inl 1" "w1 = tcp_abort lg tmp ''tls-like hello failed'' w3" by auto
      with stage_abort [OF trace_kept_trans [OF t2 client_recv_failed [OF r3 [unfolded f]]]] show ?thesis by auto
    qed
  next
    case True
    then obtain c3 where ok: ok and f3: "f3 = Some c3" by auto
    from client_recv_trace [OF r3 [unfolded f3], of "{tmp}"] obtain t d where "trace {tmp} [(t, d)] [] w2 w3" by blast
    note t3 = trace_trans [OF t2 this]
    show ?thesis
    proof (cases "fr_type (tc_frame c3) \<noteq> dpkt DEMO_PKT_SERVER_HELLO \<or> fr_length (tc_frame c3) \<noteq> 16")
      case True
      with unf ok r3 f3 have "r = Inl 1" "w1 = tcp_abort lg tmp ''tls-like hello failed'' w3" by auto
      with stage_abort [OF trace_kept [OF t3]] show ?thesis by auto
    next
      case hello: False
      define key where "key = demo_derive_session_key p cn (take 16 (fr_payload (tc_frame c3)))"
      let ?fin = "demo_hmac_sha1 key (bytes_of_string ''client-finished'')"
      obtain ok4 c4 w4 where s4: "client_send_frame lg peer (dpkt DEMO_PKT_FINISHED) ?fin 20 ''HANDSHAKE''
        ''SEND_FINISHED'' (-1) c3 w3 = (ok4, c4, w4)" using prod_cases3 by blast
      from client_send_trace [OF s4, of "{tmp}"] obtain x4 where "trace {tmp} [] [x4] w3 w4" by blast
      note t4 = trace_trans [OF t3 this]
      obtain f5 w5 where r5: "client_recv_frame lg peer ''HANDSHAKE'' ''RECV_FINISHED'' (-1) c4 w4 = (f5, w5)" by fastforce
      note unf = unf [unfolded r3 f3 prod.case option.case, folded key_def, unfolded s4 prod.case r5]
      show ?thesis
      proof (cases ok4)
        case False
        with unf ok hello have "r = Inl 1" "w1 = tcp_abort lg tmp ''tls-like finished failed'' w4" by auto
        with stage_abort [OF trace_kept [OF t4]] show ?thesis by auto
      next
        case ok4: True
        show ?thesis
        proof (cases f5)
          case None
          with unf ok ok4 hello have "r = Inl 1" "w1 = tcp_abort lg tmp ''tls-like finished failed'' w5" by auto
          with stage_abort [OF trace_kept_trans [OF t4 client_recv_failed [OF r5 [unfolded None]]]] show ?thesis by auto
        next
          case f5: (Some c5)
          from client_recv_trace [OF r5 [unfolded f5], of "{tmp}"] obtain t' d' where "trace {tmp} [(t', d')] [] w4 w5" by blast
          note t5 = trace_trans [OF t4 this]
          show ?thesis
          proof (cases "fr_type (tc_frame c5) \<noteq> dpkt DEMO_PKT_FINISHED")
            case True
            with unf ok ok4 hello f5 have "r = Inl 1" "w1 = tcp_abort lg tmp ''tls-like finished failed'' w5" by auto
            with stage_abort [OF trace_kept [OF t5]] show ?thesis by auto
          next
            case False
            with unf ok ok4 hello f5 obtain e1 e2 where
              "r = Inl 1 \<and> w1 = tcp_abort lg tmp ''tls-like finished verify failed'' (logger_write lg e1 (logger_write lg e2 w5)) \<or>
               r = Inr key \<and> c1 = c5 \<and> w1 = logger_write lg e2 w5"
              by (auto split: if_splits)
            then show ?thesis
              using False stage_abort [OF trace_kept [OF trace_trans [OF trace_trans [OF t5 trace_log] trace_log]]]
                stage_on [OF trace_trans [OF t5 trace_log]] by auto
          qed
        qed
      qed
    qed
  qed
qed

lemma verify_trace:
  assumes "verify_tls_app_data lg peer fr key tmp seen w = (ok, fr1, seen1, w1)"
  shows "trace {tmp} [] [] w w1 \<and> fr_type fr1 = fr_type fr"
proof -
  let ?c = "take (unat (fr_length fr - 24)) (drop 24 (fr_payload fr))"
  obtain m w0 where m: "client_tls_app_mac (seq_of (fr_payload fr)) ?c key w = (m, w0)" by fastforce
  have t0: "trace {tmp} [] [] w w0" using m by (simp add: client_tls_app_mac_eq trace_mac)
  obtain wok w2 where wr: "(if unat (fr_length fr - 24) > 0 then fwrite_all tmp (demo_xor_crypt ?c key) w0 else (True, w0)) = (wok, w2)"
    by fastforce
  have "trace {tmp} [] [] w0 w2" using wr by (auto simp: trace_fwrite split: if_splits)
  note t2 = trace_trans [OF t0 this]
  have "w1 = w \<or> (\<exists>e. w1 = logger_write lg e w0) \<or> w1 = w2" "fr_type fr1 = fr_type fr"
    using assms m wr by (auto simp: verify_tls_app_data_def Let_def split: if_splits)
  with t2 trace_trans [OF t0 trace_log] show ?thesis by fastforce
qed

section \<open>The end of a transfer\<close>

text \<open>The last frame read is \<open>TERMINATE\<close>, and \<open>fr\<close> is the buffer after it.\<close>

definition announced :: "string \<Rightarrow> world \<Rightarrow> DemoFrame \<Rightarrow> world \<Rightarrow> bool" where
  "announced tmp w fr w1 \<longleftrightarrow>
     (\<exists>fs x d c0. trace {tmp} (fs @ [(dpkt DEMO_PKT_TERMINATE, d)]) x w w1 \<and>
        fr = filled c0 (dpkt DEMO_PKT_TERMINATE) d \<and> length d \<le> 4096)"

definition ended :: "string \<Rightarrow> world \<Rightarrow> (int + DemoFrame) \<Rightarrow> world \<Rightarrow> bool" where
  "ended tmp w r w1 \<longleftrightarrow> stage tmp w r w1 \<and>
     (\<forall>fr. r = Inr fr \<longrightarrow> fr_type fr = dpkt DEMO_PKT_TERMINATE \<longrightarrow> announced tmp w fr w1)"

lemma announced_after:
  assumes "trace {tmp} gs y w w0" "announced tmp w0 fr w1"
  shows "announced tmp w fr w1"
proof -
  from assms(2) obtain fs x d c0 where f: "trace {tmp} (fs @ [(dpkt DEMO_PKT_TERMINATE, d)]) x w0 w1"
    "fr = filled c0 (dpkt DEMO_PKT_TERMINATE) d" "length d \<le> 4096" unfolding announced_def by blast
  have "trace {tmp} ((gs @ fs) @ [(dpkt DEMO_PKT_TERMINATE, d)]) (y @ x) w w1"
    using trace_trans [OF assms(1) f(1)] by simp
  with f(2,3) show ?thesis unfolding announced_def by blast
qed

lemma announced_now:
  assumes "trace {tmp} gs y w w0" "trace {tmp} [(t, d)] [] w0 w1" "fr = filled c t d" "length d \<le> 4096"
    "fr_type fr = dpkt DEMO_PKT_TERMINATE"
  shows "announced tmp w fr w1"
  unfolding announced_def using trace_trans [OF assms(1,2)] assms(3-5) by (intro exI) simp

lemma ended_after: "trace {tmp} fs x w w0 \<Longrightarrow> ended tmp w0 r w1 \<Longrightarrow> ended tmp w r w1"
  unfolding ended_def using stage_after announced_after by blast

lemma ended_abort: "kept {tmp} x w w0 \<Longrightarrow> ended tmp w (Inl 1) (tcp_abort lg tmp why w0)"
  by (simp add: ended_def stage_abort)

lemma tls_client_loop_ended:
  "tls_client_loop lg peer key tmp pid seen c w = (r, w1) \<Longrightarrow>
   fr_type (tc_frame c) \<noteq> dpkt DEMO_PKT_TERMINATE \<Longrightarrow> ended tmp w r w1"
proof (induction lg peer key tmp pid seen c w arbitrary: r w1 rule: tls_client_loop.induct)
  case (1 lg peer key tmp pid seen c w)
  note unf = tls_client_loop.simps [of lg peer key tmp pid seen c w]
  obtain stop w0 where rs: "read_stop w = (stop, w0)" by fastforce
  note t0 = trace_stop [OF rs, of "{tmp}"]
  obtain f wa where rcv: "client_recv_frame lg peer ''DATA_TRANSFER'' ''RECV_TRANSFER_PACKET'' pid c w0 = (f, wa)" by fastforce
  show ?case
  proof (cases stop)
    case True
    with "1.prems"(1) unf rs have "r = Inr (tc_frame c)" "w1 = w0" by auto
    with stage_on [OF t0] "1.prems"(2) show ?thesis by (auto simp: ended_def)
  next
    case go: False
    show ?thesis
    proof (cases f)
      case None
      with "1.prems"(1) unf rs rcv go have "r = Inl 1" "w1 = tcp_abort lg tmp ''tls-like app data receive failed'' wa" by auto
      with ended_abort [OF trace_kept_trans [OF t0 client_recv_failed [OF rcv [unfolded None]]]] show ?thesis by metis
    next
      case f: (Some c2)
      from client_recv_trace [OF rcv [unfolded f], of "{tmp}"] obtain t d where
        td: "trace {tmp} [(t, d)] [] w0 wa" "tc_frame c2 = filled (tc_frame c) t d" "length d \<le> 4096" by blast
      note ta = trace_trans [OF t0 td(1)]
      show ?thesis
      proof (cases "fr_type (tc_frame c2) = dpkt DEMO_PKT_APP_DATA")
        case False
        with "1.prems"(1) unf rs rcv f go have r: "r = Inr (tc_frame c2)" "w1 = wa" by auto
        with stage_on [OF ta] announced_now [OF t0 td] show ?thesis by (auto simp: ended_def)
      next
        case app: True
        obtain ok fr1 seen1 wb where v: "verify_tls_app_data lg peer (tc_frame c2) key tmp seen wa = (ok, fr1, seen1, wb)"
          using prod_cases4 by blast
        note vt = verify_trace [OF v]
        note tb = trace_trans [OF ta conjunct1 [OF vt]]
        show ?thesis
        proof (cases ok)
          case False
          with "1.prems"(1) unf rs rcv f go app v have "r = Inl 1" "w1 = tcp_abort lg tmp ''tls-like app data verify failed'' wb" by auto
          with ended_abort [OF trace_kept [OF tb]] show ?thesis by metis
        next
          case True
          with "1.prems"(1) unf rs rcv f go app v have
            rec: "tls_client_loop lg peer key tmp (pid + 1) seen1 (c2\<lparr>tc_frame := fr1\<rparr>) wb = (r, w1)" by simp
          have "fr_type (tc_frame (c2\<lparr>tc_frame := fr1\<rparr>)) \<noteq> dpkt DEMO_PKT_TERMINATE" using vt app by simp
          from "1.IH" [OF rs [symmetric] go rcv [symmetric] f _ v [symmetric] refl refl _ rec this] app True
          show ?thesis using ended_after [OF tb] by blast
        qed
      qed
    qed
  qed
qed

text \<open>
  Success: \<open>OK\<close> is printed, no file but the partial one and the output has changed, and
  the digest of the file received, \<open>f\<close>, begins with what the last frame carries of a digest:
  all of it when the frame has twenty bytes or more, a part when it is shorter. The output
  is \<open>f\<close>, except when the renaming failed.
\<close>

definition delivered :: "string \<Rightarrow> string \<Rightarrow> world \<Rightarrow> world \<Rightarrow> bool" where
  "delivered out tmp w w1 \<longleftrightarrow>
     w_stdout w1 = w_stdout w @ [''OK'' @ [CHR 0x0A]] \<and>
     (\<forall>q. q \<noteq> tmp \<longrightarrow> q \<noteq> out \<longrightarrow> w_fs w1 q = w_fs w q) \<and>
     (\<exists>fs d rest f. list_all (\<lambda>(t, d). length d \<le> 4096) fs \<and> length d \<le> 4096 \<and>
        tcp_stream w = frames_wire (fs @ [(dpkt DEMO_PKT_TERMINATE, d)]) @ rest \<and>
        \<not> f_bad f \<and> take (length d) (sha1_digest (f_data f)) = take 20 d \<and>
        (w_fs w1 out = Some f \<or> w_renamefault w \<noteq> [] \<and> w_fs w1 tmp = Some f \<and> (out \<noteq> tmp \<longrightarrow> w_fs w1 out = w_fs w out)))"

lemma tcp_client_terminate_verdict:
  assumes "announced tmp w0 fr w" "tcp_client_terminate lg out tmp bad good note fr w = (rc, w1)"
    and note_same: "\<And>x w'. w_fs (note x w') = w_fs w' \<and> w_stdout (note x w') = w_stdout w' \<and> w_renamefault (note x w') = w_renamefault w'"
  shows "rc = 1 \<and> tcp_aborted tmp w0 w1 \<or> rc = 0 \<and> delivered out tmp w0 w1"
proof -
  from assms(1) obtain fs x d c0 where a: "trace {tmp} (fs @ [(dpkt DEMO_PKT_TERMINATE, d)]) x w0 w"
    "fr = filled c0 (dpkt DEMO_PKT_TERMINATE) d" "length d \<le> 4096" unfolding announced_def by blast
  note k = trace_kept [OF a(1)]
  show ?thesis
  proof (cases "\<exists>f. w_fs w tmp = Some f \<and> \<not> f_bad f \<and> sha1_digest (f_data f) = take 20 (fr_payload fr)")
    case False
    then have "rc = 1 \<and> w1 = tcp_abort lg tmp bad w"
      using assms(2) by (auto simp: tcp_client_terminate_def sha1_file_digest split: option.splits if_splits)
    with tcp_aborted_abort [OF k] show ?thesis by blast
  next
    case True
    then obtain f where f: "w_fs w tmp = Some f" "\<not> f_bad f" "sha1_digest (f_data f) = take 20 (fr_payload fr)" by blast
    let ?w2 = "note (sha1_digest (f_data f)) w"
    obtain ok w3 where ren: "rename_file tmp out ?w2 = (ok, w3)" by fastforce
    have r: "rc = 0" "w1 = demo_finish lg ''OK'' good w3"
      using assms(2) f ren by (simp_all add: tcp_client_terminate_def sha1_file_digest)
    have dg: "take (length d) (sha1_digest (f_data f)) = take 20 d" using f(3) a(2) by (simp add: filled_def min_def)
    have fs: "w_fs ?w2 = w_fs w" "w_stdout ?w2 = w_stdout w" "w_renamefault ?w2 = w_renamefault w"
      using note_same by blast+
    have out: "w_stdout w3 = w_stdout w \<and> (\<forall>q. q \<noteq> tmp \<longrightarrow> q \<noteq> out \<longrightarrow> w_fs w3 q = w_fs w q) \<and>
       (w_fs w3 out = Some f \<or> w_renamefault w \<noteq> [] \<and> w_fs w3 = w_fs w)"
      using ren fs f(1) by (cases "w_renamefault w") (auto simp: rename_file_def Let_def split: if_splits)
    have "delivered out tmp w0 w1"
      unfolding delivered_def
    proof (intro conjI)
      show "w_stdout w1 = w_stdout w0 @ [''OK'' @ [CHR 0x0A]]" "\<forall>q. q \<noteq> tmp \<longrightarrow> q \<noteq> out \<longrightarrow> w_fs w1 q = w_fs w0 q"
        using r(2) out k by (simp_all add: demo_finish_same kept_def)
      have "w_fs w1 out = Some f \<or> w_renamefault w0 \<noteq> [] \<and> w_fs w1 tmp = Some f \<and> (out \<noteq> tmp \<longrightarrow> w_fs w1 out = w_fs w0 out)"
        using r(2) out k f(1) by (auto simp: demo_finish_same kept_def)
      then show "\<exists>fs d rest f. list_all (\<lambda>(t, d). length d \<le> 4096) fs \<and> length d \<le> 4096 \<and>
        tcp_stream w0 = frames_wire (fs @ [(dpkt DEMO_PKT_TERMINATE, d)]) @ rest \<and>
        \<not> f_bad f \<and> take (length d) (sha1_digest (f_data f)) = take 20 d \<and>
        (w_fs w1 out = Some f \<or> w_renamefault w0 \<noteq> [] \<and> w_fs w1 tmp = Some f \<and> (out \<noteq> tmp \<longrightarrow> w_fs w1 out = w_fs w0 out))"
        using a(1,3) f(2) dg unfolding trace_def list_all_append by blast
    qed
    with r(1) show ?thesis by blast
  qed
qed

text \<open>What a session ends in, and how a stage before it carries over.\<close>

definition tcp_verdict :: "string \<Rightarrow> string \<Rightarrow> world \<Rightarrow> int \<Rightarrow> world \<Rightarrow> bool" where
  "tcp_verdict out tmp w rc w1 \<longleftrightarrow> rc = 1 \<and> tcp_aborted tmp w w1 \<or> rc = 0 \<and> delivered out tmp w w1"

lemma verdict_abort: "kept {tmp} x w w0 \<Longrightarrow> tcp_verdict out tmp w 1 (tcp_abort lg tmp why w0)"
  by (simp add: tcp_verdict_def tcp_aborted_abort)

lemma delivered_after:
  assumes "trace {tmp} gs x w w0" "delivered out tmp w0 w1"
  shows "delivered out tmp w w1"
proof -
  note k = trace_kept [OF assms(1)]
  from assms(2) obtain fs d rest f where
    a: "list_all (\<lambda>(t, d). length d \<le> 4096) fs" "length d \<le> 4096"
      "tcp_stream w0 = frames_wire (fs @ [(dpkt DEMO_PKT_TERMINATE, d)]) @ rest"
      "\<not> f_bad f" "take (length d) (sha1_digest (f_data f)) = take 20 d"
      "w_fs w1 out = Some f \<or> w_renamefault w0 \<noteq> [] \<and> w_fs w1 tmp = Some f \<and> (out \<noteq> tmp \<longrightarrow> w_fs w1 out = w_fs w0 out)"
    unfolding delivered_def by blast
  have "list_all (\<lambda>(t, d). length d \<le> 4096) (gs @ fs)"
    "tcp_stream w = frames_wire ((gs @ fs) @ [(dpkt DEMO_PKT_TERMINATE, d)]) @ rest"
    using assms(1) a(1,3) by (simp_all add: trace_def frames_wire_def)
  moreover have "w_fs w1 out = Some f \<or> w_renamefault w \<noteq> [] \<and> w_fs w1 tmp = Some f \<and> (out \<noteq> tmp \<longrightarrow> w_fs w1 out = w_fs w out)"
    using a(6) k by (auto simp: kept_def)
  moreover have "w_stdout w1 = w_stdout w @ [''OK'' @ [CHR 0x0A]]"
    "\<forall>q. q \<noteq> tmp \<longrightarrow> q \<noteq> out \<longrightarrow> w_fs w1 q = w_fs w q"
    using assms(2) k by (auto simp: delivered_def kept_def)
  ultimately show ?thesis using a(2,4,5) unfolding delivered_def by blast
qed

lemma verdict_after: "trace {tmp} fs x w w0 \<Longrightarrow> tcp_verdict out tmp w0 rc w1 \<Longrightarrow> tcp_verdict out tmp w rc w1"
  unfolding tcp_verdict_def using delivered_after tcp_aborted_after trace_kept by blast

lemma verdict_stage: "stage tmp w (Inl rc) w1 \<Longrightarrow> tcp_verdict out tmp w rc w1"
  by (simp add: stage_def tcp_verdict_def)

lemma tls_client_transfer_verdict:
  assumes "tls_client_transfer lg peer p out tmp c w = (rc, w1)"
  shows "tcp_verdict out tmp w rc w1"
proof -
  obtain r c1 wa where h: "tls_client_handshake lg peer p tmp c w = (r, c1, wa)" using prod_cases3 by blast
  note hs = tls_client_handshake_stage [OF h]
  show ?thesis
  proof (cases r)
    case (Inl s)
    with assms h have "rc = s" "w1 = wa" by (auto simp: tls_client_transfer_def)
    with hs Inl show ?thesis using verdict_stage by blast
  next
    case (Inr key)
    with hs obtain fs x where ta: "trace {tmp} fs x w wa" by (auto simp: stage_def)
    obtain r2 wb where l: "tls_client_loop lg peer key tmp 0 0 c1 wa = (r2, wb)" by fastforce
    have "fr_type (tc_frame c1) \<noteq> dpkt DEMO_PKT_TERMINATE" using hs Inr by simp
    note e = tls_client_loop_ended [OF l this]
    show ?thesis
    proof (cases r2)
      case (Inl s)
      with assms h l \<open>r = Inr key\<close> have "rc = s" "w1 = wb" by (auto simp: tls_client_transfer_def)
      with e Inl verdict_stage [of tmp wa s wb out] verdict_after [OF ta] show ?thesis by (auto simp: ended_def)
    next
      case (Inr fr)
      with e obtain gs y where tb: "trace {tmp} gs y wa wb" by (auto simp: ended_def stage_def)
      show ?thesis
      proof (cases "fr_type fr = dpkt DEMO_PKT_TERMINATE")
        case True
        with e Inr have an: "announced tmp wa fr wb" by (simp add: ended_def)
        let ?note = "\<lambda>local_digest. logger_write lg (Some ((demo_init_event ''SUCCESS'' ''DIGEST_MATCH'' ''DONE''
            ''tls-like digest matched'')\<lparr>le_peer := Some peer, le_sha1 := Some (sha1_to_hex local_digest)\<rparr>))"
        have "tcp_client_terminate lg out tmp ''tls-like digest mismatch'' ''tls-like transfer completed'' ?note fr wb = (rc, w1)"
          using assms h l \<open>r = Inr key\<close> Inr True by (simp add: tls_client_transfer_def)
        from tcp_client_terminate_verdict [OF an this] show ?thesis
          using verdict_after [OF ta] by (simp add: tcp_verdict_def logger_write_def Let_def)
      next
        case False
        with assms h l \<open>r = Inr key\<close> Inr have "rc = 1" "w1 = tcp_abort lg tmp ''missing terminate for tls-like flow'' wb"
          by (auto simp: tls_client_transfer_def)
        with verdict_abort [OF trace_kept [OF trace_trans [OF ta tb]]] show ?thesis by metis
      qed
    qed
  qed
qed

lemma tcp_client_loop_verdict:
  "tcp_client_loop lg peer out tmp pid c w = (rc, w1) \<Longrightarrow> tcp_verdict out tmp w rc w1"
proof (induction lg peer out tmp pid c w arbitrary: rc w1 rule: tcp_client_loop.induct)
  case (1 lg peer out tmp pid c w)
  note unf = tcp_client_loop.simps [of lg peer out tmp pid c w]
  obtain stop w0 where rs: "read_stop w = (stop, w0)" by fastforce
  note t0 = trace_stop [OF rs, of "{tmp}"]
  obtain f wa where rcv: "client_recv_frame lg peer ''DATA_TRANSFER'' ''RECV_TRANSFER_PACKET'' pid c w0 = (f, wa)" by fastforce
  show ?case
  proof (cases "stop \<or> f = None")
    case True
    then show ?thesis
    proof (cases stop)
      case True
      with "1.prems" unf rs have "rc = 1" "w1 = tcp_abort lg tmp ''client stopped'' w0" by auto
      with verdict_abort [OF trace_kept [OF t0]] show ?thesis by metis
    next
      case False
      with True have f: "f = None" by simp
      with False "1.prems" unf rs rcv have "rc = 1" "w1 = tcp_abort lg tmp ''tcp-basic receive failed'' wa" by auto
      with verdict_abort [OF trace_kept_trans [OF t0 client_recv_failed [OF rcv [unfolded f]]]] show ?thesis by metis
    qed
  next
    case False
    then obtain c2 where f: "f = Some c2" and go: "\<not> stop" by auto
    from client_recv_trace [OF rcv [unfolded f], of "{tmp}"] obtain t d where
      td: "trace {tmp} [(t, d)] [] w0 wa" "tc_frame c2 = filled (tc_frame c) t d" "length d \<le> 4096" by blast
    note ta = trace_trans [OF t0 td(1)]
    let ?fr = "tc_frame c2"
    consider "fr_type ?fr = dpkt DEMO_PKT_DATA" | "fr_type ?fr = dpkt DEMO_PKT_TERMINATE"
      | "fr_type ?fr \<noteq> dpkt DEMO_PKT_DATA" "fr_type ?fr \<noteq> dpkt DEMO_PKT_TERMINATE" by blast
    then show ?thesis
    proof cases
      case 1
      obtain ok wb where wr: "(if fr_length ?fr > 0 then fwrite_all tmp (take (unat (fr_length ?fr)) (fr_payload ?fr)) wa
          else (True, wa)) = (ok, wb)" by fastforce
      then have "trace {tmp} [] [] wa wb" by (auto simp: trace_fwrite split: if_splits)
      note tb = trace_trans [OF ta this]
      show ?thesis
      proof (cases ok)
        case False
        with "1.prems" unf rs rcv f go 1 wr have "rc = 1" "w1 = tcp_abort lg tmp ''output write failed'' wb"
          by (auto simp: Let_def split del: if_split)
        with verdict_abort [OF trace_kept [OF tb]] show ?thesis by metis
      next
        case True
        with "1.prems" unf rs rcv f go 1 wr have rec: "tcp_client_loop lg peer out tmp (pid + 1) c2 wb = (rc, w1)"
          by (simp add: Let_def split del: if_split)
        from "1.IH"(1) [OF rs [symmetric] go rcv [symmetric] f refl 1 wr [symmetric] _ rec] True
        show ?thesis using verdict_after [OF tb] by blast
      qed
    next
      case 2
      have "tcp_client_terminate lg out tmp ''digest mismatch'' ''tcp-basic transfer completed'' (\<lambda>x w'. w') ?fr wa = (rc, w1)"
        using "1.prems" unf rs rcv f go 2 by (simp add: Let_def)
      from tcp_client_terminate_verdict [OF announced_now [OF t0 td 2] this] show ?thesis by (simp add: tcp_verdict_def)
    next
      case 3
      with "1.prems" unf rs rcv f go have rec: "tcp_client_loop lg peer out tmp pid c2 wa = (rc, w1)" by (simp add: Let_def)
      from "1.IH"(2) [OF rs [symmetric] go rcv [symmetric] f refl 3 rec]
      show ?thesis using verdict_after [OF ta] by blast
    qed
  qed
qed

lemma tcp_client_session_ends:
  assumes "tcp_client_session lg peer i ps out tmp junk w = (rc, w1)"
  shows "tcp_verdict out tmp w rc w1"
proof -
  obtain ok c1 wa where s: "client_send_frame lg peer (dpkt DEMO_PKT_JOIN_REQ) [] 0 ''WAIT_PASS_REQ'' ''SEND_JOIN_REQ''
    (-1) (new_conn junk) w = (ok, c1, wa)" using prod_cases3 by blast
  from client_send_trace [OF s, of "{tmp}"] obtain x where ta: "trace {tmp} [] [x] w wa" by blast
  obtain r c2 wb where a: "tcp_client_auth lg peer i ps tmp 0 ''secret'' c1 wa = (r, c2, wb)" using prod_cases3 by blast
  note st = tcp_client_auth_stage [OF a]
  show ?thesis
  proof (cases ok)
    case False
    with assms s have "rc = 1" "w1 = demo_finish lg ''ABORT'' ''failed to send JOIN_REQ'' wa" by (auto simp: tcp_client_session_def)
    with tcp_aborted_finish [OF trace_kept [OF ta]] show ?thesis by (simp add: tcp_verdict_def)
  next
    case ok: True
    show ?thesis
    proof (cases r)
      case (Inl q)
      with assms s a ok have "rc = q" "w1 = wb" by (auto simp: tcp_client_session_def)
      with st Inl verdict_after [OF ta] verdict_stage show ?thesis by blast
    next
      case (Inr p)
      with st obtain fs y where "trace {tmp} fs y wa wb" by (auto simp: stage_def)
      note tb = trace_trans [OF ta this]
      from assms s a ok Inr have
        "tls_client_transfer lg peer p out tmp c2 wb = (rc, w1) \<or> tcp_client_loop lg peer out tmp 0 c2 wb = (rc, w1)"
        by (auto simp: tcp_client_session_def split: if_splits)
      then have "tcp_verdict out tmp wb rc w1"
        using tls_client_transfer_verdict tcp_client_loop_verdict by blast
      with verdict_after [OF tb] show ?thesis by blast
    qed
  qed
qed

lemma trace_socket: "socket_call w = (ok, w1) \<Longrightarrow> trace P [] [] w w1"
  by (auto simp: trace_def frames_wire_def kept_def socket_call_def tcp_stream_def Let_def split: prod.splits)

lemma trace_connect: "connect_loop as w = (r, w1) \<Longrightarrow> trace P [] [] w w1"
proof (induction as w arbitrary: r w1 rule: connect_loop.induct)
  case (2 rp rps w)
  obtain ok wa where a: "socket_call w = (ok, wa)" by fastforce
  obtain ok2 wb where b: "socket_call wa = (ok2, wb)" by fastforce
  note ta = trace_socket [OF a, of P] and tb = trace_socket [OF b, of P]
  show ?case
  proof (cases ok)
    case False
    with "2.prems" a "2.IH"(1) [OF a [symmetric]] trace_trans [OF ta] show ?thesis by fastforce
  next
    case ok: True
    show ?thesis
    proof (cases ok2)
      case True
      with "2.prems" a b ok trace_trans [OF ta tb] show ?thesis by simp
    next
      case False
      with "2.prems" a b ok have "connect_loop rps wb = (r, w1)" by simp
      with "2.IH"(2) [OF a [symmetric] _ b [symmetric]] ok False have "trace P [] [] wb w1" by blast
      with trace_trans [OF trace_trans [OF ta tb]] show ?thesis by fastforce
    qed
  qed
qed simp

lemma trace_fopen: "fopen_wb p w = (ok, w1) \<Longrightarrow> trace {p} [] [] w w1"
  by (auto simp: trace_def frames_wire_def kept_def fopen_wb_def tcp_stream_def split: if_splits)

text \<open>The output path a command line names, and the partial file beside it.\<close>

definition output_of :: "string list \<Rightarrow> string" where
  "output_of argv = (if length argv = 7 then argv ! 6 else argv ! 3)"

definition partial_of :: "string list \<Rightarrow> string" where
  "partial_of argv = snprintf_s 512 (output_of argv @ ''.part'')"

definition client_main_ends :: "string list \<Rightarrow> world \<Rightarrow> int \<Rightarrow> world \<Rightarrow> bool" where
  "client_main_ends argv w rc w1 \<longleftrightarrow>
     rc = 1 \<and> w_unwritable w ''logs/client.jsonl'' \<and> w1 = w \<or> tcp_verdict (output_of argv) (partial_of argv) w rc w1"

lemma tcp_client_main_verdict:
  assumes "tcp_client_main junk argv w = (rc, w1)"
  shows "client_main_ends argv w rc w1"
proof -
  let ?out = "output_of argv" and ?tmp = "partial_of argv"
  have early: "client_main_ends argv w 1 (demo_finish lg ''ABORT'' why w')" if "trace {?tmp} y x w w'" for lg why w' x y
    using tcp_aborted_finish [OF trace_kept [OF that]] by (simp add: client_main_ends_def tcp_verdict_def)
  obtain lrc lg0 where lo: "logger_open (Some ''client'') (Some ''logs/client.jsonl'') w = (lrc, lg0)" by fastforce
  show ?thesis
  proof (cases "lg0 = None \<or> lrc \<noteq> 0")
    case True
    with assms lo show ?thesis by (auto simp: tcp_client_main_def client_main_ends_def logger_open_def Let_def split: if_splits)
  next
    case False
    then obtain lg where lg: "lg0 = Some lg" "lrc = 0" by auto
    show ?thesis
    proof (cases "length argv = 7 \<or> length argv = 4")
      case False
      with assms lo lg early [OF trace_refl] show ?thesis by (auto simp: tcp_client_main_def Let_def)
    next
      case True
      have args: "(if length argv = 7 then Some (False, [argv ! 3, argv ! 4, argv ! 5], argv ! 6)
          else if length argv = 4 then Some (True, [], argv ! 3) else None) =
          Some (if length argv = 7 then (False, [argv ! 3, argv ! 4, argv ! 5], ?out) else (True, [], ?out))"
        using True by (auto simp: output_of_def)
      obtain i ps where ips: "(if length argv = 7 then (False, [argv ! 3, argv ! 4, argv ! 5], ?out) else (True, [], ?out)) = (i, ps, ?out)"
      proof (cases "length argv = 7")
        case True
        then show ?thesis by (intro that [of False "[argv ! 3, argv ! 4, argv ! 5]"]) simp
      next
        case False
        then show ?thesis by (intro that [of True "[]"]) simp
      qed
      note args = args [unfolded ips]
      note unf = assms [unfolded tcp_client_main_def lo lg prod.case option.case Let_def args]
      show ?thesis
      proof (cases "parse_port (Some (argv ! 2))")
        case None
        with unf early [OF trace_refl] show ?thesis by auto
      next
        case (Some port)
        obtain addr wa where c: "demo_connect_tcp (argv ! 1) port w = (addr, wa)" by fastforce
        then have ta: "trace {?tmp} [] [] w wa"
          by (auto simp: demo_connect_tcp_def split: option.splits intro: trace_connect)
        show ?thesis
        proof (cases addr)
          case None
          with unf Some c early [OF ta] show ?thesis by auto
        next
          case addr: (Some a)
          obtain ok wb where f: "fopen_wb ?tmp wa = (ok, wb)" by fastforce
          note tb = trace_trans [OF ta trace_fopen [OF f]]
          note unf = unf [unfolded Some c addr option.case prod.case, folded partial_of_def, unfolded f prod.case]
          show ?thesis
          proof (cases ok)
            case False
            with unf early [OF tb] show ?thesis by auto
          next
            case True
            with unf obtain e where
              "tcp_client_session lg (peer_to_string a 64) i ps ?out ?tmp junk (logger_write lg e wb) = (rc, w1)" by auto
            from tcp_client_session_ends [OF this] verdict_after [OF trace_trans [OF tb trace_log]]
            show ?thesis by (auto simp: client_main_ends_def)
          qed
        qed
      qed
    qed
  qed
qed

section \<open>The server without the password\<close>

text \<open>A piece of \<open>PASS_REQ\<close> or \<open>REJECT\<close>, as partial sends leave it.\<close>

definition question :: "byte list \<Rightarrow> bool" where
  "question x \<longleftrightarrow> (\<exists>t y. (t = DEMO_PKT_PASS_REQ \<or> t = DEMO_PKT_REJECT) \<and> frame_bytes (dpkt t) [] = x @ y)"

definition refused :: "world \<Rightarrow> world \<Rightarrow> bool" where
  "refused w w1 \<longleftrightarrow> w_stdout w1 = w_stdout w @ [''ABORT'' @ [CHR 0x0A]] \<and>
     (\<exists>parts. list_all question parts \<and> w_tcp_out w1 = w_tcp_out w @ concat parts)"

definition password_arrives :: "string \<Rightarrow> world \<Rightarrow> bool" where
  "password_arrives p w \<longleftrightarrow> (\<exists>fs rest. list_all (\<lambda>(t, d). length d \<le> 4096) fs \<and>
     tcp_stream w = frames_wire fs @ rest \<and> (dpkt DEMO_PKT_PASS_RESP, bytes_of_string p) \<in> set fs)"

lemma password_arrives_after:
  assumes "trace P gs x w w0" "password_arrives p w0"
  shows "password_arrives p w"
proof -
  from assms(2) obtain fs rest where f: "list_all (\<lambda>(t, d). length d \<le> 4096) fs" "tcp_stream w0 = frames_wire fs @ rest"
    "(dpkt DEMO_PKT_PASS_RESP, bytes_of_string p) \<in> set fs" unfolding password_arrives_def by blast
  have "list_all (\<lambda>(t, d). length d \<le> 4096) (gs @ fs)" "tcp_stream w = frames_wire (gs @ fs) @ rest"
    using assms(1) f(1,2) by (simp_all add: trace_def frames_wire_def)
  with f(3) show ?thesis unfolding password_arrives_def by (metis Un_iff set_append)
qed

lemma refused_finish: "kept P parts w w0 \<Longrightarrow> list_all question parts \<Longrightarrow> refused w (demo_finish lg ''ABORT'' why w0)"
  by (auto simp: refused_def kept_def demo_finish_same)

lemma refused_after:
  assumes "kept P parts w w0" "list_all question parts" "refused w0 w1"
  shows "refused w w1"
proof -
  from assms(3) obtain qs where "list_all question qs" "w_tcp_out w1 = w_tcp_out w0 @ concat qs" unfolding refused_def by blast
  with assms(1,2) have "list_all question (parts @ qs)" "w_tcp_out w1 = w_tcp_out w @ concat (parts @ qs)"
    by (simp_all add: kept_def)
  with assms(1,3) show ?thesis unfolding refused_def kept_def by (metis (no_types))
qed

lemma frame_is_password_eq: "length d \<le> 4096 \<Longrightarrow> frame_is_password (filled fr t d) p \<longleftrightarrow> d = bytes_of_string p"
  by (auto simp: frame_is_password_def filled_def unat_small)

lemma server_question:
  assumes "server_send_frame lg peer (dpkt t) [] 0 st ev pid False c w = (ok, c1, w1)" "t = DEMO_PKT_PASS_REQ \<or> t = DEMO_PKT_REJECT"
  shows "\<exists>x. question x \<and> trace P [] [x] w w1"
  using server_send_trace [OF assms(1), of P] assms(2) unfolding question_def by blast

lemma tcp_auth_loop_refuses:
  "tcp_auth_loop lg peer p k False c w = (r, c1, w1) \<Longrightarrow> w_stop w = None \<Longrightarrow> k < 3 \<Longrightarrow>
   password_arrives p w \<or> r = Inl 1 \<and> refused w w1"
proof (induction "3 - k" arbitrary: k c w r c1 w1 rule: less_induct)
  case less
  note unf = tcp_auth_loop.simps [of lg peer p k False c w]
  have rs: "read_stop w = (False, w)" using less.prems(2) by (simp add: read_stop_def)
  obtain f wa where rcv: "server_recv_frame lg peer ''AUTH'' ''RECV_PASS_RESP'' (-1) c w = (f, wa)" by fastforce
  show ?case
  proof (cases f)
    case None
    with less.prems unf rs rcv have "r = Inl 1" "w1 = demo_finish lg ''ABORT'' ''expected PASS_RESP'' wa" by auto
    with refused_finish [OF server_recv_failed [OF rcv [unfolded None]]] show ?thesis by simp
  next
    case f: (Some c2)
    from server_recv_trace [OF rcv [unfolded f], of "{}"] obtain t d where
      td: "trace {} [(t, d)] [] w wa" "tc_frame c2 = filled (tc_frame c) t d" "length d \<le> 4096" by blast
    note ka = trace_kept [OF td(1)]
    show ?thesis
    proof (cases "fr_type (tc_frame c2) = dpkt DEMO_PKT_PASS_RESP")
      case False
      with less.prems unf rs rcv f have "r = Inl 1" "w1 = demo_finish lg ''ABORT'' ''expected PASS_RESP'' wa" by auto
      with refused_finish [OF ka] show ?thesis by simp
    next
      case resp: True
      show ?thesis
      proof (cases "frame_is_password (tc_frame c2) p")
        case True
        then have "(t, d) = (dpkt DEMO_PKT_PASS_RESP, bytes_of_string p)"
          using td(2,3) resp by (simp add: frame_is_password_eq)
        with td(1,3) have "password_arrives p w" unfolding password_arrives_def trace_def
          by (intro exI [of _ "[(t, d)]"] exI [of _ "tcp_stream wa"]) simp
        then show ?thesis ..
      next
        case wrong: False
        show ?thesis
        proof (cases "k + 1 \<ge> 3")
          case True
          obtain ok c3 wb where s: "server_send_frame lg peer (dpkt DEMO_PKT_REJECT) [] 0 ''AUTH'' ''SEND_REJECT'' (-1) False c2 wa = (ok, c3, wb)"
            using prod_cases3 by blast
          from server_question [OF s, of "{}"] obtain x where x: "question x" "trace {} [] [x] wa wb" by blast
          from less.prems unf rs rcv f resp wrong True s have
            "r = Inl 1" "w1 = demo_finish lg ''ABORT'' ''authentication failed'' wb" by auto
          with refused_finish [OF trace_kept [OF trace_trans [OF td(1) x(2)]]] x(1) show ?thesis by simp
        next
          case False
          obtain ok c3 wb where s: "server_send_frame lg peer (dpkt DEMO_PKT_PASS_REQ) [] 0 ''AUTH'' ''SEND_PASS_REQ'' (-1) False c2 wa = (ok, c3, wb)"
            using prod_cases3 by blast
          from server_question [OF s, of "{}"] obtain x where x: "question x" "trace {} [] [x] wa wb" by blast
          note tb = trace_trans [OF td(1) x(2)]
          have "tcp_auth_loop lg peer p (k + 1) False c3 wb = (r, c1, w1)"
            using less.prems unf rs rcv f resp wrong False s by simp
          from less.hyps [OF _ this] False trace_kept [OF tb] less.prems(2)
          have "password_arrives p wb \<or> r = Inl 1 \<and> refused wb w1" by (auto simp: kept_def)
          with password_arrives_after [OF tb] refused_after [OF trace_kept [OF tb]] x(1) show ?thesis by auto
        qed
      qed
    qed
  qed
qed

lemma tcp_server_session_refuses:
  assumes "tcp_server_session lg peer p input dg junk junk2 w = (rc, w1)" "w_stop w = None"
  shows "password_arrives p w \<or> rc = 1 \<and> refused w w1"
proof -
  obtain f wa where rcv: "server_recv_frame lg peer ''WAIT_JOIN_REQ'' ''RECV_JOIN_REQ'' (-1) (new_conn junk) w = (f, wa)" by fastforce
  show ?thesis
  proof (cases f)
    case None
    with assms rcv have "rc = 1" "w1 = demo_finish lg ''ABORT'' ''expected JOIN_REQ'' wa" by (auto simp: tcp_server_session_def)
    with refused_finish [OF server_recv_failed [OF rcv [unfolded None]]] show ?thesis by simp
  next
    case f: (Some c1)
    from server_recv_trace [OF rcv [unfolded f], of "{}"] obtain t d where td: "trace {} [(t, d)] [] w wa" by blast
    show ?thesis
    proof (cases "fr_type (tc_frame c1) = dpkt DEMO_PKT_JOIN_REQ")
      case False
      with assms rcv f have "rc = 1" "w1 = demo_finish lg ''ABORT'' ''expected JOIN_REQ'' wa" by (auto simp: tcp_server_session_def)
      with refused_finish [OF trace_kept [OF td]] show ?thesis by simp
    next
      case join: True
      obtain ok c2 wb where s: "server_send_frame lg peer (dpkt DEMO_PKT_PASS_REQ) [] 0 ''AUTH'' ''SEND_PASS_REQ'' (-1) False c1 wa = (ok, c2, wb)"
        using prod_cases3 by blast
      from server_question [OF s, of "{}"] obtain x where x: "question x" "trace {} [] [x] wa wb" by blast
      note tb = trace_trans [OF td x(2)]
      show ?thesis
      proof (cases ok)
        case False
        with assms rcv f join s have "rc = 1" "w1 = demo_finish lg ''ABORT'' ''failed to send PASS_REQ'' wb"
          by (auto simp: tcp_server_session_def)
        with refused_finish [OF trace_kept [OF tb]] x(1) show ?thesis by simp
      next
        case True
        obtain r c3 wc where a: "tcp_auth_loop lg peer p 0 False c2 wb = (r, c3, wc)" using prod_cases3 by blast
        have "w_stop wb = None" using trace_kept [OF tb] assms(2) by (simp add: kept_def)
        from tcp_auth_loop_refuses [OF a this] have "password_arrives p wb \<or> r = Inl 1 \<and> refused wb wc" by simp
        then show ?thesis
        proof
          assume "password_arrives p wb"
          with password_arrives_after [OF tb] show ?thesis by blast
        next
          assume r: "r = Inl 1 \<and> refused wb wc"
          with assms rcv f join s True a have "rc = 1" "w1 = wc" by (auto simp: tcp_server_session_def)
          with r refused_after [OF trace_kept [OF tb]] x(1) show ?thesis by auto
        qed
      qed
    qed
  qed
qed

end
