(* ===== verification/TcpClaims.thy ===== *)
theory TcpClaims
  imports TcpSafety
begin

text \<open>
  The properties of the TCP and TLS-like programs that hold whatever the peer sends:
  the client's verdict, the server without the password, which encrypted frames are
  accepted and what a run of them writes, and frames over an arbitrarily cut stream.
\<close>

section \<open>The client\<close>

text \<open>
  C17. A run of the client ends with status 1 or 0. With status 1 either its log cannot be
  written, and it has done nothing and printed nothing, or it has printed \<open>ABORT\<close> and no file
  but the partial one has changed. With status 0 it has printed \<open>OK\<close>; the last frame read is a
  \<open>TERMINATE\<close>, and the digest of the file received begins with the first twenty bytes of
  that frame (with a frame of fewer bytes the code compares the rest with what the buffer held
  before, which is not stated). That file is at the output path unless the renaming failed, and
  then it is at the partial path and the output path is as it was.
\<close>

theorem tcp_client_run_verdict:
  assumes "tcp_client_main junk argv w = (rc, w1)"
  shows "rc = 1 \<and> w_unwritable w ''logs/client.jsonl'' \<and> w1 = w \<or> rc = 1 \<and> tcp_aborted (partial_of argv) w w1 \<or>
    rc = 0 \<and> delivered (output_of argv) (partial_of argv) w w1"
  using tcp_client_main_verdict [OF assms] by (auto simp: client_main_ends_def tcp_verdict_def)

text \<open>A run that succeeds: the download of three bytes, with the second password.\<close>

definition client_argv :: "string list" where
  "client_argv = [''client'', ''h'', ''9000'', ''a'', ''b'', ''c'', ''out'']"

definition reachable_client :: world where
  "reachable_client = download_client\<lparr>w_resolve := (\<lambda>_. Some [\<lparr>sin_family = 2, sin_port = 0, sin_addr = 1\<rparr>])\<rparr>"

lemma download_session:
  assumes "calm w" "w_fs w = [''out.part'' \<mapsto> new_file []]" "w_env w = (\<lambda>_. None)" "w_writefault w = []" "w_renamefault w = []"
    "tcp_stream w = tcp_stream download_client"
  shows "\<exists>w1. tcp_client_session lg peer False [''a'', ''b'', ''c''] ''out'' ''out.part'' junk0 w = (0, w1)"
  using tcp_basic_download [of download_server w "''b''" "[''a'', ''b'', ''c'']" "''in''"
      "new_file [1, 2, 3]" "''out.part''" "''out''" closed_logger "[]" junk0 junk0 lg peer junk0] assms
  by (simp add: download_server_def download_client_def quiet_tcp) (auto simp: new_file_def)

lemma reachable_client_succeeds: "\<exists>w1. tcp_client_main junk0 client_argv reachable_client = (0, w1)"
proof -
  obtain rc lg where lo: "logger_open (Some ''client'') (Some ''logs/client.jsonl'') reachable_client = (rc, lg)" by fastforce
  then obtain lg1 where lg: "rc = 0" "lg = Some lg1"
    by (auto simp: logger_open_def Let_def reachable_client_def download_client_def quiet_parts split: if_splits)
  have "parse_port (Some ''9000'') \<noteq> None" by code_simp
  then obtain port where port: "parse_port (Some ''9000'') = Some port" by auto
  let ?w = "reachable_client\<lparr>w_sockfault := []\<rparr>"
  let ?a = "\<lparr>sin_family = 2, sin_port = htons LittleEndian port, sin_addr = 1\<rparr>"
  let ?opened = "?w\<lparr>w_fs := (w_fs ?w)(''out.part'' \<mapsto> new_file [])\<rparr>"
  have conn: "demo_connect_tcp ''h'' port reachable_client = (Some ?a, ?w)"
    by (simp add: demo_connect_tcp_def reachable_client_def download_client_def socket_call_def quiet_parts)
  have open_file: "fopen_wb ''out.part'' ?w = (True, ?opened)"
    by (simp add: fopen_wb_def reachable_client_def download_client_def quiet_parts)
  have session: "\<exists>w1. tcp_client_session lg1 (peer_to_string ?a 64) False [''a'', ''b'', ''c''] ''out'' ''out.part'' junk0
      (logger_write lg1 e ?opened) = (0, w1)" for e
    by (rule download_session) (simp_all add: world_simps calm_def flowing_def tcp_stream_def reachable_client_def download_client_def quiet_parts)
  show ?thesis
    unfolding tcp_client_main_def lo lg prod.case option.case
    using session by (simp add: client_argv_def port conn open_file snprintf_s_def Let_def)
qed

theorem tcp_client_run_verdict_witness:
  "\<exists>w1. tcp_client_main junk0 client_argv reachable_client = (0, w1) \<and> delivered ''out'' ''out.part'' reachable_client w1"
proof -
  from reachable_client_succeeds obtain w1 where run: "tcp_client_main junk0 client_argv reachable_client = (0, w1)" by blast
  have paths: "output_of client_argv = ''out''" "partial_of client_argv = ''out.part''"
    by (simp_all add: output_of_def partial_of_def client_argv_def snprintf_s_def)
  show ?thesis using tcp_client_run_verdict [OF run] run unfolding paths by simp
qed

section \<open>The server\<close>

text \<open>
  C18. A server session that no signal stops and in which no \<open>PASS_RESP\<close> frame with the
  right password arrives exits with status 1, prints \<open>ABORT\<close>, and has sent nothing but
  pieces of \<open>PASS_REQ\<close> and \<open>REJECT\<close> frames, whatever else arrives or fails. A signal before the
  password has the file sent (\<open>stopped_server_sends_file\<close>), so that the condition cannot be dropped.
\<close>

theorem tcp_server_needs_password:
  assumes "tcp_server_session lg peer p input dg junk junk2 w = (rc, w1)" "w_stop w = None"
    and "\<not> password_arrives p w"
  shows "rc = 1 \<and> refused w w1"
  using tcp_server_session_refuses [OF assms(1,2)] assms(3) by blast

definition intruder :: world where
  "intruder = quiet_world\<lparr>w_fs := [''in'' \<mapsto> new_file [1, 2, 3]],
     w_tcp_in := byte_by_byte (frame_bytes (dpkt DEMO_PKT_JOIN_REQ) [] @ frame_bytes (dpkt DEMO_PKT_PASS_RESP) [7])\<rparr>"

lemma intruder_guesses: "\<not> password_arrives ''b'' intruder"
proof
  let ?j = "(dpkt DEMO_PKT_JOIN_REQ, [] :: byte list)" and ?r = "(dpkt DEMO_PKT_PASS_RESP, [7 :: byte])"
  assume "password_arrives ''b'' intruder"
  then obtain fs rest where f: "list_all (\<lambda>(t, d). length d \<le> 4096) fs"
    "frames_wire [?j, ?r] = frames_wire fs @ rest" "(dpkt DEMO_PKT_PASS_RESP, bytes_of_string ''b'') \<in> set fs"
    by (auto simp: password_arrives_def intruder_def tcp_stream_def frames_wire_def)
  have "length (frames_wire gs) \<ge> 6 * length gs" if "list_all (\<lambda>(t, d). length d \<le> 4096) gs" for gs
    using that by (induction gs) (auto simp: frames_wire_def frame_bytes_eq)
  from this [OF f(1)] have "6 * length fs \<le> 13" using arg_cong [OF f(2), of length]
    by (simp add: frames_wire_def frame_bytes_eq)
  then have len: "length fs \<le> length [?j, ?r]" by simp
  have "take (length fs) [?j, ?r] = fs"
  proof (rule conjunct1 [OF frames.stream_unambiguous])
    show "concat (map (\<lambda>(t, d). frame_bytes t d) (take (length fs) [?j, ?r])) @
        concat (map (\<lambda>(t, d). frame_bytes t d) (drop (length fs) [?j, ?r])) =
      concat (map (\<lambda>(t, d). frame_bytes t d) fs) @ rest"
      using f(2) unfolding frames_wire_def
      by (metis append_take_drop_id concat_append map_append)
  qed (use f(1) len in \<open>auto simp: list_all_iff dest!: in_set_takeD\<close>)
  then have "set fs \<subseteq> {?j, ?r}" by (metis in_set_takeD list.set(1) list.simps(15) subsetI)
  with f(3) show False by (auto simp: bytes_of_string_def)
qed

theorem tcp_server_needs_password_witness:
  "let (rc, w1) = tcp_server_session closed_logger [] ''b'' ''in'' (sha1_digest [1, 2, 3]) junk0 junk0 intruder in
     rc = 1 \<and> refused intruder w1"
proof -
  obtain rc w1 where run: "tcp_server_session closed_logger [] ''b'' ''in'' (sha1_digest [1, 2, 3]) junk0 junk0 intruder = (rc, w1)"
    by fastforce
  have "w_stop intruder = None" by (simp add: intruder_def quiet_parts)
  from tcp_server_needs_password [OF run this intruder_guesses] show ?thesis by (simp add: run)
qed

section \<open>Encrypted frames\<close>

text \<open>
  C19. As long as neither an allocation nor a write fails, the client accepts a frame exactly
  when it is the encoding, under the session key, of a sequence number greater than the last
  one accepted and some bytes: the lengths, the MAC and the order are all checked. An accepted
  frame appends exactly those bytes to the file and makes its number the last one; any other
  frame changes neither. Without memory for the MAC the code accepts a forged frame
  (\<open>mac_without_memory\<close>), so that the condition cannot be dropped.
\<close>

theorem app_data_accepted_exactly:
  assumes "w_allocfault w = []" "w_writefault w = []" "w_fs w tmp = Some (new_file acc)"
    and "length (fr_payload fr) = 4096" "unat (fr_length fr) \<le> 4096"
    and "verify_tls_app_data lg peer fr key tmp seen w = (ok, fr1, seen1, w1)"
  shows "(ok \<longleftrightarrow> (\<exists>seq plain. seen < seq \<and> frame_data fr = app_payload key seq plain)) \<and>
    (if ok then \<exists>plain. frame_data fr = app_payload key seen1 plain \<and> w_fs w1 = (w_fs w)(tmp \<mapsto> new_file (acc @ plain))
     else seen1 = seen \<and> w_fs w1 = w_fs w)"
  using verify_step [OF assms(1,3,4,5,6)] assms(2) by (auto simp: app_fresh_iff split: if_splits)

theorem app_data_accepted_exactly_witness:
  "\<exists>fr1 w1. verify_tls_app_data closed_logger [] (filled junk0 (dpkt DEMO_PKT_APP_DATA) (app_payload [7] 3 [1, 2]))
      [7] ''t'' 2 (quiet_world\<lparr>w_fs := [''t'' \<mapsto> new_file [0]]\<rparr>) = (True, fr1, 3, w1) \<and>
    w_fs w1 = [''t'' \<mapsto> new_file [0, 1, 2]]"
proof -
  let ?fr = "filled junk0 (dpkt DEMO_PKT_APP_DATA) (app_payload [7] 3 [1, 2])"
  let ?w = "quiet_world\<lparr>w_fs := [''t'' \<mapsto> new_file [0]]\<rparr>"
  obtain ok fr1 seen1 w1 where v: "verify_tls_app_data closed_logger [] ?fr [7] ''t'' 2 ?w = (ok, fr1, seen1, w1)"
    using prod_cases4 by blast
  have lens: "length (fr_payload ?fr) = 4096" "unat (fr_length ?fr) \<le> 4096" "frame_data ?fr = app_payload [7] 3 [1, 2]"
    by (simp_all add: junk0_def)
  note c = app_data_accepted_exactly [OF _ _ _ lens(1,2) v, of "[0]"]
  have "(2 :: u32) < 3" by simp
  then have ok: ok using c lens(3) by (auto simp: quiet_parts app_payload_inject)
  with c lens(3) obtain plain where "app_payload [7] 3 [1, 2] = app_payload [7] seen1 plain"
    "w_fs w1 = [''t'' \<mapsto> new_file ([0] @ plain)]" by (auto simp: quiet_parts)
  with v ok show ?thesis by (simp add: app_payload_inject)
qed

text \<open>
  Every byte a run of the receiving loop has written, up to the frame that ends it,
  comes from authenticated frames of the stream, in their order, with strictly
  increasing numbers: a replayed, reordered or altered frame is never written.
\<close>

lemma tls_client_writes_authentic:
  assumes "tls_client_loop lg peer key tmp pid seen c w = (Inr fr, w1)" "w_allocfault w = []"
    and "w_fs w tmp = Some (new_file acc)" "length (fr_payload (tc_frame c)) = 4096"
  shows "\<exists>apps rest. sorted_wrt (<) (seen # map fst apps) \<and>
    tcp_stream w = concat (map (app_frame key) apps) @ rest \<and>
    w_fs w1 = (w_fs w)(tmp \<mapsto> new_file (acc @ concat (map snd apps)))"
  using tls_client_loop_authentic [OF assms] by (auto simp: authentic_run_def)

definition app_receiver :: world where
  "app_receiver = quiet_world\<lparr>w_fs := [''t'' \<mapsto> new_file []],
     w_tcp_in := byte_by_byte (app_frames [7] 0 [[1], [2]] @ frame_bytes (dpkt DEMO_PKT_TERMINATE) (replicate 20 0))\<rparr>"

section \<open>Frames over the stream\<close>

text \<open>
  C20. Whatever is sent as a frame is received as that frame: however the sending calls
  split the bytes (also when the fragment mode sends it in two halves) and however the
  segments arrive, the receiver's buffer holds the type, the length and the payload, its
  other bytes are as before, and the stream is left right behind the frame.
\<close>

theorem frame_crosses_any_stream:
  assumes "length d \<le> 4096" "demo_send_frame t d (word_of_nat (length d)) fragment ws = (True, ws1)"
    and "w_tcp_out ws1 = w_tcp_out ws @ sent" "flowing wr" "tcp_stream wr = sent @ rest"
  shows "\<exists>wr1. demo_recv_frame fr wr = (Some (filled fr t d), wr1) \<and> tcp_stream wr1 = rest"
proof -
  from demo_send_frame_writes [OF assms(2,1)] obtain p where "frame_bytes t d = p" "writes p ws ws1" by auto
  then have "sent = frame_bytes t d" using assms(3) by (auto simp: writes_def)
  with assms(5) have "parse_frame (tcp_stream wr) = Some ((t, d), rest)" by (simp add: parse_frame_bytes [OF assms(1)])
  with demo_recv_frame_flowing [OF assms(4), of fr] show ?thesis by auto
qed

theorem frame_crosses_any_stream_witness:
  "\<exists>wr1. demo_recv_frame junk0 (quiet_world\<lparr>w_tcp_in := byte_by_byte (frame_bytes 5 [1, 2, 3] @ [9])\<rparr>) =
     (Some (filled junk0 5 [1, 2, 3]), wr1) \<and> tcp_stream wr1 = [9]"
proof -
  let ?ws = "quiet_world\<lparr>w_tcp_cap := [0, 3]\<rparr>"
  have two: "word_of_nat (length [1, 2, 3 :: byte]) = (3 :: u32)" by simp
  obtain ok ws1 where s: "demo_send_frame 5 [1, 2, 3] (word_of_nat (length [1, 2, 3 :: byte])) True ?ws = (ok, ws1)" by fastforce
  from demo_send_frame_writes [OF this] obtain p q where pq: "frame_bytes 5 [1, 2, 3] = p @ q" "writes p ?ws ws1" "ok" "q = []"
    by (auto simp: quiet_parts)
  then have out: "w_tcp_out ws1 = w_tcp_out ?ws @ frame_bytes 5 [1, 2, 3]" by (auto simp: writes_def)
  from s pq(3) have sent: "demo_send_frame 5 [1, 2, 3] (word_of_nat (length [1, 2, 3 :: byte])) True ?ws = (True, ws1)" by simp
  show ?thesis
    by (rule frame_crosses_any_stream [OF _ sent out]) (simp_all add: quiet_tcp)
qed

text \<open>
  C23. Whatever a peer sends, a receive writes at most the 4096 bytes of the buffer, and
  the length it stores is at most that: the frame stays well formed, so that no later
  use of \<open>length\<close> reads or writes beyond the payload.
\<close>

theorem received_frame_fits:
  assumes "length (fr_payload fr) = 4096" "demo_recv_frame fr w = (Some fr1, w1)"
  shows "length (fr_payload fr1) = 4096 \<and> unat (fr_length fr1) \<le> 4096 \<and>
    drop (unat (fr_length fr1)) (fr_payload fr1) = drop (unat (fr_length fr1)) (fr_payload fr)"
proof -
  from demo_recv_frame_some [OF assms(2)] obtain t d where d: "fr1 = filled fr t d" "length d \<le> 4096" by blast
  then have "unat (fr_length fr1) = length d" by (simp add: unat_small)
  with d assms(1) show ?thesis by (simp add: filled_def)
qed

theorem received_frame_fits_witness:
  "\<exists>fr1 w1. demo_recv_frame junk0 (quiet_world\<lparr>w_tcp_in := [frame_bytes 5 [1, 2, 3]]\<rparr>) = (Some fr1, w1) \<and>
     length (fr_payload fr1) = 4096 \<and> drop 3 (fr_payload fr1) = drop 3 (fr_payload junk0)"
proof -
  let ?w = "quiet_world\<lparr>w_tcp_in := [frame_bytes 5 [1, 2, 3]]\<rparr>"
  have flow: "flowing ?w" "parse_frame (tcp_stream ?w) = Some ((5, [1, 2, 3]), [])"
    using parse_frame_bytes [of "[1, 2, 3]" 5 "[]"] by (simp_all add: quiet_tcp frame_bytes_eq)
  then obtain w1 where r: "demo_recv_frame junk0 ?w = (Some (filled junk0 5 [1, 2, 3]), w1)"
    using demo_recv_frame_flowing [OF flow(1), of junk0] by auto
  have buf: "length (fr_payload junk0) = 4096" by (simp add: junk0_def)
  from received_frame_fits [OF buf r] r show ?thesis by simp
qed

section \<open>Divergences\<close>

text \<open>
  The log of the TCP programs holds the password in hex (the UDP programs leave it out):
  here the bytes \<open>70 77\<close> of the password \<open>pw\<close>.
\<close>

lemma tcp_password_in_log:
  "le_wire_hex (server_frame_event lv ev st peer (dpkt DEMO_PKT_PASS_RESP) (bytes_of_string ''pw'') 2 dir off pid) =
     Some ''0003000000027077''"
proof -
  have wire: "build_frame_wire (dpkt DEMO_PKT_PASS_RESP) (bytes_of_string ''pw'') 2 = [0, 3, 0, 0, 0, 2, 0x70, 0x77]"
    using build_frame_wire_eq(1) [of "bytes_of_string ''pw''" "dpkt DEMO_PKT_PASS_RESP"]
    by (simp add: frame_bytes_eq be16_def be32_def bytes_of_string_def)
  show ?thesis
    unfolding server_frame_event_def Let_def wire
    by (simp add: demo_sizes bytes_to_hex_def hex_char_def)
qed

text \<open>
  A server stopped by a signal before it has seen a password leaves the authentication
  loop without an exit, and the session goes on with the transfer, which does not look at
  the signal.
\<close>

lemma stopped_auth_loop: "w_stop w = Some 0 \<Longrightarrow> tcp_auth_loop lg peer p k False c w = (Inr False, c, w)"
  by (simp add: tcp_auth_loop.simps read_stop_def)

lemma stopped_server_sends_file:
  assumes "server_recv_frame lg peer ''WAIT_JOIN_REQ'' ''RECV_JOIN_REQ'' (-1) (new_conn junk) w = (Some c1, w1)"
    and "fr_type (tc_frame c1) = dpkt DEMO_PKT_JOIN_REQ"
    and "server_send_frame lg peer (dpkt DEMO_PKT_PASS_REQ) [] 0 ''AUTH'' ''SEND_PASS_REQ'' (-1) False c1 w1 = (True, c2, w2)"
    and "w_stop w2 = Some 0"
  shows "tcp_server_session lg peer p input dg junk junk2 w = tcp_server_transfer lg peer p input dg junk2 w2"
  using assms by (simp add: tcp_server_session_def stopped_auth_loop)

text \<open>Without memory the two sides agree on the MAC of all zeros, whatever the frame and the key.\<close>

lemma mac_without_memory:
  "w_allocfault w = True # r \<Longrightarrow> tls_app_mac seq c key w = (replicate 20 0, w\<lparr>w_allocfault := r\<rparr>)"
  by (simp add: tls_app_mac_def malloc_ok_def)

end
