(* ===== verification/CText.thy ===== *)
theory CText
  imports TcpConn
begin

text \<open>
  C text in byte buffers, for the demos whose messages are lines of text: the string a
  buffer holds up to its NUL, \<open>strstr\<close>, the lower-case comparison, and the conversions of
  \<open>sscanf\<close> and \<open>snprintf\<close> they use.
\<close>

section \<open>Bytes and strings\<close>

definition char_of_byte :: "byte \<Rightarrow> char" where
  "char_of_byte b = char_of (unat b)"

definition string_of_bytes :: "byte list \<Rightarrow> string" where
  "string_of_bytes bs = map char_of_byte bs"

text \<open>The C string at the start of a buffer that ends in a NUL behind \<open>bs\<close>.\<close>

definition c_string :: "byte list \<Rightarrow> string" where
  "c_string bs = string_of_bytes (takeWhile (\<lambda>b. b \<noteq> 0) bs)"

lemma char_of_byte_of_char [simp]: "char_of_byte (of_char c) = c"
  by (simp add: char_of_byte_def unat_of_char_byte)

lemma of_char_char_of_byte [simp]: "(of_char (char_of_byte b) :: byte) = b"
proof -
  have "unat b < 256" using unsigned_less [of b] by simp
  then have "(of_char (char_of_byte b) :: nat) = unat b"
    by (simp add: char_of_byte_def take_bit_nat_eq_self)
  then have "unat (of_char (char_of_byte b) :: byte) = unat b" by (simp add: unat_of_char_byte)
  then show ?thesis by (simp only: word_unat_eq_iff)
qed

lemma string_of_bytes_of_string [simp]: "string_of_bytes (bytes_of_string s) = s"
  by (simp add: string_of_bytes_def bytes_of_string_def comp_def)

lemma bytes_of_string_of_bytes [simp]: "bytes_of_string (string_of_bytes d) = d"
  by (simp add: string_of_bytes_def bytes_of_string_def comp_def)

lemma bytes_of_string_append [simp]: "bytes_of_string (s @ t) = bytes_of_string s @ bytes_of_string t"
  by (simp add: bytes_of_string_def)

lemma of_char_eq_0: "(of_char c :: byte) = 0 \<longleftrightarrow> c = CHR 0x00"
proof -
  have "(0 :: byte) = of_char (CHR 0x00)" by simp
  then show ?thesis by (metis of_char_byte_inj)
qed

text \<open>Text without a NUL is the C string of its bytes.\<close>

definition nul_free :: "string \<Rightarrow> bool" where
  "nul_free s \<longleftrightarrow> CHR 0x00 \<notin> set s"

lemma c_string_bytes: "nul_free s \<Longrightarrow> c_string (bytes_of_string s @ d) = s @ c_string d"
  by (induction s) (auto simp: c_string_def nul_free_def bytes_of_string_def string_of_bytes_def of_char_eq_0)

lemma c_string_Nil [simp]: "c_string [] = []"
  by (simp add: c_string_def string_of_bytes_def)

lemma c_string_text: "nul_free s \<Longrightarrow> c_string (bytes_of_string s) = s"
  using c_string_bytes [of s "[]"] by simp

section \<open>Searching\<close>

text \<open>\<open>strstr(text, key)\<close>: the text from the first occurrence on.\<close>

fun strstr :: "string \<Rightarrow> string \<Rightarrow> string option" where
  "strstr text key =
     (if take (length key) text = key then Some text
      else case text of [] \<Rightarrow> None | c # cs \<Rightarrow> strstr cs key)"

declare strstr.simps [simp del]

lemma strstr_Nil: "strstr [] key = (if key = [] then Some [] else None)"
  by (auto simp: strstr.simps)

lemma strstr_Cons: "strstr (c # cs) key = (if take (length key) (c # cs) = key then Some (c # cs) else strstr cs key)"
  by (subst strstr.simps) simp

lemma strstr_some:
  "strstr t key = Some s \<Longrightarrow> \<exists>front. t = front @ s \<and> take (length key) s = key"
proof (induction t)
  case Nil
  then show ?case by (auto simp: strstr_Nil split: if_splits)
next
  case (Cons c cs)
  then show ?case by (auto simp: strstr_Cons split: if_splits)
qed

text \<open>A key that begins with a character occurring nowhere before is found where it stands.\<close>

lemma strstr_skip: "k \<notin> set front \<Longrightarrow> strstr (front @ s) (k # ks) = strstr s (k # ks)"
  by (induction front) (auto simp: strstr_Cons)

lemma strstr_here: "strstr (key @ s) key = Some (key @ s)"
  by (subst strstr.simps) simp

definition CRLF :: string where "CRLF = [CHR 0x0D, CHR 0x0A]"

definition to_lower :: "char \<Rightarrow> char" where
  "to_lower c = (let n = (of_char c :: nat) in if 65 \<le> n \<and> n \<le> 90 then char_of (n + 32) else c)"

text \<open>The text from the first occurrence of \<open>key\<close> in any mixture of cases on.\<close>

fun strstr_ci :: "string \<Rightarrow> string \<Rightarrow> string option" where
  "strstr_ci text key =
     (if map to_lower (take (length key) text) = map to_lower key then Some text
      else case text of [] \<Rightarrow> None | c # cs \<Rightarrow> strstr_ci cs key)"

declare strstr_ci.simps [simp del]

section \<open>Conversions\<close>

text \<open>
  \<open>sscanf(text, "HTTP/1.1 %d", &v)\<close>: \<open>None\<close> when nothing is converted. White space in the
  format matches any amount of it, and \<open>%d\<close> skips white space itself.
\<close>

definition scan_http_status :: "string \<Rightarrow> int option" where
  "scan_http_status text =
     (let key = ''HTTP/1.1''; rest = drop (length key) text in
      if take (length key) text \<noteq> key then None
      else case strtol10 rest of (v, end_text, erange) \<Rightarrow>
        if end_text = rest then None else Some (sint (word_of_int v :: u32)))"

text \<open>\<open>host:port\<close>\<close>

definition host_port :: "string \<Rightarrow> u16 \<Rightarrow> string" where
  "host_port host_name port = host_name @ '':'' @ show_nat (unat port)"

section \<open>A closed log\<close>

lemma logger_write_closed [simp]: "logger_write closed_logger e w = w"
  by (simp add: logger_write_def closed_logger_def)

end
