(* ===== verification/WebSocket.thy ===== *)
theory WebSocket
  imports CText
begin

text \<open>
  The WebSocket demo (\<open>src/websocket_demo_server.c\<close>, \<open>src/websocket_demo_client.c\<close>): the
  HTTP upgrade, the frames of RFC 6455 as far as the programs know them, and the two
  \<open>main\<close> functions. Pauses, socket options and closing descriptors leave nothing in the
  modelled state; a receive timeout is an empty \<open>recv\<close>, as an end of the stream is.
\<close>

section \<open>Constants\<close>

definition WS_HTTP_BUF :: nat where "WS_HTTP_BUF = 8192"
definition WS_MAX_PAYLOAD :: nat where "WS_MAX_PAYLOAD = 1024"

lemmas ws_sizes = WS_HTTP_BUF_def WS_MAX_PAYLOAD_def

text \<open>The opcodes used.\<close>

abbreviation WS_TEXT :: byte where "WS_TEXT \<equiv> 0x1"
abbreviation WS_CLOSE :: byte where "WS_CLOSE \<equiv> 0x8"
abbreviation WS_PING :: byte where "WS_PING \<equiv> 0x9"
abbreviation WS_PONG :: byte where "WS_PONG \<equiv> 0xA"

section \<open>HTTP text\<close>

text \<open>
  The search from position \<open>k\<close>: the next occurrence of the key that starts a line. (An
  empty key, which no caller passes, would be searched for ever.)
\<close>

function find_header_from :: "string \<Rightarrow> string \<Rightarrow> nat \<Rightarrow> nat \<Rightarrow> string option" where
  "find_header_from raw key cap k =
     (if key = [] then None
      else case strstr (drop k raw) key of
        None \<Rightarrow> None
      | Some s \<Rightarrow>
          let p = length raw - length s in
          if p = 0 \<or> raw ! (p - 1) = CHR 0x0A then
            (let start = dropWhile (\<lambda>c. c = CHR '' '' \<or> c = CHR 0x09) (drop (length key) s) in
             case strstr start CRLF of
               None \<Rightarrow> None
             | Some e \<Rightarrow>
                 let v = take (length start - length e) start in
                 if length v \<ge> cap then None else Some v)
          else find_header_from raw key cap (p + length key))"
  by pat_completeness auto
termination
proof (relation "measure (\<lambda>(raw, key, cap, k). length raw - k)", simp)
  fix raw key :: string and cap k p :: nat and s
  assume a: "key \<noteq> []" "strstr (drop k raw) key = Some s" "p = length raw - length s"
  from strstr_some [OF a(2)] obtain front where f: "drop k raw = front @ s" "take (length key) s = key" by blast
  have "length s \<ge> 1" using f(2) a(1) by (cases s) auto
  moreover have "length s \<le> length raw - k" using arg_cong [OF f(1), of length] by simp
  ultimately show "((raw, key, cap, p + length key), raw, key, cap, k) \<in> measure (\<lambda>(raw, key, cap, k). length raw - k)"
    using a(1,3) by (cases key) auto
qed

declare find_header_from.simps [simp del]

definition find_header_value :: "string \<Rightarrow> string \<Rightarrow> nat \<Rightarrow> string option" where
  "find_header_value raw key cap = (if cap = 0 then None else find_header_from raw key cap 0)"

text \<open>
  \<open>read_http_request\<close> of the server and \<open>read_http_response\<close> of the client: receive until
  the C string read so far holds an empty line. What was received behind it in the same
  segment stays in the buffer, out of reach of the frames.
\<close>

function ws_read_http :: "nat \<Rightarrow> byte list \<Rightarrow> world \<Rightarrow> byte list option \<times> world" where
  "ws_read_http cap got w =
     (if length got < cap then
        (case tcp_recv (cap - length got) w of (d, w1) \<Rightarrow>
           if d = [] then (None, w1)
           else if strstr (c_string (got @ d)) (CRLF @ CRLF) \<noteq> None then (Some (got @ d), w1)
           else ws_read_http cap (got @ d) w1)
      else (None, w))"
  by pat_completeness auto
termination
  by (relation "measure (\<lambda>(cap, got, w). cap - length got)") (auto simp: neq_Nil_conv)

declare ws_read_http.simps [simp del]

section \<open>The log\<close>

definition ws_packet_event ::
  "string \<Rightarrow> string \<Rightarrow> string \<Rightarrow> string \<Rightarrow> string \<Rightarrow> string \<Rightarrow> string \<Rightarrow> int \<Rightarrow> string \<Rightarrow> int \<Rightarrow> byte list \<Rightarrow> LogEvent" where
  "ws_packet_event level event state message peer direction packet_type packet_code frame_type uid_id wire =
     (demo_init_event level event state message)
       \<lparr>le_peer := Some peer, le_direction := Some direction, le_packet_type := Some packet_type,
        le_packet_code := packet_code, le_frame_type := Some frame_type,
        le_payload_length := int_of_size (length wire), le_bytes := int_of_size (length wire),
        le_packet_uid := compute_packet_uid 24 (word_of_int packet_code) uid_id 0 (Some wire) (length wire),
        le_wire_hex := bytes_to_hex (Some (take 160 wire)) 321\<rparr>"

text \<open>The server's \<open>log_ws_packet\<close>.\<close>

definition log_ws_packet ::
  "Logger \<Rightarrow> string \<Rightarrow> string \<Rightarrow> string \<Rightarrow> string \<Rightarrow> string \<Rightarrow> string \<Rightarrow> string \<Rightarrow> int \<Rightarrow> string \<Rightarrow> byte list
   \<Rightarrow> world \<Rightarrow> world" where
  "log_ws_packet lg level event state message peer direction packet_type packet_code frame_type wire w =
     logger_write lg (Some (ws_packet_event level event state message peer direction packet_type packet_code
       frame_type 0 wire)) w"

definition ws_opcode_type :: "byte \<Rightarrow> string" where
  "ws_opcode_type opcode = (if opcode = WS_TEXT then ''TEXT'' else if opcode = WS_PING then ''PING''
     else if opcode = WS_PONG then ''PONG'' else ''CLOSE'')"

definition ws_opcode_code :: "byte \<Rightarrow> int" where
  "ws_opcode_code opcode = (if opcode = WS_TEXT then 42 else if opcode = WS_PING then 43
     else if opcode = WS_PONG then 44 else 45)"

definition ws_opcode_name :: "byte \<Rightarrow> string" where
  "ws_opcode_name opcode = (if opcode = WS_TEXT then ''text'' else if opcode = WS_PING then ''ping''
     else if opcode = WS_PONG then ''pong'' else ''close'')"

section \<open>Frames\<close>

definition ws_server_wire :: "byte \<Rightarrow> byte list \<Rightarrow> byte list" where
  "ws_server_wire opcode payload = [0x80 OR opcode, word_of_nat (length payload)] @ payload"

definition ws_server_send ::
  "Logger \<Rightarrow> string \<Rightarrow> byte \<Rightarrow> byte list \<Rightarrow> string \<Rightarrow> int \<Rightarrow> world \<Rightarrow> bool \<times> world" where
  "ws_server_send lg peer opcode payload packet_type packet_code w =
     (if length payload > 125 then (False, w)
      else let wire = ws_server_wire opcode payload;
               frame_type = (if opcode = WS_TEXT then ''text'' else if opcode = WS_PING then ''ping''
                 else if opcode = WS_PONG then ''pong'' else if opcode = WS_CLOSE then ''close'' else packet_type) in
        case demo_write_all wire w of (ok, w1) \<Rightarrow>
          if \<not> ok then (False, w1)
          else (True, log_ws_packet lg ''INFO'' ''SEND_WS_FRAME'' ''DATA_TRANSFER'' ''websocket frame sent''
                  peer ''Server -> Client'' packet_type packet_code frame_type wire w1))"

definition ws_mask :: "byte list \<Rightarrow> byte list \<Rightarrow> byte list" where
  "ws_mask masking payload = map (\<lambda>i. payload ! i XOR masking ! (i mod 4)) [0..<length payload]"

definition ws_client_wire :: "byte \<Rightarrow> byte list \<Rightarrow> byte list \<Rightarrow> byte list" where
  "ws_client_wire opcode masking payload =
     [0x80 OR opcode, 0x80 OR word_of_nat (length payload)] @ masking @ ws_mask masking payload"

definition ws_client_send ::
  "Logger \<Rightarrow> string \<Rightarrow> byte \<Rightarrow> byte list \<Rightarrow> string \<Rightarrow> int \<Rightarrow> world \<Rightarrow> bool \<times> world" where
  "ws_client_send lg peer opcode payload packet_type packet_code w =
     (if length payload > WS_MAX_PAYLOAD then (False, w)
      else case demo_random_nonce 4 w of (masking, w1) \<Rightarrow>
        let wire = ws_client_wire opcode masking payload in
        case demo_write_all wire w1 of (ok, w2) \<Rightarrow>
          if \<not> ok then (False, w2)
          else (True, logger_write lg (Some (ws_packet_event ''INFO'' ''SEND_WS_FRAME'' ''DATA_TRANSFER''
                  ''websocket frame sent'' peer ''Client -> Server'' packet_type packet_code
                  (ws_opcode_name opcode) 0 wire)) w2))"

text \<open>
  The header both receivers read: opcode, length and the bytes of the header; a 64-bit
  length and a length above the buffer are refused. Only the server looks at the mask bit.
\<close>

definition ws_recv_header :: "world \<Rightarrow> (byte \<times> nat \<times> byte list \<times> bool) option \<times> world" where
  "ws_recv_header w =
     (case demo_read_all 2 w of
        (None, w1) \<Rightarrow> (None, w1)
      | (Some header, w1) \<Rightarrow>
          let opcode = header ! 0 AND 0x0f; l7 = header ! 1 AND 0x7f; masked = bit (header ! 1) 7;
              checked = (\<lambda>pl used w'. if pl > WS_MAX_PAYLOAD then (None, w') else (Some (opcode, pl, used, masked), w')) in
          if l7 < 126 then checked (unat l7) header w1
          else if l7 = 126 then
            (case demo_read_all 2 w1 of
               (None, w2) \<Rightarrow> (None, w2)
             | (Some ext, w2) \<Rightarrow> checked (unat (ext ! 0) * 256 + unat (ext ! 1)) (header @ ext) w2)
          else (None, w1))"

definition ws_server_recv :: "Logger \<Rightarrow> string \<Rightarrow> string \<Rightarrow> world \<Rightarrow> (byte \<times> byte list) option \<times> world" where
  "ws_server_recv lg peer state w =
     (case ws_recv_header w of
        (None, w1) \<Rightarrow> (None, w1)
      | (Some (opcode, pl, used, masked), w1) \<Rightarrow>
          let noted = (\<lambda>wire w'. log_ws_packet lg ''INFO'' ''RECV_WS_FRAME'' state ''websocket frame received''
                peer ''Client -> Server'' (ws_opcode_type opcode) (ws_opcode_code opcode)
                (ws_opcode_name opcode) wire w') in
          if masked then
            (case demo_read_all 4 w1 of
               (None, w2) \<Rightarrow> (None, w2)
             | (Some masking, w2) \<Rightarrow>
                 (case demo_read_all pl w2 of
                    (None, w3) \<Rightarrow> (None, w3)
                  | (Some d, w3) \<Rightarrow> (Some (opcode, ws_mask masking d), noted (used @ masking @ d) w3)))
          else
            (case demo_read_all pl w1 of
               (None, w2) \<Rightarrow> (None, w2)
             | (Some d, w2) \<Rightarrow> (Some (opcode, d), noted (used @ d) w2)))"

definition ws_client_recv :: "Logger \<Rightarrow> string \<Rightarrow> world \<Rightarrow> (byte \<times> byte list) option \<times> world" where
  "ws_client_recv lg peer w =
     (case ws_recv_header w of
        (None, w1) \<Rightarrow> (None, w1)
      | (Some (opcode, pl, used, masked), w1) \<Rightarrow>
          (case demo_read_all pl w1 of
             (None, w2) \<Rightarrow> (None, w2)
           | (Some d, w2) \<Rightarrow>
               (Some (opcode, d), logger_write lg (Some (ws_packet_event ''INFO'' ''RECV_WS_FRAME'' ''DATA_TRANSFER''
                  ''websocket frame received'' peer ''Server -> Client'' (ws_opcode_type opcode)
                  (ws_opcode_code opcode) (ws_opcode_name opcode) 0 (used @ d))) w2)))"

section \<open>The server\<close>

definition WS_GUID :: string where "WS_GUID = ''258EAFA5-E914-47DA-95CA-C5AB0DC85B11''"

text \<open>The value of \<open>Sec-WebSocket-Accept\<close> for a key.\<close>

definition ws_accept_key :: "string \<Rightarrow> string option" where
  "ws_accept_key key =
     demo_base64_encode (sha1_final (sha1_update sha1_init (bytes_of_string (snprintf_s 512 (key @ WS_GUID))))) 128"

definition ws_response_text :: "string \<Rightarrow> string" where
  "ws_response_text accept_key =
     ''HTTP/1.1 101 Switching Protocols'' @ CRLF @ ''Upgrade: websocket'' @ CRLF @ ''Connection: Upgrade'' @ CRLF @
     ''Sec-WebSocket-Accept: '' @ accept_key @ CRLF @ CRLF"

definition send_upgrade_response :: "Logger \<Rightarrow> string \<Rightarrow> string \<Rightarrow> world \<Rightarrow> bool \<times> world" where
  "send_upgrade_response lg peer accept_key w =
     (let response = ws_response_text accept_key in
      if length response \<ge> 512 then (False, w)
      else case demo_write_all (bytes_of_string response) w of (ok, w1) \<Rightarrow>
        if \<not> ok then (False, w1)
        else (True, log_ws_packet lg ''INFO'' ''SEND_UPGRADE_RESPONSE'' ''HANDSHAKE''
                ''websocket upgrade response sent'' peer ''Server -> Client'' ''UPGRADE_RESPONSE'' 41
                ''http-upgrade'' (bytes_of_string response) w1))"

definition ws_bad_upgrade :: string where
  "ws_bad_upgrade = ''HTTP/1.1 400 Bad Request'' @ CRLF @ ''Content-Length: 11'' @ CRLF @ ''Connection: close'' @ CRLF @
     CRLF @ ''bad upgrade''"

text \<open>A header that is missing or too long counts as empty.\<close>

definition header_or_empty :: "string \<Rightarrow> string \<Rightarrow> nat \<Rightarrow> string" where
  "header_or_empty raw key cap = (case find_header_value raw key cap of None \<Rightarrow> [] | Some v \<Rightarrow> v)"

definition ws_upgrade_ok :: "string \<Rightarrow> string \<Rightarrow> bool" where
  "ws_upgrade_ok password raw =
     (let key = header_or_empty raw ''Sec-WebSocket-Key:'' 256;
          upgrade = header_or_empty raw ''Upgrade:'' 64;
          connection = header_or_empty raw ''Connection:'' 64;
          header_password = header_or_empty raw ''X-Demo-Password:'' 128
      in \<not> (key = [] \<or> upgrade = [] \<or> connection = [] \<or> upgrade \<noteq> ''websocket'' \<or>
            strstr connection ''Upgrade'' = None \<or> header_password = [] \<or> header_password \<noteq> password))"

fun ws_send_texts :: "Logger \<Rightarrow> string \<Rightarrow> byte list list \<Rightarrow> world \<Rightarrow> bool \<times> world" where
  "ws_send_texts lg peer [] w = (True, w)"
| "ws_send_texts lg peer (c # cs) w =
     (case ws_server_send lg peer WS_TEXT c ''TEXT'' 42 w of (ok, w1) \<Rightarrow>
        if ok then ws_send_texts lg peer cs w1 else (False, w1))"

text \<open>After the upgrade: at most 1024 bytes of the file in pieces, a ping, its answer, a close.\<close>

definition ws_server_flow :: "Logger \<Rightarrow> string \<Rightarrow> string \<Rightarrow> world \<Rightarrow> int \<times> world" where
  "ws_server_flow lg peer input_path w =
     (case w_fs w input_path of
        None \<Rightarrow> (1, demo_finish lg ''ABORT'' ''input open failed'' w)
      | Some f \<Rightarrow>
        (case ws_send_texts lg peer (chunks 125 (take WS_MAX_PAYLOAD (f_data f))) w of (ok, w1) \<Rightarrow>
         if \<not> ok then (1, demo_finish lg ''ABORT'' ''text frame send failed'' w1)
         else if getenv w ''UDP_SECURE_SCENARIO'' = Some ''unexpected-close''
         then (1, demo_finish lg ''ABORT'' ''unexpected close scenario'' w1)
         else (case ws_server_send lg peer WS_PING (bytes_of_string ''probe'') ''PING'' 43 w1 of (ok2, w2) \<Rightarrow>
           if \<not> ok2 then (1, demo_finish lg ''ABORT'' ''ping send failed'' w2)
           else (case ws_server_recv lg peer ''VERIFY'' w2 of (r, w3) \<Rightarrow>
             if (case r of None \<Rightarrow> True | Some (opcode, payload) \<Rightarrow> opcode \<noteq> WS_PONG)
             then (1, demo_finish lg ''ABORT'' ''pong timeout'' w3)
             else (case ws_server_send lg peer WS_CLOSE (bytes_of_string ''bye'') ''CLOSE'' 45 w3 of (ok4, w4) \<Rightarrow>
               if \<not> ok4 then (1, demo_finish lg ''ABORT'' ''close send failed'' w4)
               else (0, demo_finish lg ''OK'' ''websocket-basic flow completed'' w4))))))"

definition ws_server_session :: "Logger \<Rightarrow> string \<Rightarrow> string \<Rightarrow> string \<Rightarrow> world \<Rightarrow> int \<times> world" where
  "ws_server_session lg peer password input_path w =
     (case ws_read_http WS_HTTP_BUF [] w of
        (None, w1) \<Rightarrow> (1, demo_finish lg ''ABORT'' ''upgrade request read failed'' w1)
      | (Some raw, w1) \<Rightarrow>
        (let w2 = log_ws_packet lg ''INFO'' ''RECV_UPGRADE_REQUEST'' ''HANDSHAKE''
                ''websocket upgrade request received'' peer ''Client -> Server'' ''UPGRADE_REQUEST'' 40
                ''http-upgrade'' raw w1 in
         if \<not> ws_upgrade_ok password (c_string raw) then
           (let fail = bytes_of_string ws_bad_upgrade in
            case demo_write_all fail w2 of (ok, w3) \<Rightarrow>
              (1, demo_finish lg ''ABORT'' ''bad upgrade''
                    (log_ws_packet lg ''ERROR'' ''SEND_BAD_UPGRADE'' ''ABORT'' ''bad upgrade'' peer
                       ''Server -> Client'' ''UPGRADE_RESPONSE'' 41 ''http-upgrade'' fail w3)))
         else
           (case ws_accept_key (header_or_empty (c_string raw) ''Sec-WebSocket-Key:'' 256) of
              None \<Rightarrow> (1, demo_finish lg ''ABORT'' ''upgrade response failed'' w2)
            | Some accept_key \<Rightarrow>
               (case send_upgrade_response lg peer accept_key w2 of (ok, w3) \<Rightarrow>
                  if \<not> ok then (1, demo_finish lg ''ABORT'' ''upgrade response failed'' w3)
                  else ws_server_flow lg peer input_path w3))))"

definition ws_server_main :: "sockaddr_in \<Rightarrow> string list \<Rightarrow> world \<Rightarrow> int \<times> world" where
  "ws_server_main peer argv w =
     (case logger_open (Some ''server'') (Some ''logs/server.jsonl'') w of
        (rc, None) \<Rightarrow> (1, w)
      | (rc, Some lg) \<Rightarrow>
        if rc \<noteq> 0 then (1, w)
        else (case (if length argv \<noteq> 4 then None else parse_port (Some (argv ! 1))) of
            None \<Rightarrow> (1, demo_finish lg ''ABORT'' ''invalid arguments'' w)
          | Some port \<Rightarrow>
            (case w_fs w (argv ! 3) of
               None \<Rightarrow> (1, demo_finish lg ''ABORT'' ''input file cannot be read'' w)
             | Some st \<Rightarrow>
               (case demo_create_tcp_listener port w of (listening, w1) \<Rightarrow>
                if \<not> listening then (1, demo_finish lg ''ABORT'' (w_errno w1) w1)
                else
                 (let w2 = logger_write lg (Some ((demo_init_event ''INFO'' ''SERVER_START'' ''INIT''
                        ''websocket-basic server started'')
                          \<lparr>le_port := uint port, le_bytes := int_of_size (length (f_data st))\<rparr>)) w1 in
                  case demo_accept_client peer w2 of
                    (None, w3) \<Rightarrow> (1, demo_finish lg ''ABORT'' ''accept failed'' w3)
                  | (Some addr, w3) \<Rightarrow>
                      ws_server_session lg (peer_to_string addr 64) (argv ! 2) (argv ! 3) w3)))))"

section \<open>The client\<close>

definition ws_request_text :: "string \<Rightarrow> u16 \<Rightarrow> bool \<Rightarrow> string \<Rightarrow> string \<Rightarrow> string" where
  "ws_request_text host_name port bad key_b64 password = snprintf_s 1024 (
     ''GET /chat HTTP/1.1'' @ CRLF @
     ''Host: '' @ host_port host_name port @ CRLF @
     ''Upgrade: '' @ (if bad then ''not-websocket'' else ''websocket'') @ CRLF @
     ''Connection: '' @ (if bad then ''close'' else ''Upgrade'') @ CRLF @
     ''Sec-WebSocket-Key: '' @ key_b64 @ CRLF @
     ''Sec-WebSocket-Version: 13'' @ CRLF @
     ''X-Demo-Password: '' @ password @ CRLF @ CRLF)"

lemma ws_recv_header_some:
  assumes "ws_recv_header w = (Some (opcode, pl, used, masked), w1)"
  shows "reads w w1 \<and> tcp_stream w = used @ tcp_stream w1 \<and> 2 \<le> length used \<and> pl \<le> 1024"
proof -
  obtain h wa where hd: "demo_read_all 2 w = (Some h, wa)"
    using assms by (auto simp: ws_recv_header_def split: prod.splits option.splits)
  note first = demo_read_all_some [OF hd]
  show ?thesis
  proof (cases "h ! 1 AND 0x7f < 126")
    case True
    with assms hd first show ?thesis by (auto simp: ws_recv_header_def ws_sizes Let_def split: if_splits)
  next
    case False
    with assms hd obtain ext wb where ext: "demo_read_all 2 wa = (Some ext, wb)"
      by (auto simp: ws_recv_header_def Let_def split: prod.splits option.splits if_splits)
    note more = demo_read_all_some [OF ext]
    from assms hd ext False have "w1 = wb" "used = h @ ext" "pl \<le> 1024"
      by (auto simp: ws_recv_header_def ws_sizes Let_def split: if_splits)
    with first more show ?thesis by (auto intro: reads_trans)
  qed
qed

lemma ws_client_recv_some:
  assumes "ws_client_recv lg peer w = (Some (opcode, d), w1)"
  shows "\<exists>used w0 e. reads w w0 \<and> w1 = logger_write lg e w0 \<and> tcp_stream w = used @ d @ tcp_stream w0 \<and> 2 \<le> length used"
proof -
  from assms obtain pl used masked wa wb e where
    h: "ws_recv_header w = (Some (opcode, pl, used, masked), wa)" "demo_read_all pl wa = (Some d, wb)" "w1 = logger_write lg e wb"
    by (auto simp: ws_client_recv_def split: prod.splits option.splits)
  from ws_recv_header_some [OF h(1)] demo_read_all_some [OF h(2)] h(3) show ?thesis
    by (intro exI [of _ used] exI [of _ wb] exI [of _ e]) (auto intro: reads_trans)
qed

lemma ws_client_recv_shrinks:
  assumes "ws_client_recv lg peer w = (Some r, w1)"
  shows "length (tcp_stream w1) < length (tcp_stream w)"
proof (cases r)
  case (Pair opcode d)
  from ws_client_recv_some [OF assms [unfolded Pair]] show ?thesis
    by (auto simp: logger_write_def Let_def tcp_stream_def)
qed

lemma ws_client_send_stream: "tcp_stream (snd (ws_client_send lg peer op d t c w)) = tcp_stream w"
proof -
  obtain key4 wa where n: "demo_random_nonce 4 w = (key4, wa)" by fastforce
  obtain ok wb where s: "demo_write_all (ws_client_wire op key4 d) wa = (ok, wb)" by fastforce
  have "tcp_stream wa = tcp_stream w" using n by (auto simp: demo_random_nonce_def tcp_stream_def split: list.splits)
  moreover have "tcp_stream wb = tcp_stream wa" using demo_write_all_writes [OF s] by (auto simp: writes_same)
  ultimately show ?thesis
    using n s by (auto simp: ws_client_send_def Let_def logger_write_def tcp_stream_def)
qed

lemma ws_fwrite_stream: "tcp_stream (snd (fwrite_all p d w)) = tcp_stream w"
  by (simp add: fwrite_all_def tcp_stream_def Let_def split: prod.splits)

text \<open>
  The loop of \<open>main\<close> over the frames. A text is written with a line feed behind it; what
  \<open>fwrite\<close> returns is not looked at. The code's second branch for a close is never reached.
\<close>

function ws_client_loop :: "Logger \<Rightarrow> string \<Rightarrow> string \<Rightarrow> world \<Rightarrow> int \<times> world" where
  "ws_client_loop lg peer output_path w =
     (case read_stop w of (stop, w0) \<Rightarrow>
      if stop then (1, demo_finish lg ''ABORT'' ''client stopped'' w0)
      else (case ws_client_recv lg peer w0 of
          (None, w1) \<Rightarrow> (1, demo_finish lg ''ABORT''
             (if getenv w1 ''UDP_SECURE_SCENARIO'' = Some ''unexpected-close'' then ''unexpected close scenario''
              else ''frame receive failed'') w1)
        | (Some (opcode, payload), w1) \<Rightarrow>
          if opcode = WS_TEXT then
            (case fwrite_all output_path payload w1 of (ok2, w2) \<Rightarrow>
             case fwrite_all output_path [0x0A] w2 of (ok3, w3) \<Rightarrow> ws_client_loop lg peer output_path w3)
          else if opcode = WS_CLOSE then
            (0, demo_finish lg ''OK'' ''websocket-basic flow completed''
               (logger_write lg (Some ((demo_init_event ''INFO'' ''WS_CLOSE_RECEIVED'' ''DATA_TRANSFER''
                    ''received close frame from server'')
                  \<lparr>le_peer := Some peer, le_packet_type := Some ''CLOSE'', le_packet_code := 8,
                   le_frame_type := Some ''close''\<rparr>)) w1))
          else if opcode = WS_PING then
            (if getenv w1 ''UDP_SECURE_SCENARIO'' = Some ''ping-timeout'' then ws_client_loop lg peer output_path w1
             else (case ws_client_send lg peer WS_PONG payload ''PONG'' 44 w1 of (ok2, w2) \<Rightarrow>
               if \<not> ok2 then (1, demo_finish lg ''ABORT'' ''pong send failed'' w2)
               else (case ws_client_send lg peer WS_TEXT (bytes_of_string ''client-ack'') ''TEXT'' 42 w2 of (ok3, w3) \<Rightarrow>
                 if \<not> ok3 then (1, demo_finish lg ''ABORT'' ''text send failed'' w3)
                 else ws_client_loop lg peer output_path w3)))
          else ws_client_loop lg peer output_path w1))"
  by pat_completeness auto

lemma ws_client_round:
  assumes "(stop, w0) = read_stop w" "(Some r, w1) = ws_client_recv lg peer w0"
  shows "length (tcp_stream w1) < length (tcp_stream w)"
proof -
  have "tcp_stream w0 = tcp_stream w"
    using assms(1) [symmetric] by (auto simp: read_stop_def tcp_stream_def split: option.splits nat.splits)
  with ws_client_recv_shrinks [OF assms(2) [symmetric]] show ?thesis by simp
qed

lemma ws_client_text_round:
  assumes "(stop, w0) = read_stop w" "(Some r, w1) = ws_client_recv lg peer w0"
    "(ok2, w2) = fwrite_all p d w1" "(ok3, w3) = fwrite_all p e w2"
  shows "length (tcp_stream w3) < length (tcp_stream w)"
  using ws_client_round [OF assms(1,2)] ws_fwrite_stream [of p d w1] ws_fwrite_stream [of p e w2]
    assms(3,4) [symmetric] by simp

lemma ws_client_ping_round:
  assumes "(stop, w0) = read_stop w" "(Some r, w1) = ws_client_recv lg peer w0"
    "(ok2, w2) = ws_client_send lg peer a d t c w1" "(ok3, w3) = ws_client_send lg peer a' d' t' c' w2"
  shows "length (tcp_stream w3) < length (tcp_stream w)"
  using ws_client_round [OF assms(1,2)] ws_client_send_stream [of lg peer a d t c w1]
    ws_client_send_stream [of lg peer a' d' t' c' w2] assms(3,4) [symmetric] by simp

termination ws_client_loop
  by (relation "measure (\<lambda>(lg, peer, p, w). length (tcp_stream w))")
    (simp, auto simp only: in_measure split_conv dest: ws_client_round ws_client_text_round ws_client_ping_round)

declare ws_client_loop.simps [simp del]

text \<open>From the key to the answer of the server.\<close>

definition ws_client_session :: "Logger \<Rightarrow> string \<Rightarrow> string \<Rightarrow> u16 \<Rightarrow> string \<Rightarrow> string \<Rightarrow> world \<Rightarrow> int \<times> world" where
  "ws_client_session lg peer host_name port password output_path w =
     (case demo_random_nonce 16 w of (key_input, w1) \<Rightarrow>
      case demo_base64_encode key_input 64 of
        None \<Rightarrow> (1, demo_finish lg ''ABORT'' ''base64 key failed'' w1)
      | Some key_b64 \<Rightarrow>
        (let request = bytes_of_string (ws_request_text host_name port
                (getenv w1 ''UDP_SECURE_SCENARIO'' = Some ''bad-upgrade'') key_b64 password);
             w2 = logger_write lg (Some (ws_packet_event ''INFO'' ''SEND_UPGRADE_REQUEST'' ''HANDSHAKE''
                ''websocket upgrade request sent'' peer ''Client -> Server'' ''UPGRADE_REQUEST'' 40
                ''http-upgrade'' 0 request)) w1 in
         case demo_write_all request w2 of (ok, w3) \<Rightarrow>
         if \<not> ok then (1, demo_finish lg ''ABORT'' ''upgrade failed'' w3)
         else (case ws_read_http WS_HTTP_BUF [] w3 of
            (None, w4) \<Rightarrow> (1, demo_finish lg ''ABORT'' ''upgrade failed'' w4)
          | (Some response, w4) \<Rightarrow>
            (let status = (case scan_http_status (c_string response) of None \<Rightarrow> 0 | Some s \<Rightarrow> s);
                 w5 = logger_write lg (Some ((ws_packet_event (if status = 101 then ''INFO'' else ''ERROR'')
                    ''RECV_UPGRADE_RESPONSE'' ''HANDSHAKE'' ''websocket upgrade response received'' peer
                    ''Server -> Client'' ''UPGRADE_RESPONSE'' 41 ''http-upgrade'' status response)
                      \<lparr>le_status_code := status\<rparr>)) w4 in
             if status \<noteq> 101 then (1, demo_finish lg ''ABORT'' ''bad-upgrade scenario'' w5)
             else ws_client_loop lg peer output_path w5))))"

definition ws_client_main :: "string list \<Rightarrow> world \<Rightarrow> int \<times> world" where
  "ws_client_main argv w =
     (case logger_open (Some ''client'') (Some ''logs/client.jsonl'') w of
        (rc, None) \<Rightarrow> (1, w)
      | (rc, Some lg) \<Rightarrow>
        if rc \<noteq> 0 then (1, w)
        else (case (if length argv = 7 then Some (argv ! 3, argv ! 6)
                    else if length argv = 4 then Some (''secret'', argv ! 3) else None) of
            None \<Rightarrow> (1, demo_finish lg ''ABORT'' ''invalid arguments'' w)
          | Some (password, output_path) \<Rightarrow>
            (case parse_port (Some (argv ! 2)) of
               None \<Rightarrow> (1, demo_finish lg ''ABORT'' ''invalid port'' w)
             | Some port \<Rightarrow>
               (let peer = snprintf_s 64 (host_port (argv ! 1) port) in
                case demo_connect_tcp (argv ! 1) port w of
                  (None, w1) \<Rightarrow> (1, demo_finish lg ''ABORT'' ''tcp connect failed'' w1)
                | (Some addr, w1) \<Rightarrow>
                  (case fopen_wb output_path w1 of (opened, w2) \<Rightarrow>
                   if \<not> opened then (1, demo_finish lg ''ABORT'' ''output open failed'' w2)
                   else ws_client_session lg peer (argv ! 1) port password output_path
                          (logger_write lg (Some ((demo_init_event ''INFO'' ''CLIENT_START'' ''INIT''
                               ''websocket-basic client started'')
                             \<lparr>le_peer := Some peer, le_port := uint port\<rparr>)) w2))))))"

end
