(* ===== verification/HttpLines.thy ===== *)
theory HttpLines
  imports WebSocket Exchange
begin

text \<open>
  A block of HTTP header lines as a list: what the search of the WebSocket demo through
  the raw text finds is what a lookup in the list finds, and the block ends where the first
  empty line is, so that reading up to it reads exactly the block.
\<close>

section \<open>Lines\<close>

definition header_text :: "string list \<Rightarrow> string" where
  "header_text ls = concat (map (\<lambda>l. l @ CRLF) ls) @ CRLF"

text \<open>A line or key has no line break.\<close>

definition one_liner :: "string \<Rightarrow> bool" where
  "one_liner l \<longleftrightarrow> CHR 0x0D \<notin> set l \<and> CHR 0x0A \<notin> set l"

lemma header_text_simps [simp]:
  "header_text [] = CRLF" "header_text (l # ls) = l @ CRLF @ header_text ls"
  by (simp_all add: header_text_def)

lemma one_liner_simps [simp]:
  "one_liner []" "one_liner (a @ b) \<longleftrightarrow> one_liner a \<and> one_liner b"
  "one_liner (c # cs) \<longleftrightarrow> c \<noteq> CHR 0x0D \<and> c \<noteq> CHR 0x0A \<and> one_liner cs"
  by (auto simp: one_liner_def)

lemma one_liner_drop: "one_liner l \<Longrightarrow> one_liner (drop n l)"
  by (auto simp: one_liner_def dest: in_set_dropD)

section \<open>Searching line by line\<close>

text \<open>A key without a line break is not found across one.\<close>

lemma last_one_liner: "one_liner l \<Longrightarrow> l \<noteq> [] \<Longrightarrow> last l \<noteq> CHR 0x0A"
  by (metis last_in_set one_liner_def)

lemma take_line:
  assumes "one_liner key"
  shows "take (length key) (l @ CRLF @ r) = key \<longleftrightarrow> take (length key) l = key"
proof (cases "length key \<le> length l")
  case False
  then have "length l < length key" by simp
  then have "take (length key) (l @ CRLF @ r) ! length l = CHR 0x0D"
    by (cases "length key - length l") (simp_all add: CRLF_def nth_append)
  moreover have "key ! length l \<in> set key" using False by simp
  then have "key ! length l \<noteq> CHR 0x0D" using assms by (auto simp: one_liner_def)
  ultimately have "take (length key) (l @ CRLF @ r) \<noteq> key" by force
  moreover have "length (take (length key) l) \<noteq> length key" using False by simp
  then have "take (length key) l \<noteq> key" by force
  ultimately show ?thesis by blast
qed simp

lemma strstr_line:
  assumes "one_liner key" "key \<noteq> []"
  shows "strstr (l @ CRLF @ r) key = (case strstr l key of Some s \<Rightarrow> Some (s @ CRLF @ r) | None \<Rightarrow> strstr r key)"
proof (induction l)
  case Nil
  obtain k ks where key: "key = k # ks" using assms(2) by (cases key) auto
  then have "k \<noteq> CHR 0x0D" "k \<noteq> CHR 0x0A" using assms(1) by auto
  then show ?case by (simp add: key CRLF_def strstr_Cons strstr_Nil)
next
  case (Cons c l)
  have "take (length key) (c # l @ CRLF @ r) = key \<longleftrightarrow> take (length key) (c # l) = key"
    using take_line [OF assms(1), of "c # l" r] by simp
  with Cons show ?case by (simp add: strstr_Cons)
qed

lemma strstr_shorter: "strstr t key = Some s \<Longrightarrow> length s \<le> length t"
  using strstr_some by fastforce

definition header_value :: "string \<Rightarrow> nat \<Rightarrow> string \<Rightarrow> string option" where
  "header_value key cap l =
     (let v = dropWhile (\<lambda>c. c = CHR '' '' \<or> c = CHR 0x09) (drop (length key) l) in
      if length v \<ge> cap then None else Some v)"

definition lookup_header :: "string list \<Rightarrow> string \<Rightarrow> nat \<Rightarrow> string option" where
  "lookup_header ls key cap =
     (case find (\<lambda>l. take (length key) l = key) ls of None \<Rightarrow> None | Some l \<Rightarrow> header_value key cap l)"

lemma dropWhile_line:
  "\<not> P (CHR 0x0D) \<Longrightarrow> dropWhile P (l @ CRLF @ r) = dropWhile P l @ CRLF @ r"
  by (induction l) (auto simp: CRLF_def)

lemma strstr_break: "one_liner v \<Longrightarrow> strstr (v @ CRLF @ r) CRLF = Some (CRLF @ r)"
  by (induction v) (auto simp: CRLF_def strstr_Cons)

lemma one_liner_dropWhile: "one_liner l \<Longrightarrow> one_liner (dropWhile P l)"
  by (auto simp: one_liner_def dest: set_dropWhileD)

lemma nth_before: "front \<noteq> [] \<Longrightarrow> (pre @ front @ x) ! (length pre + length front - 1) = last front"
  by (cases front rule: rev_cases) (simp_all add: nth_append)

text \<open>Within a line the search goes on at the next one.\<close>

lemma find_header_inside:
  assumes key: "one_liner key" "key \<noteq> []"
  shows "one_liner l \<Longrightarrow> pre \<noteq> [] \<Longrightarrow> last pre \<noteq> CHR 0x0A \<Longrightarrow>
    find_header_from (pre @ l @ CRLF @ r) key cap (length pre) =
    find_header_from (pre @ l @ CRLF @ r) key cap (length pre + length l + 2)"
proof (induction "length l" arbitrary: l pre rule: less_induct)
  case less
  let ?raw = "pre @ l @ CRLF @ r"
  have at_end: "drop (length pre + length l + 2) ?raw = r" by (simp add: CRLF_def)
  note unf = find_header_from.simps [of ?raw key cap "length pre"]
  show ?case
  proof (cases "strstr l key")
    case None
    then have "strstr (drop (length pre) ?raw) key = strstr r key" by (simp add: strstr_line [OF key])
    then show ?thesis using key(2) at_end by (simp add: find_header_from.simps)
  next
    case (Some s)
    from strstr_some [OF Some] obtain front where f: "l = front @ s" "take (length key) s = key" by blast
    have s: "s = key @ drop (length key) s" using f(2) by (metis append_take_drop_id)
    let ?pre = "pre @ front @ key" and ?l = "drop (length key) s"
    have raw: "?raw = ?pre @ ?l @ CRLF @ r" using f(1) s by simp
    have at: "strstr (drop (length pre) ?raw) key = Some (s @ CRLF @ r)" by (simp add: strstr_line [OF key] Some)
    have p: "length ?raw - length (s @ CRLF @ r) = length pre + length front" using f(1) by simp
    have prev: "?raw ! (length pre + length front - 1) \<noteq> CHR 0x0A"
    proof (cases "front = []")
      case True
      have "?raw ! (length pre - 1) = last pre" using less.prems(2) by (simp add: nth_append last_conv_nth)
      with True less.prems(3) show ?thesis by simp
    next
      case False
      then have "?raw ! (length pre + length front - 1) = last front"
        using nth_before [of front pre "s @ CRLF @ r"] f(1) by simp
      moreover have "last front \<in> set l" using False f(1) by simp
      ultimately show ?thesis using less.prems(1) by (auto simp: one_liner_def)
    qed
    have "find_header_from ?raw key cap (length pre) = find_header_from ?raw key cap (length pre + length front + length key)"
      using unf key(2) at p prev less.prems(2) by (simp add: Let_def)
    also have "\<dots> = find_header_from (?pre @ ?l @ CRLF @ r) key cap (length ?pre)" using raw by (simp add: add.assoc)
    also have "\<dots> = find_header_from (?pre @ ?l @ CRLF @ r) key cap (length ?pre + length ?l + 2)"
    proof (rule less.hyps)
      have "length s = length key + length ?l" using s by (metis length_append)
      moreover have "0 < length key" using key(2) by simp
      moreover have "length l = length front + length s" using f(1) by simp
      ultimately show "length ?l < length l" by linarith
      show "one_liner ?l" using less.prems(1) f(1) by (auto intro: one_liner_drop)
      show "last ?pre \<noteq> CHR 0x0A" using last_one_liner [OF key] key(2) by simp
    qed (use less.prems(2) in simp)
    also have "length ?pre + length ?l + 2 = length pre + length l + 2" using f(1) s by (metis add.assoc length_append)
    finally show ?thesis using raw by simp
  qed
qed

text \<open>At the start of a line.\<close>

lemma find_header_lines:
  assumes key: "one_liner key" "key \<noteq> []"
  shows "list_all one_liner ls \<Longrightarrow> pre = [] \<or> last pre = CHR 0x0A \<Longrightarrow>
    find_header_from (pre @ header_text ls) key cap (length pre) = lookup_header ls key cap"
proof (induction ls arbitrary: pre)
  case Nil
  obtain k ks where "key = k # ks" using key(2) by (cases key) auto
  with key have "strstr CRLF key = None" by (auto simp: CRLF_def strstr_Cons strstr_Nil)
  with key(2) show ?case by (subst find_header_from.simps) (simp add: lookup_header_def)
next
  case (Cons l ls)
  let ?r = "header_text ls" and ?raw = "pre @ header_text (l # ls)"
  have raw: "?raw = pre @ l @ CRLF @ ?r" by simp
  note unf = find_header_from.simps [of ?raw key cap "length pre"]
  have one: "one_liner l" using Cons.prems(1) by simp
  have next_line: "find_header_from ?raw key cap (length pre + length l + 2) = lookup_header ls key cap"
  proof -
    have "find_header_from ((pre @ l @ CRLF) @ ?r) key cap (length (pre @ l @ CRLF)) = lookup_header ls key cap"
      by (rule Cons.IH) (use Cons.prems(1) in \<open>simp_all add: CRLF_def\<close>)
    then show ?thesis by (simp add: CRLF_def)
  qed
  show ?case
  proof (cases "take (length key) l = key")
    case True
    then have l: "l = key @ drop (length key) l" by (metis append_take_drop_id)
    have at: "strstr (drop (length pre) ?raw) key = Some (l @ CRLF @ ?r)"
      using True by (simp add: strstr_line [OF key]) (subst strstr.simps, simp)
    have p: "length ?raw - length (l @ CRLF @ ?r) = length pre" by simp
    have start: "length pre = 0 \<or> ?raw ! (length pre - 1) = CHR 0x0A"
      using Cons.prems(2) by (cases "pre = []") (simp_all add: nth_append last_conv_nth)
    let ?v = "dropWhile (\<lambda>c. c = CHR '' '' \<or> c = CHR 0x09) (drop (length key) l)"
    have v: "dropWhile (\<lambda>c. c = CHR '' '' \<or> c = CHR 0x09) (drop (length key) (l @ CRLF @ ?r)) = ?v @ CRLF @ ?r"
    proof -
      have "length key \<le> length l" using True by (metis length_take min.cobounded1 min.commute)
      then have "drop (length key) (l @ CRLF @ ?r) = drop (length key) l @ CRLF @ ?r" by simp
      then show ?thesis by (simp add: dropWhile_line)
    qed
    have "one_liner ?v" using one by (intro one_liner_dropWhile one_liner_drop)
    from strstr_break [OF this] v have
      "find_header_from ?raw key cap (length pre) = (if length ?v \<ge> cap then None else Some ?v)"
      using unf key(2) at p start by (simp add: Let_def)
    with True show ?thesis by (simp add: lookup_header_def header_value_def Let_def)
  next
    case False
    then have look: "lookup_header (l # ls) key cap = lookup_header ls key cap" by (simp add: lookup_header_def)
    show ?thesis
    proof (cases "strstr l key")
      case None
      have "drop (length pre + length l + 2) ?raw = ?r" by (simp add: CRLF_def)
      moreover have "strstr (drop (length pre) ?raw) key = strstr ?r key" by (simp add: strstr_line [OF key] None)
      ultimately have "find_header_from ?raw key cap (length pre) = find_header_from ?raw key cap (length pre + length l + 2)"
        using key(2) by (simp add: find_header_from.simps)
      with next_line look show ?thesis by simp
    next
      case (Some s)
      from strstr_some [OF Some] obtain front where f: "l = front @ s" "take (length key) s = key" by blast
      have front: "front \<noteq> []" using f False by auto
      have s: "s = key @ drop (length key) s" using f(2) by (metis append_take_drop_id)
      let ?pre = "pre @ front @ key" and ?l = "drop (length key) s"
      have at: "strstr (drop (length pre) ?raw) key = Some (s @ CRLF @ ?r)" by (simp add: strstr_line [OF key] Some)
      have p: "length ?raw - length (s @ CRLF @ ?r) = length pre + length front" using f(1) by simp
      have "?raw ! (length pre + length front - 1) = last front"
        using nth_before [OF front, of pre "s @ CRLF @ ?r"] f(1) by simp
      moreover have "last front \<in> set l" using front f(1) by simp
      ultimately have prev: "?raw ! (length pre + length front - 1) \<noteq> CHR 0x0A" using one by (auto simp: one_liner_def)
      have raw2: "?raw = ?pre @ ?l @ CRLF @ ?r" using f(1) s by simp
      have "find_header_from ?raw key cap (length pre) = find_header_from ?raw key cap (length pre + length front + length key)"
        using unf key(2) at p prev front by (simp add: Let_def)
      also have "\<dots> = find_header_from (?pre @ ?l @ CRLF @ ?r) key cap (length ?pre)" using raw2 by (simp add: add.assoc)
      also have "\<dots> = find_header_from (?pre @ ?l @ CRLF @ ?r) key cap (length ?pre + length ?l + 2)"
        by (rule find_header_inside [OF key])
          (use one f(1) key last_one_liner [OF key] in \<open>auto intro: one_liner_drop\<close>)
      also have "length ?pre + length ?l + 2 = length pre + length l + 2" using f(1) s by (metis add.assoc length_append)
      finally show ?thesis using raw2 next_line look by simp
    qed
  qed
qed

lemma find_header_value_lines:
  assumes "list_all one_liner ls" "one_liner key" "key \<noteq> []" "0 < cap"
  shows "find_header_value (header_text ls) key cap = lookup_header ls key cap"
  using find_header_lines [OF assms(2,3,1), of "[]"] assms(4) by (simp add: find_header_value_def)

section \<open>The end of the block\<close>

abbreviation BLANK :: string where "BLANK \<equiv> CRLF @ CRLF"

definition block :: "string list \<Rightarrow> bool" where
  "block ls \<longleftrightarrow> ls \<noteq> [] \<and> list_all (\<lambda>l. one_liner l \<and> l \<noteq> [] \<and> nul_free l) ls"

lemma blank_only_at_end:
  "list_all (\<lambda>l. one_liner l \<and> l \<noteq> []) ls \<Longrightarrow> take 4 (drop i (header_text ls)) = BLANK \<Longrightarrow>
   i + 4 = length (header_text ls)"
proof (induction ls arbitrary: i)
  case Nil
  have "length (drop i CRLF) \<le> 2" "length BLANK = 4" by (simp_all add: CRLF_def)
  moreover have "take 4 (drop i CRLF) = drop i CRLF" by (simp add: CRLF_def)
  then have "drop i CRLF = BLANK" using Nil.prems(2) by simp
  ultimately show ?case by simp
next
  case (Cons l ls)
  let ?r = "header_text ls"
  have one: "one_liner l" "l \<noteq> []" using Cons.prems(1) by simp_all
  consider "i < length l" | "i = length l" | "i = length l + 1" | "length l + 2 \<le> i" by linarith
  then show ?case
  proof cases
    case 1
    then have "take 4 (drop i (header_text (l # ls))) ! 0 = l ! i" by (simp add: nth_append)
    moreover have "l ! i \<in> set l" using 1 by simp
    ultimately show ?thesis using Cons.prems(2) one(1) by (auto simp: CRLF_def one_liner_def)
  next
    case 2
    then have two: "take 2 ?r = CRLF" using Cons.prems(2) by (simp add: CRLF_def)
    have "ls = []"
    proof (rule ccontr)
      assume "ls \<noteq> []"
      then obtain l2 r2 where ls: "ls = l2 # r2" by (cases ls) auto
      with Cons.prems(1) have "one_liner l2" "l2 \<noteq> []" by simp_all
      then obtain c l3 where "l2 = c # l3" "c \<noteq> CHR 0x0D" by (cases l2) auto
      with two ls show False by (simp add: CRLF_def numeral_2_eq_2)
    qed
    with 2 show ?thesis by (simp add: CRLF_def)
  next
    case 3
    then show ?thesis using Cons.prems(2) by (simp add: CRLF_def)
  next
    case 4
    then obtain j where j: "i = length l + 2 + j" using le_Suc_ex by blast
    then have "drop i (header_text (l # ls)) = drop j ?r" by (simp add: CRLF_def)
    with Cons.prems(2) have "take 4 (drop j ?r) = BLANK" by metis
    with Cons.IH [of j] Cons.prems(1) have "j + 4 = length ?r" by simp
    with j show ?thesis by (simp add: CRLF_def)
  qed
qed

lemma strstr_found: "strstr (a @ key @ b) key \<noteq> None"
proof (induction a)
  case Nil
  then show ?case by (simp add: strstr_here)
qed (simp add: strstr_Cons)

lemma block_ends: "ls \<noteq> [] \<Longrightarrow> \<exists>a. header_text ls = a @ BLANK"
  by (cases ls rule: rev_cases) (simp_all add: header_text_def)

lemma blank_found_at_end:
  assumes "block ls" "n \<le> length (header_text ls)"
  shows "strstr (take n (header_text ls)) BLANK = None \<longleftrightarrow> n < length (header_text ls)"
proof (cases "n < length (header_text ls)")
  case True
  have "strstr (take n (header_text ls)) BLANK = None"
  proof (rule ccontr)
    assume "strstr (take n (header_text ls)) BLANK \<noteq> None"
    then obtain s where "strstr (take n (header_text ls)) BLANK = Some s" by auto
    from strstr_some [OF this] obtain front where f: "take n (header_text ls) = front @ s" "take 4 s = BLANK"
      by (auto simp: CRLF_def numeral_eq_Suc)
    have len: "4 \<le> length s" using arg_cong [OF f(2), of length] by (simp add: CRLF_def)
    have "header_text ls = front @ s @ drop n (header_text ls)" using f(1) by (metis append.assoc append_take_drop_id)
    then have "take 4 (drop (length front) (header_text ls)) = BLANK" using f(2) len
      by (metis append_eq_conv_conj take_append diff_is_0_eq' take0 append_Nil2)
    from blank_only_at_end [OF _ this] assms(1) have "length front + 4 = length (header_text ls)"
      by (simp add: block_def list_all_iff)
    moreover have "length front + length s = n" using arg_cong [OF f(1), of length] assms(2) by simp
    ultimately show False using True len by simp
  qed
  with True show ?thesis by simp
next
  case False
  from block_ends [of ls] assms(1) obtain a where "header_text ls = a @ BLANK" by (auto simp: block_def)
  with False strstr_found [of a BLANK "[]"] show ?thesis by simp
qed

lemma nul_free_block: "block ls \<Longrightarrow> nul_free (header_text ls)"
  by (induction ls) (auto simp: block_def nul_free_def CRLF_def header_text_def list_all_iff)

lemma ws_read_http_block:
  assumes b: "block ls" and cap: "length (header_text ls) \<le> cap"
  shows "w_tcp_in w = segs @ rest \<Longrightarrow> [] \<notin> set segs \<Longrightarrow> segs \<noteq> [] \<Longrightarrow>
    got @ concat segs = bytes_of_string (header_text ls) \<Longrightarrow>
    ws_read_http cap got w = (Some (bytes_of_string (header_text ls)), w\<lparr>w_tcp_in := rest\<rparr>)"
proof (induction segs arbitrary: got w)
  case Nil
  then show ?case by simp
next
  case (Cons seg segs)
  let ?t = "header_text ls"
  have seg: "seg \<noteq> []" using Cons.prems(2) by auto
  have len: "length got + length seg + length (concat segs) = length ?t"
    using arg_cong [OF Cons.prems(4), of length] by simp
  then have fits: "length seg \<le> cap - length got" "length got < cap" using cap seg by (cases seg; simp)+
  have recv: "tcp_recv (cap - length got) w = (seg, w\<lparr>w_tcp_in := segs @ rest\<rparr>)"
    using Cons.prems(1) fits(1) by (simp add: tcp_recv_def)
  have "got @ seg = take (length got + length seg) (bytes_of_string ?t)"
    using Cons.prems(4) by (metis append.assoc append_eq_conv_conj length_append concat.simps(2))
  then have pre: "got @ seg = bytes_of_string (take (length got + length seg) ?t)"
    by (simp add: bytes_of_string_def take_map)
  have "nul_free (take (length got + length seg) ?t)"
    using nul_free_block [OF b] by (auto simp: nul_free_def dest: in_set_takeD)
  then have text_now: "c_string (got @ seg) = take (length got + length seg) ?t" using pre c_string_text by simp
  note found = blank_found_at_end [OF b, of "length got + length seg"]
  note unf = ws_read_http.simps [of cap got w]
  show ?case
  proof (cases "segs = []")
    case True
    with Cons.prems(4) have all: "got @ seg = bytes_of_string ?t" by simp
    from True len found text_now have "strstr (c_string (got @ seg)) BLANK \<noteq> None" by simp
    with unf fits recv seg all True show ?thesis by simp
  next
    case False
    then obtain s2 segs2 where "segs = s2 # segs2" by (cases segs) auto
    with Cons.prems(2) have "0 < length (concat segs)" by auto
    with len found text_now have "strstr (c_string (got @ seg)) BLANK = None" by simp
    with unf fits recv seg have "ws_read_http cap got w = ws_read_http cap (got @ seg) (w\<lparr>w_tcp_in := segs @ rest\<rparr>)" by simp
    also have "\<dots> = (Some (bytes_of_string ?t), w\<lparr>w_tcp_in := segs @ rest, w_tcp_in := rest\<rparr>)"
      using Cons.prems False by (intro Cons.IH) auto
    finally show ?thesis by simp
  qed
qed

end
