(* ===== verification/WebSocketFacts.thy ===== *)
theory WebSocketFacts
  imports HttpLines DemoFacts
begin

text \<open>
  The WebSocket demo: frames of either direction are received as they were sent, the
  upgrade answers a request with the right password and nothing else, and a whole run
  between the two programs.
\<close>

section \<open>Frames\<close>

lemma read_exact:
  assumes "calm w" "tcp_stream w = d @ rest" "length d = n"
  shows "\<exists>w1. demo_read_all n w = (Some d, w1) \<and> exchange d [] w w1 \<and> tcp_stream w1 = rest"
proof -
  from demo_read_all_flowing [of w n] assms obtain w1 where
    w1: "reads w w1" "flowing w1" "demo_read_all n w = (Some d, w1)" "tcp_stream w1 = rest"
    by (auto simp: calm_def)
  with exchange_reads [OF assms(1) w1(1,2)] assms(2) show ?thesis by auto
qed

lemma write_exact:
  assumes "calm w"
  shows "\<exists>w1. demo_write_all d w = (True, w1) \<and> exchange [] d w w1"
proof -
  obtain ok w1 where s: "demo_write_all d w = (ok, w1)" by fastforce
  with demo_write_all_writes [OF s] assms show ?thesis by (auto simp: calm_def intro!: exchange_writes)
qed

lemma length_ws_mask [simp]: "length (ws_mask m d) = length d"
  by (simp add: ws_mask_def)

lemma ws_mask_inverse [simp]: "ws_mask m (ws_mask m d) = d"
  by (rule nth_equalityI) (simp_all add: ws_mask_def xor.assoc)

text \<open>A header with a short length, masked or not.\<close>

lemma ws_recv_header_short:
  assumes "calm w" "tcp_stream w = [0x80 OR opcode, l] @ rest" "unat opcode < 16"
    and "l = word_of_nat n \<or> l = 0x80 OR word_of_nat n" "n \<le> 125"
  shows "\<exists>w1. ws_recv_header w = (Some (opcode, n, [0x80 OR opcode, l], l = 0x80 OR word_of_nat n), w1) \<and>
    exchange [0x80 OR opcode, l] [] w w1 \<and> tcp_stream w1 = rest"
proof -
  from read_exact [OF assms(1,2), of 2] obtain w1 where
    w1: "demo_read_all 2 w = (Some [0x80 OR opcode, l], w1)" "exchange [0x80 OR opcode, l] [] w w1" "tcp_stream w1 = rest"
    by auto
  have n: "unat (word_of_nat n :: byte) = n" using assms(5) by (simp add: unat_of_nat take_bit_nat_eq_self)
  then have small: "unat (word_of_nat n :: byte) < 128" using assms(5) by simp
  have l7: "l AND 0x7f = word_of_nat n" using assms(4) low_bits_7 [OF small] by auto
  have lt: "(word_of_nat n :: byte) < 126" using n assms(5) by (simp add: word_less_nat_alt)
  have "bit l 7 \<longleftrightarrow> l = 0x80 OR word_of_nat n" using assms(4) high_bit [of "word_of_nat n"] small by auto
  with w1 l7 lt n assms(5) low_nibble [OF assms(3)] show ?thesis
    by (simp add: ws_recv_header_def ws_sizes Let_def)
qed

lemma ws_server_recv_frame:
  assumes "calm w" "tcp_stream w = ws_client_wire opcode key4 d @ rest"
    and "unat opcode < 16" "length d \<le> 125" "length key4 = 4"
  shows "\<exists>w1. ws_server_recv lg peer st w = (Some (opcode, d), w1) \<and>
    exchange (ws_client_wire opcode key4 d) [] w w1 \<and> tcp_stream w1 = rest"
proof -
  let ?h = "[0x80 OR opcode, 0x80 OR word_of_nat (length d)]"
  have s: "tcp_stream w = ?h @ key4 @ ws_mask key4 d @ rest" using assms(2) by (simp add: ws_client_wire_def)
  from ws_recv_header_short [OF assms(1) s assms(3) _ assms(4)] obtain wa where
    a: "ws_recv_header w = (Some (opcode, length d, ?h, True), wa)" "exchange ?h [] w wa"
      "tcp_stream wa = key4 @ ws_mask key4 d @ rest" by auto
  have ca: "calm wa" using a(2) by (simp add: exchange_def)
  from read_exact [OF ca a(3) assms(5)] obtain wb where
    b: "demo_read_all 4 wa = (Some key4, wb)" "exchange key4 [] wa wb" "tcp_stream wb = ws_mask key4 d @ rest" by blast
  have cb: "calm wb" using b(2) by (simp add: exchange_def)
  from read_exact [OF cb b(3), of "length d"] obtain wc where
    c: "demo_read_all (length d) wb = (Some (ws_mask key4 d), wc)" "exchange (ws_mask key4 d) [] wb wc"
      "tcp_stream wc = rest" by auto
  have x: "exchange (ws_client_wire opcode key4 d) [] w wc"
    using exchange_trans [OF exchange_trans [OF a(2) b(2)] c(2)] by (simp add: ws_client_wire_def)
  with a b c show ?thesis by (auto simp: ws_server_recv_def log_ws_packet_def Let_def intro: exchange_log)
qed

lemma ws_client_recv_frame:
  assumes "calm w" "tcp_stream w = ws_server_wire opcode d @ rest" "unat opcode < 16" "length d \<le> 125"
  shows "\<exists>w1. ws_client_recv lg peer w = (Some (opcode, d), w1) \<and>
    exchange (ws_server_wire opcode d) [] w w1 \<and> tcp_stream w1 = rest"
proof -
  let ?h = "[0x80 OR opcode, word_of_nat (length d)]"
  have s: "tcp_stream w = ?h @ d @ rest" using assms(2) by (simp add: ws_server_wire_def)
  from ws_recv_header_short [OF assms(1) s assms(3) _ assms(4)] obtain m wa where
    a: "ws_recv_header w = (Some (opcode, length d, ?h, m), wa)" "exchange ?h [] w wa"
      "tcp_stream wa = d @ rest" by blast
  have ca: "calm wa" using a(2) by (simp add: exchange_def)
  from read_exact [OF ca a(3), of "length d"] obtain wb where
    b: "demo_read_all (length d) wa = (Some d, wb)" "exchange d [] wa wb" "tcp_stream wb = rest" by auto
  have x: "exchange (ws_server_wire opcode d) [] w wb"
    using exchange_trans [OF a(2) b(2)] by (simp add: ws_server_wire_def)
  with a b show ?thesis by (auto simp: ws_client_recv_def Let_def intro: exchange_log)
qed

lemma ws_server_send_frame:
  assumes "calm w" "length d \<le> 125"
  shows "\<exists>w1. ws_server_send lg peer opcode d t c w = (True, w1) \<and> exchange [] (ws_server_wire opcode d) w w1"
  using write_exact [OF assms(1), of "ws_server_wire opcode d"] assms(2)
  by (auto simp: ws_server_send_def log_ws_packet_def Let_def intro: exchange_log)

text \<open>
  C24. A frame of up to 125 bytes that the client sends, masked with whatever key it
  drew, is received by the server as the same opcode and payload, however the stream is
  cut, and the stream is left right behind it.
\<close>

theorem masked_frame_round_trip:
  assumes "ws_client_send lg peer opcode d t c wc = (True, wc1)" "w_tcp_out wc1 = w_tcp_out wc @ sent"
    and "unat opcode < 16" "length d \<le> 125" "calm ws" "tcp_stream ws = sent @ rest"
  shows "\<exists>ws1. ws_server_recv lg' peer' st ws = (Some (opcode, d), ws1) \<and> tcp_stream ws1 = rest"
proof -
  obtain key4 wa where n: "demo_random_nonce 4 wc = (key4, wa)" by fastforce
  then have k: "length key4 = 4" "w_tcp_out wa = w_tcp_out wc" by (auto simp: demo_random_nonce_def split: list.splits)
  obtain ok wb where s: "demo_write_all (ws_client_wire opcode key4 d) wa = (ok, wb)" by fastforce
  from assms(1,4) n s have r: ok "\<exists>e. wc1 = logger_write lg e wb"
    by (auto simp: ws_client_send_def ws_sizes Let_def split: if_splits)
  from demo_write_all_writes [OF s] r(1) have "w_tcp_out wb = w_tcp_out wa @ ws_client_wire opcode key4 d"
    by (auto simp: writes_def)
  with r(2) k(2) assms(2) have "sent = ws_client_wire opcode key4 d" by (auto simp: logger_write_def Let_def split: if_splits)
  with ws_server_recv_frame [OF assms(5) _ assms(3,4) k(1)] assms(6) show ?thesis by blast
qed

theorem masked_frame_round_trip_witness:
  "\<exists>wc1 sent ws1. ws_client_send closed_logger [] WS_PONG [1, 2, 3, 4, 5] [] 44
      (quiet_world\<lparr>w_nonces := [[9, 8, 7, 6]]\<rparr>) = (True, wc1) \<and> w_tcp_out wc1 = sent \<and>
    ws_server_recv closed_logger [] [] (quiet_world\<lparr>w_tcp_in := byte_by_byte (sent @ [7])\<rparr>) =
      (Some (WS_PONG, [1, 2, 3, 4, 5]), ws1) \<and> tcp_stream ws1 = [7]"
proof -
  let ?wc = "quiet_world\<lparr>w_nonces := [[9, 8, 7, 6]]\<rparr>"
  have cw: "calm (?wc\<lparr>w_nonces := []\<rparr>)" by (simp add: calm_def flowing_def quiet_parts)
  from write_exact [OF cw] obtain w1 where
    "demo_write_all (ws_client_wire WS_PONG [9, 8, 7, 6] [1, 2, 3, 4, 5]) (?wc\<lparr>w_nonces := []\<rparr>) = (True, w1)" by blast
  then obtain wc1 where s: "ws_client_send closed_logger [] WS_PONG [1, 2, 3, 4, 5] [] 44 ?wc = (True, wc1)"
    by (auto simp: ws_client_send_def ws_sizes demo_random_nonce_def Let_def)
  let ?ws = "quiet_world\<lparr>w_tcp_in := byte_by_byte (w_tcp_out wc1 @ [7])\<rparr>"
  have cs: "calm ?ws" by (simp add: calm_def flowing_def quiet_parts)
  have "\<exists>ws1. ws_server_recv closed_logger [] [] ?ws = (Some (WS_PONG, [1, 2, 3, 4, 5]), ws1) \<and> tcp_stream ws1 = [7]"
    by (rule masked_frame_round_trip [OF s _ _ _ cs]) (simp_all add: quiet_parts tcp_stream_def)
  with s show ?thesis by blast
qed

section \<open>The upgrade\<close>

lemma ws_read_http_reads: "ws_read_http cap got w = (r, w1) \<Longrightarrow> reads w w1"
proof (induction cap got w arbitrary: r w1 rule: ws_read_http.induct)
  case (1 cap got w)
  note unf = ws_read_http.simps [of cap got w]
  show ?case
  proof (cases "length got < cap")
    case False
    with "1.prems" unf show ?thesis by simp
  next
    case True
    obtain d wa where rcv: "tcp_recv (cap - length got) w = (d, wa)" by fastforce
    note ra = tcp_recv_stream(1) [OF rcv]
    show ?thesis
    proof (cases "d = [] \<or> strstr (c_string (got @ d)) (CRLF @ CRLF) \<noteq> None")
      case over: True
      with "1.prems" unf True rcv have "w1 = wa" by (auto split: if_splits)
      with ra show ?thesis by simp
    next
      case False
      with "1.prems" unf True rcv have rec: "ws_read_http cap (got @ d) wa = (r, w1)" by simp
      from False have "d \<noteq> []" "\<not> strstr (c_string (got @ d)) (CRLF @ CRLF) \<noteq> None" by auto
      from "1.IH" [OF True rcv [symmetric] this rec] ra show ?thesis using reads_trans by blast
    qed
  qed
qed

text \<open>
  C25. A client whose upgrade request does not carry the right password in its header
  (or that sends no complete request) is told so: the server writes nothing but the
  refusal or a part of it, prints \<open>ABORT\<close> and exits with status 1. With an empty
  password nobody gets in.
\<close>

theorem upgrade_needs_password:
  assumes "ws_server_session lg peer p input w = (rc, w1)"
    and "\<nexists>raw. fst (ws_read_http WS_HTTP_BUF [] w) = Some raw \<and>
          header_or_empty (c_string raw) ''X-Demo-Password:'' 128 = p \<and> p \<noteq> []"
  shows "rc = 1 \<and> w_stdout w1 = w_stdout w @ [''ABORT'' @ [CHR 0x0A]] \<and> w_fs w1 = w_fs w \<and>
    (\<exists>x y. bytes_of_string ws_bad_upgrade = x @ y \<and> w_tcp_out w1 = w_tcp_out w @ x)"
proof -
  obtain r wa where rd: "ws_read_http WS_HTTP_BUF [] w = (r, wa)" by fastforce
  note same = reads_same [OF ws_read_http_reads [OF rd]]
  show ?thesis
  proof (cases r)
    case None
    with assms(1) rd have "rc = 1" "w1 = demo_finish lg ''ABORT'' ''upgrade request read failed'' wa"
      by (auto simp: ws_server_session_def)
    with same show ?thesis by (auto simp: demo_finish_same)
  next
    case (Some raw)
    with assms(2) rd have "\<not> ws_upgrade_ok p (c_string raw)" by (auto simp: ws_upgrade_ok_def Let_def)
    then obtain ok wb e e2 where f: "demo_write_all (bytes_of_string ws_bad_upgrade) (logger_write lg e wa) = (ok, wb)"
      "rc = 1" "w1 = demo_finish lg ''ABORT'' ''bad upgrade'' (logger_write lg e2 wb)"
      using assms(1) rd Some by (auto simp: ws_server_session_def log_ws_packet_def Let_def split: prod.splits)
    from demo_write_all_writes [OF f(1)] obtain x y where xy: "bytes_of_string ws_bad_upgrade = x @ y"
      "writes x (logger_write lg e wa) wb" by blast
    have "w_stdout wb = w_stdout w \<and> w_fs wb = w_fs w \<and> w_tcp_out wb = w_tcp_out w @ x"
      using writes_same [OF xy(2)] same by (simp add: logger_write_def Let_def)
    with f(2,3) xy(1) show ?thesis by (auto simp: demo_finish_same logger_write_def Let_def)
  qed
qed

theorem upgrade_needs_password_witness:
  "let w = quiet_world\<lparr>w_tcp_in := byte_by_byte (bytes_of_string (''X'' @ CRLF @ CRLF))\<rparr>;
       (rc, w1) = ws_server_session closed_logger [] ''pw'' ''in'' w in
     rc = 1 \<and> w_stdout w1 = [''ABORT'' @ [CHR 0x0A]] \<and>
     (\<exists>x y. bytes_of_string ws_bad_upgrade = x @ y \<and> w_tcp_out w1 = x)"
proof -
  let ?w = "quiet_world\<lparr>w_tcp_in := byte_by_byte (bytes_of_string (''X'' @ CRLF @ CRLF))\<rparr>"
  obtain rc w1 where run: "ws_server_session closed_logger [] ''pw'' ''in'' ?w = (rc, w1)" by fastforce
  have b: "block [''X'']" by (simp add: block_def nul_free_def)
  have "ws_read_http WS_HTTP_BUF [] ?w = (Some (bytes_of_string (header_text [''X''])), ?w\<lparr>w_tcp_in := []\<rparr>)"
    by (rule ws_read_http_block [OF b, where segs = "byte_by_byte (bytes_of_string (header_text [''X'']))" and rest = "[]"])
      (simp_all add: ws_sizes CRLF_def byte_by_byte_def bytes_of_string_def)
  then have r: "fst (ws_read_http WS_HTTP_BUF [] ?w) = Some (bytes_of_string (header_text [''X'']))" by simp
  have "header_or_empty (header_text [''X'']) ''X-Demo-Password:'' 128 = []"
    by (subst header_or_empty_def, subst find_header_value_lines) (simp_all add: lookup_header_def)
  then have "header_or_empty (c_string (bytes_of_string (header_text [''X'']))) ''X-Demo-Password:'' 128 \<noteq> ''pw''"
    using c_string_text [OF nul_free_block [OF b]] by simp
  with r upgrade_needs_password [OF run] run show ?thesis by (auto simp: quiet_parts)
qed

end
