(* ===== verification/WebSocketRun.thy ===== *)
theory WebSocketRun
  imports WebSocketFacts
begin

text \<open>
  A whole run of the WebSocket demo. The segments of the upgrade are kept apart from the
  frames behind it, as the pause of the server is meant to keep them: what arrives in one
  segment with the end of the upgrade is lost to the frame reader.
\<close>

section \<open>Texts without line breaks\<close>

lemma base64_chars: "c \<in> set (base64_text d) \<Longrightarrow> c \<in> set base64_alphabet \<or> c = CHR ''=''"
proof (induction d rule: base64_text.induct)
  case (1 x y z ds)
  have "c \<in> set (base64_quad e) \<Longrightarrow> c \<in> set base64_alphabet \<or> c = CHR ''=''" for e
    using masked_lt_64 distinct_alphabet(2) by (auto simp: base64_quad_def base64_char_def Let_def split: if_splits)
  with 1 show ?case by auto
qed (use masked_lt_64 distinct_alphabet(2) in \<open>auto simp: base64_quad_def base64_char_def Let_def split: if_splits\<close>)

lemma base64_clean: "one_liner (base64_text d)" "nul_free (base64_text d)" "c \<in> set (base64_text d) \<Longrightarrow> c \<noteq> CHR '' '' \<and> c \<noteq> CHR 0x09"
  using base64_chars [of _ d] by (auto simp: one_liner_def nul_free_def base64_alphabet_def)

lemma show_nat_clean: "one_liner (show_nat n)" "nul_free (show_nat n)"
  using show_nat_digits [of "CHR 0x0D" n] show_nat_digits [of "CHR 0x0A" n] show_nat_digits [of "CHR 0x00" n]
  by (auto simp: one_liner_def nul_free_def is_digit_def)

lemma base64_text_nonempty [simp]: "base64_text d = [] \<longleftrightarrow> d = []"
  using length_base64_text [of d] by (cases d) (auto simp flip: length_0_conv)

lemma nul_free_simps [simp]: "nul_free []" "nul_free (a @ b) \<longleftrightarrow> nul_free a \<and> nul_free b"
  "nul_free (c # cs) \<longleftrightarrow> c \<noteq> CHR 0x00 \<and> nul_free cs"
  by (auto simp: nul_free_def)

section \<open>The upgrade, request and response\<close>

definition request_lines :: "string \<Rightarrow> u16 \<Rightarrow> string \<Rightarrow> string \<Rightarrow> string list" where
  "request_lines host_name port key password =
     [''GET /chat HTTP/1.1'', ''Host: '' @ host_port host_name port, ''Upgrade: websocket'', ''Connection: Upgrade'',
      ''Sec-WebSocket-Key: '' @ key, ''Sec-WebSocket-Version: 13'', ''X-Demo-Password: '' @ password]"

definition response_lines :: "string \<Rightarrow> string list" where
  "response_lines accept_key =
     [''HTTP/1.1 101 Switching Protocols'', ''Upgrade: websocket'', ''Connection: Upgrade'',
      ''Sec-WebSocket-Accept: '' @ accept_key]"

lemma ws_request_lines:
  "length (header_text (request_lines h p k pw)) < 1024 \<Longrightarrow>
   ws_request_text h p False k pw = header_text (request_lines h p k pw)"
  unfolding ws_request_text_def request_lines_def by (subst snprintf_s_id) simp_all

lemma ws_response_lines: "ws_response_text a = header_text (response_lines a)"
  by (simp add: ws_response_text_def response_lines_def)

text \<open>A password that fits the header: not empty, without blanks in front, without NUL or line break.\<close>

definition header_password :: "string \<Rightarrow> bool" where
  "header_password p \<longleftrightarrow> p \<noteq> [] \<and> hd p \<noteq> CHR '' '' \<and> hd p \<noteq> CHR 0x09 \<and> one_liner p \<and> nul_free p \<and> length p < 128"

definition plain_host :: "string \<Rightarrow> bool" where
  "plain_host h \<longleftrightarrow> one_liner h \<and> nul_free h"

lemma dropWhile_hd: "xs = [] \<or> \<not> P (hd xs) \<Longrightarrow> dropWhile P xs = xs"
  by (cases xs) auto

lemma upgrade_accepted:
  assumes "header_password pw" "plain_host h" "k \<noteq> []" "length k < 256" "one_liner k"
    and "hd k \<noteq> CHR '' ''" "hd k \<noteq> CHR 0x09"
  shows "ws_upgrade_ok pw (header_text (request_lines h p k pw))"
    and "header_or_empty (header_text (request_lines h p k pw)) ''Sec-WebSocket-Key:'' 256 = k"
proof -
  have lines: "list_all one_liner (request_lines h p k pw)"
    using assms show_nat_clean by (simp add: request_lines_def header_password_def plain_host_def host_port_def)
  note look = find_header_value_lines [OF lines] and val = lookup_header_def header_value_def request_lines_def Let_def
  show k: "header_or_empty (header_text (request_lines h p k pw)) ''Sec-WebSocket-Key:'' 256 = k"
    using assms(3-7) unfolding header_or_empty_def by (subst look) (simp_all add: val dropWhile_hd)
  moreover have "header_or_empty (header_text (request_lines h p k pw)) ''Upgrade:'' 64 = ''websocket''"
    unfolding header_or_empty_def by (subst look) (simp_all add: val)
  moreover have "header_or_empty (header_text (request_lines h p k pw)) ''Connection:'' 64 = ''Upgrade''"
    unfolding header_or_empty_def by (subst look) (simp_all add: val)
  moreover have "header_or_empty (header_text (request_lines h p k pw)) ''X-Demo-Password:'' 128 = pw"
    using assms(1) unfolding header_or_empty_def by (subst look) (simp_all add: val header_password_def dropWhile_hd)
  ultimately show "ws_upgrade_ok pw (header_text (request_lines h p k pw))"
    using assms(1,3) by (simp add: ws_upgrade_ok_def Let_def header_password_def strstr_Cons)
qed

lemma accept_key_some: "\<exists>a. ws_accept_key k = Some a \<and> length a = 28 \<and> one_liner a \<and> nul_free a"
proof -
  obtain d where d: "ws_accept_key k = demo_base64_encode d 128" "length d = 20"
    unfolding ws_accept_key_def using hash_final length_fips_sha1 by metis
  then have "ws_accept_key k = Some (base64_text d)"
    using length_base64_text [of d] by (simp add: demo_base64_encode_def base64_loop_text)
  with d(2) base64_clean(1,2) length_base64_text [of d] show ?thesis by auto
qed

lemma response_status: "scan_http_status (header_text (response_lines a)) = Some 101"
  by (simp add: scan_http_status_def response_lines_def strtol10_def Let_def is_space_def is_digit_def dec_value_def
      digit_val_def long_max_def long_min_def)

section \<open>The server's side\<close>

definition text_frames :: "byte list list \<Rightarrow> byte list" where
  "text_frames cs = concat (map (ws_server_wire WS_TEXT) cs)"

abbreviation ping_frame :: "byte list" where "ping_frame \<equiv> ws_server_wire WS_PING (bytes_of_string ''probe'')"
abbreviation close_frame :: "byte list" where "close_frame \<equiv> ws_server_wire WS_CLOSE (bytes_of_string ''bye'')"

lemma ws_send_texts_frames:
  "calm w \<Longrightarrow> \<forall>c \<in> set cs. length c \<le> 125 \<Longrightarrow>
   \<exists>w1. ws_send_texts lg peer cs w = (True, w1) \<and> exchange [] (text_frames cs) w w1"
proof (induction cs arbitrary: w)
  case Nil
  then show ?case by (simp add: text_frames_def exchange_refl)
next
  case (Cons c cs)
  from Cons.prems(2) have "length c \<le> 125" by simp
  from ws_server_send_frame [OF Cons.prems(1) this] obtain wa where
    a: "ws_server_send lg peer WS_TEXT c ''TEXT'' 42 w = (True, wa)" "exchange [] (ws_server_wire WS_TEXT c) w wa" by blast
  have "calm wa" using a(2) by (simp add: exchange_def)
  with Cons.IH [of wa] Cons.prems(2) obtain wb where
    b: "ws_send_texts lg peer cs wa = (True, wb)" "exchange [] (text_frames cs) wa wb" by auto
  from exchange_trans [OF a(2) b(2)] a(1) b(1) show ?case by (simp add: text_frames_def)
qed

lemma ws_server_flow_run:
  assumes "calm w" "w_fs w input = Some f" "getenv w ''UDP_SECURE_SCENARIO'' \<noteq> Some ''unexpected-close''"
    and "tcp_stream w = ws_client_wire WS_PONG key4 (bytes_of_string ''probe'') @ rest" "length key4 = 4"
  shows "\<exists>w1. ws_server_flow lg peer input w = (0, w1) \<and> w_stdout w1 = w_stdout w @ [''OK'' @ [CHR 0x0A]] \<and>
    w_tcp_out w1 = w_tcp_out w @ text_frames (chunks 125 (take 1024 (f_data f))) @ ping_frame @ close_frame"
proof -
  let ?cs = "chunks 125 (take 1024 (f_data f))"
  have small: "\<forall>c \<in> set ?cs. length c \<le> 125" by (simp add: chunks_bounds)
  from ws_send_texts_frames [OF assms(1) small] obtain wa where
    a: "ws_send_texts lg peer ?cs w = (True, wa)" "exchange [] (text_frames ?cs) w wa" by blast
  have ca: "calm wa" using a(2) by (simp add: exchange_def)
  from ws_server_send_frame [OF ca, of "bytes_of_string ''probe''" lg peer WS_PING "''PING''" 43] obtain wb where
    b: "ws_server_send lg peer WS_PING (bytes_of_string ''probe'') ''PING'' 43 wa = (True, wb)" "exchange [] ping_frame wa wb" by auto
  have cb: "calm wb" using b(2) by (simp add: exchange_def)
  have "tcp_stream wb = ws_client_wire WS_PONG key4 (bytes_of_string ''probe'') @ rest"
    using assms(4) exchange_stream [OF a(2)] exchange_stream [OF b(2)] by simp
  from ws_server_recv_frame [OF cb this, of lg peer "''VERIFY''"] assms(5) obtain wc where
    c: "ws_server_recv lg peer ''VERIFY'' wb = (Some (WS_PONG, bytes_of_string ''probe''), wc)"
      "exchange (ws_client_wire WS_PONG key4 (bytes_of_string ''probe'')) [] wb wc" by auto
  have cc: "calm wc" using c(2) by (simp add: exchange_def)
  from ws_server_send_frame [OF cc, of "bytes_of_string ''bye''" lg peer WS_CLOSE "''CLOSE''" 45] obtain wd where
    d: "ws_server_send lg peer WS_CLOSE (bytes_of_string ''bye'') ''CLOSE'' 45 wc = (True, wd)" "exchange [] close_frame wc wd" by auto
  note x = exchange_same [OF exchange_trans [OF exchange_trans [OF exchange_trans [OF a(2) b(2)] c(2)] d(2)]]
  from a(1) b(1) c(1) d(1) assms(2,3) have
    "ws_server_flow lg peer input w = (0, demo_finish lg ''OK'' ''websocket-basic flow completed'' wd)"
    by (simp add: ws_server_flow_def ws_sizes)
  with x show ?thesis by (simp add: demo_finish_same)
qed

section \<open>The client's side\<close>

lemma ws_client_send_exchange:
  assumes "calm w" "w_nonces w = key4 # ns" "length key4 = 4" "length d \<le> 125"
  shows "\<exists>w1. ws_client_send lg peer opcode d t c w = (True, w1) \<and>
    exchange [] (ws_client_wire opcode key4 d) (w\<lparr>w_nonces := ns\<rparr>) w1"
proof -
  let ?w = "w\<lparr>w_nonces := ns\<rparr>"
  have "calm ?w" using assms(1) by (simp add: calm_def flowing_def)
  from write_exact [OF this] obtain w1 where
    s: "demo_write_all (ws_client_wire opcode key4 d) ?w = (True, w1)" "exchange [] (ws_client_wire opcode key4 d) ?w w1" by blast
  have "demo_random_nonce 4 w = (key4, ?w)" using assms(2,3) by (simp add: demo_random_nonce_def)
  with s assms(4) show ?thesis by (simp add: ws_client_send_def ws_sizes Let_def exchange_log)
qed

lemma calm_nonces: "calm w \<Longrightarrow> calm (w\<lparr>w_nonces := ns\<rparr>)"
  by (simp add: calm_def flowing_def)

lemma ws_client_loop_step:
  assumes "calm w" "tcp_stream w = ws_server_wire opcode d @ rest" "unat opcode < 16" "length d \<le> 125"
  shows "\<exists>w1. read_stop w = (False, w) \<and> ws_client_recv lg peer w = (Some (opcode, d), w1) \<and>
    exchange (ws_server_wire opcode d) [] w w1 \<and> tcp_stream w1 = rest"
  using ws_client_recv_frame [OF assms] assms(1) by auto

lemma fwrite_calm:
  assumes "calm w" "w_writefault w = []" "w_fs w p = Some (new_file acc)"
  shows "fwrite_all p d w = (True, w\<lparr>w_fs := (w_fs w)(p \<mapsto> new_file (acc @ d))\<rparr>)"
  using assms by (simp add: fwrite_all_def file_data_def new_file_def)

lemma ws_client_loop_receives:
  "calm w \<Longrightarrow> w_writefault w = [] \<Longrightarrow> w_fs w out = Some (new_file acc) \<Longrightarrow> \<forall>c \<in> set cs. length c \<le> 125 \<Longrightarrow>
   getenv w ''UDP_SECURE_SCENARIO'' \<noteq> Some ''ping-timeout'' \<Longrightarrow>
   w_nonces w = m1 # m2 # ns \<Longrightarrow> length m1 = 4 \<Longrightarrow> length m2 = 4 \<Longrightarrow>
   tcp_stream w = text_frames cs @ ping_frame @ close_frame \<Longrightarrow>
   \<exists>w1. ws_client_loop lg peer out w = (0, w1) \<and> w_stdout w1 = w_stdout w @ [''OK'' @ [CHR 0x0A]] \<and>
     w_fs w1 = (w_fs w)(out \<mapsto> new_file (acc @ concat (map (\<lambda>c. c @ [0x0A]) cs))) \<and>
     w_tcp_out w1 = w_tcp_out w @ ws_client_wire WS_PONG m1 (bytes_of_string ''probe'') @
       ws_client_wire WS_TEXT m2 (bytes_of_string ''client-ack'')"
proof (induction cs arbitrary: acc w)
  case Nil
  note unf = ws_client_loop.simps [of lg peer out]
  have s: "tcp_stream w = ws_server_wire WS_PING (bytes_of_string ''probe'') @ close_frame"
    using Nil.prems(9) by (simp add: text_frames_def)
  from ws_client_loop_step [OF Nil.prems(1) s, of lg peer] obtain wa where
    a: "read_stop w = (False, w)" "ws_client_recv lg peer w = (Some (WS_PING, bytes_of_string ''probe''), wa)"
      "exchange ping_frame [] w wa" "tcp_stream wa = close_frame" by auto
  note xa = exchange_same [OF a(3)] and ca = exchange_calm [OF a(3), THEN conjunct2]
  have na: "w_nonces wa = m1 # m2 # ns" using xa Nil.prems(6) by simp
  from ws_client_send_exchange [OF ca na Nil.prems(7), of "bytes_of_string ''probe''" lg peer WS_PONG "''PONG''" 44] obtain wb where
    b: "ws_client_send lg peer WS_PONG (bytes_of_string ''probe'') ''PONG'' 44 wa = (True, wb)"
      "exchange [] (ws_client_wire WS_PONG m1 (bytes_of_string ''probe'')) (wa\<lparr>w_nonces := m2 # ns\<rparr>) wb" by auto
  note xb = exchange_same [OF b(2)] and cb = exchange_calm [OF b(2), THEN conjunct2]
  have nb: "w_nonces wb = m2 # ns" using xb by simp
  from ws_client_send_exchange [OF cb nb Nil.prems(8), of "bytes_of_string ''client-ack''" lg peer WS_TEXT "''TEXT''" 42] obtain wc where
    c: "ws_client_send lg peer WS_TEXT (bytes_of_string ''client-ack'') ''TEXT'' 42 wb = (True, wc)"
      "exchange [] (ws_client_wire WS_TEXT m2 (bytes_of_string ''client-ack'')) (wb\<lparr>w_nonces := ns\<rparr>) wc" by auto
  note xc = exchange_same [OF c(2)] and cc = exchange_calm [OF c(2), THEN conjunct2]
  have "tcp_stream wc = ws_server_wire WS_CLOSE (bytes_of_string ''bye'') @ []"
    using a(4) exchange_stream [OF b(2)] exchange_stream [OF c(2)] by (simp add: tcp_stream_def)
  from ws_client_loop_step [OF cc this, of lg peer] obtain wd where
    d: "read_stop wc = (False, wc)" "ws_client_recv lg peer wc = (Some (WS_CLOSE, bytes_of_string ''bye''), wd)"
      "exchange close_frame [] wc wd" by auto
  note xd = exchange_same [OF d(3)]
  have env: "getenv wa ''UDP_SECURE_SCENARIO'' \<noteq> Some ''ping-timeout''" using Nil.prems(5) xa by (simp add: getenv_def)
  obtain e where "ws_client_loop lg peer out wc = (0, demo_finish lg ''OK'' ''websocket-basic flow completed'' (logger_write lg e wd))"
    using d(1,2) unf [of wc] by auto
  moreover have "ws_client_loop lg peer out w = ws_client_loop lg peer out wc"
    using a(1,2) b(1) c(1) env by (subst unf) simp
  ultimately show ?case
    using xa xb xc xd Nil.prems(3) by (simp add: demo_finish_same logger_write_def Let_def fun_upd_idem)
next
  case (Cons c cs)
  note unf = ws_client_loop.simps [of lg peer out]
  have s: "tcp_stream w = ws_server_wire WS_TEXT c @ (text_frames cs @ ping_frame @ close_frame)"
    using Cons.prems(9) by (simp add: text_frames_def)
  have "length c \<le> 125" using Cons.prems(4) by simp
  from ws_client_loop_step [OF Cons.prems(1) s _ this, of lg peer] obtain wa where
    a: "read_stop w = (False, w)" "ws_client_recv lg peer w = (Some (WS_TEXT, c), wa)"
      "exchange (ws_server_wire WS_TEXT c) [] w wa" "tcp_stream wa = text_frames cs @ ping_frame @ close_frame" by auto
  note xa = exchange_same [OF a(3)] and ca = exchange_calm [OF a(3), THEN conjunct2]
  let ?wb = "wa\<lparr>w_fs := (w_fs wa)(out \<mapsto> new_file (acc @ c))\<rparr>"
  let ?wc = "wa\<lparr>w_fs := (w_fs wa)(out \<mapsto> new_file ((acc @ c) @ [0x0A]))\<rparr>"
  have w1: "fwrite_all out c wa = (True, ?wb)" using Cons.prems(2,3) xa by (intro fwrite_calm [OF ca]) simp_all
  have cb: "calm ?wb" "calm ?wc" using ca by (simp_all add: calm_def flowing_def)
  have "fwrite_all out [0x0A] ?wb = (True, ?wb\<lparr>w_fs := (w_fs ?wb)(out \<mapsto> new_file ((acc @ c) @ [0x0A]))\<rparr>)"
    using Cons.prems(2) xa by (intro fwrite_calm [OF cb(1)]) simp_all
  then have w2: "fwrite_all out [0x0A] ?wb = (True, ?wc)" by simp
  have loop: "ws_client_loop lg peer out w = ws_client_loop lg peer out ?wc"
    using a(1,2) w1 w2 by (subst unf) simp
  let ?acc = "((acc @ c) @ [0x0A]) @ concat (map (\<lambda>c. c @ [0x0A]) cs)"
  have "\<exists>w1. ws_client_loop lg peer out ?wc = (0, w1) \<and> w_stdout w1 = w_stdout ?wc @ [''OK'' @ [CHR 0x0A]] \<and>
     w_fs w1 = (w_fs ?wc)(out \<mapsto> new_file ?acc) \<and>
     w_tcp_out w1 = w_tcp_out ?wc @ ws_client_wire WS_PONG m1 (bytes_of_string ''probe'') @
       ws_client_wire WS_TEXT m2 (bytes_of_string ''client-ack'')"
    by (rule Cons.IH [OF cb(2)]) (use Cons.prems xa a(4) in \<open>simp_all add: getenv_def tcp_stream_def\<close>)
  then obtain w1 where r: "ws_client_loop lg peer out ?wc = (0, w1)" "w_stdout w1 = w_stdout ?wc @ [''OK'' @ [CHR 0x0A]]"
     "w_fs w1 = (w_fs ?wc)(out \<mapsto> new_file ?acc)"
     "w_tcp_out w1 = w_tcp_out ?wc @ ws_client_wire WS_PONG m1 (bytes_of_string ''probe'') @
       ws_client_wire WS_TEXT m2 (bytes_of_string ''client-ack'')" by blast
  have "w_fs w1 = (w_fs w)(out \<mapsto> new_file ?acc)" using r(3) xa by simp
  with loop xa r(1,2,4) show ?case by (intro exI [of _ w1]) (simp del: fun_upd_apply)
qed

section \<open>A run\<close>

text \<open>
  C26. A run of the demo. The client's upgrade request with the right password and the
  server's answer arrive in segments of their own; everything else may be cut in any way.
  Then both programs exit with status 0 and print \<open>OK\<close>, each has sent what the other
  reads, and the output file holds the first 1024 bytes of the server's file in pieces of
  at most 125 bytes with a line feed behind each.
\<close>

theorem websocket_download:
  assumes "calm ws" "calm wc" "w_writefault wc = []" "w_fs ws input = Some f" "w_fs wc out = Some (new_file [])"
    and "header_password p" "plain_host h" "length (header_text (request_lines h port (base64_text k) p)) < 1024"
    and "w_nonces wc = k # m1 # m2 # ns" "length k = 16" "length m1 = 4" "length m2 = 4"
    and "getenv ws ''UDP_SECURE_SCENARIO'' = None" "getenv wc ''UDP_SECURE_SCENARIO'' = None"
    and "w_tcp_in ws = segs1 @ rest1" "w_tcp_in wc = segs2 @ rest2"
    and "concat segs1 = bytes_of_string (header_text (request_lines h port (base64_text k) p))"
    and "concat rest1 = ws_client_wire WS_PONG m1 (bytes_of_string ''probe'') @
           ws_client_wire WS_TEXT m2 (bytes_of_string ''client-ack'')"
    and "ws_accept_key (base64_text k) = Some a" "concat segs2 = bytes_of_string (header_text (response_lines a))"
    and "concat rest2 = text_frames (chunks 125 (take 1024 (f_data f))) @ ping_frame @ close_frame"
  shows "\<exists>ws1 wc1.
    ws_server_session lgs peers p input ws = (0, ws1) \<and> ws_client_session lgc peerc h port p out wc = (0, wc1) \<and>
    w_tcp_out ws1 = w_tcp_out ws @ concat (w_tcp_in wc) \<and> w_tcp_out wc1 = w_tcp_out wc @ concat (w_tcp_in ws) \<and>
    w_stdout ws1 = w_stdout ws @ [''OK'' @ [CHR 0x0A]] \<and> w_stdout wc1 = w_stdout wc @ [''OK'' @ [CHR 0x0A]] \<and>
    w_fs wc1 = (w_fs wc)(out \<mapsto> new_file (concat (map (\<lambda>c. c @ [0x0A]) (chunks 125 (take 1024 (f_data f))))))"
proof -
  let ?k = "base64_text k" and ?cs = "chunks 125 (take 1024 (f_data f))"
  let ?req = "header_text (request_lines h port ?k p)" and ?resp = "header_text (response_lines a)"
  have key: "?k \<noteq> []" "length ?k < 256" "one_liner ?k" "hd ?k \<noteq> CHR '' ''" "hd ?k \<noteq> CHR 0x09"
  proof -
    show k: "?k \<noteq> []" "length ?k < 256" "one_liner ?k"
      using assms(10) length_base64_text [of k] base64_clean(1) by auto
    show "hd ?k \<noteq> CHR '' ''" "hd ?k \<noteq> CHR 0x09" using base64_clean(3) [OF hd_in_set [OF k(1)]] by simp_all
  qed
  from accept_key_some [of ?k] assms(19) have a: "length a = 28" "one_liner a" "nul_free a" by auto
  have b1: "block (request_lines h port ?k p)"
    using assms(6,7) key base64_clean(2) show_nat_clean
    by (simp add: block_def request_lines_def header_password_def plain_host_def host_port_def)
  have b2: "block (response_lines a)" using a by (simp add: block_def response_lines_def)
  have flow: "[] \<notin> set segs1" "[] \<notin> set rest1" "[] \<notin> set segs2" "[] \<notin> set rest2"
    using assms(1,2,15,16) by (auto simp: calm_def flowing_def)
  have ne: "segs1 \<noteq> []" "segs2 \<noteq> []"
    using assms(17,20) by (auto simp: request_lines_def response_lines_def bytes_of_string_def)
  \<comment> \<open>the server\<close>
  let ?ws = "ws\<lparr>w_tcp_in := rest1\<rparr>"
  have c1: "calm ?ws" using assms(1) flow(2) by (simp add: calm_def flowing_def)
  have rd1: "ws_read_http WS_HTTP_BUF [] ws = (Some (bytes_of_string ?req), ?ws)"
    by (rule ws_read_http_block [OF b1 _ assms(15) flow(1) ne(1)]) (use assms(8,17) in \<open>simp_all add: ws_sizes\<close>)
  have cs1: "c_string (bytes_of_string ?req) = ?req" using c_string_text [OF nul_free_block [OF b1]] .
  obtain e1 where e1: "e1 = log_ws_packet lgs ''INFO'' ''RECV_UPGRADE_REQUEST'' ''HANDSHAKE''
      ''websocket upgrade request received'' peers ''Client -> Server'' ''UPGRADE_REQUEST'' 40 ''http-upgrade''
      (bytes_of_string ?req) ?ws" by blast
  have x1: "exchange [] [] ?ws e1" using calm_log [OF c1] e1 by (simp add: log_ws_packet_def)
  from write_exact [OF exchange_calm [OF x1, THEN conjunct2], of "bytes_of_string ?resp"] obtain wa where
    wr: "demo_write_all (bytes_of_string ?resp) e1 = (True, wa)" "exchange [] (bytes_of_string ?resp) e1 wa" by blast
  have short: "length (ws_response_text a) < 512" using a(1) by (simp add: ws_response_text_def CRLF_def)
  obtain wb where up: "send_upgrade_response lgs peers a e1 = (True, wb)" "exchange [] (bytes_of_string ?resp) e1 wb"
    using wr short by (auto simp: send_upgrade_response_def ws_response_lines log_ws_packet_def Let_def intro: exchange_log)
  note xb = exchange_trans [OF x1 up(2)]
  note sb = exchange_same [OF xb]
  have cb: "calm wb" using exchange_calm [OF up(2)] by blast
  have "tcp_stream wb = concat rest1" using exchange_stream [OF xb] by (simp add: tcp_stream_def)
  then have in_b: "tcp_stream wb = ws_client_wire WS_PONG m1 (bytes_of_string ''probe'') @
      ws_client_wire WS_TEXT m2 (bytes_of_string ''client-ack'')" using assms(18) by simp
  have fb: "w_fs wb input = Some f" "getenv wb ''UDP_SECURE_SCENARIO'' \<noteq> Some ''unexpected-close''"
    using sb assms(4,13) by (simp_all add: getenv_def)
  from ws_server_flow_run [OF cb fb in_b assms(11), of lgs peers] obtain ws1 where
    s1: "ws_server_flow lgs peers input wb = (0, ws1)" "w_stdout ws1 = w_stdout wb @ [''OK'' @ [CHR 0x0A]]"
      "w_tcp_out ws1 = w_tcp_out wb @ text_frames ?cs @ ping_frame @ close_frame" by blast
  have server: "ws_server_session lgs peers p input ws = (0, ws1)"
    using rd1 cs1 upgrade_accepted [OF assms(6,7) key, of port] assms(19) up(1) s1(1) e1
    by (simp add: ws_server_session_def Let_def)
  \<comment> \<open>the client\<close>
  let ?wc = "wc\<lparr>w_nonces := m1 # m2 # ns\<rparr>"
  have non: "demo_random_nonce 16 wc = (k, ?wc)" using assms(9,10) by (simp add: demo_random_nonce_def)
  have b64: "demo_base64_encode k 64 = Some ?k"
    using assms(10) length_base64_text [of k] by (simp add: demo_base64_encode_def base64_loop_text)
  have req: "ws_request_text h port False ?k p = ?req" by (rule ws_request_lines [OF assms(8)])
  obtain e2 where e2: "e2 = logger_write lgc (Some (ws_packet_event ''INFO'' ''SEND_UPGRADE_REQUEST'' ''HANDSHAKE''
      ''websocket upgrade request sent'' peerc ''Client -> Server'' ''UPGRADE_REQUEST'' 40 ''http-upgrade'' 0
      (bytes_of_string ?req))) ?wc" by blast
  have x2: "exchange [] [] ?wc e2" using calm_log [OF calm_nonces [OF assms(2)]] e2 by simp
  from write_exact [OF exchange_calm [OF x2, THEN conjunct2], of "bytes_of_string ?req"] obtain wd where
    wr2: "demo_write_all (bytes_of_string ?req) e2 = (True, wd)" "exchange [] (bytes_of_string ?req) e2 wd" by blast
  from demo_write_all_writes [OF wr2(1)] have seg: "w_tcp_in wd = segs2 @ rest2"
    using assms(16) e2 by (auto simp: writes_same logger_write_def Let_def)
  let ?we = "wd\<lparr>w_tcp_in := rest2\<rparr>"
  have rd2: "ws_read_http WS_HTTP_BUF [] wd = (Some (bytes_of_string ?resp), ?we)"
    by (rule ws_read_http_block [OF b2 _ seg flow(3) ne(2)])
      (use short assms(20) in \<open>simp_all add: ws_sizes ws_response_lines\<close>)
  have st: "scan_http_status (c_string (bytes_of_string ?resp)) = Some 101"
    using c_string_text [OF nul_free_block [OF b2]] response_status by simp
  obtain wf e where wf: "wf = logger_write lgc e ?we"
    "ws_client_session lgc peerc h port p out wc = ws_client_loop lgc peerc out wf"
    using non b64 req assms(14) e2 wr2(1) rd2 st by (auto simp: ws_client_session_def getenv_def Let_def)
  have cd: "calm ?we" using exchange_calm [OF wr2(2)] flow(4) by (simp add: calm_def flowing_def)
  have xf: "exchange [] [] ?we wf" using calm_log [OF cd] wf(1) by simp
  note sd = exchange_same [OF exchange_trans [OF x2 wr2(2)]] and sf = exchange_same [OF xf]
  have in_f: "tcp_stream wf = text_frames ?cs @ ping_frame @ close_frame"
    using exchange_stream [OF xf] assms(21) by (simp add: tcp_stream_def)
  have "\<exists>wc1. ws_client_loop lgc peerc out wf = (0, wc1) \<and> w_stdout wc1 = w_stdout wf @ [''OK'' @ [CHR 0x0A]] \<and>
     w_fs wc1 = (w_fs wf)(out \<mapsto> new_file ([] @ concat (map (\<lambda>c. c @ [0x0A]) ?cs))) \<and>
     w_tcp_out wc1 = w_tcp_out wf @ ws_client_wire WS_PONG m1 (bytes_of_string ''probe'') @
       ws_client_wire WS_TEXT m2 (bytes_of_string ''client-ack'')"
    by (rule ws_client_loop_receives [OF exchange_calm [OF xf, THEN conjunct2] _ _ _ _ _ assms(11,12) in_f])
      (use assms(3,5,14) sd sf in \<open>simp_all add: getenv_def chunks_bounds\<close>)
  then obtain wc1 where s2: "ws_client_loop lgc peerc out wf = (0, wc1)" "w_stdout wc1 = w_stdout wf @ [''OK'' @ [CHR 0x0A]]"
     "w_fs wc1 = (w_fs wf)(out \<mapsto> new_file ([] @ concat (map (\<lambda>c. c @ [0x0A]) ?cs)))"
     "w_tcp_out wc1 = w_tcp_out wf @ ws_client_wire WS_PONG m1 (bytes_of_string ''probe'') @
       ws_client_wire WS_TEXT m2 (bytes_of_string ''client-ack'')" by blast
  have "w_fs wc1 = (w_fs wc)(out \<mapsto> new_file (concat (map (\<lambda>c. c @ [0x0A]) ?cs)))"
    using s2(3) sd sf by simp
  with server wf(2) s1 s2 sb sd sf assms(15-18,20,21) show ?thesis
    by (intro exI [of _ ws1] exI [of _ wc1]) (simp del: fun_upd_apply)
qed

definition socket_key :: "byte list" where "socket_key = replicate 16 7"

definition socket_server :: world where
  "socket_server = quiet_world\<lparr>w_fs := [''in'' \<mapsto> new_file [1, 2, 3]],
     w_tcp_in := byte_by_byte (bytes_of_string (header_text (request_lines ''h'' 9000 (base64_text socket_key) ''pw''))) @
       byte_by_byte (ws_client_wire WS_PONG [1, 2, 3, 4] (bytes_of_string ''probe'') @
         ws_client_wire WS_TEXT [5, 6, 7, 8] (bytes_of_string ''client-ack''))\<rparr>"

definition socket_client :: world where
  "socket_client = quiet_world\<lparr>w_fs := [''out'' \<mapsto> new_file []], w_nonces := [socket_key, [1, 2, 3, 4], [5, 6, 7, 8]],
     w_tcp_in := byte_by_byte (bytes_of_string (header_text (response_lines (the (ws_accept_key (base64_text socket_key)))))) @
       byte_by_byte (text_frames [[1, 2, 3]] @ ping_frame @ close_frame)\<rparr>"

theorem websocket_download_witness:
  "\<exists>ws1 wc1.
    ws_server_session closed_logger [] ''pw'' ''in'' socket_server = (0, ws1) \<and>
    ws_client_session closed_logger [] ''h'' 9000 ''pw'' ''out'' socket_client = (0, wc1) \<and>
    w_tcp_out ws1 = concat (w_tcp_in socket_client) \<and> w_tcp_out wc1 = concat (w_tcp_in socket_server) \<and>
    w_stdout ws1 = [''OK'' @ [CHR 0x0A]] \<and> w_stdout wc1 = [''OK'' @ [CHR 0x0A]] \<and>
    w_fs wc1 = [''out'' \<mapsto> new_file [1, 2, 3, 0x0A]]"
proof -
  obtain a where a: "ws_accept_key (base64_text socket_key) = Some a" using accept_key_some by blast
  have chunk: "chunks 125 [1, 2, 3 :: byte] = [[1, 2, 3]]" by (simp add: chunks_short)
  have calm: "calm socket_server" "calm socket_client"
    by (auto simp: socket_server_def socket_client_def calm_def flowing_def quiet_parts)
  have port: "show_nat 9000 = ''9000''" by (simp add: show_nat.simps digit_char_def char_of_def bit_simps)
  have len: "length (header_text (request_lines ''h'' 9000 (base64_text socket_key) ''pw'')) < 1024"
    by (simp add: request_lines_def host_port_def length_base64_text socket_key_def CRLF_def port)
  note run = websocket_download [OF calm, where input = "''in''" and f = "new_file [1, 2, 3]" and out = "''out''" and
    p = "''pw''" and h = "''h''" and port = 9000 and k = socket_key and ?m1.0 = "[1, 2, 3, 4]" and ?m2.0 = "[5, 6, 7, 8]" and
    ns = "[]" and a = a and lgs = closed_logger and peers = "[]" and lgc = closed_logger and peerc = "[]" and
    ?segs1.0 = "byte_by_byte (bytes_of_string (header_text (request_lines ''h'' 9000 (base64_text socket_key) ''pw'')))" and
    ?rest1.0 = "byte_by_byte (ws_client_wire WS_PONG [1, 2, 3, 4] (bytes_of_string ''probe'') @
         ws_client_wire WS_TEXT [5, 6, 7, 8] (bytes_of_string ''client-ack''))" and
    ?segs2.0 = "byte_by_byte (bytes_of_string (header_text (response_lines a)))" and
    ?rest2.0 = "byte_by_byte (text_frames [[1, 2, 3]] @ ping_frame @ close_frame)"]
  have parts: "w_writefault socket_client = []" "w_fs socket_server ''in'' = Some (new_file [1, 2, 3])"
    "w_fs socket_client = [''out'' \<mapsto> new_file []]" "w_nonces socket_client = socket_key # [1, 2, 3, 4] # [5, 6, 7, 8] # []"
    "getenv socket_server ''UDP_SECURE_SCENARIO'' = None" "getenv socket_client ''UDP_SECURE_SCENARIO'' = None"
    "w_stdout socket_server = []" "w_stdout socket_client = []" "w_tcp_out socket_server = []" "w_tcp_out socket_client = []"
    by (simp_all add: socket_server_def socket_client_def quiet_parts getenv_def)
  have short: "take 1024 (f_data (new_file [1, 2, 3])) = [1, 2, 3]" by (simp add: new_file_def)
  have ins: "w_tcp_in socket_server = byte_by_byte (bytes_of_string (header_text (request_lines ''h'' 9000 (base64_text socket_key) ''pw''))) @
       byte_by_byte (ws_client_wire WS_PONG [1, 2, 3, 4] (bytes_of_string ''probe'') @
         ws_client_wire WS_TEXT [5, 6, 7, 8] (bytes_of_string ''client-ack''))"
    "w_tcp_in socket_client = byte_by_byte (bytes_of_string (header_text (response_lines a))) @
       byte_by_byte (text_frames [[1, 2, 3]] @ ping_frame @ close_frame)"
    by (simp_all add: socket_server_def socket_client_def a)
  show ?thesis
    using run [OF parts(1,2)] parts len a ins
    by (simp add: short chunk header_password_def plain_host_def socket_key_def del: header_text_simps)
qed

end
