(* ===== verification/Datagram.thy ===== *)
theory Datagram
  imports CText
begin

text \<open>
  What the demos over UDP do with their socket directly: one \<open>recvfrom\<close> under a receive
  timeout, one \<open>sendto\<close>, and \<open>inet_pton\<close> for the address of the peer. The round trip of
  an address in dotted notation is proved here.
\<close>

section \<open>Calls\<close>

text \<open>
  One \<open>recvfrom\<close> with \<open>SO_RCVTIMEO\<close>: an interruption, the timeout and a failure all
  return -1 (\<open>None\<close>), a longer datagram is cut to the buffer. What the script says of
  \<open>select\<close> is here what the call itself meets.
\<close>

definition demo_recvfrom :: "nat \<Rightarrow> world \<Rightarrow> (sockaddr_in \<times> byte list) option \<times> world" where
  "demo_recvfrom n w = (case w_net w of
     [] \<Rightarrow> (None, w)
   | r # rest \<Rightarrow>
       ((case r of SelReady (RecvData peer d) \<Rightarrow> Some (peer, take n d) | _ \<Rightarrow> None), w\<lparr>w_net := rest\<rparr>))"

definition demo_sendto :: "byte list \<Rightarrow> sockaddr_in \<Rightarrow> world \<Rightarrow> bool \<times> world" where
  "demo_sendto d peer w = (case send_all_packet d peer w of (rc, w1) \<Rightarrow> (rc = 0, w1))"

text \<open>
  \<open>inet_pton(AF_INET, text, dst)\<close>: four decimal numbers up to 255 without leading zeros,
  separated by dots; the numbers read so far, the one being read, the rest of the text.
\<close>

fun inet_pton_loop :: "byte list \<Rightarrow> nat option \<Rightarrow> string \<Rightarrow> byte list option" where
  "inet_pton_loop octets cur [] =
     (case cur of None \<Rightarrow> None
      | Some v \<Rightarrow> if length octets = 3 then Some (octets @ [word_of_nat v]) else None)"
| "inet_pton_loop octets cur (c # cs) =
     (if is_digit c then
        (case cur of
           None \<Rightarrow> inet_pton_loop octets (Some (digit_val c)) cs
         | Some v \<Rightarrow> if v = 0 \<or> 10 * v + digit_val c > 255 then None
                    else inet_pton_loop octets (Some (10 * v + digit_val c)) cs)
      else if c = CHR ''.'' then
        (case cur of
           None \<Rightarrow> None
         | Some v \<Rightarrow> if length octets = 3 then None
                    else inet_pton_loop (octets @ [word_of_nat v]) None cs)
      else None)"

definition inet_pton4 :: "string \<Rightarrow> byte list option" where
  "inet_pton4 text = inet_pton_loop [] None text"

text \<open>The address of a server given as text, as the clients fill it in.\<close>

definition server_address :: "string \<Rightarrow> u16 \<Rightarrow> sockaddr_in option" where
  "server_address host_name port = (case inet_pton4 host_name of
     None \<Rightarrow> None
   | Some octets \<Rightarrow> Some \<lparr>sin_family = 2, sin_port = htons LittleEndian port, sin_addr = load_u32 LittleEndian octets\<rparr>)"

section \<open>What the calls leave unchanged\<close>

lemma demo_finish_world [world_simps]:
  "w_sent (demo_finish lg r why w) = w_sent w"
  "w_fs (demo_finish lg r why w) = w_fs w"
  "w_net (demo_finish lg r why w) = w_net w"
  "w_env (demo_finish lg r why w) = w_env w"
  "w_stdout (demo_finish lg r why w) = w_stdout w @ [r @ [CHR 0x0A]]"
  "file_data (demo_finish lg r why w) p = file_data w p"
  by (simp_all add: demo_finish_def print_line_def Let_def world_simps file_data_def)

lemma demo_recvfrom_world:
  assumes "demo_recvfrom n w = (r, w1)"
  shows "w_sent w1 = w_sent w" "w_fs w1 = w_fs w" "w_env w1 = w_env w" "w_sendfault w1 = w_sendfault w"
    "w_writefault w1 = w_writefault w" "w_stdout w1 = w_stdout w" "getenv w1 v = getenv w v" "w_nonces w1 = w_nonces w"
  using assms by (auto simp: demo_recvfrom_def getenv_def split: list.splits)

lemma demo_recvfrom_arrived: "w_net w = SelReady (RecvData p d) # rest \<Longrightarrow>
   demo_recvfrom n w = (Some (p, take n d), w\<lparr>w_net := rest\<rparr>)"
  by (simp add: demo_recvfrom_def)

lemma demo_sendto_world:
  assumes "demo_sendto d peer w = (ok, w1)"
  shows "w_sent w1 = (if ok then w_sent w @ [(peer, d)] else w_sent w)" "w_fs w1 = w_fs w" "w_net w1 = w_net w"
    "w_env w1 = w_env w" "w_writefault w1 = w_writefault w" "w_stdout w1 = w_stdout w" "getenv w1 v = getenv w v"
    "w_nonces w1 = w_nonces w"
  using assms by (auto simp: demo_sendto_def send_all_packet_eq getenv_def split: if_splits)

lemma fwrite_all_world [world_simps]:
  "w_sent (snd (fwrite_all p d w)) = w_sent w" "w_net (snd (fwrite_all p d w)) = w_net w"
  "w_env (snd (fwrite_all p d w)) = w_env w" "w_stdout (snd (fwrite_all p d w)) = w_stdout w"
  "w_nonces (snd (fwrite_all p d w)) = w_nonces w"
  by (simp_all add: fwrite_all_def Let_def split: prod.split)

lemma fwrite_all_appends:
  "w_writefault w = [] \<Longrightarrow> file_data (snd (fwrite_all p d w)) p = file_data w p @ d"
  by (simp add: fwrite_all_def file_data_def new_file_def Let_def)

lemma demo_sendto_works: "w_sendfault w = [] \<Longrightarrow>
   demo_sendto d peer w = (True, w\<lparr>w_sent := w_sent w @ [(peer, d)]\<rparr>)"
  by (simp add: demo_sendto_def send_all_packet_eq)

lemma get_u16_prefix: "2 \<le> length b \<Longrightarrow> get_u16_on h (b @ r) = get_u16_on h b"
  by (cases b; cases "tl b") (auto simp: get_u16_host)

section \<open>Steps without faults\<close>

text \<open>
  A world in which nothing fails, and a step in it that takes \<open>ins\<close> from the network and
  sends \<open>outs\<close>.
\<close>

definition dgram_calm :: "world \<Rightarrow> bool" where
  "dgram_calm w \<longleftrightarrow> w_stop w = None \<and> w_sendfault w = [] \<and> w_writefault w = [] \<and> w_renamefault w = []"

definition dgram_step :: "select_result list \<Rightarrow> (sockaddr_in \<times> byte list) list \<Rightarrow> world \<Rightarrow> world \<Rightarrow> bool" where
  "dgram_step ins outs w w1 \<longleftrightarrow> w_net w = ins @ w_net w1 \<and> w_sent w1 = w_sent w @ outs \<and> w_fs w1 = w_fs w \<and>
     w_env w1 = w_env w \<and> dgram_calm w1"

lemma dgram_step_trans:
  "dgram_step i1 o1 w w1 \<Longrightarrow> dgram_step i2 o2 w1 w2 \<Longrightarrow> i = i1 @ i2 \<Longrightarrow> outs = o1 @ o2 \<Longrightarrow> dgram_step i outs w w2"
  by (simp add: dgram_step_def)

lemma dgram_step_refl: "dgram_calm w \<Longrightarrow> dgram_step [] [] w w"
  by (simp add: dgram_step_def)

lemma dgram_step_getenv: "dgram_step i outs w w1 \<Longrightarrow> getenv w1 v = getenv w v"
  by (simp add: dgram_step_def getenv_def)

lemma dgram_log: "dgram_step i outs w w1 \<Longrightarrow> dgram_step i outs w (logger_write lg e w1)"
  by (simp add: dgram_step_def dgram_calm_def world_simps)

lemma dgram_stop: "dgram_calm w \<Longrightarrow> read_stop w = (False, w)"
  by (simp add: dgram_calm_def read_stop_def)

text \<open>One datagram sent, one received.\<close>

lemma dgram_send:
  "dgram_calm w \<Longrightarrow> \<exists>w1. demo_sendto d peer w = (True, w1) \<and> dgram_step [] [(peer, d)] w w1"
  by (simp add: demo_sendto_works dgram_step_def dgram_calm_def)

lemma dgram_recv:
  "dgram_calm w \<Longrightarrow> w_net w = SelReady (RecvData a d) # rest \<Longrightarrow> length d \<le> n \<Longrightarrow>
   \<exists>w1. demo_recvfrom n w = (Some (a, d), w1) \<and> dgram_step [SelReady (RecvData a d)] [] w w1 \<and> w_net w1 = rest"
  by (simp add: demo_recvfrom_arrived dgram_step_def dgram_calm_def)

section \<open>Addresses survive the notation\<close>

lemma show_nat_byte_digits:
  "n \<le> 255 \<Longrightarrow> \<forall>c \<in> set (show_nat n). is_digit c"
  by (simp add: show_nat_digits)

lemma inet_pton_number:
  assumes "n \<le> 255"
  shows "inet_pton_loop octets None (show_nat n @ rest) = inet_pton_loop octets (Some n) rest
    \<or> (\<exists>c cs. rest = c # cs \<and> is_digit c)"
proof -
  have one: "inet_pton_loop octets None (digit_char d # r) = inet_pton_loop octets (Some d) r" if "d < 10" for d r
    using that by simp
  have more: "inet_pton_loop octets (Some v) (digit_char d # r) = inet_pton_loop octets (Some (10 * v + d)) r"
    if "0 < v" "10 * v + d \<le> 255" "d < 10" for v d r
    using that by simp
  consider "n < 10" | "10 \<le> n" "n < 100" | "100 \<le> n" by linarith
  then show ?thesis
  proof cases
    case 1
    then show ?thesis by (simp add: show_nat.simps [of n] one)
  next
    case 2
    then have "show_nat n = [digit_char (n div 10), digit_char (n mod 10)]"
      by (simp add: show_nat.simps [of n] show_nat.simps [of "n div 10"])
    moreover have "n div 10 < 10" "0 < n div 10" using 2 by linarith+
    ultimately show ?thesis using assms by (simp only: append_Cons append_Nil) (simp add: one more)
  next
    case 3
    then have "show_nat n = [digit_char (n div 100), digit_char (n div 10 mod 10), digit_char (n mod 10)]"
    proof -
      have "\<not> n < 10" "\<not> n div 10 < 10" "n div 10 div 10 < 10" "n div 10 div 10 = n div 100"
        using 3 assms by (simp_all add: div_mult2_eq [symmetric] less_mult_imp_div_less)
      then show ?thesis
        by (simp add: show_nat.simps [of n] show_nat.simps [of "n div 10"] show_nat.simps [of "n div 100"])
    qed
    moreover have "n div 100 < 10" "0 < n div 100" using 3 assms by (simp_all add: div_greater_zero_iff)
    moreover have "n div 10 \<le> 255" using assms div_le_dividend le_trans by blast
    moreover have "10 * (n div 100) + n div 10 mod 10 = n div 10"
      using mult_div_mod_eq [of 10 "n div 10"] by (simp add: div_mult2_eq [symmetric])
    ultimately show ?thesis using assms by (simp only: append_Cons append_Nil) (simp add: one more)
  qed
qed

lemma inet_pton_dot:
  "n \<le> 255 \<Longrightarrow> length octets < 3 \<Longrightarrow>
   inet_pton_loop octets None (show_nat n @ CHR ''.'' # rest) = inet_pton_loop (octets @ [word_of_nat n]) None rest"
  using inet_pton_number [of n octets "CHR ''.'' # rest"] by (auto simp: is_digit_def)

lemma inet_pton_last:
  "n \<le> 255 \<Longrightarrow> length octets = 3 \<Longrightarrow> inet_pton_loop octets None (show_nat n) = Some (octets @ [word_of_nat n])"
  using inet_pton_number [of n octets "[]"] by simp

lemma unat_byte_le: "unat (b :: byte) \<le> 255"
  using unsigned_less [of b, where ?'a = nat] by simp

lemma inet_pton_ntop: "inet_pton4 (inet_ntop4 a) = Some (mem_u32 LittleEndian a)"
proof -
  obtain b0 b1 b2 b3 where m: "mem_u32 LittleEndian a = [b0, b1, b2, b3]" by (simp add: mem_u32_def)
  have "inet_ntop4 a = show_nat (unat b0) @ CHR ''.'' # show_nat (unat b1) @ CHR ''.'' # show_nat (unat b2) @ CHR ''.'' # show_nat (unat b3)"
    by (simp add: inet_ntop4_def m)
  then show ?thesis
    by (simp add: inet_pton4_def inet_pton_dot inet_pton_last unat_byte_le m)
qed

end
