(* ===== verification/Dns.thy ===== *)
theory Dns
  imports Datagram
begin

text \<open>
  The DNS demo (\<open>src/dns_demo_server.c\<close>, \<open>src/dns_demo_client.c\<close>): names as labels, the
  response the server builds out of the query, and the two programs, which exchange one
  query and one response. Socket options and closing descriptors leave nothing in the
  modelled state.
\<close>

section \<open>Constants\<close>

definition DNS_HEADER_SIZE :: nat where "DNS_HEADER_SIZE = 12"
definition DNS_MAX_NAME :: nat where "DNS_MAX_NAME = 256"
definition DNS_MAX_WIRE :: nat where "DNS_MAX_WIRE = 1024"

lemmas dns_sizes = DNS_HEADER_SIZE_def DNS_MAX_NAME_def DNS_MAX_WIRE_def

abbreviation DNS_PKT_QUERY :: int where "DNS_PKT_QUERY \<equiv> 100"
abbreviation DNS_PKT_RESPONSE :: int where "DNS_PKT_RESPONSE \<equiv> 101"
abbreviation DNS_PKT_RESPONSE_SUSPICIOUS :: int where "DNS_PKT_RESPONSE_SUSPICIOUS \<equiv> 103"
abbreviation DNS_PKT_RESPONSE_NXDOMAIN :: int where "DNS_PKT_RESPONSE_NXDOMAIN \<equiv> 104"
abbreviation DNS_PKT_CACHE_POISONED :: int where "DNS_PKT_CACHE_POISONED \<equiv> 105"

section \<open>Names\<close>

text \<open>
  The loop of \<open>decode_name\<close> from position \<open>pos\<close> with \<open>out\<close> written so far. \<open>Inl\<close> is the
  return value -1, with what the buffer holds then (and no NUL behind it); \<open>Inr\<close> is 0 with
  the name and the new offset. A name may end at the end of the wire, or in a pointer,
  which is skipped; only the server (\<open>strict\<close>) looks whether the pointer is complete.
\<close>

function decode_name_loop :: "bool \<Rightarrow> byte list \<Rightarrow> nat \<Rightarrow> nat \<Rightarrow> byte list \<Rightarrow> byte list + byte list \<times> nat" where
  "decode_name_loop strict wire out_cap pos out =
     (if pos < length wire then
        (let b = wire ! pos; label_len = unat b in
         if b = 0 then Inr (out, pos + 1)
         else if b AND 0xc0 = 0xc0 then
           (if strict \<and> pos + 2 > length wire then Inl out else Inr (out, pos + 2))
         else if b AND 0xc0 \<noteq> 0 then Inl out
         else if pos + 1 + label_len > length wire then Inl out
         else if length out + label_len + 2 > out_cap then Inl out
         else decode_name_loop strict wire out_cap (pos + 1 + label_len)
                ((if length out > 0 then out @ [of_char CHR ''.''] else out) @ take label_len (drop (pos + 1) wire)))
      else Inr (out, pos))"
  by pat_completeness auto
termination
  by (relation "measure (\<lambda>(strict, wire, out_cap, pos, out). length wire - pos)") auto

declare decode_name_loop.simps [simp del]

definition decode_name :: "byte list \<Rightarrow> nat \<Rightarrow> nat \<Rightarrow> byte list + byte list \<times> nat" where
  "decode_name wire offset out_cap = decode_name_loop True wire out_cap offset []"

text \<open>The client's copy of the function.\<close>

definition client_decode_name :: "byte list \<Rightarrow> nat \<Rightarrow> nat \<Rightarrow> byte list + byte list \<times> nat" where
  "client_decode_name wire offset out_cap = decode_name_loop False wire out_cap offset []"

text \<open>
  The loop of the client's \<open>encode_name\<close> over the name, with the bytes written so far; a
  dot at the end of the name is ignored.
\<close>

function encode_name_loop :: "string \<Rightarrow> nat \<Rightarrow> byte list \<Rightarrow> byte list option" where
  "encode_name_loop p cap out =
     (if p = [] then (if length out + 1 > cap then None else Some (out @ [0]))
      else let label = takeWhile (\<lambda>c. c \<noteq> CHR ''.'') p; rest = dropWhile (\<lambda>c. c \<noteq> CHR ''.'') p in
        if length label = 0 \<or> length label > 63 then None
        else if length out + 1 + length label + 1 > cap then None
        else encode_name_loop (drop 1 rest) cap
               (out @ [word_of_nat (length label)] @ bytes_of_string label))"
  by pat_completeness auto
termination
proof (relation "measure (\<lambda>(p, cap, out). length p)", simp)
  fix p :: string and cap :: nat and out :: "byte list" and label rest
  assume "rest = dropWhile (\<lambda>c. c \<noteq> CHR ''.'') p" "label = takeWhile (\<lambda>c. c \<noteq> CHR ''.'') p"
    "\<not> (length label = 0 \<or> 63 < length label)"
  then have "length label + length rest = length p" "length label > 0"
    by (metis length_append takeWhile_dropWhile_id, simp)
  then have "length rest - 1 < length p" by linarith
  then show "((drop 1 rest, cap, out @ [word_of_nat (length label)] @ bytes_of_string label), p, cap, out)
    \<in> measure (\<lambda>(p, cap, out). length p)" by simp
qed

declare encode_name_loop.simps [simp del]

definition encode_name :: "string \<Rightarrow> nat \<Rightarrow> byte list option" where
  "encode_name name cap = encode_name_loop name cap []"

section \<open>The log\<close>

text \<open>
  Both programs' \<open>log_dns\<close>; the server hashes the type of the query into the identifier of
  the packet where the client has 0. The pointer \<open>wire\<close> may be \<open>NULL\<close>.
\<close>

definition dns_event ::
  "string \<Rightarrow> string \<Rightarrow> string \<Rightarrow> string \<Rightarrow> string \<Rightarrow> string \<Rightarrow> int \<Rightarrow> string \<Rightarrow> string \<Rightarrow> int \<Rightarrow> int \<Rightarrow> byte list option \<Rightarrow> LogEvent" where
  "dns_event level event state message peer direction packet_code packet_type qname number rcode wire =
     (let wire_len = (case wire of None \<Rightarrow> 0 | Some d \<Rightarrow> length d) in
      (demo_init_event level event state message)
        \<lparr>le_peer := Some peer, le_direction := Some direction, le_packet_type := Some packet_type,
         le_packet_code := packet_code, le_path := Some qname, le_status_code := rcode,
         le_payload_length := int_of_size wire_len, le_bytes := int_of_size wire_len,
         le_packet_uid := compute_packet_uid 24 (word_of_int packet_code) number rcode wire wire_len,
         le_wire_hex := bytes_to_hex (map_option (take 160) wire) 321\<rparr>)"

definition log_dns ::
  "Logger \<Rightarrow> string \<Rightarrow> string \<Rightarrow> string \<Rightarrow> string \<Rightarrow> string \<Rightarrow> string \<Rightarrow> int \<Rightarrow> string \<Rightarrow> string \<Rightarrow> u16 \<Rightarrow> int \<Rightarrow> byte list option
   \<Rightarrow> world \<Rightarrow> world" where
  "log_dns lg level event state message peer direction packet_code packet_type qname qtype rcode wire w =
     logger_write lg (Some (dns_event level event state message peer direction packet_code packet_type qname
       (uint qtype) rcode wire)) w"

definition client_log_dns ::
  "Logger \<Rightarrow> string \<Rightarrow> string \<Rightarrow> string \<Rightarrow> string \<Rightarrow> string \<Rightarrow> string \<Rightarrow> int \<Rightarrow> string \<Rightarrow> string \<Rightarrow> int \<Rightarrow> byte list \<Rightarrow> world \<Rightarrow> world" where
  "client_log_dns lg level event state message peer direction packet_code packet_type qname rcode wire w =
     logger_write lg (Some (dns_event level event state message peer direction packet_code packet_type qname 0 rcode
       (Some wire))) w"

section \<open>The response\<close>

text \<open>
  The search for the end of the name in the query, which adds lengths up without looking
  at what kind of length they are.
\<close>

function skip_name :: "byte list \<Rightarrow> nat \<Rightarrow> nat" where
  "skip_name query pos =
     (if pos < length query \<and> query ! pos \<noteq> 0 then skip_name query (pos + (1 + unat (query ! pos))) else pos)"
  by pat_completeness auto
termination
  by (relation "measure (\<lambda>(query, pos). length query - pos)") auto

declare skip_name.simps [simp del]

definition dns_flags :: "nat \<Rightarrow> u16" where
  "dns_flags rcode =
     push_bit 15 1 OR push_bit 10 1 OR push_bit 8 1 OR push_bit 7 1 OR (word_of_nat rcode AND 0x0f)"

definition dns_answer :: "byte list \<Rightarrow> byte list" where
  "dns_answer rdata = [0xC0, 0x0C] @ put_u16 1 @ put_u16 1 @ put_u32 60 @ put_u16 4 @ rdata"

definition build_response :: "byte list \<Rightarrow> u16 \<Rightarrow> nat \<Rightarrow> string option \<Rightarrow> byte list option" where
  "build_response query qtype rcode answer_ip =
     (if length query < DNS_HEADER_SIZE then None
      else let answered = (rcode = 0 \<and> answer_ip \<noteq> None);
               header = take 2 query @ put_u16 (dns_flags rcode) @ put_u16 1 @
                 put_u16 (if answered then 1 else 0) @ put_u16 0 @ put_u16 0 in
        if DNS_HEADER_SIZE \<ge> length query then Some header
        else let pos = skip_name query DNS_HEADER_SIZE; qname_bytes = pos - DNS_HEADER_SIZE + 1 in
          if pos \<ge> length query then None
          else if DNS_HEADER_SIZE + qname_bytes + 4 > DNS_MAX_WIRE then None
          else let asked = header @ take qname_bytes (drop DNS_HEADER_SIZE query) @ put_u16 qtype @ put_u16 1 in
            (case (if answered then answer_ip else None) of
               None \<Rightarrow> Some asked
             | Some ip \<Rightarrow>
                 if length asked + 2 + 2 + 2 + 4 + 2 + 4 > DNS_MAX_WIRE then None
                 else (case inet_pton4 ip of None \<Rightarrow> None | Some rdata \<Rightarrow> Some (asked @ dns_answer rdata))))"

section \<open>The server\<close>

text \<open>
  What precedes the response in the attack scenarios: a forged response (sent without a
  look at the result), or a remark in the log. The result carries the return code and the
  answer of the response proper.
\<close>

definition dns_scenario ::
  "Logger \<Rightarrow> string \<Rightarrow> sockaddr_in \<Rightarrow> byte list \<Rightarrow> string \<Rightarrow> u16 \<Rightarrow> world \<Rightarrow> nat \<times> world" where
  "dns_scenario lg peer addr query qname qtype w =
     (let scenario = getenv w ''UDP_SECURE_SCENARIO'' in
      if scenario = Some ''spoofed-response'' then
        (case build_response query qtype 0 (Some ''6.6.6.6'') of
           None \<Rightarrow> (0, w)
         | Some response \<Rightarrow>
             (0, log_dns lg ''WARN'' ''SPOOFED_RESPONSE_SENT'' ''SPOOF''
                   ''spoofed DNS response sent (txid match, fake IP)'' peer ''Server -> Client''
                   DNS_PKT_RESPONSE_SUSPICIOUS ''DNS_RESPONSE_SUSPICIOUS'' qname qtype 0 (Some response)
                   (snd (demo_sendto response addr w))))
      else if scenario = Some ''nxdomain-redir'' then
        (3, log_dns lg ''WARN'' ''NXDOMAIN_RESPONDED'' ''REDIR'' ''non-existent domain redirected'' peer
              ''Server -> Client'' DNS_PKT_RESPONSE_NXDOMAIN ''DNS_RESPONSE_NXDOMAIN'' qname qtype 3 None w)
      else if scenario = Some ''doh-tls'' then
        (0, log_dns lg ''INFO'' ''DOH_TLS_NOT_IMPLEMENTED'' ''WARN''
              ''DoH-TLS not implemented in this teaching demo; falling back to plain UDP'' peer ''Observed''
              DNS_PKT_CACHE_POISONED ''DNS_CACHE_POISONED'' qname qtype 0 None w)
      else (0, w))"

definition dns_respond ::
  "Logger \<Rightarrow> string \<Rightarrow> sockaddr_in \<Rightarrow> byte list \<Rightarrow> string \<Rightarrow> u16 \<Rightarrow> world \<Rightarrow> int \<times> world" where
  "dns_respond lg peer addr query qname qtype w =
     (case dns_scenario lg peer addr query qname qtype w of (rcode, w1) \<Rightarrow>
      case build_response query qtype rcode (if rcode = 0 then Some ''1.2.3.4'' else None) of
        None \<Rightarrow> (0, demo_finish lg ''OK'' ''dns flow completed'' w1)
      | Some response \<Rightarrow>
        (case demo_sendto response addr w1 of (sent, w2) \<Rightarrow>
           if \<not> sent then (1, demo_finish lg ''ABORT'' ''response send failed'' w2)
           else (0, demo_finish lg ''OK'' ''dns flow completed''
                  (log_dns lg ''INFO'' (if rcode = 3 then ''SEND_NXDOMAIN'' else ''SEND_RESPONSE'') ''RESPONSE''
                     ''dns response sent'' peer ''Server -> Client'' DNS_PKT_RESPONSE ''DNS_RESPONSE'' qname qtype
                     (int rcode) (Some response) w2))))"

definition dns_server_session :: "Logger \<Rightarrow> world \<Rightarrow> int \<times> world" where
  "dns_server_session lg w =
     (case demo_recvfrom DNS_MAX_WIRE w of
        (None, w1) \<Rightarrow> (1, demo_finish lg ''ABORT'' ''no query received'' w1)
      | (Some (addr, query), w1) \<Rightarrow>
        (let peer = peer_to_string addr 64 in
         if query = [] then (1, demo_finish lg ''ABORT'' ''no query received'' w1)
         else if length query < DNS_HEADER_SIZE then (1, demo_finish lg ''ABORT'' ''query too short'' w1)
         else if get_u16 (drop 4 query) \<noteq> 1 then (1, demo_finish lg ''ABORT'' ''only 1 question supported'' w1)
         else (case decode_name query DNS_HEADER_SIZE DNS_MAX_NAME of
             Inl _ \<Rightarrow> (1, demo_finish lg ''ABORT'' ''bad qname encoding'' w1)
           | Inr (name, off) \<Rightarrow>
             if off + 4 > length query then (1, demo_finish lg ''ABORT'' ''truncated question'' w1)
             else let qname = c_string name; qtype = get_u16 (drop off query) in
               dns_respond lg peer addr query qname qtype
                 (log_dns lg ''INFO'' ''RECV_QUERY'' ''QUERY'' ''dns query received'' peer ''Client -> Server''
                    DNS_PKT_QUERY ''DNS_QUERY'' qname qtype 0 (Some query) w1))))"

definition dns_server_main :: "string list \<Rightarrow> world \<Rightarrow> int \<times> world" where
  "dns_server_main argv w =
     (case logger_open (Some ''server'') (Some ''logs/server.jsonl'') w of
        (rc, None) \<Rightarrow> (1, w)
      | (rc, Some lg) \<Rightarrow>
        if rc \<noteq> 0 then (1, w)
        else (case (if length argv \<noteq> 4 then None else parse_port (Some (argv ! 1))) of
            None \<Rightarrow> (1, demo_finish lg ''ABORT'' ''invalid arguments'' w)
          | Some port \<Rightarrow>
            (case socket_call w of (opened, w1) \<Rightarrow>
             if \<not> opened then (1, demo_finish lg ''ABORT'' (w_errno w1) w1)
             else (case socket_call w1 of (bound, w2) \<Rightarrow>
               if \<not> bound then (1, demo_finish lg ''ABORT'' (w_errno w2) w2)
               else dns_server_session lg
                 (logger_write lg (Some ((demo_init_event ''INFO'' ''SERVER_START'' ''INIT'' ''dns server started'')
                    \<lparr>le_port := uint port\<rparr>)) w2)))))"

section \<open>The client\<close>

text \<open>The identifier of the query: the low half of the process number, never 0.\<close>

definition dns_txid :: "int \<Rightarrow> u16" where
  "dns_txid pid = (if (word_of_int pid :: u16) = 0 then 1 else word_of_int pid)"

definition dns_query :: "int \<Rightarrow> byte list \<Rightarrow> byte list" where
  "dns_query pid name =
     put_u16 (dns_txid pid) @ put_u16 0x0100 @ put_u16 1 @ put_u16 0 @ put_u16 0 @ put_u16 0 @
     name @ put_u16 1 @ put_u16 1"

text \<open>
  What a response is turned into: the name it starts with, its return code and the number
  of answers it announces. \<open>stack\<close> is what the buffer of the name held before the call: it
  shows when the name cannot be decoded, since nobody looks.
\<close>

definition dns_response_name :: "byte list \<Rightarrow> byte list \<Rightarrow> string" where
  "dns_response_name stack response = (case client_decode_name response DNS_HEADER_SIZE DNS_MAX_NAME of
     Inl out \<Rightarrow> c_string (out @ drop (length out) stack)
   | Inr (out, off) \<Rightarrow> c_string out)"

definition dns_response_rcode :: "byte list \<Rightarrow> nat" where
  "dns_response_rcode response = unat (get_u16 (drop 2 response) AND 0x000f)"

definition dns_summary :: "byte list \<Rightarrow> byte list \<Rightarrow> string" where
  "dns_summary stack response = snprintf_s 512
     (''qname='' @ dns_response_name stack response @ '' rcode='' @ show_nat (dns_response_rcode response) @
      '' ancount='' @ show_nat (unat (get_u16 (drop 6 response))) @ [CHR 0x0A])"

definition dns_client_receive :: "Logger \<Rightarrow> byte list \<Rightarrow> string \<Rightarrow> string \<Rightarrow> world \<Rightarrow> int \<times> world" where
  "dns_client_receive lg stack peer_text out_path w =
     (case demo_recvfrom DNS_MAX_WIRE w of
        (None, w1) \<Rightarrow> (1, demo_finish lg ''ABORT'' ''no response'' w1)
      | (Some (sender, response), w1) \<Rightarrow>
        if length response < DNS_HEADER_SIZE then (1, demo_finish lg ''ABORT'' ''no response'' w1)
        else let rcode = dns_response_rcode response;
                 w2 = client_log_dns lg ''INFO'' ''RECV_RESPONSE'' ''RESPONSE''
                        (if rcode = 3 then ''NXDOMAIN received'' else ''dns response received'') peer_text
                        ''Server -> Client''
                        (if rcode = 3 then DNS_PKT_RESPONSE_NXDOMAIN else DNS_PKT_RESPONSE)
                        (if rcode = 3 then ''DNS_RESPONSE_NXDOMAIN'' else ''DNS_RESPONSE'')
                        (dns_response_name stack response) (int rcode) response w1;
                 w3 = (if getenv w2 ''UDP_SECURE_SCENARIO'' = Some ''spoofed-response''
                       then logger_write lg (Some ((demo_init_event ''WARN'' ''SUSPICIOUS_RESPONSE_OBSERVED'' ''SPOOF''
                              ''received a response with suspicious rcode / IP pattern'')
                            \<lparr>le_peer := Some peer_text, le_packet_type := Some ''DNS_RESPONSE_SUSPICIOUS'',
                             le_packet_code := DNS_PKT_RESPONSE_SUSPICIOUS, le_security_replay := 1\<rparr>)) w2
                       else w2) in
          (0, demo_finish lg ''OK'' ''dns flow completed''
                (snd (fwrite_all out_path (bytes_of_string (dns_summary stack response)) w3))))"

definition dns_client_session ::
  "Logger \<Rightarrow> int \<Rightarrow> byte list \<Rightarrow> string \<Rightarrow> sockaddr_in \<Rightarrow> string \<Rightarrow> world \<Rightarrow> int \<times> world" where
  "dns_client_session lg pid stack peer_text server out_path w =
     (case encode_name ''example.com'' (DNS_MAX_WIRE - DNS_HEADER_SIZE - 4) of
        None \<Rightarrow> (1, demo_finish lg ''ABORT'' ''encode name failed'' w)
      | Some name \<Rightarrow>
        (let query = dns_query pid name in
         case demo_sendto query server
                (client_log_dns lg ''INFO'' ''SEND_QUERY'' ''QUERY'' ''dns query sent'' peer_text ''Client -> Server''
                   DNS_PKT_QUERY ''DNS_QUERY'' ''example.com'' 0 query w) of (sent, w1) \<Rightarrow>
         if \<not> sent then (1, demo_finish lg ''ABORT'' ''send failed'' w1)
         else dns_client_receive lg stack peer_text out_path w1))"

text \<open>\<open>pid\<close> is what \<open>getpid\<close> returns.\<close>

definition dns_client_main :: "int \<Rightarrow> byte list \<Rightarrow> string list \<Rightarrow> world \<Rightarrow> int \<times> world" where
  "dns_client_main pid stack argv w =
     (case logger_open (Some ''client'') (Some ''logs/client.jsonl'') w of
        (rc, None) \<Rightarrow> (1, w)
      | (rc, Some lg) \<Rightarrow>
        if rc \<noteq> 0 then (1, w)
        else if length argv \<noteq> 4 \<and> length argv \<noteq> 7 then (1, demo_finish lg ''ABORT'' ''invalid arguments'' w)
        else (case parse_port (Some (argv ! 2)) of
            None \<Rightarrow> (1, demo_finish lg ''ABORT'' ''invalid port'' w)
          | Some port \<Rightarrow>
            (let out_path = (if length argv = 7 then argv ! 6 else argv ! 3);
                 peer_text = snprintf_s 64 (host_port (argv ! 1) port) in
             case fopen_wb out_path w of (opened, w1) \<Rightarrow>
             if \<not> opened then (1, demo_finish lg ''ABORT'' ''output open failed'' w1)
             else (case socket_call w1 of (ok, w2) \<Rightarrow>
               if \<not> ok then (1, demo_finish lg ''ABORT'' ''socket failed'' w2)
               else (case server_address (argv ! 1) port of
                   None \<Rightarrow> (1, demo_finish lg ''ABORT'' ''bad host'' w2)
                 | Some server \<Rightarrow>
                   dns_client_session lg pid stack peer_text server out_path
                     (logger_write lg (Some ((demo_init_event ''INFO'' ''CLIENT_START'' ''INIT'' ''dns client started'')
                        \<lparr>le_peer := Some peer_text, le_port := uint port\<rparr>)) w2))))))"

end
