(* ===== verification/DnsFacts.thy ===== *)
theory DnsFacts
  imports Dns
begin

text \<open>
  The DNS demo: a name of labels is read back as it was encoded, a response answers the
  question it repeats, and a whole lookup between the two programs.
\<close>

section \<open>Names as lists of labels\<close>

definition label_ok :: "string \<Rightarrow> bool" where
  "label_ok l \<longleftrightarrow> l \<noteq> [] \<and> length l \<le> 63 \<and> CHR ''.'' \<notin> set l"

fun dotted :: "string list \<Rightarrow> string" where
  "dotted [] = []"
| "dotted [l] = l"
| "dotted (l # ls) = l @ CHR ''.'' # dotted ls"

definition wire_labels :: "string list \<Rightarrow> byte list" where
  "wire_labels ls = concat (map (\<lambda>l. word_of_nat (length l) # bytes_of_string l) ls)"

lemma wire_labels_simps [simp]:
  "wire_labels [] = []"
  "wire_labels (l # ls) = word_of_nat (length l) # bytes_of_string l @ wire_labels ls"
  by (simp_all add: wire_labels_def)

lemma label_takeWhile:
  "label_ok l \<Longrightarrow> takeWhile (\<lambda>c. c \<noteq> CHR ''.'') (l @ CHR ''.'' # r) = l"
  "label_ok l \<Longrightarrow> dropWhile (\<lambda>c. c \<noteq> CHR ''.'') (l @ CHR ''.'' # r) = CHR ''.'' # r"
  "label_ok l \<Longrightarrow> takeWhile (\<lambda>c. c \<noteq> CHR ''.'') l = l"
  "label_ok l \<Longrightarrow> dropWhile (\<lambda>c. c \<noteq> CHR ''.'') l = []"
proof -
  assume "label_ok l"
  then have a: "\<forall>c \<in> set l. c \<noteq> CHR ''.''" by (auto simp: label_ok_def)
  then show "takeWhile (\<lambda>c. c \<noteq> CHR ''.'') (l @ CHR ''.'' # r) = l" by (simp add: takeWhile_append2)
  from a show "dropWhile (\<lambda>c. c \<noteq> CHR ''.'') (l @ CHR ''.'' # r) = CHR ''.'' # r" by (simp add: dropWhile_append2)
  from a show "takeWhile (\<lambda>c. c \<noteq> CHR ''.'') l = l" by (simp add: takeWhile_eq_all_conv)
  from a show "dropWhile (\<lambda>c. c \<noteq> CHR ''.'') l = []" by (simp add: dropWhile_eq_Nil_conv)
qed

lemma encode_name_labels:
  "(\<forall>l \<in> set ls. label_ok l) \<Longrightarrow> length out + length (wire_labels ls) + 1 \<le> cap \<Longrightarrow>
   encode_name_loop (dotted ls) cap out = Some (out @ wire_labels ls @ [0])"
proof (induction ls arbitrary: out rule: dotted.induct)
  case 1
  then show ?case by (simp add: encode_name_loop.simps)
next
  case (2 l)
  then have l: "label_ok l" and s: "l \<noteq> []" "length l \<le> 63" by (auto simp: label_ok_def)
  with 2 show ?case
    by (subst encode_name_loop.simps) (simp add: label_takeWhile [OF l] Let_def encode_name_loop.simps [of "[]"])
next
  case (3 l l' ls)
  let ?out = "out @ [word_of_nat (length l)] @ bytes_of_string l"
  have l: "label_ok l" and s: "l \<noteq> []" "length l \<le> 63" using "3.prems" by (auto simp: label_ok_def)
  have "encode_name_loop (dotted (l' # ls)) cap ?out = Some (?out @ wire_labels (l' # ls) @ [0])"
    using "3.IH" [of ?out] "3.prems" by simp
  with s "3.prems" show ?case
    by (subst encode_name_loop.simps) (simp add: label_takeWhile [OF l] Let_def)
qed

lemma small_length_byte:
  assumes "length l \<le> 63"
  shows "(word_of_nat (length l) :: byte) AND 0xc0 = 0" "unat (word_of_nat (length l) :: byte) = length l"
    "(word_of_nat (length l) :: byte) AND 0xc0 \<noteq> 0xc0"
proof -
  show u: "unat (word_of_nat (length l) :: byte) = length l"
    using assms by (simp add: unat_of_nat take_bit_nat_eq_self)
  have "\<not> bit (word_of_nat (length l) :: byte) k" if "6 \<le> k" for k
    using byte_below [of "word_of_nat (length l)" 6 k] u assms that by simp
  moreover have "bit (0xc0 :: byte) k \<Longrightarrow> 6 \<le> k" for k
    by (rule ccontr) (auto simp: not_le less_Suc_eq numeral_eq_Suc)
  ultimately show z: "(word_of_nat (length l) :: byte) AND 0xc0 = 0"
    by (intro bit_word_eqI) (auto simp: bit_and_iff)
  show "(word_of_nat (length l) :: byte) AND 0xc0 \<noteq> 0xc0" by (simp add: z)
qed

text \<open>What the decoder has written after some more labels.\<close>

definition join_labels :: "byte list \<Rightarrow> string list \<Rightarrow> byte list" where
  "join_labels out ls =
     foldl (\<lambda>acc l. (if length acc > 0 then acc @ [of_char CHR ''.''] else acc) @ bytes_of_string l) out ls"

lemma join_labels_simps [simp]:
  "join_labels out [] = out"
  "join_labels out (l # ls) =
     join_labels ((if length out > 0 then out @ [of_char CHR ''.''] else out) @ bytes_of_string l) ls"
  by (simp_all add: join_labels_def)

lemma join_labels_more: "out \<noteq> [] \<Longrightarrow> join_labels out (l # ls) = out @ bytes_of_string (CHR ''.'' # dotted (l # ls))"
proof (induction ls arbitrary: out l)
  case (Cons l' ls)
  then show ?case
    using Cons.IH [of "out @ of_char CHR ''.'' # bytes_of_string l" l'] by (simp add: bytes_of_string_def)
qed (simp add: bytes_of_string_def)

lemma join_labels_dotted:
  assumes "\<forall>l \<in> set ls. label_ok l" shows "join_labels [] ls = bytes_of_string (dotted ls)"
proof (cases ls)
  case (Cons l ls')
  show ?thesis
  proof (cases ls')
    case (Cons l' ls'')
    have "bytes_of_string l \<noteq> []" using assms \<open>ls = l # ls'\<close> by (auto simp: label_ok_def bytes_of_string_def)
    from join_labels_more [OF this, of l' ls''] show ?thesis
      by (simp add: \<open>ls = l # ls'\<close> \<open>ls' = l' # ls''\<close> bytes_of_string_def)
  qed (simp add: \<open>ls = l # ls'\<close>)
qed simp

lemma decode_name_labels:
  "(\<forall>l \<in> set ls. label_ok l) \<Longrightarrow>
   length out + length (wire_labels ls) + 1 \<le> cap \<Longrightarrow> wire = pre @ wire_labels ls @ 0 # rest \<Longrightarrow>
   pos = length pre \<Longrightarrow>
   decode_name_loop strict wire cap pos out =
     Inr (join_labels out ls, pos + length (wire_labels ls) + 1)"
proof (induction ls arbitrary: out pre pos)
  case Nil
  then show ?case by (simp add: decode_name_loop.simps)
next
  case (Cons l ls)
  let ?b = "word_of_nat (length l) :: byte"
  have s: "l \<noteq> []" "length l \<le> 63" using Cons.prems(1) by (auto simp: label_ok_def)
  note small = small_length_byte [OF s(2)]
  have wire: "wire ! pos = ?b" "pos < length wire" "drop (pos + 1) wire = bytes_of_string l @ wire_labels ls @ 0 # rest"
    using Cons.prems(3,4) by (simp_all add: nth_append)
  have nz: "?b \<noteq> 0" using small(2) s(1) by (metis length_0_conv unsigned_0)
  have fits: "\<not> pos + 1 + length l > length wire" "\<not> length out + length l + 2 > cap"
    using Cons.prems(2,3,4) by simp_all
  let ?out = "(if length out > 0 then out @ [of_char CHR ''.''] else out) @ bytes_of_string l"
  have "decode_name_loop strict wire cap (pos + 1 + length l) ?out =
    Inr (join_labels ?out ls, pos + 1 + length l + length (wire_labels ls) + 1)"
    using Cons.prems by (intro Cons.IH [of _ "pre @ ?b # bytes_of_string l"]) auto
  then show ?case
    by (subst decode_name_loop.simps) (use wire small nz fits in \<open>simp add: Let_def\<close>)
qed

section \<open>A response repeats the question\<close>

lemma skip_name_labels:
  "(\<forall>l \<in> set ls. label_ok l) \<Longrightarrow> query = pre @ wire_labels ls @ 0 # rest \<Longrightarrow> pos = length pre \<Longrightarrow>
   skip_name query pos = pos + length (wire_labels ls)"
proof (induction ls arbitrary: pre pos)
  case (Cons l ls)
  let ?b = "word_of_nat (length l) :: byte"
  have s: "l \<noteq> []" "length l \<le> 63" using Cons.prems(1) by (auto simp: label_ok_def)
  have nz: "?b \<noteq> 0" using small_length_byte(2) [OF s(2)] s(1) by (metis length_0_conv unsigned_0)
  have "skip_name query (pos + (1 + length l)) = pos + (1 + length l) + length (wire_labels ls)"
    using Cons.prems by (intro Cons.IH [of "pre @ ?b # bytes_of_string l"]) auto
  then show ?case
    by (subst skip_name.simps) (use Cons.prems nz small_length_byte(2) [OF s(2)] in \<open>simp add: nth_append\<close>)
qed (simp add: skip_name.simps)

definition dns_reply :: "byte list \<Rightarrow> string list \<Rightarrow> u16 \<Rightarrow> nat \<Rightarrow> byte list option \<Rightarrow> byte list" where
  "dns_reply ident ls qtype rcode rdata =
     ident @ put_u16 (dns_flags rcode) @ put_u16 1 @ put_u16 (case rdata of None \<Rightarrow> 0 | Some _ \<Rightarrow> 1) @ put_u16 0 @
     put_u16 0 @ wire_labels ls @ 0 # put_u16 qtype @ put_u16 1 @
     (case rdata of None \<Rightarrow> [] | Some d \<Rightarrow> dns_answer d)"

lemma build_response_named:
  assumes "\<forall>l \<in> set ls. label_ok l" "query = hdr @ wire_labels ls @ 0 # rest" "length hdr = 12"
    and fits: "length (wire_labels ls) \<le> 255"
    and ip: "case ip of None \<Rightarrow> rdata = None | Some t \<Rightarrow> rcode = 0 \<and> inet_pton4 t = rdata \<and> rdata \<noteq> None"
  shows "build_response query qtype rcode ip = Some (dns_reply (take 2 query) ls qtype rcode rdata)"
proof -
  have "skip_name query 12 = 12 + length (wire_labels ls)"
    using skip_name_labels [OF assms(1,2)] assms(3) by simp
  moreover have "take (Suc (length (wire_labels ls))) (wire_labels ls @ 0 # rest) = wire_labels ls @ [0]" by simp
  ultimately show ?thesis
    using assms by (cases ip) (auto simp: build_response_def dns_sizes Let_def dns_reply_def)
qed

section \<open>A lookup\<close>

definition nxdomain :: "world \<Rightarrow> bool" where
  "nxdomain w \<longleftrightarrow> getenv w ''UDP_SECURE_SCENARIO'' = Some ''nxdomain-redir''"

lemma teaching_addresses:
  "inet_pton4 ''1.2.3.4'' = Some [1, 2, 3, 4]" "inet_pton4 ''6.6.6.6'' = Some [6, 6, 6, 6]"
  by (simp_all add: inet_pton4_def is_digit_def digit_val_def)

text \<open>What the server sends in answer to a question, and to whom.\<close>

lemma dns_respond_sends:
  assumes run: "dns_respond lg peer addr query qname qtype w = (status, w1)"
    and q: "\<forall>l \<in> set ls. label_ok l" "query = hdr @ wire_labels ls @ 0 # rest" "length hdr = 12"
      "length (wire_labels ls) \<le> 255"
  shows "\<exists>sent. w_sent w1 = w_sent w @ sent \<and> (status = 0 \<longleftrightarrow> (addr, dns_reply (take 2 query) ls qtype
        (if nxdomain w then 3 else 0) (if nxdomain w then None else Some [1, 2, 3, 4])) \<in> set sent) \<and>
      (\<forall>x \<in> set sent. \<exists>rdata. x = (addr, dns_reply (take 2 query) ls qtype (if nxdomain w then 3 else 0) rdata) \<and>
         (rdata = None \<longleftrightarrow> nxdomain w) \<and> (\<forall>d. rdata = Some d \<longrightarrow> length d = 4))"
proof -
  obtain rcode wa where sc: "dns_scenario lg peer addr query qname qtype w = (rcode, wa)" by fastforce
  note named = build_response_named [OF q]
  have forged: "build_response query qtype 0 (Some ''6.6.6.6'') = Some (dns_reply (take 2 query) ls qtype 0 (Some [6, 6, 6, 6]))"
    by (rule named) (simp add: teaching_addresses)
  have rcode: "rcode = (if nxdomain w then 3 else 0)"
    using sc by (auto simp: dns_scenario_def nxdomain_def forged Let_def split: if_splits option.splits)
  have reply: "build_response query qtype rcode (if rcode = 0 then Some ''1.2.3.4'' else None) =
      Some (dns_reply (take 2 query) ls qtype rcode (if nxdomain w then None else Some [1, 2, 3, 4]))"
    by (rule named) (auto simp: rcode teaching_addresses)
  have first: "\<exists>s1. w_sent wa = w_sent w @ s1 \<and>
      (\<forall>x \<in> set s1. x = (addr, dns_reply (take 2 query) ls qtype 0 (Some [6, 6, 6, 6])) \<and> \<not> nxdomain w)"
    using sc
    by (auto simp: dns_scenario_def nxdomain_def forged Let_def log_dns_def world_simps
        demo_sendto_world(1) [OF prod.collapse [symmetric]] split: if_splits)
  then obtain s1 where s1: "w_sent wa = w_sent w @ s1"
    "\<forall>x \<in> set s1. x = (addr, dns_reply (take 2 query) ls qtype 0 (Some [6, 6, 6, 6])) \<and> \<not> nxdomain w" by blast
  let ?r = "dns_reply (take 2 query) ls qtype rcode (if nxdomain w then None else Some [1, 2, 3, 4])"
  obtain ok wb where snd: "demo_sendto ?r addr wa = (ok, wb)" by fastforce
  have last: "w_sent w1 = w_sent wa @ (if ok then [(addr, ?r)] else [])" "status = (if ok then 0 else 1)"
    using run sc snd demo_sendto_world(1) [OF snd]
    by (auto simp: dns_respond_def reply log_dns_def world_simps split: if_splits)
  have other: "dns_reply (take 2 query) ls qtype 0 (Some [6, 6, 6, 6]) \<noteq>
      dns_reply (take 2 query) ls qtype 0 (Some [1, 2, 3, 4])"
    by (simp add: dns_reply_def dns_answer_def)
  show ?thesis
    by (rule exI [of _ "s1 @ (if ok then [(addr, ?r)] else [])"])
      (use last s1 rcode other in auto)
qed

lemma dns_respond_succeeds:
  assumes "w_sendfault w = []" shows "fst (dns_respond lg peer addr query qname qtype w) = 0"
proof -
  obtain rcode wa where sc: "dns_scenario lg peer addr query qname qtype w = (rcode, wa)" by fastforce
  then have "w_sendfault wa = []"
    using assms by (auto simp: dns_scenario_def Let_def log_dns_def world_simps demo_sendto_works split: if_splits option.splits)
  with sc show ?thesis by (simp add: dns_respond_def demo_sendto_works split: option.split)
qed

lemma example_name: "encode_name ''example.com'' 1008 = Some (wire_labels [''example'', ''com''] @ [0])"
  using encode_name_labels [of "[''example'', ''com'']" "[]" 1008]
  by (simp add: encode_name_def label_ok_def)

lemma example_labels [simp]: "\<forall>l \<in> set [''example'', ''com'']. label_ok l"
  by (simp add: label_ok_def)

lemma dns_server_question:
  assumes net: "w_net w = SelReady (RecvData client query) # rest"
    and q: "query = hdr @ wire_labels ls @ 0 # put_u16 qtype @ put_u16 qclass" "length hdr = 12"
      "get_u16 (drop 4 hdr) = 1" "\<forall>l \<in> set ls. label_ok l" "length (wire_labels ls) \<le> 255"
  shows "\<exists>lg' w0. dns_server_session lg w =
      dns_respond lg (peer_to_string client 64) client query (c_string (bytes_of_string (dotted ls))) qtype w0 \<and>
      w_sent w0 = w_sent w \<and> nxdomain w0 = nxdomain w \<and> w_sendfault w0 = w_sendfault w"
proof -
  have name: "decode_name query 12 256 = Inr (bytes_of_string (dotted ls), 12 + length (wire_labels ls) + 1)"
    using decode_name_labels [OF q(4), of "[]" 256 query hdr "put_u16 qtype @ put_u16 qclass" 12 True] q(1,2,5)
    by (simp add: decode_name_def join_labels_dotted [OF q(4)])
  have off: "drop (12 + length (wire_labels ls) + 1) query = put_u16 qtype @ put_u16 qclass"
    using q(1,2) by simp
  have four: "get_u16 (drop 4 query) = 1"
    using q(1-3) get_u16_prefix [of "drop 4 hdr"] by simp
  have len: "length query \<le> 1024" "12 \<le> length query" "query \<noteq> []"
    "12 + length (wire_labels ls) + 1 + 4 = length query" using q by auto
  show ?thesis
    by (rule exI, rule exI [of _ "log_dns lg ''INFO'' ''RECV_QUERY'' ''QUERY'' ''dns query received''
          (peer_to_string client 64) ''Client -> Server'' DNS_PKT_QUERY ''DNS_QUERY''
          (c_string (bytes_of_string (dotted ls))) qtype 0 (Some query) (w\<lparr>w_net := rest\<rparr>)"])
      (use name off four len in \<open>simp add: dns_server_session_def dns_sizes demo_recvfrom_arrived [OF net] Let_def
         log_dns_def world_simps nxdomain_def getenv_def\<close>)
qed

lemma dns_client_keeps: "w_sent (snd (dns_client_receive lg stack ptext out w)) = w_sent w"
proof -
  obtain r w1 where recv: "demo_recvfrom DNS_MAX_WIRE w = (r, w1)" by fastforce
  with demo_recvfrom_world(1) [OF recv] show ?thesis
    by (auto simp: dns_client_receive_def Let_def client_log_dns_def world_simps split: option.split)
qed

lemma dns_client_receives:
  assumes net: "w_net w = SelReady (RecvData source r) # rest"
    and "length r \<le> 1024" "12 \<le> length r"
  shows "\<exists>w1. dns_client_receive lg stack ptext out w = (0, w1) \<and> w_sent w1 = w_sent w \<and>
    (w_writefault w = [] \<longrightarrow> file_data w1 out = file_data w out @ bytes_of_string (dns_summary stack r))"
proof -
  obtain w2 where run: "dns_client_receive lg stack ptext out w = (0, demo_finish lg ''OK'' ''dns flow completed''
        (snd (fwrite_all out (bytes_of_string (dns_summary stack r)) w2)))"
    and same: "w_sent w2 = w_sent w" "w_writefault w2 = w_writefault w" "file_data w2 out = file_data w out"
    using assms(2,3)
    by (simp add: dns_client_receive_def demo_recvfrom_arrived [OF net] dns_sizes Let_def client_log_dns_def
        world_simps file_data_def)
  from fwrite_all_appends [of w2 out] have "file_data (snd (fwrite_all out d w2)) out = file_data w out @ d"
    if "w_writefault w = []" for d using that by (simp add: same)
  with run show ?thesis by (simp add: world_simps same)
qed

text \<open>What the client makes of a response of the server.\<close>

lemma dns_summary_reply:
  assumes "length ident = 2" "rcode = 0 \<or> rcode = 3"
  shows "dns_summary stack (dns_reply ident [''example'', ''com''] 1 rcode rdata) =
    ''qname=example.com rcode='' @ show_nat rcode @ '' ancount='' @ show_nat (case rdata of None \<Rightarrow> 0 | Some _ \<Rightarrow> 1) @ [CHR 0x0A]"
proof -
  let ?r = "dns_reply ident [''example'', ''com''] 1 rcode rdata"
  let ?hdr = "ident @ put_u16 (dns_flags rcode) @ put_u16 1 @ put_u16 (case rdata of None \<Rightarrow> 0 | Some _ \<Rightarrow> 1) @ put_u16 0 @ put_u16 0"
  let ?ls = "[''example'', ''com'']"
  have r: "?r = ?hdr @ wire_labels ?ls @ 0 # put_u16 1 @ put_u16 1 @ (case rdata of None \<Rightarrow> [] | Some d \<Rightarrow> dns_answer d)"
    by (simp only: dns_reply_def append_assoc)
  have "decode_name_loop False ?r 256 12 [] = Inr (join_labels [] ?ls, 12 + length (wire_labels ?ls) + 1)"
    by (rule decode_name_labels [OF example_labels _ r]) (simp_all add: assms)
  then have name: "dns_response_name stack ?r = ''example.com''"
    using join_labels_dotted [OF example_labels] c_string_text [of "''example.com''"]
    by (simp add: dns_response_name_def client_decode_name_def dns_sizes nul_free_def)
  have flags: "dns_response_rcode ?r = rcode"
    using assms by (auto simp: dns_response_rcode_def dns_reply_def dns_flags_def)
  have "get_u16 (drop 6 ?r) = (case rdata of None \<Rightarrow> 0 | Some _ \<Rightarrow> 1)"
    using assms by (simp add: dns_reply_def)
  then have count: "unat (get_u16 (drop 6 ?r)) = (case rdata of None \<Rightarrow> 0 | Some _ \<Rightarrow> 1)"
    by (simp split: option.split)
  have small: "length (show_nat rcode) = 1" "length (show_nat (case rdata of None \<Rightarrow> 0 | Some _ \<Rightarrow> 1)) = 1"
    using assms(2) by (auto simp: show_nat.simps split: option.splits)
  show ?thesis
    unfolding dns_summary_def name flags count by (simp add: small)
qed

text \<open>
  C27. A lookup over an arbitrary network that delivers to each program a datagram the other
  one sent: the client succeeds and writes the name asked for, the return code and the
  number of answers of the server's scenario. The forged response of the spoofing scenario
  leaves the same line, since the address is not part of it.
\<close>

theorem dns_lookup:
  assumes client: "dns_client_session lgc pid stack ptext server out wc = (rc, wc')"
    and server: "dns_server_session lgs ws = (rs, ws')"
    and asked: "w_net ws = SelReady (RecvData asker q) # later" "(server, q) \<in> set (drop (length (w_sent wc)) (w_sent wc'))"
    and answered: "w_net wc = SelReady (RecvData source r) # rest" "(asker, r) \<in> set (drop (length (w_sent ws)) (w_sent ws'))"
    and disk: "w_writefault wc = []"
  shows "rc = 0 \<and> file_data wc' out = file_data wc out @ bytes_of_string
     ((if nxdomain ws then ''qname=example.com rcode=3 ancount=0'' else ''qname=example.com rcode=0 ancount=1'') @ [CHR 0x0A])"
proof -
  let ?ls = "[''example'', ''com'']"
  let ?q = "dns_query pid (wire_labels ?ls @ [0])"
  let ?hdr = "put_u16 (dns_txid pid) @ put_u16 0x0100 @ put_u16 1 @ put_u16 0 @ put_u16 0 @ put_u16 0"
  have qeq: "?q = ?hdr @ wire_labels ?ls @ 0 # put_u16 1 @ put_u16 1" by (simp add: dns_query_def)
  let ?e = "dns_event ''INFO'' ''SEND_QUERY'' ''QUERY'' ''dns query sent'' ptext ''Client -> Server''
     DNS_PKT_QUERY ''DNS_QUERY'' ''example.com'' 0 0 (Some ?q)"
  obtain ok wa where sa: "demo_sendto ?q server (logger_write lgc (Some ?e) wc) = (ok, wa)" by fastforce
  note sw = demo_sendto_world [OF sa]
  have crun: "(rc, wc') = (if ok then dns_client_receive lgc stack ptext out wa
      else (1, demo_finish lgc ''ABORT'' ''send failed'' wa))"
    using client sa by (auto simp: dns_client_session_def dns_sizes example_name client_log_dns_def)
  have net: "w_net wa = SelReady (RecvData source r) # rest" using answered(1) by (simp add: sw world_simps)
  have ok: "ok" "q = ?q"
  proof -
    have "w_sent wc' = w_sent wa"
    proof (cases ok)
      case True
      with crun net show ?thesis
        using dns_client_keeps [of lgc stack ptext out wa] by (metis snd_conv)
    qed (use crun in \<open>simp add: world_simps\<close>)
    with asked(2) show "ok" "q = ?q" by (auto simp: sw(1) world_simps split: if_splits)
  qed
  from dns_server_question [OF asked(1) [unfolded ok(2)] qeq] obtain lg' w0 where w0:
    "dns_server_session lgs ws = dns_respond lgs (peer_to_string asker 64) asker ?q
       (c_string (bytes_of_string (dotted ?ls))) 1 w0" "w_sent w0 = w_sent ws" "nxdomain w0 = nxdomain ws"
    by (auto simp: label_ok_def)
  from dns_respond_sends [OF server [unfolded w0(1)] example_labels qeq] obtain sent where
    sent: "w_sent ws' = w_sent ws @ sent" and
    each: "\<forall>x \<in> set sent. \<exists>rdata. x = (asker, dns_reply (take 2 ?q) ?ls 1 (if nxdomain ws then 3 else 0) rdata) \<and>
       (rdata = None \<longleftrightarrow> nxdomain ws) \<and> (\<forall>d. rdata = Some d \<longrightarrow> length d = 4)"
    unfolding w0(2,3) by auto
  have "(asker, r) \<in> set sent" using answered(2) by (simp add: sent)
  from bspec [OF each this] obtain rdata where
    r: "r = dns_reply (take 2 ?q) ?ls 1 (if nxdomain ws then 3 else 0) rdata" "rdata = None \<longleftrightarrow> nxdomain ws"
    "\<forall>d. rdata = Some d \<longrightarrow> length d = 4"
    by blast
  have id2: "length (take 2 ?q) = 2" by (simp add: dns_query_def)
  have len: "length r \<le> 1024" "12 \<le> length r" using r(1,3) id2 by (auto simp: dns_reply_def dns_answer_def split: option.split)
  note sum = dns_summary_reply [OF id2, of "if nxdomain ws then 3 else 0" stack rdata, folded r(1)]
  from dns_client_receives [OF net len, of lgc stack ptext out] crun ok(1) disk
  have "rc = 0" "file_data wc' out = file_data wc out @ bytes_of_string (dns_summary stack r)"
    by (auto simp: sw world_simps file_data_def)
  moreover have "show_nat 0 = ''0''" "show_nat 1 = ''1''" "show_nat 3 = ''3''"
    by (simp_all add: show_nat.simps digit_char_def char_of_def bit_simps)
  ultimately show ?thesis using sum r(2) by (cases rdata) simp_all
qed

text \<open>Two programs next to each other: what one sends is what the other receives.\<close>

definition sample_query :: "byte list" where
  "sample_query = dns_query 7 (wire_labels [''example'', ''com''] @ [0])"

definition sample_reply :: "byte list" where
  "sample_reply = dns_reply (take 2 sample_query) [''example'', ''com''] 1 0 (Some [1, 2, 3, 4])"

lemma sample_client_sends:
  assumes "w_sent w = []" "w_sendfault w = []"
  shows "w_sent (snd (dns_client_session closed_logger 7 stack ptext server out w)) = [(server, sample_query)]"
  using assms
  by (simp add: dns_client_session_def dns_sizes example_name client_log_dns_def dns_client_keeps
      sample_query_def [symmetric] demo_sendto_works del: wire_labels_simps)

lemma sample_server_sends:
  assumes net: "w_net w = SelReady (RecvData client sample_query) # rest"
    and "w_sent w = []" "w_sendfault w = []" "\<not> nxdomain w"
  shows "(client, sample_reply) \<in> set (w_sent (snd (dns_server_session closed_logger w)))"
proof -
  let ?ls = "[''example'', ''com'']"
  let ?hdr = "put_u16 (dns_txid 7) @ put_u16 0x0100 @ put_u16 1 @ put_u16 0 @ put_u16 0 @ put_u16 0"
  have q: "sample_query = ?hdr @ wire_labels ?ls @ 0 # put_u16 1 @ put_u16 1"
    by (simp add: sample_query_def dns_query_def)
  from dns_server_question [OF net q, of closed_logger] assms obtain w0 where w0:
    "dns_server_session closed_logger w = dns_respond closed_logger (peer_to_string client 64) client sample_query
       (c_string (bytes_of_string (dotted ?ls))) 1 w0" "w_sent w0 = []" "\<not> nxdomain w0" "w_sendfault w0 = []"
    by (auto simp: label_ok_def)
  from dns_respond_sends [OF prod.collapse [symmetric] example_labels q, of closed_logger _ client _ 1 w0]
    dns_respond_succeeds [OF w0(4)] w0(2,3)
  show ?thesis unfolding w0(1) sample_reply_def by fastforce
qed

definition sample_address :: "u32 \<Rightarrow> sockaddr_in" where
  "sample_address n = \<lparr>sin_family = 2, sin_port = 5353, sin_addr = n\<rparr>"

definition sample_world :: "sockaddr_in \<Rightarrow> byte list \<Rightarrow> world" where
  "sample_world peer d = quiet_world\<lparr>w_net := [SelReady (RecvData peer d)]\<rparr>"

lemma sample_world_parts:
  "w_net (sample_world peer d) = [SelReady (RecvData peer d)]" "w_sent (sample_world peer d) = []"
  "w_sendfault (sample_world peer d) = []" "w_writefault (sample_world peer d) = []"
  "\<not> nxdomain (sample_world peer d)" "file_data (sample_world peer d) p = []"
  by (simp_all add: sample_world_def quiet_parts nxdomain_def getenv_def file_data_def)

lemma dns_lookup_witness:
  "\<exists>rc wc'. dns_client_session closed_logger 7 [] ''peer'' (sample_address 1) ''out''
      (sample_world (sample_address 1) sample_reply) = (rc, wc') \<and> rc = 0 \<and>
    file_data wc' ''out'' = bytes_of_string (''qname=example.com rcode=0 ancount=1'' @ [CHR 0x0A])"
proof -
  let ?wc = "sample_world (sample_address 1) sample_reply" and ?ws = "sample_world (sample_address 2) sample_query"
  obtain rc wc' where c: "dns_client_session closed_logger 7 [] ''peer'' (sample_address 1) ''out'' ?wc = (rc, wc')" by fastforce
  obtain rs ws' where s: "dns_server_session closed_logger ?ws = (rs, ws')" by fastforce
  have "rc = 0 \<and> file_data wc' ''out'' = file_data ?wc ''out'' @ bytes_of_string
     ((if nxdomain ?ws then ''qname=example.com rcode=3 ancount=0'' else ''qname=example.com rcode=0 ancount=1'') @ [CHR 0x0A])"
  proof (rule dns_lookup [OF c s])
    show "w_net ?ws = SelReady (RecvData (sample_address 2) sample_query) # []"
      "w_net ?wc = SelReady (RecvData (sample_address 1) sample_reply) # []" "w_writefault ?wc = []"
      by (simp_all add: sample_world_parts)
    show "(sample_address 1, sample_query) \<in> set (drop (length (w_sent ?wc)) (w_sent wc'))"
      using sample_client_sends [of ?wc "[]" "''peer''" "sample_address 1" "''out''"] c by (simp add: sample_world_parts)
    show "(sample_address 2, sample_reply) \<in> set (drop (length (w_sent ?ws)) (w_sent ws'))"
      using sample_server_sends [of ?ws "sample_address 2" "[]"] s by (simp add: sample_world_parts)
  qed
  with c show ?thesis by (simp add: sample_world_parts)
qed

end
