(* ===== verification/Mqtt.thy ===== *)
theory Mqtt
  imports Datagram
begin

text \<open>
  The MQTT demo (\<open>src/mqtt_demo_server.c\<close>, \<open>src/mqtt_demo_client.c\<close>): the variable-length
  length field, strings with their length in front, and the two programs, which send each
  packet with one write and read each packet with one \<open>recv\<close>. The results of the writes
  are not looked at. Pauses and closing descriptors leave nothing in the modelled state.
\<close>

section \<open>Constants\<close>

definition MQTT_MAX_PACKET :: nat where "MQTT_MAX_PACKET = 2048"
definition MQTT_MAX_TOPIC :: nat where "MQTT_MAX_TOPIC = 256"

lemmas mqtt_sizes = MQTT_MAX_PACKET_def MQTT_MAX_TOPIC_def

text \<open>The codes of the log.\<close>

abbreviation MQTT_PKT_CONNECT :: int where "MQTT_PKT_CONNECT \<equiv> 140"
abbreviation MQTT_PKT_CONNACK :: int where "MQTT_PKT_CONNACK \<equiv> 141"
abbreviation MQTT_PKT_SUBSCRIBE :: int where "MQTT_PKT_SUBSCRIBE \<equiv> 142"
abbreviation MQTT_PKT_SUBACK :: int where "MQTT_PKT_SUBACK \<equiv> 143"
abbreviation MQTT_PKT_PUBLISH :: int where "MQTT_PKT_PUBLISH \<equiv> 144"
abbreviation MQTT_PKT_PUBACK :: int where "MQTT_PKT_PUBACK \<equiv> 145"
abbreviation MQTT_PKT_PUBREC :: int where "MQTT_PKT_PUBREC \<equiv> 146"
abbreviation MQTT_PKT_DISCONNECT :: int where "MQTT_PKT_DISCONNECT \<equiv> 149"

text \<open>The first bytes of the packets: the type in the high half, no flags.\<close>

datatype MqttType = MQTT_CONNECT | MQTT_CONNACK | MQTT_PUBLISH | MQTT_PUBACK | MQTT_PUBREC | MQTT_PUBREL
  | MQTT_PUBCOMP | MQTT_SUBSCRIBE | MQTT_SUBACK | MQTT_PINGREQ | MQTT_DISCONNECT

primrec mqtt_type :: "MqttType \<Rightarrow> byte" where
  "mqtt_type MQTT_CONNECT = 0x10"
| "mqtt_type MQTT_CONNACK = 0x20"
| "mqtt_type MQTT_PUBLISH = 0x30"
| "mqtt_type MQTT_PUBACK = 0x40"
| "mqtt_type MQTT_PUBREC = 0x50"
| "mqtt_type MQTT_PUBREL = 0x60"
| "mqtt_type MQTT_PUBCOMP = 0x70"
| "mqtt_type MQTT_SUBSCRIBE = 0x80"
| "mqtt_type MQTT_SUBACK = 0x90"
| "mqtt_type MQTT_PINGREQ = 0xC0"
| "mqtt_type MQTT_DISCONNECT = 0xE0"

section \<open>The length field\<close>

function encode_remaining_loop :: "u32 \<Rightarrow> nat \<Rightarrow> byte list \<Rightarrow> byte list option" where
  "encode_remaining_loop len cap out =
     (if length out \<ge> cap then None
      else let digit = ucast (len AND 0x7f); rest = drop_bit 7 len in
        if rest > 0 then encode_remaining_loop rest cap (out @ [digit OR 0x80])
        else Some (out @ [digit]))"
  by pat_completeness auto
termination
  by (relation "measure (\<lambda>(len, cap, out). cap - length out)") auto

declare encode_remaining_loop.simps [simp del]

definition encode_remaining_length :: "u32 \<Rightarrow> nat \<Rightarrow> byte list option" where
  "encode_remaining_length len cap = encode_remaining_loop len cap []"

function decode_remaining_loop :: "byte list \<Rightarrow> nat \<Rightarrow> u32 \<Rightarrow> u32 \<Rightarrow> (u32 \<times> nat) option" where
  "decode_remaining_loop buf i multiplier v =
     (if i < 4 \<and> i < length buf then
        (let v1 = v + ucast (buf ! i AND 0x7f) * multiplier in
         if buf ! i AND 0x80 = 0 then Some (v1, i + 1)
         else decode_remaining_loop buf (i + 1) (multiplier * 128) v1)
      else None)"
  by pat_completeness auto
termination
  by (relation "measure (\<lambda>(buf, i, multiplier, v). 4 - i)") auto

declare decode_remaining_loop.simps [simp del]

definition decode_remaining_length :: "byte list \<Rightarrow> (u32 \<times> nat) option" where
  "decode_remaining_length buf = decode_remaining_loop buf 0 1 0"

section \<open>Strings\<close>

definition encode_string :: "string \<Rightarrow> nat \<Rightarrow> byte list option" where
  "encode_string str cap =
     (if length str > 65535 \<or> 2 + length str > cap then None
      else Some (put_u16 (word_of_nat (length str)) @ bytes_of_string str))"

definition decode_string :: "byte list \<Rightarrow> nat \<Rightarrow> nat \<Rightarrow> (byte list \<times> nat) option" where
  "decode_string buf offset out_size =
     (if offset + 2 > length buf then None
      else let len = unat (get_u16 (drop offset buf)) in
        if offset + 2 + len > length buf then None
        else if len + 1 > out_size then None
        else Some (take len (drop (offset + 2) buf), offset + 2 + len))"

text \<open>
  A buffer on the stack of which the first bytes were received: \<open>junk i\<close> is what byte \<open>i\<close> held
  before, which the programs read when a packet is shorter than its type suggests.
\<close>

definition buf_at :: "byte list \<Rightarrow> (nat \<Rightarrow> byte) \<Rightarrow> nat \<Rightarrow> byte" where
  "buf_at d junk i = (if i < length d then d ! i else junk i)"

section \<open>Sending and the log\<close>

definition mqtt_event ::
  "string \<Rightarrow> string \<Rightarrow> string \<Rightarrow> string \<Rightarrow> string \<Rightarrow> string \<Rightarrow> int \<Rightarrow> string \<Rightarrow> string option \<Rightarrow> int \<Rightarrow> byte list \<Rightarrow> LogEvent" where
  "mqtt_event level event state message peer direction packet_code packet_type topic message_id wire =
     (demo_init_event level event state message)
       \<lparr>le_peer := Some peer, le_direction := Some direction, le_packet_type := Some packet_type,
        le_packet_code := packet_code, le_path := topic, le_packet_id := message_id,
        le_payload_length := int_of_size (length wire), le_bytes := int_of_size (length wire),
        le_packet_uid := compute_packet_uid 24 (word_of_int packet_code) message_id 0 (Some wire) (length wire),
        le_wire_hex := bytes_to_hex (Some (take 160 wire)) 321\<rparr>"

text \<open>The server also has the topic as the summary of the header.\<close>

definition log_mqtt ::
  "Logger \<Rightarrow> string \<Rightarrow> string \<Rightarrow> string \<Rightarrow> string \<Rightarrow> string \<Rightarrow> string \<Rightarrow> int \<Rightarrow> string \<Rightarrow> string option \<Rightarrow> int \<Rightarrow> byte list
   \<Rightarrow> world \<Rightarrow> world" where
  "log_mqtt lg level event state message peer direction packet_code packet_type topic message_id wire w =
     logger_write lg (Some ((mqtt_event level event state message peer direction packet_code packet_type topic
       message_id wire)\<lparr>le_header_summary := topic\<rparr>)) w"

definition client_log_mqtt ::
  "Logger \<Rightarrow> string \<Rightarrow> string \<Rightarrow> string \<Rightarrow> string \<Rightarrow> string \<Rightarrow> string \<Rightarrow> int \<Rightarrow> string \<Rightarrow> string option \<Rightarrow> int \<Rightarrow> byte list
   \<Rightarrow> world \<Rightarrow> world" where
  "client_log_mqtt lg level event state message peer direction packet_code packet_type topic message_id wire w =
     logger_write lg (Some (mqtt_event level event state message peer direction packet_code packet_type topic
       message_id wire)) w"

text \<open>A packet; \<open>None\<close> when its length does not fit the field of four bytes.\<close>

definition mqtt_packet :: "byte \<Rightarrow> byte list \<Rightarrow> byte list option" where
  "mqtt_packet type payload =
     (case encode_remaining_length (word_of_nat (length payload)) 4 of
        None \<Rightarrow> None
      | Some rem_buf \<Rightarrow> Some ([type] @ rem_buf @ payload))"

definition send_mqtt_packet ::
  "Logger \<Rightarrow> string \<Rightarrow> byte \<Rightarrow> byte list \<Rightarrow> int \<Rightarrow> string \<Rightarrow> string option \<Rightarrow> int \<Rightarrow> string \<Rightarrow> string \<Rightarrow> world \<Rightarrow> bool \<times> world" where
  "send_mqtt_packet lg peer type payload packet_code packet_type topic message_id event state w =
     (case mqtt_packet type payload of
        None \<Rightarrow> (False, w)
      | Some wire \<Rightarrow> (case demo_write_all wire w of (ok, w1) \<Rightarrow>
          if \<not> ok then (False, w1)
          else (True, log_mqtt lg ''INFO'' event state ''mqtt packet sent'' peer ''Server -> Client''
                  packet_code packet_type topic message_id wire w1)))"

definition send_mqtt ::
  "Logger \<Rightarrow> string \<Rightarrow> byte \<Rightarrow> byte list \<Rightarrow> int \<Rightarrow> string \<Rightarrow> string option \<Rightarrow> int \<Rightarrow> string \<Rightarrow> string \<Rightarrow> world \<Rightarrow> bool \<times> world" where
  "send_mqtt lg peer type payload packet_code packet_type topic message_id event state w =
     (case mqtt_packet type payload of
        None \<Rightarrow> (False, w)
      | Some wire \<Rightarrow> (case demo_write_all wire w of (ok, w1) \<Rightarrow>
          if \<not> ok then (False, w1)
          else (True, client_log_mqtt lg ''INFO'' event state ''mqtt packet sent'' peer ''Client -> Server''
                  packet_code packet_type topic message_id wire w1)))"

section \<open>The broker\<close>

definition RESTRICTED_TOPIC :: string where "RESTRICTED_TOPIC = ''admin/secret''"

text \<open>Every connection is called by this name in the log.\<close>

abbreviation mqtt_peer :: string where "mqtt_peer \<equiv> ''client''"

definition id_bytes :: "u16 \<Rightarrow> byte list" where
  "id_bytes message_id = [ucast (drop_bit 8 message_id), ucast (message_id AND 0xff)]"

text \<open>A \<open>DISCONNECT\<close> is awaited but not required.\<close>

definition mqtt_server_disconnect :: "Logger \<Rightarrow> world \<Rightarrow> int \<times> world" where
  "mqtt_server_disconnect lg w =
     (case tcp_recv 8 w of (d, w1) \<Rightarrow>
      (0, demo_finish lg ''OK'' ''mqtt flow completed''
            (if length d \<ge> 2 \<and> d ! 0 = mqtt_type MQTT_DISCONNECT
             then log_mqtt lg ''INFO'' ''RECV_DISCONNECT'' ''DISCONNECT'' ''client DISCONNECT'' mqtt_peer
                    ''Client -> Server'' MQTT_PKT_DISCONNECT ''DISCONNECT'' None 0 d w1
             else w1)))"

text \<open>What follows a received \<open>PUBLISH\<close>.\<close>

definition mqtt_server_acknowledge :: "Logger \<Rightarrow> string \<Rightarrow> u16 \<Rightarrow> byte \<Rightarrow> world \<Rightarrow> int \<times> world" where
  "mqtt_server_acknowledge lg topic message_id qos w =
     (let scenario = getenv w ''UDP_SECURE_SCENARIO'' in
      if scenario = Some ''qos2-replay'' \<and> qos = 2 then
        (case send_mqtt_packet lg mqtt_peer (mqtt_type MQTT_PUBREC) (id_bytes message_id) MQTT_PKT_PUBREC ''PUBREC''
                (Some topic) (uint message_id) ''SEND_PUBREC'' ''PUBLISH'' w of (ok, w1) \<Rightarrow>
         case send_mqtt_packet lg mqtt_peer (mqtt_type MQTT_PUBREC) (id_bytes message_id) MQTT_PKT_PUBREC ''PUBREC''
                (Some topic) (uint message_id) ''SEND_PUBREC_DUPLICATE'' ''PUBLISH'' w1 of (ok2, w2) \<Rightarrow>
         (1, demo_finish lg ''ABORT'' ''qos2-replay scenario (server)''
               (logger_write lg (Some ((demo_init_event ''WARN'' ''QOS2_DUP_DETECTED'' ''PUBLISH''
                    ''duplicate PUBREC observed; QoS 2 4-way handshake detects replay'')
                  \<lparr>le_peer := Some mqtt_peer, le_security_replay := 1\<rparr>)) w2)))
      else
        (let w1 = (if qos \<ge> 1
                   then snd (send_mqtt_packet lg mqtt_peer (mqtt_type MQTT_PUBACK) (id_bytes message_id)
                          MQTT_PKT_PUBACK ''PUBACK'' (Some topic) (uint message_id) ''SEND_PUBACK'' ''PUBLISH'' w)
                   else w);
             w2 = (if scenario = Some ''cleartext-eavesdrop''
                   then logger_write lg (Some ((demo_init_event ''WARN'' ''EAVESDROP_DETECTED'' ''PUBLISH''
                          ''PUBLISH payload transmitted in cleartext; consider MQTTS'')
                        \<lparr>le_peer := Some mqtt_peer, le_security_encrypted := 0, le_path := Some topic\<rparr>)) w1
                   else w1)
         in mqtt_server_disconnect lg w2))"

definition mqtt_server_publish :: "Logger \<Rightarrow> world \<Rightarrow> int \<times> world" where
  "mqtt_server_publish lg w =
     (case tcp_recv MQTT_MAX_PACKET w of (d, w1) \<Rightarrow>
      if d = [] \<or> d ! 0 AND 0xf0 \<noteq> mqtt_type MQTT_PUBLISH then (1, demo_finish lg ''ABORT'' ''PUBLISH missing'' w1)
      else let qos = drop_bit 1 (d ! 0) AND 0x03 in
        (case decode_remaining_length (drop 1 d) of
           None \<Rightarrow> (1, demo_finish lg ''ABORT'' ''bad remaining length'' w1)
         | Some (remaining, consumed) \<Rightarrow>
           (case decode_string d (1 + consumed) MQTT_MAX_TOPIC of
              None \<Rightarrow> (1, demo_finish lg ''ABORT'' ''topic decode failed'' w1)
            | Some (name, off) \<Rightarrow>
              (let topic = c_string name;
                   message_id = (if qos > 0 \<and> off + 2 \<le> length d then get_u16 (drop off d) else 0)
               in mqtt_server_acknowledge lg topic message_id qos
                    (log_mqtt lg (if qos \<ge> 2 then ''DATA'' else ''INFO'') ''RECV_PUBLISH'' ''PUBLISH''
                       ''client PUBLISH received'' mqtt_peer ''Client -> Server'' MQTT_PKT_PUBLISH ''PUBLISH''
                       (Some topic) (uint message_id) d w1)))))"

definition mqtt_server_subscribe :: "(nat \<Rightarrow> byte) \<Rightarrow> Logger \<Rightarrow> world \<Rightarrow> int \<times> world" where
  "mqtt_server_subscribe junk lg w =
     (case tcp_recv MQTT_MAX_PACKET w of (d, w1) \<Rightarrow>
      if d = [] \<or> d ! 0 \<noteq> mqtt_type MQTT_SUBSCRIBE then (1, demo_finish lg ''ABORT'' ''SUBSCRIBE missing'' w1)
      else (case decode_remaining_length (drop 1 d) of
           None \<Rightarrow> (1, demo_finish lg ''ABORT'' ''bad remaining length'' w1)
         | Some (remaining, consumed) \<Rightarrow>
           (let message_id = get_u16 [buf_at d junk (1 + consumed), buf_at d junk (2 + consumed)] in
            case decode_string d (1 + consumed + 2) MQTT_MAX_TOPIC of
              None \<Rightarrow> (1, demo_finish lg ''ABORT'' ''topic decode failed'' w1)
            | Some (name, off) \<Rightarrow>
              (let topic = c_string name; qos = buf_at d junk off;
                   w2 = log_mqtt lg ''INFO'' ''RECV_SUBSCRIBE'' ''SUBSCRIBE'' ''client SUBSCRIBE received''
                     mqtt_peer ''Client -> Server'' MQTT_PKT_SUBSCRIBE ''SUBSCRIBE'' (Some topic)
                     (uint message_id) d w1;
                   denied = (getenv w ''UDP_SECURE_SCENARIO'' = Some ''unauth-subscribe'' \<and> topic = RESTRICTED_TOPIC);
                   w3 = (if denied
                         then logger_write lg (Some ((demo_init_event ''WARN'' ''SUBSCRIBE_DENIED'' ''ACL''
                                ''subscribe to restricted topic denied'')
                              \<lparr>le_peer := Some mqtt_peer, le_path := Some topic\<rparr>)) w2
                         else w2);
                   w4 = snd (send_mqtt_packet lg mqtt_peer (mqtt_type MQTT_SUBACK)
                          (id_bytes message_id @ [if denied then 0x80 else qos]) MQTT_PKT_SUBACK ''SUBACK''
                          (Some topic) (uint message_id) (if denied then ''SEND_SUBACK_DENIED'' else ''SEND_SUBACK'')
                          (if denied then ''ACL_DENY'' else ''SUBSCRIBE'') w3)
               in if denied
                  then (1, demo_finish lg ''ABORT'' ''subscribe denied (unauth-subscribe scenario)'' w4)
                  else mqtt_server_publish lg w4))))"

definition mqtt_server_session :: "(nat \<Rightarrow> byte) \<Rightarrow> Logger \<Rightarrow> world \<Rightarrow> int \<times> world" where
  "mqtt_server_session junk lg w =
     (case tcp_recv MQTT_MAX_PACKET w of (d, w1) \<Rightarrow>
      if d = [] \<or> d ! 0 \<noteq> mqtt_type MQTT_CONNECT then (1, demo_finish lg ''ABORT'' ''CONNECT missing'' w1)
      else let w2 = log_mqtt lg ''INFO'' ''RECV_CONNECT'' ''CONNECT'' ''client CONNECT received'' mqtt_peer
                 ''Client -> Server'' MQTT_PKT_CONNECT ''CONNECT'' None 0 d w1;
               w3 = snd (send_mqtt_packet lg mqtt_peer (mqtt_type MQTT_CONNACK) [0x00, 0x00] MQTT_PKT_CONNACK
                      ''CONNACK'' None 0 ''SEND_CONNACK'' ''CONNECT'' w2)
           in mqtt_server_subscribe junk lg w3)"

definition mqtt_server_main :: "(nat \<Rightarrow> byte) \<Rightarrow> sockaddr_in \<Rightarrow> string list \<Rightarrow> world \<Rightarrow> int \<times> world" where
  "mqtt_server_main junk peer argv w =
     (case logger_open (Some ''server'') (Some ''logs/server.jsonl'') w of
        (rc, None) \<Rightarrow> (1, w)
      | (rc, Some lg) \<Rightarrow>
        if rc \<noteq> 0 then (1, w)
        else (case (if length argv \<noteq> 4 then None else parse_port (Some (argv ! 1))) of
            None \<Rightarrow> (1, demo_finish lg ''ABORT'' ''invalid arguments'' w)
          | Some port \<Rightarrow>
            (case demo_create_tcp_listener port w of (listening, w1) \<Rightarrow>
             if \<not> listening then (1, demo_finish lg ''ABORT'' (w_errno w1) w1)
             else
              (let w2 = logger_write lg (Some ((demo_init_event ''INFO'' ''SERVER_START'' ''INIT'' ''mqtt broker started'')
                     \<lparr>le_port := uint port\<rparr>)) w1 in
               case demo_accept_client peer w2 of
                 (None, w3) \<Rightarrow> (1, demo_finish lg ''ABORT'' ''accept failed'' w3)
               | (Some addr, w3) \<Rightarrow> mqtt_server_session junk lg w3))))"

section \<open>The client\<close>

text \<open>What \<open>encode_string\<close> leaves in the payload and adds to its length, which is -1 when it fails.\<close>

definition appended_string :: "string \<Rightarrow> nat \<Rightarrow> byte list" where
  "appended_string str cap = (case encode_string str cap of None \<Rightarrow> [] | Some d \<Rightarrow> d)"

definition mqtt_connect_payload :: "byte list" where
  "mqtt_connect_payload = (let d = bytes_of_string ''MQTT'' @ [4, 0x02] @ put_u16 60
     in d @ appended_string ''demo-client'' (256 - length d))"

definition mqtt_subscribe_payload :: "string \<Rightarrow> byte list" where
  "mqtt_subscribe_payload topic = put_u16 1 @ appended_string topic (256 - 2) @ [0]"

definition mqtt_publish_payload :: "byte \<Rightarrow> byte list" where
  "mqtt_publish_payload qos = appended_string ''sensors/temp'' MQTT_MAX_PACKET @ (if qos > 0 then put_u16 1 else []) @
     bytes_of_string ''{\"temp\":23.4}''"

definition mqtt_client_disconnect :: "Logger \<Rightarrow> string \<Rightarrow> string \<Rightarrow> world \<Rightarrow> int \<times> world" where
  "mqtt_client_disconnect lg peer out_path w =
     (case send_mqtt lg peer (mqtt_type MQTT_DISCONNECT) [] MQTT_PKT_DISCONNECT ''DISCONNECT'' None 0
             ''SEND_DISCONNECT'' ''DISCONNECT'' w of (ok, w1) \<Rightarrow>
      (0, demo_finish lg ''OK'' ''mqtt flow completed''
        (snd (fwrite_all out_path (bytes_of_string
           (''topic=sensors/temp qos=0 payload={\"temp\":23.4}'' @ [CHR 0x0A])) w1))))"

text \<open>What is received after a \<open>PUBLISH\<close>, which depends on its quality of service.\<close>

definition mqtt_client_acknowledged :: "Logger \<Rightarrow> string \<Rightarrow> string \<Rightarrow> byte \<Rightarrow> world \<Rightarrow> int \<times> world" where
  "mqtt_client_acknowledged lg peer out_path qos w =
     (if qos = 1 then
        (case tcp_recv 8 w of (d, w1) \<Rightarrow>
         if d = [] \<or> d ! 0 \<noteq> mqtt_type MQTT_PUBACK then (1, demo_finish lg ''ABORT'' ''PUBACK missing'' w1)
         else mqtt_client_disconnect lg peer out_path
                (client_log_mqtt lg ''INFO'' ''RECV_PUBACK'' ''PUBLISH'' ''PUBACK received'' peer ''Server -> Client''
                   MQTT_PKT_PUBACK ''PUBACK'' (Some ''sensors/temp'') 1 d w1))
      else if qos = 2 then
        (case tcp_recv 8 w of (d, w1) \<Rightarrow>
         if d = [] \<or> d ! 0 \<noteq> mqtt_type MQTT_PUBREC then (1, demo_finish lg ''ABORT'' ''PUBREC missing'' w1)
         else let w2 = client_log_mqtt lg ''INFO'' ''RECV_PUBREC'' ''PUBLISH'' ''PUBREC received'' peer
                    ''Server -> Client'' MQTT_PKT_PUBREC ''PUBREC'' (Some ''sensors/temp'') 1 d w1 in
           if getenv w2 ''UDP_SECURE_SCENARIO'' = Some ''qos2-replay'' then
             (case tcp_recv 8 w2 of (d2, w3) \<Rightarrow>
              if d2 \<noteq> [] \<and> d2 ! 0 = mqtt_type MQTT_PUBREC
              then (1, demo_finish lg ''ABORT'' ''qos2-replay detected''
                     (logger_write lg (Some ((demo_init_event ''WARN'' ''QOS2_DUP_DETECTED'' ''PUBLISH''
                          ''QoS 2 detected duplicate PUBREC; reject and abort'')
                        \<lparr>le_peer := Some peer, le_security_replay := 1\<rparr>)) w3))
              else mqtt_client_disconnect lg peer out_path w3)
           else mqtt_client_disconnect lg peer out_path w2)
      else mqtt_client_disconnect lg peer out_path w)"

definition mqtt_client_publish :: "Logger \<Rightarrow> string \<Rightarrow> string \<Rightarrow> world \<Rightarrow> int \<times> world" where
  "mqtt_client_publish lg peer out_path w =
     (let qos = (if getenv w ''UDP_SECURE_SCENARIO'' = Some ''qos2-replay'' then 2 else 0) in
      case send_mqtt lg peer (mqtt_type MQTT_PUBLISH OR push_bit 1 qos) (mqtt_publish_payload qos) MQTT_PKT_PUBLISH
             ''PUBLISH'' (Some ''sensors/temp'') 1 ''SEND_PUBLISH'' ''PUBLISH'' w of (ok, w1) \<Rightarrow>
      mqtt_client_acknowledged lg peer out_path qos w1)"

definition mqtt_client_subscribe :: "(nat \<Rightarrow> byte) \<Rightarrow> Logger \<Rightarrow> string \<Rightarrow> string \<Rightarrow> world \<Rightarrow> int \<times> world" where
  "mqtt_client_subscribe junk lg peer out_path w =
     (let restricted = (getenv w ''UDP_SECURE_SCENARIO'' = Some ''unauth-subscribe'');
          topic = (if restricted then ''admin/secret'' else ''sensors/temp'') in
      case send_mqtt lg peer (mqtt_type MQTT_SUBSCRIBE) (mqtt_subscribe_payload topic) MQTT_PKT_SUBSCRIBE
             ''SUBSCRIBE'' (Some topic) 1 ''SEND_SUBSCRIBE'' ''SUBSCRIBE'' w of (ok, w1) \<Rightarrow>
      case tcp_recv MQTT_MAX_PACKET w1 of (d, w2) \<Rightarrow>
      if d = [] \<or> d ! 0 \<noteq> mqtt_type MQTT_SUBACK then (1, demo_finish lg ''ABORT'' ''SUBACK missing'' w2)
      else if buf_at d junk 4 = 0x80 then
        (let w3 = logger_write lg (Some ((demo_init_event ''WARN'' ''SUBSCRIBE_FAILED'' ''SUBSCRIBE''
                ''server returned 0x80 (failure)'')\<lparr>le_peer := Some peer\<rparr>)) w2;
             w4 = (if restricted
                   then logger_write lg (Some ((demo_init_event ''WARN'' ''ACL_DENY_OBSERVED'' ''ACL''
                          ''client observed subscribe denial'')\<lparr>le_peer := Some peer\<rparr>)) w3
                   else w3)
         in (1, demo_finish lg ''ABORT'' ''subscribe failed (unauth-subscribe)'' w4))
      else mqtt_client_publish lg peer out_path
             (client_log_mqtt lg ''INFO'' ''RECV_SUBACK'' ''SUBSCRIBE'' ''SUBACK received'' peer ''Server -> Client''
                MQTT_PKT_SUBACK ''SUBACK'' (Some topic) 1 d w2))"

definition mqtt_client_session :: "(nat \<Rightarrow> byte) \<Rightarrow> Logger \<Rightarrow> string \<Rightarrow> string \<Rightarrow> world \<Rightarrow> int \<times> world" where
  "mqtt_client_session junk lg peer out_path w =
     (case send_mqtt lg peer (mqtt_type MQTT_CONNECT) mqtt_connect_payload MQTT_PKT_CONNECT ''CONNECT'' None 0
             ''SEND_CONNECT'' ''CONNECT'' w of (ok, w1) \<Rightarrow>
      case tcp_recv MQTT_MAX_PACKET w1 of (d, w2) \<Rightarrow>
      if d = [] \<or> d ! 0 \<noteq> mqtt_type MQTT_CONNACK then (1, demo_finish lg ''ABORT'' ''CONNACK missing'' w2)
      else mqtt_client_subscribe junk lg peer out_path
             (client_log_mqtt lg ''INFO'' ''RECV_CONNACK'' ''CONNECT'' ''CONNACK received'' peer ''Server -> Client''
                MQTT_PKT_CONNACK ''CONNACK'' None 0 d w2))"

definition mqtt_client_main :: "(nat \<Rightarrow> byte) \<Rightarrow> string list \<Rightarrow> world \<Rightarrow> int \<times> world" where
  "mqtt_client_main junk argv w =
     (case logger_open (Some ''client'') (Some ''logs/client.jsonl'') w of
        (rc, None) \<Rightarrow> (1, w)
      | (rc, Some lg) \<Rightarrow>
        if rc \<noteq> 0 then (1, w)
        else if length argv \<noteq> 4 \<and> length argv \<noteq> 7 then (1, demo_finish lg ''ABORT'' ''invalid arguments'' w)
        else (case parse_port (Some (argv ! 2)) of
            None \<Rightarrow> (1, demo_finish lg ''ABORT'' ''invalid port'' w)
          | Some port \<Rightarrow>
            (let out_path = (if length argv = 7 then argv ! 6 else argv ! 3);
                 peer = snprintf_s 64 (host_port (argv ! 1) port) in
             case fopen_wb out_path w of (opened, w1) \<Rightarrow>
             if \<not> opened then (1, demo_finish lg ''ABORT'' ''output open failed'' w1)
             else (case demo_connect_tcp (argv ! 1) port w1 of
                 (None, w2) \<Rightarrow> (1, demo_finish lg ''ABORT'' ''connect failed'' w2)
               | (Some addr, w2) \<Rightarrow>
                 mqtt_client_session junk lg peer out_path
                   (logger_write lg (Some ((demo_init_event ''INFO'' ''CLIENT_START'' ''INIT'' ''mqtt client started'')
                      \<lparr>le_peer := Some peer, le_port := uint port\<rparr>)) w2)))))"

end
