(* ===== verification/MqttFacts.thy ===== *)
theory MqttFacts
  imports Mqtt Exchange
begin

text \<open>
  The MQTT demo: the length field is self-delimiting and holds every length below
  \<open>2 ^ 28\<close>, strings are read back, and a whole run of the two programs in each scenario.
\<close>

section \<open>The length field\<close>

lemma digits_128: "(len :: u32) = (len AND 0x7f) + drop_bit 7 len * 128"
proof -
  have m: "(0x7f :: u32) = mask 7" by (simp add: mask_eq_exp_minus_1)
  have "push_bit 7 (drop_bit 7 len) + take_bit 7 len = len" by (rule bits_ident)
  then show ?thesis unfolding m take_bit_eq_mask [symmetric] push_bit_eq_mult by (simp add: add.commute mult.commute)
qed

lemma low_digit:
  fixes len :: u32
  defines "digit \<equiv> ucast (len AND 0x7f) :: byte"
  shows "unat digit < 128" "ucast digit = len AND 0x7f"
proof -
  have m: "(0x7f :: u32) = mask 7" by (simp add: mask_eq_exp_minus_1)
  have s: "unat (len AND 0x7f) < 128"
    unfolding m take_bit_eq_mask [symmetric] by (simp add: take_bit_eq_mod unat_mod_distrib)
  show "ucast digit = len AND 0x7f" unfolding digit_def m
    by (rule bit_word_eqI) (auto simp: bit_simps)
  show "unat digit < 128" unfolding digit_def using s by (simp add: unsigned_ucast_eq take_bit_nat_eq_self)
qed

lemma decode_after_encode:
  assumes "encode_remaining_loop len cap out = Some r"
  shows "\<exists>bs. r = out @ bs \<and> (\<forall>pre rest mult v. length pre + length bs \<le> 4 \<longrightarrow>
     decode_remaining_loop (pre @ bs @ rest) (length pre) mult v = Some (v + len * mult, length pre + length bs))"
  using assms
proof (induction len cap out rule: encode_remaining_loop.induct)
  case (1 len cap out)
  let ?d = "ucast (len AND 0x7f) :: byte"
  note low = low_digit [of len]
  have fits: "\<not> length out \<ge> cap" using "1.prems" by (auto simp: encode_remaining_loop.simps [of len])
  show ?case
  proof (cases "drop_bit 7 len > 0")
    case True
    with "1.prems" fits have "encode_remaining_loop (drop_bit 7 len) cap (out @ [?d OR 0x80]) = Some r"
      by (simp add: encode_remaining_loop.simps [of len])
    from "1.IH" [OF fits refl refl True this] obtain bs where bs: "r = (out @ [?d OR 0x80]) @ bs"
      "\<And>pre rest mult v. length pre + length bs \<le> 4 \<Longrightarrow>
        decode_remaining_loop (pre @ bs @ rest) (length pre) mult v = Some (v + drop_bit 7 len * mult, length pre + length bs)"
      by blast
    show ?thesis
    proof (intro exI conjI allI impI)
      show "r = out @ ((?d OR 0x80) # bs)" using bs(1) by simp
      fix pre rest :: "byte list" and mult v :: u32
      assume l: "length pre + length ((?d OR 0x80) # bs) \<le> 4"
      have sum: "v + (len AND 0x7f) * mult + drop_bit 7 len * (mult * 128) = v + len * mult"
        by (subst (3) digits_128 [of len]) (simp add: algebra_simps)
      have "decode_remaining_loop (pre @ ((?d OR 0x80) # bs) @ rest) (length pre + 1) (mult * 128) (v + (len AND 0x7f) * mult)
        = Some (v + len * mult, length pre + length ((?d OR 0x80) # bs))"
        using bs(2) [of "pre @ [?d OR 0x80]" rest "mult * 128"] l by (simp add: sum)
      moreover have "(?d OR 0x80) AND 0x7f = ?d" "(?d OR 0x80) AND 0x80 \<noteq> 0"
        using low_bits_7(1) [OF low(1)] high_bit(1) [of ?d]
        by (simp_all add: or.commute)
      ultimately show "decode_remaining_loop (pre @ ((?d OR 0x80) # bs) @ rest) (length pre) mult v
        = Some (v + len * mult, length pre + length ((?d OR 0x80) # bs))"
        using l by (subst decode_remaining_loop.simps) (simp add: nth_append low(2))
    qed
  next
    case False
    then have z: "drop_bit 7 len = 0" by (simp only: word_gt_0 not_not)
    with "1.prems" fits have r: "r = out @ [?d]" by (simp add: encode_remaining_loop.simps [of len])
    have len: "len AND 0x7f = len" using digits_128 [of len] z by simp
    have d: "?d AND 0x7f = ?d" "?d AND 0x80 = 0"
    proof -
      show "?d AND 0x7f = ?d" by (rule low_bits_7(2) [OF low(1)])
      show "?d AND 0x80 = 0" 
        by (rule bit_word_eqI, unfold bit_and_iff bit_0x80) (use high_bit(2) [OF low(1)] in auto)
    qed
    show ?thesis
    proof (intro exI conjI allI impI)
      show "r = out @ [?d]" by (rule r)
      fix pre rest :: "byte list" and mult v :: u32
      assume "length pre + length [?d] \<le> 4"
      then show "decode_remaining_loop (pre @ [?d] @ rest) (length pre) mult v = Some (v + len * mult, length pre + length [?d])"
        using low(2) [unfolded len] d [unfolded len]
        by (subst decode_remaining_loop.simps) (simp add: nth_append len Let_def)
    qed
  qed
qed

lemma encode_remaining_succeeds:
  "length out < cap \<Longrightarrow> (\<exists>r. encode_remaining_loop len cap out = Some r) \<longleftrightarrow> unat len < 128 ^ (cap - length out)"
proof (induction len cap out rule: encode_remaining_loop.induct)
  case (1 len cap out)
  let ?d = "ucast (len AND 0x7f) :: byte"
  have div: "unat (drop_bit 7 len) = unat len div 128" by (simp add: drop_bit_eq_div unat_div_distrib)
  obtain n where n: "cap - length out = Suc n" using "1.prems" by (cases "cap - length out") auto
  show ?case
  proof (cases "drop_bit 7 len > 0")
    case True
    then have "unat (drop_bit 7 len) \<noteq> 0" by (simp only: word_gt_0 unat_eq_zero)
    then have big: "unat len \<ge> 128" unfolding div by (simp add: div_eq_0_iff)
    show ?thesis
    proof (cases n)
      case 0
      with n have "length out + 1 = cap" by simp
      then have "encode_remaining_loop (drop_bit 7 len) cap (out @ [?d OR 0x80]) = None"
        by (simp add: encode_remaining_loop.simps)
      with True "1.prems" big n 0 show ?thesis by (simp add: encode_remaining_loop.simps [of len])
    next
      case (Suc k)
      then have "length (out @ [?d OR 0x80]) < cap" using n by simp
      with "1.IH" "1.prems" True have "(\<exists>r. encode_remaining_loop (drop_bit 7 len) cap (out @ [?d OR 0x80]) = Some r) \<longleftrightarrow>
          unat len div 128 < 128 ^ (cap - length (out @ [?d OR 0x80]))"
        by (simp add: div)
      moreover have "cap - length (out @ [?d OR 0x80]) = n" using n by simp
      moreover have "unat len div 128 < 128 ^ n \<longleftrightarrow> unat len < 128 ^ (cap - length out)"
        by (simp add: n div_less_iff_less_mult mult.commute)
      ultimately show ?thesis using True "1.prems" by (simp add: encode_remaining_loop.simps [of len])
    qed
  next
    case False
    then have "unat len div 128 = 0" unfolding div [symmetric] by (simp only: word_gt_0 not_not unat_0)
    then have "unat len < 128" by simp
    moreover have "(128 :: nat) \<le> 128 ^ (cap - length out)" by (simp add: n)
    ultimately show ?thesis using False "1.prems" by (simp add: encode_remaining_loop.simps [of len])
  qed
qed

lemma length_encode_remaining:
  "encode_remaining_loop len cap out = Some r \<Longrightarrow> length out < length r \<and> length r \<le> cap"
proof (induction len cap out rule: encode_remaining_loop.induct)
  case (1 len cap out)
  show ?case
  proof (cases "drop_bit 7 len > 0")
    case True
    with "1.prems" have s: "\<not> length out \<ge> cap"
      "encode_remaining_loop (drop_bit 7 len) cap (out @ [ucast (len AND 0x7f) OR 0x80]) = Some r"
      by (auto simp: encode_remaining_loop.simps [of len] Let_def split: if_splits)
    from "1.IH" [OF s(1) refl refl True s(2)] show ?thesis by simp
  next
    case False
    with "1.prems" show ?thesis by (auto simp: encode_remaining_loop.simps [of len] Let_def split: if_splits)
  qed
qed

text \<open>The bytes of a length, and a reader for them at the front of a stream.\<close>

definition remaining_bytes :: "u32 \<Rightarrow> byte list" where
  "remaining_bytes len = (case encode_remaining_length len 4 of None \<Rightarrow> [] | Some r \<Rightarrow> r)"

definition read_remaining :: "byte list \<Rightarrow> (u32 \<times> byte list) option" where
  "read_remaining d = (case decode_remaining_length d of None \<Rightarrow> None | Some (v, k) \<Rightarrow> Some (v, drop k d))"

lemma encode_remaining_length_iff:
  "encode_remaining_length len 4 = (if unat len < 268435456 then Some (remaining_bytes len) else None)"
  using encode_remaining_succeeds [of "[]" 4 len]
  by (auto simp: encode_remaining_length_def remaining_bytes_def)

lemma decode_remaining_bytes:
  assumes "unat len < 268435456"
  shows "decode_remaining_length (remaining_bytes len @ rest) = Some (len, length (remaining_bytes len))"
    "length (remaining_bytes len) \<in> {1..4}"
proof -
  have e: "encode_remaining_loop len 4 [] = Some (remaining_bytes len)"
    using assms encode_remaining_length_iff [of len] by (simp add: encode_remaining_length_def)
  from length_encode_remaining [OF e] show l: "length (remaining_bytes len) \<in> {1..4}" by (cases "remaining_bytes len") auto
  from decode_after_encode [OF e] have
    "decode_remaining_loop ([] @ remaining_bytes len @ rest) (length ([] :: byte list)) 1 0 =
     Some (0 + len * 1, length ([] :: byte list) + length (remaining_bytes len))"
    using l by (metis append_Nil atLeastAtMost_iff add_0 list.size(3))
  then show "decode_remaining_length (remaining_bytes len @ rest) = Some (len, length (remaining_bytes len))"
    by (simp add: decode_remaining_length_def)
qed

interpretation remaining: prefix_codec remaining_bytes read_remaining "\<lambda>len. unat len < 268435456"
  by unfold_locales (simp add: read_remaining_def decode_remaining_bytes)

text \<open>
  C28. The length field of MQTT: a length is encoded exactly when it is below \<open>2 ^ 28\<close>, into
  one to four bytes, and the decoder reads these back whatever follows them, so that one
  packet's length is never the beginning of another's.
\<close>

theorem remaining_length_round_trip:
  "encode_remaining_length len 4 = None \<and> unat len \<ge> 268435456 \<or>
   (\<exists>bs. encode_remaining_length len 4 = Some bs \<and> unat len < 268435456 \<and> length bs \<in> {1..4} \<and>
      decode_remaining_length (bs @ rest) = Some (len, length bs))"
  using encode_remaining_length_iff [of len] decode_remaining_bytes [of len] by (cases "unat len < 268435456") auto

section \<open>Strings\<close>

lemma encode_string_fits:
  "length str \<le> 255 \<Longrightarrow> 257 \<le> cap \<Longrightarrow> encode_string str cap = Some (put_u16 (word_of_nat (length str)) @ bytes_of_string str)"
  by (simp add: encode_string_def)

lemma decode_string_encoded:
  assumes "length str \<le> 255" "pre = length hdr"
  shows "decode_string (hdr @ put_u16 (word_of_nat (length str)) @ bytes_of_string str @ rest) pre 256 =
    Some (bytes_of_string str, pre + 2 + length str)"
proof -
  have "unat (word_of_nat (length str) :: u16) = length str"
    using assms(1) by (simp add: unat_of_nat take_bit_nat_eq_self)
  then show ?thesis using assms(1) by (simp add: decode_string_def assms(2) Let_def)
qed

section \<open>Packets\<close>

definition mqtt_wire :: "byte \<Rightarrow> byte list \<Rightarrow> byte list" where
  "mqtt_wire type payload = type # word_of_nat (length payload) # payload"

lemma short_remaining:
  assumes "n < 128" shows "encode_remaining_length (word_of_nat n) 4 = Some [word_of_nat n]"
    "decode_remaining_length (word_of_nat n # rest) = Some (word_of_nat n, 1)"
proof -
  have u: "unat (word_of_nat n :: u32) = n" using assms by (simp add: unat_of_nat take_bit_nat_eq_self)
  have "unat (drop_bit 7 (word_of_nat n :: u32)) = 0" using assms by (simp add: drop_bit_eq_div unat_div_distrib u)
  then have z: "drop_bit 7 (word_of_nat n :: u32) = 0" by (simp only: unat_eq_zero)
  have l: "(word_of_nat n :: u32) AND 0x7f = word_of_nat n" using digits_128 [of "word_of_nat n"] z by simp
  have b: "(ucast (word_of_nat n :: u32) :: byte) = word_of_nat n"
    by (rule bit_word_eqI) (auto simp: bit_simps)
  show e: "encode_remaining_length (word_of_nat n) 4 = Some [word_of_nat n]"
    unfolding encode_remaining_length_def by (subst encode_remaining_loop.simps) (simp add: z l b Let_def)
  from decode_remaining_bytes(1) [of "word_of_nat n" rest] assms show
    "decode_remaining_length (word_of_nat n # rest) = Some (word_of_nat n, 1)"
    by (simp add: u remaining_bytes_def e)
qed

lemma mqtt_packet_short: "length payload < 128 \<Longrightarrow> mqtt_packet type payload = Some (mqtt_wire type payload)"
  by (simp add: mqtt_packet_def short_remaining mqtt_wire_def)

lemma send_mqtt_packet_script:
  assumes "script w0 segs out w" "length payload < 128"
  shows "\<exists>w1. send_mqtt_packet lg peer type payload c t topic i e st w = (True, w1) \<and>
    script w0 segs (out @ mqtt_wire type payload) w1"
  using script_write [OF assms(1), of "mqtt_wire type payload"]
  by (auto simp: send_mqtt_packet_def mqtt_packet_short [OF assms(2)] log_mqtt_def intro: script_log)

lemma send_mqtt_script:
  assumes "script w0 segs out w" "length payload < 128"
  shows "\<exists>w1. send_mqtt lg peer type payload c t topic i e st w = (True, w1) \<and>
    script w0 segs (out @ mqtt_wire type payload) w1"
  using script_write [OF assms(1), of "mqtt_wire type payload"]
  by (auto simp: send_mqtt_def mqtt_packet_short [OF assms(2)] client_log_mqtt_def intro: script_log)

section \<open>A run in every scenario\<close>

text \<open>What each program sends, by the scenario both were started with.\<close>

definition mqtt_topic :: "string option \<Rightarrow> string" where
  "mqtt_topic s = (if s = Some ''unauth-subscribe'' then ''admin/secret'' else ''sensors/temp'')"

definition mqtt_qos :: "string option \<Rightarrow> byte" where
  "mqtt_qos s = (if s = Some ''qos2-replay'' then 2 else 0)"

definition mqtt_client_packets :: "string option \<Rightarrow> byte list list" where
  "mqtt_client_packets s =
     [mqtt_wire 0x10 mqtt_connect_payload, mqtt_wire 0x80 (mqtt_subscribe_payload (mqtt_topic s))] @
     (if s = Some ''unauth-subscribe'' then []
      else [mqtt_wire (0x30 OR push_bit 1 (mqtt_qos s)) (mqtt_publish_payload (mqtt_qos s))] @
        (if s = Some ''qos2-replay'' then [] else [mqtt_wire 0xE0 []]))"

definition mqtt_server_packets :: "string option \<Rightarrow> byte list list" where
  "mqtt_server_packets s =
     [mqtt_wire 0x20 [0, 0], mqtt_wire 0x90 [0, 1, if s = Some ''unauth-subscribe'' then 0x80 else 0]] @
     (if s = Some ''qos2-replay'' then replicate 2 (mqtt_wire 0x50 [0, 1]) else [])"

definition mqtt_verdict :: "string option \<Rightarrow> int" where
  "mqtt_verdict s = (if s = Some ''unauth-subscribe'' \<or> s = Some ''qos2-replay'' then 1 else 0)"

lemma mqtt_payloads:
  "mqtt_connect_payload = bytes_of_string ''MQTT'' @ [4, 2] @ put_u16 60 @ put_u16 11 @ bytes_of_string ''demo-client''"
  "mqtt_subscribe_payload (mqtt_topic s) = put_u16 1 @ put_u16 12 @ bytes_of_string (mqtt_topic s) @ [0]"
  "mqtt_publish_payload qos = put_u16 12 @ bytes_of_string ''sensors/temp'' @ (if qos > 0 then put_u16 1 else []) @
     bytes_of_string ''{\"temp\":23.4}''"
  by (simp_all add: mqtt_connect_payload_def mqtt_subscribe_payload_def mqtt_publish_payload_def appended_string_def
      encode_string_def mqtt_sizes mqtt_topic_def)

lemma mqtt_payload_lengths:
  "length mqtt_connect_payload = 21" "length (mqtt_subscribe_payload (mqtt_topic s)) = 17"
  "length (mqtt_publish_payload qos) \<le> 29"
  by (simp_all add: mqtt_payloads) (simp add: mqtt_topic_def)

lemma mqtt_subscribe_read:
  fixes s defines "d \<equiv> mqtt_wire 0x80 (mqtt_subscribe_payload (mqtt_topic s))"
  shows "decode_remaining_length (drop 1 d) = Some (17, 1)" "get_u16 [buf_at d junk 2, buf_at d junk 3] = 1"
    "decode_string d 4 256 = Some (bytes_of_string (mqtt_topic s), 18)" "buf_at d junk 18 = 0"
    "c_string (bytes_of_string (mqtt_topic s)) = mqtt_topic s" "d \<noteq> []" "d ! 0 = 0x80" "length d = 19"
proof -
  have l: "length (mqtt_topic s) = 12" by (simp add: mqtt_topic_def)
  have d: "d = [0x80, 17] @ put_u16 1 @ put_u16 12 @ bytes_of_string (mqtt_topic s) @ [0]"
    using mqtt_payload_lengths(2) [of s] by (simp add: d_def mqtt_wire_def mqtt_payloads)
  show "decode_remaining_length (drop 1 d) = Some (17, 1)"
    using short_remaining(2) [of 17] by (simp add: d)
  show "d \<noteq> []" "d ! 0 = 0x80" "length d = 19" by (simp_all add: d l)
  show "get_u16 [buf_at d junk 2, buf_at d junk 3] = 1" "buf_at d junk 18 = 0"
    by (simp_all add: buf_at_def d l put_u16_host get_u16_host nth_append)
  show "decode_string d 4 256 = Some (bytes_of_string (mqtt_topic s), 18)"
    using decode_string_encoded [of "mqtt_topic s" 4 "[0x80, 17] @ put_u16 1" "[0]"] by (simp add: d l)
  show "c_string (bytes_of_string (mqtt_topic s)) = mqtt_topic s"
    by (rule c_string_text) (simp add: nul_free_def mqtt_topic_def)
qed

lemma mqtt_publish_read:
  fixes s defines "q \<equiv> mqtt_qos s"
  defines "d \<equiv> mqtt_wire (0x30 OR push_bit 1 q) (mqtt_publish_payload q)"
  shows "\<exists>r. decode_remaining_length (drop 1 d) = Some (r, 1)"
    "decode_string d 2 256 = Some (bytes_of_string ''sensors/temp'', 16)" "drop_bit 1 (d ! 0) AND 0x03 = q"
    "q > 0 \<Longrightarrow> 18 \<le> length d \<and> get_u16 (drop 16 d) = 1" "d \<noteq> []" "d ! 0 AND 0xf0 = 0x30" "length d \<le> 31"
    "c_string (bytes_of_string ''sensors/temp'') = ''sensors/temp''"
proof -
  let ?n = "length (mqtt_publish_payload q)"
  have d: "d = [0x30 OR push_bit 1 q, word_of_nat ?n] @ put_u16 12 @ bytes_of_string ''sensors/temp'' @
     (if q > 0 then put_u16 1 else []) @ bytes_of_string ''{\"temp\":23.4}''"
    by (simp add: d_def mqtt_wire_def mqtt_payloads)
  show "\<exists>r. decode_remaining_length (drop 1 d) = Some (r, 1)"
    using short_remaining(2) [of ?n] mqtt_payload_lengths(3) [of q] by (simp add: d)
  show "d \<noteq> []" "length d \<le> 31" "d ! 0 AND 0xf0 = 0x30" "drop_bit 1 (d ! 0) AND 0x03 = q"
    by (simp_all add: d q_def mqtt_qos_def)
  show "decode_string d 2 256 = Some (bytes_of_string ''sensors/temp'', 16)"
    using decode_string_encoded [of "''sensors/temp''" 2 "[0x30 OR push_bit 1 q, word_of_nat ?n]"] by (simp add: d)
  show "q > 0 \<Longrightarrow> 18 \<le> length d \<and> get_u16 (drop 16 d) = 1" by (simp add: d)
  show "c_string (bytes_of_string ''sensors/temp'') = ''sensors/temp''"
    by (rule c_string_text) (simp add: nul_free_def)
qed

lemma mqtt_disconnect_run:
  assumes "script w0 [mqtt_wire 0xE0 []] out w"
  shows "\<exists>w1. mqtt_server_disconnect lg w = (0, w1) \<and> w_tcp_out w1 = w_tcp_out w0 @ out"
proof -
  from script_recv [OF assms, of 8] obtain w1 where "tcp_recv 8 w = (mqtt_wire 0xE0 [], w1)" "script w0 [] out w1"
    by (auto simp: mqtt_wire_def)
  then show ?thesis
    by (simp add: mqtt_server_disconnect_def demo_finish_same log_mqtt_def script_def) (simp add: logger_write_def Let_def)
qed

lemma mqtt_acknowledge_run:
  assumes st: "script w0 (if s = Some ''qos2-replay'' then [] else [mqtt_wire 0xE0 []]) out w"
    and s: "getenv w0 ''UDP_SECURE_SCENARIO'' = s" "s \<noteq> Some ''unauth-subscribe''"
  shows "\<exists>w1. mqtt_server_acknowledge lg topic (if mqtt_qos s > 0 then 1 else 0) (mqtt_qos s) w = (mqtt_verdict s, w1) \<and>
    w_tcp_out w1 = w_tcp_out w0 @ out @ (if s = Some ''qos2-replay'' then concat (replicate 2 (mqtt_wire 0x50 [0, 1])) else [])"
proof -
  note env = script_env [OF st, of "''UDP_SECURE_SCENARIO''"]
  show ?thesis
  proof (cases "s = Some ''qos2-replay''")
    case True
    obtain w1 where w1: "send_mqtt_packet lg mqtt_peer 0x50 [0, 1] MQTT_PKT_PUBREC ''PUBREC'' (Some topic) 1
        ''SEND_PUBREC'' ''PUBLISH'' w = (True, w1)" "script w0 [] (out @ mqtt_wire 0x50 [0, 1]) w1"
      using send_mqtt_packet_script [OF st, of "[0, 1]"] True by fastforce
    obtain w2 where w2: "send_mqtt_packet lg mqtt_peer 0x50 [0, 1] MQTT_PKT_PUBREC ''PUBREC'' (Some topic) 1
        ''SEND_PUBREC_DUPLICATE'' ''PUBLISH'' w1 = (True, w2)"
        "script w0 [] ((out @ mqtt_wire 0x50 [0, 1]) @ mqtt_wire 0x50 [0, 1]) w2"
      using send_mqtt_packet_script [OF w1(2), of "[0, 1]"] by fastforce
    from w1(1) w2 True show ?thesis
      by (simp add: mqtt_server_acknowledge_def env s mqtt_qos_def id_bytes_def Let_def mqtt_verdict_def
          demo_finish_same numeral_2_eq_2 script_def) (simp add: logger_write_def Let_def)
  next
    case False
    let ?w1 = "if s = Some ''cleartext-eavesdrop''
      then logger_write lg (Some ((demo_init_event ''WARN'' ''EAVESDROP_DETECTED'' ''PUBLISH''
             ''PUBLISH payload transmitted in cleartext; consider MQTTS'')
           \<lparr>le_peer := Some mqtt_peer, le_security_encrypted := 0, le_path := Some topic\<rparr>)) w else w"
    have "script w0 [mqtt_wire 0xE0 []] out ?w1" using st False by (auto intro: script_log)
    from mqtt_disconnect_run [OF this, of lg] False s show ?thesis
      by (auto simp: mqtt_server_acknowledge_def env mqtt_qos_def Let_def mqtt_verdict_def)
  qed
qed

lemma mqtt_publish_step:
  assumes "tcp_recv 2048 w = (d, w1)" "d \<noteq> []" "d ! 0 AND 0xf0 = 0x30" "decode_remaining_length (drop 1 d) = Some (r, k)"
    "decode_string d (1 + k) 256 = Some (name, off)" "drop_bit 1 (d ! 0) AND 0x03 = qos"
    "(if qos > 0 \<and> off + 2 \<le> length d then get_u16 (drop off d) else 0) = i"
  shows "\<exists>e. mqtt_server_publish lg w = mqtt_server_acknowledge lg (c_string name) i qos (logger_write lg e w1)"
proof -
  from assms(1-6) have "mqtt_server_publish lg w = mqtt_server_acknowledge lg (c_string name)
      (if qos > 0 \<and> off + 2 \<le> length d then get_u16 (drop off d) else 0) qos
      (log_mqtt lg (if qos \<ge> 2 then ''DATA'' else ''INFO'') ''RECV_PUBLISH'' ''PUBLISH''
         ''client PUBLISH received'' mqtt_peer ''Client -> Server'' MQTT_PKT_PUBLISH ''PUBLISH''
         (Some (c_string name)) (uint (if qos > 0 \<and> off + 2 \<le> length d then get_u16 (drop off d) else 0)) d w1)"
    by (simp add: mqtt_server_publish_def mqtt_sizes Let_def)
  then show ?thesis unfolding assms(7) log_mqtt_def by blast
qed

lemma mqtt_publish_run:
  assumes st: "script w0 (drop 2 (mqtt_client_packets s)) out w"
    and s: "getenv w0 ''UDP_SECURE_SCENARIO'' = s" "s \<noteq> Some ''unauth-subscribe''"
  shows "\<exists>w1. mqtt_server_publish lg w = (mqtt_verdict s, w1) \<and>
    w_tcp_out w1 = w_tcp_out w0 @ out @ (if s = Some ''qos2-replay'' then concat (replicate 2 (mqtt_wire 0x50 [0, 1])) else [])"
proof -
  let ?d = "mqtt_wire (0x30 OR push_bit 1 (mqtt_qos s)) (mqtt_publish_payload (mqtt_qos s))"
  note read = mqtt_publish_read(1-7) [of s] mqtt_publish_read(8)
  from st s(2) have "script w0 (?d # (if s = Some ''qos2-replay'' then [] else [mqtt_wire 0xE0 []])) out w"
    by (simp add: mqtt_client_packets_def)
  from script_recv [OF this, of 2048] read(7) obtain w1 where w1: "tcp_recv 2048 w = (?d, w1)"
    "script w0 (if s = Some ''qos2-replay'' then [] else [mqtt_wire 0xE0 []]) out w1" by auto
  obtain r where r: "decode_remaining_length (drop 1 ?d) = Some (r, 1)" using read(1) by blast
  have i: "(if mqtt_qos s > 0 \<and> 16 + 2 \<le> length ?d then get_u16 (drop 16 ?d) else 0) = (if mqtt_qos s > 0 then 1 else 0)"
    using read(4) by simp
  have "1 + 1 = (2 :: nat)" by simp
  with mqtt_publish_step [OF w1(1) read(5,6) r _ read(3) i, of _ lg] read(2,8) obtain e where
    "mqtt_server_publish lg w = mqtt_server_acknowledge lg ''sensors/temp''
      (if mqtt_qos s > 0 then 1 else 0) (mqtt_qos s) (logger_write lg e w1)" by metis
  with mqtt_acknowledge_run [OF script_log [OF w1(2)] s, of lg "''sensors/temp''"] show ?thesis by simp
qed

lemma mqtt_subscribe_step:
  assumes "tcp_recv 2048 w = (d, w1)" "d \<noteq> []" "d ! 0 = 0x80" "decode_remaining_length (drop 1 d) = Some (r, 1)"
    "get_u16 [buf_at d junk 2, buf_at d junk 3] = i" "decode_string d 4 256 = Some (name, off)" "c_string name = topic"
    "buf_at d junk off = qos" "getenv w ''UDP_SECURE_SCENARIO'' = s"
    "denied \<longleftrightarrow> s = Some ''unauth-subscribe'' \<and> topic = RESTRICTED_TOPIC"
  shows "\<exists>e1 e2 ty ev st. mqtt_server_subscribe junk lg w =
    (let w3 = logger_write lg e1 w1; w4 = snd (send_mqtt_packet lg mqtt_peer 0x90
         (id_bytes i @ [if denied then 0x80 else qos]) MQTT_PKT_SUBACK ty (Some topic) (uint i) ev st
         (if denied then logger_write lg e2 w3 else w3))
     in if denied then (1, demo_finish lg ''ABORT'' ''subscribe denied (unauth-subscribe scenario)'' w4)
        else mqtt_server_publish lg w4)"
proof -
  let ?e1 = "Some ((mqtt_event ''INFO'' ''RECV_SUBSCRIBE'' ''SUBSCRIBE'' ''client SUBSCRIBE received''
      mqtt_peer ''Client -> Server'' MQTT_PKT_SUBSCRIBE ''SUBSCRIBE'' (Some topic) (uint i) d)\<lparr>le_header_summary := Some topic\<rparr>)"
  let ?e2 = "Some ((demo_init_event ''WARN'' ''SUBSCRIBE_DENIED'' ''ACL'' ''subscribe to restricted topic denied'')
      \<lparr>le_peer := Some mqtt_peer, le_path := Some topic\<rparr>)"
  have n: "Suc (Suc 0) = 2" "Suc 2 = 3" "Suc 3 = 4" by simp_all
  from assms have "mqtt_server_subscribe junk lg w =
    (let w3 = logger_write lg ?e1 w1; w4 = snd (send_mqtt_packet lg mqtt_peer 0x90
         (id_bytes i @ [if denied then 0x80 else qos]) MQTT_PKT_SUBACK ''SUBACK'' (Some topic) (uint i)
         (if denied then ''SEND_SUBACK_DENIED'' else ''SEND_SUBACK'') (if denied then ''ACL_DENY'' else ''SUBSCRIBE'')
         (if denied then logger_write lg ?e2 w3 else w3))
     in if denied then (1, demo_finish lg ''ABORT'' ''subscribe denied (unauth-subscribe scenario)'' w4)
        else mqtt_server_publish lg w4)"
    by (auto simp: mqtt_server_subscribe_def mqtt_sizes log_mqtt_def n Let_def)
  then show ?thesis by blast
qed

lemma mqtt_server_run:
  assumes "w_sendfault w0 = []" "w_tcp_in w0 = mqtt_client_packets s" "getenv w0 ''UDP_SECURE_SCENARIO'' = s"
  shows "\<exists>w'. mqtt_server_session junk lg w0 = (mqtt_verdict s, w') \<and>
    w_tcp_out w' = w_tcp_out w0 @ concat (mqtt_server_packets s)"
proof -
  let ?c = "mqtt_wire 0x10 mqtt_connect_payload"
  let ?d = "mqtt_wire 0x80 (mqtt_subscribe_payload (mqtt_topic s))"
  let ?refused = "s = Some ''unauth-subscribe''"
  note read = mqtt_subscribe_read(1) [of s] mqtt_subscribe_read(2) [of s junk] mqtt_subscribe_read(3) [of s]
    mqtt_subscribe_read(4) [of s junk] mqtt_subscribe_read(5-8) [of s]
  have "script w0 (?c # ?d # drop 2 (mqtt_client_packets s)) [] w0"
    using assms(1,2) by (intro script_start) (simp_all add: mqtt_client_packets_def)
  from script_recv [OF this, of 2048] mqtt_payload_lengths(1) obtain w1 where
    w1: "tcp_recv 2048 w0 = (?c, w1)" "script w0 (?d # drop 2 (mqtt_client_packets s)) [] w1" by (auto simp: mqtt_wire_def)
  obtain w2 where w2: "send_mqtt_packet lg mqtt_peer 0x20 [0, 0] MQTT_PKT_CONNACK ''CONNACK'' None 0 ''SEND_CONNACK'' ''CONNECT''
      (log_mqtt lg ''INFO'' ''RECV_CONNECT'' ''CONNECT'' ''client CONNECT received'' mqtt_peer ''Client -> Server''
         MQTT_PKT_CONNECT ''CONNECT'' None 0 ?c w1) = (True, w2)"
      "script w0 (?d # drop 2 (mqtt_client_packets s)) ([] @ mqtt_wire 0x20 [0, 0]) w2"
    using send_mqtt_packet_script [OF script_log [OF w1(2)], of "[0, 0]"] unfolding log_mqtt_def by fastforce
  have run: "mqtt_server_session junk lg w0 = mqtt_server_subscribe junk lg w2"
    using w1(1) w2(1) by (simp add: mqtt_server_session_def mqtt_sizes Let_def mqtt_wire_def)
  from script_recv [OF w2(2), of 2048] read(8) obtain w3 where
    w3: "tcp_recv 2048 w2 = (?d, w3)" "script w0 (drop 2 (mqtt_client_packets s)) (mqtt_wire 0x20 [0, 0]) w3" by auto
  have env: "getenv w2 ''UDP_SECURE_SCENARIO'' = s" using script_env [OF w2(2)] assms(3) by simp
  have denied: "?refused \<longleftrightarrow> s = Some ''unauth-subscribe'' \<and> mqtt_topic s = RESTRICTED_TOPIC"
    by (auto simp: mqtt_topic_def RESTRICTED_TOPIC_def)
  from mqtt_subscribe_step [OF w3(1) read(6,7,1,2,3,5,4) env denied, where lg = lg] obtain e1 e2 ty ev st where
    sub: "mqtt_server_subscribe junk lg w2 = (let w4 = logger_write lg e1 w3; w5 = snd (send_mqtt_packet lg mqtt_peer 0x90
         (id_bytes 1 @ [if ?refused then 0x80 else 0]) MQTT_PKT_SUBACK ty (Some (mqtt_topic s)) (uint (1 :: u16)) ev st
         (if ?refused then logger_write lg e2 w4 else w4))
     in if ?refused then (1, demo_finish lg ''ABORT'' ''subscribe denied (unauth-subscribe scenario)'' w5)
        else mqtt_server_publish lg w5)" by blast
  have "script w0 (drop 2 (mqtt_client_packets s)) (mqtt_wire 0x20 [0, 0])
      (let w4 = logger_write lg e1 w3 in if ?refused then logger_write lg e2 w4 else w4)"
    using w3(2) by (auto simp: Let_def intro: script_log)
  from send_mqtt_packet_script [OF this, where payload = "id_bytes 1 @ [if ?refused then 0x80 else 0]" and lg = lg and
      peer = mqtt_peer and type = "0x90" and c = MQTT_PKT_SUBACK and t = ty and topic = "Some (mqtt_topic s)" and
      i = "uint (1 :: u16)" and e = ev and st = st] obtain w5 where
    w5: "snd (send_mqtt_packet lg mqtt_peer 0x90 (id_bytes 1 @ [if ?refused then 0x80 else 0]) MQTT_PKT_SUBACK ty
         (Some (mqtt_topic s)) (uint (1 :: u16)) ev st (let w4 = logger_write lg e1 w3 in if ?refused then logger_write lg e2 w4 else w4)) = w5"
      "script w0 (drop 2 (mqtt_client_packets s)) (mqtt_wire 0x20 [0, 0] @ mqtt_wire 0x90 [0, 1, if ?refused then 0x80 else 0]) w5"
    by (auto simp: id_bytes_def)
  have sub': "mqtt_server_subscribe junk lg w2 =
      (if ?refused then (1, demo_finish lg ''ABORT'' ''subscribe denied (unauth-subscribe scenario)'' w5)
       else mqtt_server_publish lg w5)"
    using sub unfolding Let_def w5(1) [unfolded Let_def] .
  show ?thesis
  proof (cases ?refused)
    case True
    with run sub' w5(2) show ?thesis
      by (simp add: mqtt_verdict_def demo_finish_same script_def mqtt_server_packets_def)
  next
    case False
    from mqtt_publish_run [OF w5(2) assms(3) False, of lg] run sub' False show ?thesis
      by (auto simp: mqtt_server_packets_def numeral_2_eq_2)
  qed
qed

lemma mqtt_client_disconnect_run:
  assumes "script w0 segs out w" "w_writefault w0 = []"
  shows "\<exists>w1. mqtt_client_disconnect lg peer path w = (0, w1) \<and> w_tcp_out w1 = w_tcp_out w0 @ out @ mqtt_wire 0xE0 [] \<and>
    file_data w1 path = file_data w0 path @ bytes_of_string (''topic=sensors/temp qos=0 payload={\"temp\":23.4}'' @ [CHR 0x0A])"
proof -
  let ?line = "bytes_of_string (''topic=sensors/temp qos=0 payload={\"temp\":23.4}'' @ [CHR 0x0A])"
  obtain w1 where w1: "send_mqtt lg peer 0xE0 [] MQTT_PKT_DISCONNECT ''DISCONNECT'' None 0 ''SEND_DISCONNECT'' ''DISCONNECT'' w
      = (True, w1)" "script w0 segs (out @ mqtt_wire 0xE0 []) w1"
    using send_mqtt_script [OF assms(1), of "[]"] by fastforce
  have f: "file_data (snd (fwrite_all path ?line w1)) path = file_data w0 path @ ?line"
    using fwrite_all_appends [of w1 path ?line] w1(2) assms(2) by (simp add: script_def file_data_def)
  have o: "w_tcp_out (snd (fwrite_all path ?line w1)) = w_tcp_out w1"
    by (simp add: fwrite_all_def Let_def split: prod.split)
  show ?thesis
    using w1 f o by (simp add: mqtt_client_disconnect_def demo_finish_same script_def world_simps)
qed

lemma mqtt_client_publish_run:
  assumes st: "script w0 (drop 2 (mqtt_server_packets s)) out w" and s: "getenv w0 ''UDP_SECURE_SCENARIO'' = s"
    and "s \<noteq> Some ''unauth-subscribe''" "w_writefault w0 = []"
  shows "\<exists>w1. mqtt_client_publish lg peer path w = (mqtt_verdict s, w1) \<and>
    w_tcp_out w1 = w_tcp_out w0 @ out @ concat (drop 2 (mqtt_client_packets s)) \<and>
    file_data w1 path = file_data w0 path @ (if mqtt_verdict s = 0
      then bytes_of_string (''topic=sensors/temp qos=0 payload={\"temp\":23.4}'' @ [CHR 0x0A]) else [])"
proof -
  let ?q = "mqtt_qos s"
  let ?p = "mqtt_wire (0x30 OR push_bit 1 ?q) (mqtt_publish_payload ?q)"
  note env = script_env [OF st, of "''UDP_SECURE_SCENARIO''"]
  obtain w1 where w1: "send_mqtt lg peer (0x30 OR push_bit 1 ?q) (mqtt_publish_payload ?q) MQTT_PKT_PUBLISH ''PUBLISH''
      (Some ''sensors/temp'') 1 ''SEND_PUBLISH'' ''PUBLISH'' w = (True, w1)"
      "script w0 (drop 2 (mqtt_server_packets s)) (out @ ?p) w1"
    using send_mqtt_script [OF st, of "mqtt_publish_payload ?q"] mqtt_payload_lengths(3) [of ?q] by fastforce
  have run: "mqtt_client_publish lg peer path w = mqtt_client_acknowledged lg peer path ?q w1"
    using w1(1) env s by (simp add: mqtt_client_publish_def mqtt_qos_def del: push_bit_of_1 split: if_splits)
  show ?thesis
  proof (cases "s = Some ''qos2-replay''")
    case False
    then have "mqtt_client_acknowledged lg peer path ?q w1 = mqtt_client_disconnect lg peer path w1"
      by (simp add: mqtt_client_acknowledged_def mqtt_qos_def)
    with run mqtt_client_disconnect_run [OF w1(2) assms(4), of lg peer path] False assms(3) show ?thesis
      by (auto simp: mqtt_verdict_def mqtt_client_packets_def)
  next
    case True
    let ?rec = "mqtt_wire 0x50 [0, 1]"
    from w1(2) True have "script w0 [?rec, ?rec] (out @ ?p) w1" by (simp add: mqtt_server_packets_def numeral_2_eq_2)
    from script_recv [OF this, of 8] obtain w2 where
      w2: "tcp_recv 8 w1 = (?rec, w2)" "script w0 [?rec] (out @ ?p) w2" by (auto simp: mqtt_wire_def)
    let ?l = "logger_write lg (Some (mqtt_event ''INFO'' ''RECV_PUBREC'' ''PUBLISH'' ''PUBREC received'' peer
       ''Server -> Client'' MQTT_PKT_PUBREC ''PUBREC'' (Some ''sensors/temp'') 1 ?rec)) w2"
    from script_recv [OF script_log [OF w2(2)], of 8] obtain w3 where
      w3: "tcp_recv 8 ?l = (?rec, w3)" "script w0 [] (out @ ?p) w3" by (auto simp: mqtt_wire_def)
    have "getenv ?l ''UDP_SECURE_SCENARIO'' = s" using script_env [OF script_log [OF w2(2)]] s by simp
    then have "\<exists>e. mqtt_client_acknowledged lg peer path ?q w1 =
        (1, demo_finish lg ''ABORT'' ''qos2-replay detected'' (logger_write lg e w3))"
      using w2(1) w3(1) True
      by (simp add: mqtt_client_acknowledged_def mqtt_qos_def Let_def client_log_mqtt_def mqtt_wire_def) blast
    with run w3(2) True show ?thesis
      by (auto simp: mqtt_verdict_def mqtt_client_packets_def demo_finish_same script_def world_simps file_data_def)
  qed
qed

lemma mqtt_client_run:
  assumes "w_sendfault w0 = []" "w_tcp_in w0 = mqtt_server_packets s" "getenv w0 ''UDP_SECURE_SCENARIO'' = s" "w_writefault w0 = []"
  shows "\<exists>w1. mqtt_client_session junk lg peer path w0 = (mqtt_verdict s, w1) \<and>
    w_tcp_out w1 = w_tcp_out w0 @ concat (mqtt_client_packets s) \<and>
    file_data w1 path = file_data w0 path @ (if mqtt_verdict s = 0
      then bytes_of_string (''topic=sensors/temp qos=0 payload={\"temp\":23.4}'' @ [CHR 0x0A]) else [])"
proof -
  let ?refused = "s = Some ''unauth-subscribe''"
  let ?con = "mqtt_wire 0x10 mqtt_connect_payload" and ?sub = "mqtt_wire 0x80 (mqtt_subscribe_payload (mqtt_topic s))"
  let ?ack = "mqtt_wire 0x20 [0, 0]" and ?sa = "mqtt_wire 0x90 [0, 1, if ?refused then 0x80 else 0]"
  let ?rest = "drop 2 (mqtt_server_packets s)"
  have st0: "script w0 (?ack # ?sa # ?rest) [] w0"
    using assms(1,2) by (intro script_start) (simp_all add: mqtt_server_packets_def)
  obtain w1 where w1: "send_mqtt lg peer 0x10 mqtt_connect_payload MQTT_PKT_CONNECT ''CONNECT'' None 0 ''SEND_CONNECT'' ''CONNECT'' w0
      = (True, w1)" "script w0 (?ack # ?sa # ?rest) ([] @ ?con) w1"
    using send_mqtt_script [OF st0, of mqtt_connect_payload] mqtt_payload_lengths(1) by fastforce
  from script_recv [OF w1(2), of 2048] obtain w2 where
    w2: "tcp_recv 2048 w1 = (?ack, w2)" "script w0 (?sa # ?rest) ?con w2" by (auto simp: mqtt_wire_def)
  let ?l = "client_log_mqtt lg ''INFO'' ''RECV_CONNACK'' ''CONNECT'' ''CONNACK received'' peer ''Server -> Client''
                MQTT_PKT_CONNACK ''CONNACK'' None 0 ?ack w2"
  have l: "script w0 (?sa # ?rest) ?con ?l" unfolding client_log_mqtt_def by (rule script_log [OF w2(2)])
  have run: "mqtt_client_session junk lg peer path w0 = mqtt_client_subscribe junk lg peer path ?l"
    using w1(1) w2(1) by (simp add: mqtt_client_session_def mqtt_sizes mqtt_wire_def)
  obtain w3 where w3: "send_mqtt lg peer 0x80 (mqtt_subscribe_payload (mqtt_topic s)) MQTT_PKT_SUBSCRIBE ''SUBSCRIBE''
      (Some (mqtt_topic s)) 1 ''SEND_SUBSCRIBE'' ''SUBSCRIBE'' ?l = (True, w3)" "script w0 (?sa # ?rest) (?con @ ?sub) w3"
    using send_mqtt_script [OF l, of "mqtt_subscribe_payload (mqtt_topic s)"] mqtt_payload_lengths(2) [of s] by fastforce
  from script_recv [OF w3(2), of 2048] obtain w4 where
    w4: "tcp_recv 2048 w3 = (?sa, w4)" "script w0 ?rest (?con @ ?sub) w4" by (auto simp: mqtt_wire_def)
  have env: "getenv ?l ''UDP_SECURE_SCENARIO'' = s" using script_env [OF l] assms(3) by simp
  have granted: "buf_at ?sa junk 4 = (if ?refused then 0x80 else 0)" by (simp add: buf_at_def mqtt_wire_def)
  have topic: "(if ?refused then ''admin/secret'' else ''sensors/temp'') = mqtt_topic s" by (simp add: mqtt_topic_def)
  have sub: "mqtt_client_subscribe junk lg peer path ?l =
      (if ?refused then (1, demo_finish lg ''ABORT'' ''subscribe failed (unauth-subscribe)''
         (logger_write lg (Some ((demo_init_event ''WARN'' ''ACL_DENY_OBSERVED'' ''ACL''
             ''client observed subscribe denial'')\<lparr>le_peer := Some peer\<rparr>))
         (logger_write lg (Some ((demo_init_event ''WARN'' ''SUBSCRIBE_FAILED'' ''SUBSCRIBE''
                ''server returned 0x80 (failure)'')\<lparr>le_peer := Some peer\<rparr>)) w4)))
       else mqtt_client_publish lg peer path (client_log_mqtt lg ''INFO'' ''RECV_SUBACK'' ''SUBSCRIBE'' ''SUBACK received'' peer
         ''Server -> Client'' MQTT_PKT_SUBACK ''SUBACK'' (Some (mqtt_topic s)) 1 ?sa w4))"
    unfolding mqtt_client_subscribe_def env topic Let_def mqtt_sizes mqtt_type.simps
    using w3(1) w4(1) granted by (simp add: mqtt_wire_def)
  show ?thesis
  proof (cases ?refused)
    case True
    with run sub w4(2) show ?thesis
      by (auto simp: mqtt_verdict_def mqtt_client_packets_def demo_finish_same script_def world_simps file_data_def)
  next
    case False
    have "script w0 ?rest (?con @ ?sub) (client_log_mqtt lg ''INFO'' ''RECV_SUBACK'' ''SUBSCRIBE'' ''SUBACK received'' peer
         ''Server -> Client'' MQTT_PKT_SUBACK ''SUBACK'' (Some (mqtt_topic s)) 1 ?sa w4)"
      unfolding client_log_mqtt_def by (rule script_log [OF w4(2)])
    from mqtt_client_publish_run [OF this assms(3) False assms(4), of lg peer path] run sub False show ?thesis
      by (auto simp: mqtt_client_packets_def)
  qed
qed

text \<open>
  C29. A run of the two MQTT programs started with the same scenario, when every packet
  arrives in a segment of its own (the programs take a packet from one \<open>recv\<close>, and lose one that
  comes in the segment of another) and no send or write fails: each program sends exactly what
  the other one reads and both reach the same verdict. A subscription to the restricted topic and a
  repeated \<open>PUBREC\<close> end with ABORT on both sides and an output file left as it was. Every other
  scenario, eavesdropping included, ends with OK, and the client has appended a fixed line to
  the output file; it is not a message received, since the server forwards none.
\<close>

theorem mqtt_run_agrees:
  assumes scenario: "getenv ws ''UDP_SECURE_SCENARIO'' = s" "getenv wc ''UDP_SECURE_SCENARIO'' = s"
    and arrive: "w_tcp_in ws = mqtt_client_packets s" "w_tcp_in wc = mqtt_server_packets s"
    and quiet: "w_sendfault ws = []" "w_sendfault wc = []" "w_writefault wc = []"
  shows "\<exists>ws' wc'. mqtt_server_session junk lgs ws = (mqtt_verdict s, ws') \<and>
     mqtt_client_session junk' lgc peer path wc = (mqtt_verdict s, wc') \<and>
     w_tcp_out ws' = w_tcp_out ws @ concat (w_tcp_in wc) \<and> w_tcp_out wc' = w_tcp_out wc @ concat (w_tcp_in ws) \<and>
     file_data wc' path = file_data wc path @ (if mqtt_verdict s = 0
       then bytes_of_string (''topic=sensors/temp qos=0 payload={\"temp\":23.4}'' @ [CHR 0x0A]) else [])"
  using mqtt_server_run [OF quiet(1) arrive(1) scenario(1), of junk lgs]
    mqtt_client_run [OF quiet(2) arrive(2) scenario(2) quiet(3), of junk' lgc peer path] arrive by metis

lemma mqtt_run_agrees_witness:
  "\<exists>wc'. mqtt_client_session (\<lambda>_. 0) closed_logger ''peer'' ''out''
      (quiet_world\<lparr>w_tcp_in := mqtt_server_packets None\<rparr>) = (0, wc') \<and>
    file_data wc' ''out'' = bytes_of_string (''topic=sensors/temp qos=0 payload={\"temp\":23.4}'' @ [CHR 0x0A])"
proof -
  let ?ws = "quiet_world\<lparr>w_tcp_in := mqtt_client_packets None\<rparr>" and ?wc = "quiet_world\<lparr>w_tcp_in := mqtt_server_packets None\<rparr>"
  have v: "mqtt_verdict None = 0" "file_data ?wc ''out'' = []" by (simp_all add: mqtt_verdict_def file_data_def quiet_parts)
  show ?thesis
    using mqtt_run_agrees [of ?ws None ?wc "\<lambda>_. 0" closed_logger "\<lambda>_. 0" closed_logger "''peer''" "''out''"]
    by (auto simp: getenv_def quiet_parts v)
qed

end
