(* ===== verification/HttpText.thy ===== *)
theory HttpText
  imports CText
begin

text \<open>
  What the two demos over HTTP share: connections one after the other, reading a message
  until its announced body is there, the request line, and the log of a message.
\<close>

section \<open>Connections\<close>

text \<open>
  What \<open>accept\<close> will answer: a connection from an address with the segments it will
  deliver, an interruption, or another failure. The client's connections are their segments.
\<close>

datatype accept_result = Accepted sockaddr_in "byte list list" | AcceptIntr | AcceptFailed

definition on_connection :: "byte list list \<Rightarrow> world \<Rightarrow> world" where
  "on_connection segs w = w\<lparr>w_tcp_in := segs\<rparr>"

section \<open>Conversions\<close>

text \<open>\<open>strtoul(text, NULL, 10)\<close> with a 64-bit \<open>unsigned long\<close>; a minus sign negates modulo \<open>2 ^ 64\<close>.\<close>

definition strtoul10 :: "string \<Rightarrow> nat" where
  "strtoul10 text =
     (let s = dropWhile is_space text;
          neg = (case s of c # _ \<Rightarrow> c = CHR ''-'' | [] \<Rightarrow> False);
          body = (case s of c # cs \<Rightarrow> if c = CHR ''-'' \<or> c = CHR ''+'' then cs else s | [] \<Rightarrow> s);
          v = dec_value (takeWhile is_digit body)
      in if v \<ge> 2 ^ 64 then 2 ^ 64 - 1 else if neg then (2 ^ 64 - v) mod 2 ^ 64 else v)"

text \<open>One conversion \<open>%ns\<close> of \<open>sscanf\<close>: the word and what follows; no word is a failure.\<close>

definition scan_word :: "nat \<Rightarrow> string \<Rightarrow> (string \<times> string) option" where
  "scan_word n text =
     (let s = dropWhile is_space text; word = take n (takeWhile (\<lambda>c. \<not> is_space c) s) in
      if word = [] then None else Some (word, drop (length word) s))"

definition scan_request_line :: "nat \<Rightarrow> string \<Rightarrow> (string \<times> string) option" where
  "scan_request_line path_max raw =
     (case scan_word 15 raw of
        None \<Rightarrow> None
      | Some (verb, rest) \<Rightarrow> (case scan_word path_max rest of None \<Rightarrow> None | Some (path, _) \<Rightarrow> Some (verb, path)))"

section \<open>Reading a message\<close>

text \<open>
  \<open>read_http_message\<close>: receive until the C string in the buffer has an empty line and as many
  bytes as the header announces follow it. \<open>announced\<close> is the program's way of finding that
  number in the buffer; \<open>head\<close> is the end of the header and the number, once known. The sum is
  computed in a \<open>size_t\<close>.
\<close>

function read_http_loop :: "(byte list \<Rightarrow> nat) \<Rightarrow> nat \<Rightarrow> byte list \<Rightarrow> (nat \<times> nat) option \<Rightarrow> world \<Rightarrow> byte list option \<times> world" where
  "read_http_loop announced cap got head w =
     (if length got < cap then
        (case tcp_recv (cap - length got) w of (d, w1) \<Rightarrow>
           if d = [] then (None, w1)
           else let got1 = got @ d;
                    head1 = (case head of
                        Some h \<Rightarrow> Some h
                      | None \<Rightarrow> (case strstr (c_string got1) (CRLF @ CRLF) of
                          None \<Rightarrow> None
                        | Some s \<Rightarrow> Some (length (c_string got1) - length s + 4, announced got1))) in
             (case head1 of
                Some (header_end, body_need) \<Rightarrow>
                  if length got1 \<ge> (header_end + body_need) mod 2 ^ 64 then (Some got1, w1)
                  else read_http_loop announced cap got1 head1 w1
              | None \<Rightarrow> read_http_loop announced cap got1 head1 w1))
      else (None, w))"
  by pat_completeness auto
termination
  by (relation "measure (\<lambda>(announced, cap, got, head, w). cap - length got)") (auto simp: neq_Nil_conv)

declare read_http_loop.simps [simp del]

definition read_http_message :: "(byte list \<Rightarrow> nat) \<Rightarrow> nat \<Rightarrow> world \<Rightarrow> byte list option \<times> world" where
  "read_http_message announced cap w = read_http_loop announced cap [] None w"

text \<open>The C string a position in the buffer points at.\<close>

definition c_text :: "string \<Rightarrow> string" where
  "c_text t = takeWhile (\<lambda>c. c \<noteq> CHR 0x00) t"

text \<open>The body behind the first empty line: its bytes in the buffer.\<close>

definition http_body :: "byte list \<Rightarrow> byte list option" where
  "http_body raw =
     (let text = c_string raw in
      case strstr text (CRLF @ CRLF) of None \<Rightarrow> None | Some s \<Rightarrow> Some (drop (length text - length s + 4) raw))"

section \<open>The log\<close>

definition http_event ::
  "string \<Rightarrow> string \<Rightarrow> string \<Rightarrow> string \<Rightarrow> string \<Rightarrow> string \<Rightarrow> string \<Rightarrow> int \<Rightarrow> string option \<Rightarrow> string option \<Rightarrow> int \<Rightarrow>
   string \<Rightarrow> byte list \<Rightarrow> LogEvent" where
  "http_event level event state message peer direction packet_type packet_code verb path status headers wire =
     (demo_init_event level event state message)
       \<lparr>le_peer := Some peer, le_direction := Some direction, le_packet_type := Some packet_type,
        le_packet_code := packet_code, le_method := verb, le_path := path, le_status_code := status,
        le_header_summary := Some headers,
        le_payload_length := int_of_size (length wire), le_bytes := int_of_size (length wire),
        le_packet_uid := compute_packet_uid 24 (word_of_int packet_code) status 0 (Some wire) (length wire),
        le_wire_hex := bytes_to_hex (Some (take 160 wire)) 321\<rparr>"

end
