(* ===== verification/Http.thy ===== *)
theory Http
  imports HttpText
begin

text \<open>
  The HTTP demo (\<open>src/http_demo_server.c\<close>, \<open>src/http_demo_client.c\<close>): one request per
  connection, a status page, a login, and an upload that the server echoes. The server's
  login holds for every later connection. Closing descriptors leaves nothing in the
  modelled state.
\<close>

section \<open>Constants\<close>

definition HTTP_BUF_CAP :: nat where "HTTP_BUF_CAP = 8192"
definition HTTP_UPLOAD_LIMIT :: nat where "HTTP_UPLOAD_LIMIT = 1024"

lemmas http_sizes = HTTP_BUF_CAP_def HTTP_UPLOAD_LIMIT_def

abbreviation content_length :: string where "content_length \<equiv> ''Content-Length:''"

section \<open>Headers\<close>

definition find_header_ci :: "string \<Rightarrow> string \<Rightarrow> string option" where
  "find_header_ci raw needle = strstr_ci raw needle"

text \<open>\<open>match\<close> is the C string from the header's name on.\<close>

definition header_value_int :: "string \<Rightarrow> string \<Rightarrow> int" where
  "header_value_int match name =
     (let p = dropWhile (\<lambda>c. c = CHR '':'' \<or> c = CHR '' '' \<or> c = CHR 0x09) (drop (length name) match) in
      if p = [] then -1
      else case strtol10 p of (v, end_text, erange) \<Rightarrow> if end_text = p then -1 else v)"

text \<open>
  The number of bytes a message announces: the name is searched in all the bytes received,
  the body among them.
\<close>

definition announced_bytes :: "byte list \<Rightarrow> nat" where
  "announced_bytes buf = (case strstr_ci (string_of_bytes buf) content_length of
     None \<Rightarrow> 0
   | Some cl \<Rightarrow> nat (header_value_int (c_text cl) content_length))"

text \<open>The client's way of reading the number.\<close>

definition client_announced_bytes :: "byte list \<Rightarrow> nat" where
  "client_announced_bytes buf = (case strstr_ci (string_of_bytes buf) content_length of
     None \<Rightarrow> 0
   | Some cl \<Rightarrow> strtoul10 (drop 15 (c_text cl)))"

definition header_summary :: "string \<Rightarrow> string" where
  "header_summary raw = snprintf_s 128
     (''Content-Length='' @
      show_int (case find_header_ci raw content_length of None \<Rightarrow> 0 | Some cl \<Rightarrow> header_value_int cl content_length) @
      ''; Connection='' @ (if find_header_ci raw ''Connection:'' = None then ''default'' else ''close''))"

definition client_header_summary :: "string \<Rightarrow> string" where
  "client_header_summary raw = snprintf_s 128
     (''Content-Length='' @
      show_int (case find_header_ci raw content_length of None \<Rightarrow> 0 | Some cl \<Rightarrow> fst (strtol10 (drop 15 cl))) @
      ''; Connection=close'')"

definition log_http_packet ::
  "Logger \<Rightarrow> string \<Rightarrow> string \<Rightarrow> string \<Rightarrow> string \<Rightarrow> string \<Rightarrow> string \<Rightarrow> string \<Rightarrow> int \<Rightarrow> string option \<Rightarrow> string option \<Rightarrow> int \<Rightarrow>
   string \<Rightarrow> byte list \<Rightarrow> world \<Rightarrow> world" where
  "log_http_packet lg level event state message peer direction packet_type packet_code verb path status headers wire w =
     logger_write lg (Some (http_event level event state message peer direction packet_type packet_code verb path status
       headers wire)) w"

section \<open>The server\<close>

definition http_response_text :: "int \<Rightarrow> string \<Rightarrow> string \<Rightarrow> string" where
  "http_response_text status_code status_text body =
     ''HTTP/1.1 '' @ show_int status_code @ '' '' @ status_text @ CRLF @
     ''Content-Type: text/plain; charset=utf-8'' @ CRLF @
     ''Content-Length: '' @ show_nat (length body) @ CRLF @ ''Connection: close'' @ CRLF @ CRLF @ body"

definition send_http_response ::
  "Logger \<Rightarrow> string \<Rightarrow> int \<Rightarrow> string \<Rightarrow> string \<Rightarrow> string \<Rightarrow> int \<Rightarrow> string \<Rightarrow> string \<Rightarrow> world \<Rightarrow> bool \<times> world" where
  "send_http_response lg peer status_code status_text body packet_type packet_code state event w =
     (let response = http_response_text status_code status_text body in
      if length response \<ge> HTTP_BUF_CAP then (False, w)
      else case demo_write_all (bytes_of_string response) w of (ok, w1) \<Rightarrow>
        if \<not> ok then (False, w1)
        else (True, log_http_packet lg (if status_code \<ge> 400 then ''ERROR'' else ''INFO'') event state body peer
                ''Server -> Client'' packet_type packet_code None None status_code
                (snprintf_s 128 (''Content-Length='' @ show_nat (length body) @ ''; Connection=close''))
                (bytes_of_string response) w1))"

text \<open>Method, path and the bytes of the body.\<close>

definition parse_request :: "byte list \<Rightarrow> (string \<times> string \<times> byte list) option" where
  "parse_request raw =
     (case (strstr (c_string raw) CRLF, http_body raw) of
        (Some line_end, Some body) \<Rightarrow>
          (case scan_request_line 127 (c_string raw) of
             None \<Rightarrow> None
           | Some (verb, path) \<Rightarrow> if length verb \<ge> 16 \<or> length path \<ge> 128 then None else Some (verb, path, body))
      | _ \<Rightarrow> None)"

text \<open>The packet types of a path: the request's name and code; the response's follow.\<close>

definition http_kind :: "string \<Rightarrow> string \<times> int \<times> string" where
  "http_kind path =
     (if path = ''/auth'' then (''AUTH_REQUEST'', 32, ''AUTH_RESPONSE'')
      else if path = ''/upload'' then (''UPLOAD_REQUEST'', 34, ''UPLOAD_RESPONSE'')
      else (''STATUS_REQUEST'', 30, ''STATUS_RESPONSE''))"

definition http_password_ok :: "string \<Rightarrow> byte list \<Rightarrow> bool" where
  "http_password_ok password body \<longleftrightarrow>
     length body = length password + 9 \<and> take 9 body = bytes_of_string ''password='' \<and>
     take (length password) (drop 9 body) = bytes_of_string password"

text \<open>The text of the answer to an upload: the C string left in a buffer of 1088 bytes.\<close>

definition http_echo :: "byte list \<Rightarrow> string" where
  "http_echo body =
     (let cap = HTTP_UPLOAD_LIMIT + 64;
          meta = ''uploaded=ok&bytes='' @ show_nat (length body) @ ''|''; n = length meta;
          copy_len = (if n + length body \<ge> cap then cap - n - 1 else length body)
      in if n < cap \<and> length body > 0 then meta @ c_string (take copy_len body) else snprintf_s cap meta)"

text \<open>
  One request. The result is \<open>None\<close> when the server leaves its loop without success, else
  whether someone has logged in and whether the upload is complete.
\<close>

definition http_server_request ::
  "Logger \<Rightarrow> string \<Rightarrow> string \<Rightarrow> bool \<Rightarrow> string \<Rightarrow> string \<Rightarrow> byte list \<Rightarrow> world \<Rightarrow> (bool \<times> bool) option \<times> world" where
  "http_server_request lg password peer authed verb path body w =
     (case http_kind path of (req_type, req_code, resp_type) \<Rightarrow>
      let resp_code = req_code + 1;
          answer = (\<lambda>status status_text text state event next.
            case send_http_response lg peer status status_text text resp_type resp_code state event w of (ok, w1) \<Rightarrow>
              (if ok then next else None, w1)) in
      if verb = ''GET'' \<and> path = ''/status'' then
        answer 200 ''OK'' ''status=ready'' ''HTTP_RESPONSE'' ''SEND_STATUS_OK'' (Some (authed, False))
      else if verb = ''POST'' \<and> path = ''/auth'' then
        (if http_password_ok password body
         then answer 200 ''OK'' ''auth=accepted'' ''AUTH'' ''SEND_AUTH_OK'' (Some (True, False))
         else answer 403 ''Forbidden'' ''auth=failed'' ''ABORT'' ''SEND_AUTH_FAIL'' None)
      else if verb = ''POST'' \<and> path = ''/upload'' then
        (if \<not> authed
         then answer 401 ''Unauthorized'' ''auth required'' ''ABORT'' ''SEND_UPLOAD_UNAUTHORIZED'' None
         else if length body > HTTP_UPLOAD_LIMIT
         then answer 413 ''Payload Too Large'' ''payload too large'' ''ABORT'' ''SEND_UPLOAD_TOO_LARGE'' None
         else answer 201 ''Created'' (http_echo body) ''DONE'' ''SEND_UPLOAD_OK'' (Some (authed, True)))
      else answer 405 ''Method Not Allowed'' ''method not allowed'' ''ABORT'' ''SEND_METHOD_NOT_ALLOWED'' None)"

definition http_server_connection ::
  "Logger \<Rightarrow> string \<Rightarrow> string \<Rightarrow> bool \<Rightarrow> world \<Rightarrow> (bool \<times> bool) option \<times> world" where
  "http_server_connection lg password peer authed w =
     (case read_http_message announced_bytes HTTP_BUF_CAP w of (msg, w1) \<Rightarrow>
      case (case msg of None \<Rightarrow> None | Some raw \<Rightarrow> map_option (Pair raw) (parse_request raw)) of
        None \<Rightarrow> (None, snd (send_http_response lg peer 400 ''Bad Request'' ''invalid request'' ''STATUS_RESPONSE'' 31
                          ''ABORT'' ''SEND_BAD_REQUEST'' w1))
      | Some (raw, verb, path, body) \<Rightarrow>
          http_server_request lg password peer authed verb path body
            (log_http_packet lg ''INFO'' ''RECV_HTTP_REQUEST'' ''HTTP_REQUEST'' ''http request received'' peer
               ''Client -> Server'' (fst (http_kind path)) (fst (snd (http_kind path))) (Some verb) (Some path) 0
               (header_summary (c_string raw)) raw w1))"

text \<open>The loop of \<open>main\<close>; whether the upload was completed.\<close>

fun http_server_loop :: "Logger \<Rightarrow> string \<Rightarrow> bool \<Rightarrow> accept_result list \<Rightarrow> world \<Rightarrow> bool \<times> world" where
  "http_server_loop lg password authed conns w =
     (case read_stop w of (stop, w0) \<Rightarrow>
      if stop then (False, w0)
      else case conns of
        [] \<Rightarrow> (False, w0)
      | AcceptFailed # rest \<Rightarrow> (False, w0)
      | AcceptIntr # rest \<Rightarrow> http_server_loop lg password authed rest w0
      | Accepted addr segs # rest \<Rightarrow>
          (case http_server_connection lg password (peer_to_string addr 64) authed (on_connection segs w0) of
             (None, w1) \<Rightarrow> (False, w1)
           | (Some (authed1, completed), w1) \<Rightarrow>
               if completed then (True, w1) else http_server_loop lg password authed1 rest w1))"

declare http_server_loop.simps [simp del]

definition http_server_run :: "Logger \<Rightarrow> string \<Rightarrow> accept_result list \<Rightarrow> world \<Rightarrow> int \<times> world" where
  "http_server_run lg password conns w =
     (case http_server_loop lg password False conns w of (completed, w1) \<Rightarrow>
        if completed then (0, demo_finish lg ''OK'' ''http-basic flow completed'' w1)
        else (1, demo_finish lg ''ABORT'' ''http-basic flow failed'' w1))"

definition http_server_main :: "accept_result list \<Rightarrow> string list \<Rightarrow> world \<Rightarrow> int \<times> world" where
  "http_server_main conns argv w =
     (case logger_open (Some ''server'') (Some ''logs/server.jsonl'') w of
        (rc, None) \<Rightarrow> (1, w)
      | (rc, Some lg) \<Rightarrow>
        if rc \<noteq> 0 then (1, w)
        else (case (if length argv \<noteq> 4 then None else parse_port (Some (argv ! 1))) of
            None \<Rightarrow> (1, demo_finish lg ''ABORT'' ''invalid arguments'' w)
          | Some port \<Rightarrow>
            (case w_fs w (argv ! 3) of
               None \<Rightarrow> (1, demo_finish lg ''ABORT'' ''input file cannot be read'' w)
             | Some st \<Rightarrow>
               (case demo_create_tcp_listener port w of (listening, w1) \<Rightarrow>
                if \<not> listening then (1, demo_finish lg ''ABORT'' (w_errno w1) w1)
                else http_server_run lg (argv ! 2) conns
                  (logger_write lg (Some ((demo_init_event ''INFO'' ''SERVER_START'' ''INIT''
                        ''http-basic server started'')
                     \<lparr>le_port := uint port, le_bytes := int_of_size (length (f_data st))\<rparr>)) w1)))))"

section \<open>The client\<close>

text \<open>Status and body of a response, the body as a C string.\<close>

definition parse_status :: "byte list \<Rightarrow> (int \<times> string) option" where
  "parse_status raw =
     (let text = c_string raw in
      case (scan_http_status text, strstr text (CRLF @ CRLF)) of
        (Some status, Some s) \<Rightarrow> Some (status, drop 4 s)
      | _ \<Rightarrow> None)"

definition http_request_text :: "string \<Rightarrow> string \<Rightarrow> string \<Rightarrow> u16 \<Rightarrow> string \<Rightarrow> string" where
  "http_request_text verb path host_name port body =
     verb @ '' '' @ path @ '' HTTP/1.1'' @ CRLF @ ''Host: '' @ host_port host_name port @ CRLF @
     ''Content-Length: '' @ show_nat (length body) @ CRLF @ ''Connection: close'' @ CRLF @ CRLF @ body"

text \<open>
  The state of the client between requests: the connections to come and the static copy of
  the last response body that was not empty.
\<close>

record http_client =
  hc_conns :: "byte list list list"
  hc_last_body :: string

text \<open>
  One request on a connection of its own: whether the expected status came back.
  \<open>write_body\<close> asks for the body to be written to the output with a line feed.
\<close>

definition do_request ::
  "Logger \<Rightarrow> string \<Rightarrow> u16 \<Rightarrow> string \<Rightarrow> string \<Rightarrow> string \<Rightarrow> string \<Rightarrow> string \<Rightarrow> int \<Rightarrow> string \<Rightarrow> int \<Rightarrow> int \<Rightarrow> string \<Rightarrow> bool
   \<Rightarrow> http_client \<Rightarrow> world \<Rightarrow> bool \<times> http_client \<times> world" where
  "do_request lg host_name port peer_text verb path body req_type req_code resp_type resp_code expect_status out write_body hc w =
     (let request = http_request_text verb path host_name port body in
      if length request \<ge> HTTP_BUF_CAP then (False, hc, w)
      else case demo_connect_tcp host_name port w of
        (None, w1) \<Rightarrow> (False, hc, w1)
      | (Some addr, w1) \<Rightarrow>
        (let hc1 = hc\<lparr>hc_conns := drop 1 (hc_conns hc)\<rparr>;
             w2 = log_http_packet lg ''INFO'' ''SEND_HTTP_REQUEST'' ''HTTP_REQUEST'' ''http request sent'' peer_text
                    ''Client -> Server'' req_type req_code (Some verb) (Some path) 0
                    (snprintf_s 128 (''Content-Length='' @ show_nat (length body) @ ''; Connection=close''))
                    (bytes_of_string request)
                    (on_connection (case hc_conns hc of [] \<Rightarrow> [] | c # cs \<Rightarrow> c) w1) in
         case demo_write_all (bytes_of_string request) w2 of (ok, w3) \<Rightarrow>
         if \<not> ok then (False, hc1, w3)
         else case read_http_message client_announced_bytes HTTP_BUF_CAP w3 of
           (None, w4) \<Rightarrow> (False, hc1, w4)
         | (Some raw, w4) \<Rightarrow>
           (case parse_status raw of
              None \<Rightarrow> (False, hc1, w4)
            | Some (status_code, resp_body) \<Rightarrow>
              (let w5 = log_http_packet lg (if status_code \<ge> 400 then ''ERROR'' else ''INFO'') ''RECV_HTTP_RESPONSE''
                     ''HTTP_RESPONSE'' ''http response received'' peer_text ''Server -> Client'' resp_type resp_code
                     None (Some path) status_code (client_header_summary (c_string raw)) raw w4;
                   hc2 = (if resp_body \<noteq> [] then hc1\<lparr>hc_last_body := take 2047 resp_body\<rparr> else hc1);
                   w6 = (if write_body \<and> resp_body \<noteq> []
                         then snd (fwrite_all out [0x0A] (snd (fwrite_all out (bytes_of_string resp_body) w5))) else w5)
               in (status_code = expect_status, hc2, w6)))))"

definition http_upload_payload :: string where
  "http_upload_payload = ''HTTP-CLIENT-PAYLOAD:'' @
     map (\<lambda>i. if i mod 2 = 0 then CHR ''H'' else CHR ''T'') [20..<256 - 12] @ '':END-PAYLOAD''"

definition http_client_upload ::
  "Logger \<Rightarrow> string \<Rightarrow> u16 \<Rightarrow> string \<Rightarrow> string \<Rightarrow> http_client \<Rightarrow> world \<Rightarrow> int \<times> world" where
  "http_client_upload lg host_name port peer_text out hc w =
     (case do_request lg host_name port peer_text ''POST'' ''/upload'' http_upload_payload ''UPLOAD_REQUEST'' 34
             ''UPLOAD_RESPONSE'' 35 201 out False hc w of (ok, hc1, w1) \<Rightarrow>
      if \<not> ok then (1, demo_finish lg ''ABORT'' ''upload request failed'' w1)
      else let w2 = (case strstr (hc_last_body hc1) ''|'' of
               None \<Rightarrow> w1
             | Some sep \<Rightarrow> snd (fwrite_all out [0x0A] (snd (fwrite_all out (bytes_of_string (drop 1 sep)) w1)))) in
        (0, demo_finish lg ''OK'' ''http-basic flow completed'' w2))"

text \<open>The requests, by scenario; \<open>first\<close> is the first password, if one was given.\<close>

definition http_client_session ::
  "Logger \<Rightarrow> string \<Rightarrow> u16 \<Rightarrow> string \<Rightarrow> string option \<Rightarrow> string \<Rightarrow> http_client \<Rightarrow> world \<Rightarrow> int \<times> world" where
  "http_client_session lg host_name port peer_text first out hc w =
     (let scenario = getenv w ''UDP_SECURE_SCENARIO''; bad_auth = (scenario = Some ''bad-auth'');
          request = do_request lg host_name port peer_text in
      if scenario = Some ''bad-method'' then
        (case request ''PUT'' ''/status'' [] ''STATUS_REQUEST'' 30 ''STATUS_RESPONSE'' 31 405 out True hc w of (ok, hc1, w1) \<Rightarrow>
           (1, demo_finish lg ''ABORT'' ''http-basic bad-method scenario'' w1))
      else case request ''GET'' ''/status'' [] ''STATUS_REQUEST'' 30 ''STATUS_RESPONSE'' 31 200 out True hc w of (ok, hc1, w1) \<Rightarrow>
      if \<not> ok then (1, demo_finish lg ''ABORT'' ''status request failed'' w1)
      else
        (let password = (if bad_auth then ''wrong'' else case first of Some p \<Rightarrow> p | None \<Rightarrow> ''secret'') in
         case request ''POST'' ''/auth'' (snprintf_s 4096 (''password='' @ password)) ''AUTH_REQUEST'' 32 ''AUTH_RESPONSE'' 33
                (if bad_auth then 403 else 200) out True hc1 w1 of (ok2, hc2, w2) \<Rightarrow>
         if \<not> ok2 then (1, demo_finish lg ''ABORT'' ''auth request failed'' w2)
         else if bad_auth then (1, demo_finish lg ''ABORT'' ''http-basic bad-auth scenario'' w2)
         else if scenario = Some ''payload-too-large'' then
           (case request ''POST'' ''/upload'' (replicate 4095 (CHR ''A'')) ''UPLOAD_REQUEST'' 34 ''UPLOAD_RESPONSE'' 35
                   413 out True hc2 w2 of (ok3, hc3, w3) \<Rightarrow>
              (1, demo_finish lg ''ABORT'' ''http-basic payload-too-large scenario'' w3))
         else http_client_upload lg host_name port peer_text out hc2 w2))"

definition http_client_main :: "byte list list list \<Rightarrow> string list \<Rightarrow> world \<Rightarrow> int \<times> world" where
  "http_client_main conns argv w =
     (case logger_open (Some ''client'') (Some ''logs/client.jsonl'') w of
        (rc, None) \<Rightarrow> (1, w)
      | (rc, Some lg) \<Rightarrow>
        if rc \<noteq> 0 then (1, w)
        else (case (if length argv = 7 then Some (Some (argv ! 3), argv ! 6)
                    else if length argv = 4 then Some (None, argv ! 3) else None) of
            None \<Rightarrow> (1, demo_finish lg ''ABORT'' ''invalid arguments'' w)
          | Some (first, output_path) \<Rightarrow>
            (case parse_port (Some (argv ! 2)) of
               None \<Rightarrow> (1, demo_finish lg ''ABORT'' ''invalid port'' w)
             | Some port \<Rightarrow>
               (let peer_text = snprintf_s 64 (host_port (argv ! 1) port) in
                case fopen_wb output_path w of (opened, w1) \<Rightarrow>
                if \<not> opened then (1, demo_finish lg ''ABORT'' ''output open failed'' w1)
                else http_client_session lg (argv ! 1) port peer_text first output_path
                       \<lparr>hc_conns = conns, hc_last_body = []\<rparr>
                       (logger_write lg (Some ((demo_init_event ''INFO'' ''CLIENT_START'' ''INIT''
                            ''http-basic client started'')
                          \<lparr>le_peer := Some peer_text, le_port := uint port\<rparr>)) w1)))))"

end
