(* ===== verification/HttpFacts.thy ===== *)
theory HttpFacts
  imports Http DemoStream
begin

text \<open>
  The HTTP demo: a message is read as a prefix of what the connection delivers, and no
  upload is accepted before somebody has sent the password.
\<close>

section \<open>Reading\<close>

lemma read_http_loop_reads:
  "read_http_loop ann cap got head w = (r, w1) \<Longrightarrow>
   reads w w1 \<and> (\<forall>raw. r = Some raw \<longrightarrow> (\<exists>d. raw = got @ d \<and> tcp_stream w = d @ tcp_stream w1 \<and> length raw \<le> cap))"
proof (induction ann cap got head w arbitrary: r w1 rule: read_http_loop.induct)
  case (1 ann cap got head w)
  obtain d wa where recv: "tcp_recv (cap - length got) w = (d, wa)" by fastforce
  note t = tcp_recv_stream [OF recv] and unf = read_http_loop.simps [of ann cap got head w]
  show ?case
  proof (cases "length got < cap \<and> d \<noteq> []")
    case False
    with "1.prems" unf recv t(1) show ?thesis by (auto split: if_splits)
  next
    case True
    define head1 where "head1 = (case head of Some h \<Rightarrow> Some h
      | None \<Rightarrow> (case strstr (c_string (got @ d)) (CRLF @ CRLF) of None \<Rightarrow> None
         | Some s \<Rightarrow> Some (length (c_string (got @ d)) - length s + 4, ann (got @ d))))"
    note unf' = unf [unfolded recv prod.case Let_def, folded head1_def]
    note IH = "1.IH" [OF _ recv [symmetric] _ refl head1_def]
    have fits: "length (got @ d) \<le> cap" using t(3) True by (simp del: t(3)) linarith
    show ?thesis
    proof (cases "\<exists>e n. head1 = Some (e, n) \<and> length (got @ d) \<ge> (e + n) mod 2 ^ 64")
      case stop: True
      with unf' True "1.prems" have "r = Some (got @ d)" "w1 = wa" by auto
      with t fits show ?thesis by auto
    next
      case go: False
      then have more: "read_http_loop ann cap (got @ d) head1 wa = (r, w1)"
        using unf' True "1.prems" by (auto split: option.splits prod.splits if_splits)
      have "reads wa w1 \<and> (\<forall>raw. r = Some raw \<longrightarrow> (\<exists>d'. raw = (got @ d) @ d' \<and>
          tcp_stream wa = d' @ tcp_stream w1 \<and> length raw \<le> cap))"
      proof (cases head1)
        case None
        with more True show ?thesis using IH(1) by auto
      next
        case (Some h)
        with more go True show ?thesis using IH(2) by (cases h) auto
      qed
      with t(1,2) show ?thesis by (auto intro: reads_trans)
    qed
  qed
qed

lemma read_http_message_reads:
  assumes "read_http_message ann cap w = (r, w1)"
  shows "reads w w1" "r = Some raw \<Longrightarrow> tcp_stream w = raw @ tcp_stream w1 \<and> length raw \<le> cap"
  using read_http_loop_reads [OF assms [unfolded read_http_message_def]] by auto

lemma http_body_suffix: "http_body raw = Some body \<Longrightarrow> \<exists>front. raw = front @ body"
  by (auto simp: http_body_def Let_def split: option.splits intro: append_take_drop_id [symmetric])

section \<open>No upload without the password\<close>

definition sends_login :: "string \<Rightarrow> byte list \<Rightarrow> bool" where
  "sends_login password stream \<longleftrightarrow> (\<exists>front rest. stream = front @ bytes_of_string (''password='' @ password) @ rest)"

lemma http_password_ok_body:
  assumes "http_password_ok password body" shows "body = bytes_of_string (''password='' @ password)"
proof -
  have "body = take 9 body @ take (length password) (drop 9 body)"
    using assms by (simp add: http_password_ok_def) (metis append_take_drop_id add.commute length_drop take_all_iff diff_add_inverse2 order_refl)
  with assms show ?thesis unfolding http_password_ok_def bytes_of_string_append by metis
qed

text \<open>What a visitor without the password may be told.\<close>

definition refusals :: "byte list list" where
  "refusals = map (\<lambda>(status, reason, body). bytes_of_string (http_response_text status reason body))
     [(200, ''OK'', ''status=ready''), (400, ''Bad Request'', ''invalid request''), (401, ''Unauthorized'', ''auth required''),
      (403, ''Forbidden'', ''auth=failed''), (405, ''Method Not Allowed'', ''method not allowed'')]"

definition only_refusals :: "world \<Rightarrow> world \<Rightarrow> bool" where
  "only_refusals w w1 \<longleftrightarrow> (\<exists>parts. w_tcp_out w1 = w_tcp_out w @ concat parts \<and>
     (\<forall>p \<in> set parts. \<exists>t \<in> set refusals. \<exists>more. t = p @ more))"

lemma only_refusals_same: "w_tcp_out w1 = w_tcp_out w \<Longrightarrow> only_refusals w w1"
  unfolding only_refusals_def by (intro exI [of _ "[]"]) simp

lemma only_refusals_cong:
  "only_refusals w w1 \<Longrightarrow> w_tcp_out v = w_tcp_out w \<Longrightarrow> w_tcp_out v1 = w_tcp_out w1 \<Longrightarrow> only_refusals v v1"
  by (simp add: only_refusals_def)

lemma only_refusals_trans:
  assumes "only_refusals w w1" "only_refusals w1 w2" shows "only_refusals w w2"
proof -
  from assms obtain p q where "w_tcp_out w1 = w_tcp_out w @ concat p" "w_tcp_out w2 = w_tcp_out w1 @ concat q"
    "\<forall>x \<in> set p. \<exists>t \<in> set refusals. \<exists>more. t = x @ more" "\<forall>x \<in> set q. \<exists>t \<in> set refusals. \<exists>more. t = x @ more"
    unfolding only_refusals_def by blast
  then show ?thesis unfolding only_refusals_def by (intro exI [of _ "p @ q"]) auto
qed

lemma send_refusal:
  assumes "send_http_response lg peer status reason body t c st ev w = (ok, w1)"
    and "bytes_of_string (http_response_text status reason body) \<in> set refusals"
  shows "only_refusals w w1"
proof -
  let ?d = "bytes_of_string (http_response_text status reason body)"
  obtain ok' wa where wr: "demo_write_all ?d w = (ok', wa)" by fastforce
  from demo_write_all_writes [OF wr] obtain d1 d2 where d: "?d = d1 @ d2" "w_tcp_out wa = w_tcp_out w @ d1"
    by (auto simp: writes_same)
  then have "only_refusals w wa"
    unfolding only_refusals_def using assms(2) by (intro exI [of _ "[d1]"]) auto
  moreover have "w1 = w \<or> w_tcp_out w1 = w_tcp_out wa"
    using assms(1) wr by (auto simp: send_http_response_def Let_def log_http_packet_def world_simps split: if_splits)
  ultimately show ?thesis
    by (auto intro: only_refusals_same only_refusals_trans)
qed

lemma http_server_request_unauthorised:
  assumes "http_server_request lg password peer False verb path body w = (r, w1)" "\<not> http_password_ok password body"
  shows "r = None \<or> r = Some (False, False)" "only_refusals w w1"
  using assms
  by (auto simp: http_server_request_def Let_def split: prod.splits if_splits elim!: send_refusal simp: refusals_def)

lemma http_server_connection_unauthorised:
  assumes conn: "http_server_connection lg password peer False w = (r, w1)" and "\<not> sends_login password (tcp_stream w)"
  shows "(r = None \<or> r = Some (False, False)) \<and> only_refusals w w1"
proof -
  obtain msg wr where rd: "read_http_message announced_bytes HTTP_BUF_CAP w = (msg, wr)" by fastforce
  have same: "w_tcp_out wr = w_tcp_out w" using read_http_message_reads(1) [OF rd] by (simp add: reads_same)
  show ?thesis
  proof (cases "case msg of None \<Rightarrow> None | Some raw \<Rightarrow> map_option (Pair raw) (parse_request raw)")
    case None
    obtain ok wb where s: "send_http_response lg peer 400 ''Bad Request'' ''invalid request'' ''STATUS_RESPONSE'' 31
       ''ABORT'' ''SEND_BAD_REQUEST'' wr = (ok, wb)" by fastforce
    have "only_refusals wr wb" by (rule send_refusal [OF s]) (simp add: refusals_def)
    with None conn rd s same show ?thesis
      by (auto simp: http_server_connection_def intro: only_refusals_trans only_refusals_same)
  next
    case (Some req)
    then obtain raw verb path body where m: "msg = Some raw" "parse_request raw = Some (verb, path, body)"
      by (auto split: option.splits)
    then have "http_body raw = Some body" by (auto simp: parse_request_def split: option.splits if_splits)
    from http_body_suffix [OF this] obtain front where f: "raw = front @ body" by blast
    have "tcp_stream w = raw @ tcp_stream wr" using read_http_message_reads(2) [OF rd m(1)] by simp
    then have bad: "\<not> http_password_ok password body"
      using assms(2) f http_password_ok_body [of password body] by (auto simp: sends_login_def)
    from conn rd m obtain e where
      "http_server_request lg password peer False verb path body (logger_write lg e wr) = (r, w1)"
      by (auto simp: http_server_connection_def log_http_packet_def)
    note told = http_server_request_unauthorised [OF this bad]
    have "only_refusals w w1" by (rule only_refusals_cong [OF told(2)]) (simp_all add: same world_simps)
    with told(1) show ?thesis by simp
  qed
qed

lemma http_server_loop_unauthorised:
  "(\<forall>addr segs. Accepted addr segs \<in> set conns \<longrightarrow> \<not> sends_login password (concat segs)) \<Longrightarrow>
   http_server_loop lg password False conns w = (completed, w1) \<Longrightarrow> \<not> completed \<and> only_refusals w w1"
proof (induction conns arbitrary: w)
  case Nil
  then show ?case
    by (auto simp: http_server_loop.simps only_refusals_same split: prod.splits if_splits)
      (auto simp: read_stop_def only_refusals_same split: option.splits nat.splits)
next
  case (Cons c conns)
  obtain stop w0 where s: "read_stop w = (stop, w0)" by fastforce
  have w0: "only_refusals w w0"
    using s by (auto simp: read_stop_def only_refusals_same split: option.splits nat.splits)
  note unf = http_server_loop.simps [of lg password False "c # conns" w]
  have others: "\<forall>addr segs. Accepted addr segs \<in> set conns \<longrightarrow> \<not> sends_login password (concat segs)"
    using Cons.prems(1) by simp
  note rest = Cons.IH [OF others]
  show ?case
  proof (cases "stop \<or> c = AcceptFailed \<or> c = AcceptIntr")
    case True
    with Cons.prems(2) unf s have "completed = False \<and> w1 = w0 \<or> http_server_loop lg password False conns w0 = (completed, w1)"
      by (auto split: if_splits)
    with rest w0 show ?thesis by (auto intro: only_refusals_trans)
  next
    case False
    then obtain addr segs where c: "c = Accepted addr segs" by (cases c) auto
    let ?w = "on_connection segs w0"
    obtain r wa where conn: "http_server_connection lg password (peer_to_string addr 64) False ?w = (r, wa)" by fastforce
    have "\<not> sends_login password (tcp_stream ?w)" using Cons.prems(1) c by (simp add: on_connection_def tcp_stream_def)
    from http_server_connection_unauthorised [OF conn this]
    have r: "r = None \<or> r = Some (False, False)" and "only_refusals ?w wa" by auto
    then have "only_refusals w0 wa" by (auto simp: on_connection_def elim: only_refusals_cong)
    with w0 have wa: "only_refusals w wa" by (rule only_refusals_trans)
    show ?thesis
    proof (cases r)
      case None
      with Cons.prems(2) unf s c conn False wa show ?thesis by simp
    next
      case (Some x)
      with r have "http_server_loop lg password False conns wa = (completed, w1)"
        using Cons.prems(2) unf s c conn False by simp
      with rest [OF this] wa show ?thesis by (auto intro: only_refusals_trans)
    qed
  qed
qed

text \<open>
  C30. The HTTP server completes an upload only after somebody has sent the password: if no
  connection's stream contains it behind \<open>password=\<close>, however it is cut into segments and
  whatever else is sent, the run ends with ABORT, and all it has written is the status page
  and refusals (the last one perhaps cut by a failing write).
\<close>

theorem http_upload_needs_login:
  assumes "\<forall>addr segs. Accepted addr segs \<in> set conns \<longrightarrow> \<not> sends_login password (concat segs)"
  shows "fst (http_server_run lg password conns w) = 1 \<and> only_refusals w (snd (http_server_run lg password conns w))"
proof -
  obtain completed w' where run: "http_server_loop lg password False conns w = (completed, w')" by fastforce
  from http_server_loop_unauthorised [OF assms run] have "\<not> completed" "only_refusals w w'" by auto
  from only_refusals_cong [OF this(2) refl, of "demo_finish lg ''ABORT'' ''http-basic flow failed'' w'"] this(1) run show ?thesis
    by (simp add: http_server_run_def demo_finish_def print_line_def world_simps Let_def)
qed

lemma no_login_without_p:
  "of_char (CHR ''p'') \<notin> set stream \<Longrightarrow> \<not> sends_login password stream"
  by (auto simp: sends_login_def bytes_of_string_def)

lemma http_upload_needs_login_witness:
  "fst (http_server_run closed_logger ''secret''
     [Accepted \<lparr>sin_family = 2, sin_port = 0, sin_addr = 0\<rparr> [bytes_of_string ''GET /status HTTP/1.1'', bytes_of_string (CRLF @ CRLF)]]
     quiet_world) = 1"
proof -
  have "of_char (CHR ''p'') \<notin> set (concat [bytes_of_string ''GET /status HTTP/1.1'', bytes_of_string (CRLF @ CRLF)])"
    by (simp add: bytes_of_string_def CRLF_def of_char_byte_inj)
  from no_login_without_p [OF this, of "''secret''"]
    http_upload_needs_login [of "[Accepted \<lparr>sin_family = 2, sin_port = 0, sin_addr = 0\<rparr>
       [bytes_of_string ''GET /status HTTP/1.1'', bytes_of_string (CRLF @ CRLF)]]" "''secret''" closed_logger quiet_world]
  show ?thesis by simp
qed

end
