(* ===== verification/Radius.thy ===== *)
theory Radius
  imports Datagram
begin

text \<open>
  The RADIUS demo (\<open>src/radius_demo_server.c\<close>, \<open>src/radius_demo_client.c\<close>): attributes, the
  two proofs of the password (PAP and CHAP), the response authenticator, and the two
  programs. Buffers that the programs read past what has arrived hold what the stack held:
  these contents are parameters.
\<close>

section \<open>Constants\<close>

definition RADIUS_HEADER_SIZE :: nat where "RADIUS_HEADER_SIZE = 20"
definition RADIUS_MAX_PACKET :: nat where "RADIUS_MAX_PACKET = 4096"
definition RADIUS_SECRET :: string where "RADIUS_SECRET = ''teaching-radius-secret''"

lemmas radius_sizes = RADIUS_HEADER_SIZE_def RADIUS_MAX_PACKET_def

text \<open>The codes of the log.\<close>

abbreviation RADIUS_PKT_ACCESS_REQUEST :: int where "RADIUS_PKT_ACCESS_REQUEST \<equiv> 200"
abbreviation RADIUS_PKT_ACCESS_ACCEPT :: int where "RADIUS_PKT_ACCESS_ACCEPT \<equiv> 201"
abbreviation RADIUS_PKT_ACCESS_REJECT :: int where "RADIUS_PKT_ACCESS_REJECT \<equiv> 202"
abbreviation RADIUS_PKT_ACCOUNTING_REQUEST :: int where "RADIUS_PKT_ACCOUNTING_REQUEST \<equiv> 203"
abbreviation RADIUS_PKT_ACCOUNTING_RESPONSE :: int where "RADIUS_PKT_ACCOUNTING_RESPONSE \<equiv> 204"

datatype RadiusAttr = RADIUS_ATTR_USER_NAME | RADIUS_ATTR_USER_PASSWORD | RADIUS_ATTR_CHAP_PASSWORD
  | RADIUS_ATTR_NAS_IP_ADDRESS | RADIUS_ATTR_CHAP_CHALLENGE

primrec radius_attr :: "RadiusAttr \<Rightarrow> byte" where
  "radius_attr RADIUS_ATTR_USER_NAME = 1"
| "radius_attr RADIUS_ATTR_USER_PASSWORD = 2"
| "radius_attr RADIUS_ATTR_CHAP_PASSWORD = 3"
| "radius_attr RADIUS_ATTR_NAS_IP_ADDRESS = 4"
| "radius_attr RADIUS_ATTR_CHAP_CHALLENGE = 32"

text \<open>A buffer after data has been received into its front.\<close>

definition overlay :: "byte list \<Rightarrow> byte list \<Rightarrow> byte list" where
  "overlay d buf = d @ drop (length d) buf"

section \<open>Attributes\<close>

text \<open>Type, value, and the offset behind the attribute; \<open>None\<close> for -1.\<close>

definition parse_attr :: "byte list \<Rightarrow> nat \<Rightarrow> (byte \<times> byte list \<times> nat) option" where
  "parse_attr buf offset =
     (if offset + 2 > length buf then None
      else let len = unat (buf ! (offset + 1)) in
        if len < 2 \<or> offset + len > length buf then None
        else Some (buf ! offset, take (len - 2) (drop (offset + 2) buf), offset + len))"

text \<open>The bytes written, if they fit into \<open>cap\<close>; the value's length is a \<open>uint8_t\<close>, and so is the sum in the packet.\<close>

definition encode_attr :: "nat \<Rightarrow> byte \<Rightarrow> byte list \<Rightarrow> byte list option" where
  "encode_attr cap type v = (if 2 + length v > cap then None else Some (type # word_of_nat (2 + length v) # v))"

section \<open>Passwords and authenticators\<close>

definition sha1_front16 :: "byte list list \<Rightarrow> byte list" where
  "sha1_front16 parts = take 16 (sha1_final (foldl sha1_update sha1_init parts))"

definition pap_obfuscate :: "string \<Rightarrow> byte list \<Rightarrow> byte list" where
  "pap_obfuscate password request_auth = sha1_front16 [request_auth, bytes_of_string password]"

text \<open>The client's function masks the password with the digest.\<close>

definition client_pap_obfuscate :: "string \<Rightarrow> byte list \<Rightarrow> byte list" where
  "client_pap_obfuscate password request_auth =
     (let digest = sha1_front16 [request_auth, bytes_of_string password]; p = take 16 (bytes_of_string password)
      in map2 (XOR) (take (length p) digest) p @ drop (length p) digest)"

text \<open>The text recovered; the expected password is at most 16 bytes long, as the code assumes.\<close>

definition pap_deobfuscate :: "byte list \<Rightarrow> byte list \<Rightarrow> string \<Rightarrow> nat \<Rightarrow> string option" where
  "pap_deobfuscate obfuscated request_auth expected_password out_size =
     (if expected_password = [] \<or> length obfuscated < 16 then None
      else let plain = map2 (XOR) (pap_obfuscate expected_password request_auth) (take 16 obfuscated) in
        if take (length expected_password) plain = bytes_of_string expected_password
        then Some (snprintf_s out_size (c_string (take (length expected_password) plain)))
        else None)"

definition chap_expected :: "byte \<Rightarrow> byte list \<Rightarrow> byte list" where
  "chap_expected chap_id challenge = sha1_front16 [[chap_id], bytes_of_string ''secret'', challenge]"

definition compute_response_authenticator ::
  "byte \<Rightarrow> byte \<Rightarrow> u16 \<Rightarrow> byte list \<Rightarrow> byte list \<Rightarrow> world \<Rightarrow> byte list \<times> world" where
  "compute_response_authenticator code ident len request_auth attrs w =
     (case malloc_ok w of (ok, w1) \<Rightarrow>
      (if \<not> ok then replicate 16 0
       else take 16 (demo_hmac_sha1 (bytes_of_string RADIUS_SECRET)
              (code # ident # put_u16 len @ request_auth @ attrs)), w1))"

section \<open>The log\<close>

text \<open>\<open>buf\<close> is the buffer the packet is the front of, \<open>hex_len\<close> the number of its bytes that are shown.\<close>

definition radius_event ::
  "nat \<Rightarrow> string \<Rightarrow> string \<Rightarrow> string \<Rightarrow> string \<Rightarrow> string \<Rightarrow> string \<Rightarrow> int \<Rightarrow> string \<Rightarrow> byte \<Rightarrow> string option \<Rightarrow> string option \<Rightarrow>
   int \<Rightarrow> int \<Rightarrow> byte list \<Rightarrow> nat \<Rightarrow> LogEvent" where
  "radius_event hex_len level event state message peer direction packet_code packet_type radius_id username auth_protocol
     mac_valid replay buf wire_len =
     (demo_init_event level event state message)
       \<lparr>le_peer := Some peer, le_direction := Some direction, le_packet_type := Some packet_type,
        le_packet_code := packet_code, le_path := username, le_header_summary := auth_protocol,
        le_security_mac_valid := mac_valid, le_security_replay := replay,
        le_payload_length := int_of_size wire_len, le_bytes := int_of_size wire_len,
        le_packet_uid := compute_packet_uid 24 (word_of_int packet_code) (uint radius_id) 0 (Some (take wire_len buf)) wire_len,
        le_wire_hex := bytes_to_hex (Some (take hex_len buf)) 321\<rparr>"

definition log_radius ::
  "Logger \<Rightarrow> string \<Rightarrow> string \<Rightarrow> string \<Rightarrow> string \<Rightarrow> string \<Rightarrow> string \<Rightarrow> int \<Rightarrow> string \<Rightarrow> byte \<Rightarrow> string option \<Rightarrow> string option \<Rightarrow>
   int \<Rightarrow> int \<Rightarrow> byte list \<Rightarrow> world \<Rightarrow> world" where
  "log_radius lg level event state message peer direction packet_code packet_type radius_id username auth_protocol
     mac_valid replay wire w =
     logger_write lg (Some (radius_event (if length wire > 160 then 160 else length wire) level event state message peer
       direction packet_code packet_type radius_id username auth_protocol mac_valid replay wire (length wire))) w"

text \<open>The client's function shows 160 bytes of the buffer whatever the length of the packet.\<close>

definition client_log_radius ::
  "Logger \<Rightarrow> string \<Rightarrow> string \<Rightarrow> string \<Rightarrow> string \<Rightarrow> string \<Rightarrow> string \<Rightarrow> int \<Rightarrow> string \<Rightarrow> byte \<Rightarrow> string option \<Rightarrow> string option \<Rightarrow>
   int \<Rightarrow> int \<Rightarrow> byte list \<Rightarrow> nat \<Rightarrow> world \<Rightarrow> world" where
  "client_log_radius lg level event state message peer direction packet_code packet_type radius_id username auth_protocol
     mac_valid replay buf wire_len w =
     logger_write lg (Some (radius_event 160 level event state message peer direction packet_code packet_type radius_id
       username auth_protocol mac_valid replay buf wire_len)) w"

section \<open>The server: one request\<close>

record access_request =
  ar_username :: string
  ar_protocol :: string
  ar_chap_mode :: bool
  ar_chap_id :: byte
  ar_chap_response :: "byte list"
  ar_chap_challenge :: "byte list"
  ar_has_password :: bool

definition no_attributes :: access_request where
  "no_attributes = \<lparr>ar_username = [], ar_protocol = ''PAP'', ar_chap_mode = False, ar_chap_id = 0,
     ar_chap_response = replicate 16 0, ar_chap_challenge = replicate 16 0, ar_has_password = False\<rparr>"

definition access_attr :: "byte \<Rightarrow> byte list \<Rightarrow> access_request \<Rightarrow> access_request" where
  "access_attr type v a =
     (if type = radius_attr RADIUS_ATTR_USER_NAME \<and> length v > 0 then a\<lparr>ar_username := c_string (take 63 v)\<rparr>
      else if type = radius_attr RADIUS_ATTR_USER_PASSWORD then a\<lparr>ar_protocol := ''PAP'', ar_has_password := True\<rparr>
      else if type = radius_attr RADIUS_ATTR_CHAP_PASSWORD then
        (let b = a\<lparr>ar_protocol := ''CHAP'', ar_chap_mode := True, ar_has_password := True\<rparr> in
         if length v \<ge> 17 then b\<lparr>ar_chap_id := v ! 0, ar_chap_response := take 16 (drop 1 v)\<rparr> else b)
      else if type = radius_attr RADIUS_ATTR_CHAP_CHALLENGE \<and> length v \<le> 16 then
        a\<lparr>ar_chap_challenge := overlay v (ar_chap_challenge a)\<rparr>
      else a)"

text \<open>The loops run to the end of the datagram, not to the length in the header.\<close>

function access_attrs :: "byte list \<Rightarrow> nat \<Rightarrow> access_request \<Rightarrow> access_request" where
  "access_attrs buf off a =
     (if off < length buf then
        (case parse_attr buf off of None \<Rightarrow> a | Some (type, v, off1) \<Rightarrow> access_attrs buf off1 (access_attr type v a))
      else a)"
  by pat_completeness auto
termination
  by (relation "measure (\<lambda>(buf, off, a). length buf - off)") (auto simp: parse_attr_def Let_def split: if_splits)

function find_pap :: "byte list \<Rightarrow> nat \<Rightarrow> byte list option" where
  "find_pap buf off =
     (if off < length buf then
        (case parse_attr buf off of
           None \<Rightarrow> None
         | Some (type, v, off1) \<Rightarrow> if type = radius_attr RADIUS_ATTR_USER_PASSWORD then Some v else find_pap buf off1)
      else None)"
  by pat_completeness auto
termination
  by (relation "measure (\<lambda>(buf, off). length buf - off)") (auto simp: parse_attr_def Let_def split: if_splits)

declare access_attrs.simps [simp del] find_pap.simps [simp del]

text \<open>Whether the request proves the password. Without the attribute the length is 0.\<close>

definition radius_accepts :: "access_request \<Rightarrow> byte list \<Rightarrow> bool" where
  "radius_accepts a buf \<longleftrightarrow> ar_username a \<noteq> [] \<and> ar_has_password a \<and>
     (if ar_chap_mode a then chap_expected (ar_chap_id a) (ar_chap_challenge a) = ar_chap_response a
      else pap_deobfuscate (case find_pap buf RADIUS_HEADER_SIZE of None \<Rightarrow> [] | Some v \<Rightarrow> v) (take 16 (drop 4 buf))
             ''secret'' 64 \<noteq> None)"

definition radius_response :: "byte \<Rightarrow> byte \<Rightarrow> byte list \<Rightarrow> byte list" where
  "radius_response code ident auth = code # ident # put_u16 (word_of_nat RADIUS_HEADER_SIZE) @ auth"

section \<open>The server: after an accepted request\<close>

definition acct_authenticator :: "byte list \<Rightarrow> byte list" where
  "acct_authenticator buf =
     sha1_front16 [5 # buf ! 1 # put_u16 (word_of_nat RADIUS_HEADER_SIZE) @ take 16 (drop 4 buf), bytes_of_string RADIUS_SECRET]"

text \<open>
  The exit status, and whether a replay was seen. \<open>stack\<close> is the buffer before the datagram
  arrives; the answers go to its sender, the log keeps the name of the first peer.
\<close>

function radius_accounting :: "Logger \<Rightarrow> byte list \<Rightarrow> string \<Rightarrow> string \<Rightarrow> string \<Rightarrow> world \<Rightarrow> int \<times> bool \<times> world" where
  "radius_accounting lg stack peer username auth_protocol w =
     (case read_stop w of (stop, w0) \<Rightarrow>
      if stop then (0, False, w0)
      else case demo_recvfrom RADIUS_MAX_PACKET w0 of
        (None, w1) \<Rightarrow> (0, False, w1)
      | (Some (addr, d), w1) \<Rightarrow>
        if d = [] then (0, False, w1)
        else let buf = overlay d stack in
          if buf ! 0 = 4 then
            (let response = radius_response 5 (buf ! 1) (acct_authenticator buf) in
             (0, False,
              log_radius lg ''INFO'' ''SEND_ACCOUNTING_RESPONSE'' ''ACCOUNTING'' ''Accounting-Response sent'' peer
                ''Server -> Client'' RADIUS_PKT_ACCOUNTING_RESPONSE ''ACCOUNTING_RESPONSE'' (buf ! 1) (Some username)
                (Some auth_protocol) 1 0 response
                (snd (demo_sendto response addr
                  (log_radius lg ''INFO'' ''RECV_ACCOUNTING_REQUEST'' ''ACCOUNTING'' ''Accounting-Request received'' peer
                     ''Client -> Server'' RADIUS_PKT_ACCOUNTING_REQUEST ''ACCOUNTING_REQUEST'' (buf ! 1) (Some username)
                     (Some auth_protocol) 1 0 d w1)))))
          else if buf ! 0 = 1 \<and> getenv w1 ''UDP_SECURE_SCENARIO'' = Some ''replay-attack'' then
            (let reject = radius_response 3 (buf ! 1) (take 16 (drop 4 buf)) in
             (1, True,
              log_radius lg ''WARN'' ''SEND_ACCESS_REJECT'' ''REPLAY'' ''Access-Reject (replay after Accept)'' peer
                ''Server -> Client'' RADIUS_PKT_ACCESS_REJECT ''ACCESS_REJECT'' (buf ! 1) (Some username)
                (Some auth_protocol) 0 1 reject
                (snd (demo_sendto reject addr
                  (logger_write lg (Some ((demo_init_event ''ERROR'' ''REPLAY_DETECTED'' ''VERIFY''
                       ''Access-Request with reused authenticator after Accept'')
                     \<lparr>le_peer := Some peer, le_security_replay := 1\<rparr>)) w1)))))
          else radius_accounting lg buf peer username auth_protocol w1)"
  by pat_completeness auto
termination
  by (relation "measure (\<lambda>(lg, stack, peer, username, auth_protocol, w). length (w_net w))")
    (auto simp: demo_recvfrom_def read_stop_def split: list.splits option.splits nat.splits recv_result.splits select_result.splits)

declare radius_accounting.simps [simp del]

section \<open>The server: the loop\<close>

text \<open>
  What the loop does after a packet: take the next one with this last authenticator, or end
  with an exit status and whether a replay was seen.
\<close>

datatype radius_step = Radius_Next "byte list" | Radius_Stop int bool

definition radius_replay :: "Logger \<Rightarrow> string \<Rightarrow> sockaddr_in \<Rightarrow> byte list \<Rightarrow> world \<Rightarrow> world" where
  "radius_replay lg peer addr d w =
     (let ident = d ! 1; reject = radius_response 3 ident (take 16 (drop 4 d));
          w1 = logger_write lg (Some ((demo_init_event ''ERROR'' ''REPLAY_DETECTED'' ''VERIFY''
                 ''Access-Request with reused authenticator'')\<lparr>le_peer := Some peer, le_security_replay := 1\<rparr>)) w;
          w2 = log_radius lg ''ERROR'' ''RECV_ACCESS_REQUEST'' ''REPLAY'' ''Access-Request replayed'' peer ''Client -> Server''
                 RADIUS_PKT_ACCESS_REQUEST ''ACCESS_REQUEST'' ident None (Some ''PAP'') 0 1 d w1;
          w3 = snd (demo_sendto reject addr w2)
      in demo_finish lg ''ABORT'' ''replay detected''
           (log_radius lg ''WARN'' ''SEND_ACCESS_REJECT'' ''REPLAY'' ''Access-Reject (replay)'' peer ''Server -> Client''
              RADIUS_PKT_ACCESS_REJECT ''ACCESS_REJECT'' ident None (Some ''PAP'') 0 1 reject w3))"

text \<open>The remarks of the scenarios in the log, before and after the decision.\<close>

definition radius_secret_check :: "Logger \<Rightarrow> string \<Rightarrow> world \<Rightarrow> bool \<times> world" where
  "radius_secret_check lg peer w =
     (if getenv w ''UDP_SECURE_SCENARIO'' = Some ''shared-secret-leak'' then
        (False, logger_write lg (Some ((demo_init_event ''ERROR'' ''AUTHENTICATOR_INVALID'' ''AUTH'' ''shared secret mismatch'')
           \<lparr>le_peer := Some peer, le_security_mac_valid := 0\<rparr>)) w)
      else (True, w))"

definition radius_pap_warning :: "Logger \<Rightarrow> string \<Rightarrow> bool \<Rightarrow> world \<Rightarrow> world" where
  "radius_pap_warning lg peer chap w =
     (if getenv w ''UDP_SECURE_SCENARIO'' = Some ''chap-vs-pap'' \<and> \<not> chap then
        logger_write lg (Some ((demo_init_event ''WARN'' ''PASSWORD_SENT_IN_CLEARTEXT'' ''PAP''
           ''PAP password is reversible from Request Authenticator; CHAP recommended'')
           \<lparr>le_peer := Some peer, le_security_encrypted := 0\<rparr>)) w
      else w)"

definition radius_access ::
  "Logger \<Rightarrow> byte list \<Rightarrow> string \<Rightarrow> sockaddr_in \<Rightarrow> byte list \<Rightarrow> world \<Rightarrow> radius_step \<times> world" where
  "radius_access lg stack peer addr d w =
     (let ident = d ! 1; auth = take 16 (drop 4 d);
          a = access_attrs d RADIUS_HEADER_SIZE no_attributes;
          name = Some (ar_username a); proto = Some (ar_protocol a) in
      case radius_secret_check lg peer
             (log_radius lg ''INFO'' ''RECV_ACCESS_REQUEST'' ''AUTH'' ''Access-Request received'' peer ''Client -> Server''
                RADIUS_PKT_ACCESS_REQUEST ''ACCESS_REQUEST'' ident name proto 1 0 d w) of (secret_ok, w1) \<Rightarrow>
      let accept = (secret_ok \<and> radius_accepts a d); code = (if accept then 2 else 3) in
      case compute_response_authenticator code ident (word_of_nat RADIUS_HEADER_SIZE) auth []
             (radius_pap_warning lg peer (ar_chap_mode a) w1) of (resp_auth, w2) \<Rightarrow>
      let response = radius_response code ident resp_auth in
      case demo_sendto response addr w2 of (sent, w3) \<Rightarrow>
      if \<not> sent then (Radius_Stop 1 False, demo_finish lg ''ABORT'' ''send response failed'' w3)
      else let w4 = log_radius lg (if accept then ''INFO'' else ''ERROR'')
                 (if accept then ''SEND_ACCESS_ACCEPT'' else ''SEND_ACCESS_REJECT'') ''RESPONSE''
                 (if accept then ''Access-Accept'' else ''Access-Reject'') peer ''Server -> Client''
                 (if accept then RADIUS_PKT_ACCESS_ACCEPT else RADIUS_PKT_ACCESS_REJECT)
                 (if accept then ''ACCESS_ACCEPT'' else ''ACCESS_REJECT'') ident name proto 1 0 response w3 in
        if \<not> accept then (Radius_Next auth, w4)
        else case radius_accounting lg stack peer (ar_username a) (ar_protocol a) w4 of (rc, seen, w5) \<Rightarrow>
          (Radius_Stop rc seen, w5))"

definition radius_packet ::
  "Logger \<Rightarrow> byte list \<Rightarrow> sockaddr_in \<Rightarrow> byte list \<Rightarrow> byte list \<Rightarrow> world \<Rightarrow> radius_step \<times> world" where
  "radius_packet lg stack addr d last_auth w =
     (let peer = peer_to_string addr 64; len = unat (get_u16 (drop 2 d)); auth = take 16 (drop 4 d) in
      if length d < RADIUS_HEADER_SIZE then (Radius_Stop 1 False, demo_finish lg ''ABORT'' ''radius packet too short'' w)
      else if len < RADIUS_HEADER_SIZE \<or> len > length d then
        (Radius_Stop 1 False, demo_finish lg ''ABORT'' ''bad radius length'' w)
      else if d ! 0 = 1 then
        (if getenv w ''UDP_SECURE_SCENARIO'' = Some ''replay-attack'' \<and> last_auth ! 0 \<noteq> 0 \<and> auth = last_auth
         then (Radius_Stop 1 True, radius_replay lg peer addr d w)
         else radius_access lg stack peer addr d w)
      else (Radius_Next last_auth,
        log_radius lg ''INFO'' ''RECV_PACKET'' ''UNKNOWN'' ''non-Access-Request received'' peer ''Client -> Server''
          RADIUS_PKT_ACCESS_REQUEST ''ACCESS_REQUEST'' (d ! 1) None None 1 0 d w))"

text \<open>The rest of a packet does not read from the network, unless the loop ends with it.\<close>

lemma radius_keeps_net [world_simps]:
  "w_net (log_radius lg level event state message peer direction pc pt ident user proto mac rep wire w) = w_net w"
  "w_net (snd (radius_secret_check lg peer w)) = w_net w"
  "w_net (radius_pap_warning lg peer chap w) = w_net w"
  "w_net (snd (compute_response_authenticator code ident len auth attrs w)) = w_net w"
  "w_net (snd (demo_sendto d addr w)) = w_net w"
proof -
  show "w_net (snd (demo_sendto d addr w)) = w_net w" using demo_sendto_world(3) [OF prod.collapse [symmetric]] by simp
qed (auto simp: log_radius_def radius_secret_check_def radius_pap_warning_def compute_response_authenticator_def
    malloc_ok_def world_simps split: prod.split list.split)

lemma radius_access_net:
  assumes "radius_access lg stack peer addr d w = (Radius_Next a, w1)" shows "w_net w1 = w_net w"
  using assms
  by (simp only: radius_access_def Let_def case_prod_beta fst_conv snd_conv prod.inject split: if_splits)
    (auto simp: world_simps)

lemma radius_packet_net: "radius_packet lg stack addr d last_auth w = (Radius_Next a, w1) \<Longrightarrow> w_net w1 = w_net w"
  by (auto simp: radius_packet_def Let_def world_simps dest!: radius_access_net split: if_splits)

function radius_server_loop :: "Logger \<Rightarrow> byte list \<Rightarrow> byte list \<Rightarrow> world \<Rightarrow> int \<times> bool \<times> world" where
  "radius_server_loop lg stack last_auth w =
     (case read_stop w of (stop, w0) \<Rightarrow>
      if stop then (1, False, w0)
      else case demo_recvfrom RADIUS_MAX_PACKET w0 of
        (None, w1) \<Rightarrow> (1, False, w1)
      | (Some (addr, d), w1) \<Rightarrow>
        if d = [] then (1, False, w1)
        else (case radius_packet lg stack addr d last_auth w1 of
            (Radius_Stop rc seen, w2) \<Rightarrow> (rc, seen, w2)
          | (Radius_Next auth, w2) \<Rightarrow> radius_server_loop lg stack auth w2))"
  by pat_completeness auto
termination
  by (relation "measure (\<lambda>(lg, stack, last_auth, w). length (w_net w))")
    (auto simp: demo_recvfrom_def read_stop_def
      dest!: radius_packet_net [OF sym] split: list.splits option.splits nat.splits recv_result.splits select_result.splits)

declare radius_server_loop.simps [simp del]

text \<open>The verdict is printed here also where the loop has printed one.\<close>

definition radius_server_session :: "Logger \<Rightarrow> byte list \<Rightarrow> world \<Rightarrow> int \<times> world" where
  "radius_server_session lg stack w =
     (case radius_server_loop lg stack (replicate 16 0) w of (rc, seen, w1) \<Rightarrow>
      (rc, if rc = 0 then demo_finish lg ''OK'' ''radius flow completed'' w1
           else if seen then demo_finish lg ''ABORT'' ''radius replay detected'' w1
           else demo_finish lg ''ABORT'' ''radius flow failed'' w1))"

definition radius_server_main :: "byte list \<Rightarrow> string list \<Rightarrow> world \<Rightarrow> int \<times> world" where
  "radius_server_main stack argv w =
     (case logger_open (Some ''server'') (Some ''logs/server.jsonl'') w of
        (rc, None) \<Rightarrow> (1, w)
      | (rc, Some lg) \<Rightarrow>
        if rc \<noteq> 0 then (1, w)
        else (case (if length argv \<noteq> 4 then None else parse_port (Some (argv ! 1))) of
            None \<Rightarrow> (1, demo_finish lg ''ABORT'' ''invalid arguments'' w)
          | Some port \<Rightarrow>
            (case socket_call w of (opened, w1) \<Rightarrow>
             if \<not> opened then (1, demo_finish lg ''ABORT'' (w_errno w1) w1)
             else (case socket_call w1 of (bound, w2) \<Rightarrow>
               if \<not> bound then (1, demo_finish lg ''ABORT'' (w_errno w2) w2)
               else radius_server_session lg stack
                 (logger_write lg (Some ((demo_init_event ''INFO'' ''SERVER_START'' ''INIT'' ''radius server started'')
                    \<lparr>le_port := uint port\<rparr>)) w2)))))"

section \<open>The client\<close>

text \<open>
  \<open>stack\<close> is what the buffer of the call held before. The results of the sends are not
  looked at by the callers.
\<close>

definition send_radius ::
  "Logger \<Rightarrow> byte list \<Rightarrow> string \<Rightarrow> byte \<Rightarrow> byte \<Rightarrow> byte list \<Rightarrow> byte list \<Rightarrow> int \<Rightarrow> string \<Rightarrow> string \<Rightarrow> sockaddr_in \<Rightarrow>
   world \<Rightarrow> bool \<times> world" where
  "send_radius lg stack peer code ident auth attrs packet_code packet_type auth_protocol server w =
     (let len = RADIUS_HEADER_SIZE + length attrs; wire = code # ident # put_u16 (word_of_nat len) @ auth @ attrs in
      if len > RADIUS_MAX_PACKET then (False, w)
      else case demo_sendto wire server w of (sent, w1) \<Rightarrow>
        if \<not> sent then (False, w1)
        else (True, client_log_radius lg ''INFO'' ''SEND_RADIUS'' ''REQUEST'' ''radius packet sent'' peer ''Client -> Server''
                packet_code packet_type ident (Some ''alice'') (Some auth_protocol) 1 0 (overlay wire stack) len w1))"

text \<open>Attributes appended to \<open>attrs\<close> of capacity \<open>cap\<close>; all of the program's fit.\<close>

definition add_attr :: "nat \<Rightarrow> byte list \<Rightarrow> byte \<Rightarrow> byte list \<Rightarrow> byte list" where
  "add_attr cap attrs type v =
     (case encode_attr (cap - length attrs) type v of None \<Rightarrow> attrs | Some bytes \<Rightarrow> attrs @ bytes)"

definition radius_request_attrs :: "bool \<Rightarrow> byte list \<Rightarrow> world \<Rightarrow> byte list \<times> world" where
  "radius_request_attrs chap_mode auth w =
     (let named = add_attr 512 [] (radius_attr RADIUS_ATTR_USER_NAME) (bytes_of_string ''alice'') in
      if chap_mode then
        (case demo_random_nonce 16 w of (chap_challenge, w1) \<Rightarrow>
          (add_attr 512
             (add_attr 512 named (radius_attr RADIUS_ATTR_CHAP_PASSWORD) (1 # chap_expected 1 chap_challenge))
             (radius_attr RADIUS_ATTR_CHAP_CHALLENGE) chap_challenge, w1))
      else (add_attr 512 named (radius_attr RADIUS_ATTR_USER_PASSWORD) (client_pap_obfuscate ''secret'' auth), w))"

text \<open>
  Whether the client goes on: the authenticator is compared only when the length of the
  response is plausible and its attributes fit into the buffer. \<open>n\<close> bytes have arrived in \<open>response\<close>.
\<close>

definition radius_verified :: "byte list \<Rightarrow> nat \<Rightarrow> byte list \<Rightarrow> bool" where
  "radius_verified response n auth =
     (let len = unat (get_u16 (drop 2 response)); attrs_len = len - RADIUS_HEADER_SIZE in
      if len \<ge> RADIUS_HEADER_SIZE \<and> n \<ge> len \<and> 4 + 16 + attrs_len \<le> 20 + 64 then
        take 16 (demo_hmac_sha1 (bytes_of_string RADIUS_SECRET)
          (response ! 0 # response ! 1 # put_u16 (word_of_nat len) @ auth @ take attrs_len (drop RADIUS_HEADER_SIZE response))) =
        take 16 (drop 4 response)
      else True)"

definition radius_client_replay ::
  "Logger \<Rightarrow> byte list \<Rightarrow> byte list \<Rightarrow> string \<Rightarrow> sockaddr_in \<Rightarrow> byte list \<Rightarrow> byte list \<Rightarrow> world \<Rightarrow> int \<times> world" where
  "radius_client_replay lg stack response peer server auth attrs w =
     (case demo_recvfrom RADIUS_MAX_PACKET
             (snd (send_radius lg stack peer 1 2 auth attrs RADIUS_PKT_ACCESS_REQUEST ''ACCESS_REQUEST'' ''PAP'' server w)) of
        (r, w1) \<Rightarrow>
      (1, demo_finish lg ''ABORT'' ''replay-attack scenario''
        (case r of
           None \<Rightarrow> w1
         | Some (_, d) \<Rightarrow>
             if d = [] then w1
             else let buf = overlay d response in
               logger_write lg (Some ((demo_init_event ''WARN'' ''REPLAY_DETECTED'' ''VERIFY''
                    ''client observed replay rejection'')\<lparr>le_peer := Some peer, le_security_replay := 1\<rparr>))
                 (client_log_radius lg ''ERROR'' ''RECV_RESPONSE_REPLAY'' ''REPLAY'' ''Access-Reject (replay)'' peer
                    ''Server -> Client'' RADIUS_PKT_ACCESS_REJECT ''ACCESS_REJECT'' (buf ! 1) (Some ''alice'') (Some ''PAP'')
                    0 1 buf (length d) w1))))"

definition radius_client_accounting ::
  "Logger \<Rightarrow> byte list \<Rightarrow> byte list \<Rightarrow> string \<Rightarrow> string \<Rightarrow> string \<Rightarrow> sockaddr_in \<Rightarrow> world \<Rightarrow> int \<times> world" where
  "radius_client_accounting lg stack response peer out_path auth_protocol server w =
     (case demo_random_nonce 16 w of (acct_auth, w1) \<Rightarrow>
      case demo_recvfrom RADIUS_MAX_PACKET
             (snd (send_radius lg stack peer 4 1 acct_auth
               (add_attr 64 [] (radius_attr RADIUS_ATTR_USER_NAME) (bytes_of_string ''alice''))
               RADIUS_PKT_ACCOUNTING_REQUEST ''ACCOUNTING_REQUEST'' auth_protocol server w1)) of
        (r, w2) \<Rightarrow>
      (0, demo_finish lg ''OK'' ''radius flow completed''
        (case r of
           None \<Rightarrow> w2
         | Some (_, d) \<Rightarrow>
             let buf = overlay d response in
             if d \<noteq> [] \<and> buf ! 0 = 5 then
               snd (fwrite_all out_path (bytes_of_string (''ACCOUNTING_RESPONSE'' @ [CHR 0x0A]))
                 (client_log_radius lg ''INFO'' ''RECV_ACCOUNTING_RESPONSE'' ''ACCOUNTING'' ''Accounting-Response received''
                    peer ''Server -> Client'' RADIUS_PKT_ACCOUNTING_RESPONSE ''ACCOUNTING_RESPONSE'' (buf ! 1)
                    (Some ''alice'') (Some auth_protocol) 1 0 buf (length d) w2))
             else w2)))"

text \<open>The address the answer came from is the one of the next request.\<close>

definition radius_client_receive ::
  "Logger \<Rightarrow> byte list \<Rightarrow> byte list \<Rightarrow> string \<Rightarrow> string \<Rightarrow> bool \<Rightarrow> byte list \<Rightarrow> byte list \<Rightarrow> world \<Rightarrow> int \<times> world" where
  "radius_client_receive lg stack junk peer out_path chap_mode auth attrs w =
     (let proto = (if chap_mode then ''CHAP'' else ''PAP'') in
      case demo_recvfrom RADIUS_MAX_PACKET w of
        (None, w1) \<Rightarrow> (1, demo_finish lg ''ABORT'' ''no response'' w1)
      | (Some (server, d), w1) \<Rightarrow>
        if d = [] then (1, demo_finish lg ''ABORT'' ''no response'' w1)
        else let response = overlay d junk; code = response ! 0;
                 resp_type = (if code = 2 then ''ACCESS_ACCEPT'' else ''ACCESS_REJECT'');
                 w2 = snd (fwrite_all out_path (bytes_of_string (resp_type @ [CHR 0x0A]))
                   (client_log_radius lg (if code = 2 then ''INFO'' else ''ERROR'') ''RECV_RESPONSE'' ''RESPONSE''
                      (if code = 2 then ''Access-Accept'' else ''Access-Reject'') peer ''Server -> Client''
                      (if code = 2 then RADIUS_PKT_ACCESS_ACCEPT else RADIUS_PKT_ACCESS_REJECT) resp_type (response ! 1)
                      (Some ''alice'') (Some proto) 1 0 response (length d) w1)) in
          if \<not> radius_verified response (length d) auth then
            (1, demo_finish lg ''ABORT'' ''authenticator invalid''
                  (logger_write lg (Some ((demo_init_event ''ERROR'' ''AUTHENTICATOR_INVALID'' ''VERIFY''
                     ''response authenticator mismatch'')\<lparr>le_peer := Some peer, le_security_mac_valid := 0\<rparr>)) w2))
          else if code = 3 then (1, demo_finish lg ''ABORT'' ''radius access rejected'' w2)
          else if getenv w ''UDP_SECURE_SCENARIO'' = Some ''replay-attack'' then
            radius_client_replay lg stack response peer server auth attrs w2
          else radius_client_accounting lg stack response peer out_path proto server w2)"

definition radius_client_session ::
  "Logger \<Rightarrow> byte list \<Rightarrow> byte list \<Rightarrow> string \<Rightarrow> sockaddr_in \<Rightarrow> string \<Rightarrow> world \<Rightarrow> int \<times> world" where
  "radius_client_session lg stack junk peer server out_path w =
     (let chap_mode = (getenv w ''UDP_SECURE_SCENARIO'' = Some ''chap-vs-pap'') in
      case demo_random_nonce 16 w of (auth, w1) \<Rightarrow>
      case radius_request_attrs chap_mode auth w1 of (attrs, w2) \<Rightarrow>
        radius_client_receive lg stack junk peer out_path chap_mode auth attrs
          (snd (send_radius lg stack peer 1 1 auth attrs RADIUS_PKT_ACCESS_REQUEST ''ACCESS_REQUEST''
             (if chap_mode then ''CHAP'' else ''PAP'') server w2)))"

text \<open>\<open>stack\<close> and \<open>junk\<close> are what the buffers for sending and for receiving hold at first.\<close>

definition radius_client_main :: "byte list \<Rightarrow> byte list \<Rightarrow> string list \<Rightarrow> world \<Rightarrow> int \<times> world" where
  "radius_client_main stack junk argv w =
     (case logger_open (Some ''client'') (Some ''logs/client.jsonl'') w of
        (rc, None) \<Rightarrow> (1, w)
      | (rc, Some lg) \<Rightarrow>
        if rc \<noteq> 0 then (1, w)
        else if length argv \<noteq> 4 \<and> length argv \<noteq> 7 then (1, demo_finish lg ''ABORT'' ''invalid arguments'' w)
        else (case parse_port (Some (argv ! 2)) of
            None \<Rightarrow> (1, demo_finish lg ''ABORT'' ''invalid port'' w)
          | Some port \<Rightarrow>
            (let out_path = (if length argv = 7 then argv ! 6 else argv ! 3);
                 peer = snprintf_s 64 (host_port (argv ! 1) port) in
             case fopen_wb out_path w of (opened, w1) \<Rightarrow>
             if \<not> opened then (1, demo_finish lg ''ABORT'' ''output open failed'' w1)
             else (case socket_call w1 of (ok, w2) \<Rightarrow>
               if \<not> ok then (1, demo_finish lg ''ABORT'' ''socket failed'' w2)
               else (case server_address (argv ! 1) port of
                   None \<Rightarrow> (1, demo_finish lg ''ABORT'' ''bad host'' w2)
                 | Some server \<Rightarrow>
                   radius_client_session lg stack junk peer server out_path
                     (logger_write lg (Some ((demo_init_event ''INFO'' ''CLIENT_START'' ''INIT'' ''radius client started'')
                        \<lparr>le_peer := Some peer, le_port := uint port\<rparr>)) w2))))))"

end
