(* ===== verification/RadiusFacts.thy ===== *)
theory RadiusFacts
  imports Radius DemoFacts
begin

text \<open>
  The RADIUS demo: the attributes of a packet as a list and their round trip, what a request
  must prove before the server accepts it, and a run of the two programs.
\<close>

lemma sha1_front16_fips: "sha1_front16 parts = take 16 (fips_sha1 (concat parts))"
  by (simp add: sha1_front16_def sha1.foldl_update sha1.ok_init flip: sha1_digest_def sha1_digest_fips)

lemma length_sha1_front16 [simp]: "length (sha1_front16 parts) = 16"
  by (simp add: sha1_front16_def sha1.foldl_update sha1.ok_init flip: sha1_digest_def)

section \<open>Attributes\<close>

text \<open>One attribute off the front of what is left, and its encoding.\<close>

definition read_attr :: "byte list \<Rightarrow> ((byte \<times> byte list) \<times> byte list) option" where
  "read_attr d = (case parse_attr d 0 of None \<Rightarrow> None | Some (type, v, off) \<Rightarrow> Some ((type, v), drop off d))"

definition attr_bytes :: "byte \<times> byte list \<Rightarrow> byte list" where
  "attr_bytes a = fst a # word_of_nat (2 + length (snd a)) # snd a"

lemma parse_attr_encoded:
  assumes "length v \<le> 253" "off = length pre"
  shows "parse_attr (pre @ attr_bytes (type, v) @ rest) off = Some (type, v, off + 2 + length v)"
proof -
  have "unat (word_of_nat (2 + length v) :: byte) = 2 + length v"
    using assms(1) by (simp only: unat_of_nat take_bit_nat_eq_self) simp
  then show ?thesis by (simp add: assms(2) parse_attr_def attr_bytes_def nth_append)
qed

interpretation attributes: prefix_codec attr_bytes read_attr "\<lambda>(type, v). length v \<le> 253"
  by unfold_locales (auto simp: read_attr_def parse_attr_encoded [where pre = "[]", simplified], simp add: attr_bytes_def)

text \<open>The attributes a loop of the server meets from an offset on.\<close>

function attr_list :: "byte list \<Rightarrow> nat \<Rightarrow> (byte \<times> byte list) list" where
  "attr_list buf off =
     (if off < length buf then
        (case parse_attr buf off of None \<Rightarrow> [] | Some (type, v, off1) \<Rightarrow> (type, v) # attr_list buf off1)
      else [])"
  by pat_completeness auto
termination
  by (relation "measure (\<lambda>(buf, off). length buf - off)") (auto simp: parse_attr_def Let_def split: if_splits)

declare attr_list.simps [simp del]

lemma access_attrs_fold: "access_attrs buf off a = fold (\<lambda>(type, v). access_attr type v) (attr_list buf off) a"
  by (induction buf off a rule: access_attrs.induct)
    (subst access_attrs.simps, subst attr_list.simps, auto split: option.splits)

lemma find_pap_find:
  "find_pap buf off = map_option snd (find (\<lambda>a. fst a = radius_attr RADIUS_ATTR_USER_PASSWORD) (attr_list buf off))"
  by (induction buf off rule: find_pap.induct)
    (subst find_pap.simps, subst attr_list.simps, auto split: option.splits)

lemma attr_list_encoded:
  "\<forall>(type, v) \<in> set as. length v \<le> 253 \<Longrightarrow> off = length pre \<Longrightarrow> attr_list (pre @ concat (map attr_bytes as)) off = as"
proof (induction as arbitrary: pre off)
  case Nil
  then show ?case by (simp add: attr_list.simps)
next
  case (Cons a as)
  obtain type v where a: "a = (type, v)" by fastforce
  have p: "parse_attr (pre @ attr_bytes a @ concat (map attr_bytes as)) off = Some (type, v, off + 2 + length v)"
    unfolding a by (rule parse_attr_encoded) (use Cons.prems a in auto)
  have "attr_list ((pre @ attr_bytes a) @ concat (map attr_bytes as)) (off + 2 + length v) = as"
    by (rule Cons.IH) (use Cons.prems a in \<open>auto simp: attr_bytes_def\<close>)
  with p show ?case
    by (subst attr_list.simps) (simp add: a Cons.prems(2) attr_bytes_def)
qed

section \<open>Who is accepted\<close>

text \<open>
  A request that proves the password, read off its attributes alone. The last user name has a
  first character. With a CHAP password among the attributes, the response of the last complete one
  is the digest of its identifier, the password and the challenge of the request; without, the first
  PAP attribute begins with the password masked by the digest of authenticator and password.
\<close>

definition user_named :: "(byte \<times> byte list) list \<Rightarrow> bool" where
  "user_named as \<longleftrightarrow> (let us = filter (\<lambda>(type, v). type = 1 \<and> v \<noteq> []) as in us \<noteq> [] \<and> hd (snd (last us)) \<noteq> 0)"

text \<open>
  The sixteen bytes of the challenge: those of the last \<open>CHAP-Challenge\<close> of at most sixteen
  bytes; a shorter one leaves the end of what was there, zeros to begin with.
\<close>

definition request_challenge :: "(byte \<times> byte list) list \<Rightarrow> byte list" where
  "request_challenge as =
     fold (\<lambda>v c. v @ drop (length v) c) (map snd (filter (\<lambda>(type, v). type = 32 \<and> length v \<le> 16) as)) (replicate 16 0)"

text \<open>Identifier and response; a CHAP password of less than seventeen bytes is taken for zeros.\<close>

definition request_answer :: "(byte \<times> byte list) list \<Rightarrow> byte list" where
  "request_answer as =
     (let rs = filter (\<lambda>(type, v). type = 3 \<and> length v \<ge> 17) as in if rs = [] then replicate 17 0 else take 17 (snd (last rs)))"

definition chap_proof :: "(byte \<times> byte list) list \<Rightarrow> bool" where
  "chap_proof as \<longleftrightarrow> drop 1 (request_answer as) =
     take 16 (fips_sha1 (hd (request_answer as) # bytes_of_string ''secret'' @ request_challenge as))"

definition pap_proof :: "byte list \<Rightarrow> byte list \<Rightarrow> bool" where
  "pap_proof auth v \<longleftrightarrow> length v \<ge> 16 \<and>
     map2 (XOR) (take 6 (fips_sha1 (auth @ bytes_of_string ''secret''))) (take 6 v) = bytes_of_string ''secret''"

definition proves_password :: "byte list \<Rightarrow> bool" where
  "proves_password d \<longleftrightarrow> length d \<ge> 20 \<and> d ! 0 = 1 \<and>
     (let as = attr_list d 20 in user_named as \<and>
       (if 3 \<in> fst ` set as then chap_proof as
        else case find (\<lambda>a. fst a = 2) as of None \<Rightarrow> False | Some a \<Rightarrow> pap_proof (take 16 (drop 4 d)) (snd a)))"

lemma c_string_empty: "c_string d = [] \<longleftrightarrow> d = [] \<or> hd d = 0"
  by (cases d) (simp_all add: c_string_def string_of_bytes_def)

text \<open>What the program's loop has collected.\<close>

lemma collected:
  fixes as
  defines "a \<equiv> fold (\<lambda>(type, v). access_attr type v) as no_attributes"
  shows "ar_username a \<noteq> [] \<longleftrightarrow> user_named as" "ar_chap_mode a \<longleftrightarrow> 3 \<in> fst ` set as"
    "ar_has_password a \<longleftrightarrow> 3 \<in> fst ` set as \<or> 2 \<in> fst ` set as"
    "ar_chap_challenge a = request_challenge as" "ar_chap_id a # ar_chap_response a = request_answer as"
  unfolding a_def
proof (induction as rule: rev_induct)
  case Nil
  {
    case 1 then show ?case by (simp add: no_attributes_def user_named_def)
  next
    case 2 then show ?case by (simp add: no_attributes_def)
  next
    case 3 then show ?case by (simp add: no_attributes_def)
  next
    case 4 then show ?case by (simp add: no_attributes_def request_challenge_def)
  next
    case 5 then show ?case by (simp add: no_attributes_def request_answer_def eval_nat_numeral)
  }
next
  case (snoc x as)
  obtain type v where x: "x = (type, v)" by fastforce
  have seventeen: "take 17 v = v ! 0 # take 16 (drop 1 v)" if "length v \<ge> 17"
    using that by (cases v) simp_all
  {
    case 1 show ?case using snoc(1)
      by (auto simp: x access_attr_def Let_def user_named_def c_string_empty)
  next
    case 2 show ?case using snoc(2) by (auto simp: x access_attr_def Let_def)
  next
    case 3 show ?case using snoc(3) by (auto simp: x access_attr_def Let_def)
  next
    case 4 show ?case using snoc(4) by (auto simp: x access_attr_def Let_def request_challenge_def overlay_def)
  next
    case 5 show ?case using snoc(5) seventeen
      by (auto simp: x access_attr_def Let_def request_answer_def)
  }
qed

lemma pap_proof_deobfuscates: "pap_deobfuscate v auth ''secret'' 64 \<noteq> None \<longleftrightarrow> pap_proof auth v"
proof -
  have six: "length ''secret'' = 6" by simp
  show ?thesis
    unfolding pap_deobfuscate_def pap_proof_def six Let_def
    by (auto simp: pap_obfuscate_def sha1_front16_fips take_map take_zip)
qed

lemma accepts_iff:
  assumes "length d \<ge> 20" "d ! 0 = 1"
  shows "radius_accepts (access_attrs d RADIUS_HEADER_SIZE no_attributes) d \<longleftrightarrow> proves_password d"
proof -
  let ?as = "attr_list d 20"
  have two: "find (\<lambda>a. fst a = 2) ?as = None \<longleftrightarrow> 2 \<notin> fst ` set ?as" by (force simp: find_None_iff)
  have none: "\<not> pap_proof auth []" for auth by (simp add: pap_proof_def)
  let ?a = "fold (\<lambda>(type, v). access_attr type v) ?as no_attributes"
  have chap: "chap_expected (ar_chap_id ?a) (request_challenge ?as) = ar_chap_response ?a \<longleftrightarrow> chap_proof ?as"
    unfolding chap_proof_def collected(5) [symmetric] by (auto simp: chap_expected_def sha1_front16_fips)
  show ?thesis
    unfolding radius_accepts_def proves_password_def access_attrs_fold radius_sizes find_pap_find Let_def collected
      chap pap_proof_deobfuscates
    using assms two none by (auto split: option.splits)
qed

lemma accepts_proves:
  assumes "radius_accepts (access_attrs d RADIUS_HEADER_SIZE no_attributes) d" "length d \<ge> 20" "d ! 0 = 1"
  shows "proves_password d"
  using assms accepts_iff by blast

lemma radius_access_accepts:
  assumes "radius_access lg stack peer addr d w = (Radius_Stop 0 seen, w1)"
  shows "radius_accepts (access_attrs d RADIUS_HEADER_SIZE no_attributes) d"
  using assms by (auto simp: radius_access_def Let_def split: if_splits prod.splits)

lemma radius_packet_accepts:
  assumes "radius_packet lg stack addr d last_auth w = (Radius_Stop 0 seen, w1)"
  shows "proves_password d"
proof -
  have "radius_access lg stack (peer_to_string addr 64) addr d w = (Radius_Stop 0 seen, w1)" "d ! 0 = 1" "length d \<ge> 20"
    using assms by (auto simp: radius_packet_def radius_sizes Let_def split: if_splits)
  with accepts_proves radius_access_accepts show ?thesis by blast
qed

lemma demo_recvfrom_source:
  assumes "demo_recvfrom n w = (Some (addr, d), w1)"
  shows "\<exists>d0. SelReady (RecvData addr d0) \<in> set (w_net w) \<and> d = take n d0" "set (w_net w1) \<subseteq> set (w_net w)"
  using assms by (auto simp: demo_recvfrom_def split: list.splits select_result.splits recv_result.splits)

lemma radius_server_loop_accepts:
  "radius_server_loop lg stack last_auth w = (0, seen, w1) \<Longrightarrow>
   \<exists>addr d. SelReady (RecvData addr d) \<in> set (w_net w) \<and> proves_password (take RADIUS_MAX_PACKET d)"
proof (induction lg stack last_auth w rule: radius_server_loop.induct)
  case (1 lg stack last_auth w)
  obtain w0 where w0: "read_stop w = (False, w0)"
    using "1.prems" by (subst (asm) radius_server_loop.simps) (auto split: prod.splits if_splits)
  then have net: "w_net w0 = w_net w" by (auto simp: read_stop_def split: option.splits nat.splits)
  obtain addr d wa where recv: "demo_recvfrom RADIUS_MAX_PACKET w0 = (Some (addr, d), wa)" and d: "d \<noteq> []"
    using "1.prems" by (subst (asm) radius_server_loop.simps) (auto simp: w0 split: prod.splits if_splits option.splits)
  note src = demo_recvfrom_source [OF recv, unfolded net]
  obtain step wb where step: "radius_packet lg stack addr d last_auth wa = (step, wb)" by fastforce
  show ?case
  proof (cases step)
    case (Radius_Stop rc s)
    with "1.prems" have "rc = 0" by (subst (asm) radius_server_loop.simps) (simp add: w0 recv d step)
    with radius_packet_accepts step Radius_Stop src(1) show ?thesis by blast
  next
    case (Radius_Next auth)
    with "1.prems" have "radius_server_loop lg stack auth wb = (0, seen, w1)"
      by (subst (asm) radius_server_loop.simps) (simp add: w0 recv d step)
    from "1.IH" [OF w0 [symmetric] _ recv [symmetric] refl refl d step [symmetric] Radius_Next this]
      radius_packet_net [OF step [unfolded Radius_Next]] src(2)
    show ?thesis by auto
  qed
qed

text \<open>
  C33. The RADIUS server ends with OK only after a request that proves the password, whatever
  else arrives and whatever fails: it names a user, and either its last CHAP response is the SHA-1 of
  the identifier, the password and the challenge the same request carries, or it has no
  CHAP password and its first PAP attribute is the password masked with the SHA-1 of authenticator
  and password. A CHAP password of less than seventeen bytes counts as identifier and response
  zero, as in the code.
\<close>

theorem radius_needs_password:
  assumes "fst (radius_server_session lg stack w) = 0"
  shows "\<exists>addr d. SelReady (RecvData addr d) \<in> set (w_net w) \<and> proves_password (take RADIUS_MAX_PACKET d)"
proof -
  obtain rc seen w1 where run: "radius_server_loop lg stack (replicate 16 0) w = (rc, seen, w1)" using prod_cases3 by blast
  with assms have "rc = 0" by (simp add: radius_server_session_def)
  with radius_server_loop_accepts run show ?thesis by blast
qed

section \<open>A run of the two programs\<close>

text \<open>The attributes of the client's request, and the request.\<close>

definition request_attributes :: "bool \<Rightarrow> byte list \<Rightarrow> byte list \<Rightarrow> (byte \<times> byte list) list" where
  "request_attributes chap auth challenge =
     (1, bytes_of_string ''alice'') #
     (if chap then [(3, 1 # chap_expected 1 challenge), (32, challenge)] else [(2, client_pap_obfuscate ''secret'' auth)])"

definition radius_wire :: "byte \<Rightarrow> byte \<Rightarrow> byte list \<Rightarrow> (byte \<times> byte list) list \<Rightarrow> byte list" where
  "radius_wire code ident auth as =
     (let attrs = concat (map attr_bytes as) in code # ident # put_u16 (word_of_nat (20 + length attrs)) @ auth @ attrs)"

lemma length_client_pap [simp]: "length (client_pap_obfuscate ''secret'' auth) = 16"
  by (simp add: client_pap_obfuscate_def Let_def)

lemma length_chap_expected [simp]: "length (chap_expected ident challenge) = 16"
  by (simp add: chap_expected_def)

lemma add_attr_fits:
  "length attrs + 2 + length v \<le> cap \<Longrightarrow> add_attr cap attrs type v = attrs @ attr_bytes (type, v)"
  by (simp add: add_attr_def encode_attr_def attr_bytes_def)

lemma length_attr_bytes [simp]: "length (attr_bytes a) = 2 + length (snd a)"
  by (simp add: attr_bytes_def)

lemma length_nonce [simp]: "length (fst (demo_random_nonce n w)) = n"
  by (auto simp: demo_random_nonce_def min_def split: list.split)

lemma radius_request_attrs_eq:
  "\<exists>challenge w1. length challenge = 16 \<and> radius_request_attrs chap auth w =
     (concat (map attr_bytes (request_attributes chap auth challenge)), w1) \<and>
     (w1 = w \<or> w1 = snd (demo_random_nonce 16 w))"
proof (cases chap)
  case True
  obtain c w1 where c: "demo_random_nonce 16 w = (c, w1)" by fastforce
  with length_nonce [of 16 w] have "length c = 16" by simp
  with True c show ?thesis
    by (intro exI [of _ c] exI [of _ w1]) (simp add: radius_request_attrs_def request_attributes_def add_attr_fits)
next
  case False
  then show ?thesis
    by (intro exI [of _ "replicate 16 0"] exI [of _ w]) (simp add: radius_request_attrs_def request_attributes_def add_attr_fits)
qed

lemma request_fits: "length challenge = 16 \<Longrightarrow> \<forall>(type, v) \<in> set (request_attributes chap auth challenge). length v \<le> 253"
  by (auto simp: request_attributes_def)

lemma radius_wire_parts:
  assumes "length auth = 16" "length (concat (map attr_bytes as)) \<le> 4000"
  shows "radius_wire code ident auth as ! 0 = code" "radius_wire code ident auth as ! 1 = ident"
    "take 16 (drop 4 (radius_wire code ident auth as)) = auth"
    "unat (get_u16 (drop 2 (radius_wire code ident auth as))) = length (radius_wire code ident auth as)"
    "20 \<le> length (radius_wire code ident auth as)" "length (radius_wire code ident auth as) \<le> 4096"
proof -
  have "unat (word_of_nat (20 + length (concat (map attr_bytes as))) :: u16) = 20 + length (concat (map attr_bytes as))"
    using assms(2) by (simp only: unat_of_nat take_bit_nat_eq_self) simp
  then show "unat (get_u16 (drop 2 (radius_wire code ident auth as))) = length (radius_wire code ident auth as)"
    by (simp only: radius_wire_def Let_def) (simp add: get_u16_prefix assms(1))
qed (use assms in \<open>simp_all add: radius_wire_def Let_def\<close>)

lemma attr_list_wire:
  assumes "\<forall>(type, v) \<in> set as. length v \<le> 253" "length auth = 16"
  shows "attr_list (radius_wire code ident auth as) 20 = as"
  using attr_list_encoded [OF assms(1), of 20 "code # ident # put_u16 (word_of_nat (20 + length (concat (map attr_bytes as)))) @ auth"]
    assms(2) by (simp add: radius_wire_def Let_def)

lemma xor_unmask: "length a = length b \<Longrightarrow> map2 (XOR) a (map2 (XOR) a b) = (b :: byte list)"
  by (induction a b rule: list_induct2) (simp_all flip: xor.assoc)

text \<open>Either proof of the client is accepted.\<close>

lemma request_accepted:
  fixes ident :: byte and chap :: bool
  assumes "length auth = 16" "length challenge = 16"
  defines "d \<equiv> radius_wire 1 ident auth (request_attributes chap auth challenge)"
  shows "radius_accepts (access_attrs d RADIUS_HEADER_SIZE no_attributes) d"
proof -
  note as = attr_list_wire [OF request_fits [OF assms(2)] assms(1), of 1 ident chap auth, folded d_def]
  have auth: "take 16 (drop 4 d) = auth" unfolding d_def
    by (rule radius_wire_parts) (use assms in \<open>simp_all add: request_attributes_def\<close>)
  have name: "c_string (bytes_of_string ''alice'') = ''alice''" by (rule c_string_text) (simp add: nul_free_def)
  show ?thesis
  proof (cases chap)
    case True
    then show ?thesis using assms(2) name
      by (simp add: radius_accepts_def access_attrs_fold as radius_sizes request_attributes_def access_attr_def Let_def
          overlay_def no_attributes_def)
  next
    case False
    let ?digest = "sha1_front16 [auth, bytes_of_string ''secret'']"
    have p: "length (bytes_of_string ''secret'') = 6" "take 16 (bytes_of_string ''secret'') = bytes_of_string ''secret''"
      by simp_all
    have "take 6 (map2 (XOR) ?digest (client_pap_obfuscate ''secret'' auth)) =
        map2 (XOR) (take 6 ?digest) (map2 (XOR) (take 6 ?digest) (bytes_of_string ''secret''))"
      unfolding client_pap_obfuscate_def Let_def p by (simp add: take_map take_zip)
    also have "\<dots> = bytes_of_string ''secret''" by (rule xor_unmask) simp
    finally have "pap_deobfuscate (client_pap_obfuscate ''secret'' auth) auth ''secret'' 64 \<noteq> None"
      by (simp add: pap_deobfuscate_def pap_obfuscate_def eval_nat_numeral)
    with False name show ?thesis
      by (simp add: radius_accepts_def access_attrs_fold find_pap_find as auth radius_sizes request_attributes_def
          access_attr_def Let_def no_attributes_def)
  qed
qed

text \<open>What a step of either program has sent beyond \<open>w\<close>.\<close>

definition grows :: "world \<Rightarrow> world \<Rightarrow> bool" where
  "grows w w1 \<longleftrightarrow> (\<exists>more. w_sent w1 = w_sent w @ more)"

lemma grows_same: "w_sent w1 = w_sent w \<Longrightarrow> grows w w1"
  by (simp add: grows_def)

lemma grows_trans: "grows w w1 \<Longrightarrow> grows w1 w2 \<Longrightarrow> grows w w2"
  by (auto simp: grows_def)

lemma grows_sendto: "grows w (snd (demo_sendto d peer w))"
  using demo_sendto_world(1) [OF prod.collapse [symmetric], of d peer w] by (auto simp: grows_def)

lemma grows_cong: "w_sent w2 = w_sent w1 \<Longrightarrow> grows w w2 = grows w w1"
  by (simp add: grows_def)

lemma client_log_keeps [world_simps]:
  "w_sent (client_log_radius lg l ev st m p dir pc pt ident u a mac rep buf n w) = w_sent w"
  "w_net (client_log_radius lg l ev st m p dir pc pt ident u a mac rep buf n w) = w_net w"
  "w_env (client_log_radius lg l ev st m p dir pc pt ident u a mac rep buf n w) = w_env w"
  "w_fs (client_log_radius lg l ev st m p dir pc pt ident u a mac rep buf n w) = w_fs w"
  "w_writefault (client_log_radius lg l ev st m p dir pc pt ident u a mac rep buf n w) = w_writefault w"
  by (simp_all add: client_log_radius_def world_simps)

lemma log_keeps [world_simps]:
  "w_sent (log_radius lg l ev st m p dir pc pt ident u a mac rep wire w) = w_sent w"
  "w_env (log_radius lg l ev st m p dir pc pt ident u a mac rep wire w) = w_env w"
  "w_stop (log_radius lg l ev st m p dir pc pt ident u a mac rep wire w) = w_stop w"
  "w_allocfault (log_radius lg l ev st m p dir pc pt ident u a mac rep wire w) = w_allocfault w"
  by (simp_all add: log_radius_def world_simps)

lemma grows_send_radius: "grows w (snd (send_radius lg stack p code ident auth attrs pc pt a srv w))"
  using grows_sendto [of w "code # ident # put_u16 (word_of_nat (RADIUS_HEADER_SIZE + length attrs)) @ auth @ attrs" srv]
  by (auto simp: send_radius_def Let_def grows_def world_simps split: prod.splits)

lemma recv_sent: "w_sent (snd (demo_recvfrom n w)) = w_sent w"
  using demo_recvfrom_world(1) [OF prod.collapse [symmetric]] .

lemma grows_client_accounting: "grows w (snd (radius_client_accounting lg stack resp p out a srv w))"
proof -
  obtain auth w1 where n: "demo_random_nonce 16 w = (auth, w1)" by fastforce
  then have s: "w_sent w1 = w_sent w" by (auto simp: demo_random_nonce_def split: list.splits)
  let ?send = "send_radius lg stack p 4 1 auth (add_attr 64 [] (radius_attr RADIUS_ATTR_USER_NAME) (bytes_of_string ''alice''))
     RADIUS_PKT_ACCOUNTING_REQUEST ''ACCOUNTING_REQUEST'' a srv w1"
  obtain r w2 where r: "demo_recvfrom RADIUS_MAX_PACKET (snd ?send) = (r, w2)" by fastforce
  have "grows w (snd ?send)" using grows_send_radius [of w1] s by (simp add: grows_def)
  moreover have "w_sent w2 = w_sent (snd ?send)" using recv_sent [of RADIUS_MAX_PACKET "snd ?send"] r by simp
  ultimately have "grows w w2" by (simp add: grows_def)
  then show ?thesis using r
    by (auto simp: radius_client_accounting_def n grows_def Let_def world_simps split: option.split)
qed

lemma grows_client_replay: "grows w (snd (radius_client_replay lg stack resp p srv auth attrs w))"
proof -
  let ?send = "send_radius lg stack p 1 2 auth attrs RADIUS_PKT_ACCESS_REQUEST ''ACCESS_REQUEST'' ''PAP'' srv w"
  obtain r w2 where r: "demo_recvfrom RADIUS_MAX_PACKET (snd ?send) = (r, w2)" by fastforce
  have "w_sent w2 = w_sent (snd ?send)" using recv_sent [of RADIUS_MAX_PACKET "snd ?send"] r by simp
  then have "grows w w2" using grows_send_radius [of w] by (simp add: grows_def)
  then show ?thesis using r
    by (auto simp: radius_client_replay_def grows_def Let_def world_simps split: option.split)
qed

lemma grows_client_receive: "grows w (snd (radius_client_receive lg stack junk p out chap auth attrs w))"
proof -
  obtain r w1 where r: "demo_recvfrom RADIUS_MAX_PACKET w = (r, w1)" by fastforce
  then have s: "w_sent w1 = w_sent w" using recv_sent [of RADIUS_MAX_PACKET w] by simp
  have keep: "grows w (snd f)" if "grows w2 (snd f)" "w_sent w2 = w_sent w" for w2 and f :: "int \<times> world"
    using that by (simp add: grows_def)
  show ?thesis
    by (simp add: radius_client_receive_def r Let_def split: option.split)
      (auto intro!: grows_same keep [OF grows_client_accounting] keep [OF grows_client_replay] simp: world_simps s)
qed

lemma grows_log_sendto: "grows w (log_radius lg l ev st m p dir pc pt ident u a mac rep wire (snd (demo_sendto d addr
    (log_radius lg' l' ev' st' m' p' dir' pc' pt' ident' u' a' mac' rep' wire' w))))"
  using grows_sendto [of "log_radius lg' l' ev' st' m' p' dir' pc' pt' ident' u' a' mac' rep' wire' w" d addr]
  by (simp add: grows_def world_simps)

lemma read_stop_keeps: "w_env (snd (read_stop w)) = w_env w" "w_sent (snd (read_stop w)) = w_sent w"
  by (simp_all add: read_stop_def split: option.split nat.split)

lemma radius_accounting_ok:
  "radius_accounting lg stack p user proto w = (rc, seen, w1) \<Longrightarrow>
   getenv w ''UDP_SECURE_SCENARIO'' \<noteq> Some ''replay-attack'' \<Longrightarrow> rc = 0 \<and> grows w w1"
proof (induction lg stack p user proto w rule: radius_accounting.induct)
  case (1 lg stack p user proto w)
  obtain stop w0 where w0: "read_stop w = (stop, w0)" by fastforce
  obtain r wa where recv: "demo_recvfrom RADIUS_MAX_PACKET w0 = (r, wa)" by fastforce
  have keep: "w_sent w0 = w_sent w" "w_sent wa = w_sent w" "getenv wa v = getenv w v" for v
    using read_stop_keeps [of w] w0 demo_recvfrom_world [OF recv] by (simp_all add: getenv_def)
  have same: "grows w wb" if "grows wa wb" for wb using that keep by (simp add: grows_def)
  note unf = radius_accounting.simps [of lg stack p user proto w]
  consider "stop" | "\<not> stop" "r = None" | addr where "\<not> stop" "r = Some (addr, [])"
    | addr d where "\<not> stop" "r = Some (addr, d)" "d \<noteq> []" by (cases r) auto
  then show ?case
  proof cases
    case 4
    show ?thesis
    proof (cases "overlay d stack ! 0 = 4")
      case True
      then show ?thesis using "1.prems"(1) 4 unfolding unf
        by (auto simp: w0 recv Let_def intro!: same grows_log_sendto)
    next
      case False
      then have "radius_accounting lg (overlay d stack) p user proto wa = (rc, seen, w1)"
        using "1.prems" 4 unfolding unf by (simp add: w0 recv Let_def keep)
      from "1.IH" [OF w0 [symmetric] _ recv [symmetric] _ refl _ refl False _ this] 4 "1.prems"(2) same
      show ?thesis by (simp add: keep)
    qed
  qed (use "1.prems"(1) keep in \<open>auto simp: unf w0 recv intro!: grows_same\<close>)
qed

definition response_auth :: "byte \<Rightarrow> byte \<Rightarrow> byte list \<Rightarrow> byte list" where
  "response_auth code ident auth =
     take 16 (demo_hmac_sha1 (bytes_of_string RADIUS_SECRET) (code # ident # put_u16 20 @ auth))"

lemma radius_access_answers:
  assumes "radius_access lg stack p asker q w = (step, w1)"
    and acc: "radius_accepts (access_attrs q RADIUS_HEADER_SIZE no_attributes) q"
    and calm: "w_allocfault w = []"
    and scen: "getenv w ''UDP_SECURE_SCENARIO'' \<notin> {Some ''replay-attack'', Some ''shared-secret-leak''}"
    and sent: "w_sent w1 = w_sent w @ x # others"
  shows "(\<exists>seen. step = Radius_Stop 0 seen) \<and>
    x = (asker, 2 # q ! 1 # put_u16 20 @ response_auth 2 (q ! 1) (take 16 (drop 4 q)))"
proof -
  let ?a = "access_attrs q RADIUS_HEADER_SIZE no_attributes"
  define wl where "wl = radius_pap_warning lg p (ar_chap_mode ?a)
     (log_radius lg ''INFO'' ''RECV_ACCESS_REQUEST'' ''AUTH'' ''Access-Request received'' p ''Client -> Server''
        RADIUS_PKT_ACCESS_REQUEST ''ACCESS_REQUEST'' (q ! 1) (Some (ar_username ?a)) (Some (ar_protocol ?a)) 1 0 q w)"
  have wl: "w_sent wl = w_sent w" "w_allocfault wl = []" "getenv wl v = getenv w v" for v
    using calm by (simp_all add: wl_def radius_pap_warning_def world_simps getenv_def)
  have secret: "radius_secret_check lg p (log_radius lg l ev st m p dir pc pt ident u a mac rep wire w) =
      (True, log_radius lg l ev st m p dir pc pt ident u a mac rep wire w)" for l ev st m dir pc pt ident u a mac rep wire
    using scen by (simp add: radius_secret_check_def getenv_def world_simps)
  have auth: "compute_response_authenticator 2 (q ! 1) (word_of_nat RADIUS_HEADER_SIZE) (take 16 (drop 4 q)) [] wl =
      (response_auth 2 (q ! 1) (take 16 (drop 4 q)), wl)"
    using wl(2) by (simp add: compute_response_authenticator_def malloc_ok_def response_auth_def radius_sizes)
  let ?resp = "radius_response 2 (q ! 1) (response_auth 2 (q ! 1) (take 16 (drop 4 q)))"
  obtain ok w3 where s: "demo_sendto ?resp asker wl = (ok, w3)" by fastforce
  note sw = demo_sendto_world [OF s]
  have accepted: "radius_accepts ?a q = True" using acc by simp
  note run = assms(1) [unfolded radius_access_def Let_def secret prod.case accepted simp_thms if_True, folded wl_def,
    unfolded auth prod.case s]
  have "ok"
  proof (rule ccontr)
    assume "\<not> ok"
    with run sw(1) wl(1) sent show False by (auto simp: world_simps)
  qed
  define w4 where "w4 = log_radius lg ''INFO'' ''SEND_ACCESS_ACCEPT'' ''RESPONSE'' ''Access-Accept'' p ''Server -> Client''
     RADIUS_PKT_ACCESS_ACCEPT ''ACCESS_ACCEPT'' (q ! 1) (Some (ar_username ?a)) (Some (ar_protocol ?a)) 1 0 ?resp w3"
  obtain rc seen w5 where ra: "radius_accounting lg stack p (ar_username ?a) (ar_protocol ?a) w4 = (rc, seen, w5)"
    using prod_cases3 by blast
  have "getenv w4 ''UDP_SECURE_SCENARIO'' \<noteq> Some ''replay-attack''"
    using scen by (simp add: w4_def getenv_def world_simps sw(4)) (simp add: wl(3) [unfolded getenv_def])
  from radius_accounting_ok [OF ra this] have "rc = 0" "grows w4 w5" by auto
  moreover have "w_sent w4 = w_sent w @ [(asker, ?resp)]" using \<open>ok\<close> by (simp add: w4_def world_simps sw(1) wl(1))
  moreover have "step = Radius_Stop rc seen" "w1 = w5" using run \<open>ok\<close> ra by (simp_all add: w4_def)
  ultimately show ?thesis using sent by (auto simp: grows_def radius_response_def radius_sizes)
qed

lemma radius_server_answers:
  assumes run: "radius_server_session lg stack w = (rs, w')"
    and net: "w_net w = SelReady (RecvData asker q) # later"
    and q: "q = radius_wire 1 ident auth (request_attributes chap auth challenge)" "length auth = 16" "length challenge = 16"
    and calm: "w_stop w = None" "w_allocfault w = []"
    and scen: "getenv w ''UDP_SECURE_SCENARIO'' \<notin> {Some ''replay-attack'', Some ''shared-secret-leak''}"
    and sent: "w_sent w' = w_sent w @ x # others"
  shows "rs = 0 \<and> x = (asker, 2 # ident # put_u16 20 @ response_auth 2 ident auth)"
proof -
  have small: "length (concat (map attr_bytes (request_attributes chap auth challenge))) \<le> 4000"
    using q(3) by (simp add: request_attributes_def)
  note parts = radius_wire_parts [OF q(2) small, of 1 ident, folded q(1)]
  have "q \<noteq> []" using parts(5) by auto
  let ?w = "w\<lparr>w_net := later\<rparr>"
  obtain step w1 where acc: "radius_access lg stack (peer_to_string asker 64) asker q ?w = (step, w1)" by fastforce
  have one: "radius_packet lg stack asker q (replicate 16 0) ?w = (step, w1)"
    using parts acc by (simp add: radius_packet_def radius_sizes)
  have stop: "read_stop w = (False, w)" using calm(1) by (simp add: read_stop_def)
  have recv: "demo_recvfrom RADIUS_MAX_PACKET w = (Some (asker, q), ?w)"
    using parts(6) by (simp add: demo_recvfrom_arrived [OF net] radius_sizes)
  have loop: "radius_server_loop lg stack (replicate 16 0) w =
      (case step of Radius_Stop rc seen \<Rightarrow> (rc, seen, w1) | Radius_Next a \<Rightarrow> radius_server_loop lg stack a w1)"
    by (subst radius_server_loop.simps) (simp add: stop recv \<open>q \<noteq> []\<close> one split: radius_step.split)
  have ok: "radius_accepts (access_attrs q RADIUS_HEADER_SIZE no_attributes) q"
    unfolding q(1) by (rule request_accepted [OF q(2,3)])
  show ?thesis
  proof (cases step)
    case (Radius_Stop rc seen)
    with run loop have w': "w_sent w' = w_sent w1" "rs = rc"
      by (auto simp: radius_server_session_def world_simps split: if_splits)
    from radius_access_answers [OF acc ok, of x others] calm scen sent w' Radius_Stop parts show ?thesis
      by (simp add: getenv_def)
  next
    case (Radius_Next a)
    with acc ok calm scen show ?thesis
      by (auto simp: radius_access_def radius_secret_check_def getenv_def world_simps Let_def split: prod.splits if_splits)
  qed
qed

lemma send_radius_sends:
  assumes "w_sendfault w = []" "length attrs \<le> 4000"
  shows "w_sent (snd (send_radius lg stack p code ident auth attrs pc pt a srv w)) =
      w_sent w @ [(srv, code # ident # put_u16 (word_of_nat (20 + length attrs)) @ auth @ attrs)]"
    "w_net (snd (send_radius lg stack p code ident auth attrs pc pt a srv w)) = w_net w"
    "w_env (snd (send_radius lg stack p code ident auth attrs pc pt a srv w)) = w_env w"
    "w_fs (snd (send_radius lg stack p code ident auth attrs pc pt a srv w)) = w_fs w"
    "w_writefault (snd (send_radius lg stack p code ident auth attrs pc pt a srv w)) = w_writefault w"
  using assms by (simp_all add: send_radius_def radius_sizes Let_def demo_sendto_works world_simps)

lemma send_radius_keeps:
  assumes "send_radius lg stack p code ident auth attrs pc pt a srv w = (ok, w1)"
  shows "w_fs w1 = w_fs w" "w_writefault w1 = w_writefault w"
proof -
  obtain sent w0 where s: "demo_sendto (code # ident # put_u16 (word_of_nat (RADIUS_HEADER_SIZE + length attrs)) @ auth @ attrs) srv w
     = (sent, w0)" by fastforce
  from demo_sendto_world [OF s] assms show "w_fs w1 = w_fs w" "w_writefault w1 = w_writefault w"
    by (auto simp: send_radius_def Let_def s world_simps simp del: of_nat_add split: if_splits)
qed

lemma nonce_keeps:
  "w_sent (snd (demo_random_nonce n w)) = w_sent w" "w_net (snd (demo_random_nonce n w)) = w_net w"
  "w_env (snd (demo_random_nonce n w)) = w_env w" "w_fs (snd (demo_random_nonce n w)) = w_fs w"
  "w_writefault (snd (demo_random_nonce n w)) = w_writefault w" "w_sendfault (snd (demo_random_nonce n w)) = w_sendfault w"
  by (simp_all add: demo_random_nonce_def split: list.split)

lemma client_accounting_ok:
  assumes "w_writefault w = []"
  shows "fst (radius_client_accounting lg stack resp p out a srv w) = 0 \<and>
    (\<exists>text. file_data (snd (radius_client_accounting lg stack resp p out a srv w)) out = file_data w out @ text)"
proof -
  obtain auth w1 where n: "demo_random_nonce 16 w = (auth, w1)" by fastforce
  with nonce_keeps [of 16 w] have k1: "w_fs w1 = w_fs w" "w_writefault w1 = []" using assms by simp_all
  obtain ok w2 where s: "send_radius lg stack p 4 1 auth (add_attr 64 [] (radius_attr RADIUS_ATTR_USER_NAME) (bytes_of_string ''alice''))
     RADIUS_PKT_ACCOUNTING_REQUEST ''ACCOUNTING_REQUEST'' a srv w1 = (ok, w2)" by fastforce
  then have k2: "w_fs w2 = w_fs w" "w_writefault w2 = []"
    using k1 send_radius_keeps by metis+
  obtain r w3 where r: "demo_recvfrom RADIUS_MAX_PACKET w2 = (r, w3)" by fastforce
  from demo_recvfrom_world [OF r] k2 have k3: "w_fs w3 = w_fs w" "w_writefault w3 = []" by simp_all
  show ?thesis
    unfolding radius_client_accounting_def n prod.case s snd_conv r Let_def
    using k3 by (auto simp: world_simps file_data_def [of w] file_data_def [of w3] file_data_def [of "client_log_radius _ _ _ _ _ _ _ _ _ _ _ _ _ _ _ _ _"]
        fwrite_all_appends split: option.split)
qed

lemma client_receives_accept:
  assumes net: "w_net w = SelReady (RecvData source (2 # ident # put_u16 20 @ response_auth 2 ident auth)) # rest"
    and "length auth = 16" "w_writefault w = []" "getenv w ''UDP_SECURE_SCENARIO'' \<noteq> Some ''replay-attack''"
  shows "fst (radius_client_receive lg stack junk p out chap auth attrs w) = 0 \<and>
    (\<exists>text. file_data (snd (radius_client_receive lg stack junk p out chap auth attrs w)) out =
       file_data w out @ bytes_of_string (''ACCESS_ACCEPT'' @ [CHR 0x0A]) @ text)"
proof -
  let ?r = "2 # ident # put_u16 20 @ response_auth 2 ident auth"
  have len: "length (response_auth 2 ident auth) = 16"
    by (simp add: response_auth_def)
  have "get_u16 (drop 2 (overlay ?r junk)) = 20" by (simp add: overlay_def get_u16_prefix)
  then have good: "radius_verified (overlay ?r junk) (length ?r) auth"
    using len by (simp add: radius_verified_def radius_sizes overlay_def response_auth_def)
  have recv: "demo_recvfrom RADIUS_MAX_PACKET w = (Some (source, ?r), w\<lparr>w_net := rest\<rparr>)"
    using len by (simp add: demo_recvfrom_arrived [OF net] radius_sizes)
  define w2 where "w2 = snd (fwrite_all out (bytes_of_string (''ACCESS_ACCEPT'' @ [CHR 0x0A]))
      (client_log_radius lg ''INFO'' ''RECV_RESPONSE'' ''RESPONSE'' ''Access-Accept'' p ''Server -> Client''
         RADIUS_PKT_ACCESS_ACCEPT ''ACCESS_ACCEPT'' (overlay ?r junk ! 1) (Some ''alice'')
         (Some (if chap then ''CHAP'' else ''PAP'')) 1 0 (overlay ?r junk) (length ?r) (w\<lparr>w_net := rest\<rparr>)))"
  have run: "radius_client_receive lg stack junk p out chap auth attrs w =
      radius_client_accounting lg stack (overlay ?r junk) p out (if chap then ''CHAP'' else ''PAP'') source w2"
  proof -
    have "overlay ?r junk ! 0 = 2" by (simp add: overlay_def)
    then show ?thesis
      unfolding radius_client_receive_def recv Let_def w2_def using good assms(4) by simp
  qed
  have "w_writefault w2 = []" using assms(3) by (simp add: w2_def fwrite_all_def world_simps)
  moreover have "file_data w2 out = file_data w out @ bytes_of_string (''ACCESS_ACCEPT'' @ [CHR 0x0A])"
    unfolding w2_def using assms(3) by (subst fwrite_all_appends) (simp_all add: world_simps file_data_def)
  ultimately show ?thesis
    unfolding run using client_accounting_ok [of w2 lg stack "overlay ?r junk" p out "if chap then ''CHAP'' else ''PAP''" source]
    by (auto simp: eval_nat_numeral)
qed

text \<open>
  C34. The two RADIUS programs over an arbitrary network that delivers to the server the
  client's request and to the client the server's first answer, in any scenario but the replay
  and the leaked secret (which are to end with ABORT), when no signal stops the server, it has the
  memory for its authenticator and the client's sends and writes do not fail: with PAP and with
  CHAP, both end with OK, and the client writes that it was accepted.
\<close>

theorem radius_run:
  assumes client: "radius_client_session lgc stack junk p server out wc = (rc, wc')"
    and srv: "radius_server_session lgs stack' ws = (rs, ws')"
    and asked: "w_net ws = SelReady (RecvData asker q) # later" "w_sent wc' = w_sent wc @ (server, q) # others"
    and answered: "w_net wc = SelReady (RecvData source r) # rest" "w_sent ws' = w_sent ws @ (asker, r) # others'"
    and scen: "getenv ws ''UDP_SECURE_SCENARIO'' \<notin> {Some ''replay-attack'', Some ''shared-secret-leak''}"
      "getenv wc ''UDP_SECURE_SCENARIO'' = getenv ws ''UDP_SECURE_SCENARIO''"
    and calm: "w_stop ws = None" "w_allocfault ws = []" "w_sendfault wc = []" "w_writefault wc = []"
  shows "rc = 0 \<and> rs = 0 \<and>
    (\<exists>text. file_data wc' out = file_data wc out @ bytes_of_string (''ACCESS_ACCEPT'' @ [CHR 0x0A]) @ text)"
proof -
  let ?chap = "getenv wc ''UDP_SECURE_SCENARIO'' = Some ''chap-vs-pap''"
  obtain auth w1 where n: "demo_random_nonce 16 wc = (auth, w1)" by fastforce
  have auth: "length auth = 16" using length_nonce [of 16 wc] n by simp
  obtain challenge w2 where a: "length challenge = 16"
    "radius_request_attrs ?chap auth w1 = (concat (map attr_bytes (request_attributes ?chap auth challenge)), w2)"
    "w2 = w1 \<or> w2 = snd (demo_random_nonce 16 w1)"
    using radius_request_attrs_eq [of ?chap auth w1] by blast
  let ?as = "request_attributes ?chap auth challenge"
  define w3 where "w3 = snd (send_radius lgc stack p 1 1 auth (concat (map attr_bytes ?as)) RADIUS_PKT_ACCESS_REQUEST
      ''ACCESS_REQUEST'' (if ?chap then ''CHAP'' else ''PAP'') server w2)"
  have w2: "w_sent w2 = w_sent wc" "w_net w2 = w_net wc" "w_env w2 = w_env wc" "w_fs w2 = w_fs wc"
    "w_writefault w2 = []" "w_sendfault w2 = []"
    using a(3) nonce_keeps [of 16 wc] nonce_keeps [of 16 w1] n calm(3,4) by auto
  have small: "length (concat (map attr_bytes ?as)) \<le> 4000" using a(1) by (simp add: request_attributes_def)
  note sends = send_radius_sends [OF w2(6) small, of lgc stack p 1 1 auth RADIUS_PKT_ACCESS_REQUEST "''ACCESS_REQUEST''"
      "if ?chap then ''CHAP'' else ''PAP''" server, folded w3_def]
  have run: "radius_client_receive lgc stack junk p out ?chap auth (concat (map attr_bytes ?as)) w3 = (rc, wc')"
    using client by (simp add: radius_client_session_def n a(2) w3_def Let_def)
  have "grows w3 wc'" using grows_client_receive [of w3] run by (metis snd_conv)
  then have q: "q = radius_wire 1 1 auth ?as"
    using asked(2) sends(1) w2(1) by (auto simp: grows_def radius_wire_def Let_def)
  from radius_server_answers [OF srv asked(1) q auth a(1) calm(1,2) scen(1) answered(2)]
  have rs: "rs = 0" "r = 2 # 1 # put_u16 20 @ response_auth 2 1 auth" by auto
  have "w_net w3 = SelReady (RecvData source (2 # 1 # put_u16 20 @ response_auth 2 1 auth)) # rest"
    using answered(1) sends(2) w2(2) by (simp add: rs(2))
  note got = client_receives_accept [OF this auth, of lgc stack junk p out ?chap "concat (map attr_bytes ?as)", unfolded run]
  have "w_writefault w3 = []" "getenv w3 ''UDP_SECURE_SCENARIO'' \<noteq> Some ''replay-attack''" "file_data w3 out = file_data wc out"
    using scen sends w2 by (simp_all add: getenv_def file_data_def)
  with got rs(1) show ?thesis by simp
qed

text \<open>Two programs next to each other, with random generators that yield zeros.\<close>

definition sample_access :: "byte list" where
  "sample_access = radius_wire 1 1 (replicate 16 0) (request_attributes False (replicate 16 0) (replicate 16 0))"

definition sample_accept :: "byte list" where
  "sample_accept = 2 # 1 # put_u16 20 @ response_auth 2 1 (replicate 16 0)"

definition radius_world :: "sockaddr_in \<Rightarrow> byte list \<Rightarrow> world" where
  "radius_world peer d = quiet_world\<lparr>w_net := [SelReady (RecvData peer d)]\<rparr>"

lemma radius_world_parts:
  "w_net (radius_world peer d) = [SelReady (RecvData peer d)]" "w_sent (radius_world peer d) = []"
  "w_sendfault (radius_world peer d) = []" "w_writefault (radius_world peer d) = []"
  "w_allocfault (radius_world peer d) = []" "w_stop (radius_world peer d) = None" "w_nonces (radius_world peer d) = []"
  "getenv (radius_world peer d) v = None" "file_data (radius_world peer d) f = []"
  by (simp_all add: radius_world_def quiet_parts getenv_def file_data_def)

lemma sample_client_asks:
  "\<exists>others. w_sent (snd (radius_client_session closed_logger stack junk p server out (radius_world source d))) =
    (server, sample_access) # others"
proof -
  let ?w = "radius_world source d" and ?as = "request_attributes False (replicate 16 0) (replicate 16 0)"
  have n: "demo_random_nonce 16 ?w = (replicate 16 0, ?w)" by (simp add: demo_random_nonce_def radius_world_parts)
  have a: "radius_request_attrs False (replicate 16 0) ?w = (concat (map attr_bytes ?as), ?w)"
    by (simp add: radius_request_attrs_def request_attributes_def add_attr_fits)
  have small: "length (concat (map attr_bytes ?as)) \<le> 4000" by (simp add: request_attributes_def)
  let ?s = "snd (send_radius closed_logger stack p 1 1 (replicate 16 0) (concat (map attr_bytes ?as))
      RADIUS_PKT_ACCESS_REQUEST ''ACCESS_REQUEST'' ''PAP'' server ?w)"
  have "w_sent ?s = [(server, sample_access)]"
    using send_radius_sends(1) [OF radius_world_parts(3) small]
    by (simp add: radius_world_parts sample_access_def radius_wire_def Let_def)
  moreover have "grows ?s (snd (radius_client_session closed_logger stack junk p server out ?w))"
    using grows_client_receive [of ?s closed_logger stack junk p out False "replicate 16 0" "concat (map attr_bytes ?as)"]
    by (simp add: radius_client_session_def radius_world_parts n a)
  ultimately show ?thesis by (simp add: grows_def)
qed

lemma sample_server_accepts:
  "\<exists>others. w_sent (snd (radius_server_session closed_logger stack (radius_world asker sample_access))) =
      (asker, sample_accept) # others \<and> fst (radius_server_session closed_logger stack (radius_world asker sample_access)) = 0"
proof -
  let ?w = "radius_world asker sample_access" and ?p = "peer_to_string asker 64"
  have small: "length (concat (map attr_bytes (request_attributes False (replicate 16 0) (replicate 16 0)))) \<le> 4000"
    by (simp add: request_attributes_def)
  note parts = radius_wire_parts [OF length_replicate [of 16 0] small, of 1 1, folded sample_access_def]
  have ok: "radius_accepts (access_attrs sample_access RADIUS_HEADER_SIZE no_attributes) sample_access"
    unfolding sample_access_def by (rule request_accepted) simp_all
  have "sample_access \<noteq> []" using parts(5) by auto
  let ?w1 = "?w\<lparr>w_net := []\<rparr>"
  let ?resp = "radius_response 2 1 (response_auth 2 1 (replicate 16 0))"
  let ?w2 = "?w1\<lparr>w_sent := [(asker, ?resp)]\<rparr>"
  have acct: "radius_accounting closed_logger stack ?p u pr ?w2 = (0, False, ?w2)" for u pr
    by (subst radius_accounting.simps) (simp add: read_stop_def demo_recvfrom_def radius_world_parts)
  have resp: "demo_sendto ?resp asker ?w1 = (True, ?w2)"
    by (subst demo_sendto_works) (simp_all add: radius_world_parts)
  have auth: "compute_response_authenticator 2 1 (word_of_nat RADIUS_HEADER_SIZE) (replicate 16 0) [] ?w1 =
      (response_auth 2 1 (replicate 16 0), ?w1)"
    by (simp add: compute_response_authenticator_def malloc_ok_def response_auth_def radius_sizes radius_world_parts)
  have "radius_access closed_logger stack ?p asker sample_access ?w1 = (Radius_Stop 0 False, ?w2)"
    using ok parts(2,3) radius_world_parts(8)
    by (simp add: radius_access_def radius_secret_check_def radius_pap_warning_def log_radius_def getenv_def Let_def
        auth resp acct)
  then have one: "radius_packet closed_logger stack asker sample_access (replicate 16 0) ?w1 = (Radius_Stop 0 False, ?w2)"
    using parts radius_world_parts(8) by (simp add: radius_packet_def radius_sizes getenv_def)
  have "radius_server_loop closed_logger stack (replicate 16 0) ?w = (0, False, ?w2)"
    using parts(6) \<open>sample_access \<noteq> []\<close> one
    by (subst radius_server_loop.simps)
      (simp add: read_stop_def radius_world_parts demo_recvfrom_arrived [OF radius_world_parts(1)] radius_sizes)
  then show ?thesis
    by (simp add: radius_server_session_def world_simps sample_accept_def radius_response_def radius_sizes)
qed

lemma radius_needs_password_witness:
  "\<exists>addr d. SelReady (RecvData addr d) \<in> set (w_net (radius_world \<lparr>sin_family = 2, sin_port = 0, sin_addr = 0\<rparr> sample_access)) \<and>
     proves_password (take RADIUS_MAX_PACKET d)"
  by (rule radius_needs_password [of closed_logger "[]"]) (use sample_server_accepts in blast)

lemma radius_run_witness:
  "\<exists>rc wc'. radius_client_session closed_logger [] [] ''peer'' \<lparr>sin_family = 2, sin_port = 1812, sin_addr = 1\<rparr> ''out''
      (radius_world \<lparr>sin_family = 2, sin_port = 1812, sin_addr = 1\<rparr> sample_accept) = (rc, wc') \<and> rc = 0"
proof -
  let ?s = "\<lparr>sin_family = 2, sin_port = 1812, sin_addr = 1\<rparr>" and ?c = "\<lparr>sin_family = 2, sin_port = 4000, sin_addr = 2\<rparr>"
  let ?wc = "radius_world ?s sample_accept" and ?ws = "radius_world ?c sample_access"
  obtain rc wc' where c: "radius_client_session closed_logger [] [] ''peer'' ?s ''out'' ?wc = (rc, wc')" by fastforce
  obtain rs ws' where s: "radius_server_session closed_logger [] ?ws = (rs, ws')" by fastforce
  from sample_client_asks [of "[]" "[]" "''peer''" ?s "''out''" ?s sample_accept] c obtain o1 where
    "w_sent wc' = (?s, sample_access) # o1" by auto
  moreover from sample_server_accepts [of "[]" ?c] s obtain o2 where "w_sent ws' = (?c, sample_accept) # o2" by auto
  ultimately have "rc = 0"
    using radius_run [OF c s radius_world_parts(1) _ radius_world_parts(1), of o1 o2] by (simp add: radius_world_parts)
  with c show ?thesis by blast
qed

section \<open>What is not checked\<close>

text \<open>
  The client compares the authenticator only if the length field is plausible: the four
  bytes of an accept with length 0 pass, from anybody.
\<close>

lemma forged_accept_passes:
  "radius_verified (overlay [2, ident, 0, 0] junk) 4 auth"
  by (simp add: radius_verified_def radius_sizes overlay_def get_u16_prefix) (simp add: get_u16_host)

text \<open>A replay is not noticed when the authenticator begins with a zero byte.\<close>

lemma replay_with_zero_missed:
  "last_auth ! 0 = 0 \<Longrightarrow> length d \<ge> 20 \<Longrightarrow> d ! 0 = 1 \<Longrightarrow> unat (get_u16 (drop 2 d)) \<in> {20..length d} \<Longrightarrow>
   radius_packet lg stack addr d last_auth w = radius_access lg stack (peer_to_string addr 64) addr d w"
  by (simp add: radius_packet_def radius_sizes)

end
