(* ===== verification/Quic.thy ===== *)
theory Quic
  imports Datagram
begin

text \<open>
  The QUIC-like demo (\<open>src/quic_demo_server.c\<close>, \<open>src/quic_demo_client.c\<close>): packets with a
  fixed header, a handshake, a file in stream packets that are acknowledged one by one, and
  the digest in the closing packet. The client keeps the packets of the file and sorts them
  at the end. Pauses, socket options and closing descriptors leave nothing in the modelled
  state.
\<close>

section \<open>Packets\<close>

definition QUIC_HEADER_SIZE :: nat where "QUIC_HEADER_SIZE = 19"
definition QUIC_MAX_PAYLOAD :: nat where "QUIC_MAX_PAYLOAD = 1200"

lemmas quic_sizes = QUIC_HEADER_SIZE_def QUIC_MAX_PAYLOAD_def

datatype QuicType = QUIC_PKT_INITIAL | QUIC_PKT_HANDSHAKE | QUIC_PKT_HANDSHAKE_ACK | QUIC_PKT_STREAM | QUIC_PKT_ACK
  | QUIC_PKT_CLOSE | QUIC_PKT_ZERO_RTT

primrec quic_type :: "QuicType \<Rightarrow> byte" where
  "quic_type QUIC_PKT_INITIAL = 60"
| "quic_type QUIC_PKT_HANDSHAKE = 61"
| "quic_type QUIC_PKT_HANDSHAKE_ACK = 62"
| "quic_type QUIC_PKT_STREAM = 63"
| "quic_type QUIC_PKT_ACK = 64"
| "quic_type QUIC_PKT_CLOSE = 65"
| "quic_type QUIC_PKT_ZERO_RTT = 66"

text \<open>Of the payload's buffer, the bytes in use.\<close>

record QuicPacket =
  qp_type :: byte
  qp_flags :: byte
  qp_stream_id :: u16
  qp_connection_id :: u32
  qp_seq :: u32
  qp_ack :: u32
  qp_retransmit_count :: byte
  qp_payload_len :: u16
  qp_payload :: "byte list"

definition zero_quic :: QuicPacket where
  "zero_quic = \<lparr>qp_type = 0, qp_flags = 0, qp_stream_id = 0, qp_connection_id = 0, qp_seq = 0, qp_ack = 0,
     qp_retransmit_count = 0, qp_payload_len = 0, qp_payload = []\<rparr>"

definition quic_payload :: "byte list \<Rightarrow> QuicPacket \<Rightarrow> QuicPacket" where
  "quic_payload d p = p\<lparr>qp_payload_len := word_of_nat (length d), qp_payload := d\<rparr>"

definition encode_packet :: "QuicPacket \<Rightarrow> byte list option" where
  "encode_packet p =
     (if unat (qp_payload_len p) > QUIC_MAX_PAYLOAD then None
      else Some (qp_type p # qp_flags p # put_u16 (qp_stream_id p) @ put_u32 (qp_connection_id p) @ put_u32 (qp_seq p) @
        put_u32 (qp_ack p) @ qp_retransmit_count p # put_u16 (qp_payload_len p) @
        take (unat (qp_payload_len p)) (qp_payload p)))"

definition decode_packet :: "byte list \<Rightarrow> QuicPacket option" where
  "decode_packet wire =
     (if length wire < QUIC_HEADER_SIZE then None
      else let len = get_u16 (drop 17 wire) in
        if length wire < QUIC_HEADER_SIZE + unat len \<or> unat len > QUIC_MAX_PAYLOAD then None
        else Some \<lparr>qp_type = wire ! 0, qp_flags = wire ! 1, qp_stream_id = get_u16 (drop 2 wire),
          qp_connection_id = get_u32 (drop 4 wire), qp_seq = get_u32 (drop 8 wire), qp_ack = get_u32 (drop 12 wire),
          qp_retransmit_count = wire ! 16, qp_payload_len = len, qp_payload = take (unat len) (drop QUIC_HEADER_SIZE wire)\<rparr>)"

definition quic_type_name :: "byte \<Rightarrow> string" where
  "quic_type_name type =
     (if type = 60 then ''INITIAL'' else if type = 61 then ''HANDSHAKE'' else if type = 62 then ''HANDSHAKE_ACK''
      else if type = 63 then ''STREAM'' else if type = 64 then ''ACK'' else if type = 65 then ''CLOSE''
      else if type = 66 then ''ZERO_RTT'' else ''UNKNOWN'')"

section \<open>Logged packets\<close>

definition hex8 :: "u32 \<Rightarrow> string" where
  "hex8 v = concat (map (\<lambda>b. [hex_lower (unat b div 16), hex_lower (unat b)]) (put_u32 v))"

definition log_quic ::
  "string \<Rightarrow> Logger \<Rightarrow> string \<Rightarrow> string \<Rightarrow> string \<Rightarrow> string \<Rightarrow> string \<Rightarrow> QuicPacket \<Rightarrow> byte list \<Rightarrow> world \<Rightarrow> world" where
  "log_quic direction lg level event state message peer p wire w =
     logger_write lg (Some ((demo_init_event level event state message)
       \<lparr>le_peer := Some peer, le_direction := Some direction, le_packet_type := Some (quic_type_name (qp_type p)),
        le_packet_code := uint (qp_type p), le_connection_id := Some (''cid-'' @ hex8 (qp_connection_id p)),
        le_stream_id := uint (qp_stream_id p), le_seq := int_of_u32 (qp_seq p), le_ack := int_of_u32 (qp_ack p),
        le_retransmit_count := uint (qp_retransmit_count p), le_payload_length := uint (qp_payload_len p),
        le_bytes := uint (qp_payload_len p),
        le_packet_uid := compute_packet_uid 24 (ucast (qp_type p)) (int_of_u32 (qp_seq p)) (int_of_u32 (qp_ack p))
          (Some wire) (length wire),
        le_wire_hex := bytes_to_hex (Some (take (if length wire > 160 then 160 else length wire) wire)) 321\<rparr>)) w"

definition quic_level :: "QuicPacket \<Rightarrow> string" where
  "quic_level p = (if qp_type p = quic_type QUIC_PKT_STREAM then ''DATA'' else ''INFO'')"

text \<open>
  The two programs' functions differ in the direction they log. A peer is an address and
  its text. An arrival changes the address also when the packet is not understood.
\<close>

type_synonym quic_peer = "sockaddr_in \<times> string"

definition quic_send :: "string \<Rightarrow> Logger \<Rightarrow> quic_peer \<Rightarrow> QuicPacket \<Rightarrow> string \<Rightarrow> string \<Rightarrow> world \<Rightarrow> bool \<times> world" where
  "quic_send direction lg peer p state event w =
     (case encode_packet p of
        None \<Rightarrow> (False, w)
      | Some wire \<Rightarrow>
        (case demo_sendto wire (fst peer) w of (sent, w1) \<Rightarrow>
          if \<not> sent then (False, w1)
          else (True, log_quic direction lg (quic_level p) event state ''quic-like packet sent'' (snd peer) p wire w1)))"

definition quic_recv ::
  "string \<Rightarrow> Logger \<Rightarrow> quic_peer \<Rightarrow> string \<Rightarrow> string \<Rightarrow> world \<Rightarrow> QuicPacket option \<times> quic_peer \<times> world" where
  "quic_recv direction lg peer state event w =
     (case demo_recvfrom (QUIC_HEADER_SIZE + QUIC_MAX_PAYLOAD) w of
        (None, w1) \<Rightarrow> (None, peer, w1)
      | (Some (addr, d), w1) \<Rightarrow>
        (case (if d = [] then None else decode_packet d) of
           None \<Rightarrow> (None, (addr, snd peer), w1)
         | Some p \<Rightarrow>
             (Some p, (addr, peer_to_string addr 64),
              log_quic direction lg (quic_level p) event state ''quic-like packet received'' (peer_to_string addr 64) p d w1)))"

definition send_packet_logged :: "Logger \<Rightarrow> quic_peer \<Rightarrow> QuicPacket \<Rightarrow> string \<Rightarrow> string \<Rightarrow> world \<Rightarrow> bool \<times> world" where
  "send_packet_logged = quic_send ''Server -> Client''"

definition recv_packet_logged ::
  "Logger \<Rightarrow> quic_peer \<Rightarrow> string \<Rightarrow> string \<Rightarrow> world \<Rightarrow> QuicPacket option \<times> quic_peer \<times> world" where
  "recv_packet_logged = quic_recv ''Client -> Server''"

definition client_send_packet_logged :: "Logger \<Rightarrow> quic_peer \<Rightarrow> QuicPacket \<Rightarrow> string \<Rightarrow> string \<Rightarrow> world \<Rightarrow> bool \<times> world" where
  "client_send_packet_logged = quic_send ''Client -> Server''"

definition client_recv_packet_logged ::
  "Logger \<Rightarrow> quic_peer \<Rightarrow> string \<Rightarrow> string \<Rightarrow> world \<Rightarrow> QuicPacket option \<times> quic_peer \<times> world" where
  "client_recv_packet_logged = quic_recv ''Server -> Client''"

section \<open>The server\<close>

definition await_ack :: "Logger \<Rightarrow> quic_peer \<Rightarrow> u32 \<Rightarrow> world \<Rightarrow> bool \<times> quic_peer \<times> world" where
  "await_ack lg peer expect_ack w =
     (case recv_packet_logged lg peer ''VERIFY'' ''RECV_ACK'' w of
        (None, peer1, w1) \<Rightarrow> (False, peer1, w1)
      | (Some p, peer1, w1) \<Rightarrow> (qp_type p = quic_type QUIC_PKT_ACK \<and> qp_ack p = expect_ack, peer1, w1))"

definition stream_packet :: "u32 \<Rightarrow> u16 \<Rightarrow> u32 \<Rightarrow> byte \<Rightarrow> byte list \<Rightarrow> QuicPacket" where
  "stream_packet cid stream_id seq retransmit d =
     quic_payload d (zero_quic\<lparr>qp_type := quic_type QUIC_PKT_STREAM, qp_connection_id := cid, qp_stream_id := stream_id,
       qp_seq := seq, qp_retransmit_count := retransmit\<rparr>)"

text \<open>The file in pieces, \<open>data\<close> being what the file holds. The result is the reason of a failure.\<close>

function quic_stream_loop ::
  "Logger \<Rightarrow> u32 \<Rightarrow> byte list \<Rightarrow> u16 \<Rightarrow> nat \<Rightarrow> quic_peer \<Rightarrow> world \<Rightarrow> string option \<times> quic_peer \<times> world" where
  "quic_stream_loop lg cid data seq offset peer w =
     (if offset < length data then
        (let chunk = min (length data - offset) QUIC_MAX_PAYLOAD; got = take chunk (drop offset data) in
         if length got \<noteq> chunk then (Some ''stream read short'', peer, w)
         else let lossy = getenv w ''UDP_SECURE_SCENARIO'' = Some ''loss-recovery'' \<and> seq = 1;
                  p = stream_packet cid 1 (ucast seq) (if lossy then 1 else 0) got in
           (case send_packet_logged lg peer p ''DATA_TRANSFER'' ''SEND_STREAM'' w of (sent, w1) \<Rightarrow>
            if \<not> sent then (Some ''stream send failed'', peer, w1)
            else case await_ack lg peer (ucast seq) w1 of (acked, peer1, w2) \<Rightarrow>
              if \<not> acked then (Some ''stream send failed'', peer1, w2)
              else quic_stream_loop lg cid data (seq + 1) (offset + chunk) peer1 w2))
      else (None, peer, w))"
  by pat_completeness auto
termination
  by (relation "measure (\<lambda>(lg, cid, data, seq, offset, peer, w). length data - offset)") (auto simp: quic_sizes)

declare quic_stream_loop.simps [simp del]

text \<open>The two halves of a small file, the second one first.\<close>

definition quic_reorder :: "Logger \<Rightarrow> u32 \<Rightarrow> byte list \<Rightarrow> quic_peer \<Rightarrow> world \<Rightarrow> string option \<times> quic_peer \<times> world" where
  "quic_reorder lg cid data peer w =
     (let half = length data div 2; failed = (\<lambda>peer' w'. (Some ''stream reorder flow failed'', peer', w')) in
      case send_packet_logged lg peer (stream_packet cid 3 2 0 (drop (length data - half) data)) ''DATA_TRANSFER'' ''SEND_STREAM'' w of
        (sent, w1) \<Rightarrow>
      if \<not> sent then failed peer w1
      else case await_ack lg peer 2 w1 of (acked, peer1, w2) \<Rightarrow>
      if \<not> acked then failed peer1 w2
      else case send_packet_logged lg peer1 (stream_packet cid 1 1 0 (take (length data - half) data)) ''DATA_TRANSFER''
             ''SEND_STREAM'' w2 of (sent2, w3) \<Rightarrow>
      if \<not> sent2 then failed peer1 w3
      else case await_ack lg peer1 1 w3 of (acked2, peer2, w4) \<Rightarrow>
      if \<not> acked2 then failed peer2 w4 else (None, peer2, w4))"

text \<open>
  Whether the reordering copies beyond its buffers: the file has been read into a buffer of
  1200 bytes only if it fits. What the program does then is not defined (\<open>undef\<close>).
\<close>

definition quic_transfer ::
  "(world \<Rightarrow> string option \<times> quic_peer \<times> world) \<Rightarrow> Logger \<Rightarrow> u32 \<Rightarrow> byte list \<Rightarrow> quic_peer \<Rightarrow> world \<Rightarrow>
   string option \<times> quic_peer \<times> world" where
  "quic_transfer undef lg cid data peer w =
     (if getenv w ''UDP_SECURE_SCENARIO'' = Some ''stream-reorder'' \<and> length data > 2 then
        (if length data > QUIC_MAX_PAYLOAD then undef w else quic_reorder lg cid data peer w)
      else quic_stream_loop lg cid data 1 0 peer w)"

definition quic_zero_rtt :: "Logger \<Rightarrow> quic_peer \<Rightarrow> world \<Rightarrow> quic_peer \<times> world" where
  "quic_zero_rtt lg peer w =
     (if getenv w ''UDP_SECURE_SCENARIO'' = Some ''zero-rtt-replay-risk'' then
        (case recv_packet_logged lg peer ''HANDSHAKE'' ''RECV_ZERO_RTT'' w of
           (None, peer1, w1) \<Rightarrow> (peer1, w1)
         | (Some zero, peer1, w1) \<Rightarrow>
             (peer1,
              if qp_type zero = quic_type QUIC_PKT_ZERO_RTT then
                logger_write lg (Some ((demo_init_event ''WARN'' ''ZERO_RTT_REPLAY_RISK'' ''HANDSHAKE''
                    ''0-RTT replay risk observed'')
                  \<lparr>le_peer := Some (snd peer1), le_connection_id := Some ''0-rtt'', le_security_replay := 1,
                   le_handshake_phase := Some ''0-rtt''\<rparr>)) w1
              else w1))
      else (peer, w))"

definition quic_close :: "Logger \<Rightarrow> u32 \<Rightarrow> byte list \<Rightarrow> quic_peer \<Rightarrow> world \<Rightarrow> int \<times> world" where
  "quic_close lg cid digest peer w =
     (case send_packet_logged lg peer
             (quic_payload digest (zero_quic\<lparr>qp_type := quic_type QUIC_PKT_CLOSE, qp_connection_id := cid\<rparr>))
             ''DONE'' ''SEND_CLOSE'' w of (sent, w1) \<Rightarrow>
      if \<not> sent then (1, demo_finish lg ''ABORT'' ''close send failed'' w1)
      else (0, demo_finish lg ''OK'' ''quic-like flow completed'' w1))"

text \<open>The reply to the first packet, its acknowledgement, and the transfer.\<close>

definition quic_server_reply ::
  "(world \<Rightarrow> string option \<times> quic_peer \<times> world) \<Rightarrow> Logger \<Rightarrow> byte list \<Rightarrow> byte list \<Rightarrow> u32 \<Rightarrow> quic_peer \<Rightarrow> world \<Rightarrow> int \<times> world" where
  "quic_server_reply undef lg data digest cid peer w =
     (let reply = quic_payload (bytes_of_string ''server-hello'')
            (zero_quic\<lparr>qp_type := quic_type QUIC_PKT_HANDSHAKE, qp_connection_id := cid\<rparr>) in
      case send_packet_logged lg peer reply ''HANDSHAKE'' ''SEND_HANDSHAKE'' w of (sent, w1) \<Rightarrow>
      if \<not> sent then (1, demo_finish lg ''ABORT'' ''handshake send failed'' w1)
      else case recv_packet_logged lg peer ''HANDSHAKE'' ''RECV_HANDSHAKE_ACK'' w1 of (got, peer1, w2) \<Rightarrow>
        if (case got of None \<Rightarrow> True | Some p \<Rightarrow> qp_type p \<noteq> quic_type QUIC_PKT_HANDSHAKE_ACK) then
          (1, demo_finish lg ''ABORT'' ''handshake ack missing'' w2)
        else case quic_transfer undef lg cid data peer1 w2 of
          (Some why, peer2, w3) \<Rightarrow> (1, demo_finish lg ''ABORT'' why w3)
        | (None, peer2, w3) \<Rightarrow> quic_close lg cid digest peer2 w3)"

text \<open>\<open>peer0\<close> is what the uninitialised address holds; nothing is sent to it.\<close>

definition quic_server_session ::
  "(world \<Rightarrow> string option \<times> quic_peer \<times> world) \<Rightarrow> Logger \<Rightarrow> sockaddr_in \<Rightarrow> byte list \<Rightarrow> byte list \<Rightarrow> world \<Rightarrow> int \<times> world" where
  "quic_server_session undef lg peer0 data digest w =
     (case recv_packet_logged lg (peer0, ''-'') ''HANDSHAKE'' ''RECV_INITIAL'' w of
        (None, peer, w1) \<Rightarrow> (1, demo_finish lg ''ABORT'' ''initial packet missing'' w1)
      | (Some p, peer, w1) \<Rightarrow>
        if qp_type p \<noteq> quic_type QUIC_PKT_INITIAL then (1, demo_finish lg ''ABORT'' ''initial packet missing'' w1)
        else (case quic_zero_rtt lg peer w1 of (peer1, w2) \<Rightarrow>
          quic_server_reply undef lg data digest (qp_connection_id p) peer1 w2))"

definition quic_server_main ::
  "(world \<Rightarrow> string option \<times> quic_peer \<times> world) \<Rightarrow> sockaddr_in \<Rightarrow> string list \<Rightarrow> world \<Rightarrow> int \<times> world" where
  "quic_server_main undef peer0 argv w =
     (case logger_open (Some ''server'') (Some ''logs/server.jsonl'') w of
        (rc, None) \<Rightarrow> (1, w)
      | (rc, Some lg) \<Rightarrow>
        if rc \<noteq> 0 then (1, w)
        else (case (if length argv \<noteq> 4 then None else parse_port (Some (argv ! 1))) of
            None \<Rightarrow> (1, demo_finish lg ''ABORT'' ''invalid arguments'' w)
          | Some port \<Rightarrow>
            (case (w_fs w (argv ! 3), sha1_file w (argv ! 3)) of
               (Some st, Some digest) \<Rightarrow>
                 (case socket_call w of (opened, w1) \<Rightarrow>
                  if \<not> opened then (1, demo_finish lg ''ABORT'' ''socket failed'' w1)
                  else (case socket_call w1 of (bound, w2) \<Rightarrow>
                    if \<not> bound then (1, demo_finish lg ''ABORT'' (w_errno w2) w2)
                    else quic_server_session undef lg peer0 (f_data st) digest
                      (logger_write lg (Some ((demo_init_event ''INFO'' ''SERVER_START'' ''INIT'' ''quic-like server started'')
                         \<lparr>le_port := uint port, le_bytes := int_of_size (length (f_data st))\<rparr>)) w2)))
             | _ \<Rightarrow> (1, demo_finish lg ''ABORT'' ''input file cannot be read'' w))))"

section \<open>The client\<close>

record StreamChunk =
  ck_stream_id :: u16
  ck_seq :: u32
  ck_payload :: "byte list"
  ck_payload_len :: u16

definition chunk_of :: "QuicPacket \<Rightarrow> StreamChunk" where
  "chunk_of p = \<lparr>ck_stream_id = qp_stream_id p, ck_seq = qp_seq p,
     ck_payload = take (unat (qp_payload_len p)) (qp_payload p), ck_payload_len = qp_payload_len p\<rparr>"

definition chunk_cmp :: "StreamChunk \<Rightarrow> StreamChunk \<Rightarrow> int" where
  "chunk_cmp a b =
     (if ck_stream_id a \<noteq> ck_stream_id b then uint (ck_stream_id a) - uint (ck_stream_id b)
      else if ck_seq a < ck_seq b then -1
      else if ck_seq a > ck_seq b then 1
      else 0)"

text \<open>
  \<open>qsort(chunks, n, size, chunk_cmp)\<close>. C leaves the order of elements that compare equal open;
  here they keep the order of arrival.
\<close>

fun insert_chunk :: "StreamChunk \<Rightarrow> StreamChunk list \<Rightarrow> StreamChunk list" where
  "insert_chunk x [] = [x]"
| "insert_chunk x (y # ys) = (if chunk_cmp x y \<le> 0 then x # y # ys else y # insert_chunk x ys)"

definition qsort_chunks :: "StreamChunk list \<Rightarrow> StreamChunk list" where
  "qsort_chunks cks = foldr insert_chunk cks []"

text \<open>The array holds 256 chunks; later ones are dropped.\<close>

definition store_chunk :: "QuicPacket \<Rightarrow> StreamChunk list \<Rightarrow> StreamChunk list" where
  "store_chunk p cks = (if length cks < 256 then cks @ [chunk_of p] else cks)"

definition write_chunks :: "string \<Rightarrow> StreamChunk list \<Rightarrow> world \<Rightarrow> world" where
  "write_chunks path cks w = fold (\<lambda>ck w'. snd (fwrite_all path (ck_payload ck) w')) cks w"

definition quic_abort :: "Logger \<Rightarrow> string \<Rightarrow> string \<Rightarrow> world \<Rightarrow> world" where
  "quic_abort lg temp_path why w = remove_file temp_path (demo_finish lg ''ABORT'' why w)"

text \<open>The result of the renaming is not looked at.\<close>

definition quic_client_close ::
  "Logger \<Rightarrow> string \<Rightarrow> string \<Rightarrow> StreamChunk list \<Rightarrow> quic_peer \<Rightarrow> QuicPacket \<Rightarrow> world \<Rightarrow> int \<times> world" where
  "quic_client_close lg output_path temp_path cks peer p w =
     (let w1 = write_chunks temp_path (qsort_chunks cks) w in
      case sha1_file w1 temp_path of
        None \<Rightarrow> (1, quic_abort lg temp_path ''quic-like digest mismatch'' w1)
      | Some local_digest \<Rightarrow>
          if qp_payload_len p \<noteq> 20 \<or> local_digest \<noteq> take 20 (qp_payload p) then
            (1, quic_abort lg temp_path ''quic-like digest mismatch'' w1)
          else (0, demo_finish lg ''OK'' ''quic-like flow completed''
            (snd (rename_file temp_path output_path
              (logger_write lg (Some ((demo_init_event ''SUCCESS'' ''DIGEST_MATCH'' ''DONE'' ''quic-like digest matched'')
                 \<lparr>le_peer := Some (snd peer), le_sha1 := Some (sha1_to_hex local_digest)\<rparr>)) w1)))))"

definition quic_ack :: "QuicPacket \<Rightarrow> QuicPacket" where
  "quic_ack p = zero_quic\<lparr>qp_type := quic_type QUIC_PKT_ACK, qp_connection_id := qp_connection_id p, qp_ack := qp_seq p\<rparr>"

lemma quic_send_net: "quic_send direction lg peer p state event w = (ok, w1) \<Longrightarrow> w_net w1 = w_net w"
  by (auto simp: quic_send_def log_quic_def world_simps dest!: demo_sendto_world(3) split: option.splits prod.splits if_splits)

lemma quic_recv_net:
  "quic_recv direction lg peer state event w = (Some p, peer1, w1) \<Longrightarrow> length (w_net w1) < length (w_net w)"
  by (auto simp: quic_recv_def demo_recvfrom_def log_quic_def world_simps
      split: option.splits prod.splits list.splits select_result.splits recv_result.splits if_splits)

function quic_client_loop ::
  "Logger \<Rightarrow> string \<Rightarrow> string \<Rightarrow> StreamChunk list \<Rightarrow> quic_peer \<Rightarrow> world \<Rightarrow> int \<times> world" where
  "quic_client_loop lg output_path temp_path cks peer w =
     (case read_stop w of (stop, w0) \<Rightarrow>
      if stop then (1, quic_abort lg temp_path ''client stopped'' w0)
      else case client_recv_packet_logged lg peer ''DATA_TRANSFER'' ''RECV_QUIC_PACKET'' w0 of
        (None, peer1, w1) \<Rightarrow> (1, quic_abort lg temp_path ''receive failed'' w1)
      | (Some p, peer1, w1) \<Rightarrow>
        if qp_type p = quic_type QUIC_PKT_STREAM then
          (case client_send_packet_logged lg peer1 (quic_ack p) ''VERIFY'' ''SEND_ACK'' w1 of (sent, w2) \<Rightarrow>
           if \<not> sent then (1, quic_abort lg temp_path ''ack send failed'' w2)
           else quic_client_loop lg output_path temp_path (store_chunk p cks) peer1 w2)
        else if qp_type p = quic_type QUIC_PKT_CLOSE then quic_client_close lg output_path temp_path cks peer1 p w1
        else quic_client_loop lg output_path temp_path cks peer1 w1)"
  by pat_completeness auto
termination
  by (relation "measure (\<lambda>(lg, output_path, temp_path, cks, peer, w). length (w_net w))")
    (auto simp: client_recv_packet_logged_def client_send_packet_logged_def read_stop_def
      dest!: quic_recv_net [OF sym] quic_send_net [OF sym] split: option.splits nat.splits)

declare quic_client_loop.simps [simp del]

text \<open>The handshake. Its failures leave the partial file.\<close>

definition quic_client_handshake ::
  "Logger \<Rightarrow> u32 \<Rightarrow> quic_peer \<Rightarrow> world \<Rightarrow> string option \<times> quic_peer \<times> world" where
  "quic_client_handshake lg cid peer w =
     (let initial = quic_payload (bytes_of_string ''client-hello'')
            (zero_quic\<lparr>qp_type := quic_type QUIC_PKT_INITIAL, qp_connection_id := cid\<rparr>);
          zero_rtt = quic_payload (bytes_of_string ''warmup'')
            (zero_quic\<lparr>qp_type := quic_type QUIC_PKT_ZERO_RTT, qp_connection_id := cid\<rparr>);
          ack = zero_quic\<lparr>qp_type := quic_type QUIC_PKT_HANDSHAKE_ACK, qp_connection_id := cid\<rparr> in
      case client_send_packet_logged lg peer initial ''HANDSHAKE'' ''SEND_INITIAL'' w of (sent, w1) \<Rightarrow>
      if \<not> sent then (Some ''initial send failed'', peer, w1)
      else case (if getenv w ''UDP_SECURE_SCENARIO'' = Some ''zero-rtt-replay-risk''
                 then client_send_packet_logged lg peer zero_rtt ''HANDSHAKE'' ''SEND_ZERO_RTT'' w1 else (True, w1)) of
        (sent2, w2) \<Rightarrow>
      if \<not> sent2 then (Some ''0-rtt send failed'', peer, w2)
      else case client_recv_packet_logged lg peer ''HANDSHAKE'' ''RECV_HANDSHAKE'' w2 of (got, peer1, w3) \<Rightarrow>
      if (case got of None \<Rightarrow> True | Some p \<Rightarrow> qp_type p \<noteq> quic_type QUIC_PKT_HANDSHAKE) then
        (Some ''handshake receive failed'', peer1, w3)
      else case client_send_packet_logged lg peer1 ack ''HANDSHAKE'' ''SEND_HANDSHAKE_ACK'' w3 of (sent3, w4) \<Rightarrow>
      if \<not> sent3 then (Some ''handshake ack send failed'', peer1, w4) else (None, peer1, w4))"

definition quic_client_session ::
  "Logger \<Rightarrow> string \<Rightarrow> string \<Rightarrow> quic_peer \<Rightarrow> world \<Rightarrow> int \<times> world" where
  "quic_client_session lg output_path temp_path peer w =
     (case demo_random_nonce 4 w of (nonce, w1) \<Rightarrow>
      case quic_client_handshake lg (load_u32 LittleEndian nonce) peer w1 of
        (Some why, peer1, w2) \<Rightarrow> (1, demo_finish lg ''ABORT'' why w2)
      | (None, peer1, w2) \<Rightarrow> quic_client_loop lg output_path temp_path [] peer1 w2)"

definition quic_client_main :: "string list \<Rightarrow> world \<Rightarrow> int \<times> world" where
  "quic_client_main argv w =
     (case logger_open (Some ''client'') (Some ''logs/client.jsonl'') w of
        (rc, None) \<Rightarrow> (1, w)
      | (rc, Some lg) \<Rightarrow>
        if rc \<noteq> 0 then (1, w)
        else if length argv \<noteq> 4 \<and> length argv \<noteq> 7 then (1, demo_finish lg ''ABORT'' ''invalid arguments'' w)
        else (case parse_port (Some (argv ! 2)) of
            None \<Rightarrow> (1, demo_finish lg ''ABORT'' ''invalid port'' w)
          | Some port \<Rightarrow>
            (case socket_call w of (ok, w1) \<Rightarrow>
             if \<not> ok then (1, demo_finish lg ''ABORT'' ''socket failed'' w1)
             else (case server_address (argv ! 1) port of
                 None \<Rightarrow> (1, demo_finish lg ''ABORT'' ''invalid host'' w1)
               | Some server \<Rightarrow>
                 (let output_path = (if length argv = 7 then argv ! 6 else argv ! 3);
                      peer_text = snprintf_s 64 (host_port (argv ! 1) port);
                      temp_path = snprintf_s 512 (output_path @ ''.part'') in
                  case fopen_wb temp_path w1 of (opened, w2) \<Rightarrow>
                  if \<not> opened then (1, demo_finish lg ''ABORT'' ''output open failed'' w2)
                  else quic_client_session lg output_path temp_path (server, peer_text)
                    (logger_write lg (Some ((demo_init_event ''INFO'' ''CLIENT_START'' ''INIT'' ''quic-like client started'')
                       \<lparr>le_peer := Some peer_text, le_port := uint port\<rparr>)) w2))))))"

end
