(* ===== verification/QuicFacts.thy ===== *)
theory QuicFacts
  imports Quic DemoFacts "HOL-Library.Multiset"
begin

text \<open>
  The QUIC-like demo: packets are read back as they were encoded, the client's sort puts the
  packets of a file in order whatever order they arrive in, a run of the client ends in OK
  only with the file whose digest the closing packet announced, and whole runs succeed.
\<close>

section \<open>Packets\<close>

definition quic_ok :: "QuicPacket \<Rightarrow> bool" where
  "quic_ok p \<longleftrightarrow> unat (qp_payload_len p) \<le> 1200 \<and> length (qp_payload p) = unat (qp_payload_len p)"

definition quic_bytes :: "QuicPacket \<Rightarrow> byte list" where
  "quic_bytes p = qp_type p # qp_flags p # put_u16 (qp_stream_id p) @ put_u32 (qp_connection_id p) @ put_u32 (qp_seq p) @
     put_u32 (qp_ack p) @ qp_retransmit_count p # put_u16 (qp_payload_len p) @ qp_payload p"

definition read_quic :: "byte list \<Rightarrow> (QuicPacket \<times> byte list) option" where
  "read_quic d = (case decode_packet d of None \<Rightarrow> None | Some p \<Rightarrow> Some (p, drop (19 + length (qp_payload p)) d))"

lemma encode_quic_bytes: "quic_ok p \<Longrightarrow> encode_packet p = Some (quic_bytes p)"
  by (simp add: quic_ok_def encode_packet_def quic_sizes quic_bytes_def)

lemma length_quic_bytes [simp]: "length (quic_bytes p) = 19 + length (qp_payload p)"
  by (simp add: quic_bytes_def)

lemma get_u32_prefix: "4 \<le> length b \<Longrightarrow> get_u32_on h (b @ r) = get_u32_on h b"
  by (cases b; cases "tl b"; cases "tl (tl b)"; cases "tl (tl (tl b))") (auto simp: get_u32_host)

lemma decode_quic_bytes:
  assumes "quic_ok p" shows "decode_packet (quic_bytes p @ rest) = Some p"
proof -
  have "get_u16 (drop 17 (quic_bytes p @ rest)) = qp_payload_len p"
    "get_u16 (drop 2 (quic_bytes p @ rest)) = qp_stream_id p"
    "get_u32 (drop 4 (quic_bytes p @ rest)) = qp_connection_id p"
    "get_u32 (drop 8 (quic_bytes p @ rest)) = qp_seq p"
    "get_u32 (drop 12 (quic_bytes p @ rest)) = qp_ack p"
    by (simp_all add: quic_bytes_def get_u16_prefix get_u32_prefix)
  moreover have "(quic_bytes p @ rest) ! 0 = qp_type p" "(quic_bytes p @ rest) ! 1 = qp_flags p"
    "(quic_bytes p @ rest) ! 16 = qp_retransmit_count p"
    "take (length (qp_payload p)) (drop 19 (quic_bytes p @ rest)) = qp_payload p"
    by (simp_all add: quic_bytes_def nth_append)
  ultimately show ?thesis
    using assms by (simp only: decode_packet_def quic_sizes Let_def quic_ok_def length_append length_quic_bytes) simp
qed

interpretation quic_packets: prefix_codec quic_bytes read_quic quic_ok
  by unfold_locales (auto simp: read_quic_def decode_quic_bytes)

lemma decode_quic_ok: "decode_packet d = Some p \<Longrightarrow> quic_ok p"
  by (auto simp: decode_packet_def quic_sizes quic_ok_def Let_def split: if_splits)

lemma decode_quic: "quic_ok p \<Longrightarrow> decode_packet (quic_bytes p) = Some p"
  using decode_quic_bytes [of p "[]"] by simp

section \<open>The client's sort\<close>

definition chunk_key :: "StreamChunk \<Rightarrow> int" where
  "chunk_key ck = uint (ck_stream_id ck) * 4294967296 + uint (ck_seq ck)"

lemma two_digits:
  fixes a b p q :: int
  assumes "0 \<le> p" "p < 4294967296" "0 \<le> q" "q < 4294967296"
  shows "a * 4294967296 + p \<le> b * 4294967296 + q \<longleftrightarrow> a < b \<or> a = b \<and> p \<le> q"
  using assms by (cases a b rule: linorder_cases) linarith+

lemma chunk_cmp_key: "chunk_cmp a b \<le> 0 \<longleftrightarrow> chunk_key a \<le> chunk_key b"
proof -
  have b: "0 \<le> uint (ck_seq x)" "uint (ck_seq x) < 4294967296" for x
    using unsigned_less [of "ck_seq x", where ?'a = int] by simp_all
  have "ck_stream_id a = ck_stream_id b \<longleftrightarrow> uint (ck_stream_id a) = uint (ck_stream_id b)"
    by (rule word_uint_eq_iff)
  then show ?thesis
    unfolding chunk_key_def two_digits [OF b b] by (auto simp: chunk_cmp_def word_less_def)
qed

lemma qsort_chunks_key: "qsort_chunks cks = sort_key chunk_key cks"
proof -
  have "insert_chunk x xs = insort_key chunk_key x xs" for x xs
    by (induction xs) (auto simp: chunk_cmp_key)
  then have "insert_chunk = insort_key chunk_key" by (intro ext)
  then show ?thesis by (simp add: qsort_chunks_def sort_key_def)
qed

text \<open>Whatever order chunks of distinct numbers arrive in, they end up in the order of the numbers.\<close>

lemma qsort_chunks_order:
  assumes "mset cks = mset ordered" "sorted (map chunk_key ordered)" "distinct (map chunk_key ordered)"
  shows "qsort_chunks cks = ordered"
proof -
  have d: "distinct (map chunk_key cks)" using assms(1,3) by (metis mset_eq_imp_distinct_iff mset_map)
  have one: "filter (\<lambda>x. chunk_key k = chunk_key x) xs = [k]" if "k \<in> set xs" "distinct (map chunk_key xs)" for k xs
    using that by (induction xs) (auto simp: filter_empty_conv image_iff)
  have "set cks = set ordered" using assms(1) by (rule mset_eq_setD)
  then have "sort_key chunk_key cks = ordered"
    using assms by (intro properties_for_sort_key) (simp_all add: one d)
  then show ?thesis by (simp add: qsort_chunks_key)
qed

section \<open>How a run of the client ends\<close>

text \<open>A packet that the network brings, as the receiver understands it.\<close>

definition quic_arrives :: "world \<Rightarrow> QuicPacket \<Rightarrow> bool" where
  "quic_arrives w p \<longleftrightarrow> (\<exists>addr d. SelReady (RecvData addr d) \<in> set (w_net w) \<and>
     decode_packet (take (QUIC_HEADER_SIZE + QUIC_MAX_PAYLOAD) d) = Some p)"

definition quic_verdict :: "string \<Rightarrow> string \<Rightarrow> world \<Rightarrow> int \<Rightarrow> world \<Rightarrow> bool" where
  "quic_verdict out temp w rc w' \<longleftrightarrow>
     (rc = 0 \<and> w_stdout w' = w_stdout w @ [''OK'' @ [CHR 0x0A]] \<and>
      (\<exists>contents p. quic_arrives w p \<and> qp_type p = quic_type QUIC_PKT_CLOSE \<and> qp_payload p = fips_sha1 contents \<and>
        (w_fs w' = (w_fs w)(out \<mapsto> new_file contents, temp := None) \<or> w_fs w' = (w_fs w)(temp \<mapsto> new_file contents)))) \<or>
     (rc = 1 \<and> w_stdout w' = w_stdout w @ [''ABORT'' @ [CHR 0x0A]] \<and> (\<exists>t. w_fs w' = (w_fs w)(temp := t)))"

lemma quic_verdict_cong:
  assumes "quic_verdict out temp w1 rc w'" "w_fs w1 = w_fs w" "w_stdout w1 = w_stdout w" "set (w_net w1) \<subseteq> set (w_net w)"
  shows "quic_verdict out temp w rc w'"
proof -
  have "quic_arrives w p" if "quic_arrives w1 p" for p using that assms(4) by (auto simp: quic_arrives_def)
  with assms show ?thesis unfolding quic_verdict_def by metis
qed

lemma log_quic_keeps [world_simps]:
  "w_fs (log_quic dr lg l e st m p q wire w) = w_fs w" "w_stdout (log_quic dr lg l e st m p q wire w) = w_stdout w"
  "w_net (log_quic dr lg l e st m p q wire w) = w_net w" "w_sent (log_quic dr lg l e st m p q wire w) = w_sent w"
  "w_env (log_quic dr lg l e st m p q wire w) = w_env w" "w_stop (log_quic dr lg l e st m p q wire w) = w_stop w"
  "w_sendfault (log_quic dr lg l e st m p q wire w) = w_sendfault w"
  "w_writefault (log_quic dr lg l e st m p q wire w) = w_writefault w"
  "w_renamefault (log_quic dr lg l e st m p q wire w) = w_renamefault w"
  by (simp_all add: log_quic_def world_simps)

lemma quic_send_keeps:
  assumes "quic_send dr lg peer p st e w = (ok, w1)"
  shows "w_fs w1 = w_fs w" "w_stdout w1 = w_stdout w" "w_net w1 = w_net w"
proof -
  have "w_fs w1 = w_fs w \<and> w_stdout w1 = w_stdout w \<and> w_net w1 = w_net w"
  proof (cases "encode_packet p")
    case (Some wire)
    obtain s w0 where s: "demo_sendto wire (fst peer) w = (s, w0)" by fastforce
    from demo_sendto_world [OF s] assms Some s show ?thesis by (auto simp: quic_send_def world_simps split: if_splits)
  qed (use assms in \<open>simp add: quic_send_def\<close>)
  then show "w_fs w1 = w_fs w" "w_stdout w1 = w_stdout w" "w_net w1 = w_net w" by auto
qed

lemma quic_recv_keeps:
  assumes "quic_recv dr lg peer st e w = (r, peer1, w1)"
  shows "w_fs w1 = w_fs w" "w_stdout w1 = w_stdout w" "set (w_net w1) \<subseteq> set (w_net w)" "r = Some p \<Longrightarrow> quic_arrives w p"
proof -
  obtain r0 w0 where r: "demo_recvfrom (QUIC_HEADER_SIZE + QUIC_MAX_PAYLOAD) w = (r0, w0)" by fastforce
  note k = demo_recvfrom_world [OF r]
  show "w_fs w1 = w_fs w" "w_stdout w1 = w_stdout w"
    using assms k by (auto simp: quic_recv_def r world_simps split: option.splits if_splits)
  show "set (w_net w1) \<subseteq> set (w_net w)"
    using assms r by (auto simp: quic_recv_def demo_recvfrom_def world_simps split: option.splits if_splits list.splits)
  show "quic_arrives w p" if "r = Some p"
    using assms r that
    by (auto simp: quic_recv_def demo_recvfrom_def quic_arrives_def
        split: option.splits if_splits list.splits select_result.splits recv_result.splits)
qed

lemma write_chunks_Cons: "write_chunks temp (ck # cks) w = write_chunks temp cks (snd (fwrite_all temp (ck_payload ck) w))"
  by (simp add: write_chunks_def)

lemma write_chunks_stdout: "w_stdout (write_chunks temp cks w) = w_stdout w"
  by (induction cks arbitrary: w) (simp_all add: write_chunks_Cons world_simps, simp add: write_chunks_def)

lemma write_chunks_fs:
  "w_fs w temp = Some (new_file d) \<Longrightarrow> \<exists>d1. w_fs (write_chunks temp cks w) = (w_fs w)(temp \<mapsto> new_file d1)"
proof (induction cks arbitrary: w d)
  case Nil
  then have "(w_fs w)(temp \<mapsto> new_file d) = w_fs w" by (rule fun_upd_idem)
  then show ?case by (metis write_chunks_def fold_simps(1))
next
  case (Cons ck cks)
  have same: "(w_fs w)(temp \<mapsto> new_file d) = w_fs w" by (rule fun_upd_idem) (rule Cons.prems)
  let ?w = "snd (fwrite_all temp (ck_payload ck) w)"
  obtain b bs where b: "pop_fault (w_writefault w) = (b, bs)" by fastforce
  have "\<exists>d2. w_fs ?w = (w_fs w)(temp \<mapsto> new_file d2)"
  proof (cases b)
    case True
    then have "w_fs ?w = w_fs w" by (simp add: fwrite_all_def b Let_def)
    then show ?thesis using same by metis
  next
    case False
    then show ?thesis by (auto simp: fwrite_all_def b Let_def)
  qed
  then obtain d2 where d2: "w_fs ?w = (w_fs w)(temp \<mapsto> new_file d2)" by blast
  have "w_fs ?w temp = Some (new_file d2)" by (simp add: d2)
  from Cons.IH [OF this] show ?case by (metis write_chunks_Cons d2 fun_upd_upd)
qed

lemma quic_close_verdict:
  assumes run: "quic_client_close lg out temp cks peer p w = (rc, w')"
    and temp: "w_fs w temp = Some (new_file [])" "temp \<noteq> out"
    and p: "quic_arrives wb p" "quic_ok p" "qp_type p = quic_type QUIC_PKT_CLOSE"
    and same: "w_fs w = w_fs wb" "w_stdout w = w_stdout wb"
  shows "quic_verdict out temp wb rc w'"
proof -
  define w1 where "w1 = write_chunks temp (qsort_chunks cks) w"
  from write_chunks_fs [OF temp(1), of "qsort_chunks cks"] write_chunks_stdout [of temp "qsort_chunks cks" w] obtain d where
    w1: "w_fs w1 = (w_fs w)(temp \<mapsto> new_file d)" "w_stdout w1 = w_stdout w" by (auto simp: w1_def)
  then have digest: "sha1_file w1 temp = Some (fips_sha1 d)"
    by (simp add: sha1_file_digest new_file_def sha1_digest_fips)
  show ?thesis
  proof (cases "qp_payload_len p \<noteq> 20 \<or> fips_sha1 d \<noteq> take 20 (qp_payload p)")
    case True
    then have "rc = 1" "w' = quic_abort lg temp ''quic-like digest mismatch'' w1"
      using run by (auto simp: quic_client_close_def digest Let_def w1_def [symmetric])
    then show ?thesis
      by (simp add: quic_verdict_def quic_abort_def remove_file_def world_simps w1 same) (metis fun_upd_upd)
  next
    case False
    with p(2) have pay: "qp_payload p = fips_sha1 d" by (auto simp: quic_ok_def)
    define w2 where "w2 = logger_write lg (Some ((demo_init_event ''SUCCESS'' ''DIGEST_MATCH'' ''DONE'' ''quic-like digest matched'')
                 \<lparr>le_peer := Some (snd peer), le_sha1 := Some (sha1_to_hex (fips_sha1 d))\<rparr>)) w1"
    have w2: "w_fs w2 = (w_fs w)(temp \<mapsto> new_file d)" "w_stdout w2 = w_stdout w" by (simp_all add: w2_def world_simps w1)
    have end': "rc = 0" "w' = demo_finish lg ''OK'' ''quic-like flow completed'' (snd (rename_file temp out w2))"
      using run False by (auto simp: quic_client_close_def digest Let_def w1_def [symmetric] w2_def)
    have "w_fs (snd (rename_file temp out w2)) = (w_fs w)(out \<mapsto> new_file d, temp := None) \<or>
        w_fs (snd (rename_file temp out w2)) = (w_fs w)(temp \<mapsto> new_file d)"
      using temp(2) by (auto simp: rename_file_def Let_def w2 fun_upd_twist split: prod.split)
    moreover have "w_stdout (snd (rename_file temp out w2)) = w_stdout w"
      by (simp add: rename_file_def Let_def w2 split: prod.split)
    ultimately show ?thesis
      using p pay end' by (simp only: quic_verdict_def world_simps same) blast
  qed
qed

lemma quic_abort_verdict:
  "w_fs w1 = w_fs w \<Longrightarrow> w_stdout w1 = w_stdout w \<Longrightarrow> quic_verdict out temp w 1 (quic_abort lg temp why w1)"
  by (auto simp: quic_verdict_def quic_abort_def remove_file_def world_simps)

lemma quic_loop_verdict:
  "quic_client_loop lg out temp cks peer w = (rc, w') \<Longrightarrow> w_fs w temp = Some (new_file []) \<Longrightarrow> temp \<noteq> out \<Longrightarrow>
   quic_verdict out temp w rc w'"
proof (induction lg out temp cks peer w rule: quic_client_loop.induct)
  case (1 lg out temp cks peer w)
  obtain stop w0 where w0: "read_stop w = (stop, w0)" by fastforce
  then have k0: "w_fs w0 = w_fs w" "w_stdout w0 = w_stdout w" "w_net w0 = w_net w"
    by (auto simp: read_stop_def split: option.splits nat.splits)
  obtain r peer1 w1 where r: "client_recv_packet_logged lg peer ''DATA_TRANSFER'' ''RECV_QUIC_PACKET'' w0 = (r, peer1, w1)"
    using prod_cases3 by blast
  note kr = quic_recv_keeps [OF r [unfolded client_recv_packet_logged_def], unfolded k0]
  note unf = quic_client_loop.simps [of lg out temp cks peer w]
  show ?case
  proof (cases "stop \<or> r = None")
    case True
    then consider "stop" | "\<not> stop" "r = None" by blast
    then show ?thesis
    proof cases
      case 1
      with "1.prems"(1) k0(1,2) show ?thesis unfolding unf by (auto simp: w0 intro!: quic_abort_verdict)
    next
      case 2
      with "1.prems"(1) r kr(1,2) show ?thesis unfolding unf by (auto simp: w0 intro!: quic_abort_verdict)
    qed
  next
    case False
    then obtain p where p: "\<not> stop" "r = Some p" by auto
    obtain sent w2 where s: "client_send_packet_logged lg peer1 (quic_ack p) ''VERIFY'' ''SEND_ACK'' w1 = (sent, w2)" by fastforce
    note ks = quic_send_keeps [OF s [unfolded client_send_packet_logged_def]]
    have ok: "quic_ok p" using r p(2)
      by (auto simp: client_recv_packet_logged_def quic_recv_def intro: decode_quic_ok split: option.splits prod.splits if_splits)
    consider (stream) "qp_type p = quic_type QUIC_PKT_STREAM" | (close) "qp_type p = quic_type QUIC_PKT_CLOSE"
      | (other) "qp_type p \<noteq> quic_type QUIC_PKT_STREAM" "qp_type p \<noteq> quic_type QUIC_PKT_CLOSE" by blast
    then show ?thesis
    proof cases
      case stream
      show ?thesis
      proof (cases sent)
        case True
        with "1.prems"(1) p stream have "quic_client_loop lg out temp (store_chunk p cks) peer1 w2 = (rc, w')"
          unfolding unf by (simp add: w0 r s)
        from "1.IH"(1) [OF w0 [symmetric] p(1) r [symmetric] p(2) refl stream s [symmetric] _ this] True ks kr "1.prems"(2,3)
        have "quic_verdict out temp w2 rc w'" by simp
        then show ?thesis by (rule quic_verdict_cong) (use ks kr in auto)
      next
        case False
        with "1.prems"(1) p stream ks kr show ?thesis unfolding unf by (auto simp: w0 r s intro!: quic_abort_verdict)
      qed
    next
      case close
      with "1.prems"(1) p have "quic_client_close lg out temp cks peer1 p w1 = (rc, w')"
        unfolding unf by (simp add: w0 r)
      then show ?thesis proof (rule quic_close_verdict)
        show "quic_arrives w p" using kr(4) p(2) k0(3) by (simp add: quic_arrives_def)
      qed (use "1.prems" kr ok close in auto)
    next
      case other
      with "1.prems"(1) p have "quic_client_loop lg out temp cks peer1 w1 = (rc, w')"
        unfolding unf by (simp add: w0 r)
      from "1.IH"(2) [OF w0 [symmetric] p(1) r [symmetric] p(2) refl other this] kr "1.prems"(2,3)
      have "quic_verdict out temp w1 rc w'" by simp
      then show ?thesis by (rule quic_verdict_cong) (use kr in auto)
    qed
  qed
qed

lemma quic_send_keeps_all:
  "quic_send dr lg peer p st e w = (ok, w1) \<Longrightarrow> w_fs w1 = w_fs w \<and> w_stdout w1 = w_stdout w \<and> w_net w1 = w_net w"
  using quic_send_keeps [of dr lg peer p st e w ok w1] by simp

lemma quic_recv_keeps_all:
  "quic_recv dr lg peer st e w = (r, peer1, w1) \<Longrightarrow>
   w_fs w1 = w_fs w \<and> w_stdout w1 = w_stdout w \<and> set (w_net w1) \<subseteq> set (w_net w)"
  using quic_recv_keeps(1-3) [of dr lg peer st e w r peer1 w1] by simp

lemma quic_handshake_keeps:
  assumes "quic_client_handshake lg cid peer w = (r, peer1, w1)"
  shows "w_fs w1 = w_fs w \<and> w_stdout w1 = w_stdout w \<and> set (w_net w1) \<subseteq> set (w_net w)"
  using assms
  unfolding quic_client_handshake_def Let_def client_send_packet_logged_def client_recv_packet_logged_def
  by (auto split: prod.splits if_splits dest!: quic_send_keeps_all quic_recv_keeps_all)

text \<open>
  C35. Every run of the QUIC-like client prints one verdict: OK with a closing packet that
  announced the digest of the file now under the output name (or, if it could not be
  renamed, under the temporary one), and nothing else changed; or ABORT with nothing
  changed but the temporary file. This holds whatever the network brings and whichever
  sends and writes fail.
\<close>

theorem quic_client_verdict:
  assumes "quic_client_session lg out temp peer w = (rc, w')"
    and "w_fs w temp = Some (new_file [])" "temp \<noteq> out"
  shows "(rc = 0 \<and> w_stdout w' = w_stdout w @ [''OK'' @ [CHR 0x0A]] \<and>
      (\<exists>contents p. quic_arrives w p \<and> qp_type p = quic_type QUIC_PKT_CLOSE \<and> qp_payload p = fips_sha1 contents \<and>
        (w_fs w' = (w_fs w)(out \<mapsto> new_file contents, temp := None) \<or> w_fs w' = (w_fs w)(temp \<mapsto> new_file contents)))) \<or>
     (rc = 1 \<and> w_stdout w' = w_stdout w @ [''ABORT'' @ [CHR 0x0A]] \<and> (\<exists>t. w_fs w' = (w_fs w)(temp := t)))"
proof -
  obtain nonce w1 where n: "demo_random_nonce 4 w = (nonce, w1)" by fastforce
  then have k1: "w_fs w1 = w_fs w" "w_stdout w1 = w_stdout w" "w_net w1 = w_net w"
    by (auto simp: demo_random_nonce_def split: list.splits)
  obtain r peer1 w2 where h: "quic_client_handshake lg (load_u32 LittleEndian nonce) peer w1 = (r, peer1, w2)"
    using prod_cases3 by blast
  note k2 = quic_handshake_keeps [OF h, unfolded k1]
  have "quic_verdict out temp w rc w'"
  proof (cases r)
    case None
    with assms(1) n h have "quic_client_loop lg out temp [] peer1 w2 = (rc, w')" by (simp add: quic_client_session_def)
    from quic_loop_verdict [OF this _ assms(3)] assms(2) k2 have "quic_verdict out temp w2 rc w'" by simp
    then show ?thesis by (rule quic_verdict_cong) (use k2 in auto)
  next
    case (Some why)
    with assms(1) n h have end': "rc = 1" "w' = demo_finish lg ''ABORT'' why w2" by (simp_all add: quic_client_session_def)
    have "w_fs w' = (w_fs w)(temp := w_fs w temp)" using k2 end' by (simp add: world_simps)
    then have "\<exists>t. w_fs w' = (w_fs w)(temp := t)" by blast
    with end' k2 show ?thesis by (simp add: quic_verdict_def world_simps)
  qed
  then show ?thesis unfolding quic_verdict_def .
qed

end
