(* ===== verification/QuicRun.thy ===== *)
theory QuicRun
  imports QuicFacts
begin

text \<open>
  Whole runs of the QUIC-like demo without faults: each program sends what the other one
  reads, in every scenario, and the client ends with the server's file.
\<close>

section \<open>Packets one by one\<close>

abbreviation arrival_of :: "sockaddr_in \<Rightarrow> QuicPacket \<Rightarrow> select_result" where
  "arrival_of a p \<equiv> SelReady (RecvData a (quic_bytes p))"

abbreviation sent_to :: "sockaddr_in \<Rightarrow> QuicPacket \<Rightarrow> sockaddr_in \<times> byte list" where
  "sent_to a p \<equiv> (a, quic_bytes p)"

lemma quic_send_calm:
  assumes "dgram_calm w" "quic_ok p"
  shows "\<exists>w1. quic_send dr lg peer p st e w = (True, w1) \<and> dgram_step [] [sent_to (fst peer) p] w w1"
  using assms by (simp add: quic_send_def encode_quic_bytes demo_sendto_works dgram_step_def dgram_calm_def world_simps)

lemma quic_recv_calm:
  assumes "dgram_calm w" "quic_ok p" "w_net w = arrival_of a p # rest"
  shows "\<exists>w1. quic_recv dr lg peer st e w = (Some p, (a, peer_to_string a 64), w1) \<and> dgram_step [arrival_of a p] [] w w1 \<and>
    w_net w1 = rest"
proof -
  have "length (quic_bytes p) \<le> 1219" "quic_bytes p \<noteq> []" using assms(2) by (auto simp: quic_ok_def quic_bytes_def)
  then show ?thesis using assms
    by (simp add: quic_recv_def demo_recvfrom_arrived [OF assms(3)] quic_sizes decode_quic dgram_step_def dgram_calm_def world_simps)
qed

section \<open>The packets of a run\<close>

lemma quic_payload_ok: "length d \<le> 1200 \<Longrightarrow> quic_ok (quic_payload d p)"
  by (simp add: quic_ok_def quic_payload_def unat_of_nat take_bit_nat_eq_self)

lemma quic_payload_sel [simp]:
  "qp_payload (quic_payload d p) = d" "qp_type (quic_payload d p) = qp_type p"
  "qp_stream_id (quic_payload d p) = qp_stream_id p" "qp_seq (quic_payload d p) = qp_seq p"
  "qp_connection_id (quic_payload d p) = qp_connection_id p" "qp_payload_len (quic_payload d p) = word_of_nat (length d)"
  by (simp_all add: quic_payload_def)

lemma stream_packet_sel [simp]:
  "qp_payload (stream_packet cid sid seq r d) = d" "qp_type (stream_packet cid sid seq r d) = 63"
  "qp_stream_id (stream_packet cid sid seq r d) = sid" "qp_seq (stream_packet cid sid seq r d) = seq"
  by (simp_all add: stream_packet_def)

lemma stream_packet_ok: "length d \<le> 1200 \<Longrightarrow> quic_ok (stream_packet cid sid seq r d)"
  by (simp add: stream_packet_def quic_payload_ok)

lemma quic_ack_ok [simp]: "quic_ok (quic_ack p)"
  by (simp add: quic_ack_def zero_quic_def quic_ok_def)

lemma quic_ack_sel [simp]: "qp_type (quic_ack p) = 64" "qp_ack (quic_ack p) = qp_seq p"
  by (simp_all add: quic_ack_def)

fun stream_frames :: "bool \<Rightarrow> u32 \<Rightarrow> u16 \<Rightarrow> byte list list \<Rightarrow> QuicPacket list" where
  "stream_frames lossy cid seq [] = []"
| "stream_frames lossy cid seq (d # ds) =
     stream_packet cid 1 (ucast seq) (if lossy \<and> seq = 1 then 1 else 0) d # stream_frames lossy cid (seq + 1) ds"

definition reorder_frames :: "u32 \<Rightarrow> byte list \<Rightarrow> QuicPacket list" where
  "reorder_frames cid data = (let k = length data - length data div 2 in
     [stream_packet cid 3 2 0 (drop k data), stream_packet cid 1 1 0 (take k data)])"

definition quic_frames :: "string option \<Rightarrow> u32 \<Rightarrow> byte list \<Rightarrow> QuicPacket list" where
  "quic_frames scenario cid data =
     (if scenario = Some ''stream-reorder'' \<and> length data > 2 then reorder_frames cid data
      else stream_frames (scenario = Some ''loss-recovery'') cid 1 (chunks 1200 data))"

definition quic_simple :: "QuicType \<Rightarrow> u32 \<Rightarrow> byte list \<Rightarrow> QuicPacket" where
  "quic_simple type cid d = quic_payload d (zero_quic\<lparr>qp_type := quic_type type, qp_connection_id := cid\<rparr>)"

lemma quic_simple_sel [simp]:
  "qp_payload (quic_simple type cid d) = d" "qp_type (quic_simple type cid d) = quic_type type"
  "qp_connection_id (quic_simple type cid d) = cid" "qp_payload_len (quic_simple type cid d) = word_of_nat (length d)"
  by (simp_all add: quic_simple_def)

lemma quic_simple_ok: "length d \<le> 1200 \<Longrightarrow> quic_ok (quic_simple type cid d)"
  by (simp add: quic_simple_def quic_payload_ok)

text \<open>What the server and what the client send.\<close>

definition server_packets :: "string option \<Rightarrow> u32 \<Rightarrow> byte list \<Rightarrow> QuicPacket list" where
  "server_packets scenario cid data =
     quic_simple QUIC_PKT_HANDSHAKE cid (bytes_of_string ''server-hello'') # quic_frames scenario cid data @
     [quic_simple QUIC_PKT_CLOSE cid (fips_sha1 data)]"

definition client_packets :: "string option \<Rightarrow> u32 \<Rightarrow> byte list \<Rightarrow> QuicPacket list" where
  "client_packets scenario cid data =
     quic_simple QUIC_PKT_INITIAL cid (bytes_of_string ''client-hello'') #
     (if scenario = Some ''zero-rtt-replay-risk'' then [quic_simple QUIC_PKT_ZERO_RTT cid (bytes_of_string ''warmup'')] else []) @
     quic_simple QUIC_PKT_HANDSHAKE_ACK cid [] # map quic_ack (quic_frames scenario cid data)"

section \<open>The server\<close>

lemma await_ack_calm:
  assumes "dgram_calm w" "w_net w = arrival_of a (quic_ack p) # rest"
  shows "\<exists>w1. await_ack lg peer (qp_seq p) w = (True, (a, peer_to_string a 64), w1) \<and>
    dgram_step [arrival_of a (quic_ack p)] [] w w1 \<and> w_net w1 = rest"
  using quic_recv_calm [OF assms(1) quic_ack_ok assms(2), of "''Client -> Server''" lg peer "''VERIFY''" "''RECV_ACK''"]
  by (auto simp: await_ack_def recv_packet_logged_def)

text \<open>One packet of the file and its acknowledgement.\<close>

lemma send_and_ack:
  assumes "dgram_calm w" "quic_ok p" "w_net w = arrival_of a (quic_ack p) # rest" "fst peer = a"
  shows "\<exists>w1 w2. send_packet_logged lg peer p st e w = (True, w1) \<and>
    await_ack lg peer (qp_seq p) w1 = (True, (a, peer_to_string a 64), w2) \<and> getenv w1 = getenv w \<and>
    dgram_step [arrival_of a (quic_ack p)] [sent_to a p] w w2 \<and> w_net w2 = rest"
proof -
  obtain w1 where s: "send_packet_logged lg peer p st e w = (True, w1)" "dgram_step [] [sent_to (fst peer) p] w w1"
    using quic_send_calm [OF assms(1,2)] unfolding send_packet_logged_def by blast
  then have n: "dgram_calm w1" "w_net w1 = arrival_of a (quic_ack p) # rest" using assms(3) by (auto simp: dgram_step_def)
  from await_ack_calm [OF n, of lg peer] obtain w2 where r: "await_ack lg peer (qp_seq p) w1 = (True, (a, peer_to_string a 64), w2)"
    "dgram_step [arrival_of a (quic_ack p)] [] w1 w2" "w_net w2 = rest" by blast
  have "dgram_step [arrival_of a (quic_ack p)] [sent_to a p] w w2"
    by (rule dgram_step_trans [OF s(2) r(2)]) (simp_all add: assms(4))
  moreover have "getenv w1 = getenv w" by (rule ext) (rule dgram_step_getenv [OF s(2)])
  ultimately show ?thesis using s(1) r by blast
qed

lemma stream_loop_calm:
  assumes "dgram_calm w" "ds = chunks 1200 (drop offset data)" "fst peer = a"
    and "w_net w = map (arrival_of a) (map quic_ack (stream_frames lossy cid seq ds)) @ rest"
    and "lossy = (getenv w ''UDP_SECURE_SCENARIO'' = Some ''loss-recovery'')"
  shows "\<exists>peer1 w1. quic_stream_loop lg cid data seq offset peer w = (None, peer1, w1) \<and> fst peer1 = a \<and>
    dgram_step (map (arrival_of a) (map quic_ack (stream_frames lossy cid seq ds)))
      (map (sent_to a) (stream_frames lossy cid seq ds)) w w1"
  using assms
proof (induction ds arbitrary: w offset seq peer)
  case Nil
  then have "\<not> offset < length data" by (metis chunks_step drop_eq_Nil linorder_not_le list.distinct(1) zero_less_numeral)
  with Nil.prems(1,3) show ?case
    by (subst quic_stream_loop.simps) (simp add: dgram_step_refl)
next
  case (Cons d ds)
  let ?p = "stream_packet cid 1 (ucast seq) (if lossy \<and> seq = 1 then 1 else 0) d"
  have less: "offset < length data" using Cons.prems(2) by (metis chunks_Nil drop_all linorder_not_le list.distinct(1))
  then have d: "d = take 1200 (drop offset data)" "ds = chunks 1200 (drop (offset + 1200) data)"
    using Cons.prems(2) by (auto simp: chunks_step add.commute)
  let ?c = "min (length data - offset) 1200"
  have dc: "take ?c (drop offset data) = d" "length d = ?c" "ds = chunks 1200 (drop (offset + ?c) data)" "length d \<le> 1200"
    by (auto simp: d min_def)
  obtain w1 w2 where s: "send_packet_logged lg peer ?p ''DATA_TRANSFER'' ''SEND_STREAM'' w = (True, w1)"
    "await_ack lg peer (ucast seq) w1 = (True, (a, peer_to_string a 64), w2)"
    "dgram_step [arrival_of a (quic_ack ?p)] [sent_to a ?p] w w2"
    "w_net w2 = map (arrival_of a) (map quic_ack (stream_frames lossy cid (seq + 1) ds)) @ rest"
    using send_and_ack [OF Cons.prems(1) stream_packet_ok [OF dc(4), of cid 1 "ucast seq" "if lossy \<and> seq = 1 then 1 else 0"] _ Cons.prems(3)]
      Cons.prems(4) by fastforce
  have lossy2: "lossy = (getenv w2 ''UDP_SECURE_SCENARIO'' = Some ''loss-recovery'')"
    using Cons.prems(5) dgram_step_getenv [OF s(3)] by simp
  have calm2: "dgram_calm w2" using s(3) by (simp add: dgram_step_def)
  from Cons.IH [OF calm2 dc(3) _ s(4) lossy2, of "(a, peer_to_string a 64)"] obtain peer3 w3 where
    r: "quic_stream_loop lg cid data (seq + 1) (offset + ?c) (a, peer_to_string a 64) w2 = (None, peer3, w3)" "fst peer3 = a"
    "dgram_step (map (arrival_of a) (map quic_ack (stream_frames lossy cid (seq + 1) ds)))
      (map (sent_to a) (stream_frames lossy cid (seq + 1) ds)) w2 w3" by auto
  have "quic_stream_loop lg cid data seq offset peer w = (None, peer3, w3)"
    using less dc(1,2) s(1,2) r(1) Cons.prems(5)
    by (subst quic_stream_loop.simps) (simp add: quic_sizes Let_def)
  with r(2) dgram_step_trans [OF s(3) r(3)] show ?case by auto
qed

lemma reorder_calm:
  assumes "dgram_calm w" "fst peer = a" "length data \<le> 1200"
    and "w_net w = map (arrival_of a) (map quic_ack (reorder_frames cid data)) @ rest"
  shows "\<exists>peer1 w1. quic_reorder lg cid data peer w = (None, peer1, w1) \<and> fst peer1 = a \<and>
    dgram_step (map (arrival_of a) (map quic_ack (reorder_frames cid data))) (map (sent_to a) (reorder_frames cid data)) w w1"
proof -
  let ?k = "length data - length data div 2"
  let ?two = "stream_packet cid 3 2 0 (drop ?k data)" and ?one = "stream_packet cid 1 1 0 (take ?k data)"
  have fr: "reorder_frames cid data = [?two, ?one]" by (simp add: reorder_frames_def Let_def)
  have ok: "quic_ok ?two" "quic_ok ?one" using assms(3) by (auto intro!: stream_packet_ok)
  obtain w1 w2 where s: "send_packet_logged lg peer ?two ''DATA_TRANSFER'' ''SEND_STREAM'' w = (True, w1)"
    "await_ack lg peer 2 w1 = (True, (a, peer_to_string a 64), w2)" "dgram_step [arrival_of a (quic_ack ?two)] [sent_to a ?two] w w2"
    "w_net w2 = arrival_of a (quic_ack ?one) # rest"
    using send_and_ack [OF assms(1) ok(1) _ assms(2), of "arrival_of a (quic_ack ?one) # rest"] assms(4) by (fastforce simp: fr)
  have calm2: "dgram_calm w2" using s(3) by (simp add: dgram_step_def)
  obtain w3 w4 where t: "send_packet_logged lg (a, peer_to_string a 64) ?one ''DATA_TRANSFER'' ''SEND_STREAM'' w2 = (True, w3)"
    "await_ack lg (a, peer_to_string a 64) 1 w3 = (True, (a, peer_to_string a 64), w4)"
    "dgram_step [arrival_of a (quic_ack ?one)] [sent_to a ?one] w2 w4"
    using send_and_ack [OF calm2 ok(2) s(4), of "(a, peer_to_string a 64)"] by fastforce
  have "quic_reorder lg cid data peer w = (None, (a, peer_to_string a 64), w4)"
    using s(1,2) t(1,2) by (simp add: quic_reorder_def Let_def)
  with dgram_step_trans [OF s(3) t(3)] show ?thesis by (auto simp: fr)
qed

lemma transfer_calm:
  assumes "dgram_calm w" "fst peer = a" "getenv w ''UDP_SECURE_SCENARIO'' = scenario"
    and "scenario = Some ''stream-reorder'' \<longrightarrow> length data \<le> 1200"
    and "w_net w = map (arrival_of a) (map quic_ack (quic_frames scenario cid data)) @ rest"
  shows "\<exists>peer1 w1. quic_transfer undef lg cid data peer w = (None, peer1, w1) \<and> fst peer1 = a \<and>
    dgram_step (map (arrival_of a) (map quic_ack (quic_frames scenario cid data))) (map (sent_to a) (quic_frames scenario cid data)) w w1"
proof (cases "scenario = Some ''stream-reorder'' \<and> length data > 2")
  case True
  then show ?thesis
    using reorder_calm [of w peer a data cid rest lg] assms by (auto simp: quic_transfer_def quic_frames_def quic_sizes)
next
  case False
  then have fr: "quic_frames scenario cid data = stream_frames (scenario = Some ''loss-recovery'') cid 1 (chunks 1200 data)"
    by (auto simp: quic_frames_def)
  have "quic_transfer undef lg cid data peer w = quic_stream_loop lg cid data 1 0 peer w"
    using False assms(3) by (auto simp: quic_transfer_def)
  moreover have "\<exists>peer1 w1. quic_stream_loop lg cid data 1 0 peer w = (None, peer1, w1) \<and> fst peer1 = a \<and>
      dgram_step (map (arrival_of a) (map quic_ack (quic_frames scenario cid data))) (map (sent_to a) (quic_frames scenario cid data)) w w1"
    unfolding fr by (rule stream_loop_calm [OF assms(1) _ assms(2)]) (use assms(3,5) fr in simp_all)
  ultimately show ?thesis by simp
qed

lemma server_session_calm:
  assumes calm: "dgram_calm w" and scen: "getenv w ''UDP_SECURE_SCENARIO'' = scenario"
    "scenario = Some ''stream-reorder'' \<longrightarrow> length data \<le> 1200"
    and net: "w_net w = map (arrival_of a) (client_packets scenario cid data) @ rest"
  shows "\<exists>w'. quic_server_session undef lg peer0 data (fips_sha1 data) w = (0, w') \<and>
    w_sent w' = w_sent w @ map (sent_to a) (server_packets scenario cid data)"
proof -
  let ?A = "(a, peer_to_string a 64)"
  let ?z = "if scenario = Some ''zero-rtt-replay-risk'' then [quic_simple QUIC_PKT_ZERO_RTT cid (bytes_of_string ''warmup'')] else []"
  let ?initial = "quic_simple QUIC_PKT_INITIAL cid (bytes_of_string ''client-hello'')"
  let ?acks = "map (arrival_of a) (map quic_ack (quic_frames scenario cid data))"
  define tail1 where "tail1 = arrival_of a (quic_simple QUIC_PKT_HANDSHAKE_ACK cid []) # ?acks @ rest"
  have net1: "w_net w = arrival_of a ?initial # map (arrival_of a) ?z @ tail1"
    using net by (simp add: client_packets_def tail1_def)
  have "quic_ok ?initial" by (rule quic_simple_ok) simp
  from quic_recv_calm [OF calm this net1, of "''Client -> Server''" lg "(peer0, ''-'')" "''HANDSHAKE''" "''RECV_INITIAL''"]
  obtain w1 where i: "recv_packet_logged lg (peer0, ''-'') ''HANDSHAKE'' ''RECV_INITIAL'' w = (Some ?initial, ?A, w1)"
    "dgram_step [arrival_of a ?initial] [] w w1" "w_net w1 = map (arrival_of a) ?z @ tail1"
    unfolding recv_packet_logged_def by blast
  have g1: "getenv w1 v = getenv w v" for v by (rule dgram_step_getenv [OF i(2)])
  have c1: "dgram_calm w1" using i(2) by (simp add: dgram_step_def)
  obtain w2 where z: "quic_zero_rtt lg ?A w1 = (?A, w2)" "dgram_step (map (arrival_of a) ?z) [] w1 w2" "w_net w2 = tail1"
  proof (cases "scenario = Some ''zero-rtt-replay-risk''")
    case True
    let ?zero = "quic_simple QUIC_PKT_ZERO_RTT cid (bytes_of_string ''warmup'')"
    have "quic_ok ?zero" by (rule quic_simple_ok) simp
    moreover have "w_net w1 = arrival_of a ?zero # tail1" using i(3) True by simp
    ultimately obtain w2 where r: "recv_packet_logged lg ?A ''HANDSHAKE'' ''RECV_ZERO_RTT'' w1 = (Some ?zero, ?A, w2)"
      "dgram_step [arrival_of a ?zero] [] w1 w2" "w_net w2 = tail1"
      using quic_recv_calm [OF c1] unfolding recv_packet_logged_def by blast
    show ?thesis
      by (rule that [of "logger_write lg (Some ((demo_init_event ''WARN'' ''ZERO_RTT_REPLAY_RISK'' ''HANDSHAKE''
             ''0-RTT replay risk observed'')\<lparr>le_peer := Some (peer_to_string a 64), le_connection_id := Some ''0-rtt'',
             le_security_replay := 1, le_handshake_phase := Some ''0-rtt''\<rparr>)) w2"])
        (use True r g1 scen(1) dgram_log [OF r(2)] in \<open>simp_all add: quic_zero_rtt_def world_simps\<close>)
  next
    case False
    show ?thesis
      by (rule that [of w1]) (use False i(3) g1 scen(1) c1 in \<open>auto simp: quic_zero_rtt_def dgram_step_refl\<close>)
  qed
  let ?reply = "quic_simple QUIC_PKT_HANDSHAKE cid (bytes_of_string ''server-hello'')"
  have c2: "dgram_calm w2" using z(2) by (simp add: dgram_step_def)
  have "quic_ok ?reply" by (rule quic_simple_ok) simp
  from quic_send_calm [OF c2 this] obtain w3 where h:
    "send_packet_logged lg ?A ?reply ''HANDSHAKE'' ''SEND_HANDSHAKE'' w2 = (True, w3)" "dgram_step [] [sent_to a ?reply] w2 w3"
    unfolding send_packet_logged_def by fastforce
  have c3: "dgram_calm w3" "w_net w3 = tail1" using h(2) z(3) by (auto simp: dgram_step_def)
  have "quic_ok (quic_simple QUIC_PKT_HANDSHAKE_ACK cid [])" by (rule quic_simple_ok) simp
  from quic_recv_calm [OF c3(1) this c3(2) [unfolded tail1_def]] obtain w4 where k:
    "recv_packet_logged lg ?A ''HANDSHAKE'' ''RECV_HANDSHAKE_ACK'' w3 = (Some (quic_simple QUIC_PKT_HANDSHAKE_ACK cid []), ?A, w4)"
    "dgram_step [arrival_of a (quic_simple QUIC_PKT_HANDSHAKE_ACK cid [])] [] w3 w4" "w_net w4 = ?acks @ rest"
    unfolding recv_packet_logged_def by blast
  note to4 = dgram_step_trans [OF dgram_step_trans [OF dgram_step_trans [OF i(2) z(2) refl refl] h(2) refl refl] k(2) refl refl]
  have c4: "dgram_calm w4" "getenv w4 ''UDP_SECURE_SCENARIO'' = scenario"
    using to4 dgram_step_getenv [OF to4] scen(1) by (auto simp: dgram_step_def)
  from transfer_calm [OF c4(1) _ c4(2) scen(2) k(3), of ?A undef lg] obtain peer5 w5 where t:
    "quic_transfer undef lg cid data ?A w4 = (None, peer5, w5)" "fst peer5 = a"
    "dgram_step ?acks (map (sent_to a) (quic_frames scenario cid data)) w4 w5" by auto
  let ?close = "quic_simple QUIC_PKT_CLOSE cid (fips_sha1 data)"
  have c5: "dgram_calm w5" using t(3) by (simp add: dgram_step_def)
  have "quic_ok ?close" by (rule quic_simple_ok) simp
  from quic_send_calm [OF c5 this] t(2) obtain w6 where e:
    "send_packet_logged lg peer5 ?close ''DONE'' ''SEND_CLOSE'' w5 = (True, w6)" "dgram_step [] [sent_to a ?close] w5 w6"
    unfolding send_packet_logged_def by fastforce
  note to6 = dgram_step_trans [OF dgram_step_trans [OF to4 t(3) refl refl] e(2) refl refl]
  let ?w' = "demo_finish lg ''OK'' ''quic-like flow completed'' w6"
  have "quic_server_reply undef lg data (fips_sha1 data) cid ?A w2 = (0, ?w')"
    unfolding quic_server_reply_def quic_close_def Let_def quic_simple_def [symmetric]
    by (simp add: h(1) k(1) t(1) e(1))
  then have "quic_server_session undef lg peer0 data (fips_sha1 data) w = (0, ?w')"
    using i(1) z(1) by (simp add: quic_server_session_def)
  moreover have "w_sent ?w' = w_sent w @ map (sent_to a) (server_packets scenario cid data)"
    using to6 by (simp add: dgram_step_def server_packets_def world_simps)
  ultimately show ?thesis by blast
qed

section \<open>The client\<close>

lemma client_loop_streams:
  assumes "dgram_calm w" "w_net w = map (arrival_of s) ps @ rest" "length cks + length ps \<le> 256"
    and "\<And>p. p \<in> set ps \<Longrightarrow> quic_ok p \<and> qp_type p = 63"
  shows "\<exists>peer1 w1. quic_client_loop lg out temp cks peer w = quic_client_loop lg out temp (cks @ map chunk_of ps) peer1 w1 \<and>
    dgram_step (map (arrival_of s) ps) (map (sent_to s) (map quic_ack ps)) w w1"
  using assms
proof (induction ps arbitrary: cks peer w)
  case Nil
  then show ?case by (intro exI [of _ peer] exI [of _ w]) (simp add: dgram_step_refl)
next
  case (Cons p ps)
  have p: "quic_ok p" "qp_type p = 63" using Cons.prems(4) by auto
  have stop: "read_stop w = (False, w)" using Cons.prems(1) by (simp add: dgram_calm_def read_stop_def)
  have n: "w_net w = arrival_of s p # map (arrival_of s) ps @ rest" using Cons.prems(2) by simp
  from quic_recv_calm [OF Cons.prems(1) p(1) n] obtain w1 where r:
    "client_recv_packet_logged lg peer ''DATA_TRANSFER'' ''RECV_QUIC_PACKET'' w = (Some p, (s, peer_to_string s 64), w1)"
    "dgram_step [arrival_of s p] [] w w1" "w_net w1 = map (arrival_of s) ps @ rest"
    unfolding client_recv_packet_logged_def by blast
  have c1: "dgram_calm w1" using r(2) by (simp add: dgram_step_def)
  from quic_send_calm [OF c1 quic_ack_ok [of p]] obtain w2 where a:
    "client_send_packet_logged lg (s, peer_to_string s 64) (quic_ack p) ''VERIFY'' ''SEND_ACK'' w1 = (True, w2)"
    "dgram_step [] [sent_to s (quic_ack p)] w1 w2"
    unfolding client_send_packet_logged_def by fastforce
  have c2: "dgram_calm w2" "w_net w2 = map (arrival_of s) ps @ rest" using a(2) r(3) by (auto simp: dgram_step_def)
  have store: "store_chunk p cks = cks @ [chunk_of p]" using Cons.prems(3) by (simp add: store_chunk_def)
  have one: "quic_client_loop lg out temp cks peer w = quic_client_loop lg out temp (cks @ [chunk_of p]) (s, peer_to_string s 64) w2"
    by (subst quic_client_loop.simps) (simp add: stop r(1) a(1) p(2) store)
  from Cons.IH [OF c2, of "cks @ [chunk_of p]" "(s, peer_to_string s 64)"] Cons.prems(3,4) obtain peer3 w3 where
    "quic_client_loop lg out temp (cks @ [chunk_of p]) (s, peer_to_string s 64) w2 =
       quic_client_loop lg out temp (cks @ [chunk_of p] @ map chunk_of ps) peer3 w3"
    "dgram_step (map (arrival_of s) ps) (map (sent_to s) (map quic_ack ps)) w2 w3" by auto
  with one dgram_step_trans [OF dgram_step_trans [OF r(2) a(2) refl refl]] show ?case
    by (intro exI [of _ peer3] exI [of _ w3]) simp
qed

lemma write_chunks_calm:
  "w_writefault w = [] \<Longrightarrow> w_fs w temp = Some (new_file d) \<Longrightarrow>
   w_fs (write_chunks temp cks w) = (w_fs w)(temp \<mapsto> new_file (d @ concat (map ck_payload cks))) \<and>
   w_renamefault (write_chunks temp cks w) = w_renamefault w"
proof (induction cks arbitrary: w d)
  case Nil
  then have "(w_fs w)(temp \<mapsto> new_file d) = w_fs w" by (intro fun_upd_idem)
  then show ?case by (simp add: write_chunks_def)
next
  case (Cons ck cks)
  let ?w = "snd (fwrite_all temp (ck_payload ck) w)"
  have w: "w_fs ?w = (w_fs w)(temp \<mapsto> new_file (d @ ck_payload ck))" "w_writefault ?w = []" "w_renamefault ?w = w_renamefault w"
    using Cons.prems by (simp_all add: fwrite_all_def Let_def file_data_def new_file_def)
  then have "w_fs ?w temp = Some (new_file (d @ ck_payload ck))" by simp
  note ih = Cons.IH [OF w(2) this, unfolded w(1) fun_upd_upd]
  then show ?case using w(3) by (simp add: write_chunks_Cons)
qed

lemma chunk_payload:
  assumes "length d \<le> 1200" shows "ck_payload (chunk_of (stream_packet cid sid s r d)) = d"
  using assms by (simp add: chunk_of_def stream_packet_def unat_of_nat take_bit_nat_eq_self)

lemma chunks_of_frames:
  "(\<And>d. d \<in> set ds \<Longrightarrow> length d \<le> 1200) \<Longrightarrow> map ck_payload (map chunk_of (stream_frames lossy cid seq ds)) = ds"
proof (induction ds arbitrary: seq)
  case (Cons d ds)
  then have "length d \<le> 1200" by simp
  with Cons show ?case by (simp add: chunk_payload)
qed simp

lemma frame_keys:
  assumes "unat seq + length ds \<le> 65536"
  shows "map chunk_key (map chunk_of (stream_frames lossy cid seq ds)) =
    map (\<lambda>k. 4294967296 + int (unat seq + k)) [0..<length ds]"
  using assms
proof (induction ds arbitrary: seq)
  case (Cons d ds)
  have first: "chunk_key (chunk_of (stream_packet cid 1 (ucast seq) r d)) = 4294967296 + int (unat seq)" for r
    using unsigned_less [of seq, where ?'a = int]
    by (simp add: chunk_key_def chunk_of_def unsigned_ucast_eq take_bit_int_eq_self_iff)
  show ?case
  proof (cases "ds = []")
    case True
    then show ?thesis by (simp add: first)
  next
    case False
    then have "unat (seq + 1) = Suc (unat seq)" using Cons.prems by (cases ds) (auto simp: unat_word_ariths)
    with Cons.IH [of "seq + 1"] Cons.prems first show ?thesis
      by (simp add: upt_conv_Cons map_Suc_upt [symmetric] del: upt_Suc)
  qed
qed simp

lemma frames_ok:
  assumes "scenario = Some ''stream-reorder'' \<longrightarrow> length data \<le> 1200" "p \<in> set (quic_frames scenario cid data)"
  shows "quic_ok p \<and> qp_type p = 63"
proof -
  have "quic_ok p \<and> qp_type p = 63" if "p \<in> set (stream_frames l cid seq ds)" "\<And>d. d \<in> set ds \<Longrightarrow> length d \<le> 1200" for l seq ds
    using that by (induction ds arbitrary: seq) (auto intro!: stream_packet_ok)
  moreover have "d \<in> set (chunks 1200 data) \<Longrightarrow> length d \<le> 1200" for d using chunks_bounds by blast
  ultimately show ?thesis
    using assms by (auto simp: quic_frames_def reorder_frames_def Let_def intro!: stream_packet_ok split: if_splits)
qed

lemma length_chunks_bound: "n > 0 \<Longrightarrow> length xs \<le> n * k \<Longrightarrow> length (chunks n xs) \<le> k"
proof (induction n xs arbitrary: k rule: chunks.induct)
  case (1 n xs)
  show ?case
  proof (cases "xs = []")
    case False
    with "1.prems" obtain k' where k: "k = Suc k'" by (cases k) auto
    with False "1.IH" [of k'] "1.prems" show ?thesis by (simp add: chunks_step)
  qed simp
qed

text \<open>The client's sort gives back the file.\<close>

lemma frames_sorted:
  assumes "length data \<le> 307200" "scenario = Some ''stream-reorder'' \<longrightarrow> length data \<le> 1200"
  shows "concat (map ck_payload (qsort_chunks (map chunk_of (quic_frames scenario cid data)))) = data \<and>
    length (quic_frames scenario cid data) \<le> 256"
proof (cases "scenario = Some ''stream-reorder'' \<and> length data > 2")
  case True
  let ?k = "length data - length data div 2"
  let ?two = "chunk_of (stream_packet cid 3 2 0 (drop ?k data))" and ?one = "chunk_of (stream_packet cid 1 1 0 (take ?k data))"
  have "qsort_chunks [?two, ?one] = [?one, ?two]"
    by (rule qsort_chunks_order) (simp_all add: chunk_key_def chunk_of_def)
  moreover have "ck_payload ?two = drop ?k data" "ck_payload ?one = take ?k data"
    by (rule chunk_payload; use True assms(2) in simp)+
  ultimately show ?thesis using True by (simp add: quic_frames_def reorder_frames_def Let_def)
next
  case False
  let ?ds = "chunks 1200 data"
  have len: "length ?ds \<le> 256" using assms(1) by (intro length_chunks_bound) simp_all
  have fr: "quic_frames scenario cid data = stream_frames (scenario = Some ''loss-recovery'') cid 1 ?ds"
    using False by (auto simp: quic_frames_def)
  let ?cks = "map chunk_of (quic_frames scenario cid data)"
  have keys: "map chunk_key ?cks = map (\<lambda>k. 4294967296 + int (1 + k)) [0..<length ?ds]"
    using frame_keys [of 1 ?ds] len by (simp add: fr)
  have "qsort_chunks ?cks = ?cks"
    by (rule qsort_chunks_order) (unfold keys, auto simp: sorted_map distinct_map inj_on_def sorted_wrt_iff_nth_less)
  moreover have "map ck_payload ?cks = ?ds" unfolding fr by (rule chunks_of_frames) (use chunks_bounds in blast)
  moreover have "length (stream_frames l cid seq ds) = length ds" for l seq ds by (induction ds arbitrary: seq) auto
  ultimately show ?thesis using len by (simp add: fr)
qed

lemma client_close_calm:
  assumes "dgram_calm w" "w_fs w temp = Some (new_file [])" "temp \<noteq> out"
    and "concat (map ck_payload (qsort_chunks cks)) = data"
    and "p = quic_simple QUIC_PKT_CLOSE cid (fips_sha1 data)"
  shows "\<exists>w'. quic_client_close lg out temp cks peer p w = (0, w') \<and> w_sent w' = w_sent w \<and> file_data w' out = data"
proof -
  define w1 where "w1 = write_chunks temp (qsort_chunks cks) w"
  have w1: "w_fs w1 = (w_fs w)(temp \<mapsto> new_file data)" "w_renamefault w1 = []"
  proof -
    have "w_writefault w = []" "w_renamefault w = []" using assms(1) by (simp_all add: dgram_calm_def)
    from write_chunks_calm [OF this(1) assms(2), of "qsort_chunks cks", unfolded assms(4)] this(2)
    show "w_fs w1 = (w_fs w)(temp \<mapsto> new_file data)" "w_renamefault w1 = []" unfolding w1_def by simp_all
  qed
  have sent: "w_sent (write_chunks temp xs v) = w_sent v" for xs v
    by (induction xs arbitrary: v) (simp_all add: write_chunks_Cons world_simps, simp add: write_chunks_def)
  have digest: "sha1_file w1 temp = Some (fips_sha1 data)" by (simp add: sha1_file_digest new_file_def sha1_digest_fips w1)
  define w2 where "w2 = logger_write lg (Some ((demo_init_event ''SUCCESS'' ''DIGEST_MATCH'' ''DONE'' ''quic-like digest matched'')
                 \<lparr>le_peer := Some (snd peer), le_sha1 := Some (sha1_to_hex (fips_sha1 data))\<rparr>)) w1"
  have w2: "w_fs w2 = (w_fs w)(temp \<mapsto> new_file data)" "w_renamefault w2 = []" "w_sent w2 = w_sent w"
    using w1 sent [of "qsort_chunks cks" w, folded w1_def] by (simp_all add: w2_def world_simps)
  obtain w3 where w3: "rename_file temp out w2 = (True, w3)" "w_fs w3 out = Some (new_file data)" "w_sent w3 = w_sent w"
    using assms(3) by (simp add: rename_file_def w2 Let_def)
  have "quic_client_close lg out temp cks peer p w = (0, demo_finish lg ''OK'' ''quic-like flow completed'' w3)"
    using w3(1) by (simp add: quic_client_close_def Let_def w1_def [symmetric] digest w2_def [symmetric] assms(5))
  moreover have "w_sent (demo_finish lg ''OK'' ''quic-like flow completed'' w3) = w_sent w"
    "file_data (demo_finish lg ''OK'' ''quic-like flow completed'' w3) out = data"
    using w3 by (simp_all add: world_simps, simp add: file_data_def new_file_def)
  ultimately show ?thesis by blast
qed


text \<open>The client's session: the handshake, the file, the closing packet.\<close>

lemma client_handshake_calm:
  assumes calm: "dgram_calm w" and scen: "getenv w ''UDP_SECURE_SCENARIO'' = scenario" and peer: "fst peer = s"
    and net: "w_net w = arrival_of s (quic_simple QUIC_PKT_HANDSHAKE cid d) # rest" and d: "length d \<le> 1200"
  shows "\<exists>w1. quic_client_handshake lg cid peer w = (None, (s, peer_to_string s 64), w1) \<and> w_net w1 = rest \<and>
    dgram_step [arrival_of s (quic_simple QUIC_PKT_HANDSHAKE cid d)]
      (map (sent_to s) (quic_simple QUIC_PKT_INITIAL cid (bytes_of_string ''client-hello'') #
        (if scenario = Some ''zero-rtt-replay-risk'' then [quic_simple QUIC_PKT_ZERO_RTT cid (bytes_of_string ''warmup'')] else []) @
        [quic_simple QUIC_PKT_HANDSHAKE_ACK cid []])) w w1"
proof -
  let ?initial = "quic_simple QUIC_PKT_INITIAL cid (bytes_of_string ''client-hello'')"
  let ?zero = "quic_simple QUIC_PKT_ZERO_RTT cid (bytes_of_string ''warmup'')"
  let ?ack = "quic_simple QUIC_PKT_HANDSHAKE_ACK cid []" and ?hs = "quic_simple QUIC_PKT_HANDSHAKE cid d"
  let ?z = "if scenario = Some ''zero-rtt-replay-risk'' then [?zero] else []"
  have ok: "quic_ok ?initial" "quic_ok ?zero" "quic_ok ?ack" "quic_ok ?hs" using d by (simp_all add: quic_simple_ok)
  from quic_send_calm [OF calm ok(1), of "''Client -> Server''" lg peer "''HANDSHAKE''" "''SEND_INITIAL''"] obtain w1 where i:
    "client_send_packet_logged lg peer ?initial ''HANDSHAKE'' ''SEND_INITIAL'' w = (True, w1)" "dgram_step [] [sent_to s ?initial] w w1"
    unfolding client_send_packet_logged_def peer by blast
  have c1: "dgram_calm w1" using i(2) by (simp add: dgram_step_def)
  obtain w2 where z: "(if scenario = Some ''zero-rtt-replay-risk'' then
      client_send_packet_logged lg peer ?zero ''HANDSHAKE'' ''SEND_ZERO_RTT'' w1 else (True, w1)) = (True, w2)"
    "dgram_step [] (map (sent_to s) ?z) w1 w2"
  proof (cases "scenario = Some ''zero-rtt-replay-risk''")
    case True
    from quic_send_calm [OF c1 ok(2), of "''Client -> Server''" lg peer "''HANDSHAKE''" "''SEND_ZERO_RTT''"] obtain w2 where
      "client_send_packet_logged lg peer ?zero ''HANDSHAKE'' ''SEND_ZERO_RTT'' w1 = (True, w2)" "dgram_step [] [sent_to s ?zero] w1 w2"
      unfolding client_send_packet_logged_def peer by blast
    with True show ?thesis by (intro that [of w2]) simp_all
  next
    case False
    with c1 show ?thesis by (intro that [of w1]) (simp_all add: dgram_step_refl)
  qed
  have c2: "dgram_calm w2" "w_net w2 = arrival_of s ?hs # rest" using i(2) z(2) net by (simp_all add: dgram_step_def)
  from quic_recv_calm [OF c2(1) ok(4) c2(2)] obtain w3 where r:
    "client_recv_packet_logged lg peer ''HANDSHAKE'' ''RECV_HANDSHAKE'' w2 = (Some ?hs, (s, peer_to_string s 64), w3)"
    "dgram_step [arrival_of s ?hs] [] w2 w3" "w_net w3 = rest"
    unfolding client_recv_packet_logged_def by blast
  have c3: "dgram_calm w3" using r(2) by (simp add: dgram_step_def)
  from quic_send_calm [OF c3 ok(3)] obtain w4 where a:
    "client_send_packet_logged lg (s, peer_to_string s 64) ?ack ''HANDSHAKE'' ''SEND_HANDSHAKE_ACK'' w3 = (True, w4)"
    "dgram_step [] [sent_to s ?ack] w3 w4"
    unfolding client_send_packet_logged_def by fastforce
  have ack_eq: "zero_quic\<lparr>qp_type := quic_type QUIC_PKT_HANDSHAKE_ACK, qp_connection_id := cid\<rparr> = ?ack"
    by (simp add: quic_simple_def quic_payload_def zero_quic_def)
  have "quic_client_handshake lg cid peer w = (None, (s, peer_to_string s 64), w4)"
    unfolding quic_client_handshake_def Let_def ack_eq quic_simple_def [symmetric] scen
    by (simp add: i(1) z(1) r(1) a(1))
  moreover have "w_net w4 = rest" using a(2) r(3) by (simp add: dgram_step_def)
  moreover note dgram_step_trans [OF dgram_step_trans [OF dgram_step_trans [OF i(2) z(2) refl refl] r(2) refl refl] a(2)]
  ultimately show ?thesis by simp
qed

lemma client_session_calm:
  assumes calm: "dgram_calm w" and scen: "getenv w ''UDP_SECURE_SCENARIO'' = scenario"
      "scenario = Some ''stream-reorder'' \<longrightarrow> length data \<le> 1200" and small: "length data \<le> 307200"
    and files: "w_fs w temp = Some (new_file [])" "temp \<noteq> out" and peer: "fst peer = s"
    and cid: "cid = load_u32 LittleEndian (fst (demo_random_nonce 4 w))"
    and net: "w_net w = map (arrival_of s) (server_packets scenario cid data) @ rest"
  shows "\<exists>w'. quic_client_session lg out temp peer w = (0, w') \<and>
    w_sent w' = w_sent w @ map (sent_to s) (client_packets scenario cid data) \<and> file_data w' out = data"
proof -
  let ?fs = "quic_frames scenario cid data" and ?close = "quic_simple QUIC_PKT_CLOSE cid (fips_sha1 data)"
  obtain nonce w1 where n: "demo_random_nonce 4 w = (nonce, w1)" by fastforce
  have k: "dgram_step [] [] w w1" using calm n by (auto simp: demo_random_nonce_def dgram_step_def dgram_calm_def split: list.splits)
  have c1: "dgram_calm w1" "getenv w1 ''UDP_SECURE_SCENARIO'' = scenario"
    and n1: "w_net w1 = arrival_of s (quic_simple QUIC_PKT_HANDSHAKE cid (bytes_of_string ''server-hello'')) #
      map (arrival_of s) ?fs @ arrival_of s ?close # rest"
    using k dgram_step_getenv [OF k] scen(1) net by (simp_all add: dgram_step_def server_packets_def)
  from client_handshake_calm [OF c1(1,2) peer n1, of lg] obtain w2 where h:
    "quic_client_handshake lg cid peer w1 = (None, (s, peer_to_string s 64), w2)"
    "w_net w2 = map (arrival_of s) ?fs @ arrival_of s ?close # rest"
    "dgram_step [arrival_of s (quic_simple QUIC_PKT_HANDSHAKE cid (bytes_of_string ''server-hello''))]
      (map (sent_to s) (quic_simple QUIC_PKT_INITIAL cid (bytes_of_string ''client-hello'') #
        (if scenario = Some ''zero-rtt-replay-risk'' then [quic_simple QUIC_PKT_ZERO_RTT cid (bytes_of_string ''warmup'')] else []) @
        [quic_simple QUIC_PKT_HANDSHAKE_ACK cid []])) w1 w2" by auto
  have c2: "dgram_calm w2" using h(3) by (simp add: dgram_step_def)
  note sorted = frames_sorted [OF small scen(2), of cid]
  from client_loop_streams [OF c2 h(2), of "[]" lg out temp "(s, peer_to_string s 64)"] sorted frames_ok [OF scen(2), of _ cid]
  obtain peer3 w3 where l: "quic_client_loop lg out temp [] (s, peer_to_string s 64) w2 =
      quic_client_loop lg out temp (map chunk_of ?fs) peer3 w3"
    "dgram_step (map (arrival_of s) ?fs) (map (sent_to s) (map quic_ack ?fs)) w2 w3" by auto
  have c3: "dgram_calm w3" "w_net w3 = arrival_of s ?close # rest" using l(2) h(2) by (simp_all add: dgram_step_def)
  have "quic_ok ?close" by (rule quic_simple_ok) simp
  from quic_recv_calm [OF c3(1) this c3(2)] obtain w4 where r:
    "client_recv_packet_logged lg peer3 ''DATA_TRANSFER'' ''RECV_QUIC_PACKET'' w3 = (Some ?close, (s, peer_to_string s 64), w4)"
    "dgram_step [arrival_of s ?close] [] w3 w4"
    unfolding client_recv_packet_logged_def by blast
  note all = dgram_step_trans [OF dgram_step_trans [OF dgram_step_trans [OF k h(3) refl refl] l(2) refl refl] r(2) refl refl]
  have c4: "dgram_calm w4" "w_fs w4 temp = Some (new_file [])" using all files(1) by (simp_all add: dgram_step_def)
  from client_close_calm [OF c4 files(2) sorted [THEN conjunct1] refl] obtain w' where e:
    "quic_client_close lg out temp (map chunk_of ?fs) (s, peer_to_string s 64) ?close w4 = (0, w')"
    "w_sent w' = w_sent w4" "file_data w' out = data" by blast
  have stop: "read_stop w3 = (False, w3)" using c3(1) by (simp add: dgram_calm_def read_stop_def)
  have "quic_client_loop lg out temp (map chunk_of ?fs) peer3 w3 = (0, w')"
    by (subst quic_client_loop.simps) (simp add: stop r(1) e(1))
  then have "quic_client_session lg out temp peer w = (0, w')"
    using n h(1) l(1) cid by (simp add: quic_client_session_def)
  moreover have "w_sent w' = w_sent w @ map (sent_to s) (client_packets scenario cid data)"
    using all e(2) by (simp add: dgram_step_def client_packets_def)
  ultimately show ?thesis using e(3) by blast
qed

section \<open>Both programs\<close>

text \<open>
  C36. A whole run of the QUIC-like demo with a file of at most 307200 bytes (256 chunks), and of
  at most 1200 bytes in the scenario that swaps the halves, when no call fails and the packets of
  each program arrive in order at the other one: in every scenario both end without an error,
  each sends exactly the packets that the other one was to read, and the client's output is the
  server's file. Longer files fail in the code.
\<close>

theorem quic_run:
  assumes "dgram_calm wc" "dgram_calm ws"
    and "getenv wc ''UDP_SECURE_SCENARIO'' = scenario" "getenv ws ''UDP_SECURE_SCENARIO'' = scenario"
    and "length data \<le> 307200" "scenario = Some ''stream-reorder'' \<longrightarrow> length data \<le> 1200"
    and "w_fs wc temp = Some (new_file [])" "temp \<noteq> out"
    and "cid = load_u32 LittleEndian (fst (demo_random_nonce 4 wc))"
    and "w_net wc = map (arrival_of server) (server_packets scenario cid data) @ rest"
    and "w_net ws = map (arrival_of asker) (client_packets scenario cid data) @ rest'"
  shows "\<exists>wc' ws'. quic_client_session lgc out temp (server, peer_text) wc = (0, wc') \<and>
    quic_server_session undef lgs peer0 data (fips_sha1 data) ws = (0, ws') \<and>
    w_sent wc' = w_sent wc @ map (sent_to server) (client_packets scenario cid data) \<and>
    w_sent ws' = w_sent ws @ map (sent_to asker) (server_packets scenario cid data) \<and>
    file_data wc' out = data"
proof -
  from client_session_calm [OF assms(1,3,6,5,7,8) _ assms(9,10), of "(server, peer_text)" lgc] obtain wc' where
    "quic_client_session lgc out temp (server, peer_text) wc = (0, wc')"
    "w_sent wc' = w_sent wc @ map (sent_to server) (client_packets scenario cid data)" "file_data wc' out = data" by auto
  moreover from server_session_calm [OF assms(2,4,6,11)] obtain ws' where
    "quic_server_session undef lgs peer0 data (fips_sha1 data) ws = (0, ws')"
    "w_sent ws' = w_sent ws @ map (sent_to asker) (server_packets scenario cid data)" by blast
  ultimately show ?thesis by blast
qed

text \<open>The two programs next to each other, with three bytes and a connection id of zero.\<close>

definition quic_world :: "string \<Rightarrow> select_result list \<Rightarrow> world" where
  "quic_world temp ins = quiet_world\<lparr>w_fs := [temp \<mapsto> new_file []], w_net := ins\<rparr>"

lemma quic_world_parts:
  "dgram_calm (quic_world temp ins)" "getenv (quic_world temp ins) v = None" "w_net (quic_world temp ins) = ins"
  "w_fs (quic_world temp ins) temp = Some (new_file [])" "load_u32 LittleEndian (fst (demo_random_nonce 4 (quic_world temp ins))) = 0"
  by (simp_all add: quic_world_def dgram_calm_def getenv_def quiet_parts demo_random_nonce_def) code_simp

lemma quic_run_witness:
  "\<exists>wc' ws'. quic_client_session closed_logger ''out'' ''out.part'' (\<lparr>sin_family = 2, sin_port = 4433, sin_addr = 1\<rparr>, ''server'')
      (quic_world ''out.part'' (map (arrival_of \<lparr>sin_family = 2, sin_port = 4433, sin_addr = 1\<rparr>) (server_packets None 0 [1, 2, 3]))) =
      (0, wc') \<and>
    quic_server_session (\<lambda>w. (None, (\<lparr>sin_family = 0, sin_port = 0, sin_addr = 0\<rparr>, []), w)) closed_logger \<lparr>sin_family = 0, sin_port = 0, sin_addr = 0\<rparr> [1, 2, 3] (fips_sha1 [1, 2, 3])
      (quic_world ''out.part'' (map (arrival_of \<lparr>sin_family = 2, sin_port = 4000, sin_addr = 2\<rparr>) (client_packets None 0 [1, 2, 3]))) =
      (0, ws') \<and> file_data wc' ''out'' = [1, 2, 3]"
proof -
  let ?s = "\<lparr>sin_family = 2, sin_port = 4433, sin_addr = 1\<rparr>" and ?a = "\<lparr>sin_family = 2, sin_port = 4000, sin_addr = 2\<rparr>"
  let ?wc = "quic_world ''out.part'' (map (arrival_of ?s) (server_packets None 0 [1, 2, 3]))"
  let ?ws = "quic_world ''out.part'' (map (arrival_of ?a) (client_packets None 0 [1, 2, 3]))"
  have n: "w_net ?wc = map (arrival_of ?s) (server_packets None 0 [1, 2, 3]) @ []"
    "w_net ?ws = map (arrival_of ?a) (client_packets None 0 [1, 2, 3]) @ []" by (simp_all add: quic_world_parts(3))
  show ?thesis
    using quic_run [OF quic_world_parts(1) quic_world_parts(1) quic_world_parts(2) quic_world_parts(2) _ _ quic_world_parts(4) _
        quic_world_parts(5) [symmetric] n, of "''out''" closed_logger "''server''" "\<lambda>w. (None, (\<lparr>sin_family = 0, sin_port = 0, sin_addr = 0\<rparr>, []), w)" closed_logger
        "\<lparr>sin_family = 0, sin_port = 0, sin_addr = 0\<rparr>"] by auto
qed

lemma quic_client_verdict_witness:
  "case quic_client_session closed_logger ''out'' ''out.part'' (\<lparr>sin_family = 2, sin_port = 4433, sin_addr = 1\<rparr>, ''server'')
      (quic_world ''out.part'' (map (arrival_of \<lparr>sin_family = 2, sin_port = 4433, sin_addr = 1\<rparr>) (server_packets None 0 [1, 2, 3]))) of
    (rc, w') \<Rightarrow> rc = 0 \<and> (\<exists>contents. w_fs w' = [''out'' \<mapsto> new_file contents] \<or> w_fs w' = [''out.part'' \<mapsto> new_file contents])"
proof -
  let ?s = "\<lparr>sin_family = 2, sin_port = 4433, sin_addr = 1\<rparr>"
  let ?wc = "quic_world ''out.part'' (map (arrival_of ?s) (server_packets None 0 [1, 2, 3]))"
  have n: "w_net ?wc = map (arrival_of ?s) (server_packets None 0 [1, 2, 3]) @ []" by (simp add: quic_world_parts(3))
  from client_session_calm [OF quic_world_parts(1) quic_world_parts(2) _ _ quic_world_parts(4) _ _ quic_world_parts(5) [symmetric] n,
      of "''out''" "(?s, ''server'')" closed_logger]
  obtain w' where run: "quic_client_session closed_logger ''out'' ''out.part'' (?s, ''server'') ?wc = (0, w')" by auto
  have fs: "w_fs ?wc = [''out.part'' \<mapsto> new_file []]" by (simp add: quic_world_def)
  from quic_client_verdict [OF run quic_world_parts(4)] obtain contents where
    "w_fs w' = (w_fs ?wc)(''out'' \<mapsto> new_file contents, ''out.part'' := None) \<or> w_fs w' = (w_fs ?wc)(''out.part'' \<mapsto> new_file contents)"
    by auto
  then have "w_fs w' = [''out'' \<mapsto> new_file contents] \<or> w_fs w' = [''out.part'' \<mapsto> new_file contents]"
    unfolding fs by (auto simp: fun_eq_iff)
  then show ?thesis unfolding run prod.case by blast
qed

end
