(* ===== verification/Sip.thy ===== *)
theory Sip
  imports Datagram HttpText
begin

text \<open>
  The SIP demo (\<open>src/sip_demo_server.c\<close>, \<open>src/sip_demo_client.c\<close>): text messages over UDP,
  a registration, and a call from INVITE to BYE. \<open>now\<close> is what \<open>time(NULL)\<close> returns in a
  world. Socket options and closing descriptors leave nothing in the modelled state.
\<close>

section \<open>Constants\<close>

definition SIP_MAX_MSG :: nat where "SIP_MAX_MSG = 4096"
definition SIP_MAX_HEADER :: nat where "SIP_MAX_HEADER = 1024"

lemmas sip_sizes = SIP_MAX_MSG_def SIP_MAX_HEADER_def

datatype SipPacket = SIP_PKT_REGISTER | SIP_PKT_INVITE | SIP_PKT_ACK | SIP_PKT_BYE | SIP_PKT_100_TRYING
  | SIP_PKT_180_RINGING | SIP_PKT_200_OK | SIP_PKT_407_AUTH

primrec sip_pkt :: "SipPacket \<Rightarrow> int" where
  "sip_pkt SIP_PKT_REGISTER = 180"
| "sip_pkt SIP_PKT_INVITE = 181"
| "sip_pkt SIP_PKT_ACK = 182"
| "sip_pkt SIP_PKT_BYE = 183"
| "sip_pkt SIP_PKT_100_TRYING = 184"
| "sip_pkt SIP_PKT_180_RINGING = 185"
| "sip_pkt SIP_PKT_200_OK = 186"
| "sip_pkt SIP_PKT_407_AUTH = 187"

definition log_sip ::
  "Logger \<Rightarrow> string \<Rightarrow> string \<Rightarrow> string \<Rightarrow> string \<Rightarrow> string \<Rightarrow> string \<Rightarrow> int \<Rightarrow> string \<Rightarrow> string option \<Rightarrow> string \<Rightarrow> int \<Rightarrow>
   byte list \<Rightarrow> world \<Rightarrow> world" where
  "log_sip lg level event state message peer direction packet_code packet_type verb call_id status_code wire w =
     logger_write lg (Some ((demo_init_event level event state message)
       \<lparr>le_peer := Some peer, le_direction := Some direction, le_packet_type := Some packet_type,
        le_packet_code := packet_code, le_method := verb, le_header_summary := Some call_id, le_path := Some call_id,
        le_status_code := status_code, le_payload_length := int_of_size (length wire), le_bytes := int_of_size (length wire),
        le_packet_uid := compute_packet_uid 24 (word_of_int packet_code) status_code 0 (Some wire) (length wire),
        le_wire_hex := bytes_to_hex (Some (take (if length wire > 160 then 160 else length wire) wire)) 321\<rparr>)) w"

text \<open>The code and name of a received response.\<close>

definition response_kind :: "int \<Rightarrow> int \<times> string" where
  "response_kind code =
     (if code = 100 then (sip_pkt SIP_PKT_100_TRYING, ''100_TRYING'')
      else if code = 180 then (sip_pkt SIP_PKT_180_RINGING, ''180_RINGING'')
      else if code = 200 then (sip_pkt SIP_PKT_200_OK, ''200_OK'')
      else (sip_pkt SIP_PKT_200_OK, ''RESPONSE''))"

section \<open>Parsing\<close>

text \<open>
  The text of a buffer is what its C string holds. A header is looked for at the beginnings
  of the lines; \<open>cap\<close> is the size of the caller's buffer.
\<close>

definition skip_blanks :: "string \<Rightarrow> string" where
  "skip_blanks = dropWhile (\<lambda>c. c = CHR '' '' \<or> c = CHR 0x09)"

definition line_text :: "string \<Rightarrow> string" where
  "line_text = takeWhile (\<lambda>c. c \<noteq> CHR 0x0D \<and> c \<noteq> CHR 0x0A)"

definition next_line :: "string \<Rightarrow> string" where
  "next_line t = drop 1 (dropWhile (\<lambda>c. c \<noteq> CHR 0x0A) t)"

lemma next_line_shorter: "t \<noteq> [] \<Longrightarrow> length (next_line t) < length t"
proof -
  assume "t \<noteq> []"
  moreover have "length (dropWhile (\<lambda>c. c \<noteq> CHR 0x0A) t) \<le> length t" by (rule dropWhile_le)
  ultimately show ?thesis by (cases t) (simp_all add: next_line_def)
qed

function extract_header :: "string \<Rightarrow> string \<Rightarrow> nat \<Rightarrow> string option" where
  "extract_header p name cap =
     (if p = [] then None
      else let after = skip_blanks (drop (length name) p) in
        if map to_lower (take (length name) p) = map to_lower name \<and> take 1 after = '':'' then
          Some (take (cap - 1) (line_text (skip_blanks (drop 1 after))))
        else extract_header (next_line p) name cap)"
  by pat_completeness auto
termination
  by (relation "measure (\<lambda>(p, name, cap). length p)") (auto simp: next_line_shorter)

declare extract_header.simps [simp del]

text \<open>The caller's buffer is zeroed before.\<close>

definition sip_header :: "string \<Rightarrow> string \<Rightarrow> nat \<Rightarrow> string" where
  "sip_header p name cap = (case extract_header p name cap of None \<Rightarrow> [] | Some v \<Rightarrow> v)"

text \<open>The text before the first CR LF.\<close>

definition first_line :: "string \<Rightarrow> string option" where
  "first_line msg = (case strstr msg CRLF of None \<Rightarrow> None | Some s \<Rightarrow> Some (take (length msg - length s) msg))"

definition extract_request_line :: "string \<Rightarrow> (string \<times> string) option" where
  "extract_request_line msg = (case first_line msg of None \<Rightarrow> None | Some line \<Rightarrow> scan_request_line 255 line)"

text \<open>
  \<open>sscanf(text, "%15s %d %63s", ver, code, reason)\<close>: the code, if it was converted, and the
  reason, if all three were.
\<close>

definition scan_status :: "string \<Rightarrow> int option \<times> string option" where
  "scan_status text =
     (case scan_word 15 text of
        None \<Rightarrow> (None, None)
      | Some (ver, rest) \<Rightarrow>
        (case strtol10 rest of (v, end_text, erange) \<Rightarrow>
          if end_text = rest then (None, None)
          else (Some (sint (word_of_int v :: u32)), map_option fst (scan_word 63 end_text))))"

definition extract_status_line :: "string \<Rightarrow> (int \<times> string) option" where
  "extract_status_line msg =
     (case first_line msg of
        None \<Rightarrow> None
      | Some line \<Rightarrow> (case scan_status line of (Some code, Some reason) \<Rightarrow> Some (code, reason) | _ \<Rightarrow> None))"

section \<open>The server\<close>

definition sip_response :: "string \<Rightarrow> string \<Rightarrow> string option \<Rightarrow> string \<Rightarrow> int \<Rightarrow> string \<Rightarrow> int \<Rightarrow> string \<Rightarrow> string" where
  "sip_response branch from_tag to_tag call_id cseq cseq_method code reason =
     ''SIP/2.0 '' @ show_int code @ '' '' @ reason @ CRLF @
     ''Via: SIP/2.0/UDP server:5060;branch='' @ branch @ CRLF @
     ''From: <sip:alice@demo>;tag='' @ from_tag @ CRLF @
     ''To: <sip:bob@demo>'' @ (case to_tag of None \<Rightarrow> [] | Some t \<Rightarrow> '';tag='' @ t) @ CRLF @
     ''Call-ID: '' @ call_id @ CRLF @
     ''CSeq: '' @ show_int cseq @ '' '' @ cseq_method @ CRLF @
     ''Content-Length: 0'' @ CRLF @ CRLF"

text \<open>The callers do not look at its result.\<close>

definition send_sip_response ::
  "Logger \<Rightarrow> string \<Rightarrow> sockaddr_in \<Rightarrow> string \<Rightarrow> string \<Rightarrow> string option \<Rightarrow> string \<Rightarrow> int \<Rightarrow> string \<Rightarrow> int \<Rightarrow> string \<Rightarrow>
   SipPacket \<Rightarrow> string \<Rightarrow> world \<Rightarrow> bool \<times> world" where
  "send_sip_response lg peer addr branch from_tag to_tag call_id cseq cseq_method code reason packet packet_type w =
     (let response = sip_response branch from_tag to_tag call_id cseq cseq_method code reason in
      if length response \<ge> SIP_MAX_MSG then (False, w)
      else case demo_sendto (bytes_of_string response) addr w of (sent, w1) \<Rightarrow>
        if \<not> sent then (False, w1)
        else (True, log_sip lg ''INFO'' ''SEND_RESPONSE'' ''RESPONSE'' reason peer ''Server -> Client'' (sip_pkt packet) packet_type
                (Some cseq_method) call_id code (bytes_of_string response) w1))"

record sip_state =
  ss_last_call_id :: string
  ss_invite :: bool
  ss_ack :: bool
  ss_bye :: bool

definition sip_start :: sip_state where
  "sip_start = \<lparr>ss_last_call_id = [], ss_invite = False, ss_ack = False, ss_bye = False\<rparr>"

text \<open>What a message leads to: the next one, or the end with an exit status.\<close>

datatype sip_step = Sip_Next sip_state | Sip_Stop int

text \<open>The event of a request.\<close>

definition log_request :: "Logger \<Rightarrow> string \<Rightarrow> SipPacket \<Rightarrow> string \<Rightarrow> byte list \<Rightarrow> string \<Rightarrow> world \<Rightarrow> world" where
  "log_request lg peer packet call_id d verb w =
     log_sip lg ''INFO'' (''RECV_'' @ verb) verb (verb @ '' received'') peer ''Client -> Server'' (sip_pkt packet) verb (Some verb)
       call_id 0 d w"

definition sip_invite ::
  "Logger \<Rightarrow> string \<Rightarrow> sockaddr_in \<Rightarrow> byte list \<Rightarrow> string \<Rightarrow> string \<Rightarrow> string \<Rightarrow> sip_state \<Rightarrow> world \<Rightarrow> sip_step \<times> world" where
  "sip_invite lg peer addr d call_id branch from_tag st w =
     (if ss_last_call_id st \<noteq> [] \<and> call_id = ss_last_call_id st then
        (Sip_Stop 1, demo_finish lg ''ABORT'' ''replay detected''
           (logger_write lg (Some ((demo_init_event ''WARN'' ''INVITE_REPLAY_DETECTED'' ''REPLAY''
                ''duplicate INVITE with same Call-ID'')
              \<lparr>le_peer := Some peer, le_path := Some call_id, le_security_replay := 1\<rparr>)) w))
      else
        let w1 = log_request lg peer SIP_PKT_INVITE call_id d ''INVITE'' w;
            answer = (\<lambda>to_tag code reason packet packet_type w'.
              snd (send_sip_response lg peer addr branch from_tag to_tag call_id 1 ''INVITE'' code reason packet packet_type w')) in
        (Sip_Next (st\<lparr>ss_last_call_id := snprintf_s SIP_MAX_HEADER call_id, ss_invite := True\<rparr>),
         answer (Some ''server-2'') 200 ''OK'' SIP_PKT_200_OK ''200_OK''
           (answer (Some ''server-1'') 180 ''Ringing'' SIP_PKT_180_RINGING ''180_RINGING''
             (answer None 100 ''Trying'' SIP_PKT_100_TRYING ''100_TRYING'' w1))))"

definition sip_request ::
  "Logger \<Rightarrow> bool \<Rightarrow> string \<Rightarrow> sockaddr_in \<Rightarrow> byte list \<Rightarrow> string \<Rightarrow> string \<Rightarrow> string \<Rightarrow> string \<Rightarrow> sip_state \<Rightarrow> world \<Rightarrow>
   sip_step \<times> world" where
  "sip_request lg want_invite_bye peer addr d verb call_id branch from_tag st w =
     (let respond = (\<lambda>to_tag cseq w'. snd (send_sip_response lg peer addr branch from_tag (Some to_tag) call_id cseq verb 200 ''OK''
            SIP_PKT_200_OK ''200_OK'' w')) in
      if verb = ''REGISTER'' then
        (if want_invite_bye then Sip_Next st else Sip_Stop 0,
         respond ''server-to'' 1 (log_request lg peer SIP_PKT_REGISTER call_id d verb w))
      else if verb = ''INVITE'' then sip_invite lg peer addr d call_id branch from_tag st w
      else if verb = ''ACK'' then
        (if ss_bye st then Sip_Stop 0 else Sip_Next (st\<lparr>ss_ack := True\<rparr>),
         log_request lg peer SIP_PKT_ACK call_id d verb w)
      else if verb = ''BYE'' then
        (if ss_invite st \<and> ss_ack st then Sip_Stop 0 else Sip_Next (st\<lparr>ss_bye := True\<rparr>),
         respond ''server-3'' 2 (log_request lg peer SIP_PKT_BYE call_id d verb w))
      else (Sip_Next st, w))"

text \<open>A message whose request line is not understood is tried as a response.\<close>

definition sip_message ::
  "(world \<Rightarrow> int) \<Rightarrow> Logger \<Rightarrow> bool \<Rightarrow> sockaddr_in \<Rightarrow> byte list \<Rightarrow> sip_state \<Rightarrow> world \<Rightarrow> sip_step \<times> world" where
  "sip_message now lg want_invite_bye addr d st w =
     (let peer = peer_to_string addr 64; msg = c_string d; call_id = sip_header msg ''Call-ID'' SIP_MAX_HEADER in
      case extract_request_line msg of
        None \<Rightarrow>
          (Sip_Next st,
           case extract_status_line msg of
             None \<Rightarrow> w
           | Some (code, reason) \<Rightarrow> (case response_kind code of (packet_code, packet_type) \<Rightarrow>
               log_sip lg ''INFO'' ''RECV_RESPONSE'' ''RESPONSE'' reason peer ''Client -> Server'' packet_code packet_type None
                 call_id code d w))
      | Some (verb, uri) \<Rightarrow>
          let branch0 = sip_header msg ''branch'' 64;
              branch = (if branch0 = [] then snprintf_s 64 (''z9hG4bK-server-'' @ show_int (now w)) else branch0);
              tag = sip_header msg ''tag'' 64;
              from_tag = (if tag = [] then ''server-from'' else tag) in
          sip_request lg want_invite_bye peer addr d verb call_id branch from_tag st w)"

lemma sip_send_net [world_simps]:
  "w_net (snd (send_sip_response lg peer addr branch from_tag to_tag call_id cseq verb code reason packet packet_type w)) = w_net w"
  by (auto simp: send_sip_response_def log_sip_def Let_def world_simps dest: demo_sendto_world(3) split: prod.split)

lemma log_sip_net [world_simps]:
  "w_net (log_sip lg level event state message peer direction code packet_type verb call_id status d w) = w_net w"
  by (simp add: log_sip_def world_simps)

lemma sip_message_net: "sip_message now lg want addr d st w = (step, w1) \<Longrightarrow> w_net w1 = w_net w"
  by (auto simp: sip_message_def sip_request_def sip_invite_def log_request_def Let_def world_simps
      split: option.splits prod.splits if_splits)

function sip_server_loop :: "(world \<Rightarrow> int) \<Rightarrow> Logger \<Rightarrow> bool \<Rightarrow> sip_state \<Rightarrow> world \<Rightarrow> int \<times> world" where
  "sip_server_loop now lg want_invite_bye st w =
     (case read_stop w of (stop, w0) \<Rightarrow>
      if stop then (1, w0)
      else case demo_recvfrom (SIP_MAX_MSG - 1) w0 of
        (None, w1) \<Rightarrow> (1, w1)
      | (Some (addr, d), w1) \<Rightarrow>
        if d = [] then (1, w1)
        else case sip_message now lg want_invite_bye addr d st w1 of
          (Sip_Stop rc, w2) \<Rightarrow> (rc, w2)
        | (Sip_Next st1, w2) \<Rightarrow> sip_server_loop now lg want_invite_bye st1 w2)"
  by pat_completeness auto
termination
  by (relation "measure (\<lambda>(now, lg, want, st, w). length (w_net w))")
    (auto simp: demo_recvfrom_def read_stop_def dest!: sip_message_net [OF sym] split: option.splits nat.splits list.splits)

declare sip_server_loop.simps [simp del]

definition sip_server_session :: "(world \<Rightarrow> int) \<Rightarrow> Logger \<Rightarrow> world \<Rightarrow> int \<times> world" where
  "sip_server_session now lg w =
     (let w1 = (if getenv w ''UDP_SECURE_SCENARIO'' = Some ''no-sips-downgrade'' then
            logger_write lg (Some ((demo_init_event ''WARN'' ''SIPS_DOWNGRADE_DETECTED'' ''DOWNGRADE''
                ''client requested sips:// but server only supports sip://'')\<lparr>le_peer := Some ''any''\<rparr>)) w
          else w) in
      case sip_server_loop now lg (getenv w ''UDP_SECURE_SCENARIO'' = Some ''invite-bye'') sip_start w1 of (rc, w2) \<Rightarrow>
        (rc, if rc = 0 then demo_finish lg ''OK'' ''sip flow completed'' w2
             else demo_finish lg ''ABORT'' ''sip flow failed'' w2))"

definition sip_server_main :: "(world \<Rightarrow> int) \<Rightarrow> string list \<Rightarrow> world \<Rightarrow> int \<times> world" where
  "sip_server_main now argv w =
     (case logger_open (Some ''server'') (Some ''logs/server.jsonl'') w of
        (rc, None) \<Rightarrow> (1, w)
      | (rc, Some lg) \<Rightarrow>
        if rc \<noteq> 0 then (1, w)
        else (case (if length argv \<noteq> 4 then None else parse_port (Some (argv ! 1))) of
            None \<Rightarrow> (1, demo_finish lg ''ABORT'' ''invalid arguments'' w)
          | Some port \<Rightarrow>
            (case socket_call w of (opened, w1) \<Rightarrow>
             if \<not> opened then (1, demo_finish lg ''ABORT'' (w_errno w1) w1)
             else (case socket_call w1 of (bound, w2) \<Rightarrow>
               if \<not> bound then (1, demo_finish lg ''ABORT'' (w_errno w2) w2)
               else sip_server_session now lg
                 (logger_write lg (Some ((demo_init_event ''INFO'' ''SERVER_START'' ''INIT'' ''sip server started'')
                    \<lparr>le_port := uint port\<rparr>)) w2)))))"

section \<open>The client\<close>

definition sip_message_text :: "string \<Rightarrow> string \<Rightarrow> string \<Rightarrow> int \<Rightarrow> string \<Rightarrow> string \<Rightarrow> string" where
  "sip_message_text verb uri call_id cseq branch from_tag =
     verb @ '' '' @ uri @ '' SIP/2.0'' @ CRLF @
     ''Via: SIP/2.0/UDP client:5060;branch='' @ branch @ CRLF @
     ''From: <sip:alice@demo>;tag='' @ from_tag @ CRLF @
     ''To: <sip:bob@demo>'' @ CRLF @
     ''Call-ID: '' @ call_id @ CRLF @
     ''CSeq: '' @ show_int cseq @ '' '' @ verb @ CRLF @
     ''Content-Length: 0'' @ CRLF @ CRLF"

text \<open>
  What the calls share: the log, the peer's text, \<open>branch\<close> and \<open>from_tag\<close>. The address is that
  of the last arrival. The callers do not look at the result.
\<close>

record sip_client =
  sc_logger :: Logger
  sc_peer :: string
  sc_branch :: string
  sc_from_tag :: string

definition send_sip :: "sip_client \<Rightarrow> string \<Rightarrow> string \<Rightarrow> string \<Rightarrow> int \<Rightarrow> SipPacket \<Rightarrow> sockaddr_in \<Rightarrow> world \<Rightarrow> bool \<times> world" where
  "send_sip c verb uri call_id cseq packet to_addr w =
     (let msg = sip_message_text verb uri call_id cseq (sc_branch c) (sc_from_tag c) in
      if length msg \<ge> SIP_MAX_MSG then (False, w)
      else case demo_sendto (bytes_of_string msg) to_addr w of (sent, w1) \<Rightarrow>
        if \<not> sent then (False, w1)
        else (True, log_sip (sc_logger c) ''INFO'' ''SEND_REQUEST'' verb ''SIP request sent'' (sc_peer c) ''Client -> Server''
                (sip_pkt packet) verb (Some verb) call_id 0 (bytes_of_string msg) w1))"

text \<open>
  A received response is logged if its status line is understood. The result is the code (0 if
  it was not converted) and the reason.
\<close>

definition log_response :: "sip_client \<Rightarrow> (int \<Rightarrow> int \<times> string) \<Rightarrow> string \<Rightarrow> byte list \<Rightarrow> world \<Rightarrow> int \<times> string option \<times> world" where
  "log_response c kind call_id d w =
     (case scan_status (c_string d) of (code, reason) \<Rightarrow>
        (case code of None \<Rightarrow> 0 | Some v \<Rightarrow> v, reason,
         case (code, reason) of
           (Some v, Some r) \<Rightarrow> (case kind v of (packet_code, packet_type) \<Rightarrow>
             log_sip (sc_logger c) ''INFO'' ''RECV_RESPONSE'' ''RESPONSE'' r (sc_peer c) ''Server -> Client'' packet_code packet_type
               None call_id v d w)
         | _ \<Rightarrow> w))"

definition response_call_id :: "string \<Rightarrow> string" where
  "response_call_id buf =
     (case strstr buf ''Call-ID:'' of
        None \<Rightarrow> []
      | Some s \<Rightarrow> take (SIP_MAX_HEADER - 1) (line_text (skip_blanks (drop 8 s))))"

text \<open>
  The registration: the address for what follows, or the reason to end. \<open>junk\<close> is what the
  uninitialised buffer of the reason holds; the write of the result is not checked.
\<close>

definition sip_register ::
  "sip_client \<Rightarrow> string \<Rightarrow> string \<Rightarrow> string \<Rightarrow> sockaddr_in \<Rightarrow> world \<Rightarrow> (string + sockaddr_in) \<times> world" where
  "sip_register c junk call_id out_path server w =
     (case demo_recvfrom (SIP_MAX_MSG - 1)
        (snd (send_sip c ''REGISTER'' ''sip:demo@registrar'' call_id 1 SIP_PKT_REGISTER server w)) of
        (None, w1) \<Rightarrow> (Inl ''no REGISTER response'', w1)
      | (Some (addr, d), w1) \<Rightarrow>
        if d = [] then (Inl ''no REGISTER response'', w1)
        else case log_response c response_kind (response_call_id (c_string d)) d w1 of (code, reason, w2) \<Rightarrow>
          if reason \<noteq> None \<and> code \<noteq> 200 then (Inl ''REGISTER rejected'', w2)
          else (Inr addr,
            snd (fwrite_all out_path (bytes_of_string (''REGISTER -> '' @ show_int code @ '' '' @
              (case reason of None \<Rightarrow> junk | Some r \<Rightarrow> r) @ [CHR 0x0A])) w2)))"

text \<open>Up to \<open>n\<close> responses; the first failure ends the loop.\<close>

fun sip_responses :: "sip_client \<Rightarrow> string \<Rightarrow> nat \<Rightarrow> sockaddr_in \<Rightarrow> world \<Rightarrow> sockaddr_in \<times> world" where
  "sip_responses c call_id 0 addr w = (addr, w)"
| "sip_responses c call_id (Suc n) addr w =
     (case demo_recvfrom (SIP_MAX_MSG - 1) w of
        (None, w1) \<Rightarrow> (addr, w1)
      | (Some (addr1, d), w1) \<Rightarrow>
        if d = [] then (addr1, w1)
        else case log_response c response_kind call_id d w1 of (code, reason, w2) \<Rightarrow> sip_responses c call_id n addr1 w2)"

definition sip_invite_bye :: "(world \<Rightarrow> int) \<Rightarrow> sip_client \<Rightarrow> sockaddr_in \<Rightarrow> world \<Rightarrow> world" where
  "sip_invite_bye now c server w =
     (let call_id = snprintf_s 64 (''invite-'' @ show_int (now w) @ ''@client'');
          request = (\<lambda>verb cseq packet addr w'. snd (send_sip c verb ''sip:bob@demo'' call_id cseq packet addr w')) in
      case sip_responses c call_id 3 server (request ''INVITE'' 1 SIP_PKT_INVITE server w) of (addr, w1) \<Rightarrow>
      case demo_recvfrom (SIP_MAX_MSG - 1) (request ''BYE'' 2 SIP_PKT_BYE addr (request ''ACK'' 1 SIP_PKT_ACK addr w1)) of
        (Some (addr1, d), w2) \<Rightarrow>
          if d = [] then w2
          else (case log_response c (\<lambda>_. (sip_pkt SIP_PKT_200_OK, ''200_OK'')) call_id d w2 of (code, reason, w3) \<Rightarrow> w3)
      | (None, w2) \<Rightarrow> w2)"

definition sip_replay_invite :: "(world \<Rightarrow> int) \<Rightarrow> sip_client \<Rightarrow> sockaddr_in \<Rightarrow> world \<Rightarrow> world" where
  "sip_replay_invite now c server w =
     (let call_id = snprintf_s 64 (''replay-'' @ show_int (now w) @ ''@client'');
          request = (\<lambda>cseq addr w'. snd (send_sip c ''INVITE'' ''sip:bob@demo'' call_id cseq SIP_PKT_INVITE addr w')) in
      case sip_responses c call_id 3 server (request 1 server w) of (addr, w1) \<Rightarrow>
        demo_finish (sc_logger c) ''ABORT'' ''replay-invite scenario (client side)''
          (logger_write (sc_logger c) (Some ((demo_init_event ''WARN'' ''INVITE_REPLAY_DETECTED'' ''REPLAY''
               ''duplicate INVITE with same Call-ID sent'')
             \<lparr>le_peer := Some (sc_peer c), le_path := Some call_id, le_security_replay := 1\<rparr>)) (request 2 addr w1)))"

definition sip_client_session ::
  "(world \<Rightarrow> int) \<Rightarrow> Logger \<Rightarrow> string \<Rightarrow> string \<Rightarrow> sockaddr_in \<Rightarrow> string \<Rightarrow> world \<Rightarrow> int \<times> world" where
  "sip_client_session now lg junk peer server out_path w =
     (let scenario = getenv w ''UDP_SECURE_SCENARIO'';
          call_id = snprintf_s 64 (''call-'' @ show_int (now w) @ ''@client'');
          c = \<lparr>sc_logger = lg, sc_peer = peer, sc_branch = snprintf_s 64 (''z9hG4bK-client-'' @ show_int (now w)),
            sc_from_tag = snprintf_s 64 (''client-from-'' @ show_int (now w))\<rparr> in
      case sip_register c junk call_id out_path server w of
        (Inl why, w1) \<Rightarrow> (1, demo_finish lg ''ABORT'' why w1)
      | (Inr addr, w1) \<Rightarrow>
        let w2 = (if scenario = Some ''no-sips-downgrade'' then
              logger_write lg (Some ((demo_init_event ''WARN'' ''SIPS_REQUESTED'' ''DOWNGRADE''
                  ''client requested sips:// but server downgraded to sip://'')
                \<lparr>le_peer := Some peer, le_security_encrypted := 0\<rparr>)) w1
            else w1) in
        if scenario = None then (0, demo_finish lg ''OK'' ''sip register flow completed'' w2)
        else if scenario = Some ''replay-invite'' then (1, sip_replay_invite now c addr w2)
        else (0, demo_finish lg ''OK'' ''sip flow completed''
               (if scenario = Some ''invite-bye'' then sip_invite_bye now c addr w2 else w2)))"

definition sip_client_main :: "(world \<Rightarrow> int) \<Rightarrow> string \<Rightarrow> string list \<Rightarrow> world \<Rightarrow> int \<times> world" where
  "sip_client_main now junk argv w =
     (case logger_open (Some ''client'') (Some ''logs/client.jsonl'') w of
        (rc, None) \<Rightarrow> (1, w)
      | (rc, Some lg) \<Rightarrow>
        if rc \<noteq> 0 then (1, w)
        else if length argv \<noteq> 4 \<and> length argv \<noteq> 7 then (1, demo_finish lg ''ABORT'' ''invalid arguments'' w)
        else (case parse_port (Some (argv ! 2)) of
            None \<Rightarrow> (1, demo_finish lg ''ABORT'' ''invalid port'' w)
          | Some port \<Rightarrow>
            (let out_path = (if length argv = 7 then argv ! 6 else argv ! 3);
                 peer = snprintf_s 64 (host_port (argv ! 1) port) in
             case fopen_wb out_path w of (opened, w1) \<Rightarrow>
             if \<not> opened then (1, demo_finish lg ''ABORT'' ''output open failed'' w1)
             else (case socket_call w1 of (ok, w2) \<Rightarrow>
               if \<not> ok then (1, demo_finish lg ''ABORT'' ''socket failed'' w2)
               else (case server_address (argv ! 1) port of
                   None \<Rightarrow> (1, demo_finish lg ''ABORT'' ''bad host'' w2)
                 | Some server \<Rightarrow>
                   sip_client_session now lg junk peer server out_path
                     (logger_write lg (Some ((demo_init_event ''INFO'' ''CLIENT_START'' ''INIT'' ''sip client started'')
                        \<lparr>le_peer := Some peer, le_port := uint port\<rparr>)) w2))))))"

end
