(* ===== verification/SipFacts.thy ===== *)
theory SipFacts
  imports Sip
begin

text \<open>
  The SIP demo: what the parsers make of the programs' own messages, what the server wants to
  see before it ends well, and whole runs of the two programs.
\<close>

section \<open>Text of a message\<close>

text \<open>What a field of a message may be: no NUL, no line end, and at most 63 characters.\<close>

definition field_ok :: "string \<Rightarrow> bool" where
  "field_ok s \<longleftrightarrow> CHR 0x00 \<notin> set s \<and> CHR 0x0D \<notin> set s \<and> CHR 0x0A \<notin> set s \<and> length s \<le> 63"

lemma show_int_chars: "c \<in> set (show_int i) \<Longrightarrow> is_digit c \<or> c = CHR ''-''"
  by (auto simp: show_int_def dest: show_nat_digits split: if_splits)

lemma show_int_clean [simp]:
  "CHR 0x00 \<notin> set (show_int i)" "CHR 0x0D \<notin> set (show_int i)" "CHR 0x0A \<notin> set (show_int i)"
  using show_int_chars by (force simp: is_digit_def)+

lemma field_snprintf:
  "CHR 0x00 \<notin> set s \<Longrightarrow> CHR 0x0D \<notin> set s \<Longrightarrow> CHR 0x0A \<notin> set s \<Longrightarrow> field_ok (snprintf_s 64 s)"
  by (auto simp: field_ok_def snprintf_s_def dest: in_set_takeD)

text \<open>A line that does not begin with the name is skipped; one that does gives its value.\<close>

lemma next_line_crlf: "CHR 0x0A \<notin> set line \<Longrightarrow> next_line (line @ CRLF @ rest) = rest"
  by (induction line) (auto simp: next_line_def CRLF_def)

lemma extract_header_skip:
  assumes "CHR 0x0A \<notin> set line" "map to_lower (take (length name) (line @ CRLF @ rest)) \<noteq> map to_lower name"
  shows "extract_header (line @ CRLF @ rest) name cap = extract_header rest name cap"
  using assms by (subst extract_header.simps) (simp add: Let_def next_line_crlf, simp add: CRLF_def)

lemma extract_header_here:
  assumes "map to_lower shown = map to_lower name" "length shown = length name"
    and "field_ok v" "v = [] \<or> hd v \<notin> {CHR '' '', CHR 0x09}" "cap > 63"
  shows "extract_header (shown @ '': '' @ v @ CRLF @ rest) name cap = Some v"
proof -
  have "line_text (skip_blanks (v @ CRLF @ rest)) = v"
    using assms(3,4) by (cases v) (auto simp: skip_blanks_def line_text_def CRLF_def field_ok_def takeWhile_append)
  moreover have "length v \<le> cap - 1" using assms(3,5) unfolding field_ok_def by linarith
  ultimately show ?thesis using assms(1,2)
    by (subst extract_header.simps) (auto simp: Let_def skip_blanks_def)
qed

lemma extract_header_Nil: "extract_header [] name cap = None"
  by (subst extract_header.simps) simp

text \<open>
  What is not a request line is not a status line either, so the server never logs a
  response.
\<close>

lemma scan_word_some: "(\<exists>c \<in> set text. \<not> is_space c) \<Longrightarrow> n > 0 \<Longrightarrow> scan_word n text \<noteq> None"
proof -
  assume "\<exists>c \<in> set text. \<not> is_space c" "n > 0"
  then obtain c s where "dropWhile is_space text = c # s" "\<not> is_space c"
    by (metis dropWhile_eq_Nil_conv hd_dropWhile list.exhaust_sel)
  with \<open>n > 0\<close> show ?thesis by (cases n) (auto simp: scan_word_def Let_def)
qed

lemma scan_word_none: "scan_word n text = None \<Longrightarrow> n > 0 \<Longrightarrow> \<forall>c \<in> set text. is_space c"
  using scan_word_some by blast

lemma no_status_line: "extract_request_line msg = None \<Longrightarrow> extract_status_line msg = None"
proof (cases "first_line msg")
  case (Some line)
  assume none: "extract_request_line msg = None"
  show ?thesis
  proof (cases "scan_word 15 line")
    case (Some p)
    obtain ver rest where p: "p = (ver, rest)" by fastforce
    with Some none \<open>first_line msg = Some line\<close> have "scan_word 255 rest = None"
      by (auto simp: extract_request_line_def scan_request_line_def split: option.splits)
    then have sp: "\<forall>c \<in> set rest. is_space c" by (rule scan_word_none) simp
    then have empty: "dropWhile is_space rest = []" by simp
    have "strtol10 rest = (0, rest, False)" unfolding strtol10_def Let_def empty by simp
    with Some p \<open>first_line msg = Some line\<close> show ?thesis by (simp add: extract_status_line_def scan_status_def)
  qed (use \<open>first_line msg = Some line\<close> in \<open>simp add: extract_status_line_def scan_status_def\<close>)
qed (simp add: extract_status_line_def)

section \<open>The programs' own messages\<close>

text \<open>A request of the client, as the server reads it.\<close>

definition request_ok :: "string \<Rightarrow> string \<Rightarrow> string \<Rightarrow> string \<Rightarrow> string \<Rightarrow> bool" where
  "request_ok verb uri call_id branch from_tag \<longleftrightarrow>
     verb \<in> {''REGISTER'', ''INVITE'', ''ACK'', ''BYE''} \<and> uri \<in> {''sip:demo@registrar'', ''sip:bob@demo''} \<and>
     field_ok call_id \<and> field_ok branch \<and> field_ok from_tag \<and> call_id \<noteq> [] \<and> hd call_id \<notin> {CHR '' '', CHR 0x09}"

lemma skip_line:
  "CHR 0x0A \<notin> set line \<Longrightarrow> map to_lower (take (length name) (line @ CRLF @ rest)) \<noteq> map to_lower name \<Longrightarrow>
   msg = line @ CRLF @ rest \<Longrightarrow> extract_header msg name cap = extract_header rest name cap"
  by (simp add: extract_header_skip)

lemma crlf_end: "name \<in> {''Call-ID'', ''branch'', ''tag''} \<Longrightarrow> extract_header CRLF name cap = None"
  by (rule trans [OF skip_line [of "[]" name "[]"]]) (auto simp: extract_header_Nil CRLF_def to_lower_def char_of_eq_iff)

lemma request_headers:
  assumes "request_ok verb uri call_id branch from_tag" "cap > 63"
  shows "extract_header (sip_message_text verb uri call_id cseq branch from_tag) ''Call-ID'' cap = Some call_id"
    and "extract_header (sip_message_text verb uri call_id cseq branch from_tag) ''branch'' cap = None"
    and "extract_header (sip_message_text verb uri call_id cseq branch from_tag) ''tag'' cap = None"
proof -
  let ?l1 = "verb @ '' '' @ uri @ '' SIP/2.0''" and ?l2 = "''Via: SIP/2.0/UDP client:5060;branch='' @ branch"
  let ?l3 = "''From: <sip:alice@demo>;tag='' @ from_tag" and ?l4 = "''To: <sip:bob@demo>''"
  let ?l5 = "''Call-ID'' @ '': '' @ call_id" and ?l6 = "''CSeq: '' @ show_int cseq @ '' '' @ verb" and ?l7 = "''Content-Length: 0''"
  let ?r5 = "?l6 @ CRLF @ ?l7 @ CRLF @ CRLF"
  have msg: "sip_message_text verb uri call_id cseq branch from_tag =
      ?l1 @ CRLF @ ?l2 @ CRLF @ ?l3 @ CRLF @ ?l4 @ CRLF @ ?l5 @ CRLF @ ?r5"
    by (simp add: sip_message_text_def)
  have clean: "CHR 0x0A \<notin> set ?l1" "CHR 0x0A \<notin> set ?l2" "CHR 0x0A \<notin> set ?l3" "CHR 0x0A \<notin> set ?l5" "CHR 0x0A \<notin> set ?l6"
    using assms(1) by (auto simp: request_ok_def field_ok_def)
  have first: "extract_header (?l1 @ CRLF @ r) name cap = extract_header r name cap"
    if "name \<in> {''Call-ID'', ''branch'', ''tag''}" for r name
    by (rule extract_header_skip [OF clean(1)]) (use assms(1) that in \<open>auto simp: request_ok_def to_lower_def char_of_eq_iff\<close>)
  have via: "extract_header (?l2 @ CRLF @ r) name cap = extract_header r name cap"
    and fr: "extract_header (?l3 @ CRLF @ r) name cap = extract_header r name cap"
    and to: "extract_header (?l4 @ CRLF @ r) name cap = extract_header r name cap"
    if "name \<in> {''Call-ID'', ''branch'', ''tag''}" for r name
    by (rule extract_header_skip; use clean that in \<open>auto simp: to_lower_def char_of_eq_iff\<close>)+
  have ci: "extract_header (?l5 @ CRLF @ r) name cap = extract_header r name cap"
    and cs: "extract_header (?l6 @ CRLF @ r) name cap = extract_header r name cap"
    and cl: "extract_header (?l7 @ CRLF @ r) name cap = extract_header r name cap"
    if "name \<in> {''branch'', ''tag''}" for r name
    by (rule extract_header_skip; use clean that in \<open>auto simp: to_lower_def char_of_eq_iff\<close>)+
  have "extract_header (''Call-ID'' @ '': '' @ call_id @ CRLF @ ?r5) ''Call-ID'' cap = Some call_id"
    by (rule extract_header_here) (use assms in \<open>auto simp: request_ok_def\<close>)
  then have "extract_header (?l5 @ CRLF @ ?r5) ''Call-ID'' cap = Some call_id" by simp
  then show "extract_header (sip_message_text verb uri call_id cseq branch from_tag) ''Call-ID'' cap = Some call_id"
    unfolding msg by (simp only: first via fr to insert_iff simp_thms)
  show "extract_header (sip_message_text verb uri call_id cseq branch from_tag) ''branch'' cap = None"
    "extract_header (sip_message_text verb uri call_id cseq branch from_tag) ''tag'' cap = None"
    unfolding msg by (simp_all only: first via fr to ci cs cl crlf_end insert_iff simp_thms)
qed

text \<open>The rest of what the server asks of it.\<close>

lemma strstr_crlf: "CHR 0x0D \<notin> set line \<Longrightarrow> first_line (line @ CRLF @ rest) = Some line"
proof -
  assume "CHR 0x0D \<notin> set line"
  then have "strstr (line @ CRLF @ rest) CRLF = Some (CRLF @ rest)"
    using strstr_skip [of "CHR 0x0D" line "CRLF @ rest" "[CHR 0x0A]"] strstr_here [of CRLF rest] by (simp add: CRLF_def)
  then show ?thesis by (simp add: first_line_def)
qed

lemma request_line:
  assumes "request_ok verb uri call_id branch from_tag"
  shows "extract_request_line (sip_message_text verb uri call_id cseq branch from_tag) = Some (verb, uri)"
proof -
  let ?line = "verb @ '' '' @ uri @ '' SIP/2.0''"
  have "CHR 0x0D \<notin> set ?line" using assms by (auto simp: request_ok_def)
  then have "first_line (sip_message_text verb uri call_id cseq branch from_tag) = Some ?line"
    using strstr_crlf [of ?line] by (simp add: sip_message_text_def)
  moreover have "scan_request_line 255 ?line = Some (verb, uri)"
    using assms by (auto simp: request_ok_def scan_request_line_def scan_word_def is_space_def)
  ultimately show ?thesis by (simp add: extract_request_line_def)
qed

lemma length_show_nat: "n < 10 ^ k \<Longrightarrow> k > 0 \<Longrightarrow> length (show_nat n) \<le> k"
proof (induction n arbitrary: k rule: show_nat.induct)
  case (1 n)
  show ?case
  proof (cases "n < 10")
    case True
    with "1.prems" show ?thesis by (simp add: show_nat.simps [of n])
  next
    case False
    with "1.prems" obtain j where k: "k = Suc j" "j > 0" by (cases k; cases "k = 1") auto
    have "n div 10 < 10 ^ j" using "1.prems" k(1) by (simp add: less_mult_imp_div_less mult.commute)
    from "1.IH" [OF False this k(2)] False k(1) show ?thesis by (simp add: show_nat.simps [of n])
  qed
qed

lemma request_text_fits:
  assumes "request_ok verb uri call_id branch from_tag" "cseq \<in> {1, 2}"
  shows "nul_free (sip_message_text verb uri call_id cseq branch from_tag)"
    "length (sip_message_text verb uri call_id cseq branch from_tag) < 4096"
proof -
  have "length (show_int cseq) = 1" using assms(2) by (auto simp: show_int_def show_nat.simps)
  then show "length (sip_message_text verb uri call_id cseq branch from_tag) < 4096"
    using assms(1) by (auto simp: request_ok_def field_ok_def sip_message_text_def CRLF_def)
  show "nul_free (sip_message_text verb uri call_id cseq branch from_tag)"
    using assms(1) by (auto simp: request_ok_def field_ok_def sip_message_text_def CRLF_def nul_free_def)
qed

text \<open>What the server makes of a request of the client.\<close>

definition server_branch :: "int \<Rightarrow> string" where
  "server_branch t = snprintf_s 64 (''z9hG4bK-server-'' @ show_int t)"

lemma sip_message_request:
  assumes "request_ok verb uri call_id branch from_tag" "cseq \<in> {1, 2}" "now w = t"
  shows "sip_message now lg want a (bytes_of_string (sip_message_text verb uri call_id cseq branch from_tag)) st w =
    sip_request lg want (peer_to_string a 64) a (bytes_of_string (sip_message_text verb uri call_id cseq branch from_tag))
      verb call_id (server_branch t) ''server-from'' st w"
  using request_headers [OF assms(1)] request_line [OF assms(1)] request_text_fits [OF assms(1,2)] assms(3)
  by (simp add: sip_message_def c_string_text sip_header_def sip_sizes server_branch_def Let_def)

text \<open>A response of the server, as the client reads it.\<close>

definition response_of :: "int \<Rightarrow> string option \<Rightarrow> string \<Rightarrow> int \<Rightarrow> string \<Rightarrow> int \<times> string \<Rightarrow> string" where
  "response_of t to_tag call_id cseq verb status =
     sip_response (server_branch t) ''server-from'' to_tag call_id cseq verb (fst status) (snd status)"

definition response_ok :: "string option \<Rightarrow> string \<Rightarrow> int \<Rightarrow> string \<Rightarrow> int \<times> string \<Rightarrow> bool" where
  "response_ok to_tag call_id cseq verb status \<longleftrightarrow>
     to_tag \<in> {None, Some ''server-to'', Some ''server-1'', Some ''server-2'', Some ''server-3''} \<and> field_ok call_id \<and>
     cseq \<in> {1, 2} \<and> verb \<in> {''REGISTER'', ''INVITE'', ''BYE''} \<and>
     status \<in> {(100, ''Trying''), (180, ''Ringing''), (200, ''OK'')}"

lemma server_branch_ok: "field_ok (server_branch t)"
  unfolding server_branch_def by (rule field_snprintf) auto

lemma response_fits:
  assumes "response_ok to_tag call_id cseq verb status"
  shows "nul_free (response_of t to_tag call_id cseq verb status)" "length (response_of t to_tag call_id cseq verb status) < 4096"
proof -
  have len: "length (show_int cseq) = 1" "length (show_int (fst status)) \<le> 3" "length (snd status) \<le> 7" "nul_free (snd status)"
    using assms by (auto simp: response_ok_def show_int_def show_nat.simps nul_free_def)
  show "length (response_of t to_tag call_id cseq verb status) < 4096"
    using assms len server_branch_ok [of t]
    by (auto simp: response_ok_def response_of_def sip_response_def CRLF_def field_ok_def)
  show "nul_free (response_of t to_tag call_id cseq verb status)"
    using assms len(4) server_branch_ok [of t]
    by (auto simp: response_ok_def response_of_def sip_response_def CRLF_def field_ok_def nul_free_def)
qed

lemma scan_response:
  assumes "response_ok to_tag call_id cseq verb status"
  shows "scan_status (response_of t to_tag call_id cseq verb status) = (Some (fst status), Some (snd status))"
proof -
  obtain code reason where st: "status = (code, reason)" by fastforce
  then obtain rest where r: "response_of t to_tag call_id cseq verb status =
      ''SIP/2.0 '' @ show_int code @ '' '' @ reason @ CHR 0x0D # rest"
    by (simp add: response_of_def sip_response_def CRLF_def)
  have c: "code \<in> {100, 180, 200}" "reason \<in> {''Trying'', ''Ringing'', ''OK''}" using assms st by (auto simp: response_ok_def)
  have word: "scan_word 15 (''SIP/2.0 '' @ s) = Some (''SIP/2.0'', CHR '' '' # s)" for s
    by (simp add: scan_word_def is_space_def)
  have num: "strtol10 (CHR '' '' # show_int code @ '' '' @ s) = (code, '' '' @ s, False)" for s
  proof -
    have "show_int code = show_nat (nat code)" using c(1) by (auto simp: show_int_def)
    moreover have "strtol10 (show_nat (nat code) @ '' '' @ s) = (int (nat code), '' '' @ s, False)"
      by (rule strtol10_show_nat) (use c(1) in \<open>auto simp: long_max_def is_digit_def\<close>)
    ultimately show ?thesis using c(1) by (auto simp: strtol10_def Let_def is_space_def split: if_splits)
  qed
  have last: "scan_word 63 ('' '' @ reason @ CHR 0x0D # rest) = Some (reason, CHR 0x0D # rest)"
    using c(2) by (auto simp: scan_word_def is_space_def)
  have "sint (word_of_int code :: u32) = code" using c(1) by auto
  then show ?thesis unfolding r scan_status_def word using num [of "reason @ CHR 0x0D # rest"] last by (simp add: st)
qed

section \<open>The server wants to see ACK and BYE\<close>

text \<open>A request that arrives on the way from \<open>w\<close> to \<open>w1\<close>.\<close>

definition request_arrives :: "world \<Rightarrow> string \<Rightarrow> bool" where
  "request_arrives w verb \<longleftrightarrow> (\<exists>a d uri. SelReady (RecvData a d) \<in> set (w_net w) \<and>
     extract_request_line (c_string (take (SIP_MAX_MSG - 1) d)) = Some (verb, uri))"

lemma request_arrives_mono: "set (w_net w1) \<subseteq> set (w_net w) \<Longrightarrow> request_arrives w1 verb \<Longrightarrow> request_arrives w verb"
  unfolding request_arrives_def by blast

lemma demo_recvfrom_arrives:
  assumes "demo_recvfrom n w = (Some (a, d), w1)"
  shows "\<exists>d0. SelReady (RecvData a d0) \<in> set (w_net w) \<and> d = take n d0" "set (w_net w1) \<subseteq> set (w_net w)"
  using assms by (auto simp: demo_recvfrom_def split: list.splits select_result.splits recv_result.splits)

text \<open>A step keeps to what has been seen, and stops well only behind ACK and BYE.\<close>

lemma sip_request_stop:
  assumes "sip_request lg True peer addr d verb call_id branch from_tag st w = (Sip_Stop 0, w1)"
  shows "(verb = ''ACK'' \<and> ss_bye st) \<or> (verb = ''BYE'' \<and> ss_invite st \<and> ss_ack st)"
  using assms by (auto simp: sip_request_def sip_invite_def Let_def split: if_splits)

lemma sip_request_next:
  assumes "sip_request lg want peer addr d verb call_id branch from_tag st w = (Sip_Next st1, w1)"
  shows "ss_bye st1 \<longrightarrow> ss_bye st \<or> verb = ''BYE''" "ss_ack st1 \<longrightarrow> ss_ack st \<or> verb = ''ACK''"
  using assms by (auto simp: sip_request_def sip_invite_def Let_def split: if_splits)

lemma sip_message_cases:
  assumes "sip_message now lg want addr d st w = (step, w1)"
  shows "step = Sip_Next st \<or> (\<exists>verb uri call_id branch from_tag. extract_request_line (c_string d) = Some (verb, uri) \<and>
    sip_request lg want (peer_to_string addr 64) addr d verb call_id branch from_tag st w = (step, w1))"
  using assms by (auto simp: sip_message_def Let_def split: option.splits prod.splits)

lemma sip_server_ok_needs:
  assumes "sip_server_loop now lg True st w = (0, w')"
    and "ss_bye st \<longrightarrow> request_arrives w0 ''BYE''" "ss_ack st \<longrightarrow> request_arrives w0 ''ACK''"
    and "set (w_net w) \<subseteq> set (w_net w0)"
  shows "request_arrives w0 ''ACK'' \<and> request_arrives w0 ''BYE''"
  using assms
proof (induction now lg "True" st w rule: sip_server_loop.induct)
  case (1 now lg st w)
  note unf = sip_server_loop.simps [of now lg True st w]
  obtain stop wa where ra: "read_stop w = (stop, wa)" by fastforce
  have na: "w_net wa = w_net w" using ra by (auto simp: read_stop_def split: option.splits nat.splits)
  obtain r w1 where rb: "demo_recvfrom (SIP_MAX_MSG - 1) wa = (r, w1)" by fastforce
  have stop: "\<not> stop" using "1.prems"(1) unf ra by auto
  then obtain addr d where r: "r = Some (addr, d)" "d \<noteq> []"
    using "1.prems"(1) unf ra rb by (cases r) (auto split: if_splits)
  note arr = demo_recvfrom_arrives [OF rb [unfolded r(1)]]
  then obtain d0 where d0: "SelReady (RecvData addr d0) \<in> set (w_net w0)" "d = take (SIP_MAX_MSG - 1) d0"
    using na "1.prems"(4) by auto
  have here: "request_arrives w0 verb" if "extract_request_line (c_string d) = Some (verb, uri)" for verb uri
    using d0 that unfolding request_arrives_def by blast
  obtain step w2 where m: "sip_message now lg True addr d st w1 = (step, w2)" by fastforce
  show ?case
  proof (cases step)
    case (Sip_Stop rc)
    with "1.prems"(1) have "rc = 0" unfolding unf by (simp add: ra rb r m stop del: One_nat_def)
    with sip_message_cases [OF m] Sip_Stop obtain verb uri call_id branch from_tag where
      v: "extract_request_line (c_string d) = Some (verb, uri)"
      "sip_request lg True (peer_to_string addr 64) addr d verb call_id branch from_tag st w1 = (Sip_Stop 0, w2)" by auto
    from sip_request_stop [OF v(2)] here [OF v(1)] "1.prems"(2,3) show ?thesis by auto
  next
    case (Sip_Next st1)
    have run: "sip_server_loop now lg True st1 w2 = (0, w')"
      using "1.prems"(1) unfolding unf by (simp add: ra rb r m Sip_Next stop del: One_nat_def)
    have keep: "(ss_bye st1 \<longrightarrow> request_arrives w0 ''BYE'') \<and> (ss_ack st1 \<longrightarrow> request_arrives w0 ''ACK'')"
      using sip_message_cases [OF m] Sip_Next "1.prems"(2,3) here sip_request_next by (metis sip_step.inject(1))
    have "set (w_net w2) \<subseteq> set (w_net w0)" using sip_message_net [OF m] arr(2) na "1.prems"(4) by auto
    from "1.hyps" [OF ra [symmetric] stop rb [symmetric] r(1) refl r(2) m [symmetric] Sip_Next run] keep this
    show ?thesis by blast
  qed
qed

section \<open>The exchange of the two programs\<close>

abbreviation text_from :: "sockaddr_in \<Rightarrow> string \<Rightarrow> select_result" where
  "text_from a s \<equiv> SelReady (RecvData a (bytes_of_string s))"

abbreviation text_to :: "sockaddr_in \<Rightarrow> string \<Rightarrow> sockaddr_in \<times> byte list" where
  "text_to a s \<equiv> (a, bytes_of_string s)"

text \<open>A call id, and the messages of a run that takes place within one second.\<close>

definition sip_call :: "string \<Rightarrow> int \<Rightarrow> string" where
  "sip_call kind t = snprintf_s 64 (kind @ show_int t @ ''@client'')"

definition sip_ask :: "int \<Rightarrow> string \<Rightarrow> string \<Rightarrow> string \<Rightarrow> int \<Rightarrow> string" where
  "sip_ask t verb uri call_id cseq = sip_message_text verb uri call_id cseq
     (snprintf_s 64 (''z9hG4bK-client-'' @ show_int t)) (snprintf_s 64 (''client-from-'' @ show_int t))"

definition sip_client_texts :: "string option \<Rightarrow> int \<Rightarrow> string list" where
  "sip_client_texts scenario t =
     sip_ask t ''REGISTER'' ''sip:demo@registrar'' (sip_call ''call-'' t) 1 #
     (if scenario = Some ''invite-bye'' then
        [sip_ask t ''INVITE'' ''sip:bob@demo'' (sip_call ''invite-'' t) 1,
         sip_ask t ''ACK'' ''sip:bob@demo'' (sip_call ''invite-'' t) 1,
         sip_ask t ''BYE'' ''sip:bob@demo'' (sip_call ''invite-'' t) 2]
      else [])"

definition sip_server_texts :: "string option \<Rightarrow> int \<Rightarrow> string list" where
  "sip_server_texts scenario t =
     response_of t (Some ''server-to'') (sip_call ''call-'' t) 1 ''REGISTER'' (200, ''OK'') #
     (if scenario = Some ''invite-bye'' then
        [response_of t None (sip_call ''invite-'' t) 1 ''INVITE'' (100, ''Trying''),
         response_of t (Some ''server-1'') (sip_call ''invite-'' t) 1 ''INVITE'' (180, ''Ringing''),
         response_of t (Some ''server-2'') (sip_call ''invite-'' t) 1 ''INVITE'' (200, ''OK''),
         response_of t (Some ''server-3'') (sip_call ''invite-'' t) 2 ''BYE'' (200, ''OK'')]
      else [])"

lemma sip_call_ok:
  "kind \<in> {''call-'', ''invite-''} \<Longrightarrow> field_ok (sip_call kind t) \<and> sip_call kind t \<noteq> [] \<and>
   hd (sip_call kind t) \<notin> {CHR '' '', CHR 0x09}"
  unfolding sip_call_def by (auto intro!: field_snprintf) (auto simp: snprintf_s_def)

lemma sip_ask_ok:
  assumes "verb \<in> {''REGISTER'', ''INVITE'', ''ACK'', ''BYE''}" "uri \<in> {''sip:demo@registrar'', ''sip:bob@demo''}"
    and "kind \<in> {''call-'', ''invite-''}"
  shows "request_ok verb uri (sip_call kind t) (snprintf_s 64 (''z9hG4bK-client-'' @ show_int t))
    (snprintf_s 64 (''client-from-'' @ show_int t))"
proof -
  have "field_ok (snprintf_s 64 (''z9hG4bK-client-'' @ show_int t))" "field_ok (snprintf_s 64 (''client-from-'' @ show_int t))"
    by (rule field_snprintf; simp)+
  with assms(1,2) sip_call_ok [OF assms(3), of t] show ?thesis by (simp only: request_ok_def simp_thms)
qed

section \<open>The server's run\<close>

lemma log_sip_step: "dgram_step i outs w w1 \<Longrightarrow> dgram_step i outs w (log_sip lg l e st m p dir c ty v cid sc d w1)"
  by (simp add: log_sip_def dgram_log)

lemma respond_step:
  assumes "dgram_calm w" "response_ok to_tag call_id cseq verb (code, reason)"
  shows "dgram_step [] [text_to a (response_of t to_tag call_id cseq verb (code, reason))] w
    (snd (send_sip_response lg peer a (server_branch t) ''server-from'' to_tag call_id cseq verb code reason p ty w))"
proof -
  let ?r = "sip_response (server_branch t) ''server-from'' to_tag call_id cseq verb code reason"
  have r: "response_of t to_tag call_id cseq verb (code, reason) = ?r" by (simp add: response_of_def)
  have "length ?r < 4096" using response_fits(2) [OF assms(2), of t] by (simp add: r)
  moreover from dgram_send [OF assms(1)] obtain w1 where
    "demo_sendto (bytes_of_string ?r) a w = (True, w1)" "dgram_step [] [text_to a ?r] w w1" by blast
  ultimately show ?thesis by (simp add: r send_sip_response_def Let_def sip_sizes log_sip_step)
qed

lemma loop_request:
  assumes "dgram_calm w" "w_net w = text_from a (sip_ask t verb uri (sip_call kind t) cseq) # rest"
    and "verb \<in> {''REGISTER'', ''INVITE'', ''ACK'', ''BYE''}" "uri \<in> {''sip:demo@registrar'', ''sip:bob@demo''}"
      "kind \<in> {''call-'', ''invite-''}" "cseq \<in> {1, 2}"
    and run: "\<And>w1. dgram_step [text_from a (sip_ask t verb uri (sip_call kind t) cseq)] [] w w1 \<Longrightarrow> w_net w1 = rest \<Longrightarrow>
      P (case sip_request lg want (peer_to_string a 64) a (bytes_of_string (sip_ask t verb uri (sip_call kind t) cseq)) verb
            (sip_call kind t) (server_branch t) ''server-from'' st w1 of
          (Sip_Stop rc, w2) \<Rightarrow> (rc, w2) | (Sip_Next st1, w2) \<Rightarrow> sip_server_loop (\<lambda>_. t) lg want st1 w2)"
  shows "P (sip_server_loop (\<lambda>_. t) lg want st w)"
proof -
  let ?d = "bytes_of_string (sip_ask t verb uri (sip_call kind t) cseq)"
  note ok = sip_ask_ok [OF assms(3-5), of t]
  have len: "length ?d \<le> SIP_MAX_MSG - 1" using request_text_fits(2) [OF ok assms(6)] by (simp add: sip_ask_def sip_sizes)
  from dgram_recv [OF assms(1,2) len] obtain w1 where r: "demo_recvfrom (SIP_MAX_MSG - 1) w = (Some (a, ?d), w1)"
    "dgram_step [text_from a (sip_ask t verb uri (sip_call kind t) cseq)] [] w w1" "w_net w1 = rest" by blast
  have "?d \<noteq> []" using assms(3) by (auto simp: sip_ask_def sip_message_text_def bytes_of_string_def)
  then have "sip_server_loop (\<lambda>_. t) lg want st w =
      (case sip_message (\<lambda>_. t) lg want a ?d st w1 of
         (Sip_Stop rc, w2) \<Rightarrow> (rc, w2) | (Sip_Next st1, w2) \<Rightarrow> sip_server_loop (\<lambda>_. t) lg want st1 w2)"
    by (subst sip_server_loop.simps) (simp add: dgram_stop [OF assms(1)] r(1) del: One_nat_def)
  also have "sip_message (\<lambda>_. t) lg want a ?d st w1 = sip_request lg want (peer_to_string a 64) a ?d verb
            (sip_call kind t) (server_branch t) ''server-from'' st w1"
    unfolding sip_ask_def by (rule sip_message_request [OF ok assms(6)]) simp
  finally show ?thesis using run [OF r(2,3)] by simp
qed

lemma log_request_step: "dgram_step i outs w w1 \<Longrightarrow> dgram_step i outs w (log_request lg peer p c d v w1)"
  by (simp add: log_request_def log_sip_step)

lemma dgram_step_calm: "dgram_step i outs w w1 \<Longrightarrow> dgram_calm w1"
  by (simp add: dgram_step_def)

text \<open>One response after the other.\<close>

lemma respond_more:
  assumes "dgram_step i outs w w1" "response_ok to_tag call_id cseq verb (code, reason)"
  shows "dgram_step i (outs @ [text_to a (response_of t to_tag call_id cseq verb (code, reason))]) w
    (snd (send_sip_response lg peer a (server_branch t) ''server-from'' to_tag call_id cseq verb code reason p ty w1))"
  using dgram_step_trans [OF assms(1) respond_step [OF dgram_step_calm [OF assms(1)] assms(2)]] by simp

lemma sip_server_registers:
  assumes "dgram_calm w" "w_net w = text_from a (sip_ask t ''REGISTER'' ''sip:demo@registrar'' (sip_call ''call-'' t) 1) # rest"
  shows "\<exists>w1. dgram_step [text_from a (sip_ask t ''REGISTER'' ''sip:demo@registrar'' (sip_call ''call-'' t) 1)]
      [text_to a (response_of t (Some ''server-to'') (sip_call ''call-'' t) 1 ''REGISTER'' (200, ''OK''))] w w1 \<and>
    sip_server_loop (\<lambda>_. t) lg want st w = (if want then sip_server_loop (\<lambda>_. t) lg want st w1 else (0, w1))"
proof (rule loop_request [OF assms])
  fix w1 assume s: "dgram_step [text_from a (sip_ask t ''REGISTER'' ''sip:demo@registrar'' (sip_call ''call-'' t) 1)] [] w w1"
  let ?d = "bytes_of_string (sip_ask t ''REGISTER'' ''sip:demo@registrar'' (sip_call ''call-'' t) 1)"
  let ?w = "log_request lg (peer_to_string a 64) SIP_PKT_REGISTER (sip_call ''call-'' t) ?d ''REGISTER'' w1"
  have ok: "response_ok (Some ''server-to'') (sip_call ''call-'' t) 1 ''REGISTER'' (200, ''OK'')"
    using sip_call_ok [of "''call-''" t] by (simp add: response_ok_def)
  show "\<exists>w2. dgram_step [text_from a (sip_ask t ''REGISTER'' ''sip:demo@registrar'' (sip_call ''call-'' t) 1)]
      [text_to a (response_of t (Some ''server-to'') (sip_call ''call-'' t) 1 ''REGISTER'' (200, ''OK''))] w w2 \<and>
    (case sip_request lg want (peer_to_string a 64) a ?d ''REGISTER'' (sip_call ''call-'' t) (server_branch t) ''server-from'' st w1 of
        (Sip_Stop rc, w2) \<Rightarrow> (rc, w2) | (Sip_Next st1, w2) \<Rightarrow> sip_server_loop (\<lambda>_. t) lg want st1 w2) =
      (if want then sip_server_loop (\<lambda>_. t) lg want st w2 else (0, w2))"
    using respond_more [OF log_request_step [OF s] ok, of a t lg "peer_to_string a 64" SIP_PKT_200_OK "''200_OK''" lg
        "peer_to_string a 64" SIP_PKT_REGISTER "sip_call ''call-'' t" ?d "''REGISTER''"]
    by (intro exI [of _ "snd (send_sip_response lg (peer_to_string a 64) a (server_branch t) ''server-from'' (Some ''server-to'')
          (sip_call ''call-'' t) 1 ''REGISTER'' 200 ''OK'' SIP_PKT_200_OK ''200_OK'' ?w)"])
      (simp add: sip_request_def)
qed simp_all

definition invite_answers :: "int \<Rightarrow> string list" where
  "invite_answers t =
     [response_of t None (sip_call ''invite-'' t) 1 ''INVITE'' (100, ''Trying''),
      response_of t (Some ''server-1'') (sip_call ''invite-'' t) 1 ''INVITE'' (180, ''Ringing''),
      response_of t (Some ''server-2'') (sip_call ''invite-'' t) 1 ''INVITE'' (200, ''OK'')]"

lemma invite_answered:
  assumes "dgram_step i [] w w1" "ss_last_call_id st = []"
  shows "\<exists>st1 w2. sip_request lg want peer a d ''INVITE'' (sip_call ''invite-'' t) (server_branch t) ''server-from'' st w1 =
      (Sip_Next st1, w2) \<and> ss_invite st1 \<and> ss_bye st1 = ss_bye st \<and>
    dgram_step i (map (text_to a) (invite_answers t)) w w2"
proof -
  let ?id = "sip_call ''invite-'' t"
  have ok: "response_ok None ?id 1 ''INVITE'' (100, ''Trying'')" "response_ok (Some ''server-1'') ?id 1 ''INVITE'' (180, ''Ringing'')"
    "response_ok (Some ''server-2'') ?id 1 ''INVITE'' (200, ''OK'')"
    using sip_call_ok [of "''invite-''" t] by (simp_all add: response_ok_def)
  let ?answer = "\<lambda>to_tag code reason p ty w'. snd (send_sip_response lg peer a (server_branch t) ''server-from'' to_tag ?id 1 ''INVITE''
      code reason p ty w')"
  have "dgram_step i ((([] @ [text_to a (response_of t None ?id 1 ''INVITE'' (100, ''Trying''))]) @
        [text_to a (response_of t (Some ''server-1'') ?id 1 ''INVITE'' (180, ''Ringing''))]) @
        [text_to a (response_of t (Some ''server-2'') ?id 1 ''INVITE'' (200, ''OK''))]) w
      (?answer (Some ''server-2'') 200 ''OK'' SIP_PKT_200_OK ''200_OK'' (?answer (Some ''server-1'') 180 ''Ringing'' SIP_PKT_180_RINGING
        ''180_RINGING'' (?answer None 100 ''Trying'' SIP_PKT_100_TRYING ''100_TRYING''
          (log_request lg peer SIP_PKT_INVITE ?id d ''INVITE'' w1))))"
    by (intro respond_more log_request_step assms(1) ok)
  note s = this [unfolded append_Nil append_Cons]
  show ?thesis using s assms(2)
    by (simp add: sip_request_def sip_invite_def invite_answers_def Let_def)
qed

lemma sip_server_calls:
  assumes "dgram_calm w" "ss_last_call_id st = []" "\<not> ss_bye st"
    and "w_net w = text_from a (sip_ask t ''INVITE'' ''sip:bob@demo'' (sip_call ''invite-'' t) 1) #
        text_from a (sip_ask t ''ACK'' ''sip:bob@demo'' (sip_call ''invite-'' t) 1) #
        text_from a (sip_ask t ''BYE'' ''sip:bob@demo'' (sip_call ''invite-'' t) 2) # rest"
  shows "\<exists>w1. sip_server_loop (\<lambda>_. t) lg True st w = (0, w1) \<and>
    w_sent w1 = w_sent w @ map (text_to a) (invite_answers t @ [response_of t (Some ''server-3'') (sip_call ''invite-'' t) 2 ''BYE'' (200, ''OK'')])"
proof (rule loop_request [OF assms(1,4)], goal_cases)
  case (5 w1)
  let ?id = "sip_call ''invite-'' t"
  have ok: "response_ok (Some ''server-3'') ?id 2 ''BYE'' (200, ''OK'')"
    using sip_call_ok [of "''invite-''" t] by (simp add: response_ok_def)
  from invite_answered [OF 5(1) assms(2), of lg True "peer_to_string a 64" a
      "bytes_of_string (sip_ask t ''INVITE'' ''sip:bob@demo'' ?id 1)" t]
  obtain st1 w2 where i: "sip_request lg True (peer_to_string a 64) a (bytes_of_string (sip_ask t ''INVITE'' ''sip:bob@demo'' ?id 1))
      ''INVITE'' ?id (server_branch t) ''server-from'' st w1 = (Sip_Next st1, w2)" "ss_invite st1" "ss_bye st1 = ss_bye st"
    "dgram_step [text_from a (sip_ask t ''INVITE'' ''sip:bob@demo'' ?id 1)] (map (text_to a) (invite_answers t)) w w2" by blast
  have c2: "dgram_calm w2" and n2: "w_net w2 = text_from a (sip_ask t ''ACK'' ''sip:bob@demo'' ?id 1) #
      text_from a (sip_ask t ''BYE'' ''sip:bob@demo'' ?id 2) # rest"
    using i(4) assms(4) by (simp_all add: dgram_step_def)
  have "\<exists>w3. sip_server_loop (\<lambda>_. t) lg True st1 w2 = (0, w3) \<and>
    w_sent w3 = w_sent w2 @ [text_to a (response_of t (Some ''server-3'') ?id 2 ''BYE'' (200, ''OK''))]"
  proof (rule loop_request [OF c2 n2], goal_cases)
    case (5 w3)
    let ?w4 = "log_request lg (peer_to_string a 64) SIP_PKT_ACK ?id (bytes_of_string (sip_ask t ''ACK'' ''sip:bob@demo'' ?id 1)) ''ACK'' w3"
    note s4 = log_request_step [OF 5(1), of lg "peer_to_string a 64" SIP_PKT_ACK ?id "bytes_of_string (sip_ask t ''ACK'' ''sip:bob@demo'' ?id 1)" "''ACK''"]
    have c4: "dgram_calm ?w4" "w_net ?w4 = text_from a (sip_ask t ''BYE'' ''sip:bob@demo'' ?id 2) # rest"
      using s4 n2 by (simp_all add: dgram_step_def)
    have "\<exists>w5. sip_server_loop (\<lambda>_. t) lg True (st1\<lparr>ss_ack := True\<rparr>) ?w4 = (0, w5) \<and>
      w_sent w5 = w_sent ?w4 @ [text_to a (response_of t (Some ''server-3'') ?id 2 ''BYE'' (200, ''OK''))]"
    proof (rule loop_request [OF c4], goal_cases)
      case (5 w5)
      note s6 = respond_more [OF log_request_step [OF 5(1)] ok, of a t lg "peer_to_string a 64" SIP_PKT_200_OK "''200_OK''" lg
          "peer_to_string a 64" SIP_PKT_BYE ?id "bytes_of_string (sip_ask t ''BYE'' ''sip:bob@demo'' ?id 2)" "''BYE''"]
      then show ?case using i(2) by (simp add: sip_request_def dgram_step_def)
    qed simp_all
    moreover have "w_sent ?w4 = w_sent w2" using s4 by (simp add: dgram_step_def)
    ultimately show ?case using i(3) assms(3) by (simp add: sip_request_def)
  qed simp_all
  with i(1,4) show ?case by (auto simp: dgram_step_def)
qed simp_all

lemma sip_server_run:
  assumes "dgram_calm w" "getenv w ''UDP_SECURE_SCENARIO'' = scenario" "scenario \<in> {None, Some ''invite-bye''}"
    and "w_net w = map (text_from a) (sip_client_texts scenario t) @ rest"
  shows "\<exists>w1. sip_server_session (\<lambda>_. t) lg w = (0, w1) \<and>
    w_sent w1 = w_sent w @ map (text_to a) (sip_server_texts scenario t)"
proof -
  let ?want = "scenario = Some ''invite-bye''"
  have n: "w_net w = text_from a (sip_ask t ''REGISTER'' ''sip:demo@registrar'' (sip_call ''call-'' t) 1) #
      map (text_from a) (tl (sip_client_texts scenario t)) @ rest"
    using assms(4) by (simp add: sip_client_texts_def)
  from sip_server_registers [OF assms(1) n, of lg ?want sip_start] obtain w1 where r:
    "dgram_step [text_from a (sip_ask t ''REGISTER'' ''sip:demo@registrar'' (sip_call ''call-'' t) 1)]
      [text_to a (response_of t (Some ''server-to'') (sip_call ''call-'' t) 1 ''REGISTER'' (200, ''OK''))] w w1"
    "sip_server_loop (\<lambda>_. t) lg ?want sip_start w = (if ?want then sip_server_loop (\<lambda>_. t) lg ?want sip_start w1 else (0, w1))"
    by blast
  have "\<exists>w2. sip_server_loop (\<lambda>_. t) lg ?want sip_start w = (0, w2) \<and> w_sent w2 = w_sent w @ map (text_to a) (sip_server_texts scenario t)"
  proof (cases ?want)
    case True
    have "w_net w1 = text_from a (sip_ask t ''INVITE'' ''sip:bob@demo'' (sip_call ''invite-'' t) 1) #
        text_from a (sip_ask t ''ACK'' ''sip:bob@demo'' (sip_call ''invite-'' t) 1) #
        text_from a (sip_ask t ''BYE'' ''sip:bob@demo'' (sip_call ''invite-'' t) 2) # rest"
      using r(1) n True by (simp add: dgram_step_def sip_client_texts_def)
    from sip_server_calls [OF dgram_step_calm [OF r(1)] _ _ this, of sip_start lg] r True show ?thesis
      by (auto simp: sip_start_def dgram_step_def sip_server_texts_def invite_answers_def)
  next
    case False
    with r show ?thesis by (auto simp: dgram_step_def sip_server_texts_def)
  qed
  then obtain w2 where "sip_server_loop (\<lambda>_. t) lg ?want sip_start w = (0, w2)"
    "w_sent w2 = w_sent w @ map (text_to a) (sip_server_texts scenario t)" by blast
  moreover have "scenario \<noteq> Some ''no-sips-downgrade''" using assms(3) by auto
  ultimately show ?thesis
    using assms(2) by (auto simp: sip_server_session_def Let_def demo_finish_world)
qed

section \<open>The client's run\<close>

definition client_at :: "Logger \<Rightarrow> string \<Rightarrow> int \<Rightarrow> sip_client" where
  "client_at lg peer t = \<lparr>sc_logger = lg, sc_peer = peer, sc_branch = snprintf_s 64 (''z9hG4bK-client-'' @ show_int t),
     sc_from_tag = snprintf_s 64 (''client-from-'' @ show_int t)\<rparr>"

lemma ask_step:
  assumes "dgram_step i outs w w1" "verb \<in> {''REGISTER'', ''INVITE'', ''ACK'', ''BYE''}"
    "uri \<in> {''sip:demo@registrar'', ''sip:bob@demo''}" "kind \<in> {''call-'', ''invite-''}" "cseq \<in> {1, 2}"
  shows "dgram_step i (outs @ [text_to a (sip_ask t verb uri (sip_call kind t) cseq)]) w
    (snd (send_sip (client_at lg peer t) verb uri (sip_call kind t) cseq p a w1))"
proof -
  let ?m = "sip_ask t verb uri (sip_call kind t) cseq"
  have "length ?m < 4096"
    using request_text_fits(2) [OF sip_ask_ok [OF assms(2-4), of t] assms(5)] by (simp add: sip_ask_def)
  moreover from dgram_send [OF dgram_step_calm [OF assms(1)]] obtain w2 where
    s: "demo_sendto (bytes_of_string ?m) a w1 = (True, w2)" "dgram_step [] [text_to a ?m] w1 w2" by blast
  moreover have "dgram_step i (outs @ [text_to a ?m]) w w2" by (rule dgram_step_trans [OF assms(1) s(2)]) simp_all
  moreover have m: "sip_message_text verb uri (sip_call kind t) cseq (sc_branch (client_at lg peer t)) (sc_from_tag (client_at lg peer t)) = ?m"
    by (simp add: client_at_def sip_ask_def)
  ultimately show ?thesis unfolding send_sip_def Let_def m by (simp add: sip_sizes log_sip_step)
qed

lemma response_received:
  assumes "dgram_step i outs w w1" "w_net w1 = text_from s (response_of t to_tag id' cseq verb (code, reason)) # rest"
    and "response_ok to_tag id' cseq verb (code, reason)"
  shows "\<exists>w2 w3. demo_recvfrom (SIP_MAX_MSG - 1) w1 = (Some (s, bytes_of_string (response_of t to_tag id' cseq verb (code, reason))), w2) \<and>
    log_response c kind call_id (bytes_of_string (response_of t to_tag id' cseq verb (code, reason))) w2 = (code, Some reason, w3) \<and>
    dgram_step (i @ [text_from s (response_of t to_tag id' cseq verb (code, reason))]) outs w w3 \<and> w_net w3 = rest"
proof -
  let ?m = "response_of t to_tag id' cseq verb (code, reason)"
  have "length (bytes_of_string ?m) \<le> SIP_MAX_MSG - 1" using response_fits(2) [OF assms(3), of t] by (simp add: sip_sizes)
  from dgram_recv [OF dgram_step_calm [OF assms(1)] assms(2) this] obtain w2 where
    r: "demo_recvfrom (SIP_MAX_MSG - 1) w1 = (Some (s, bytes_of_string ?m), w2)" "dgram_step [text_from s ?m] [] w1 w2" "w_net w2 = rest"
    by blast
  define w3 where "w3 = log_sip (sc_logger c) ''INFO'' ''RECV_RESPONSE'' ''RESPONSE'' reason (sc_peer c) ''Server -> Client''
      (fst (kind code)) (snd (kind code)) None call_id code (bytes_of_string ?m) w2"
  have l: "log_response c kind call_id (bytes_of_string ?m) w2 = (code, Some reason, w3)"
    using response_fits(1) [OF assms(3), of t] scan_response [OF assms(3), of t]
    by (simp add: log_response_def c_string_text w3_def case_prod_beta)
  have "dgram_step (i @ [text_from s ?m]) outs w w2" by (rule dgram_step_trans [OF assms(1) r(2)]) simp_all
  then have "dgram_step (i @ [text_from s ?m]) outs w w3" unfolding w3_def by (rule log_sip_step)
  moreover have "w_net w3 = rest" using r(3) by (simp add: w3_def log_sip_net)
  ultimately show ?thesis using r(1) l by blast
qed

definition registered :: "byte list" where
  "registered = bytes_of_string (''REGISTER -> 200 OK'' @ [CHR 0x0A])"

lemma register_calm:
  assumes "dgram_calm w"
    and "w_net w = text_from s (response_of t (Some ''server-to'') (sip_call ''call-'' t) 1 ''REGISTER'' (200, ''OK'')) # rest"
  shows "\<exists>w1. sip_register (client_at lg peer t) junk (sip_call ''call-'' t) out server w = (Inr s, snd (fwrite_all out registered w1)) \<and>
    dgram_step [text_from s (response_of t (Some ''server-to'') (sip_call ''call-'' t) 1 ''REGISTER'' (200, ''OK''))]
      [text_to server (sip_ask t ''REGISTER'' ''sip:demo@registrar'' (sip_call ''call-'' t) 1)] w w1 \<and> w_net w1 = rest"
proof -
  let ?id = "sip_call ''call-'' t" and ?c = "client_at lg peer t"
  let ?r = "response_of t (Some ''server-to'') ?id 1 ''REGISTER'' (200, ''OK'')"
  have ok: "response_ok (Some ''server-to'') ?id 1 ''REGISTER'' (200, ''OK'')"
    using sip_call_ok [of "''call-''" t] by (simp add: response_ok_def)
  define w0 where "w0 = snd (send_sip ?c ''REGISTER'' ''sip:demo@registrar'' ?id 1 SIP_PKT_REGISTER server w)"
  have s: "dgram_step [] ([] @ [text_to server (sip_ask t ''REGISTER'' ''sip:demo@registrar'' ?id 1)]) w w0"
    unfolding w0_def by (rule ask_step [OF dgram_step_refl [OF assms(1)]]) simp_all
  then have "w_net w0 = text_from s ?r # rest" using assms(2) by (simp add: dgram_step_def)
  from response_received [OF s this ok, of ?c response_kind "response_call_id (c_string (bytes_of_string ?r))"] obtain w2 w3 where
    r: "demo_recvfrom (SIP_MAX_MSG - 1) w0 = (Some (s, bytes_of_string ?r), w2)"
    "log_response ?c response_kind (response_call_id (c_string (bytes_of_string ?r))) (bytes_of_string ?r) w2 = (200, Some ''OK'', w3)"
    "dgram_step ([] @ [text_from s ?r]) ([] @ [text_to server (sip_ask t ''REGISTER'' ''sip:demo@registrar'' ?id 1)]) w w3" "w_net w3 = rest"
    by blast
  have "?r \<noteq> []" by (simp add: response_of_def sip_response_def)
  then have ne: "bytes_of_string ?r \<noteq> []" by (simp add: bytes_of_string_def)
  have "show_int 200 = ''200''" by (simp add: show_int_def show_nat.simps digit_char_def char_of_eq_iff)
  then have "sip_register ?c junk ?id out server w = (Inr s, snd (fwrite_all out registered w3))"
    unfolding sip_register_def w0_def [symmetric] r(1) option.case prod.case r(2)
    using ne by (simp add: registered_def)
  with r(3,4) show ?thesis by auto
qed

lemma invite_bye_calm:
  assumes "dgram_calm w"
    and "w_net w = map (text_from s) (invite_answers t @ [response_of t (Some ''server-3'') (sip_call ''invite-'' t) 2 ''BYE'' (200, ''OK'')]) @ rest"
  shows "dgram_step (map (text_from s) (invite_answers t @ [response_of t (Some ''server-3'') (sip_call ''invite-'' t) 2 ''BYE'' (200, ''OK'')]))
    (map (text_to s) [sip_ask t ''INVITE'' ''sip:bob@demo'' (sip_call ''invite-'' t) 1,
       sip_ask t ''ACK'' ''sip:bob@demo'' (sip_call ''invite-'' t) 1, sip_ask t ''BYE'' ''sip:bob@demo'' (sip_call ''invite-'' t) 2]) w
    (sip_invite_bye (\<lambda>_. t) (client_at lg peer t) s w)"
proof -
  let ?id = "sip_call ''invite-'' t" and ?c = "client_at lg peer t"
  let ?r1 = "response_of t None ?id 1 ''INVITE'' (100, ''Trying'')" and ?r2 = "response_of t (Some ''server-1'') ?id 1 ''INVITE'' (180, ''Ringing'')"
  let ?r3 = "response_of t (Some ''server-2'') ?id 1 ''INVITE'' (200, ''OK'')" and ?r4 = "response_of t (Some ''server-3'') ?id 2 ''BYE'' (200, ''OK'')"
  let ?a1 = "sip_ask t ''INVITE'' ''sip:bob@demo'' ?id 1" and ?a2 = "sip_ask t ''ACK'' ''sip:bob@demo'' ?id 1" and ?a3 = "sip_ask t ''BYE'' ''sip:bob@demo'' ?id 2"
  have ok: "response_ok None ?id 1 ''INVITE'' (100, ''Trying'')" "response_ok (Some ''server-1'') ?id 1 ''INVITE'' (180, ''Ringing'')"
    "response_ok (Some ''server-2'') ?id 1 ''INVITE'' (200, ''OK'')" "response_ok (Some ''server-3'') ?id 2 ''BYE'' (200, ''OK'')"
    using sip_call_ok [of "''invite-''" t] by (simp_all add: response_ok_def)
  have ne: "bytes_of_string (response_of t tt ?id q v st) \<noteq> []" for tt q v st
    by (simp add: response_of_def sip_response_def bytes_of_string_def)
  define w0 where "w0 = snd (send_sip ?c ''INVITE'' ''sip:bob@demo'' ?id 1 SIP_PKT_INVITE s w)"
  have s0: "dgram_step [] ([] @ [text_to s ?a1]) w w0"
    unfolding w0_def by (rule ask_step [OF dgram_step_refl [OF assms(1)]]) simp_all
  then have "w_net w0 = text_from s ?r1 # text_from s ?r2 # text_from s ?r3 # text_from s ?r4 # rest"
    using assms(2) by (simp add: dgram_step_def invite_answers_def)
  from response_received [OF s0 this ok(1), of ?c response_kind ?id] obtain x1 w1 where r1:
    "demo_recvfrom (SIP_MAX_MSG - 1) w0 = (Some (s, bytes_of_string ?r1), x1)"
    "log_response ?c response_kind ?id (bytes_of_string ?r1) x1 = (100, Some ''Trying'', w1)"
    "dgram_step ([] @ [text_from s ?r1]) ([] @ [text_to s ?a1]) w w1" "w_net w1 = text_from s ?r2 # text_from s ?r3 # text_from s ?r4 # rest" by blast
  from response_received [OF r1(3,4) ok(2), of ?c response_kind ?id] obtain x2 w2 where r2:
    "demo_recvfrom (SIP_MAX_MSG - 1) w1 = (Some (s, bytes_of_string ?r2), x2)"
    "log_response ?c response_kind ?id (bytes_of_string ?r2) x2 = (180, Some ''Ringing'', w2)"
    "dgram_step (([] @ [text_from s ?r1]) @ [text_from s ?r2]) ([] @ [text_to s ?a1]) w w2" "w_net w2 = text_from s ?r3 # text_from s ?r4 # rest" by blast
  from response_received [OF r2(3,4) ok(3), of ?c response_kind ?id] obtain x3 w3 where r3:
    "demo_recvfrom (SIP_MAX_MSG - 1) w2 = (Some (s, bytes_of_string ?r3), x3)"
    "log_response ?c response_kind ?id (bytes_of_string ?r3) x3 = (200, Some ''OK'', w3)"
    "dgram_step ((([] @ [text_from s ?r1]) @ [text_from s ?r2]) @ [text_from s ?r3]) ([] @ [text_to s ?a1]) w w3" "w_net w3 = text_from s ?r4 # rest" by blast
  have loop: "sip_responses ?c ?id 3 s w0 = (s, w3)"
    unfolding numeral_3_eq_3 sip_responses.simps r1(1) option.case prod.case r1(2) r2(1) r2(2) r3(1) r3(2) using ne by simp
  define w5 where "w5 = snd (send_sip ?c ''BYE'' ''sip:bob@demo'' ?id 2 SIP_PKT_BYE s
      (snd (send_sip ?c ''ACK'' ''sip:bob@demo'' ?id 1 SIP_PKT_ACK s w3)))"
  have s5: "dgram_step ((([] @ [text_from s ?r1]) @ [text_from s ?r2]) @ [text_from s ?r3]) ((([] @ [text_to s ?a1]) @ [text_to s ?a2]) @ [text_to s ?a3]) w w5"
    unfolding w5_def by (intro ask_step r3(3)) simp_all
  then have "w_net w5 = text_from s ?r4 # rest" using r3(3,4) by (simp add: dgram_step_def)
  from response_received [OF s5 this ok(4), of ?c "\<lambda>_. (sip_pkt SIP_PKT_200_OK, ''200_OK'')" ?id] obtain x6 w6 where r6:
    "demo_recvfrom (SIP_MAX_MSG - 1) w5 = (Some (s, bytes_of_string ?r4), x6)"
    "log_response ?c (\<lambda>_. (sip_pkt SIP_PKT_200_OK, ''200_OK'')) ?id (bytes_of_string ?r4) x6 = (200, Some ''OK'', w6)"
    "dgram_step (((([] @ [text_from s ?r1]) @ [text_from s ?r2]) @ [text_from s ?r3]) @ [text_from s ?r4])
      ((([] @ [text_to s ?a1]) @ [text_to s ?a2]) @ [text_to s ?a3]) w w6" by blast
  have "sip_invite_bye (\<lambda>_. t) ?c s w = w6"
    unfolding sip_invite_bye_def Let_def sip_call_def [symmetric] w0_def [symmetric] loop prod.case w5_def [symmetric] r6(1) option.case r6(2)
    using ne by simp
  with r6(3) show ?thesis by (simp add: invite_answers_def)
qed

text \<open>The world after the registration's line has been written.\<close>

lemma registered_calm:
  assumes "dgram_calm w"
  shows "dgram_calm (snd (fwrite_all out d w))" "getenv (snd (fwrite_all out d w)) v = getenv w v"
  using assms by (auto simp: dgram_calm_def fwrite_all_def getenv_def Let_def)

lemma sip_client_run:
  assumes "dgram_calm w" "getenv w ''UDP_SECURE_SCENARIO'' = scenario" "scenario \<in> {None, Some ''invite-bye''}"
    and "w_net w = map (text_from s) (sip_server_texts scenario t) @ rest"
  shows "\<exists>w1. sip_client_session (\<lambda>_. t) lg junk peer s out w = (0, w1) \<and>
    w_sent w1 = w_sent w @ map (text_to s) (sip_client_texts scenario t) \<and> file_data w1 out = file_data w out @ registered"
proof -
  let ?c = "client_at lg peer t"
  have n: "w_net w = text_from s (response_of t (Some ''server-to'') (sip_call ''call-'' t) 1 ''REGISTER'' (200, ''OK'')) #
      map (text_from s) (tl (sip_server_texts scenario t)) @ rest"
    using assms(4) by (simp add: sip_server_texts_def)
  from register_calm [OF assms(1) n, of lg peer junk out s] obtain w1 where r:
    "sip_register ?c junk (sip_call ''call-'' t) out s w = (Inr s, snd (fwrite_all out registered w1))"
    "dgram_step [text_from s (response_of t (Some ''server-to'') (sip_call ''call-'' t) 1 ''REGISTER'' (200, ''OK''))]
      [text_to s (sip_ask t ''REGISTER'' ''sip:demo@registrar'' (sip_call ''call-'' t) 1)] w w1"
    "w_net w1 = map (text_from s) (tl (sip_server_texts scenario t)) @ rest" by blast
  let ?w2 = "snd (fwrite_all out registered w1)"
  have c1: "dgram_calm w1" using r(2) by (rule dgram_step_calm)
  have f: "file_data ?w2 out = file_data w out @ registered"
    using fwrite_all_appends [of w1 out registered] c1 r(2) by (simp add: dgram_calm_def dgram_step_def file_data_def)
  have sent2: "w_sent ?w2 = w_sent w @ [text_to s (sip_ask t ''REGISTER'' ''sip:demo@registrar'' (sip_call ''call-'' t) 1)]"
    using r(2) by (simp add: dgram_step_def world_simps)
  have session: "sip_client_session (\<lambda>_. t) lg junk peer s out w = (0, w3)"
    if "w3 = (if scenario = None then demo_finish lg ''OK'' ''sip register flow completed'' ?w2
      else demo_finish lg ''OK'' ''sip flow completed'' (sip_invite_bye (\<lambda>_. t) ?c s ?w2))" for w3
    using that assms(3) unfolding sip_client_session_def Let_def assms(2) sip_call_def [symmetric] client_at_def [symmetric] r(1) sum.case prod.case
    by auto
  show ?thesis
  proof (cases "scenario = None")
    case True
    with session f sent2 show ?thesis by (auto simp: world_simps sip_client_texts_def)
  next
    case False
    then have inv: "scenario = Some ''invite-bye''" using assms(3) by auto
    have "w_net ?w2 = map (text_from s) (invite_answers t @ [response_of t (Some ''server-3'') (sip_call ''invite-'' t) 2 ''BYE'' (200, ''OK'')]) @ rest"
      using r(3) inv by (simp add: world_simps sip_server_texts_def invite_answers_def)
    from invite_bye_calm [OF registered_calm(1) [OF c1] this, of lg peer] session inv f sent2 show ?thesis
      by (auto simp: world_simps sip_client_texts_def dgram_step_def file_data_def)
  qed
qed

text \<open>
  C37. A whole run of the SIP demo within one second, without a scenario or with a call: with
  the messages of each program arriving at the other one in order, both end without an error,
  each sends exactly the messages the other one was to read, and the client notes the
  registration in its file.
\<close>

theorem sip_run:
  assumes "dgram_calm wc" "dgram_calm ws" "scenario \<in> {None, Some ''invite-bye''}"
    and "getenv wc ''UDP_SECURE_SCENARIO'' = scenario" "getenv ws ''UDP_SECURE_SCENARIO'' = scenario"
    and "w_net wc = map (text_from server) (sip_server_texts scenario t) @ rest"
    and "w_net ws = map (text_from asker) (sip_client_texts scenario t) @ rest'"
  shows "\<exists>wc' ws'. sip_client_session (\<lambda>_. t) lgc junk peer server out wc = (0, wc') \<and>
    sip_server_session (\<lambda>_. t) lgs ws = (0, ws') \<and>
    w_sent wc' = w_sent wc @ map (text_to server) (sip_client_texts scenario t) \<and>
    w_sent ws' = w_sent ws @ map (text_to asker) (sip_server_texts scenario t) \<and>
    file_data wc' out = file_data wc out @ registered"
proof -
  from sip_client_run [OF assms(1,4,3,6)] sip_server_run [OF assms(2,5,3,7)] show ?thesis by blast
qed

text \<open>The call, with both programs in the first second.\<close>

definition sip_world :: "select_result list \<Rightarrow> world" where
  "sip_world ins = quiet_world\<lparr>w_env := [''UDP_SECURE_SCENARIO'' \<mapsto> ''invite-bye''], w_net := ins\<rparr>"

lemma sip_world_parts:
  "dgram_calm (sip_world ins)" "getenv (sip_world ins) ''UDP_SECURE_SCENARIO'' = Some ''invite-bye''" "w_net (sip_world ins) = ins"
  by (simp_all add: sip_world_def dgram_calm_def getenv_def quiet_parts)

lemma sip_run_witness:
  "\<exists>wc' ws'. sip_client_session (\<lambda>_. 0) closed_logger [] ''server'' \<lparr>sin_family = 2, sin_port = 5060, sin_addr = 1\<rparr> ''out''
      (sip_world (map (text_from \<lparr>sin_family = 2, sin_port = 5060, sin_addr = 1\<rparr>) (sip_server_texts (Some ''invite-bye'') 0))) = (0, wc') \<and>
    sip_server_session (\<lambda>_. 0) closed_logger
      (sip_world (map (text_from \<lparr>sin_family = 2, sin_port = 4000, sin_addr = 2\<rparr>) (sip_client_texts (Some ''invite-bye'') 0))) = (0, ws')"
proof -
  let ?s = "\<lparr>sin_family = 2, sin_port = 5060, sin_addr = 1\<rparr>" and ?a = "\<lparr>sin_family = 2, sin_port = 4000, sin_addr = 2\<rparr>"
  let ?wc = "sip_world (map (text_from ?s) (sip_server_texts (Some ''invite-bye'') 0))"
  let ?ws = "sip_world (map (text_from ?a) (sip_client_texts (Some ''invite-bye'') 0))"
  have n: "w_net ?wc = map (text_from ?s) (sip_server_texts (Some ''invite-bye'') 0) @ []"
    "w_net ?ws = map (text_from ?a) (sip_client_texts (Some ''invite-bye'') 0) @ []" by (simp_all add: sip_world_parts(3))
  from sip_run [OF sip_world_parts(1) sip_world_parts(1) _ sip_world_parts(2) sip_world_parts(2) n] show ?thesis by blast
qed

section \<open>What the server's good end needs\<close>

text \<open>
  C38. In the scenario of a call, the server ends with OK only if an ACK and a BYE have
  arrived, whatever else the network brings.
\<close>

theorem sip_call_needs_ack_and_bye:
  assumes "sip_server_session now lg w = (0, w')" "getenv w ''UDP_SECURE_SCENARIO'' = Some ''invite-bye''"
  shows "request_arrives w ''ACK'' \<and> request_arrives w ''BYE''"
proof -
  obtain rc w2 where "sip_server_loop now lg True sip_start w = (rc, w2)" by fastforce
  with assms have "sip_server_loop now lg True sip_start w = (0, w2)" by (simp add: sip_server_session_def)
  then show ?thesis by (rule sip_server_ok_needs) (simp_all add: sip_start_def)
qed

lemma sip_call_needs_ack_and_bye_witness:
  "request_arrives (sip_world (map (text_from \<lparr>sin_family = 2, sin_port = 4000, sin_addr = 2\<rparr>)
     (sip_client_texts (Some ''invite-bye'') 0))) ''ACK''"
proof -
  let ?w = "sip_world (map (text_from \<lparr>sin_family = 2, sin_port = 4000, sin_addr = 2\<rparr>) (sip_client_texts (Some ''invite-bye'') 0))"
  have "w_net ?w = map (text_from \<lparr>sin_family = 2, sin_port = 4000, sin_addr = 2\<rparr>) (sip_client_texts (Some ''invite-bye'') 0) @ []"
    by (simp add: sip_world_parts(3))
  from sip_server_run [OF sip_world_parts(1,2) _ this, of closed_logger] obtain w1 where
    "sip_server_session (\<lambda>_. 0) closed_logger ?w = (0, w1)" by auto
  from sip_call_needs_ack_and_bye [OF this sip_world_parts(2)] show ?thesis by simp
qed

text \<open>
  A registration that is answered by anything but a status line counts as accepted, and so
  does a repeated INVITE if another call came between.
\<close>

lemma unreadable_answer_accepted:
  assumes "demo_recvfrom 4095 (snd (send_sip c ''REGISTER'' ''sip:demo@registrar'' call_id 1 SIP_PKT_REGISTER server w)) = (Some (a, [120]), w1)"
  shows "\<exists>w2. sip_register c junk call_id out server w = (Inr a, w2)"
proof -
  have "scan_status (c_string [120]) = (None, None)"
    by (simp add: scan_status_def scan_word_def c_string_def string_of_bytes_def char_of_byte_def is_space_def strtol10_def)
  with assms show ?thesis by (simp add: sip_register_def sip_sizes log_response_def)
qed

lemma replay_behind_other_call:
  assumes "call1 \<noteq> call2" "length call1 < 1024" "length call2 < 1024"
    and "sip_request lg want peer a d ''INVITE'' call1 b f st0 w = (Sip_Next st1, w1)"
    and "sip_request lg want peer a d ''INVITE'' call2 b f st1 w1 = (Sip_Next st2, w2)"
  shows "\<exists>st3 w3. sip_request lg want peer a d ''INVITE'' call1 b f st2 w2 = (Sip_Next st3, w3)"
  using assms by (auto simp: sip_request_def sip_invite_def sip_sizes Let_def split: if_splits)

end
