(* ===== verification/Http2.thy ===== *)
theory Http2
  imports CText Exchange
begin

text \<open>
  The HTTP/2 demo (\<open>src/http2_demo_server.c\<close>, \<open>src/http2_demo_client.c\<close>): frames over a TCP
  stream behind a fixed preface, header fields as literals. What a settings frame of more
  than 64 bytes does to the stack is an argument (\<open>undef\<close>): it is read into a buffer of that
  size. Pauses and closing descriptors leave nothing in the modelled state.
\<close>

section \<open>Frames\<close>

definition H2_FRAME_HEADER_SIZE :: nat where "H2_FRAME_HEADER_SIZE = 9"
definition H2_MAX_FRAME :: nat where "H2_MAX_FRAME = 8192"

lemmas h2_sizes = H2_FRAME_HEADER_SIZE_def H2_MAX_FRAME_def

datatype H2Type = H2_TYPE_DATA | H2_TYPE_HEADERS | H2_TYPE_PRIORITY | H2_TYPE_RST_STREAM | H2_TYPE_SETTINGS
  | H2_TYPE_PING | H2_TYPE_GOAWAY | H2_TYPE_WINDOW_UPDATE

primrec h2_type :: "H2Type \<Rightarrow> byte" where
  "h2_type H2_TYPE_DATA = 0"
| "h2_type H2_TYPE_HEADERS = 1"
| "h2_type H2_TYPE_PRIORITY = 2"
| "h2_type H2_TYPE_RST_STREAM = 3"
| "h2_type H2_TYPE_SETTINGS = 4"
| "h2_type H2_TYPE_PING = 6"
| "h2_type H2_TYPE_GOAWAY = 7"
| "h2_type H2_TYPE_WINDOW_UPDATE = 8"

datatype H2Packet = H2_PKT_PREFACE | H2_PKT_SETTINGS | H2_PKT_HEADERS | H2_PKT_DATA | H2_PKT_WINDOW_UPDATE
  | H2_PKT_PING | H2_PKT_RST_STREAM | H2_PKT_GOAWAY

primrec h2_pkt :: "H2Packet \<Rightarrow> int" where
  "h2_pkt H2_PKT_PREFACE = 160"
| "h2_pkt H2_PKT_SETTINGS = 161"
| "h2_pkt H2_PKT_HEADERS = 162"
| "h2_pkt H2_PKT_DATA = 163"
| "h2_pkt H2_PKT_WINDOW_UPDATE = 164"
| "h2_pkt H2_PKT_PING = 165"
| "h2_pkt H2_PKT_RST_STREAM = 166"
| "h2_pkt H2_PKT_GOAWAY = 167"

definition log_h2 ::
  "Logger \<Rightarrow> string \<Rightarrow> string \<Rightarrow> string \<Rightarrow> string \<Rightarrow> string \<Rightarrow> string \<Rightarrow> int \<Rightarrow> string \<Rightarrow> u32 \<Rightarrow> string option \<Rightarrow>
   byte list \<Rightarrow> world \<Rightarrow> world" where
  "log_h2 lg level event state message peer direction packet_code packet_type stream_id header_summary wire w =
     logger_write lg (Some ((demo_init_event level event state message)
       \<lparr>le_peer := Some peer, le_direction := Some direction, le_packet_type := Some packet_type,
        le_packet_code := packet_code, le_stream_id := int_of_u32 stream_id, le_header_summary := header_summary,
        le_payload_length := int_of_size (length wire), le_bytes := int_of_size (length wire),
        le_packet_uid := compute_packet_uid 24 (word_of_int packet_code) (int_of_u32 stream_id) 0 (Some wire) (length wire),
        le_wire_hex := bytes_to_hex (Some (take (if length wire > 160 then 160 else length wire) wire)) 321\<rparr>)) w"

definition put_u24 :: "u32 \<Rightarrow> byte list" where
  "put_u24 v = [ucast (drop_bit 16 v AND 0xff), ucast (drop_bit 8 v AND 0xff), ucast (v AND 0xff)]"

definition get_u24 :: "byte list \<Rightarrow> u32" where
  "get_u24 b = push_bit 16 (ucast (b ! 0)) OR push_bit 8 (ucast (b ! 1)) OR ucast (b ! 2)"

text \<open>The bytes of a frame, and the parts of a received header.\<close>

definition h2_wire :: "byte \<Rightarrow> byte \<Rightarrow> u32 \<Rightarrow> byte list \<Rightarrow> byte list" where
  "h2_wire type flags stream_id payload = put_u24 (word_of_nat (length payload)) @ type # flags # put_u32 stream_id @ payload"

definition h2_stream_id :: "byte list \<Rightarrow> u32" where
  "h2_stream_id frame_hdr = get_u32 (drop 5 frame_hdr) AND 0x7fffffff"

text \<open>
  What a program passes with every call: its log, the peer's text, the direction. The two
  programs' functions differ in the latter. The callers do not look at the result.
\<close>

record h2_side =
  h2_logger :: Logger
  h2_peer :: string
  h2_direction :: string

definition send_h2_frame ::
  "h2_side \<Rightarrow> H2Type \<Rightarrow> byte \<Rightarrow> u32 \<Rightarrow> byte list \<Rightarrow> H2Packet \<Rightarrow> string \<Rightarrow> string option \<Rightarrow> string \<Rightarrow> string \<Rightarrow>
   world \<Rightarrow> bool \<times> world" where
  "send_h2_frame s type flags stream_id payload packet packet_type header_summary event state w =
     (if H2_FRAME_HEADER_SIZE + length payload > H2_MAX_FRAME then (False, w)
      else let wire = h2_wire (h2_type type) flags stream_id payload in
        case demo_write_all wire w of (ok, w1) \<Rightarrow>
          if \<not> ok then (False, w1)
          else (True, log_h2 (h2_logger s) ''INFO'' event state ''h2 frame sent'' (h2_peer s) (h2_direction s) (h2_pkt packet)
                  packet_type stream_id header_summary wire w1))"

definition read_exact :: "nat \<Rightarrow> world \<Rightarrow> byte list option \<times> world" where
  "read_exact = demo_read_all"

section \<open>Header fields and settings\<close>

definition hpack_encode_literal :: "nat \<Rightarrow> string \<Rightarrow> string \<Rightarrow> byte list option" where
  "hpack_encode_literal cap name text =
     (if length name > 127 \<or> length text > 127 then None
      else if 1 + 1 + length name + 1 + length text > cap then None
      else Some (0 # word_of_nat (length name) # bytes_of_string name @ word_of_nat (length text) # bytes_of_string text))"

text \<open>
  The fields one after the other into a buffer. The position moves by the result, so that a
  failure would take back one byte; the programs' fields are short and none fails.
\<close>

definition hpack_fields :: "nat \<Rightarrow> (string \<times> string) list \<Rightarrow> byte list" where
  "hpack_fields cap entries = fold (\<lambda>(name, text) out. case hpack_encode_literal (cap - length out) name text of
     None \<Rightarrow> butlast out | Some d \<Rightarrow> out @ d) entries []"

definition settings_payload :: "byte list" where
  "settings_payload = put_u16 1 @ put_u32 4096 @ put_u16 2 @ put_u32 1 @ put_u16 3 @ put_u32 100 @
     put_u16 4 @ put_u32 65535 @ put_u16 5 @ put_u32 16384 @ put_u16 6 @ put_u32 8192"

text \<open>The walk over the entries of a header block that looks for an overlong name or value.\<close>

lemma hpack_walk_shorter: "drop n (if c then tl r else r) = v # vs \<Longrightarrow> length (drop k vs) < Suc (length r)"
proof -
  assume d: "drop n (if c then tl r else r) = v # vs"
  have "length (v # vs) \<le> length r" unfolding d [symmetric] by (cases c) simp_all
  then show ?thesis by simp
qed

function hpack_overflow :: "byte list \<Rightarrow> bool" where
  "hpack_overflow [] = False"
| "hpack_overflow (b # rest) =
     (if b AND 0x80 \<noteq> 0 then hpack_overflow rest
      else let named = (b AND 0x0f = 0 \<or> b AND 0x0f = 0x0f) in
        if named \<and> rest = [] then False
        else let name_len = (if named then unat (hd rest) else 0); after = (if named then tl rest else rest) in
          if name_len > 127 then True
          else case drop name_len after of
              [] \<Rightarrow> False
            | v # vs \<Rightarrow> if unat v > 127 then True else hpack_overflow (drop (unat v) vs))"
  by pat_completeness auto

termination
proof (relation "measure length")
  fix b v :: byte and rest xb vs :: "byte list" and x :: bool and xa :: nat
  assume "xb = (if x then tl rest else rest)" "drop xa xb = v # vs"
  then show "(drop (unat v) vs, b # rest) \<in> measure length"
    using hpack_walk_shorter [of xa x rest v vs "unat v"] by simp
qed simp_all

declare hpack_overflow.simps(2) [simp del]

section \<open>The server\<close>

definition H2_PREFACE :: string where
  "H2_PREFACE = ''PRI * HTTP/2.0'' @ CRLF @ CRLF @ ''SM'' @ CRLF @ CRLF"

definition h2_server :: "Logger \<Rightarrow> h2_side" where
  "h2_server lg = \<lparr>h2_logger = lg, h2_peer = ''client'', h2_direction = ''Server -> Client''\<rparr>"

text \<open>A received frame in the log.\<close>

definition log_frame_in ::
  "h2_side \<Rightarrow> string \<Rightarrow> string \<Rightarrow> string \<Rightarrow> string \<Rightarrow> string \<Rightarrow> H2Packet \<Rightarrow> string \<Rightarrow> u32 \<Rightarrow> string option \<Rightarrow> byte list \<Rightarrow> world \<Rightarrow> world" where
  "log_frame_in s level event state message direction packet packet_type stream_id header_summary wire w =
     log_h2 (h2_logger s) level event state message (h2_peer s) direction (h2_pkt packet) packet_type stream_id header_summary wire w"

record h2_state =
  hs_streams_seen :: nat
  hs_hpack_error :: bool
  hs_stream_cancelled :: bool

definition h2_start :: h2_state where
  "h2_start = \<lparr>hs_streams_seen = 0, hs_hpack_error = False, hs_stream_cancelled = False\<rparr>"

definition h2_response :: "h2_side \<Rightarrow> u32 \<Rightarrow> world \<Rightarrow> world" where
  "h2_response s stream_id w =
     (let w1 = snd (send_h2_frame s H2_TYPE_HEADERS 0x05 stream_id
            (hpack_fields 256 [('':status'', ''200''), (''content-type'', ''text/plain'')]) H2_PKT_HEADERS ''HEADERS''
            (Some '':status=200'') ''SEND_HEADERS'' ''DATA'' w) in
      snd (send_h2_frame s H2_TYPE_DATA 0x01 stream_id (bytes_of_string (''hello http2'' @ [CHR 0x0A])) H2_PKT_DATA ''DATA'' None
            ''SEND_DATA'' ''DATA'' w1))"

definition h2_reset :: "h2_side \<Rightarrow> u32 \<Rightarrow> world \<Rightarrow> world" where
  "h2_reset s stream_id w =
     snd (send_h2_frame s H2_TYPE_RST_STREAM 0 stream_id [0, 0, 0, 0x09] H2_PKT_RST_STREAM ''RST_STREAM'' None ''SEND_RST_STREAM''
       ''ABORT'' (logger_write (h2_logger s) (Some ((demo_init_event ''ERROR'' ''HPACK_DECODE_ERROR'' ''HPACK''
            ''header name length > 127; rejecting stream'')
          \<lparr>le_peer := Some (h2_peer s), le_stream_id := int_of_u32 stream_id, le_security_mac_valid := 0\<rparr>)) w))"

text \<open>One frame, \<open>hd\<close> its header. The result is whether the loop ends here.\<close>

definition h2_server_headers :: "h2_side \<Rightarrow> byte list \<Rightarrow> byte list \<Rightarrow> h2_state \<Rightarrow> world \<Rightarrow> bool \<times> h2_state \<times> world" where
  "h2_server_headers s frame_hdr payload st w =
     (let stream_id = h2_stream_id frame_hdr;
          w1 = log_frame_in s ''INFO'' ''RECV_HEADERS'' ''HEADERS'' ''HEADERS frame received'' ''Client -> Server'' H2_PKT_HEADERS ''HEADERS''
                 stream_id (Some '':method=GET :path=/'') (frame_hdr @ payload) w in
      if getenv w ''UDP_SECURE_SCENARIO'' = Some ''hpack-overflow'' \<and> hpack_overflow payload then
        (True, st\<lparr>hs_hpack_error := True\<rparr>, h2_reset s stream_id w1)
      else (False, st\<lparr>hs_streams_seen := hs_streams_seen st + 1\<rparr>, h2_response s stream_id w1))"

definition h2_server_frame :: "h2_side \<Rightarrow> byte list \<Rightarrow> byte list \<Rightarrow> h2_state \<Rightarrow> world \<Rightarrow> bool \<times> h2_state \<times> world" where
  "h2_server_frame s frame_hdr payload st w =
     (let type = frame_hdr ! 3; stream_id = h2_stream_id frame_hdr; full = frame_hdr @ payload;
          note = (\<lambda>event state message packet packet_type sid. log_frame_in s ''INFO'' event state message ''Client -> Server'' packet
                    packet_type sid None full w) in
      if type = h2_type H2_TYPE_HEADERS then h2_server_headers s frame_hdr payload st w
      else if type = h2_type H2_TYPE_DATA then
        (False, st, note ''RECV_DATA'' ''DATA'' ''DATA frame received'' H2_PKT_DATA ''DATA'' stream_id)
      else if type = h2_type H2_TYPE_RST_STREAM then
        (False, st\<lparr>hs_stream_cancelled := True\<rparr>,
         note ''RECV_RST_STREAM'' ''RST_STREAM'' ''client RST_STREAM received'' H2_PKT_RST_STREAM ''RST_STREAM'' stream_id)
      else if type = h2_type H2_TYPE_PING then
        (False, st, snd (send_h2_frame s H2_TYPE_PING 0x06 0 payload H2_PKT_PING ''PING'' (Some ''ack'') ''SEND_PING_ACK'' ''PING''
           (note ''RECV_PING'' ''PING'' ''client PING received'' H2_PKT_PING ''PING'' 0)))
      else if type = h2_type H2_TYPE_WINDOW_UPDATE then
        (False, st, note ''RECV_WINDOW_UPDATE'' ''WINDOW_UPDATE'' ''client WINDOW_UPDATE received'' H2_PKT_WINDOW_UPDATE
           ''WINDOW_UPDATE'' stream_id)
      else (False, st, note ''RECV_FRAME'' ''UNKNOWN'' ''unknown frame type'' H2_PKT_HEADERS ''FRAME'' stream_id))"

text \<open>Every round takes at least the nine bytes of a header from the stream.\<close>

lemma read_exact_shorter:
  assumes "read_exact n w = (Some d, w1)"
  shows "length (tcp_stream w) = n + length (tcp_stream w1)"
  using demo_read_all_some [OF assms [unfolded read_exact_def]] by simp

lemma log_h2_stream: "tcp_stream (log_h2 lg l e st m p dir c ty sid hs wire w) = tcp_stream w"
  by (simp add: log_h2_def logger_write_def tcp_stream_def Let_def)

lemma send_h2_frame_stream: "tcp_stream (snd (send_h2_frame s ty fl sid d p pt hs e st w)) = tcp_stream w"
proof -
  obtain ok w1 where r: "demo_write_all (h2_wire (h2_type ty) fl sid d) w = (ok, w1)" by fastforce
  from demo_write_all_writes [OF r] obtain d1 where "writes d1 w w1" by blast
  with r show ?thesis by (simp add: send_h2_frame_def Let_def log_h2_stream writes_same(14) world_simps)
qed

lemma h2_server_frame_stream:
  "h2_server_frame s frame_hdr payload st w = (ends, st1, w1) \<Longrightarrow> tcp_stream w1 = tcp_stream w"
  by (auto simp: h2_server_frame_def h2_server_headers_def h2_reset_def h2_response_def log_frame_in_def Let_def
      send_h2_frame_stream log_h2_stream split: if_splits)

lemma stop_keeps_stream: "read_stop w = (stop, w1) \<Longrightarrow> tcp_stream w1 = tcp_stream w"
  by (auto simp: read_stop_def tcp_stream_def split: option.splits nat.splits)

function h2_server_loop :: "h2_side \<Rightarrow> h2_state \<Rightarrow> world \<Rightarrow> h2_state \<times> world" where
  "h2_server_loop s st w =
     (case read_stop w of (stop, w0) \<Rightarrow>
      if stop then (st, w0)
      else case read_exact 9 w0 of
        (None, w1) \<Rightarrow> (st, w1)
      | (Some frame_hdr, w1) \<Rightarrow>
        let len = unat (get_u24 frame_hdr) in
        if len > H2_MAX_FRAME then (st, demo_finish (h2_logger s) ''ABORT'' ''frame too large'' w1)
        else case read_exact len w1 of
          (None, w2) \<Rightarrow> (st, w2)
        | (Some payload, w2) \<Rightarrow>
          (case h2_server_frame s frame_hdr payload st w2 of (ends, st1, w3) \<Rightarrow>
           let max_streams = (if getenv w ''UDP_SECURE_SCENARIO'' = Some ''multiplex'' then 6 else 1) in
           if ends \<or> max_streams > 1 \<and> hs_streams_seen st1 \<ge> max_streams then (st1, w3)
           else h2_server_loop s st1 w3))"
  by pat_completeness auto
termination
  by (relation "measure (\<lambda>(s, st, w). length (tcp_stream w))")
    (auto dest!: stop_keeps_stream [OF sym] read_exact_shorter [OF sym] h2_server_frame_stream [OF sym])

declare h2_server_loop.simps [simp del]

definition h2_server_end :: "Logger \<Rightarrow> h2_state \<Rightarrow> world \<Rightarrow> int \<times> world" where
  "h2_server_end lg st w =
     (if hs_hpack_error st then (1, demo_finish lg ''ABORT'' ''hpack decode error (hpack-overflow scenario)'' w)
      else if hs_stream_cancelled st then (1, demo_finish lg ''ABORT'' ''stream cancelled by client'' w)
      else (0, demo_finish lg ''OK'' ''http2 flow completed'' w))"

text \<open>The settings of both sides, after the client's preface.\<close>

definition h2_server_settings :: "(world \<Rightarrow> int \<times> world) \<Rightarrow> Logger \<Rightarrow> world \<Rightarrow> int \<times> world" where
  "h2_server_settings undef lg w =
     (let s = h2_server lg in
      case read_exact 9 w of
        (None, w1) \<Rightarrow> (1, demo_finish lg ''ABORT'' ''settings hdr read failed'' w1)
      | (Some frame_hdr, w1) \<Rightarrow>
        let len = unat (get_u24 frame_hdr) in
        if frame_hdr ! 3 \<noteq> h2_type H2_TYPE_SETTINGS then (1, demo_finish lg ''ABORT'' ''first frame not SETTINGS'' w1)
        else if len > 64 then undef w1
        else case read_exact len w1 of
          (None, w2) \<Rightarrow> (1, demo_finish lg ''ABORT'' ''settings payload read failed'' w2)
        | (Some payload, w2) \<Rightarrow>
          let w3 = log_frame_in s ''INFO'' ''RECV_SETTINGS'' ''SETTINGS'' ''client SETTINGS received'' ''Client -> Server'' H2_PKT_SETTINGS
                 ''SETTINGS'' 0 None (frame_hdr @ payload) w2;
              w4 = snd (send_h2_frame s H2_TYPE_SETTINGS 0x00 0 settings_payload H2_PKT_SETTINGS ''SETTINGS'' None ''SEND_SETTINGS''
                 ''SETTINGS'' w3);
              w5 = snd (send_h2_frame s H2_TYPE_SETTINGS 0x01 0 [] H2_PKT_SETTINGS ''SETTINGS'' (Some ''ack'') ''SEND_SETTINGS_ACK''
                 ''SETTINGS'' w4) in
          case h2_server_loop s h2_start w5 of (st, w6) \<Rightarrow> h2_server_end lg st w6)"

definition h2_server_session :: "(world \<Rightarrow> int \<times> world) \<Rightarrow> Logger \<Rightarrow> world \<Rightarrow> int \<times> world" where
  "h2_server_session undef lg w =
     (case read_exact 24 w of (preface, w1) \<Rightarrow>
      if preface \<noteq> Some (bytes_of_string H2_PREFACE) then
        (1, demo_finish lg ''ABORT'' ''bad preface''
              (logger_write lg (Some ((demo_init_event ''ERROR'' ''BAD_PREFACE'' ''PREFACE'' ''client preface invalid'')
                 \<lparr>le_peer := Some ''client''\<rparr>)) w1))
      else h2_server_settings undef lg
             (logger_write lg (Some ((demo_init_event ''INFO'' ''RECV_PREFACE'' ''PREFACE'' ''h2 client preface received'')
                \<lparr>le_peer := Some ''client'', le_packet_type := Some ''PREFACE'', le_packet_code := h2_pkt H2_PKT_PREFACE,
                 le_payload_length := 24, le_bytes := 24\<rparr>)) w1))"

definition h2_server_main :: "(world \<Rightarrow> int \<times> world) \<Rightarrow> sockaddr_in \<Rightarrow> string list \<Rightarrow> world \<Rightarrow> int \<times> world" where
  "h2_server_main undef peer argv w =
     (case logger_open (Some ''server'') (Some ''logs/server.jsonl'') w of
        (rc, None) \<Rightarrow> (1, w)
      | (rc, Some lg) \<Rightarrow>
        if rc \<noteq> 0 then (1, w)
        else (case (if length argv \<noteq> 4 then None else parse_port (Some (argv ! 1))) of
            None \<Rightarrow> (1, demo_finish lg ''ABORT'' ''invalid arguments'' w)
          | Some port \<Rightarrow>
            (case demo_create_tcp_listener port w of (listening, w1) \<Rightarrow>
             if \<not> listening then (1, demo_finish lg ''ABORT'' (w_errno w1) w1)
             else
              (let w2 = logger_write lg (Some ((demo_init_event ''INFO'' ''SERVER_START'' ''INIT'' ''http2 server started'')
                     \<lparr>le_port := uint port\<rparr>)) w1 in
               case demo_accept_client peer w2 of
                 (None, w3) \<Rightarrow> (1, demo_finish lg ''ABORT'' ''accept failed'' w3)
               | (Some addr, w3) \<Rightarrow> h2_server_session undef lg w3))))"

section \<open>The client\<close>

definition h2_client :: "Logger \<Rightarrow> string \<Rightarrow> h2_side" where
  "h2_client lg peer = \<lparr>h2_logger = lg, h2_peer = peer, h2_direction = ''Client -> Server''\<rparr>"

text \<open>The server's settings and its acknowledgement: two frames of any type.\<close>

fun h2_client_settings :: "h2_side \<Rightarrow> bool list \<Rightarrow> world \<Rightarrow> (string + bool) \<times> world" where
  "h2_client_settings s [] w = (Inr True, w)"
| "h2_client_settings s (first # more_frames) w =
     (case read_exact 9 w of
        (None, w1) \<Rightarrow> (Inl ''server settings read failed'', w1)
      | (Some frame_hdr, w1) \<Rightarrow>
        let len = unat (get_u24 frame_hdr) in
        if len > 64 then (Inr False, w1)
        else case read_exact len w1 of
          (None, w2) \<Rightarrow> (Inl ''server settings payload failed'', w2)
        | (Some payload, w2) \<Rightarrow>
          let settings = (first \<and> frame_hdr ! 4 AND 0x01 = 0) in
          h2_client_settings s more_frames
            (log_frame_in s ''INFO'' (if settings then ''RECV_SETTINGS'' else ''RECV_SETTINGS_ACK'') ''SETTINGS'' ''server frame received''
               ''Server -> Client'' H2_PKT_SETTINGS (if settings then ''SETTINGS'' else ''SETTINGS_ACK'') 0 None (frame_hdr @ payload) w2))"

definition h2_request_fields :: "string \<Rightarrow> byte list" where
  "h2_request_fields path =
     hpack_fields 512 [('':method'', ''GET''), ('':path'', path), ('':scheme'', ''http''), ('':authority'', ''demo.local'')]"

definition h2_path :: "nat \<Rightarrow> nat \<Rightarrow> string" where
  "h2_path stream_count i = (if stream_count = 1 then ''/index.html'' else snprintf_s 32 (''/stream-'' @ show_nat i))"

definition h2_send_request :: "h2_side \<Rightarrow> u32 \<Rightarrow> byte list \<Rightarrow> world \<Rightarrow> world" where
  "h2_send_request s stream_id block w =
     snd (send_h2_frame s H2_TYPE_HEADERS 0x04 stream_id block H2_PKT_HEADERS ''HEADERS'' (Some '':method=GET'') ''SEND_HEADERS''
       ''HEADERS'' w)"

definition h2_stream_number :: "nat \<Rightarrow> u32" where
  "h2_stream_number i = word_of_nat (i * 2 + 1)"

text \<open>The requests of all streams in advance.\<close>

definition h2_send_all :: "h2_side \<Rightarrow> nat \<Rightarrow> world \<Rightarrow> world" where
  "h2_send_all s stream_count w =
     fold (\<lambda>i. h2_send_request s (h2_stream_number i) (h2_request_fields (h2_path stream_count i))) [0..<stream_count] w"

text \<open>The header block of a single stream, with the overlong name in its scenario.\<close>

definition h2_single_block :: "string option \<Rightarrow> byte list" where
  "h2_single_block scenario =
     (let block = h2_request_fields (h2_path 1 0) in
      if scenario = Some ''hpack-overflow'' \<and> 2 + 200 < 512 - length block then block @ 0 # 200 # replicate 200 (of_char (CHR ''a''))
      else block)"

text \<open>What is left of an answer: the data. Its text ends at a NUL.\<close>

definition h2_client_data :: "h2_side \<Rightarrow> string \<Rightarrow> world \<Rightarrow> world" where
  "h2_client_data s out_path w =
     (case read_exact 9 w of
        (None, w1) \<Rightarrow> w1
      | (Some frame_hdr, w1) \<Rightarrow>
        let len = unat (get_u24 frame_hdr); rid = h2_stream_id frame_hdr in
        if frame_hdr ! 3 = h2_type H2_TYPE_DATA \<and> len < 256 then
          (case read_exact len w1 of
             (None, w2) \<Rightarrow> w2
           | (Some payload, w2) \<Rightarrow>
               snd (fwrite_all out_path
                 (bytes_of_string (''stream='' @ show_nat (unat rid) @ '' data='' @ c_string payload @ [CHR 0x0A]))
                 (log_frame_in s ''INFO'' ''RECV_DATA'' ''DATA'' ''server DATA received'' ''Server -> Client'' H2_PKT_DATA ''DATA''
                    rid None (frame_hdr @ payload) w2)))
        else w1)"

text \<open>The answer to a stream: \<open>Some\<close> reason ends the program.\<close>

definition h2_client_answer :: "h2_side \<Rightarrow> string \<Rightarrow> u32 \<Rightarrow> world \<Rightarrow> string option \<times> world" where
  "h2_client_answer s out_path stream_id w =
     (case read_exact 9 w of
        (None, w1) \<Rightarrow> (None, w1)
      | (Some frame_hdr, w1) \<Rightarrow>
        let len = unat (get_u24 frame_hdr); type = frame_hdr ! 3; rid = h2_stream_id frame_hdr in
        case (if len < H2_MAX_FRAME then read_exact len w1 else (None, w1)) of
          (None, w2) \<Rightarrow> (None, h2_client_data s out_path w2)
        | (Some payload, w2) \<Rightarrow>
          if type = h2_type H2_TYPE_HEADERS then
            let w3 = log_frame_in s ''INFO'' ''RECV_HEADERS'' ''HEADERS'' ''server HEADERS received'' ''Server -> Client'' H2_PKT_HEADERS
                   ''HEADERS'' rid (Some '':status=200'') (frame_hdr @ payload) w2 in
            if getenv w ''UDP_SECURE_SCENARIO'' = Some ''stream-cancellation'' then
              (Some ''stream cancelled'',
               snd (send_h2_frame s H2_TYPE_RST_STREAM 0 stream_id [0, 0, 0, 0x08] H2_PKT_RST_STREAM ''RST_STREAM'' None
                 ''SEND_RST_STREAM'' ''RST_STREAM'' w3))
            else (None, h2_client_data s out_path w3)
          else if type = h2_type H2_TYPE_RST_STREAM then
            (Some ''server RST_STREAM (hpack-overflow scenario)'',
             logger_write (h2_logger s) (Some ((demo_init_event ''WARN'' ''RST_STREAM_RECEIVED'' ''HPACK''
                  ''client observed server RST_STREAM (hpack overflow detected)'')
                \<lparr>le_peer := Some (h2_peer s), le_stream_id := int_of_u32 rid\<rparr>))
               (log_frame_in s ''WARN'' ''RECV_RST_STREAM'' ''RST_STREAM'' ''server RST_STREAM received'' ''Server -> Client''
                  H2_PKT_RST_STREAM ''RST_STREAM'' rid None (frame_hdr @ payload) w2))
          else (None, h2_client_data s out_path w2))"

fun h2_client_answers :: "h2_side \<Rightarrow> string \<Rightarrow> u32 list \<Rightarrow> world \<Rightarrow> string option \<times> world" where
  "h2_client_answers s out_path [] w = (None, w)"
| "h2_client_answers s out_path (sid # sids) w =
     (case h2_client_answer s out_path sid w of
        (Some why, w1) \<Rightarrow> (Some why, w1)
      | (None, w1) \<Rightarrow> h2_client_answers s out_path sids w1)"

definition h2_client_streams :: "h2_side \<Rightarrow> string \<Rightarrow> world \<Rightarrow> int \<times> world" where
  "h2_client_streams s out_path w =
     (let scenario = getenv w ''UDP_SECURE_SCENARIO'';
          stream_count = (if scenario = Some ''multiplex'' then 6 else 1);
          w1 = (if stream_count > 1 then h2_send_all s stream_count w
                else h2_send_request s (h2_stream_number 0) (h2_single_block scenario) w) in
      case h2_client_answers s out_path (map h2_stream_number [0..<stream_count]) w1 of
        (Some why, w2) \<Rightarrow> (1, demo_finish (h2_logger s) ''ABORT'' why w2)
      | (None, w2) \<Rightarrow> (0, demo_finish (h2_logger s) ''OK'' ''http2 flow completed'' w2))"

definition h2_client_session :: "(world \<Rightarrow> int \<times> world) \<Rightarrow> Logger \<Rightarrow> string \<Rightarrow> string \<Rightarrow> world \<Rightarrow> int \<times> world" where
  "h2_client_session undef lg peer out_path w =
     (let s = h2_client lg peer in
      case demo_write_all (bytes_of_string H2_PREFACE) w of (ok, w1) \<Rightarrow>
      if \<not> ok then (1, demo_finish lg ''ABORT'' ''preface send failed'' w1)
      else
        let w2 = logger_write lg (Some ((demo_init_event ''INFO'' ''SEND_PREFACE'' ''PREFACE'' ''h2 client preface sent'')
               \<lparr>le_peer := Some peer, le_packet_type := Some ''PREFACE'', le_packet_code := h2_pkt H2_PKT_PREFACE,
                le_payload_length := 24, le_bytes := 24\<rparr>)) w1;
            w3 = snd (send_h2_frame s H2_TYPE_SETTINGS 0x00 0 settings_payload H2_PKT_SETTINGS ''SETTINGS'' None ''SEND_SETTINGS''
               ''SETTINGS'' w2) in
        case h2_client_settings s [True, False] w3 of
          (Inl why, w4) \<Rightarrow> (1, demo_finish lg ''ABORT'' why w4)
        | (Inr fits, w4) \<Rightarrow>
          if \<not> fits then undef w4
          else h2_client_streams s out_path
                 (snd (send_h2_frame s H2_TYPE_SETTINGS 0x01 0 [] H2_PKT_SETTINGS ''SETTINGS'' (Some ''ack'') ''SEND_SETTINGS_ACK''
                    ''SETTINGS'' w4)))"

definition h2_client_main :: "(world \<Rightarrow> int \<times> world) \<Rightarrow> string list \<Rightarrow> world \<Rightarrow> int \<times> world" where
  "h2_client_main undef argv w =
     (case logger_open (Some ''client'') (Some ''logs/client.jsonl'') w of
        (rc, None) \<Rightarrow> (1, w)
      | (rc, Some lg) \<Rightarrow>
        if rc \<noteq> 0 then (1, w)
        else if length argv \<noteq> 4 \<and> length argv \<noteq> 7 then (1, demo_finish lg ''ABORT'' ''invalid arguments'' w)
        else (case parse_port (Some (argv ! 2)) of
            None \<Rightarrow> (1, demo_finish lg ''ABORT'' ''invalid port'' w)
          | Some port \<Rightarrow>
            (let out_path = (if length argv = 7 then argv ! 6 else argv ! 3);
                 peer_text = snprintf_s 64 (host_port (argv ! 1) port) in
             case fopen_wb out_path w of (opened, w1) \<Rightarrow>
             if \<not> opened then (1, demo_finish lg ''ABORT'' ''output open failed'' w1)
             else (case demo_connect_tcp (argv ! 1) port w1 of
                 (None, w2) \<Rightarrow> (1, demo_finish lg ''ABORT'' ''connect failed'' w2)
               | (Some addr, w2) \<Rightarrow>
                   h2_client_session undef lg peer_text out_path
                     (logger_write lg (Some ((demo_init_event ''INFO'' ''CLIENT_START'' ''INIT'' ''http2 client started'')
                        \<lparr>le_peer := Some peer_text, le_port := uint port\<rparr>)) w2)))))"

end
