(* ===== verification/Http2Facts.thy ===== *)
theory Http2Facts
  imports Http2 PrefixCodec Datagram
begin

text \<open>
  The HTTP/2 demo: its frames are self-delimiting, the walk over a header block finds
  exactly the overlong entries, and a whole run of the two programs in each scenario.
\<close>

section \<open>Frames\<close>

lemma put_u24_bits: "put_u24 v = [ucast (take_bit 8 (drop_bit 16 v)), ucast (take_bit 8 (drop_bit 8 v)), ucast (take_bit 8 v)]"
proof -
  have m: "(0xff :: u32) = mask 8" by (simp add: mask_eq_exp_minus_1)
  show ?thesis by (simp only: put_u24_def m take_bit_eq_mask)
qed

lemma get_put_u24:
  assumes "unat v < 2 ^ 24"
  shows "get_u24 (put_u24 v @ rest) = v"
proof (rule bit_word_eqI)
  fix n assume n: "n < LENGTH(32)"
  have "\<not> bit v n" if "24 \<le> n"
  proof
    assume "bit v n"
    then have "bit (unat v) n" by (simp add: bit_unsigned_iff n)
    moreover have "unat v < 2 ^ n" using assms that by (meson less_le_trans one_le_numeral power_increasing)
    ultimately show False by (simp add: bit_iff_odd)
  qed
  then show "bit (get_u24 (put_u24 v @ rest)) n = bit v n"
    by (cases "n < 8"; cases "n < 16"; cases "n < 24")
      (auto simp: get_u24_def put_u24_bits bit_simps)
qed

definition h2_head :: "byte \<Rightarrow> byte \<Rightarrow> u32 \<Rightarrow> nat \<Rightarrow> byte list" where
  "h2_head type flags sid n = put_u24 (word_of_nat n) @ type # flags # put_u32 sid"

lemma h2_wire_head: "h2_wire type flags sid payload = h2_head type flags sid (length payload) @ payload"
  by (simp add: h2_wire_def h2_head_def)

lemma h2_head_parts:
  "length (h2_head type flags sid n) = 9" "h2_head type flags sid n ! 3 = type" "h2_head type flags sid n ! 4 = flags"
  "n < 2 ^ 24 \<Longrightarrow> unat (get_u24 (h2_head type flags sid n)) = n"
  "unat sid < 2 ^ 31 \<Longrightarrow> h2_stream_id (h2_head type flags sid n) = sid"
proof -
  show "length (h2_head type flags sid n) = 9" "h2_head type flags sid n ! 3 = type" "h2_head type flags sid n ! 4 = flags"
    by (simp_all add: h2_head_def put_u24_def)
  show "unat (get_u24 (h2_head type flags sid n)) = n" if "n < 2 ^ 24"
  proof -
    have u: "unat (word_of_nat n :: u32) = n" using that by (simp add: unat_of_nat take_bit_nat_eq_self)
    then show ?thesis using that by (simp add: h2_head_def get_put_u24)
  qed
  show "h2_stream_id (h2_head type flags sid n) = sid" if "unat sid < 2 ^ 31"
  proof -
    have m: "(0x7fffffff :: u32) = mask 31" by (simp add: mask_eq_exp_minus_1)
    have "sid AND mask 31 = sid"
      unfolding take_bit_eq_mask [symmetric] word_unat_eq_iff using that by (simp add: unsigned_take_bit_eq take_bit_nat_eq_self)
    then show ?thesis using get_put_u32 [of LittleEndian LittleEndian sid "[]"] by (simp add: h2_stream_id_def h2_head_def put_u24_def m)
  qed
qed

text \<open>A reader of one frame from the front of a stream.\<close>

type_synonym h2_frame = "byte \<times> byte \<times> u32 \<times> byte list"

definition h2_bytes :: "h2_frame \<Rightarrow> byte list" where
  "h2_bytes f = (case f of (type, flags, sid, payload) \<Rightarrow> h2_wire type flags sid payload)"

lemma h2_bytes_tuple: "h2_bytes (type, flags, sid, payload) = h2_wire type flags sid payload"
  by (simp add: h2_bytes_def)

definition read_h2 :: "byte list \<Rightarrow> (h2_frame \<times> byte list) option" where
  "read_h2 s =
     (let n = unat (get_u24 s) in
      if length s < 9 + n then None else Some ((s ! 3, s ! 4, h2_stream_id s, take n (drop 9 s)), drop (9 + n) s))"

definition h2_ok :: "h2_frame \<Rightarrow> bool" where
  "h2_ok f \<longleftrightarrow> (case f of (type, flags, sid, payload) \<Rightarrow> unat sid < 2 ^ 31 \<and> length payload < 2 ^ 24)"

lemma h2_head_front:
  "get_u24 (h2_head type flags sid n @ r) = get_u24 (h2_head type flags sid n)"
  "h2_stream_id (h2_head type flags sid n @ r) = h2_stream_id (h2_head type flags sid n)"
  by (simp_all add: get_u24_def h2_stream_id_def h2_head_def put_u24_def get_u32_host put_u32_host)

interpretation h2_frames: prefix_codec h2_bytes read_h2 h2_ok
proof
  fix m rest assume "h2_ok m"
  moreover obtain type flags sid payload where "m = (type, flags, sid, payload)" by (cases m) auto
  ultimately show "read_h2 (h2_bytes m @ rest) = Some (m, rest)"
    by (simp add: read_h2_def h2_bytes_tuple h2_wire_head h2_ok_def h2_head_front h2_head_parts nth_append)
qed

section \<open>Header blocks\<close>

text \<open>The bytes of a field; a block of short fields is accepted, whatever comes behind it.\<close>

definition hpack_literal :: "string \<times> string \<Rightarrow> byte list" where
  "hpack_literal f = 0 # word_of_nat (length (fst f)) # bytes_of_string (fst f) @ word_of_nat (length (snd f)) # bytes_of_string (snd f)"

definition short_field :: "string \<times> string \<Rightarrow> bool" where
  "short_field f \<longleftrightarrow> length (fst f) \<le> 127 \<and> length (snd f) \<le> 127"

lemma unat_byte_small: "n < 256 \<Longrightarrow> unat (word_of_nat n :: byte) = n"
  by (simp add: unat_of_nat take_bit_nat_eq_self)

lemma hpack_overflow_literal: "short_field f \<Longrightarrow> hpack_overflow (hpack_literal f @ rest) = hpack_overflow rest"
  by (simp add: hpack_literal_def short_field_def hpack_overflow.simps(2) Let_def unat_byte_small)

lemma hpack_overflow_block:
  "list_all short_field fs \<Longrightarrow> hpack_overflow (concat (map hpack_literal fs) @ rest) = hpack_overflow rest"
  by (induction fs) (simp_all add: hpack_overflow_literal)

lemma hpack_fields_block:
  "list_all short_field fs \<Longrightarrow> length out + length (concat (map hpack_literal fs)) \<le> cap \<Longrightarrow>
   fold (\<lambda>(name, text) out. case hpack_encode_literal (cap - length out) name text of None \<Rightarrow> butlast out | Some d \<Rightarrow> out @ d) fs out =
     out @ concat (map hpack_literal fs)"
proof (induction fs arbitrary: out)
  case (Cons f fs)
  obtain name v where f: "f = (name, v)" by fastforce
  have "hpack_encode_literal (cap - length out) name v = Some (hpack_literal f)"
    using Cons.prems f by (simp add: hpack_encode_literal_def hpack_literal_def short_field_def)
  with Cons.IH [of "out @ hpack_literal f"] Cons.prems f show ?case by simp
qed simp

text \<open>
  A header block as the walk reads it. The first byte says what an entry is: an indexed
  field is that byte alone; a literal has a value behind its length, and before it, when the
  low bits are 0 or 15, a name behind its length.
\<close>

datatype hpack_entry =
    Indexed byte
  | New_name byte "byte list" "byte list"
  | Indexed_name byte "byte list"

definition new_name :: "byte \<Rightarrow> bool" where
  "new_name b \<longleftrightarrow> b AND 0x0f = 0 \<or> b AND 0x0f = 0x0f"

fun entry_bytes :: "hpack_entry \<Rightarrow> byte list" where
  "entry_bytes (Indexed b) = [b]"
| "entry_bytes (New_name b name v) = b # word_of_nat (length name) # name @ word_of_nat (length v) # v"
| "entry_bytes (Indexed_name b v) = b # word_of_nat (length v) # v"

text \<open>An entry whose lengths are in bounds.\<close>

fun short_entry :: "hpack_entry \<Rightarrow> bool" where
  "short_entry (Indexed b) \<longleftrightarrow> b AND 0x80 \<noteq> 0"
| "short_entry (New_name b name v) \<longleftrightarrow> b AND 0x80 = 0 \<and> new_name b \<and> length name \<le> 127 \<and> length v \<le> 127"
| "short_entry (Indexed_name b v) \<longleftrightarrow> b AND 0x80 = 0 \<and> \<not> new_name b \<and> length v \<le> 127"

text \<open>The front of an entry that announces too long a name, or too long a value behind its name.\<close>

definition overlong_front :: "byte list \<Rightarrow> bool" where
  "overlong_front d \<longleftrightarrow> (\<exists>b n rest. b AND 0x80 = 0 \<and> unat n > 127 \<and>
     (d = b # n # rest \<or> (\<exists>name. new_name b \<and> length name \<le> 127 \<and> d = b # word_of_nat (length name) # name @ n # rest)))"

lemma hpack_overflow_literal_step:
  assumes "b AND 0x80 = 0"
  shows "new_name b \<Longrightarrow> length name \<le> 127 \<Longrightarrow>
      hpack_overflow (b # word_of_nat (length name) # name @ v # rest) = (unat v > 127 \<or> hpack_overflow (drop (unat v) rest))"
    "\<not> new_name b \<Longrightarrow> hpack_overflow (b # v # rest) = (unat v > 127 \<or> hpack_overflow (drop (unat v) rest))"
    "new_name b \<Longrightarrow> unat v > 127 \<Longrightarrow> hpack_overflow (b # v # rest)"
  using assms by (simp_all add: hpack_overflow.simps(2) Let_def unat_byte_small new_name_def)

lemma hpack_overflow_entry: "short_entry e \<Longrightarrow> hpack_overflow (entry_bytes e @ rest) = hpack_overflow rest"
  by (cases e) (simp_all add: hpack_overflow_literal_step unat_byte_small, simp add: hpack_overflow.simps(2))

lemma hpack_overflow_entries:
  "list_all short_entry es \<Longrightarrow> hpack_overflow (concat (map entry_bytes es) @ rest) = hpack_overflow rest"
  by (induction es) (simp_all add: hpack_overflow_entry)

lemma overlong_front_found: "overlong_front d \<Longrightarrow> hpack_overflow d"
  by (auto simp: overlong_front_def hpack_overflow_literal_step) (meson hpack_overflow_literal_step)

definition walks_to_overlong :: "byte list \<Rightarrow> bool" where
  "walks_to_overlong d \<longleftrightarrow> (\<exists>es rest. list_all short_entry es \<and> d = concat (map entry_bytes es) @ rest \<and> overlong_front rest)"

lemma walks_here: "overlong_front d \<Longrightarrow> walks_to_overlong d"
  unfolding walks_to_overlong_def by (rule exI [of _ "[]"]) simp

lemma walks_on: "short_entry e \<Longrightarrow> walks_to_overlong d \<Longrightarrow> walks_to_overlong (entry_bytes e @ d)"
  unfolding walks_to_overlong_def
proof (elim exE conjE)
  fix es rest
  assume "short_entry e" "list_all short_entry es" "d = concat (map entry_bytes es) @ rest" "overlong_front rest"
  then show "\<exists>es rest. list_all short_entry es \<and> entry_bytes e @ d = concat (map entry_bytes es) @ rest \<and> overlong_front rest"
    by (intro exI [of _ "e # es"] exI [of _ rest]) simp
qed

lemma hpack_overflow_walks: "hpack_overflow d \<Longrightarrow> walks_to_overlong d"
proof (induction d rule: length_induct)
  case (1 d)
  then obtain b r where d: "d = b # r" by (cases d) auto
  have on_value: "walks_to_overlong (pre @ v # vs)"
    if "unat v > 127 \<Longrightarrow> overlong_front (pre @ v # vs)" "unat v > 127 \<or> hpack_overflow (drop (unat v) vs)"
      "length (drop (unat v) vs) < length d"
      "unat v \<le> 127 \<Longrightarrow> unat v \<le> length vs \<Longrightarrow> \<exists>e. short_entry e \<and> entry_bytes e = pre @ v # take (unat v) vs" for pre v vs
  proof -
    note given = that
    show ?thesis
    proof (cases "unat v > 127")
      case True
      then show ?thesis using that(1) walks_here by blast
    next
      case False
      then have ov: "hpack_overflow (drop (unat v) vs)" using that(2) by simp
      then have "unat v \<le> length vs" by (cases "unat v \<le> length vs") simp_all
      then obtain e where e: "short_entry e" "entry_bytes e = pre @ v # take (unat v) vs" using given(4) False by auto
      have "walks_to_overlong (drop (unat v) vs)" using 1(1) that(3) ov by blast
      from walks_on [OF e(1) this] show ?thesis unfolding e(2) by simp
    qed
  qed
  show ?case
  proof (cases "b AND 0x80 = 0")
    case False
    then have "hpack_overflow r" using 1(2) d by (simp add: hpack_overflow.simps(2))
    then have "walks_to_overlong r" using 1(1) d by simp
    from walks_on [OF _ this, of "Indexed b"] False d show ?thesis by simp
  next
    case lit: True
    show ?thesis
    proof (cases "new_name b")
      case False
      then obtain v vs where r: "r = v # vs"
        using 1(2) d lit by (cases r) (simp_all add: hpack_overflow.simps(2) Let_def new_name_def)
      have "walks_to_overlong ([b] @ v # vs)"
      proof (rule on_value)
        show "unat v > 127 \<Longrightarrow> overlong_front ([b] @ v # vs)" using lit by (auto simp: overlong_front_def)
        show "unat v > 127 \<or> hpack_overflow (drop (unat v) vs)"
          using 1(2) hpack_overflow_literal_step(2) [OF lit False] d r by simp
        show "length (drop (unat v) vs) < length d" using d r by simp
        show "\<exists>e. short_entry e \<and> entry_bytes e = [b] @ v # take (unat v) vs" if "unat v \<le> 127" "unat v \<le> length vs"
          using that lit False by (intro exI [of _ "Indexed_name b (take (unat v) vs)"]) simp
      qed
      then show ?thesis using d r by simp
    next
      case True
      then obtain n rest where r: "r = n # rest"
        using 1(2) d lit by (cases r) (simp_all add: hpack_overflow.simps(2) Let_def new_name_def)
      show ?thesis
      proof (cases "unat n > 127")
        case long: True
        then have "overlong_front d" using lit d r by (auto simp: overlong_front_def)
        then show ?thesis by (rule walks_here)
      next
        case short: False
        have ov: "hpack_overflow (b # n # rest)" using 1(2) d r by simp
        then obtain v vs where v: "drop (unat n) rest = v # vs"
          using lit True short
          by (cases "drop (unat n) rest") (simp_all add: hpack_overflow.simps(2) Let_def new_name_def)
        define name where "name = take (unat n) rest"
        have rest: "rest = name @ v # vs" "length name \<le> 127" "n = word_of_nat (length name)"
        proof -
          show "rest = name @ v # vs" unfolding name_def v [symmetric] by simp
          have "length name = unat n" using arg_cong [OF v, of length] by (simp add: name_def)
          with short show "length name \<le> 127" "n = word_of_nat (length name)" by simp_all
        qed
        have "walks_to_overlong ((b # n # name) @ v # vs)"
        proof (rule on_value)
          show "unat v > 127 \<Longrightarrow> overlong_front ((b # n # name) @ v # vs)"
            using lit True rest by (auto simp: overlong_front_def)
          show "unat v > 127 \<or> hpack_overflow (drop (unat v) vs)"
            using ov hpack_overflow_literal_step(1) [OF lit True rest(2), of v vs] rest by simp
          show "length (drop (unat v) vs) < length d" using d r rest(1) by simp
          show "\<exists>e. short_entry e \<and> entry_bytes e = (b # n # name) @ v # take (unat v) vs" if "unat v \<le> 127" "unat v \<le> length vs"
            using that lit True rest by (intro exI [of _ "New_name b name (take (unat v) vs)"]) simp
        qed
        then show ?thesis using d r rest(1) by simp
      qed
    qed
  qed
qed

lemma encoded_literal: "hpack_encode_literal cap name text = Some d \<Longrightarrow> short_field (name, text) \<and> d = hpack_literal (name, text)"
  by (auto simp: hpack_encode_literal_def short_field_def hpack_literal_def split: if_splits)

text \<open>
  C40. The walk over a header block, for every block: an overlong entry is reported exactly
  when, behind any number of complete entries with short names and values (indexed fields, literals
  with a new or with an indexed name), comes an entry announcing more than 127 bytes of name,
  or of value behind its name; a truncated entry is none. Whatever the program's own encoder
  writes, in front of any block, is passed over and changes nothing.
\<close>

theorem hpack_overflow_exact:
  "(hpack_overflow d \<longleftrightarrow> (\<exists>es rest. list_all short_entry es \<and> d = concat (map entry_bytes es) @ rest \<and> overlong_front rest)) \<and>
   (hpack_encode_literal cap name content = Some bytes \<longrightarrow> hpack_overflow (bytes @ d) = hpack_overflow d)"
  using hpack_overflow_walks [of d] overlong_front_found hpack_overflow_entries encoded_literal [of cap name content bytes]
    hpack_overflow_literal [of "(name, content)" d]
  unfolding walks_to_overlong_def by blast

text \<open>The client's overlong entry behind an encoded field.\<close>

lemma hpack_overflow_exact_witness:
  "\<exists>bytes. hpack_encode_literal 512 '':method'' ''GET'' = Some bytes \<and> hpack_overflow (bytes @ 0 # 200 # replicate 200 0x61)"
proof -
  obtain bytes where b: "hpack_encode_literal 512 '':method'' ''GET'' = Some bytes" by (simp add: hpack_encode_literal_def)
  have "overlong_front (0 # 200 # replicate 200 0x61)" unfolding overlong_front_def
    by (intro exI [of _ 0] exI [of _ 200] exI [of _ "replicate 200 0x61"]) simp
  then have "hpack_overflow (0 # 200 # replicate 200 0x61)"
    using hpack_overflow_exact [of "0 # 200 # replicate 200 0x61"] by (metis append_Nil concat.simps(1) list.map(1) list.pred_inject(1))
  with hpack_overflow_exact [of "0 # 200 # replicate 200 0x61" 512 "'':method''" "''GET''" bytes] b show ?thesis by blast
qed

section \<open>Steps over the stream\<close>

lemma log_h2_step: "exchange i out w w1 \<Longrightarrow> exchange i out w (log_h2 lg l e st m p dir c ty sid hs wire w1)"
  by (simp add: log_h2_def exchange_log)

lemma log_in_step: "exchange i out w w1 \<Longrightarrow> exchange i out w (log_frame_in s l e st m dir p ty sid hs wire w1)"
  by (simp add: log_frame_in_def log_h2_step)

lemma write_step:
  assumes "exchange i out w w1"
  shows "\<exists>w2. demo_write_all d w1 = (True, w2) \<and> exchange i (out @ d) w w2"
proof -
  obtain ok w2 where r: "demo_write_all d w1 = (ok, w2)" by fastforce
  have c: "calm w1" using exchange_calm [OF assms] by simp
  from demo_write_all_writes [OF r] c obtain d1 d2 where
    "d = d1 @ d2" "writes d1 w1 w2" "ok \<longrightarrow> d2 = []" "ok" "w_sendfault w2 = []" by (auto simp: calm_def)
  then have "ok" "exchange [] d w1 w2" using exchange_writes [OF c] by auto
  with r exchange_trans [OF assms] show ?thesis by fastforce
qed

lemma send_step:
  assumes "exchange i out w w1" "length payload \<le> 8000"
  shows "exchange i (out @ h2_wire (h2_type ty) flags sid payload) w (snd (send_h2_frame s ty flags sid payload p pt hs e st w1))"
proof -
  from write_step [OF assms(1)] obtain w2 where
    "demo_write_all (h2_wire (h2_type ty) flags sid payload) w1 = (True, w2)"
    "exchange i (out @ h2_wire (h2_type ty) flags sid payload) w w2" by blast
  with assms(2) show ?thesis by (simp add: send_h2_frame_def h2_sizes Let_def log_h2_step)
qed

lemma read_step:
  assumes "exchange i out w w1" "tcp_stream w1 = d @ rest"
  shows "\<exists>w2. read_exact (length d) w1 = (Some d, w2) \<and> exchange (i @ d) out w w2 \<and> tcp_stream w2 = rest"
proof -
  have c: "calm w1" using exchange_calm [OF assms(1)] by simp
  then obtain w2 where r: "reads w1 w2" "flowing w2"
    "demo_read_all (length d) w1 = (Some d, w2)" "tcp_stream w2 = rest"
    using demo_read_all_flowing [of w1 "length d"] assms(2) by (auto simp: calm_def)
  have "exchange d [] w1 w2" by (rule exchange_reads [OF c r(1,2)]) (simp add: assms(2) r(4))
  with r(3,4) exchange_trans [OF assms(1)] show ?thesis unfolding read_exact_def by fastforce
qed

lemma read_end:
  assumes "exchange i out w w1" "tcp_stream w1 = []" "n > 0"
  shows "\<exists>w2. read_exact n w1 = (None, w2) \<and> exchange i out w w2"
proof -
  have c: "calm w1" using exchange_calm [OF assms(1)] by simp
  then obtain w2 where r: "reads w1 w2" "flowing w2" "demo_read_all n w1 = (None, w2)"
    using demo_read_all_flowing [of w1 n] assms(2,3) by (auto simp: calm_def)
  have "tcp_stream w2 = []"
  proof -
    from r(3) assms(3) obtain d wa where t: "tcp_recv n w1 = (d, wa)" by fastforce
    then have "d = []" "tcp_stream wa = []" using tcp_recv_stream(2) [OF t] assms(2) by auto
    with r(3) t assms(3) show ?thesis by (simp add: demo_read_all.simps [of n])
  qed
  then have "exchange [] [] w1 w2" by (intro exchange_reads [OF c r(1,2)]) (simp add: assms(2))
  with r(3) exchange_trans [OF assms(1)] show ?thesis unfolding read_exact_def by fastforce
qed

text \<open>A whole frame.\<close>

lemma read_frame_step:
  assumes "exchange i out w w1" "tcp_stream w1 = h2_wire ty flags sid payload @ rest" "length payload \<le> 8000"
  shows "\<exists>w2 w3. read_exact 9 w1 = (Some (h2_head ty flags sid (length payload)), w2) \<and>
    unat (get_u24 (h2_head ty flags sid (length payload))) = length payload \<and>
    read_exact (length payload) w2 = (Some payload, w3) \<and>
    exchange (i @ h2_wire ty flags sid payload) out w w3 \<and> tcp_stream w3 = rest"
proof -
  let ?h = "h2_head ty flags sid (length payload)"
  have s1: "tcp_stream w1 = ?h @ payload @ rest" using assms(2) by (simp add: h2_wire_head)
  from read_step [OF assms(1) s1] obtain w2 where r1: "read_exact 9 w1 = (Some ?h, w2)" "exchange (i @ ?h) out w w2"
    "tcp_stream w2 = payload @ rest" by (auto simp: h2_head_parts)
  from read_step [OF r1(2,3)] obtain w3 where "read_exact (length payload) w2 = (Some payload, w3)"
    "exchange ((i @ ?h) @ payload) out w w3" "tcp_stream w3 = rest" by blast
  with r1(1) assms(3) show ?thesis by (auto simp: h2_head_parts h2_wire_head)
qed

section \<open>The server's run\<close>

definition is_multiplex :: "world \<Rightarrow> bool" where
  "is_multiplex w \<longleftrightarrow> getenv w ''UDP_SECURE_SCENARIO'' = Some ''multiplex''"

lemma exchange_env: "exchange i out w w1 \<Longrightarrow> getenv w1 v = getenv w v"
  by (simp add: exchange_def getenv_def)

lemma server_round:
  assumes "exchange i out w w1" "tcp_stream w1 = h2_wire ty flags sid payload @ rest" "length payload \<le> 8000"
  shows "\<exists>w3. exchange (i @ h2_wire ty flags sid payload) out w w3 \<and> tcp_stream w3 = rest \<and>
    h2_server_loop s st w1 =
      (case h2_server_frame s (h2_head ty flags sid (length payload)) payload st w3 of (ends, st1, w4) \<Rightarrow>
        if ends \<or> is_multiplex w \<and> hs_streams_seen st1 \<ge> 6 then (st1, w4) else h2_server_loop s st1 w4)"
proof -
  from read_frame_step [OF assms] obtain w2 w3 where r:
    "read_exact 9 w1 = (Some (h2_head ty flags sid (length payload)), w2)"
    "unat (get_u24 (h2_head ty flags sid (length payload))) = length payload"
    "read_exact (length payload) w2 = (Some payload, w3)" "exchange (i @ h2_wire ty flags sid payload) out w w3" "tcp_stream w3 = rest"
    by blast
  have "read_stop w1 = (False, w1)" using exchange_calm [OF assms(1)] by simp
  then have "h2_server_loop s st w1 =
      (case h2_server_frame s (h2_head ty flags sid (length payload)) payload st w3 of (ends, st1, w4) \<Rightarrow>
        if ends \<or> is_multiplex w \<and> hs_streams_seen st1 \<ge> 6 then (st1, w4) else h2_server_loop s st1 w4)"
    using assms(3) exchange_env [OF assms(1), of "''UDP_SECURE_SCENARIO''"]
    by (subst h2_server_loop.simps) (simp add: r(1-3) Let_def is_multiplex_def h2_sizes split: prod.split)
  with r(4,5) show ?thesis by blast
qed

lemma server_eof:
  assumes "exchange i out w w1" "tcp_stream w1 = []"
  shows "\<exists>w2. h2_server_loop s st w1 = (st, w2) \<and> exchange i out w w2"
proof -
  from read_end [OF assms, of 9] obtain w2 where "read_exact 9 w1 = (None, w2)" "exchange i out w w2" by auto
  moreover have "read_stop w1 = (False, w1)" using exchange_calm [OF assms(1)] by simp
  ultimately show ?thesis by (subst h2_server_loop.simps) simp
qed

text \<open>A request and its response.\<close>

definition request_frame :: "u32 \<Rightarrow> byte list \<Rightarrow> h2_frame" where
  "request_frame sid block = (1, 4, sid, block)"

definition response_frames :: "u32 \<Rightarrow> h2_frame list" where
  "response_frames sid =
     [(1, 5, sid, hpack_fields 256 [('':status'', ''200''), (''content-type'', ''text/plain'')]),
      (0, 1, sid, bytes_of_string (''hello http2'' @ [CHR 0x0A]))]"

lemma status_fields:
  "hpack_fields 256 [('':status'', ''200''), (''content-type'', ''text/plain'')] =
   concat (map hpack_literal [('':status'', ''200''), (''content-type'', ''text/plain'')])"
  unfolding hpack_fields_def
  by (subst hpack_fields_block) (simp_all add: short_field_def hpack_literal_def)

lemma response_step:
  assumes "exchange i out w w1"
  shows "exchange i (out @ concat (map h2_bytes (response_frames sid))) w (h2_response s sid w1)"
proof -
  have l: "length (hpack_fields 256 [('':status'', ''200''), (''content-type'', ''text/plain'')]) \<le> 8000"
    unfolding status_fields by (simp add: hpack_literal_def)
  have l2: "length (bytes_of_string (''hello http2'' @ [CHR 0x0A])) \<le> 8000" by simp
  have "exchange i ((out @ h2_wire (h2_type H2_TYPE_HEADERS) 5 sid (hpack_fields 256 [('':status'', ''200''), (''content-type'', ''text/plain'')])) @
      h2_wire (h2_type H2_TYPE_DATA) 1 sid (bytes_of_string (''hello http2'' @ [CHR 0x0A]))) w (h2_response s sid w1)"
    unfolding h2_response_def Let_def by (intro send_step assms l l2)
  then show ?thesis by (simp add: response_frames_def h2_bytes_tuple)
qed

text \<open>Requests one after the other.\<close>

definition serves :: "world \<Rightarrow> byte list \<Rightarrow> bool" where
  "serves w block \<longleftrightarrow> length block \<le> 8000 \<and>
     \<not> (getenv w ''UDP_SECURE_SCENARIO'' = Some ''hpack-overflow'' \<and> hpack_overflow block)"

lemma serve_requests:
  assumes "exchange i out w w1" "tcp_stream w1 = concat (map (\<lambda>(sid, b). h2_bytes (request_frame sid b)) rs) @ rest"
    and "list_all (\<lambda>(sid, b). unat sid < 2 ^ 31 \<and> serves w b) rs" "is_multiplex w \<longrightarrow> hs_streams_seen st + length rs \<le> 6"
  shows "\<exists>w2. exchange (i @ concat (map (\<lambda>(sid, b). h2_bytes (request_frame sid b)) rs))
      (out @ concat (map (\<lambda>(sid, b). concat (map h2_bytes (response_frames sid))) rs)) w w2 \<and> tcp_stream w2 = rest \<and>
    h2_server_loop s st w1 = (let st' = st\<lparr>hs_streams_seen := hs_streams_seen st + length rs\<rparr> in
      if is_multiplex w \<and> rs \<noteq> [] \<and> hs_streams_seen st' \<ge> 6 then (st', w2) else h2_server_loop s st' w2)"
  using assms
proof (induction rs arbitrary: i out w1 st)
  case Nil
  then show ?case by (intro exI [of _ w1]) simp
next
  case (Cons r rs)
  obtain sid b where r: "r = (sid, b)" by fastforce
  have ok: "unat sid < 2 ^ 31" "length b \<le> 8000" "serves w b" using Cons.prems(3) r by (auto simp: serves_def)
  have s1: "tcp_stream w1 = h2_wire 1 4 sid b @ concat (map (\<lambda>(sid, b). h2_bytes (request_frame sid b)) rs) @ rest"
    using Cons.prems(2) r by (simp add: request_frame_def h2_bytes_tuple)
  from server_round [OF Cons.prems(1) s1 ok(2), of s st] obtain w3 where w3:
    "exchange (i @ h2_wire 1 4 sid b) out w w3" "tcp_stream w3 = concat (map (\<lambda>(sid, b). h2_bytes (request_frame sid b)) rs) @ rest"
    "h2_server_loop s st w1 = (case h2_server_frame s (h2_head 1 4 sid (length b)) b st w3 of (ends, st1, w4) \<Rightarrow>
        if ends \<or> is_multiplex w \<and> hs_streams_seen st1 \<ge> 6 then (st1, w4) else h2_server_loop s st1 w4)" by blast
  let ?st = "st\<lparr>hs_streams_seen := hs_streams_seen st + 1\<rparr>"
  define w4 where "w4 = h2_response s sid (log_frame_in s ''INFO'' ''RECV_HEADERS'' ''HEADERS'' ''HEADERS frame received'' ''Client -> Server''
      H2_PKT_HEADERS ''HEADERS'' sid (Some '':method=GET :path=/'') (h2_head 1 4 sid (length b) @ b) w3)"
  have fr: "h2_server_frame s (h2_head 1 4 sid (length b)) b st w3 = (False, ?st, w4)"
    using ok(1,3) exchange_env [OF w3(1), of "''UDP_SECURE_SCENARIO''"]
    by (auto simp: h2_server_frame_def h2_server_headers_def Let_def h2_head_parts w4_def serves_def)
  have s4: "exchange (i @ h2_wire 1 4 sid b) (out @ concat (map h2_bytes (response_frames sid))) w w4"
    unfolding w4_def by (intro response_step log_in_step w3(1))
  have n4: "tcp_stream w4 = concat (map (\<lambda>(sid, b). h2_bytes (request_frame sid b)) rs) @ rest"
    using exchange_stream [OF s4] exchange_stream [OF w3(1)] w3(2) by simp
  from Cons.IH [OF s4 n4, of ?st] Cons.prems(3,4) obtain w5 where w5:
    "exchange ((i @ h2_wire 1 4 sid b) @ concat (map (\<lambda>(sid, b). h2_bytes (request_frame sid b)) rs))
      ((out @ concat (map h2_bytes (response_frames sid))) @ concat (map (\<lambda>(sid, b). concat (map h2_bytes (response_frames sid))) rs)) w w5"
    "tcp_stream w5 = rest"
    "h2_server_loop s ?st w4 = (let st' = ?st\<lparr>hs_streams_seen := hs_streams_seen ?st + length rs\<rparr> in
      if is_multiplex w \<and> rs \<noteq> [] \<and> hs_streams_seen st' \<ge> 6 then (st', w5) else h2_server_loop s st' w5)" by auto
  show ?case
  proof (cases "is_multiplex w \<and> hs_streams_seen st + 1 \<ge> 6")
    case True
    with Cons.prems(4) have "rs = []" by (cases rs) auto
    with True w3(3) fr s4 n4 r show ?thesis
      by (intro exI [of _ w4]) (simp add: request_frame_def h2_bytes_tuple)
  next
    case False
    have "h2_server_loop s st w1 = h2_server_loop s ?st w4" using False w3(3) fr by auto
    with w5 False r show ?thesis
      by (intro exI [of _ w5]) (cases rs, auto simp: request_frame_def h2_bytes_tuple Let_def)
  qed
qed

section \<open>What the programs send, by scenario\<close>

definition h2_requests :: "string option \<Rightarrow> (u32 \<times> byte list) list" where
  "h2_requests scenario =
     (if scenario = Some ''multiplex'' then map (\<lambda>i. (h2_stream_number i, h2_request_fields (h2_path 6 i))) [0..<6]
      else [(h2_stream_number 0, h2_single_block scenario)])"

definition settings_frames :: "h2_frame list" where
  "settings_frames = [(4, 0, 0, settings_payload), (4, 1, 0, [])]"

definition h2_client_bytes :: "string option \<Rightarrow> byte list" where
  "h2_client_bytes scenario =
     bytes_of_string H2_PREFACE @ concat (map h2_bytes settings_frames) @
     concat (map (\<lambda>(sid, b). h2_bytes (request_frame sid b)) (h2_requests scenario)) @
     (if scenario = Some ''stream-cancellation'' then h2_bytes (3, 0, h2_stream_number 0, [0, 0, 0, 8]) else [])"

definition h2_server_bytes :: "string option \<Rightarrow> byte list" where
  "h2_server_bytes scenario =
     concat (map h2_bytes settings_frames) @
     (if scenario = Some ''hpack-overflow'' then h2_bytes (3, 0, h2_stream_number 0, [0, 0, 0, 9])
      else concat (map (\<lambda>(sid, b). concat (map h2_bytes (response_frames sid))) (h2_requests scenario)))"

definition h2_verdict :: "string option \<Rightarrow> int" where
  "h2_verdict scenario = (if scenario \<in> {Some ''hpack-overflow'', Some ''stream-cancellation''} then 1 else 0)"

lemma request_fields_block:
  assumes "length path \<le> 31"
  shows "h2_request_fields path =
    concat (map hpack_literal [('':method'', ''GET''), ('':path'', path), ('':scheme'', ''http''), ('':authority'', ''demo.local'')])"
  unfolding h2_request_fields_def hpack_fields_def
  by (subst hpack_fields_block) (use assms in \<open>simp_all add: short_field_def hpack_literal_def\<close>)

lemma request_fields_short: "length path \<le> 31 \<Longrightarrow> list_all short_field [('':method'', ''GET''), ('':path'', path), ('':scheme'', ''http''), ('':authority'', ''demo.local'')]"
  by (simp add: short_field_def)

lemma request_fields_fine:
  assumes "length path \<le> 31"
  shows "length (h2_request_fields path) \<le> 100" "hpack_overflow (h2_request_fields path @ rest) = hpack_overflow rest"
proof -
  show "length (h2_request_fields path) \<le> 100"
    unfolding request_fields_block [OF assms] using assms by (simp add: hpack_literal_def)
  show "hpack_overflow (h2_request_fields path @ rest) = hpack_overflow rest"
    unfolding request_fields_block [OF assms] by (rule hpack_overflow_block [OF request_fields_short [OF assms]])
qed

lemma h2_path_short: "length (h2_path n i) \<le> 31"
  by (simp add: h2_path_def snprintf_s_def)

lemma single_block_fine:
  "length (h2_single_block scenario) \<le> 8000" "hpack_overflow (h2_single_block scenario) \<longleftrightarrow> scenario = Some ''hpack-overflow''"
proof -
  note f = request_fields_fine [OF h2_path_short [of 1 0]]
  show "length (h2_single_block scenario) \<le> 8000" using f(1) by (simp add: h2_single_block_def Let_def)
  have "hpack_overflow (h2_request_fields (h2_path 1 0)) = False" using f(2) [of "[]"] by simp
  moreover have "hpack_overflow (h2_request_fields (h2_path 1 0) @ 0 # 200 # replicate 200 (of_char (CHR ''a''))) = True"
    unfolding f(2) by (simp add: hpack_overflow.simps(2))
  ultimately show "hpack_overflow (h2_single_block scenario) \<longleftrightarrow> scenario = Some ''hpack-overflow''"
    using f(1) by (auto simp: h2_single_block_def Let_def)
qed

lemma unat_stream_number: "i < 100 \<Longrightarrow> unat (h2_stream_number i) = i * 2 + 1"
  unfolding h2_stream_number_def unat_of_nat by simp

lemma stream_number_small: "i < 100 \<Longrightarrow> unat (h2_stream_number i) < 2 ^ 31"
  by (simp add: unat_stream_number)

lemma requests_served:
  assumes "getenv w ''UDP_SECURE_SCENARIO'' = scenario" "scenario \<noteq> Some ''hpack-overflow''"
  shows "list_all (\<lambda>(sid, b). unat sid < 2 ^ 31 \<and> serves w b) (h2_requests scenario)"
proof -
  have "serves w (h2_request_fields (h2_path 6 i))" for i
    using request_fields_fine [OF h2_path_short [of 6 i]] assms by (auto simp: serves_def)
  moreover have "serves w (h2_single_block scenario)" using single_block_fine assms by (auto simp: serves_def)
  ultimately show ?thesis using stream_number_small by (auto simp: h2_requests_def list_all_iff simp del: One_nat_def)
qed

lemma settings_short: "length settings_payload = 36"
  by (simp add: settings_payload_def)

section \<open>The server's run\<close>

lemma server_loop_run:
  assumes ex: "exchange i out w w1" and scen: "getenv w ''UDP_SECURE_SCENARIO'' = scenario"
    and n: "tcp_stream w1 = concat (map (\<lambda>(sid, b). h2_bytes (request_frame sid b)) (h2_requests scenario)) @
      (if scenario = Some ''stream-cancellation'' then h2_bytes (3, 0, h2_stream_number 0, [0, 0, 0, 8]) else [])"
  shows "\<exists>st w2. h2_server_loop (h2_server lg) h2_start w1 = (st, w2) \<and> fst (h2_server_end lg st w2) = h2_verdict scenario \<and>
    w_tcp_out w2 = w_tcp_out w @ out @ drop (length (concat (map h2_bytes settings_frames))) (h2_server_bytes scenario)"
proof (cases "scenario = Some ''hpack-overflow''")
  case True
  let ?b = "h2_single_block scenario" and ?sid = "h2_stream_number 0"
  have s1: "tcp_stream w1 = h2_wire 1 4 ?sid ?b @ []" using n True by (simp add: h2_requests_def request_frame_def h2_bytes_tuple)
  from server_round [OF ex s1 single_block_fine(1), of "h2_server lg" h2_start] obtain w3 where w3:
    "exchange (i @ h2_wire 1 4 ?sid ?b) out w w3"
    "h2_server_loop (h2_server lg) h2_start w1 = (case h2_server_frame (h2_server lg) (h2_head 1 4 ?sid (length ?b)) ?b h2_start w3 of
       (ends, st1, w4) \<Rightarrow> if ends \<or> is_multiplex w \<and> hs_streams_seen st1 \<ge> 6 then (st1, w4) else h2_server_loop (h2_server lg) st1 w4)"
    by blast
  define w4 where "w4 = h2_reset (h2_server lg) ?sid (log_frame_in (h2_server lg) ''INFO'' ''RECV_HEADERS'' ''HEADERS'' ''HEADERS frame received''
      ''Client -> Server'' H2_PKT_HEADERS ''HEADERS'' ?sid (Some '':method=GET :path=/'') (h2_head 1 4 ?sid (length ?b) @ ?b) w3)"
  have "exchange (i @ h2_wire 1 4 ?sid ?b) (out @ h2_wire (h2_type H2_TYPE_RST_STREAM) 0 ?sid [0, 0, 0, 9]) w w4"
    unfolding w4_def h2_reset_def by (intro send_step exchange_log log_in_step w3(1)) simp
  moreover have "h2_server_frame (h2_server lg) (h2_head 1 4 ?sid (length ?b)) ?b h2_start w3 = (True, h2_start\<lparr>hs_hpack_error := True\<rparr>, w4)"
    using single_block_fine(2) [of scenario] True exchange_env [OF w3(1), of "''UDP_SECURE_SCENARIO''"] scen stream_number_small [of 0]
    by (simp add: h2_server_frame_def h2_server_headers_def Let_def h2_head_parts w4_def)
  ultimately show ?thesis using w3(2) True
    by (simp add: h2_server_end_def h2_verdict_def h2_server_bytes_def exchange_same(9) h2_bytes_tuple)
next
  case False
  let ?rest = "if scenario = Some ''stream-cancellation'' then h2_bytes (3, 0, h2_stream_number 0, [0, 0, 0, 8]) else []"
  let ?reqs = "concat (map (\<lambda>(sid, b). h2_bytes (request_frame sid b)) (h2_requests scenario))"
  let ?resp = "concat (map (\<lambda>(sid, b). concat (map h2_bytes (response_frames sid))) (h2_requests scenario))"
  have len: "length (h2_requests scenario) = (if is_multiplex w then 6 else 1)"
    using scen by (simp add: h2_requests_def is_multiplex_def)
  from serve_requests [OF ex n requests_served [OF scen False], of h2_start "h2_server lg"] len obtain w2 where w2:
    "exchange (i @ ?reqs) (out @ ?resp) w w2" "tcp_stream w2 = ?rest"
    "h2_server_loop (h2_server lg) h2_start w1 =
      (let st' = h2_start\<lparr>hs_streams_seen := hs_streams_seen h2_start + length (h2_requests scenario)\<rparr> in
      if is_multiplex w \<and> h2_requests scenario \<noteq> [] \<and> hs_streams_seen st' \<ge> 6 then (st', w2) else h2_server_loop (h2_server lg) st' w2)"
    by (auto simp: h2_start_def)
  let ?st = "h2_start\<lparr>hs_streams_seen := length (h2_requests scenario)\<rparr>"
  have bytes: "drop (length (concat (map h2_bytes settings_frames))) (h2_server_bytes scenario) = ?resp"
    using False by (simp add: h2_server_bytes_def)
  show ?thesis
  proof (cases "is_multiplex w")
    case True
    then have "h2_server_loop (h2_server lg) h2_start w1 = (?st, w2)" using w2(3) len by (cases "h2_requests scenario") (auto simp: h2_start_def)
    moreover have "scenario = Some ''multiplex''" using True scen by (simp add: is_multiplex_def)
    ultimately show ?thesis using bytes w2(1)
      by (simp add: h2_server_end_def h2_start_def h2_verdict_def exchange_same(9))
  next
    case single: False
    then have loop: "h2_server_loop (h2_server lg) h2_start w1 = h2_server_loop (h2_server lg) ?st w2" using w2(3) by (simp add: h2_start_def)
    show ?thesis
    proof (cases "scenario = Some ''stream-cancellation''")
      case True
      then have s2: "tcp_stream w2 = h2_wire 3 0 (h2_stream_number 0) [0, 0, 0, 8] @ []" using w2(2) by (simp add: h2_bytes_tuple)
      let ?h = "h2_head 3 0 (h2_stream_number 0) (length [0, 0, 0, 8 :: byte])"
      from server_round [OF w2(1) s2, of "h2_server lg" ?st] obtain w3 where w3:
        "exchange ((i @ ?reqs) @ h2_wire 3 0 (h2_stream_number 0) [0, 0, 0, 8]) (out @ ?resp) w w3" "tcp_stream w3 = []"
        "h2_server_loop (h2_server lg) ?st w2 = (case h2_server_frame (h2_server lg) ?h [0, 0, 0, 8] ?st w3 of
           (ends, st1, w4) \<Rightarrow> if ends \<or> is_multiplex w \<and> hs_streams_seen st1 \<ge> 6 then (st1, w4) else h2_server_loop (h2_server lg) st1 w4)"
        by auto
      obtain w4 where w4: "h2_server_frame (h2_server lg) ?h [0, 0, 0, 8] ?st w3 = (False, ?st\<lparr>hs_stream_cancelled := True\<rparr>, w4)"
        "exchange ((i @ ?reqs) @ h2_wire 3 0 (h2_stream_number 0) [0, 0, 0, 8]) (out @ ?resp) w w4"
        using log_in_step [OF w3(1)] by (simp add: h2_server_frame_def Let_def h2_head_parts)
      have "tcp_stream w4 = []" using exchange_stream [OF w4(2)] exchange_stream [OF w3(1)] w3(2) by simp
      from server_eof [OF w4(2) this, of "h2_server lg" "?st\<lparr>hs_stream_cancelled := True\<rparr>"] obtain w5 where
        "h2_server_loop (h2_server lg) (?st\<lparr>hs_stream_cancelled := True\<rparr>) w4 = (?st\<lparr>hs_stream_cancelled := True\<rparr>, w5)"
        "exchange ((i @ ?reqs) @ h2_wire 3 0 (h2_stream_number 0) [0, 0, 0, 8]) (out @ ?resp) w w5" by blast
      with loop w3(3) w4(1) single True bytes show ?thesis
        by (simp add: h2_server_end_def h2_start_def h2_verdict_def exchange_same(9))
    next
      case normal: False
      then have "tcp_stream w2 = []" using w2(2) by simp
      from server_eof [OF w2(1) this, of "h2_server lg" ?st] obtain w3 where
        "h2_server_loop (h2_server lg) ?st w2 = (?st, w3)" "exchange (i @ ?reqs) (out @ ?resp) w w3" by blast
      with loop normal False bytes show ?thesis
        by (simp add: h2_server_end_def h2_start_def h2_verdict_def exchange_same(9))
    qed
  qed
qed

lemma preface_length: "length (bytes_of_string H2_PREFACE) = 24"
  by (simp add: H2_PREFACE_def CRLF_def)

lemma h2_server_run:
  assumes calm: "calm w" and scen: "getenv w ''UDP_SECURE_SCENARIO'' = scenario" and n: "tcp_stream w = h2_client_bytes scenario"
  shows "\<exists>w1. h2_server_session undef lg w = (h2_verdict scenario, w1) \<and> w_tcp_out w1 = w_tcp_out w @ h2_server_bytes scenario"
proof -
  let ?pre = "bytes_of_string H2_PREFACE" and ?s = "h2_server lg"
  let ?tail = "concat (map (\<lambda>(sid, b). h2_bytes (request_frame sid b)) (h2_requests scenario)) @
      (if scenario = Some ''stream-cancellation'' then h2_bytes (3, 0, h2_stream_number 0, [0, 0, 0, 8]) else [])"
  have "tcp_stream w = ?pre @ h2_wire 4 0 0 settings_payload @ h2_wire 4 1 0 [] @ ?tail"
    by (simp add: n h2_client_bytes_def settings_frames_def h2_bytes_tuple)
  from read_step [OF exchange_refl [OF calm] this] obtain w1 where w1: "read_exact 24 w = (Some ?pre, w1)"
    "exchange ([] @ ?pre) [] w w1" "tcp_stream w1 = h2_wire 4 0 0 settings_payload @ h2_wire 4 1 0 [] @ ?tail"
    unfolding preface_length by blast
  define w2 where "w2 = logger_write lg (Some ((demo_init_event ''INFO'' ''RECV_PREFACE'' ''PREFACE'' ''h2 client preface received'')
                \<lparr>le_peer := Some ''client'', le_packet_type := Some ''PREFACE'', le_packet_code := h2_pkt H2_PKT_PREFACE,
                 le_payload_length := 24, le_bytes := 24\<rparr>)) w1"
  have w2: "exchange ([] @ ?pre) [] w w2" "tcp_stream w2 = h2_wire 4 0 0 settings_payload @ h2_wire 4 1 0 [] @ ?tail"
    unfolding w2_def using w1(2,3) by (simp_all add: exchange_log)
  let ?h = "h2_head 4 0 0 (length settings_payload)"
  from read_frame_step [OF w2] settings_short obtain w3 w4 where r: "read_exact 9 w2 = (Some ?h, w3)"
    "unat (get_u24 ?h) = length settings_payload" "read_exact (length settings_payload) w3 = (Some settings_payload, w4)"
    "exchange (([] @ ?pre) @ h2_wire 4 0 0 settings_payload) [] w w4" "tcp_stream w4 = h2_wire 4 1 0 [] @ ?tail" by auto
  define w5 where "w5 = snd (send_h2_frame ?s H2_TYPE_SETTINGS 0x01 0 [] H2_PKT_SETTINGS ''SETTINGS'' (Some ''ack'') ''SEND_SETTINGS_ACK''
      ''SETTINGS'' (snd (send_h2_frame ?s H2_TYPE_SETTINGS 0x00 0 settings_payload H2_PKT_SETTINGS ''SETTINGS'' None ''SEND_SETTINGS''
        ''SETTINGS'' (log_frame_in ?s ''INFO'' ''RECV_SETTINGS'' ''SETTINGS'' ''client SETTINGS received'' ''Client -> Server'' H2_PKT_SETTINGS
          ''SETTINGS'' 0 None (?h @ settings_payload) w4))))"
  have "exchange (([] @ ?pre) @ h2_wire 4 0 0 settings_payload)
      (([] @ h2_wire (h2_type H2_TYPE_SETTINGS) 0 0 settings_payload) @ h2_wire (h2_type H2_TYPE_SETTINGS) 1 0 []) w w5"
    unfolding w5_def by (intro send_step log_in_step r(4)) (simp_all add: settings_short)
  then have w5: "exchange (?pre @ h2_wire 4 0 0 settings_payload) (concat (map h2_bytes settings_frames)) w w5"
    by (simp add: settings_frames_def h2_bytes_tuple)
  have n5: "tcp_stream w5 = h2_wire 4 1 0 [] @ ?tail" using exchange_stream [OF w5] exchange_stream [OF r(4)] r(5) by simp
  from server_round [OF w5 n5, of ?s h2_start] obtain w6 where w6:
    "exchange ((?pre @ h2_wire 4 0 0 settings_payload) @ h2_wire 4 1 0 []) (concat (map h2_bytes settings_frames)) w w6" "tcp_stream w6 = ?tail"
    "h2_server_loop ?s h2_start w5 = (case h2_server_frame ?s (h2_head 4 1 0 0) [] h2_start w6 of (ends, st1, w4) \<Rightarrow>
        if ends \<or> is_multiplex w \<and> hs_streams_seen st1 \<ge> 6 then (st1, w4) else h2_server_loop ?s st1 w4)" by auto
  obtain w7 where w7: "h2_server_frame ?s (h2_head 4 1 0 0) [] h2_start w6 = (False, h2_start, w7)"
    "exchange ((?pre @ h2_wire 4 0 0 settings_payload) @ h2_wire 4 1 0 []) (concat (map h2_bytes settings_frames)) w w7"
    using log_in_step [OF w6(1)] by (simp add: h2_server_frame_def Let_def h2_head_parts)
  have n7: "tcp_stream w7 = ?tail" using exchange_stream [OF w7(2)] exchange_stream [OF w6(1)] w6(2) by simp
  from server_loop_run [OF w7(2) scen n7, of lg] obtain st w8 where
    w8: "h2_server_loop ?s h2_start w7 = (st, w8)" "fst (h2_server_end lg st w8) = h2_verdict scenario"
    "w_tcp_out w8 = w_tcp_out w @ concat (map h2_bytes settings_frames) @ drop (length (concat (map h2_bytes settings_frames))) (h2_server_bytes scenario)"
    by blast
  have loop: "h2_server_loop ?s h2_start w5 = (st, w8)" using w6(3) w7(1) w8(1) by (simp add: h2_start_def)
  have "h2_server_settings undef lg w2 = h2_server_end lg st w8"
    using loop
    by (simp add: h2_server_settings_def r(1-3) [unfolded settings_short] Let_def h2_head_parts
        w5_def [symmetric, unfolded settings_short])
  then have "h2_server_session undef lg w = h2_server_end lg st w8"
    unfolding h2_server_session_def w1(1) prod.case w2_def [symmetric] by simp
  moreover have "w_tcp_out (snd (h2_server_end lg st w8)) = w_tcp_out w8"
    by (simp add: h2_server_end_def demo_finish_same)
  moreover have "concat (map h2_bytes settings_frames) @ drop (length (concat (map h2_bytes settings_frames))) (h2_server_bytes scenario) = h2_server_bytes scenario"
    by (simp add: h2_server_bytes_def)
  ultimately show ?thesis using w8(2,3) by (metis prod.collapse)
qed

section \<open>The client's run\<close>

lemma request_step:
  assumes "exchange i out w w1" "length block \<le> 8000"
  shows "exchange i (out @ h2_bytes (request_frame sid block)) w (h2_send_request s sid block w1)"
proof -
  have "exchange i (out @ h2_wire (h2_type H2_TYPE_HEADERS) 4 sid block) w (h2_send_request s sid block w1)"
    unfolding h2_send_request_def by (rule send_step [OF assms])
  then show ?thesis by (simp add: request_frame_def h2_bytes_tuple)
qed

lemma send_all_step:
  assumes "exchange i out w w1"
  shows "exchange i (out @ concat (map (\<lambda>k. h2_bytes (request_frame (h2_stream_number k) (h2_request_fields (h2_path n k)))) ks)) w
    (fold (\<lambda>k. h2_send_request s (h2_stream_number k) (h2_request_fields (h2_path n k))) ks w1)"
  using assms
proof (induction ks arbitrary: out w1)
  case (Cons k ks)
  have "length (h2_request_fields (h2_path n k)) \<le> 8000" using request_fields_fine(1) [OF h2_path_short [of n k]] by simp
  from request_step [OF Cons.prems this] have
    "exchange i (out @ h2_bytes (request_frame (h2_stream_number k) (h2_request_fields (h2_path n k)))) w
      (h2_send_request s (h2_stream_number k) (h2_request_fields (h2_path n k)) w1)" .
  from Cons.IH [OF this] show ?case by simp
qed simp

lemma settings_received:
  assumes "exchange i out w w1" "tcp_stream w1 = concat (map h2_bytes settings_frames) @ rest"
  shows "\<exists>w2. h2_client_settings s [True, False] w1 = (Inr True, w2) \<and>
    exchange (i @ concat (map h2_bytes settings_frames)) out w w2 \<and> tcp_stream w2 = rest"
proof -
  have n: "tcp_stream w1 = h2_wire 4 0 0 settings_payload @ h2_wire 4 1 0 [] @ rest"
    using assms(2) by (simp add: settings_frames_def h2_bytes_tuple)
  from read_frame_step [OF assms(1) n] settings_short obtain w2 w3 where r:
    "read_exact 9 w1 = (Some (h2_head 4 0 0 (length settings_payload)), w2)"
    "read_exact (length settings_payload) w2 = (Some settings_payload, w3)"
    "exchange (i @ h2_wire 4 0 0 settings_payload) out w w3" "tcp_stream w3 = h2_wire 4 1 0 [] @ rest" by auto
  define w4 where "w4 = log_frame_in s ''INFO'' ''RECV_SETTINGS'' ''SETTINGS'' ''server frame received'' ''Server -> Client'' H2_PKT_SETTINGS
      ''SETTINGS'' 0 None (h2_head 4 0 0 36 @ settings_payload) w3"
  have w4: "exchange (i @ h2_wire 4 0 0 settings_payload) out w w4" unfolding w4_def by (rule log_in_step [OF r(3)])
  then have n4: "tcp_stream w4 = h2_wire 4 1 0 [] @ rest" using exchange_stream [OF w4] exchange_stream [OF r(3)] r(4) by simp
  from read_frame_step [OF w4 n4] obtain w5 w6 where q: "read_exact 9 w4 = (Some (h2_head 4 1 0 0), w5)"
    "read_exact 0 w5 = (Some [], w6)" "exchange ((i @ h2_wire 4 0 0 settings_payload) @ h2_wire 4 1 0 []) out w w6" "tcp_stream w6 = rest" by auto
  define w7 where "w7 = log_frame_in s ''INFO'' ''RECV_SETTINGS_ACK'' ''SETTINGS'' ''server frame received'' ''Server -> Client'' H2_PKT_SETTINGS
      ''SETTINGS_ACK'' 0 None (h2_head 4 1 0 0) w6"
  have w7: "exchange ((i @ h2_wire 4 0 0 settings_payload) @ h2_wire 4 1 0 []) out w w7" unfolding w7_def by (rule log_in_step [OF q(3)])
  have "h2_client_settings s [True, False] w1 = (Inr True, w7)"
    by (simp add: r(1,2) [unfolded settings_short] q(1,2) Let_def h2_head_parts w4_def [symmetric] w7_def [symmetric])
  moreover have "tcp_stream w7 = rest" using exchange_stream [OF w7] exchange_stream [OF q(3)] q(4) by simp
  ultimately show ?thesis using w7 by (simp add: settings_frames_def h2_bytes_tuple)
qed

text \<open>The answers: each stream adds a line to the file.\<close>

definition h2_line :: "nat \<Rightarrow> byte list" where
  "h2_line i = bytes_of_string (''stream='' @ show_nat (i * 2 + 1) @ '' data=hello http2'' @ [CHR 0x0A, CHR 0x0A])"

lemma exchange_refl_of: "exchange i out w w1 \<Longrightarrow> exchange [] [] w1 w1"
  using exchange_calm exchange_refl by blast

lemma answer_run:
  assumes c: "calm w" "w_writefault w = []" "getenv w ''UDP_SECURE_SCENARIO'' \<noteq> Some ''stream-cancellation''" and i: "i < 100"
    and n: "tcp_stream w = concat (map h2_bytes (response_frames (h2_stream_number i))) @ rest"
  shows "\<exists>w1. h2_client_answer s out (h2_stream_number i) w = (None, w1) \<and> calm w1 \<and> w_writefault w1 = [] \<and> tcp_stream w1 = rest \<and>
    w_tcp_out w1 = w_tcp_out w \<and> w_env w1 = w_env w \<and> file_data w1 out = file_data w out @ h2_line i"
proof -
  let ?sid = "h2_stream_number i" and ?hb = "hpack_fields 256 [('':status'', ''200''), (''content-type'', ''text/plain'')]"
  let ?body = "bytes_of_string (''hello http2'' @ [CHR 0x0A])"
  have l: "length ?hb \<le> 100" unfolding status_fields by (simp add: hpack_literal_def)
  have lb: "length ?body = 12" by simp
  have n1: "tcp_stream w = h2_wire 1 5 ?sid ?hb @ h2_wire 0 1 ?sid ?body @ rest"
    using n by (simp add: response_frames_def h2_bytes_tuple)
  from read_frame_step [OF exchange_refl [OF c(1)] n1] l obtain w1 w2 where r:
    "read_exact 9 w = (Some (h2_head 1 5 ?sid (length ?hb)), w1)" "unat (get_u24 (h2_head 1 5 ?sid (length ?hb))) = length ?hb"
    "read_exact (length ?hb) w1 = (Some ?hb, w2)" "exchange ([] @ h2_wire 1 5 ?sid ?hb) [] w w2" "tcp_stream w2 = h2_wire 0 1 ?sid ?body @ rest"
    by auto
  define w3 where "w3 = log_frame_in s ''INFO'' ''RECV_HEADERS'' ''HEADERS'' ''server HEADERS received'' ''Server -> Client'' H2_PKT_HEADERS
                   ''HEADERS'' ?sid (Some '':status=200'') (h2_head 1 5 ?sid (length ?hb) @ ?hb) w2"
  have s3: "exchange ([] @ h2_wire 1 5 ?sid ?hb) [] w w3" unfolding w3_def by (rule log_in_step [OF r(4)])
  have n3: "tcp_stream w3 = h2_wire 0 1 ?sid ?body @ rest" using exchange_stream [OF s3] exchange_stream [OF r(4)] r(5) by simp
  from read_frame_step [OF s3 n3] lb obtain w4 w5 where q:
    "read_exact 9 w3 = (Some (h2_head 0 1 ?sid (length ?body)), w4)" "unat (get_u24 (h2_head 0 1 ?sid (length ?body))) = length ?body"
    "read_exact (length ?body) w4 = (Some ?body, w5)" "exchange (([] @ h2_wire 1 5 ?sid ?hb) @ h2_wire 0 1 ?sid ?body) [] w w5" "tcp_stream w5 = rest"
    by auto
  define w6 where "w6 = log_frame_in s ''INFO'' ''RECV_DATA'' ''DATA'' ''server DATA received'' ''Server -> Client'' H2_PKT_DATA ''DATA''
                    ?sid None (h2_head 0 1 ?sid (length ?body) @ ?body) w5"
  have s6: "exchange (([] @ h2_wire 1 5 ?sid ?hb) @ h2_wire 0 1 ?sid ?body) [] w w6" unfolding w6_def by (rule log_in_step [OF q(4)])
  have n6: "tcp_stream w6 = rest" using exchange_stream [OF s6] exchange_stream [OF q(4)] q(5) by simp
  have sid: "unat ?sid < 2 ^ 31" "unat ?sid = i * 2 + 1" using i stream_number_small unat_stream_number by auto
  have "c_string ?body = ''hello http2'' @ [CHR 0x0A]" by (rule c_string_text) (simp add: nul_free_def)
  then have line: "bytes_of_string (''stream='' @ show_nat (unat ?sid) @ '' data='' @ c_string ?body @ [CHR 0x0A]) = h2_line i"
    by (simp add: sid(2) h2_line_def)
  define w7 where "w7 = snd (fwrite_all out (h2_line i) w6)"
  have data: "h2_client_data s out w3 = w7"
    unfolding h2_client_data_def q(1) option.case prod.case Let_def q(2) h2_head_parts(2) h2_head_parts(5) [OF sid(1)] q(3) line
      w6_def [symmetric] w7_def by (simp add: lb)
  have env: "getenv w ''UDP_SECURE_SCENARIO'' \<noteq> Some ''stream-cancellation''" by (rule c(3))
  have "h2_client_answer s out ?sid w = (None, w7)"
    unfolding h2_client_answer_def r(1) option.case prod.case Let_def r(2) h2_head_parts(2) h2_head_parts(5) [OF sid(1)]
    using l r(3) env data by (simp add: h2_sizes w3_def [symmetric])
  moreover have f: "w_writefault w6 = []" "file_data w6 out = file_data w out" "calm w6" "w_env w6 = w_env w"
    using exchange_same [OF s6] exchange_calm [OF s6] c(2) by (simp_all add: file_data_def)
  moreover have "calm w7" "w_writefault w7 = []" "tcp_stream w7 = rest" "w_tcp_out w7 = w_tcp_out w" "w_env w7 = w_env w"
    "file_data w7 out = file_data w out @ h2_line i"
    using f n6 exchange_same(9) [OF s6] fwrite_all_appends [OF f(1), of out "h2_line i"]
    by (auto simp: w7_def calm_def flowing_def tcp_stream_def fwrite_all_def Let_def)
  ultimately show ?thesis by blast
qed

lemma answers_run:
  assumes "calm w" "w_writefault w = []" "getenv w ''UDP_SECURE_SCENARIO'' \<noteq> Some ''stream-cancellation''" "\<forall>i \<in> set ks. i < 100"
    and "tcp_stream w = concat (map (\<lambda>i. concat (map h2_bytes (response_frames (h2_stream_number i)))) ks) @ rest"
  shows "\<exists>w1. h2_client_answers s out (map h2_stream_number ks) w = (None, w1) \<and> w_tcp_out w1 = w_tcp_out w \<and>
    file_data w1 out = file_data w out @ concat (map h2_line ks)"
  using assms
proof (induction ks arbitrary: w)
  case (Cons k ks)
  have n: "tcp_stream w = concat (map h2_bytes (response_frames (h2_stream_number k))) @
      concat (map (\<lambda>i. concat (map h2_bytes (response_frames (h2_stream_number i)))) ks) @ rest" using Cons.prems(5) by simp
  from answer_run [OF Cons.prems(1-3) _ n, of s out] Cons.prems(4) obtain w1 where w1:
    "h2_client_answer s out (h2_stream_number k) w = (None, w1)" "calm w1" "w_writefault w1 = []"
    "tcp_stream w1 = concat (map (\<lambda>i. concat (map h2_bytes (response_frames (h2_stream_number i)))) ks) @ rest"
    "w_tcp_out w1 = w_tcp_out w" "w_env w1 = w_env w" "file_data w1 out = file_data w out @ h2_line k" by auto
  have "getenv w1 ''UDP_SECURE_SCENARIO'' \<noteq> Some ''stream-cancellation''" using Cons.prems(3) w1(6) by (simp add: getenv_def)
  from Cons.IH [OF w1(2,3) this _ w1(4)] Cons.prems(4) w1 show ?case by auto
qed simp

text \<open>The three ways a run of the streams ends at the client.\<close>

lemma answer_frame:
  assumes "exchange i out w w1" "tcp_stream w1 = h2_wire ty flags sid payload @ rest" "length payload \<le> 8000" "unat sid < 2 ^ 31"
  shows "\<exists>w2. exchange (i @ h2_wire ty flags sid payload) out w w2 \<and> tcp_stream w2 = rest \<and>
    h2_client_answer s path sid w1 =
      (let full = h2_head ty flags sid (length payload) @ payload in
       if ty = h2_type H2_TYPE_HEADERS then
         let w3 = log_frame_in s ''INFO'' ''RECV_HEADERS'' ''HEADERS'' ''server HEADERS received'' ''Server -> Client'' H2_PKT_HEADERS
                   ''HEADERS'' sid (Some '':status=200'') full w2 in
         if getenv w ''UDP_SECURE_SCENARIO'' = Some ''stream-cancellation'' then
           (Some ''stream cancelled'', snd (send_h2_frame s H2_TYPE_RST_STREAM 0 sid [0, 0, 0, 0x08] H2_PKT_RST_STREAM ''RST_STREAM'' None
              ''SEND_RST_STREAM'' ''RST_STREAM'' w3))
         else (None, h2_client_data s path w3)
       else if ty = h2_type H2_TYPE_RST_STREAM then
         (Some ''server RST_STREAM (hpack-overflow scenario)'',
          logger_write (h2_logger s) (Some ((demo_init_event ''WARN'' ''RST_STREAM_RECEIVED'' ''HPACK''
                  ''client observed server RST_STREAM (hpack overflow detected)'')
                \<lparr>le_peer := Some (h2_peer s), le_stream_id := int_of_u32 sid\<rparr>))
            (log_frame_in s ''WARN'' ''RECV_RST_STREAM'' ''RST_STREAM'' ''server RST_STREAM received'' ''Server -> Client''
               H2_PKT_RST_STREAM ''RST_STREAM'' sid None full w2))
       else (None, h2_client_data s path w2))"
proof -
  from read_frame_step [OF assms(1-3)] obtain w2 w3 where r:
    "read_exact 9 w1 = (Some (h2_head ty flags sid (length payload)), w2)"
    "unat (get_u24 (h2_head ty flags sid (length payload))) = length payload"
    "read_exact (length payload) w2 = (Some payload, w3)" "exchange (i @ h2_wire ty flags sid payload) out w w3" "tcp_stream w3 = rest"
    by blast
  moreover have "getenv w1 ''UDP_SECURE_SCENARIO'' = getenv w ''UDP_SECURE_SCENARIO''" by (rule exchange_env [OF assms(1)])
  moreover have "length payload < H2_MAX_FRAME" using assms(3) by (simp add: h2_sizes)
  ultimately show ?thesis
    by (intro exI [of _ w3]) (simp add: h2_client_answer_def r(1) Let_def h2_head_parts(2) h2_head_parts(5) [OF assms(4)])
qed

definition h2_replies :: "string option \<Rightarrow> byte list" where
  "h2_replies scenario = drop (length (concat (map h2_bytes settings_frames))) (h2_server_bytes scenario)"

definition h2_cancel :: "string option \<Rightarrow> byte list" where
  "h2_cancel scenario = (if scenario = Some ''stream-cancellation'' then h2_bytes (3, 0, h2_stream_number 0, [0, 0, 0, 8]) else [])"

definition h2_lines :: "string option \<Rightarrow> byte list" where
  "h2_lines scenario = (if h2_verdict scenario = 0 then concat (map h2_line [0..<length (h2_requests scenario)]) else [])"

lemma requests_sent:
  assumes "exchange i out w w1"
  shows "exchange i (out @ concat (map (\<lambda>(sid, b). h2_bytes (request_frame sid b)) (h2_requests scenario))) w
    (if scenario = Some ''multiplex'' then h2_send_all s 6 w1 else h2_send_request s (h2_stream_number 0) (h2_single_block scenario) w1)"
proof (cases "scenario = Some ''multiplex''")
  case True
  with send_all_step [OF assms, of 6 "[0..<6]" s] show ?thesis by (simp add: h2_send_all_def h2_requests_def o_def)
next
  case False
  with request_step [OF assms single_block_fine(1)] show ?thesis by (simp add: h2_requests_def)
qed

lemma answer_reset:
  assumes "exchange i out w w1" "tcp_stream w1 = h2_wire 3 0 sid payload @ rest" "length payload \<le> 8000" "unat sid < 2 ^ 31"
  shows "\<exists>why i2 w2. h2_client_answer s path sid w1 = (Some why, w2) \<and> exchange i2 out w w2"
proof -
  have other: "(3 :: byte) \<noteq> 1" by simp
  from answer_frame [OF assms, of s path, unfolded Let_def h2_type.simps if_not_P [OF other] if_P [OF refl]]
  obtain w2 where w2: "exchange (i @ h2_wire 3 0 sid payload) out w w2"
    "h2_client_answer s path sid w1 =
         (Some ''server RST_STREAM (hpack-overflow scenario)'',
          logger_write (h2_logger s) (Some ((demo_init_event ''WARN'' ''RST_STREAM_RECEIVED'' ''HPACK''
                  ''client observed server RST_STREAM (hpack overflow detected)'')
                \<lparr>le_peer := Some (h2_peer s), le_stream_id := int_of_u32 sid\<rparr>))
            (log_frame_in s ''WARN'' ''RECV_RST_STREAM'' ''RST_STREAM'' ''server RST_STREAM received'' ''Server -> Client''
               H2_PKT_RST_STREAM ''RST_STREAM'' sid None (h2_head 3 0 sid (length payload) @ payload) w2))"
    by blast
  have "exchange (i @ h2_wire 3 0 sid payload) out w (snd (h2_client_answer s path sid w1))"
    unfolding w2(2) snd_conv by (intro exchange_log log_in_step w2(1))
  moreover have "fst (h2_client_answer s path sid w1) = Some ''server RST_STREAM (hpack-overflow scenario)''"
    unfolding w2(2) by simp
  ultimately show ?thesis by (metis prod.collapse)
qed

lemma answer_cancelled:
  assumes "exchange i out w w1" "tcp_stream w1 = h2_wire 1 5 sid payload @ rest" "length payload \<le> 8000" "unat sid < 2 ^ 31"
    and "getenv w ''UDP_SECURE_SCENARIO'' = Some ''stream-cancellation''"
  shows "\<exists>why i2 w2. h2_client_answer s path sid w1 = (Some why, w2) \<and> exchange i2 (out @ h2_wire 3 0 sid [0, 0, 0, 8]) w w2"
proof -
  from answer_frame [OF assms(1-4), of s path] obtain w2 where w2: "exchange (i @ h2_wire 1 5 sid payload) out w w2"
    "h2_client_answer s path sid w1 =
           (Some ''stream cancelled'', snd (send_h2_frame s H2_TYPE_RST_STREAM 0 sid [0, 0, 0, 0x08] H2_PKT_RST_STREAM ''RST_STREAM'' None
              ''SEND_RST_STREAM'' ''RST_STREAM'' (log_frame_in s ''INFO'' ''RECV_HEADERS'' ''HEADERS'' ''server HEADERS received''
                ''Server -> Client'' H2_PKT_HEADERS ''HEADERS'' sid (Some '':status=200'') (h2_head 1 5 sid (length payload) @ payload) w2)))"
    unfolding Let_def assms(5) by auto
  have "exchange (i @ h2_wire 1 5 sid payload) (out @ h2_wire (h2_type H2_TYPE_RST_STREAM) 0 sid [0, 0, 0, 8]) w
    (snd (send_h2_frame s H2_TYPE_RST_STREAM 0 sid [0, 0, 0, 0x08] H2_PKT_RST_STREAM ''RST_STREAM'' None
              ''SEND_RST_STREAM'' ''RST_STREAM'' (log_frame_in s ''INFO'' ''RECV_HEADERS'' ''HEADERS'' ''server HEADERS received''
                ''Server -> Client'' H2_PKT_HEADERS ''HEADERS'' sid (Some '':status=200'') (h2_head 1 5 sid (length payload) @ payload) w2)))"
    by (rule send_step [OF log_in_step [OF w2(1)]]) simp
  with w2(2) show ?thesis by auto
qed

lemma answers_by_scenario:
  assumes ex: "exchange i out w w1" and wf: "w_writefault w = []" and scen: "getenv w ''UDP_SECURE_SCENARIO'' = scenario"
    and n: "tcp_stream w1 = h2_replies scenario"
  shows "\<exists>why w2. h2_client_answers s path (map h2_stream_number [0..<length (h2_requests scenario)]) w1 = (why, w2) \<and>
    (why = None \<longleftrightarrow> h2_verdict scenario = 0) \<and> w_tcp_out w2 = w_tcp_out w @ out @ h2_cancel scenario \<and>
    file_data w2 path = file_data w path @ h2_lines scenario"
proof -
  have small: "unat (h2_stream_number 0) < 2 ^ 31" by (rule stream_number_small) simp
  have fd: "file_data w2 path = file_data w path" "w_tcp_out w2 = w_tcp_out w @ out'" if "exchange i' out' w w2" for i' out' w2
    using exchange_same [OF that] by (simp_all add: file_data_def)
  consider (overflow) "scenario = Some ''hpack-overflow''" | (cancel) "scenario = Some ''stream-cancellation''"
    | (fine) "h2_verdict scenario = 0" "scenario \<noteq> Some ''hpack-overflow''" "scenario \<noteq> Some ''stream-cancellation''"
    by (auto simp: h2_verdict_def)
  then show ?thesis
  proof cases
    case overflow
    then have "tcp_stream w1 = h2_wire 3 0 (h2_stream_number 0) [0, 0, 0, 9] @ []"
      using n by (simp add: h2_replies_def h2_server_bytes_def h2_bytes_tuple)
    from answer_reset [OF ex this _ small, of s path] obtain why i2 w2 where
      r: "h2_client_answer s path (h2_stream_number 0) w1 = (Some why, w2)" "exchange i2 out w w2" by auto
    show ?thesis using overflow r(1) fd [OF r(2)] by (simp add: h2_requests_def h2_verdict_def h2_cancel_def h2_lines_def)
  next
    case cancel
    let ?hb = "hpack_fields 256 [('':status'', ''200''), (''content-type'', ''text/plain'')]"
    have l: "length ?hb \<le> 8000" unfolding status_fields by (simp add: hpack_literal_def)
    obtain rest where "tcp_stream w1 = h2_wire 1 5 (h2_stream_number 0) ?hb @ rest"
      using n cancel by (simp add: h2_replies_def h2_server_bytes_def h2_requests_def response_frames_def h2_bytes_tuple)
    from answer_cancelled [OF ex this l small, of s path] cancel scen obtain why i2 w2 where
      r: "h2_client_answer s path (h2_stream_number 0) w1 = (Some why, w2)"
        "exchange i2 (out @ h2_wire 3 0 (h2_stream_number 0) [0, 0, 0, 8]) w w2" by auto
    show ?thesis using cancel r(1) fd [OF r(2)]
      by (simp add: h2_requests_def h2_verdict_def h2_cancel_def h2_lines_def h2_bytes_tuple)
  next
    case fine
    have hundred: "\<forall>k \<in> set [0..<length (h2_requests scenario)]. k < 100" by (auto simp: h2_requests_def)
    have "tcp_stream w1 = concat (map (\<lambda>k. concat (map h2_bytes (response_frames (h2_stream_number k)))) [0..<length (h2_requests scenario)]) @ []"
      using n fine by (cases "scenario = Some ''multiplex''") (simp_all add: h2_replies_def h2_server_bytes_def h2_requests_def o_def)
    from answers_run [OF _ _ _ hundred this, of s path] exchange_calm [OF ex] exchange_env [OF ex] exchange_same [OF ex] wf scen fine
    obtain w2 where "h2_client_answers s path (map h2_stream_number [0..<length (h2_requests scenario)]) w1 = (None, w2)"
      "w_tcp_out w2 = w_tcp_out w1" "file_data w2 path = file_data w1 path @ concat (map h2_line [0..<length (h2_requests scenario)])" by auto
    with fd [OF ex] fine show ?thesis by (simp add: h2_cancel_def h2_lines_def)
  qed
qed

lemma client_streams_run:
  assumes ex: "exchange i out w w1" and wf: "w_writefault w = []" and scen: "getenv w ''UDP_SECURE_SCENARIO'' = scenario"
    and n: "tcp_stream w1 = h2_replies scenario"
  shows "\<exists>w2. h2_client_streams s path w1 = (h2_verdict scenario, w2) \<and>
    w_tcp_out w2 = w_tcp_out w @ out @ concat (map (\<lambda>(sid, b). h2_bytes (request_frame sid b)) (h2_requests scenario)) @ h2_cancel scenario \<and>
    file_data w2 path = file_data w path @ h2_lines scenario"
proof -
  define w2 where "w2 = (if scenario = Some ''multiplex'' then h2_send_all s 6 w1
    else h2_send_request s (h2_stream_number 0) (h2_single_block scenario) w1)"
  note sent = requests_sent [OF ex, of scenario s, folded w2_def]
  have "tcp_stream w2 = h2_replies scenario" using exchange_stream [OF sent] exchange_stream [OF ex] n by simp
  from answers_by_scenario [OF sent wf scen this, of s path] obtain why w3 where w3:
    "h2_client_answers s path (map h2_stream_number [0..<length (h2_requests scenario)]) w2 = (why, w3)" "why = None \<longleftrightarrow> h2_verdict scenario = 0"
    "w_tcp_out w3 = w_tcp_out w @ (out @ concat (map (\<lambda>(sid, b). h2_bytes (request_frame sid b)) (h2_requests scenario))) @ h2_cancel scenario"
    "file_data w3 path = file_data w path @ h2_lines scenario" by blast
  have env: "getenv w1 ''UDP_SECURE_SCENARIO'' = scenario" using exchange_env [OF ex] scen by simp
  have count: "length (h2_requests scenario) = (if scenario = Some ''multiplex'' then 6 else 1)" by (simp add: h2_requests_def)
  have "h2_client_streams s path w1 = (case (why, w3) of
        (Some why, w2) \<Rightarrow> (1, demo_finish (h2_logger s) ''ABORT'' why w2)
      | (None, w2) \<Rightarrow> (0, demo_finish (h2_logger s) ''OK'' ''http2 flow completed'' w2))"
    unfolding h2_client_streams_def Let_def env w3(1) [symmetric] count by (simp add: w2_def)
  moreover have "h2_verdict scenario \<in> {0, 1}" by (simp add: h2_verdict_def)
  ultimately show ?thesis using w3(2-4) by (cases why) (auto simp: demo_finish_same file_data_def)
qed

lemma h2_client_run:
  assumes calm: "calm w" and wf: "w_writefault w = []" and scen: "getenv w ''UDP_SECURE_SCENARIO'' = scenario"
    and n: "tcp_stream w = h2_server_bytes scenario"
  shows "\<exists>w1. h2_client_session undef lg peer path w = (h2_verdict scenario, w1) \<and> w_tcp_out w1 = w_tcp_out w @ h2_client_bytes scenario \<and>
    file_data w1 path = file_data w path @ h2_lines scenario"
proof -
  let ?s = "h2_client lg peer" and ?pre = "bytes_of_string H2_PREFACE"
  from write_step [OF exchange_refl [OF calm], of ?pre] obtain w1 where w1: "demo_write_all ?pre w = (True, w1)" "exchange [] ?pre w w1" by auto
  define w3 where "w3 = snd (send_h2_frame ?s H2_TYPE_SETTINGS 0x00 0 settings_payload H2_PKT_SETTINGS ''SETTINGS'' None ''SEND_SETTINGS''
               ''SETTINGS'' (logger_write lg (Some ((demo_init_event ''INFO'' ''SEND_PREFACE'' ''PREFACE'' ''h2 client preface sent'')
               \<lparr>le_peer := Some peer, le_packet_type := Some ''PREFACE'', le_packet_code := h2_pkt H2_PKT_PREFACE,
                le_payload_length := 24, le_bytes := 24\<rparr>)) w1))"
  have s3: "exchange [] (?pre @ h2_wire (h2_type H2_TYPE_SETTINGS) 0 0 settings_payload) w w3"
    unfolding w3_def by (rule send_step [OF exchange_log [OF w1(2)]]) (simp add: settings_short)
  have "tcp_stream w3 = h2_server_bytes scenario" using exchange_stream [OF s3] n by simp
  then have "tcp_stream w3 = concat (map h2_bytes settings_frames) @ h2_replies scenario"
    by (simp add: h2_replies_def h2_server_bytes_def)
  from settings_received [OF s3 this, of ?s] obtain w4 where w4: "h2_client_settings ?s [True, False] w3 = (Inr True, w4)"
    "exchange (concat (map h2_bytes settings_frames)) (?pre @ h2_wire (h2_type H2_TYPE_SETTINGS) 0 0 settings_payload) w w4"
    "tcp_stream w4 = h2_replies scenario" by auto
  define w5 where "w5 = snd (send_h2_frame ?s H2_TYPE_SETTINGS 0x01 0 [] H2_PKT_SETTINGS ''SETTINGS'' (Some ''ack'') ''SEND_SETTINGS_ACK''
                    ''SETTINGS'' w4)"
  have s5: "exchange (concat (map h2_bytes settings_frames))
      ((?pre @ h2_wire (h2_type H2_TYPE_SETTINGS) 0 0 settings_payload) @ h2_wire (h2_type H2_TYPE_SETTINGS) 1 0 []) w w5"
    unfolding w5_def by (rule send_step [OF w4(2)]) simp
  have n5: "tcp_stream w5 = h2_replies scenario" using exchange_stream [OF s5] exchange_stream [OF w4(2)] w4(3) by simp
  have "h2_client_session undef lg peer path w = h2_client_streams ?s path w5"
    unfolding h2_client_session_def Let_def w1(1) prod.case w3_def [symmetric] w4(1) w5_def [symmetric] by simp
  with client_streams_run [OF s5 wf scen n5, of ?s path] show ?thesis
    by (auto simp: h2_client_bytes_def settings_frames_def h2_bytes_tuple h2_cancel_def)
qed

text \<open>
  C39. A run of the two HTTP/2 programs in one scenario over a connection that delivers every
  byte, in pieces of any size, when no call fails: both come to the same verdict and each writes
  exactly the bytes the other one is given. An overlong header name and a cancelled stream end with
  ABORT on both sides and an output file left as it was; any other scenario ends with OK and
  adds one line per stream to the file, six of them in order under multiplexing.
\<close>

theorem h2_run_agrees:
  assumes scenario: "getenv ws ''UDP_SECURE_SCENARIO'' = scenario" "getenv wc ''UDP_SECURE_SCENARIO'' = scenario"
    and arrive: "tcp_stream ws = h2_client_bytes scenario" "tcp_stream wc = h2_server_bytes scenario"
    and quiet: "calm ws" "calm wc" "w_writefault wc = []"
  shows "\<exists>ws' wc'. h2_server_session undef lgs ws = (h2_verdict scenario, ws') \<and>
    h2_client_session undef lgc peer path wc = (h2_verdict scenario, wc') \<and>
    w_tcp_out ws' = w_tcp_out ws @ tcp_stream wc \<and> w_tcp_out wc' = w_tcp_out wc @ tcp_stream ws \<and>
    file_data wc' path = file_data wc path @
      (if h2_verdict scenario = 0 then concat (map h2_line [0..<if scenario = Some ''multiplex'' then 6 else 1]) else [])"
  using h2_server_run [OF quiet(1) scenario(1) arrive(1), of undef lgs]
    h2_client_run [OF quiet(2,3) scenario(2) arrive(2), of undef lgc peer path] arrive
  by (auto simp: h2_lines_def h2_requests_def)

lemma h2_run_agrees_witness:
  "\<exists>wc'. h2_client_session (Pair 0) closed_logger ''peer'' ''out''
      (quiet_world\<lparr>w_tcp_in := [h2_server_bytes None]\<rparr>) = (0, wc') \<and>
    file_data wc' ''out'' = bytes_of_string (''stream=1 data=hello http2'' @ [CHR 0x0A, CHR 0x0A])"
proof -
  let ?ws = "quiet_world\<lparr>w_tcp_in := [h2_client_bytes None]\<rparr>" and ?wc = "quiet_world\<lparr>w_tcp_in := [h2_server_bytes None]\<rparr>"
  have "file_data ?wc ''out'' = []" by (simp add: file_data_def quiet_parts)
  moreover have "h2_line 0 = bytes_of_string (''stream=1 data=hello http2'' @ [CHR 0x0A, CHR 0x0A])"
    by (simp add: h2_line_def show_nat.simps digit_char_def char_of_def bit_simps)
  moreover have "calm ?ws" "calm ?wc" "tcp_stream ?ws = h2_client_bytes None" "tcp_stream ?wc = h2_server_bytes None"
    by (simp_all add: calm_def flowing_def tcp_stream_def quiet_parts h2_client_bytes_def h2_server_bytes_def H2_PREFACE_def
        settings_frames_def h2_bytes_tuple h2_wire_def put_u24_def)
  ultimately show ?thesis
    using h2_run_agrees [of ?ws None ?wc "Pair 0" closed_logger closed_logger "''peer''" "''out''"]
    by (auto simp: getenv_def quiet_parts h2_verdict_def)
qed

end
