(* ===== verification/Spec2Isabelle.thy ===== *)
theory Spec2Isabelle
  imports ConcreteRuns LogLines TcpClaims WebSocketRun DnsFacts MqttFacts OAuthFacts RadiusFacts QuicRun SipFacts Http2Facts
begin

text \<open>
  udp-secure-transfer: two programs that move a file over UDP with a password and a SHA-1
  digest, and demos of other protocols that share their log and their helpers. This library
  translates the C sources under \<open>src/src\<close> into executable definitions and proves what the
  programs promise.

  \<^bold>\<open>The parts and how they interact.\<close> \<open>protocol.c\<close> encodes the UDP packets, reads the settings
  from the environment and wraps the socket calls; \<open>sha1_util.c\<close> is the digest; \<open>logger.c\<close>
  writes one JSON line per event. \<open>server.c\<close> and \<open>client.c\<close> are built on these three. The
  stream demos (\<open>tcp_demo_*.c\<close>, plain and TLS-like, and \<open>websocket_demo_*.c\<close>,
  \<open>mqtt_demo_*.c\<close>, \<open>http_demo_*.c\<close>, \<open>oauth2_demo_*.c\<close>) use \<open>demo_util.c\<close>; so do the
  datagram demos (\<open>dns_demo_*.c\<close>), which call the socket functions directly.

  \<^bold>\<open>The model.\<close> A program is a function from the \<open>world\<close> (theory World) to its exit status
  and the world it leaves: scripts of what the system will answer (datagrams, stream segments,
  outcomes of sends, typed lines, clock readings, random bytes, when the signal handler has
  run), and what the program has done (datagrams and stream writes sent, files, printed
  lines). A script that has run out answers as a silent network does. Buffers are lists of
  \<open>8 word\<close> cut at the sizes of the C code; \<open>uint16_t\<close> and \<open>uint32_t\<close> are words and wrap;
  \<open>size_t\<close> is a natural number where its bounds exclude a wrap and is reduced modulo
  \<open>2 ^ 64\<close> where they do not; a failed call is \<open>None\<close>, \<open>False\<close> or the code's negative
  number. The theorems quantify over all worlds, so over every behaviour of network and
  operating system these scripts can express.

  \<^bold>\<open>Theories and sources.\<close>
    \<^item> Prelude: words, C strings, \<open>snprintf\<close> and \<open>strtol\<close>, lists; ByteOrder: the helpers
      \<open>write_u16\<close> to \<open>read_u32\<close> on either host order; World: the environment and \<open>LogEvent\<close>
      of \<open>logger.h\<close>.
    \<^item> Sha1 (\<open>sha1_util.c\<close>) and Sha1Standard: the context as a record, \<open>sha1_update\<close> by its
      block loop; streaming is feeding in pieces (locale \<open>incremental_hash\<close>, interpreted as
      \<open>sha1\<close>), and the digest is the SHA-1 of FIPS 180-4, which Sha1Standard writes out
      independently.
    \<^item> Protocol (\<open>protocol.c\<close>): \<open>build_packet\<close>, \<open>parse_packet\<close>, settings, \<open>send_packet\<close>,
      \<open>recv_packet\<close>; the messages they carry as a datatype, and the locale \<open>wire_codec\<close>
      interpreted as \<open>udp\<close>.
    \<^item> LogFile and LogLines (\<open>logger.c\<close>): a line is the rendering of a JSON object.
    \<^item> UdpServer, UdpServerMain (\<open>server.c\<close>) and UdpClient, UdpClientMain (\<open>client.c\<close>): every
      function of the two programs. UdpLink names what one does to the other;
      UdpServerFacts, UdpServerProgress, UdpClientFacts and UdpClientRun hold the lemmas;
      ConcreteRuns evaluates small runs; the properties of the pair are in this theory.
    \<^item> DemoUtil (\<open>demo_util.c\<close>), DemoStream (frames in a byte stream; PrefixCodec is the locale
      of self-delimiting encodings, interpreted as \<open>frames\<close> here and as \<open>remaining\<close> for
      MQTT), DemoFacts (HMAC, base64, the password prompt).
    \<^item> TcpConn, TcpServer, TcpClient (\<open>tcp_demo_*.c\<close>); Exchange: steps and scripts of a
      conversation; TcpLink, TcpTransfer, TcpTls: whole transfers; TcpSafety, TcpClaims: what
      holds whatever the peer does.
    \<^item> CText: C text in buffers (\<open>strstr\<close>, \<open>strtol\<close>, \<open>strcasecmp\<close>). WebSocket, HttpLines,
      WebSocketFacts, WebSocketRun (\<open>websocket_demo_*.c\<close>). HttpText, Http, HttpFacts
      (\<open>http_demo_*.c\<close>). OAuth, OAuthFacts (\<open>oauth2_demo_*.c\<close>).
    \<^item> Datagram: the socket calls of the datagram demos. Dns, DnsFacts (\<open>dns_demo_*.c\<close>). Mqtt,
      MqttFacts (\<open>mqtt_demo_*.c\<close>).

  Functions keep their C names; a \<open>main\<close> is split where its control flow divides
  (\<open>client_main\<close>, \<open>client_run\<close>, ...), and the manifest names the lines of each definition.

  \<^bold>\<open>What the lemmas show.\<close> For the UDP programs: the client commits a file only if its digest
  is the one announced by the server, over any network; without faults every file arrives;
  both sides agree on a password exactly when it is right; nothing of the file leaves without
  it; the sliding window is an invariant, the reliable transfer ends within the
  acknowledgements that arrive, and does not end for a silent client. For the codecs:
  round trips and exactness (the parser accepts the encodings and nothing else). For the
  demos: whole runs succeed on both sides however the stream is cut or whichever scenario is
  chosen, and without credentials the servers give nothing away.

  \<^bold>\<open>Fuel and bounds.\<close> Loops that end by themselves are functions with a measure. The loop of
  the reliable transfer may go on forever: \<open>reliable_loop\<close> has fuel, the theorem
  \<open>reliable_transfer_completes\<close> says how much is enough, and \<open>silent_client_never_ends\<close> that
  without acknowledgements none is. The padding loop of the hash has no bound in C; it is
  modelled with fuel 64 and \<open>sha1_padding_ends\<close> shows that it needs at most 63 rounds.

  \<^bold>\<open>Automation.\<close> \<open>PacketType\<close> and \<open>timespec\<close> are instances of \<open>linorder\<close>; \<open>world_simps\<close> and
  \<open>protocol_sizes\<close> are the simp collections the component proofs share.

  \<^bold>\<open>Not modelled.\<close> The process supervisor and web page \<open>control_server.c\<close>, and the SIP,
  RADIUS, HTTP/2 and QUIC-like demos, which are programs of their own.
  Of the modelled programs: the signal handler is the moment at which a read of
  \<open>stop_requested\<close> first sees it set; socket options, pauses and closing descriptors leave no
  trace in the state; prompts and texts on stderr are not kept; the address of
  \<open>getsockname\<close> and the text of \<open>strerror\<close> are taken from the environment.
\<close>

section \<open>Reliable transfer, end to end\<close>

lemma chunk_length: "d \<in> set (chunks PROTOCOL_DATA_CHUNK_SIZE xs) \<Longrightarrow> length d \<le> 1000"
  by (simp add: protocol_sizes chunks_bounds)

lemma concat_file_chunks [simp]: "concat (chunks PROTOCOL_DATA_CHUNK_SIZE xs) = xs"
  by (simp add: protocol_sizes)

text \<open>The numbered chunks of a file, as the client's invariant reads them.\<close>

lemma file_chunks_fit:
  "length (chunks PROTOCOL_DATA_CHUNK_SIZE xs) < 4294967296 \<Longrightarrow>
   chunks_fit (length (chunks PROTOCOL_DATA_CHUNK_SIZE xs)) (\<lambda>i. chunks PROTOCOL_DATA_CHUNK_SIZE xs ! i)"
  unfolding chunks_fit_def using chunk_length nth_mem by blast

lemma prefix_of_all: "prefix_of (\<lambda>i. ds ! i) (length ds) = concat ds"
  by (simp add: prefix_of_def map_nth)

lemma data_wire_of_file:
  assumes "length ds < 4294967296" "\<And>d. d \<in> set ds \<Longrightarrow> length d \<le> 1000" "msg_ok (Data i d)"
    and "encode (Data i d) \<in> set (map encode (data_messages 0 ds))"
  shows "unat i < length ds \<and> d = ds ! unat i"
proof -
  from assms(4) obtain k where k: "k < length ds" "encode (Data i d) = encode (data_messages 0 ds ! k)"
    by (auto simp: in_set_conv_nth simp del: opaque)
  then have e: "encode (Data i d) = encode (Data (word_of_nat k) (ds ! k))"
    by (simp add: nth_data_messages del: opaque)
  have "msg_ok (Data (word_of_nat k) (ds ! k))" using assms(2) k(1) by simp
  with e assms(3) have "i = word_of_nat k \<and> d = ds ! k" by (metis encode_eq_iff message.inject(2))
  moreover have "unat (word_of_nat k :: u32) = k" using assms(1) k(1) by (simp add: unat_small)
  ultimately show ?thesis using k(1) by simp
qed

text \<open>
  C1. A reliable transfer never delivers a wrong file. Server and client each run
  against their own receive script; between their two addresses the network may
  lose, delay, duplicate and reorder datagrams but hands over only what the other
  side sent (other addresses are unconstrained). Then the client reports success
  only when its output file is byte for byte the server's input file, whatever the
  digest function collides on, and otherwise it leaves the output path as it was.
  The server's run may end in any way.
\<close>

theorem reliable_transfer_faithful:
  assumes server: "server_transfer_file_reliable fuel lgs client ctext path (sha1_digest (f_data f)) ws
      = Some (rcs, ws')"
    and f: "w_fs ws path = Some f"
    and size: "length (chunks PROTOCOL_DATA_CHUNK_SIZE (f_data f)) < 4294967296"
    and recv: "client_reliable_loop lgc server stext output temp win
      \<lparr>cs_expected = 0, cs_buffered = [], cs_received = 0\<rparr> wc = (rcc, wc')"
    and temp: "w_fs wc temp = Some (new_file [])" "output \<noteq> temp"
    and down: "\<forall>d. (server, d) \<in> set (arrivals (w_net wc)) \<longrightarrow>
      (client, d) \<in> set (drop (length (w_sent ws)) (w_sent ws'))"
    and up: "\<forall>d. (client, d) \<in> set (arrivals (w_net ws)) \<longrightarrow>
      (server, d) \<in> set (drop (length (w_sent wc)) (w_sent wc'))"
  shows "w_fs wc' output = (if rcc = 0 then Some (new_file (f_data f)) else w_fs wc output)"
proof -
  let ?ds = "chunks PROTOCOL_DATA_CHUNK_SIZE (f_data f)"
  let ?N = "length ?ds" and ?D = "\<lambda>i. ?ds ! i"
  let ?W = "map encode (data_messages 0 ?ds)"
  note sent = transfer_reliable_emits [OF server length_sha1_digest f refl]
  have from_server: "d \<in> set ?W \<or> d = encode (Terminate (sha1_digest (f_data f))) \<and>
      all_acked (set (arrivals (w_net ws))) client ?N"
    if "(server, d) \<in> set (arrivals (w_net wc))" for d
    using emits_new [OF sent, of "(client, d)"] down that by simp
  have ok: "data_arrivals_ok server ?N ?D wc"
    unfolding data_arrivals_ok_def
  proof (intro allI impI, elim conjE)
    fix i d assume m: "msg_ok (Data i d)" and arr: "(server, encode (Data i d)) \<in> set (arrivals (w_net wc))"
    have "encode (Data i d) \<noteq> encode (Terminate (sha1_digest (f_data f)))"
      using encode_eq_iff [OF m, of "Terminate (sha1_digest (f_data f))"] by (simp del: opaque)
    with from_server [OF arr] have "encode (Data i d) \<in> set ?W" by blast
    from data_wire_of_file [OF size _ m this] show "unat i < ?N \<and> d = ?D (unat i)"
      using chunk_length by blast
  qed
  have inv: "cli_inv ?N ?D temp \<lparr>cs_expected = 0, cs_buffered = [], cs_received = 0\<rparr> wc"
    using temp(1) by (simp add: cli_inv_def prefix_of_def slots_ok_def)
  from client_reliable_loop_outcome [OF recv inv file_chunks_fit [OF size] ok temp(2)]
  obtain n where n: "n \<le> ?N" "reliable_result server output temp ?D n wc rcc wc'" by blast
  show ?thesis
  proof (cases "rcc = 0")
    case True
    with n have fs: "w_fs wc' = (w_fs wc)(output \<mapsto> new_file (prefix_of ?D n), temp := None)"
      and term_in: "(server, encode (Terminate (sha1_digest (prefix_of ?D n)))) \<in> set (arrivals (w_net wc))"
      and up_to: "emits (feedback_upto server n) wc wc'"
      by (auto simp: reliable_result_def)
    have "encode (Terminate (sha1_digest (prefix_of ?D n))) \<notin> set ?W"
    proof
      assume "encode (Terminate (sha1_digest (prefix_of ?D n))) \<in> set ?W"
      then obtain k where "k < ?N" "encode (Terminate (sha1_digest (prefix_of ?D n))) = encode (Data (word_of_nat k) (?ds ! k))"
        by (auto simp: in_set_conv_nth nth_data_messages simp del: opaque)
      moreover have "length (?ds ! k) \<le> 1000" using chunk_length nth_mem [OF calculation(1)] by blast
      ultimately show False using terminate_not_data [of "sha1_digest (prefix_of ?D n)"]
        by (simp del: opaque)
    qed
    with from_server [OF term_in] have "all_acked (set (arrivals (w_net ws))) client ?N" by blast
    then have "?N = 0 \<or> (\<exists>k win. (client, encode (Ack k win)) \<in> set (arrivals (w_net ws)) \<and> ?N \<le> unat k)"
      by (simp add: all_acked_def del: opaque)
    then have "?N \<le> n"
    proof
      assume "\<exists>k win. (client, encode (Ack k win)) \<in> set (arrivals (w_net ws)) \<and> ?N \<le> unat k"
      then obtain k win' where "(server, encode (Ack k win')) \<in> set (drop (length (w_sent wc)) (w_sent wc'))"
        and k: "?N \<le> unat k" using up by blast
      from feedback_upto_ack [OF emits_new [OF up_to this(1)]] k show ?thesis by simp
    qed simp
    with n(1) have "n = ?N" by simp
    then have "prefix_of ?D n = f_data f" by (simp add: prefix_of_all)
    with True fs temp(2) show ?thesis by simp
  next
    case False
    with n have "only_temp temp wc wc'" by (auto simp: reliable_result_def)
    then have "w_fs wc' output = w_fs wc output"
      using temp(2) unfolding only_temp_def by (metis fun_upd_other)
    with False show ?thesis by simp
  qed
qed

theorem reliable_transfer_faithful_witness:
  "\<exists>wc'. client_reliable_loop closed_logger (host 1) [] ''out'' ''out.part'' 4
      \<lparr>cs_expected = 0, cs_buffered = [], cs_received = 0\<rparr> client_world = (0, wc') \<and>
    w_fs wc' ''out'' = Some (new_file [1, 2, 3])"
proof -
  obtain ws' where s: "server_transfer_file_reliable 3 closed_logger (host 2) [] ''in'' (sha1_digest [1, 2, 3])
      server_world = Some (0, ws')"
    "w_sent ws' = (host 2, encode (Data 0 [1, 2, 3])) #
      replicate 3 (host 2, encode (Terminate (sha1_digest [1, 2, 3])))"
    using reliable_server_run by blast
  obtain wc' where c: "client_reliable_loop closed_logger (host 1) [] ''out'' ''out.part'' 4
      \<lparr>cs_expected = 0, cs_buffered = [], cs_received = 0\<rparr> client_world = (0, wc')"
    "w_sent wc' = [(host 1, encode (Ack 1 4)), (host 1, encode (Ack 1 4))]"
    using reliable_client_run by blast
  have data: "f_data (new_file [1, 2, 3]) = [1, 2, 3]" by (simp add: new_file_def)
  have s1: "server_transfer_file_reliable 3 closed_logger (host 2) [] ''in'' (sha1_digest (f_data (new_file [1, 2, 3])))
      server_world = Some (0, ws')" using s(1) data by simp
  have "w_fs wc' ''out'' = (if (0::int) = 0 then Some (new_file (f_data (new_file [1, 2, 3])))
      else w_fs client_world ''out'')"
    by (rule reliable_transfer_faithful [OF s1 server_world_parts(1) _ c(1)
          client_world_parts(1)])
      (simp_all add: data chunks123 protocol_sizes server_world_parts client_world_parts s(2) c(2)
        del: encode.simps)
  with c(1) data show ?thesis by simp
qed

section \<open>Plain transfer, end to end\<close>

text \<open>
  C2. When no system call fails and no signal arrives, a plain transfer whose
  datagrams reach the client in order succeeds on both sides, the client's output
  is the server's input file (of any length, the packet numbers wrapping together),
  the partial file is gone and the client prints OK.
\<close>

theorem plain_transfer_complete:
  assumes f: "w_fs ws path = Some f" "\<not> f_bad f" and calm: "server_calm ws" "client_calm wc"
    and temp: "w_fs wc temp = Some (new_file [])" "output \<noteq> temp"
    and server: "server_transfer_file lgs client ctext path (sha1_digest (f_data f)) ws = (rcs, ws')"
    and net: "w_net wc = map (\<lambda>x. SelReady (RecvData server (snd x))) (drop (length (w_sent ws)) (w_sent ws'))"
    and recv: "client_plain_loop lgc server stext output temp 0 0 wc = (rcc, wc')"
  shows "rcs = 0 \<and> rcc = 0 \<and> w_fs wc' = (w_fs wc)(output \<mapsto> new_file (f_data f), temp := None) \<and>
    w_stdout wc' = w_stdout wc @ [''OK'' @ [CHR 0x0A]]"
proof -
  let ?ds = "chunks PROTOCOL_DATA_CHUNK_SIZE (f_data f)"
  have rcs: "rcs = 0"
    using server_transfer_file_ok [where digest = "sha1_digest (f_data f)" and lg = lgs and peer = client
        and pt = ctext, OF f length_sha1_digest] calm(1) server
    by (auto simp: server_calm_def)
  from server_transfer_file_sent [OF server [unfolded rcs] length_sha1_digest] f(1)
  have "w_net wc = map (deliver server) (data_messages 0 ?ds @ [Terminate (sha1_digest (f_data f))]) @ []"
    using net by (auto simp: deliver_def transfer_messages_def simp del: opaque)
  with client_plain_loop_complete [OF calm(2) temp(2,1), where ds = ?ds and a = server and rest = "[]"
      and lg = lgc and pt = stext and ex = 0 and rcv = 0] chunk_length
  obtain w1 where "client_plain_loop lgc server stext output temp 0 0 wc = (0, w1)"
    "committed output temp (f_data f) wc w1"
    by auto
  with recv rcs show ?thesis by (simp add: committed_def ok_line_def)
qed

theorem plain_transfer_complete_witness:
  "\<exists>ws' rcc wc'. server_transfer_file closed_logger (host 2) [] ''in'' (sha1_digest [1, 2, 3]) server_world = (0, ws') \<and>
     client_plain_loop closed_logger (host 1) [] ''out'' ''out.part'' 0 0
       (client_world\<lparr>w_net := map (\<lambda>x. SelReady (RecvData (host 1) (snd x))) (w_sent ws')\<rparr>) = (rcc, wc') \<and>
     w_fs wc' ''out'' = Some (new_file [1, 2, 3])"
proof -
  obtain rcs ws' where s: "server_transfer_file closed_logger (host 2) [] ''in''
      (sha1_digest (f_data (new_file [1, 2, 3]))) server_world = (rcs, ws')" by fastforce
  let ?wc = "client_world\<lparr>w_net := map (\<lambda>x. SelReady (RecvData (host 1) (snd x))) (w_sent ws')\<rparr>"
  obtain rcc wc' where c: "client_plain_loop closed_logger (host 1) [] ''out'' ''out.part'' 0 0 ?wc = (rcc, wc')"
    by fastforce
  have "rcs = 0 \<and> rcc = 0 \<and> w_fs wc' = (w_fs ?wc)(''out'' \<mapsto> new_file (f_data (new_file [1, 2, 3])), ''out.part'' := None) \<and>
    w_stdout wc' = w_stdout ?wc @ [''OK'' @ [CHR 0x0A]]"
    by (rule plain_transfer_complete [OF server_world_parts(1) _ server_world_parts(2) _ _ _ s _ c])
      (simp_all add: client_calm_def client_world_def quiet_parts new_file_def server_world_parts)
  with s c show ?thesis by (simp add: new_file_def)
qed

section \<open>Verdicts\<close>

text \<open>
  C4. The client's whole run: exit status 0 goes with the one printed line OK and an
  output file whose SHA-1 digest a TERMINATE datagram of the network announced, the
  partial file being gone; exit status 1 goes with the one line ABORT and no change
  of any file but the removal of the partial one. There is no other outcome,
  whatever arrives and whichever system call fails.
\<close>

theorem client_main_verdict:
  assumes "client_main argv w = (status, w1)"
  shows "(status = 0 \<and> w_stdout w1 = w_stdout w @ [''OK'' @ [CHR 0x0A]] \<and>
       (\<exists>server contents. w_fs w1 = (w_fs w)(last argv \<mapsto> new_file contents, last argv @ ''.part'' := None) \<and>
          (server, encode (Terminate (sha1_digest contents))) \<in> set (arrivals (w_net w)))) \<or>
    (status = 1 \<and> w_stdout w1 = w_stdout w @ [''ABORT'' @ [CHR 0x0A]] \<and>
       (w_fs w1 = w_fs w \<or> w_fs w1 = (w_fs w)(last argv @ ''.part'' := None)))"
  using client_main_run_verdict [OF assms] by (simp only: run_verdict_def ok_line_def abort_line_def)

theorem client_main_verdict_witness:
  "\<exists>w1. client_main [''client''] quiet_world = (1, w1) \<and> w_stdout w1 = [''ABORT'' @ [CHR 0x0A]]"
proof -
  obtain status w1 where run: "client_main [''client''] quiet_world = (status, w1)" by fastforce
  moreover have "status = 1"
    using run by (auto simp: client_main_def logger_open_def quiet_world_def Let_def split: if_splits)
  ultimately show ?thesis using client_main_verdict [OF run] by (simp add: quiet_parts)
qed

text \<open>
  C5. The server's file never leaves before the password has come in: whatever else
  arrives, every datagram the server's run sends to an address that has not sent a
  PASS_RESP with exactly the password is a PASS_REQ or a REJECT.
\<close>

theorem server_sends_nothing_without_password:
  assumes run: "server_main fuel argv w = Some (status, w1)"
    and sent: "(peer, d) \<in> set (drop (length (w_sent w)) (w_sent w1))"
    and unseen: "(peer, encode (PassResp (bytes_of_string (argv ! 2)))) \<notin> set (arrivals (w_net w))"
  shows "d = encode PassReq \<or> d = encode Reject"
  using server_main_end [OF run]
proof
  assume "status = 1 \<and> w1 = print_line ''ABORT'' w"
  with sent show ?thesis by (simp add: print_line_def)
next
  assume "\<exists>lg. session_end lg (guarded (argv ! 2) w) w status w1"
  then obtain lg res reason w2 where "emits (guarded (argv ! 2) w) w w2" "w1 = server_finish lg res reason w2"
    unfolding session_end_def by blast
  then have "guarded (argv ! 2) w (peer, d)"
    using sent emits_new [of "guarded (argv ! 2) w" w w2 "(peer, d)"]
    by (simp add: server_finish_def print_line_def Let_def world_simps)
  with unseen show ?thesis by (simp add: guarded_def del: opaque)
qed

theorem server_sends_nothing_without_password_witness:
  "\<exists>w1. server_main 0 [''server'', ''1234'', ''pw'', ''in''] join_world = Some (1, w1) \<and>
    (host 2, encode PassReq) \<in> set (w_sent w1) \<and>
    (\<forall>d. (host 2, d) \<in> set (w_sent w1) \<longrightarrow> d = encode PassReq \<or> d = encode Reject)"
proof -
  obtain w1 where run: "server_main 0 [''server'', ''1234'', ''pw'', ''in''] join_world = Some (1, w1)"
    and w1: "w_sent w1 = [(host 2, encode PassReq)]"
    using server_join_run by blast
  have "encode (PassResp (bytes_of_string ''pw'')) \<noteq> encode Join"
    using encode_eq_iff [of Join "PassResp (bytes_of_string ''pw'')"] by (auto simp del: opaque)
  with server_sends_nothing_without_password [OF run, of "host 2"] run w1 show ?thesis
    by (simp add: join_world_parts del: encode.simps)
qed

text \<open>
  C13. The server's run prints exactly one verdict line, OK with exit status 0 and
  ABORT with exit status 1.
\<close>

theorem server_main_prints_verdict:
  assumes "server_main fuel argv w = Some (status, w1)"
  shows "(status = 0 \<and> w_stdout w1 = w_stdout w @ [''OK'' @ [CHR 0x0A]]) \<or>
    (status = 1 \<and> w_stdout w1 = w_stdout w @ [''ABORT'' @ [CHR 0x0A]])"
  using server_main_end [OF assms]
  by (auto simp: session_end_def server_finish_def print_line_def Let_def world_simps dest: emits_stdout)

theorem server_main_prints_verdict_witness:
  "\<exists>w1. server_main 0 [''server'', ''1234'', ''pw'', ''in''] join_world = Some (1, w1) \<and>
    w_stdout w1 = [''ABORT'' @ [CHR 0x0A]]"
proof -
  obtain w1 where run: "server_main 0 [''server'', ''1234'', ''pw'', ''in''] join_world = Some (1, w1)"
    using server_join_run by blast
  with server_main_prints_verdict [OF run] show ?thesis by (simp add: join_world_parts)
qed

section \<open>The password handshake, end to end\<close>

declare server_auth_loop.simps [simp del] client_auth_loop.simps [simp del]

text \<open>
  C3. With three passwords and a network that delivers each side's datagrams to the
  other in order, the two state machines fit: what the server sends is what the
  client's run reads and the other way round, the server accepts exactly when one of
  the three passwords is its own, and the client goes on to the transfer exactly then;
  otherwise both abort after the third attempt.
\<close>

theorem authentication_agrees:
  fixes pws pw defines "xs \<equiv> map bytes_of_string pws"
  assumes calm: "server_calm ws" "client_calm wc"
    and pws: "length pws = 3" "\<forall>q \<in> set pws. length q \<le> 255"
    and down: "w_net wc = map (deliver server) (PassReq # auth_replies 3 (bytes_of_string pw) xs)"
    and up: "w_net ws = map (\<lambda>x. deliver client (PassResp x)) (tried 3 (bytes_of_string pw) xs)"
  shows "\<exists>ws' wc'.
    w_sent ws' = w_sent ws @ map (\<lambda>m. (client, encode m)) (auth_replies 3 (bytes_of_string pw) xs) \<and>
    w_sent wc' = w_sent wc @ map (\<lambda>x. (server, encode (PassResp x))) (tried 3 (bytes_of_string pw) xs) \<and>
    server_auth_loop lgs client ctext pw 1 ws =
      (if pw \<in> set pws then (Inr True, ws')
       else (Inl 1, server_finish lgs ''ABORT'' ''three password attempts failed'' ws')) \<and>
    client_auth_loop lgc server stext False pws temp 0 wc =
      (if pw \<in> set pws then (None, wc')
       else (Some 1, client_abort lgc temp ''server rejected authentication'' wc'))"
proof -
  have xs: "length xs = 3" "set (take 3 xs) = bytes_of_string ` set pws" using pws(1) by (simp_all add: xs_def)
  have pw_in: "bytes_of_string pw \<in> bytes_of_string ` set pws \<longleftrightarrow> pw \<in> set pws" by auto
  note again = tried_again [of 3 xs "bytes_of_string pw"]
  have short: "\<forall>x \<in> set (tried 3 (bytes_of_string pw) xs). length x \<le> 255"
    using again xs pws(2) by (auto simp: xs_def)
  have "\<exists>ws'. w_sent ws' = w_sent ws @ map (\<lambda>m. (client, encode m))
        (auth_replies (4 - 1) (bytes_of_string pw) (tried 3 (bytes_of_string pw) xs)) \<and>
      w_net ws' = map (\<lambda>x. deliver client (PassResp x)) (drop (length (tried (4 - 1) (bytes_of_string pw)
        (tried 3 (bytes_of_string pw) xs))) (tried 3 (bytes_of_string pw) xs)) @ [] \<and>
      server_auth_loop lgs client ctext pw 1 ws =
        (if bytes_of_string pw \<in> set (take (4 - 1) (tried 3 (bytes_of_string pw) xs)) then (Inr True, ws')
         else (Inl 1, server_finish lgs ''ABORT'' ''three password attempts failed'' ws'))"
    by (rule server_auth_loop_functional [OF calm(1) _ short]) (use up again xs in auto)
  moreover have "auth_replies (4 - 1) (bytes_of_string pw) (tried 3 (bytes_of_string pw) xs) =
      auth_replies 3 (bytes_of_string pw) xs"
    "bytes_of_string pw \<in> set (take (4 - 1) (tried 3 (bytes_of_string pw) xs)) \<longleftrightarrow> pw \<in> set pws"
    using again xs pw_in by auto
  ultimately obtain ws' where s: "w_sent ws' = w_sent ws @ map (\<lambda>m. (client, encode m)) (auth_replies 3 (bytes_of_string pw) xs)"
    "server_auth_loop lgs client ctext pw 1 ws =
      (if pw \<in> set pws then (Inr True, ws')
       else (Inl 1, server_finish lgs ''ABORT'' ''three password attempts failed'' ws'))"
    by metis
  have "\<exists>w2. w_fs w2 = w_fs wc \<and> w_net w2 = [] \<and> client_calm w2 \<and>
      w_sent w2 = w_sent wc @ map (\<lambda>x. (server, encode (PassResp x)))
        (tried (length pws) (bytes_of_string pw) (map bytes_of_string pws)) \<and>
      client_auth_loop lgc server stext False pws temp 0 wc =
        (if bytes_of_string pw \<in> set (map bytes_of_string pws) then (None, w2)
         else (Some 1, client_abort lgc temp ''server rejected authentication'' w2))"
    by (rule client_auth_functional [OF calm(2)]) (use pws down in \<open>auto simp: xs_def\<close>)
  then obtain wc' where "w_sent wc' = w_sent wc @ map (\<lambda>x. (server, encode (PassResp x))) (tried 3 (bytes_of_string pw) xs)"
    "client_auth_loop lgc server stext False pws temp 0 wc =
      (if pw \<in> set pws then (None, wc')
       else (Some 1, client_abort lgc temp ''server rejected authentication'' wc'))"
    unfolding xs_def pws(1) set_map pw_in by blast
  with s show ?thesis by blast
qed

theorem authentication_agrees_witness:
  "\<exists>ws'. server_auth_loop closed_logger (host 2) [] ''key'' 1
       (quiet_world\<lparr>w_net := [deliver (host 2) (PassResp (bytes_of_string ''no'')),
                            deliver (host 2) (PassResp (bytes_of_string ''key''))]\<rparr>) = (Inr True, ws') \<and>
     w_sent ws' = [(host 2, encode PassReq), (host 2, encode PassAccept)]"
proof -
  let ?ws = "quiet_world\<lparr>w_net := [deliver (host 2) (PassResp (bytes_of_string ''no'')),
      deliver (host 2) (PassResp (bytes_of_string ''key''))]\<rparr>"
  let ?wc = "quiet_world\<lparr>w_net := map (deliver (host 1)) [PassReq, PassReq, PassAccept]\<rparr>"
  have calm: "server_calm ?ws" "client_calm ?wc"
    by (simp_all add: server_calm_def client_calm_def quiet_parts)
  have "bytes_of_string ''no'' \<noteq> bytes_of_string ''key''" by (simp only: bytes_of_string_inj) simp
  then have "\<exists>ws' wc'. w_sent ws' = w_sent ?ws @ map (\<lambda>m. (host 2, encode m))
        (auth_replies 3 (bytes_of_string ''key'') (map bytes_of_string [''no'', ''key'', ''x''])) \<and>
      w_sent wc' = w_sent ?wc @ map (\<lambda>x. (host 1, encode (PassResp x)))
        (tried 3 (bytes_of_string ''key'') (map bytes_of_string [''no'', ''key'', ''x''])) \<and>
      server_auth_loop closed_logger (host 2) [] ''key'' 1 ?ws =
        (if ''key'' \<in> set [''no'', ''key'', ''x''] then (Inr True, ws')
         else (Inl 1, server_finish closed_logger ''ABORT'' ''three password attempts failed'' ws')) \<and>
      client_auth_loop closed_logger (host 1) [] False [''no'', ''key'', ''x''] ''t'' 0 ?wc =
        (if ''key'' \<in> set [''no'', ''key'', ''x''] then (None, wc')
         else (Some 1, client_abort closed_logger ''t'' ''server rejected authentication'' wc'))"
    by (intro authentication_agrees [OF calm]) (simp_all del: bytes_of_string_inj opaque)
  with \<open>bytes_of_string ''no'' \<noteq> _\<close> show ?thesis by (auto simp: quiet_parts simp del: opaque)
qed

section \<open>The sliding window\<close>

text \<open>
  C6. The sending side of a reliable transfer, whatever feedback arrives: the window
  never opens further than its size beyond the first unacknowledged chunk, every
  chunk behind the base is covered by an ACK that really arrived from the peer, the
  chunks keep their bytes, and everything sent is one of the file's DATA packets.
\<close>

theorem sliding_window_invariant:
  assumes load: "load_reliable_chunks path w = (Some cs, w1)" and f: "w_fs w path = Some f"
    and loop: "reliable_loop fuel lg peer pt win tmo \<lparr>rs_chunks = cs, rs_base = 0, rs_next = 0\<rparr> w1
      = Some (rc, st, w2)"
  defines "W \<equiv> map encode (data_messages 0 (chunks PROTOCOL_DATA_CHUNK_SIZE (f_data f)))"
  shows "rs_next st \<le> rs_base st + win \<and> rs_next st \<le> length W \<and> map rc_wire (rs_chunks st) = W \<and>
    (\<forall>i < rs_base st. \<exists>k awin. (peer, encode (Ack k awin)) \<in> set (arrivals (w_net w)) \<and> i < unat k) \<and>
    (\<forall>x \<in> set (drop (length (w_sent w1)) (w_sent w2)). fst x = peer \<and> snd x \<in> set W)"
proof -
  let ?A = "set (arrivals (w_net w))"
  have inv: "rel_inv ?A peer W \<lparr>rs_chunks = cs, rs_base = 0, rs_next = 0\<rparr>" and net: "w_net w1 = w_net w"
    using load_reliable_chunks_effect [OF load] f by (auto simp: W_def simp del: opaque)
  from reliable_loop_effect [OF loop inv] net
  have st: "rel_inv ?A peer W st" and sent: "emits (\<lambda>x. fst x = peer \<and> snd x \<in> set W) w1 w2" by auto
  from reliable_loop_window [OF loop] have "rs_next st \<le> rs_base st + win" by simp
  with st rel_inv_lengths [OF st] emits_new [OF sent] show ?thesis
    by (auto simp: rel_inv_def window_inv_def acked_by_def simp del: opaque)
qed

theorem sliding_window_invariant_witness:
  "\<exists>cs w1 rc st w2. load_reliable_chunks ''in'' server_world = (Some cs, w1) \<and>
     reliable_loop 2 closed_logger (host 2) [] 4 400 \<lparr>rs_chunks = cs, rs_base = 0, rs_next = 0\<rparr> w1
       = Some (rc, st, w2) \<and> rs_next st \<le> rs_base st + 4"
proof -
  from load_reliable_chunks_calm [OF server_world_parts(1,3,2)] obtain cs w1 where
    ld: "load_reliable_chunks ''in'' server_world = (Some cs, w1)" "server_calm w1" "length cs = 1"
    by (auto simp: new_file_def chunks123 protocol_sizes)
  have "w_net w1 = map (\<lambda>k. deliver (host 2) (Ack k 4)) [1] @ []"
    using load_reliable_chunks_effect [OF ld(1)] server_world_parts(5) by (simp del: opaque)
  then obtain rc st w2 where run: "reliable_loop 2 closed_logger (host 2) [] 4 400
      \<lparr>rs_chunks = cs, rs_base = 0, rs_next = 0\<rparr> w1 = Some (rc, st, w2)"
    using reliable_loop_completes [OF ld(2), of "host 2" 4 "[1]" "[]"
        "\<lparr>rs_chunks = cs, rs_base = 0, rs_next = 0\<rparr>" closed_logger "[]" 4 400] ld(3)
    by (auto simp: numeral_2_eq_2 simp del: opaque reliable_loop.simps)
  from sliding_window_invariant [OF ld(1) server_world_parts(1) run] ld(1) run show ?thesis by blast
qed

text \<open>
  C7. A reliable transfer ends when the client acknowledges the whole file: with no
  fault and no signal, any number of ACKs (in any order, duplicates included) of which
  one covers the last chunk lets the server's transfer return success within one loop
  round for each of them.
\<close>

theorem reliable_transfer_completes:
  assumes "w_fs w path = Some f" "w_allocfault w = []" "server_calm w"
    and "w_net w = map (\<lambda>k. deliver peer (Ack k awin)) ks @ rest"
    and "\<exists>k \<in> set ks. length (chunks PROTOCOL_DATA_CHUNK_SIZE (f_data f)) \<le> unat k"
  shows "\<exists>w1. server_transfer_file_reliable (Suc (length ks)) lg peer pt path (sha1_digest (f_data f)) w = Some (0, w1)"
  by (rule transfer_reliable_completes [OF assms length_sha1_digest])

theorem reliable_transfer_completes_witness:
  "\<exists>w1. server_transfer_file_reliable 2 closed_logger (host 2) [] ''in'' (sha1_digest [1, 2, 3]) server_world
     = Some (0, w1)"
  using reliable_transfer_completes [OF server_world_parts(1), of "host 2" 4 "[1]" "[]" closed_logger "[]"]
  by (simp add: server_world_parts new_file_def chunks123 protocol_sizes numeral_2_eq_2 del: opaque)

text \<open>
  C21. No number of rounds ends the reliable transfer of a nonempty file to a client
  that has fallen silent: whatever the fuel, the sender's loop has not returned. The
  code has no limit on retransmissions and no overall deadline.
\<close>

theorem silent_client_never_ends:
  assumes "w_fs w path = Some f" "w_allocfault w = []" "server_calm w" "w_net w = []" "f_data f \<noteq> []"
  shows "server_transfer_file_reliable fuel lg peer pt path digest w = None"
  by (rule transfer_reliable_silent [OF assms])

theorem silent_client_never_ends_witness:
  "server_transfer_file_reliable 1000 closed_logger (host 2) [] ''in'' (sha1_digest [1, 2, 3])
     (quiet_world\<lparr>w_fs := [''in'' \<mapsto> new_file [1, 2, 3]]\<rparr>) = None"
  by (rule silent_client_never_ends [of _ "''in''" "new_file [1, 2, 3]"])
    (simp_all add: quiet_parts server_calm_def new_file_def)

section \<open>Logged packets\<close>

text \<open>
  The packet identifiers of the two logs agree: for every message, the event of
  the sending side and the event of the receiving side carry the same identifier,
  whatever the attempt counters and the other fields are.
\<close>

lemma packet_uid_agrees:
  assumes "msg_ok m" "p_type p = p_type (packet_of m)"
    "p_type p = pkt PKT_DATA \<longrightarrow> p_packet_id p = p_packet_id (packet_of m)"
  shows "le_packet_uid (server_packet_event lv ev st pt (encode m) p dir att n) =
     le_packet_uid (client_packet_event lv' ev' st' pt' (encode m) (packet_of m) dir' att' n')"
proof -
  have "encode m \<noteq> []" using length_encode [OF assms(1)] by (metis list.size(3) not_numeral_le_zero)
  then show ?thesis
    using assms(2,3) compute_packet_uid_ignores_attempt [of "encode m" 24 _ _ att att']
    by (simp add: server_packet_event_def client_packet_event_def Let_def)
qed

text \<open>
  C11. The password stays out of the log: the events of a PASS_RESP on either side
  have no hex dump, and for two passwords of the same length they are equal but for
  the packet identifier.
\<close>

theorem password_not_in_events:
  fixes lv ev st pt dir :: string and att n :: int and pw pw' :: "byte list"
  assumes "length pw = length pw'" "length pw \<le> 255"
  defines "ev1 \<equiv> \<lambda>x. server_packet_event lv ev st pt (encode (PassResp x)) (packet_of (PassResp x)) dir att n"
    and "ev2 \<equiv> \<lambda>x. client_packet_event lv ev st pt (encode (PassResp x)) (packet_of (PassResp x)) dir att n"
  shows "le_wire_hex (ev1 pw) = None \<and> (ev1 pw)\<lparr>le_packet_uid := None\<rparr> = (ev1 pw')\<lparr>le_packet_uid := None\<rparr> \<and>
    le_wire_hex (ev2 pw) = None \<and> (ev2 pw)\<lparr>le_packet_uid := None\<rparr> = (ev2 pw')\<lparr>le_packet_uid := None\<rparr>"
  using assms(1,2)
  by (simp add: ev1_def ev2_def server_packet_event_def client_packet_event_def
      server_log_defaults_def client_log_defaults_def zero_event_def Let_def)

theorem password_not_in_events_witness:
  "le_wire_hex (server_packet_event [] [] [] [] (encode (PassResp [97])) (packet_of (PassResp [97])) [] 0 0) = None"
  using password_not_in_events [of "[97]" "[98]" "[]" "[]" "[]" "[]" "[]" 0 0] by simp

section \<open>Simulated faults\<close>

text \<open>
  The simulated reordering reorders nothing: over the first pass of the window
  the server sends each chunk's first transmission (twice for a simulated duplicate,
  not at all for a simulated drop) in the order of the packet numbers, also for the
  chunks marked for reordering, because a held chunk is released before the next one.
\<close>

lemma reorder_simulation_keeps_order:
  assumes "load_reliable_chunks path w = (Some cs, w1)" "server_calm w1"
    and "reliable_fill lg peer pt win 0 cs 0 w1 = (rc, cs1, n, w2)"
  shows "w_sent w2 = w_sent w1 @ concat (map (\<lambda>i. first_sends peer (cs ! i)) [0..<n])"
  using reliable_fill_order [OF assms(3,2)] load_reliable_chunks_fresh [OF assms(1)]
  by (simp add: none_held_def)

end
